(* ===== verification/Prelude.thy ===== *)
theory Prelude
  imports Complex_Main "HOL-Library.AList" "HOL-Library.Char_ord" "HOL-Library.List_Lexorder"
    "HOL-Library.Product_Lexorder"
begin

text \<open>
  What the component theories share: the built-in exceptions of Python as values, Python
  dictionaries as association lists in insertion order with their interface, loops whose
  body may raise while the state reached so far survives, and the interface of a transition
  system with an inductive invariant.
\<close>

section \<open>Collections of hints\<close>

named_theorems dict_simps \<open>how the dictionary operations look up and keep keys distinct\<close>
named_theorems outcome_simps \<open>how the sequencing operators compute\<close>


section \<open>Exceptions and outcomes\<close>

text \<open>
  An operation of the program that may raise returns \<open>Inl e\<close> (the exception) or \<open>Inr a\<close> (the
  value). Python does not undo a mutation when an exception leaves a function, so an operation
  on a state returns the state it reached together with the value or the exception.
\<close>

datatype py_error =
    AssertionError
  | AttributeError
  | IndexError
  | KeyError
  | TypeError
  | ValueError
  | NotImplementedErr

type_synonym ('e, 'a, 's) outcome = "('e + 'a) \<times> 's"

text \<open>Sequencing: the second operation starts in the state the first one reached.\<close>

definition and_then ::
  "('e, 'a, 's) outcome \<Rightarrow> ('a \<Rightarrow> 's \<Rightarrow> ('e, 'b, 's) outcome) \<Rightarrow> ('e, 'b, 's) outcome" where
  "and_then m k = (case m of (Inl e, s) \<Rightarrow> (Inl e, s) | (Inr a, s) \<Rightarrow> k a s)"

lemma and_then_simps [simp, outcome_simps]:
  "and_then (Inl e, s) k = (Inl e, s)"
  "and_then (Inr a, s) k = k a s"
  by (simp_all add: and_then_def)

lemma and_then_Inr: "and_then m k = (Inr b, s') \<longleftrightarrow> (\<exists>a s. m = (Inr a, s) \<and> k a s = (Inr b, s'))"
  by (cases m; cases "fst m") (auto simp: and_then_def)

text \<open>A \<open>for\<close> loop over a list that is fixed before the loop starts.\<close>

fun for_each :: "('a \<Rightarrow> 's \<Rightarrow> ('e, unit, 's) outcome) \<Rightarrow> 'a list \<Rightarrow> 's \<Rightarrow> ('e, unit, 's) outcome"
where
  "for_each f [] s = (Inr (), s)"
| "for_each f (x # xs) s = and_then (f x s) (\<lambda>_. for_each f xs)"

lemma for_each_append:
  "for_each f (xs @ ys) s = and_then (for_each f xs s) (\<lambda>_. for_each f ys)"
proof (induction xs arbitrary: s)
  case Nil
  then show ?case by simp
next
  case (Cons x xs)
  obtain r t where "f x s = (r, t)" by (cases "f x s")
  with Cons.IH [of t] show ?case by (cases r) simp_all
qed

text \<open>Whatever every run of the body keeps, a loop keeps, also when it stops at an exception.\<close>

lemma and_then_keeps:
  assumes "P (snd m)" and "\<And>a s. m = (Inr a, s) \<Longrightarrow> P s \<Longrightarrow> P (snd (k a s))"
  shows "P (snd (and_then m k))"
proof -
  obtain r s where m: "m = (r, s)" by (cases m)
  show ?thesis
  proof (cases r)
    case (Inl e)
    with m assms(1) show ?thesis by simp
  next
    case (Inr a)
    with m assms(1) assms(2) [of a s] show ?thesis by simp
  qed
qed

lemma for_each_keeps:
  assumes "P s" and "\<And>x t. x \<in> set xs \<Longrightarrow> P t \<Longrightarrow> P (snd (f x t))"
  shows "P (snd (for_each f xs s))"
  using assms
proof (induction xs arbitrary: s)
  case Nil
  then show ?case by simp
next
  case (Cons x xs)
  obtain r t where fx: "f x s = (r, t)" by (cases "f x s")
  with Cons.prems(1) Cons.prems(2) [of x s] have "P t" by simp
  with fx Cons.IH [of t] Cons.prems(2) show ?case by (cases r) simp_all
qed

lemma for_each_returns:
  assumes "P s"
    and "\<And>x t. x \<in> set xs \<Longrightarrow> P t \<Longrightarrow> fst (f x t) = Inr () \<and> P (snd (f x t))"
  shows "fst (for_each f xs s) = Inr () \<and> P (snd (for_each f xs s))"
  using assms
proof (induction xs arbitrary: s)
  case Nil
  then show ?case by simp
next
  case (Cons x xs)
  obtain t where "f x s = (Inr (), t)" and "P t"
    using Cons.prems(1) Cons.prems(2) [of x s] by (cases "f x s") auto
  with Cons.IH [of t] Cons.prems(2) show ?case by simp
qed


text \<open>An exception that neither part raises is not raised by the whole.\<close>

lemma and_then_not_raises:
  assumes "fst m \<noteq> Inl e" and "\<And>a s. m = (Inr a, s) \<Longrightarrow> fst (k a s) \<noteq> Inl e"
  shows "fst (and_then m k) \<noteq> Inl e"
proof -
  obtain r s where m: "m = (r, s)" by (cases m)
  with assms show ?thesis by (cases r) simp_all
qed

lemma for_each_not_raises:
  assumes "P s"
    and "\<And>x t. x \<in> set xs \<Longrightarrow> P t \<Longrightarrow> fst (f x t) \<noteq> Inl e \<and> P (snd (f x t))"
  shows "fst (for_each f xs s) \<noteq> Inl e"
  using assms
proof (induction xs arbitrary: s)
  case Nil
  then show ?case by simp
next
  case (Cons x xs)
  obtain r t where fx: "f x s = (r, t)" by (cases "f x s")
  with Cons.prems(1) Cons.prems(2) [of x s] have "r \<noteq> Inl e" and "P t" by simp_all
  with fx Cons.IH [of t] Cons.prems(2) show ?case by (cases r) simp_all
qed


section \<open>Dictionaries\<close>

text \<open>
  A Python \<open>dict\<close> keeps its keys in insertion order, and the program iterates over
  dictionaries, so they are association lists with distinct keys. \<open>d[k]\<close> is \<open>map_of d k\<close>,
  \<open>d[k] = v\<close> is \<open>AList.update k v d\<close> (in place for a key that is there, at the end otherwise)
  and \<open>del d[k]\<close> is \<open>AList.delete k d\<close>.
\<close>

type_synonym ('k, 'v) dict = "('k \<times> 'v) list"

abbreviation dict_wf :: "('k, 'v) dict \<Rightarrow> bool" where
  "dict_wf d \<equiv> distinct (map fst d)"

abbreviation keys :: "('k, 'v) dict \<Rightarrow> 'k list" where
  "keys d \<equiv> map fst d"

definition dict_all :: "('k \<Rightarrow> 'v \<Rightarrow> bool) \<Rightarrow> ('k, 'v) dict \<Rightarrow> bool" where
  "dict_all P d \<longleftrightarrow> (\<forall>(k, v) \<in> set d. P k v)"

text \<open>What a client of a dictionary may rely on.\<close>

locale dictionary =
  fixes get :: "'d \<Rightarrow> 'k \<Rightarrow> 'v option"
    and put :: "'k \<Rightarrow> 'v \<Rightarrow> 'd \<Rightarrow> 'd"
    and del :: "'k \<Rightarrow> 'd \<Rightarrow> 'd"
    and ok :: "'d \<Rightarrow> bool"
  assumes get_put: "get (put k v d) = (get d)(k \<mapsto> v)"
    and get_del: "get (del k d) = (get d)(k := None)"
    and ok_put: "ok d \<Longrightarrow> ok (put k v d)"
    and ok_del: "ok d \<Longrightarrow> ok (del k d)"
begin

definition every :: "('k \<Rightarrow> 'v \<Rightarrow> bool) \<Rightarrow> 'd \<Rightarrow> bool" where
  "every P d \<longleftrightarrow> (\<forall>k v. get d k = Some v \<longrightarrow> P k v)"

lemma get_put_other: "k \<noteq> k' \<Longrightarrow> get (put k v d) k' = get d k'"
  by (simp add: get_put)

lemma put_put_get: "get (put k v (put k w d)) = get (put k v d)"
  by (simp add: get_put)

lemma del_put_get: "get (del k (put k v d)) = get (del k d)"
  by (simp add: get_put get_del)

lemma every_put: "every P d \<Longrightarrow> P k v \<Longrightarrow> every P (put k v d)"
  by (simp add: every_def get_put)

lemma every_del: "every P d \<Longrightarrow> every P (del k d)"
  by (simp add: every_def get_del)

lemma every_get: "every P d \<Longrightarrow> get d k = Some v \<Longrightarrow> P k v"
  by (simp add: every_def)

lemma every_mono: "every P d \<Longrightarrow> (\<And>k v. get d k = Some v \<Longrightarrow> P k v \<Longrightarrow> Q k v) \<Longrightarrow> every Q d"
  by (simp add: every_def)

end

interpretation dict: dictionary map_of AList.update AList.delete dict_wf
  by unfold_locales (simp_all add: update_conv' delete_conv' distinct_update distinct_delete)

lemma map_of_update [simp, dict_simps]:
  "map_of (AList.update k v d) k' = (if k' = k then Some v else map_of d k')"
  by (simp add: dict.get_put)

lemma map_of_delete [simp, dict_simps]:
  "map_of (AList.delete k d) k' = (if k' = k then None else map_of d k')"
  by (simp add: dict.get_del)

lemma dict_wf_update [simp, dict_simps]: "dict_wf d \<Longrightarrow> dict_wf (AList.update k v d)"
  by (rule dict.ok_put)

lemma dict_wf_delete [simp, dict_simps]: "dict_wf d \<Longrightarrow> dict_wf (AList.delete k d)"
  by (rule dict.ok_del)

lemma map_of_eq_None: "map_of d k = None \<longleftrightarrow> k \<notin> set (keys d)"
  by (simp add: map_of_eq_None_iff)

lemma set_keys_update [simp, dict_simps]:
  "fst ` set (AList.update k v d) = insert k (fst ` set d)"
  by (induction d) auto

lemma set_keys_delete [simp, dict_simps]:
  "fst ` set (AList.delete k d) = fst ` set d - {k}"
  by (induction d) (auto simp: AList.delete_eq)

lemma update_present_keys: "k \<in> fst ` set d \<Longrightarrow> keys (AList.update k v d) = keys d"
  by (induction d) auto

lemma update_absent: "k \<notin> fst ` set d \<Longrightarrow> AList.update k v d = d @ [(k, v)]"
  by (induction d) auto

lemma set_update_subset: "set (AList.update k v d) \<subseteq> insert (k, v) (set d)"
  by (induction d) auto

lemma in_update_iff:
  "dict_wf d \<Longrightarrow> (x, y) \<in> set (AList.update k v d) \<longleftrightarrow> (if x = k then y = v else (x, y) \<in> set d)"
  by (induction d) (auto simp: image_iff)

lemma in_delete_iff: "(x, y) \<in> set (AList.delete k d) \<longleftrightarrow> x \<noteq> k \<and> (x, y) \<in> set d"
  by (auto simp: AList.delete_eq)

lemma dict_in_iff: "dict_wf d \<Longrightarrow> (k, v) \<in> set d \<longleftrightarrow> map_of d k = Some v"
  by (auto simp: map_of_is_SomeI dest: map_of_SomeD)

lemma dict_all_every: "dict_wf d \<Longrightarrow> dict_all P d \<longleftrightarrow> dict.every P d"
proof -
  assume wf: "dict_wf d"
  have "dict_all P d \<longleftrightarrow> (\<forall>k v. (k, v) \<in> set d \<longrightarrow> P k v)"
    unfolding dict_all_def by blast
  with dict_in_iff [OF wf] show ?thesis by (simp add: dict.every_def)
qed

lemma values_update_subset:
  "snd ` set (AList.update k v d) \<subseteq> insert v (snd ` set d)"
  using set_update_subset [of k v d] by force

lemma distinct_values_update:
  "dict_wf d \<Longrightarrow> distinct (map snd d) \<Longrightarrow> v \<notin> snd ` set d \<Longrightarrow>
   distinct (map snd (AList.update k v d))"
proof (induction d)
  case Nil
  then show ?case by simp
next
  case (Cons a d)
  obtain k' v' where "a = (k', v')" by (cases a)
  then show ?case
    using Cons values_update_subset [of k v d] by (auto simp: image_iff)
qed

text \<open>\<open>d.setdefault(k, v)\<close>.\<close>

definition dict_setdefault :: "'k \<Rightarrow> 'v \<Rightarrow> ('k, 'v) dict \<Rightarrow> ('k, 'v) dict" where
  "dict_setdefault k v d = (case map_of d k of None \<Rightarrow> AList.update k v d | Some _ \<Rightarrow> d)"

lemma map_of_setdefault [simp, dict_simps]:
  "map_of (dict_setdefault k v d) k' =
     (if k' = k \<and> map_of d k = None then Some v else map_of d k')"
  by (auto simp: dict_setdefault_def split: option.splits)

lemma dict_wf_setdefault [simp, dict_simps]: "dict_wf d \<Longrightarrow> dict_wf (dict_setdefault k v d)"
  by (auto simp: dict_setdefault_def split: option.splits)

text \<open>\<open>d.update(e)\<close>.\<close>

definition dict_update :: "('k, 'v) dict \<Rightarrow> ('k, 'v) dict \<Rightarrow> ('k, 'v) dict" where
  "dict_update d e = fold (\<lambda>(k, v). AList.update k v) e d"

lemma map_of_dict_update:
  "dict_wf e \<Longrightarrow> map_of (dict_update d e) k = (case map_of e k of None \<Rightarrow> map_of d k | Some v \<Rightarrow> Some v)"
  unfolding dict_update_def
proof (induction e arbitrary: d)
  case Nil
  then show ?case by simp
next
  case (Cons a e)
  obtain k' v' where a: "a = (k', v')" by (cases a)
  with Cons.prems have "map_of e k' = None" by (simp add: map_of_eq_None)
  with Cons a show ?case by (auto split: option.splits)
qed

lemma dict_wf_dict_update: "dict_wf d \<Longrightarrow> dict_wf (dict_update d e)"
  unfolding dict_update_def by (induction e arbitrary: d) (auto split: prod.splits)


section \<open>Lists\<close>

text \<open>\<open>xs.remove(x)\<close> raises for an element that is not there.\<close>

definition py_remove :: "'a \<Rightarrow> 'a list \<Rightarrow> py_error + 'a list" where
  "py_remove x xs = (if x \<in> set xs then Inr (remove1 x xs) else Inl ValueError)"

lemma py_remove_simps [simp]:
  "x \<in> set xs \<Longrightarrow> py_remove x xs = Inr (remove1 x xs)"
  "x \<notin> set xs \<Longrightarrow> py_remove x xs = Inl ValueError"
  by (simp_all add: py_remove_def)

lemma find_SomeD: "find P xs = Some x \<Longrightarrow> x \<in> set xs \<and> P x"
  by (induction xs) (auto split: if_splits)

text \<open>Truthiness of an optional string: \<open>None\<close> and the empty string are false.\<close>

fun truthy :: "string option \<Rightarrow> bool" where
  "truthy None = False"
| "truthy (Some s) = (s \<noteq> [])"

lemma truthy_iff: "truthy x \<longleftrightarrow> (\<exists>s. x = Some s \<and> s \<noteq> [])"
  by (cases x) auto


section \<open>Transition systems\<close>

text \<open>
  A component with steps: whatever holds in its start states and is kept by every step holds
  in every state it can reach.
\<close>

locale transition_system =
  fixes start :: "'s \<Rightarrow> bool"
    and step :: "'s \<Rightarrow> 's \<Rightarrow> bool"
    and inv :: "'s \<Rightarrow> bool"
  assumes start_inv: "start s \<Longrightarrow> inv s"
    and step_inv: "step s t \<Longrightarrow> inv s \<Longrightarrow> inv t"
begin

lemma steps_inv: "step\<^sup>*\<^sup>* s t \<Longrightarrow> inv s \<Longrightarrow> inv t"
  by (induction rule: rtranclp_induct) (auto intro: step_inv)

lemma reachable_inv: "start s \<Longrightarrow> step\<^sup>*\<^sup>* s t \<Longrightarrow> inv t"
  using steps_inv start_inv by blast

lemma reachable_implies: "start s \<Longrightarrow> step\<^sup>*\<^sup>* s t \<Longrightarrow> (\<And>u. inv u \<Longrightarrow> P u) \<Longrightarrow> P t"
  using reachable_inv by blast

end

end
