(* ===== verification/PyLib.thy ===== *)
theory PyLib
  imports Prelude
begin

text \<open>
  The functions of Python's standard library on strings that the program uses: \<open>str.split\<close>,
  \<open>str.join\<close>, \<open>str.isdigit\<close>, \<open>fnmatch.fnmatchcase\<close>, and the two regular expressions of
  \<^verbatim>\<open>labgrid/remote/common.py\<close> under \<open>re.match\<close>. Strings are lists of characters with code
  points below 256.
\<close>

section \<open>Values\<close>

text \<open>
  The Python values that parameters and configuration files hold. A float is a real number:
  rounding, NaN and the infinities are not modelled.
\<close>

datatype pyval =
    VNone
  | VBool bool
  | VInt int
  | VFloat real
  | VStr string
  | VList "pyval list"
  | VDict "(string \<times> pyval) list"


section \<open>Operations on values\<close>

fun digit :: "nat \<Rightarrow> char" where
  "digit n = char_of (48 + n)"

fun show_nat :: "nat \<Rightarrow> string" where
  "show_nat n = (if n < 10 then [digit n] else show_nat (n div 10) @ [digit (n mod 10)])"

declare show_nat.simps [simp del]

definition show_int :: "int \<Rightarrow> string" where
  "show_int i = (if i < 0 then CHR ''-'' # show_nat (nat (- i)) else show_nat (nat i))"

text \<open>Truth of a value: \<open>None\<close>, \<open>False\<close>, zero and what is empty are false.\<close>

fun py_true :: "pyval \<Rightarrow> bool" where
  "py_true VNone = False"
| "py_true (VBool b) = b"
| "py_true (VInt i) = (i \<noteq> 0)"
| "py_true (VFloat x) = (x \<noteq> 0)"
| "py_true (VStr s) = (s \<noteq> [])"
| "py_true (VList xs) = (xs \<noteq> [])"
| "py_true (VDict d) = (d \<noteq> [])"

text \<open>
  Equality: booleans and numbers are compared as numbers, and two dictionaries are equal when
  they have the same keys with equal values, in whatever order.
\<close>

fun as_number :: "pyval \<Rightarrow> real option" where
  "as_number (VBool b) = Some (if b then 1 else 0)"
| "as_number (VInt i) = Some (real_of_int i)"
| "as_number (VFloat x) = Some x"
| "as_number _ = None"

lemma size_in_list: "x \<in> set xs \<Longrightarrow> size x < size (VList xs)"
proof -
  assume "x \<in> set xs"
  then have "size x \<le> size_list size xs" by (rule size_list_estimation') simp
  then show ?thesis by simp
qed

lemma size_in_dict: "(k, v) \<in> set d \<Longrightarrow> size v < size (VDict d)"
proof -
  assume "(k, v) \<in> set d"
  then have "size v \<le> size_list (size_prod (\<lambda>_. 0) size) d"
    by (rule size_list_estimation') simp
  then show ?thesis by simp
qed

function (sequential) py_eq :: "pyval \<Rightarrow> pyval \<Rightarrow> bool" where
  "py_eq (VStr s) (VStr t) = (s = t)"
| "py_eq (VList xs) (VList ys) =
     (length xs = length ys \<and> list_all (\<lambda>(x, y). py_eq x y) (zip xs ys))"
| "py_eq (VDict d) (VDict e) =
     (length d = length e \<and>
      list_all (\<lambda>(k, v). case map_of e k of None \<Rightarrow> False | Some w \<Rightarrow> py_eq v w) d)"
| "py_eq VNone VNone = True"
| "py_eq v w = (as_number v \<noteq> None \<and> as_number v = as_number w)"
  by pat_completeness auto
termination
  apply (relation "measure (\<lambda>(v, w). size v)", rule wf_measure)
  subgoal by (auto dest!: set_zip_leftD size_in_list)
  subgoal by (auto dest!: size_in_dict)
  done

definition params_eq :: "(string \<times> pyval) list \<Rightarrow> (string \<times> pyval) list \<Rightarrow> bool" where
  "params_eq d e = py_eq (VDict d) (VDict e)"

text \<open>Equal values are equal in both directions only up to the order of keys; every value with
  distinct keys equals itself.\<close>

fun value_wf :: "pyval \<Rightarrow> bool" where
  "value_wf (VList xs) = (\<forall>x \<in> set xs. value_wf x)"
| "value_wf (VDict d) = (distinct (map fst d) \<and> (\<forall>x \<in> set d. value_wf (snd x)))"
| "value_wf _ = True"

lemma zip_same_list_all: "list_all (\<lambda>(x, y). P x y) (zip xs xs) \<longleftrightarrow> (\<forall>x \<in> set xs. P x x)"
  by (induction xs) auto

lemma py_eq_refl: "value_wf v \<Longrightarrow> py_eq v v"
proof (induction v rule: value_wf.induct)
  case (1 xs)
  then show ?case by (simp add: zip_same_list_all)
next
  case (2 d)
  then have wf: "distinct (map fst d)" and eq: "\<And>x. x \<in> set d \<Longrightarrow> py_eq (snd x) (snd x)"
    by simp_all
  have "(case x of (k, v) \<Rightarrow> case map_of d k of None \<Rightarrow> False | Some w \<Rightarrow> py_eq v w)"
    if "x \<in> set d" for x
  proof (cases x)
    case (Pair k v)
    with that wf have "map_of d k = Some v" by (simp add: map_of_is_SomeI)
    with eq [OF that] Pair show ?thesis by simp
  qed
  then show ?case by (simp only: py_eq.simps list_all_iff simp_thms) blast
qed simp_all

lemma params_eq_lookup:
  assumes "dict_wf d" and "dict_wf e" and eq: "params_eq d e" and k: "map_of e k = Some v"
  shows "\<exists>w. map_of d k = Some w \<and> py_eq w v"
proof -
  have len: "length d = length e"
    and all: "\<And>k w. (k, w) \<in> set d \<Longrightarrow> \<exists>v. map_of e k = Some v \<and> py_eq w v"
    using eq by (auto simp: params_eq_def list_all_iff split: option.splits)
  have "fst ` set d \<subseteq> fst ` set e"
  proof
    fix j assume "j \<in> fst ` set d"
    then obtain w where "(j, w) \<in> set d" by force
    from all [OF this] obtain u where "map_of e j = Some u" by blast
    then show "j \<in> fst ` set e" by (metis fst_conv imageI map_of_SomeD)
  qed
  moreover have "card (fst ` set d) = card (fst ` set e)"
    using assms(1,2) len distinct_card [of "map fst d"] distinct_card [of "map fst e"] by simp
  ultimately have "fst ` set d = fst ` set e" by (simp add: card_subset_eq)
  with k have "k \<in> fst ` set d" by (metis fst_conv imageI map_of_SomeD)
  then obtain w where w: "(k, w) \<in> set d" by force
  with assms(1) have "map_of d k = Some w" by (simp add: map_of_is_SomeI)
  with all [OF w] k show ?thesis by simp
qed


section \<open>Splitting and joining\<close>

fun split_on :: "char \<Rightarrow> string \<Rightarrow> string list" where
  "split_on sep [] = [[]]"
| "split_on sep (c # cs) =
     (if c = sep then [] # split_on sep cs
      else case split_on sep cs of [] \<Rightarrow> [[c]] | w # ws \<Rightarrow> (c # w) # ws)"

fun join_with :: "string \<Rightarrow> string list \<Rightarrow> string" where
  "join_with sep [] = []"
| "join_with sep [w] = w"
| "join_with sep (w # v # ws) = w @ sep @ join_with sep (v # ws)"

lemma split_on_not_Nil [simp]: "split_on sep s \<noteq> []"
  by (induction s) (auto split: list.splits)

lemma join_split [simp]: "join_with [sep] (split_on sep s) = s"
proof (induction s)
  case Nil
  then show ?case by simp
next
  case (Cons c s)
  obtain w ws where w: "split_on sep s = w # ws" using split_on_not_Nil by (meson neq_Nil_conv)
  with Cons show ?case by (cases ws) auto
qed

lemma split_on_word: "sep \<notin> set w \<Longrightarrow> split_on sep w = [w]"
  by (induction w) auto

lemma split_on_append: "sep \<notin> set w \<Longrightarrow> split_on sep (w @ sep # s) = w # split_on sep s"
  by (induction w) auto

lemma split_join:
  "ws \<noteq> [] \<Longrightarrow> \<forall>w \<in> set ws. sep \<notin> set w \<Longrightarrow> split_on sep (join_with [sep] ws) = ws"
proof (induction "[sep]" ws rule: join_with.induct)
  case (3 w v ws)
  then show ?case by (simp add: split_on_append)
qed (simp_all add: split_on_word)

lemma split_on_no_sep: "w \<in> set (split_on sep s) \<Longrightarrow> sep \<notin> set w"
proof (induction s arbitrary: w)
  case Nil
  then show ?case by simp
next
  case (Cons c s)
  then show ?case by (cases "split_on sep s") (auto split: if_splits)
qed

lemma length_split_on: "length (split_on sep s) = Suc (count_list s sep)"
proof (induction s)
  case Nil
  then show ?case by simp
next
  case (Cons c s)
  then show ?case by (cases "split_on sep s") auto
qed


section \<open>Character classes\<close>

definition is_lower :: "char \<Rightarrow> bool" where
  "is_lower c \<longleftrightarrow> CHR ''a'' \<le> c \<and> c \<le> CHR ''z''"

definition is_digit :: "char \<Rightarrow> bool" where
  "is_digit c \<longleftrightarrow> CHR ''0'' \<le> c \<and> c \<le> CHR ''9''"

text \<open>\<open>str.isdigit\<close> also accepts the superscripts 2, 3 and 1 (code points 178, 179, 185).\<close>

definition isdigit :: "string \<Rightarrow> bool" where
  "isdigit s \<longleftrightarrow> s \<noteq> [] \<and>
     (\<forall>c \<in> set s. is_digit c \<or> of_char c \<in> {178, 179, 185 :: nat})"

text \<open>
  \<open>re.match\<close> anchors a pattern at the start of the string only: what follows the match is not
  looked at. For \<open>TAG_KEY = [a-z][a-z0-9_]+\<close> that is a test of the first two characters, and
  \<open>TAG_VAL = [a-z0-9_]?\<close> matches the empty prefix of any string.
\<close>

definition is_tag_char :: "char \<Rightarrow> bool" where
  "is_tag_char c \<longleftrightarrow> is_lower c \<or> is_digit c \<or> c = CHR ''_''"

fun tag_key_match :: "string \<Rightarrow> bool" where
  "tag_key_match (a # b # _) = (is_lower a \<and> is_tag_char b)"
| "tag_key_match _ = False"

text \<open>How far the optional character of \<open>TAG_VAL\<close> reaches: a match of length 0 or 1.\<close>

fun tag_val_match_length :: "string \<Rightarrow> nat option" where
  "tag_val_match_length (c # _) = (if is_tag_char c then Some 1 else Some 0)"
| "tag_val_match_length [] = Some 0"

definition tag_val_match :: "string \<Rightarrow> bool" where
  "tag_val_match s \<longleftrightarrow> tag_val_match_length s \<noteq> None"

text \<open>The same patterns under \<open>re.fullmatch\<close>, the language the expressions describe.\<close>

definition tag_key_full :: "string \<Rightarrow> bool" where
  "tag_key_full s \<longleftrightarrow> 2 \<le> length s \<and> is_lower (hd s) \<and> (\<forall>c \<in> set (tl s). is_tag_char c)"

definition tag_val_full :: "string \<Rightarrow> bool" where
  "tag_val_full s \<longleftrightarrow> length s \<le> 1 \<and> (\<forall>c \<in> set s. is_tag_char c)"

lemma tag_key_full_match: "tag_key_full s \<Longrightarrow> tag_key_match s"
  by (cases s rule: tag_key_match.cases) (auto simp: tag_key_full_def)

lemma tag_val_match_always [simp]: "tag_val_match s"
  by (cases s) (auto simp: tag_val_match_def)


section \<open>Shell patterns\<close>

text \<open>
  \<open>fnmatchcase\<close>: \<open>*\<close> stands for any string, \<open>?\<close> for any character, \<open>[seq]\<close> and \<open>[!seq]\<close> for a
  character (not) in the sequence, which may hold ranges; a \<open>[\<close> that is never closed stands
  for itself, and a range whose bounds are reversed holds nothing.
\<close>

datatype glob = Star | AnyChar | OneOf bool "(char \<times> char) list"

fun set_ranges :: "string \<Rightarrow> (char \<times> char) list" where
  "set_ranges [] = []"
| "set_ranges (x # cs) =
     (case cs of
        d # y # rest \<Rightarrow> if d = CHR ''-'' then (x, y) # set_ranges rest else (x, x) # set_ranges cs
      | _ \<Rightarrow> (x, x) # set_ranges cs)"

text \<open>The sequence after a \<open>[\<close>: whether it is negated, its ranges, and the rest of the pattern.\<close>

definition split_set :: "string \<Rightarrow> (bool \<times> (char \<times> char) list \<times> string) option" where
  "split_set s =
     (let neg = (s \<noteq> [] \<and> hd s = CHR ''!'');
          s1 = (if neg then tl s else s);
          lead = (s1 \<noteq> [] \<and> hd s1 = CHR '']'');
          s2 = (if lead then tl s1 else s1);
          body = (if lead then [CHR '']''] else []) @ takeWhile (\<lambda>c. c \<noteq> CHR '']'') s2;
          rest = dropWhile (\<lambda>c. c \<noteq> CHR '']'') s2
      in if rest = [] then None else Some (neg, set_ranges body, tl rest))"

lemma split_set_shorter: "split_set s = Some (neg, ranges, rest) \<Longrightarrow> length rest < length s"
proof -
  assume a: "split_set s = Some (neg, ranges, rest)"
  define s1 where "s1 = (if s \<noteq> [] \<and> hd s = CHR ''!'' then tl s else s)"
  define s2 where "s2 = (if s1 \<noteq> [] \<and> hd s1 = CHR '']'' then tl s1 else s1)"
  define r where "r = dropWhile (\<lambda>c. c \<noteq> CHR '']'') s2"
  have r: "r \<noteq> []" "rest = tl r"
    using a unfolding split_set_def Let_def s1_def [symmetric] s2_def [symmetric] r_def [symmetric]
    by (simp_all split: if_split_asm)
  have "length r \<le> length s2" unfolding r_def by (rule length_dropWhile_le)
  moreover have "length s2 \<le> length s1" by (cases s1) (simp_all add: s2_def)
  moreover have "length s1 \<le> length s" by (cases s) (simp_all add: s1_def)
  moreover have "length (tl r) < length r" using r(1) by (cases r) simp_all
  ultimately have "length (tl r) < length s" by linarith
  with r(2) show ?thesis by (simp only:)
qed

function glob_of :: "string \<Rightarrow> glob list" where
  "glob_of [] = []"
| "glob_of (c # cs) =
     (if c = CHR ''*'' then Star # glob_of cs
      else if c = CHR ''?'' then AnyChar # glob_of cs
      else if c = CHR ''['' then
        (case split_set cs of
           None \<Rightarrow> OneOf False [(c, c)] # glob_of cs
         | Some (neg, ranges, rest) \<Rightarrow> OneOf neg ranges # glob_of rest)
      else OneOf False [(c, c)] # glob_of cs)"
  by pat_completeness auto
termination
  by (relation "measure length") (auto dest: split_set_shorter)

fun in_ranges :: "char \<Rightarrow> (char \<times> char) list \<Rightarrow> bool" where
  "in_ranges c [] = False"
| "in_ranges c ((lo, hi) # rs) = ((lo \<le> c \<and> c \<le> hi) \<or> in_ranges c rs)"

fun glob_match :: "glob list \<Rightarrow> string \<Rightarrow> bool" where
  "glob_match [] s = (s = [])"
| "glob_match (Star # g) [] = glob_match g []"
| "glob_match (Star # g) (c # s) = (glob_match g (c # s) \<or> glob_match (Star # g) s)"
| "glob_match (AnyChar # g) (c # s) = glob_match g s"
| "glob_match (OneOf neg rs # g) (c # s) = (in_ranges c rs \<noteq> neg \<and> glob_match g s)"
| "glob_match (AnyChar # g) [] = False"
| "glob_match (OneOf neg rs # g) [] = False"

definition fnmatchcase :: "string \<Rightarrow> string \<Rightarrow> bool" where
  "fnmatchcase name pat = glob_match (glob_of pat) name"

lemma fnmatchcase_star [simp]: "fnmatchcase name ''*''"
proof -
  have "glob_match [Star] name" by (induction name) auto
  then show ?thesis by (simp add: fnmatchcase_def)
qed

definition plain_pattern :: "string \<Rightarrow> bool" where
  "plain_pattern pat \<longleftrightarrow> (\<forall>c \<in> set pat. c \<notin> {CHR ''*'', CHR ''?'', CHR ''[''})"

lemma fnmatchcase_plain: "plain_pattern pat \<Longrightarrow> fnmatchcase name pat \<longleftrightarrow> name = pat"
proof (induction pat arbitrary: name)
  case Nil
  then show ?case by (simp add: fnmatchcase_def)
next
  case (Cons c pat)
  then have p: "plain_pattern pat" and c: "c \<notin> {CHR ''*'', CHR ''?'', CHR ''[''}"
    by (auto simp: plain_pattern_def)
  show ?case
  proof (cases name)
    case Nil
    with c show ?thesis by (simp add: fnmatchcase_def)
  next
    case (Cons d name')
    with c Cons.IH [OF p, of name'] show ?thesis by (auto simp: fnmatchcase_def)
  qed
qed

lemma plain_pattern_digits: "isdigit s \<Longrightarrow> plain_pattern s"
  unfolding isdigit_def plain_pattern_def is_digit_def by (auto simp: less_eq_char_def)

end
