(* ===== verification/Common.thy ===== *)
theory Common
  imports PyLib
begin

text \<open>
  \<^verbatim>\<open>labgrid/remote/common.py\<close>: the objects that client, coordinator and exporter exchange, their
  operations, and their translation to and from the protobuf messages of
  \<^verbatim>\<open>labgrid-coordinator.proto\<close>. Message fields that the schema marks \<open>optional\<close> are option values,
  so \<open>HasField\<close> is a test against \<open>None\<close>; a protobuf map is a dictionary. Times are
  reals and \<open>time.time()\<close> is an argument.
\<close>

section \<open>Values in messages\<close>

text \<open>\<open>MapValue\<close> with its \<open>oneof kind\<close>; \<open>MUnset\<close> is a message with no kind set.\<close>

datatype map_value =
    MUnset
  | MBool bool
  | MInt int
  | MUInt int
  | MFloat real
  | MStr string

text \<open>
  Assigning an integer that does not fit the field (\<open>int64\<close>, \<open>uint64\<close>) raises \<open>ValueError\<close> in the
  protobuf runtime.
\<close>

definition assign_int :: "int \<Rightarrow> py_error + map_value" where
  "assign_int v =
     (if v < 0 then (if - (2 ^ 63) \<le> v then Inr (MInt v) else Inl ValueError)
      else (if v < 2 ^ 64 then Inr (MUInt v) else Inl ValueError))"

fun to_map_value :: "pyval \<Rightarrow> py_error + map_value" where
  "to_map_value VNone = Inr MUnset"
| "to_map_value (VBool b) = Inr (MBool b)"
| "to_map_value (VInt i) = assign_int i"
| "to_map_value (VFloat x) = Inr (MFloat x)"
| "to_map_value (VStr s) = Inr (MStr s)"
| "to_map_value (VList _) = Inl ValueError"
| "to_map_value (VDict _) = Inl ValueError"

text \<open>The loop fills the map entry by entry; an exception leaves the entries already written.\<close>

fun set_map_from_dict ::
  "(string, map_value) dict \<Rightarrow> (string \<times> pyval) list \<Rightarrow>
   (py_error, unit, (string, map_value) dict) outcome" where
  "set_map_from_dict m [] = (Inr (), m)"
| "set_map_from_dict m ((k, v) # d) =
     (case to_map_value v of
        Inl e \<Rightarrow> (Inl e, m)
      | Inr w \<Rightarrow> set_map_from_dict (AList.update k w m) d)"

fun of_map_value :: "map_value \<Rightarrow> pyval" where
  "of_map_value MUnset = VNone"
| "of_map_value (MBool b) = VBool b"
| "of_map_value (MInt i) = VInt i"
| "of_map_value (MUInt i) = VInt i"
| "of_map_value (MFloat x) = VFloat x"
| "of_map_value (MStr s) = VStr s"

definition build_dict_from_map :: "(string, map_value) dict \<Rightarrow> (string \<times> pyval) list" where
  "build_dict_from_map m = fold (\<lambda>(k, v). AList.update k (of_map_value v)) m []"

text \<open>The values a message can carry.\<close>

fun sendable :: "pyval \<Rightarrow> bool" where
  "sendable (VInt i) = (- (2 ^ 63) \<le> i \<and> i < 2 ^ 64)"
| "sendable (VList _) = False"
| "sendable (VDict _) = False"
| "sendable _ = True"

lemma to_map_value_sendable: "(\<exists>w. to_map_value v = Inr w) \<longleftrightarrow> sendable v"
  by (cases v) (auto simp: assign_int_def)

lemma to_map_value_error: "to_map_value v = Inl e \<Longrightarrow> e = ValueError \<and> \<not> sendable v"
  by (cases v) (auto simp: assign_int_def split: if_splits)

lemma of_to_map_value: "to_map_value v = Inr w \<Longrightarrow> of_map_value w = v"
  by (cases v) (auto simp: assign_int_def split: if_splits)

lemma fold_update_distinct:
  "distinct (map f d) \<Longrightarrow> fst ` set acc \<inter> f ` set d = {} \<Longrightarrow>
   fold (\<lambda>x. AList.update (f x) (g x)) d acc = acc @ map (\<lambda>x. (f x, g x)) d"
proof (induction d arbitrary: acc)
  case Nil
  then show ?case by simp
next
  case (Cons x d)
  have "AList.update (f x) (g x) acc = acc @ [(f x, g x)]"
    using Cons.prems(2) by (intro update_absent) auto
  with Cons show ?case by auto
qed

lemma build_dict_from_map_wf:
  assumes "dict_wf m"
  shows "build_dict_from_map m = map (\<lambda>(k, v). (k, of_map_value v)) m"
proof -
  have "fold (\<lambda>x. AList.update (fst x) (of_map_value (snd x))) m [] =
      [] @ map (\<lambda>x. (fst x, of_map_value (snd x))) m"
    by (rule fold_update_distinct) (simp_all add: assms)
  then show ?thesis by (simp add: build_dict_from_map_def case_prod_beta')
qed

lemma set_map_from_dict_sendable:
  assumes "dict_wf d" and "fst ` set m \<inter> fst ` set d = {}" and "\<forall>v \<in> snd ` set d. sendable v"
  shows "\<exists>m'. set_map_from_dict m d = (Inr (), m @ m') \<and>
     map (\<lambda>(k, v). (k, of_map_value v)) m' = d"
  using assms
proof (induction d arbitrary: m)
  case Nil
  then show ?case by simp
next
  case (Cons x d)
  obtain k v where x: "x = (k, v)" by (cases x)
  with Cons.prems(3) have "sendable v" by simp
  then obtain w where w: "to_map_value v = Inr w"
    unfolding to_map_value_sendable [symmetric] by blast
  have k: "k \<notin> fst ` set m" "k \<notin> fst ` set d" using Cons.prems(1,2) by (simp_all add: x)
  have wf: "dict_wf d" using Cons.prems(1) by simp
  have disj: "fst ` set (m @ [(k, w)]) \<inter> fst ` set d = {}" using Cons.prems(2) k by (simp add: x)
  have send: "\<forall>v \<in> snd ` set d. sendable v" using Cons.prems(3) by simp
  from Cons.IH [OF wf disj send] obtain m' where
    m': "set_map_from_dict (m @ [(k, w)]) d = (Inr (), (m @ [(k, w)]) @ m')"
    "map (\<lambda>(k, v). (k, of_map_value v)) m' = d" by (elim exE conjE)
  have up: "AList.update k w m = m @ [(k, w)]" by (rule update_absent [OF k(1)])
  have "set_map_from_dict m (x # d) = (Inr (), m @ ((k, w) # m'))"
    unfolding x set_map_from_dict.simps w sum.case up m'(1) append_assoc append_Cons append_Nil ..
  moreover have "map (\<lambda>(k, v). (k, of_map_value v)) ((k, w) # m') = x # d"
    unfolding x list.map m'(2) prod.case of_to_map_value [OF w] ..
  ultimately show ?case by (intro exI conjI)
qed

lemma set_map_from_dict_error:
  "\<exists>v \<in> snd ` set d. \<not> sendable v \<Longrightarrow> fst (set_map_from_dict m d) = Inl ValueError"
proof (induction d arbitrary: m)
  case Nil
  then show ?case by simp
next
  case (Cons x d)
  obtain k v where x: "x = (k, v)" by (cases x)
  show ?case
  proof (cases "to_map_value v")
    case (Inl e)
    with x to_map_value_error [OF Inl] show ?thesis by simp
  next
    case (Inr w)
    with x Cons to_map_value_sendable [of v] show ?thesis by auto
  qed
qed


lemma map_value_map:
  assumes "dict_wf d" and "\<forall>v \<in> snd ` set d. sendable v"
  shows "\<exists>m. set_map_from_dict [] d = (Inr (), m) \<and> build_dict_from_map m = d"
proof -
  have "fst ` set ([] :: (string, map_value) dict) \<inter> fst ` set d = {}" by simp
  from set_map_from_dict_sendable [OF assms(1) this assms(2)] obtain m where
    m: "set_map_from_dict [] d = (Inr (), m)" "map (\<lambda>(k, v). (k, of_map_value v)) m = d"
    by (auto simp only: append_Nil)
  have "map fst m = map fst (map (\<lambda>(k, v). (k, of_map_value v)) m)"
    by (simp add: comp_def case_prod_beta')
  with m(2) assms(1) have "dict_wf m" by metis
  then have "build_dict_from_map m = d" by (simp only: build_dict_from_map_wf m(2))
  with m(1) show ?thesis by (intro exI conjI)
qed

text \<open>
  Sending a dictionary of parameters and reading it back gives the same dictionary, entries
  in the same order, when every value fits a \<open>MapValue\<close>.
\<close>

lemma map_value_roundtrip:
  assumes "dict_wf d" and "\<forall>v \<in> snd ` set d. sendable v"
  shows "\<exists>m. set_map_from_dict [] d = (Inr (), m) \<and> build_dict_from_map m = d"
  using assms by (rule map_value_map)

theorem map_value_roundtrip_witness:
  "\<exists>m. set_map_from_dict [] [(''host'', VStr ''rl''), (''port'', VInt 4001)] = (Inr (), m) \<and>
     build_dict_from_map m = [(''host'', VStr ''rl''), (''port'', VInt 4001)]"
  by (rule map_value_roundtrip) simp_all


section \<open>Resource entries\<close>

text \<open>
  The dictionary a \<open>ResourceEntry\<close> is made from may lack the keys \<open>acquired\<close> and \<open>avail\<close>, which
  \<open>__attrs_post_init__\<close> and \<open>update\<close> add.
\<close>

record raw_data =
  raw_cls :: string
  raw_params :: "(string \<times> pyval) list"
  raw_acquired :: "string option option"
  raw_avail :: "bool option"

record resource_entry =
  re_cls :: string
  re_params :: "(string \<times> pyval) list"
  re_acquired :: "string option"
  re_avail :: bool

definition resource_entry_init :: "raw_data \<Rightarrow> resource_entry" where
  "resource_entry_init d =
     \<lparr>re_cls = raw_cls d, re_params = raw_params d,
      re_acquired = (case raw_acquired d of None \<Rightarrow> None | Some a \<Rightarrow> a),
      re_avail = (case raw_avail d of None \<Rightarrow> False | Some b \<Rightarrow> b)\<rparr>"

definition re_args :: "resource_entry \<Rightarrow> (string \<times> pyval) list" where
  "re_args r = AList.delete ''extra'' (re_params r)"

definition re_extra :: "resource_entry \<Rightarrow> pyval" where
  "re_extra r = (case map_of (re_params r) ''extra'' of None \<Rightarrow> VDict [] | Some v \<Rightarrow> v)"

definition resource_entry_update :: "raw_data \<Rightarrow> resource_entry \<Rightarrow> resource_entry" where
  "resource_entry_update d r = resource_entry_init d"

definition re_acquire :: "string \<Rightarrow> resource_entry \<Rightarrow> py_error + resource_entry" where
  "re_acquire place_name r =
     (if re_acquired r = None then Inr (r\<lparr>re_acquired := Some place_name\<rparr>)
      else Inl AssertionError)"

definition re_release :: "resource_entry \<Rightarrow> resource_entry" where
  "re_release r = r\<lparr>re_acquired := None\<rparr>"

record pb_resource =
  pbr_cls :: string
  pbr_params :: "(string, map_value) dict"
  pbr_extra :: "(string, map_value) dict"
  pbr_acquired :: string
  pbr_avail :: bool

text \<open>
  \<open>extra\<close> is popped off a copy of the parameters; it must be a dictionary, or its \<open>.items()\<close>
  raises \<open>AttributeError\<close>.
\<close>

definition resource_as_pb2 :: "resource_entry \<Rightarrow> py_error + pb_resource" where
  "resource_as_pb2 r =
     (case set_map_from_dict [] (re_args r) of
        (Inl e, _) \<Rightarrow> Inl e
      | (Inr _, ps) \<Rightarrow>
          (case re_extra r of
             VDict extra \<Rightarrow>
               (case set_map_from_dict [] extra of
                  (Inl e, _) \<Rightarrow> Inl e
                | (Inr _, xs) \<Rightarrow>
                    Inr \<lparr>pbr_cls = re_cls r, pbr_params = ps, pbr_extra = xs,
                         pbr_acquired = (case re_acquired r of None \<Rightarrow> [] | Some a \<Rightarrow> a),
                         pbr_avail = re_avail r\<rparr>)
           | _ \<Rightarrow> Inl AttributeError))"

definition resource_data_from_pb2 :: "pb_resource \<Rightarrow> raw_data" where
  "resource_data_from_pb2 m =
     \<lparr>raw_cls = pbr_cls m,
      raw_params = AList.update ''extra'' (VDict (build_dict_from_map (pbr_extra m)))
        (build_dict_from_map (pbr_params m)),
      raw_acquired = Some (if pbr_acquired m = [] then None else Some (pbr_acquired m)),
      raw_avail = Some (pbr_avail m)\<rparr>"

text \<open>
  The two messages that \<open>from_pb2\<close> tells apart with \<open>isinstance\<close>. Its assertion asks for a
  \<open>Place\<close>, and \<open>data_from_pb2\<close>, which it calls next, asserts a \<open>Resource\<close>.
\<close>

datatype 'p pb_message = PbResource pb_resource | PbPlace 'p

fun data_from_pb2 :: "'p pb_message \<Rightarrow> py_error + raw_data" where
  "data_from_pb2 (PbResource m) = Inr (resource_data_from_pb2 m)"
| "data_from_pb2 (PbPlace _) = Inl AssertionError"

fun resource_entry_from_pb2 :: "'p pb_message \<Rightarrow> py_error + resource_entry" where
  "resource_entry_from_pb2 (PbResource m) = Inl AssertionError"
| "resource_entry_from_pb2 (PbPlace p) =
     (case data_from_pb2 (PbPlace p) of Inl e \<Rightarrow> Inl e | Inr d \<Rightarrow> Inr (resource_entry_init d))"

lemma resource_entry_from_pb2_never: "resource_entry_from_pb2 m = Inl AssertionError"
  by (cases m) simp_all

text \<open>
  A resource entry survives the trip through its message: class, arguments, extra
  information, availability and the acquiring place are the same, and \<open>extra\<close> ends up in the
  parameters also when the sender had none.
\<close>

lemma resource_roundtrip:
  assumes "dict_wf (re_params r)" and "\<forall>v \<in> snd ` set (re_args r). sendable v"
    and "re_extra r = VDict extra" and "dict_wf extra" and "\<forall>v \<in> snd ` set extra. sendable v"
    and "re_acquired r \<noteq> Some []"
  shows "\<exists>m. resource_as_pb2 r = Inr m \<and>
    resource_entry_init (resource_data_from_pb2 m) =
      r\<lparr>re_params := re_args r @ [(''extra'', VDict extra)]\<rparr>"
proof -
  have "dict_wf (re_args r)" using assms(1) by (simp add: re_args_def)
  from map_value_map [OF this assms(2)] obtain ps where
    ps: "set_map_from_dict [] (re_args r) = (Inr (), ps)" "build_dict_from_map ps = re_args r"
    by (elim exE conjE)
  from map_value_map [OF assms(4,5)] obtain xs where
    xs: "set_map_from_dict [] extra = (Inr (), xs)" "build_dict_from_map xs = extra"
    by (elim exE conjE)
  let ?m = "\<lparr>pbr_cls = re_cls r, pbr_params = ps, pbr_extra = xs,
    pbr_acquired = (case re_acquired r of None \<Rightarrow> [] | Some a \<Rightarrow> a), pbr_avail = re_avail r\<rparr>"
  have "resource_as_pb2 r = Inr ?m"
    by (simp only: resource_as_pb2_def ps(1) xs(1) assms(3) prod.case sum.case pyval.case)
  moreover have "''extra'' \<notin> fst ` set (re_args r)" by (simp add: re_args_def)
  then have "AList.update ''extra'' (VDict extra) (re_args r) = re_args r @ [(''extra'', VDict extra)]"
    by (rule update_absent)
  then have "resource_entry_init (resource_data_from_pb2 ?m) =
      r\<lparr>re_params := re_args r @ [(''extra'', VDict extra)]\<rparr>"
    using assms(6)
    by (cases r) (auto simp: resource_entry_init_def resource_data_from_pb2_def ps(2) xs(2)
        split: option.splits)
  ultimately show ?thesis by (intro exI conjI)
qed

theorem resource_roundtrip_witness:
  "\<exists>m. resource_as_pb2 \<lparr>re_cls = ''NetworkService'', re_params = [(''address'', VStr ''10.0.0.1'')],
      re_acquired = Some ''demo'', re_avail = True\<rparr> = Inr m \<and>
    resource_entry_init (resource_data_from_pb2 m) =
      \<lparr>re_cls = ''NetworkService'',
       re_params = [(''address'', VStr ''10.0.0.1''), (''extra'', VDict [])],
       re_acquired = Some ''demo'', re_avail = True\<rparr>"
  using resource_roundtrip [of "\<lparr>re_cls = ''NetworkService'',
      re_params = [(''address'', VStr ''10.0.0.1'')], re_acquired = Some ''demo'', re_avail = True\<rparr>" "[]"]
  by (simp add: re_args_def re_extra_def)


section \<open>Resource matches\<close>

text \<open>The path of a resource: exporter, group, class and name.\<close>

type_synonym path = "string \<times> string \<times> string \<times> string"

definition path_list :: "path \<Rightarrow> string list" where
  "path_list p = (case p of (e, g, c, n) \<Rightarrow> [e, g, c, n])"

record resource_match =
  rm_exporter :: string
  rm_group :: string
  rm_cls :: string
  rm_name :: "string option"
  rm_rename :: "string option"

text \<open>\<open>rename\<close> is declared with \<open>eq=False\<close>.\<close>

definition rm_eq :: "resource_match \<Rightarrow> resource_match \<Rightarrow> bool" where
  "rm_eq a b \<longleftrightarrow> rm_exporter a = rm_exporter b \<and> rm_group a = rm_group b \<and>
     rm_cls a = rm_cls b \<and> rm_name a = rm_name b"

definition rm_fromstr :: "string \<Rightarrow> py_error + resource_match" where
  "rm_fromstr pattern =
     (if 2 \<le> count_list pattern (CHR ''/'') \<and> count_list pattern (CHR ''/'') \<le> 3 then
        (case split_on (CHR ''/'') pattern of
           [e, g, c] \<Rightarrow>
             Inr \<lparr>rm_exporter = e, rm_group = g, rm_cls = c, rm_name = None, rm_rename = None\<rparr>
         | [e, g, c, n] \<Rightarrow>
             Inr \<lparr>rm_exporter = e, rm_group = g, rm_cls = c, rm_name = Some n, rm_rename = None\<rparr>
         | _ \<Rightarrow> Inl TypeError)
      else Inl ValueError)"

definition rm_repr :: "resource_match \<Rightarrow> string" where
  "rm_repr m =
     (let result = rm_exporter m @ ''/'' @ rm_group m @ ''/'' @ rm_cls m in
      case rm_name m of None \<Rightarrow> result | Some n \<Rightarrow> result @ ''/'' @ n)"

definition rm_str :: "resource_match \<Rightarrow> string" where
  "rm_str m =
     (if truthy (rm_rename m) then rm_repr m @ '' -> '' @ the (rm_rename m) else rm_repr m)"

text \<open>The tests on the components once the path is unpacked; a missing name is \<open>None\<close>.\<close>

definition rm_match_parts ::
  "resource_match \<Rightarrow> string \<Rightarrow> string \<Rightarrow> string \<Rightarrow> string option \<Rightarrow> bool" where
  "rm_match_parts m exporter grp cls name =
     (if \<not> fnmatchcase exporter (rm_exporter m) then False
      else if \<not> fnmatchcase grp (rm_group m) then False
      else if \<not> fnmatchcase cls (rm_cls m) then False
      else if truthy name \<and> truthy (rm_name m) \<and> \<not> fnmatchcase (the name) (the (rm_name m)) then False
      else True)"

fun rm_ismatch :: "resource_match \<Rightarrow> string list \<Rightarrow> py_error + bool" where
  "rm_ismatch m [exporter, grp, cls, name] =
     Inr (rm_match_parts m exporter grp cls (Some name))"
| "rm_ismatch m [exporter, grp, cls] = Inr (rm_match_parts m exporter grp cls None)"
| "rm_ismatch m _ = Inl ValueError"

text \<open>The same on the four-component paths that places and sessions use.\<close>

definition matches_path :: "resource_match \<Rightarrow> path \<Rightarrow> bool" where
  "matches_path m p = (case p of (e, g, c, n) \<Rightarrow> rm_match_parts m e g c (Some n))"

lemma rm_ismatch_path: "rm_ismatch m (path_list p) = Inr (matches_path m p)"
  by (cases p) (simp add: path_list_def matches_path_def)

record pb_match =
  pbm_exporter :: string
  pbm_group :: string
  pbm_cls :: string
  pbm_name :: "string option"
  pbm_rename :: "string option"

definition rm_as_pb2 :: "resource_match \<Rightarrow> pb_match" where
  "rm_as_pb2 m =
     \<lparr>pbm_exporter = rm_exporter m, pbm_group = rm_group m, pbm_cls = rm_cls m,
      pbm_name = rm_name m, pbm_rename = rm_rename m\<rparr>"

text \<open>An unset \<open>rename\<close> field reads as the empty string.\<close>

definition rm_from_pb2 :: "pb_match \<Rightarrow> resource_match" where
  "rm_from_pb2 m =
     \<lparr>rm_exporter = pbm_exporter m, rm_group = pbm_group m, rm_cls = pbm_cls m,
      rm_name = pbm_name m,
      rm_rename = Some (case pbm_rename m of None \<Rightarrow> [] | Some r \<Rightarrow> r)\<rparr>"

lemma rm_from_as_pb2:
  "rm_eq (rm_from_pb2 (rm_as_pb2 m)) m \<and> rm_str (rm_from_pb2 (rm_as_pb2 m)) = rm_str m \<and>
   matches_path (rm_from_pb2 (rm_as_pb2 m)) = matches_path m"
proof -
  have "matches_path (rm_from_pb2 (rm_as_pb2 m)) p = matches_path m p" for p
    by (cases p) (simp add: matches_path_def rm_match_parts_def rm_from_pb2_def rm_as_pb2_def)
  then show ?thesis
    by (cases "rm_rename m")
      (auto simp: rm_eq_def rm_str_def rm_repr_def rm_from_pb2_def rm_as_pb2_def Let_def
        split: option.splits)
qed

lemma rm_repr_join:
  "rm_repr m = join_with ''/'' (rm_exporter m # rm_group m # rm_cls m #
     (case rm_name m of None \<Rightarrow> [] | Some n \<Rightarrow> [n]))"
  by (simp add: rm_repr_def split: option.splits)

text \<open>
  \<open>ResourceMatch.fromstr\<close> accepts exactly the strings with two or three slashes, raises
  \<open>ValueError\<close> for the others, and what it accepts prints back as the same string.
\<close>

lemma fromstr_prints_back:
  "(case rm_fromstr pattern of
      Inr m \<Rightarrow> count_list pattern (CHR ''/'') \<in> {2, 3} \<and> rm_repr m = pattern \<and> rm_rename m = None
    | Inl e \<Rightarrow> e = ValueError \<and> count_list pattern (CHR ''/'') \<notin> {2, 3})"
proof -
  let ?n = "count_list pattern (CHR ''/'')" and ?ws = "split_on (CHR ''/'') pattern"
  have len: "length ?ws = Suc ?n" by (rule length_split_on)
  have join: "join_with ''/'' ?ws = pattern" by simp
  consider "?n = 2" | "?n = 3" | "?n \<notin> {2, 3}" by blast
  then show ?thesis
  proof cases
    case 1
    with len obtain e g c where "?ws = [e, g, c]"
      by (auto simp: length_Suc_conv numeral_2_eq_2)
    with 1 join show ?thesis by (simp add: rm_fromstr_def rm_repr_join)
  next
    case 2
    with len obtain e g c n where "?ws = [e, g, c, n]"
      by (auto simp: length_Suc_conv numeral_3_eq_3)
    with 2 join show ?thesis by (simp add: rm_fromstr_def rm_repr_join)
  next
    case 3
    then have "?n \<noteq> 2" "?n \<noteq> 3" by simp_all
    then have "\<not> (2 \<le> ?n \<and> ?n \<le> 3)" by linarith
    then have "rm_fromstr pattern = Inl ValueError" unfolding rm_fromstr_def by (rule if_not_P)
    with 3 show ?thesis by simp
  qed
qed

text \<open>
  A match without wildcards selects the paths with exactly its exporter, group and class,
  and with its name unless one of the two names is empty or missing.
\<close>

lemma plain_match_selects_path:
  assumes "plain_pattern (rm_exporter m)" and "plain_pattern (rm_group m)"
    and "plain_pattern (rm_cls m)" and "\<forall>n. rm_name m = Some n \<longrightarrow> plain_pattern n"
  shows "rm_ismatch m [e, g, c, n] =
    Inr (e = rm_exporter m \<and> g = rm_group m \<and> c = rm_cls m \<and>
      (n = [] \<or> rm_name m = None \<or> rm_name m = Some [] \<or> rm_name m = Some n))"
  using assms by (auto simp: rm_match_parts_def fnmatchcase_plain truthy_iff)

theorem plain_match_selects_path_witness:
  "rm_ismatch \<lparr>rm_exporter = ''ex'', rm_group = ''g'', rm_cls = ''USB'', rm_name = None,
     rm_rename = None\<rparr> [''ex'', ''g'', ''USB'', ''r1''] = Inr True"
  by (subst plain_match_selects_path) (simp_all add: plain_pattern_def)


section \<open>Places\<close>

text \<open>
  The resources a place holds are objects of the coordinator there and plain paths on a client,
  so they are a type parameter. The sets \<open>aliases\<close> and \<open>allowed\<close> are lists without repetition,
  in the order in which the set is iterated over.
\<close>

record 'r place =
  pl_name :: string
  pl_aliases :: "string list"
  pl_comment :: string
  pl_tags :: "(string, string) dict"
  pl_matches :: "resource_match list"
  pl_acquired :: "string option"
  pl_acquired_resources :: "'r list"
  pl_allowed :: "string list"
  pl_created :: real
  pl_changed :: real
  pl_reservation :: "string option"

definition new_place :: "real \<Rightarrow> string \<Rightarrow> 'r place" where
  "new_place now name =
     \<lparr>pl_name = name, pl_aliases = [], pl_comment = [], pl_tags = [], pl_matches = [],
      pl_acquired = None, pl_acquired_resources = [], pl_allowed = [], pl_created = now,
      pl_changed = now, pl_reservation = None\<rparr>"

text \<open>What a correct place object satisfies.\<close>

definition place_ok :: "'r place \<Rightarrow> bool" where
  "place_ok p \<longleftrightarrow> distinct (pl_aliases p) \<and> distinct (pl_allowed p) \<and> dict_wf (pl_tags p)"

definition getmatch :: "'r place \<Rightarrow> path \<Rightarrow> resource_match option" where
  "getmatch p path = find (\<lambda>m. matches_path m path) (pl_matches p)"

definition hasmatch :: "'r place \<Rightarrow> path \<Rightarrow> bool" where
  "hasmatch p path \<longleftrightarrow> getmatch p path \<noteq> None"

definition unmatched :: "'r place \<Rightarrow> path list \<Rightarrow> resource_match option" where
  "unmatched p paths = find (\<lambda>m. \<not> list_ex (matches_path m) paths) (pl_matches p)"

definition touch :: "real \<Rightarrow> 'r place \<Rightarrow> 'r place" where
  "touch now p = p\<lparr>pl_changed := now\<rparr>"

lemma hasmatch_iff: "hasmatch p path \<longleftrightarrow> (\<exists>m \<in> set (pl_matches p). matches_path m path)"
  by (auto simp: hasmatch_def getmatch_def find_None_iff)

lemma unmatched_None_iff:
  "unmatched p paths = None \<longleftrightarrow>
   (\<forall>m \<in> set (pl_matches p). \<exists>path \<in> set paths. matches_path m path)"
  by (auto simp: unmatched_def find_None_iff list_ex_iff)


record pb_place =
  pbp_name :: string
  pbp_aliases :: "string list"
  pbp_comment :: string
  pbp_tags :: "(string, string) dict"
  pbp_matches :: "pb_match list"
  pbp_acquired :: "string option"
  pbp_acquired_resources :: "string list"
  pbp_allowed :: "string list"
  pbp_created :: real
  pbp_changed :: real
  pbp_reservation :: "string option"

definition join_path :: "path \<Rightarrow> string" where
  "join_path p = join_with ''/'' (path_list p)"

text \<open>
  \<open>path_of\<close> reads the path off a resource object. \<open>acquired\<close> is always set, to the empty string
  for a free place; a reservation that is \<open>None\<close> or empty is left unset.
\<close>

definition place_as_pb2 :: "('r \<Rightarrow> path) \<Rightarrow> 'r place \<Rightarrow> pb_place" where
  "place_as_pb2 path_of p =
     \<lparr>pbp_name = pl_name p, pbp_aliases = pl_aliases p, pbp_comment = pl_comment p,
      pbp_tags = fold (\<lambda>(k, v). AList.update k v) (pl_tags p) [],
      pbp_matches = map rm_as_pb2 (pl_matches p),
      pbp_acquired = Some (if truthy (pl_acquired p) then the (pl_acquired p) else []),
      pbp_acquired_resources = map (\<lambda>r. join_path (path_of r)) (pl_acquired_resources p),
      pbp_allowed = pl_allowed p, pbp_created = pl_created p, pbp_changed = pl_changed p,
      pbp_reservation = (if truthy (pl_reservation p) then pl_reservation p else None)\<rparr>"

text \<open>\<open>path.split("/")\<close> and the assertion that there are four components.\<close>

definition split_path :: "string \<Rightarrow> py_error + path" where
  "split_path s =
     (case split_on (CHR ''/'') s of [e, g, c, n] \<Rightarrow> Inr (e, g, c, n) | _ \<Rightarrow> Inl AssertionError)"

fun split_paths :: "string list \<Rightarrow> py_error + path list" where
  "split_paths [] = Inr []"
| "split_paths (s # ss) =
     (case split_path s of
        Inl e \<Rightarrow> Inl e
      | Inr p \<Rightarrow> (case split_paths ss of Inl e \<Rightarrow> Inl e | Inr ps \<Rightarrow> Inr (p # ps)))"

definition place_from_pb2 :: "pb_place \<Rightarrow> py_error + path place" where
  "place_from_pb2 m =
     (case split_paths (pbp_acquired_resources m) of
        Inl e \<Rightarrow> Inl e
      | Inr acquired_resources \<Rightarrow>
          Inr \<lparr>pl_name = pbp_name m, pl_aliases = remdups (pbp_aliases m),
               pl_comment = pbp_comment m, pl_tags = pbp_tags m,
               pl_matches = map rm_from_pb2 (pbp_matches m),
               pl_acquired = (if truthy (pbp_acquired m) then pbp_acquired m else None),
               pl_acquired_resources = acquired_resources,
               pl_allowed = remdups (pbp_allowed m), pl_created = pbp_created m,
               pl_changed = pbp_changed m, pl_reservation = pbp_reservation m\<rparr>)"

text \<open>
  \<open>update_from_pb2\<close> copies every entry of \<open>asdict\<close> to the place. The name is not one of them, so
  the assertion that guards it never runs and the old name stays.
\<close>

definition place_update_from_pb2 :: "pb_place \<Rightarrow> path place \<Rightarrow> py_error + path place" where
  "place_update_from_pb2 m self =
     (case place_from_pb2 m of
        Inl e \<Rightarrow> Inl e
      | Inr p \<Rightarrow>
          Inr (self\<lparr>pl_aliases := pl_aliases p, pl_comment := pl_comment p, pl_tags := pl_tags p,
                 pl_matches := map rm_from_pb2 (pbp_matches m), pl_acquired := pl_acquired p,
                 pl_acquired_resources := pl_acquired_resources p, pl_allowed := pl_allowed p,
                 pl_created := pl_created p, pl_changed := pl_changed p,
                 pl_reservation := pl_reservation p\<rparr>))"

definition path_ok :: "path \<Rightarrow> bool" where
  "path_ok p \<longleftrightarrow> (\<forall>w \<in> set (path_list p). CHR ''/'' \<notin> set w)"

lemma split_join_path: "path_ok p \<Longrightarrow> split_path (join_path p) = Inr p"
proof -
  assume ok: "path_ok p"
  obtain e g c n where p: "p = (e, g, c, n)" by (metis prod.exhaust)
  have "split_on (CHR ''/'') (join_with ''/'' [e, g, c, n]) = [e, g, c, n]"
    using ok p by (intro split_join) (simp_all add: path_ok_def path_list_def)
  then show ?thesis by (simp add: split_path_def join_path_def path_list_def p)
qed

lemma split_paths_join:
  "\<forall>p \<in> set ps. path_ok p \<Longrightarrow> split_paths (map join_path ps) = Inr ps"
  by (induction ps) (simp_all add: split_join_path)

lemma fold_update_same:
  assumes "dict_wf d"
  shows "fold (\<lambda>(k, v). AList.update k v) d [] = d"
proof -
  have "fold (\<lambda>x. AList.update (fst x) (snd x)) d [] = [] @ map (\<lambda>x. (fst x, snd x)) d"
    by (rule fold_update_distinct) (simp_all add: assms)
  then show ?thesis by (simp add: case_prod_beta')
qed


definition sample_place :: "path place" where
  "sample_place = (new_place 7 ''demo'')
     \<lparr>pl_tags := [(''board'', ''a'')], pl_acquired := Some ''host/user'',
      pl_matches := [\<lparr>rm_exporter = ''ex'', rm_group = ''g'', rm_cls = ''*'', rm_name = None,
                      rm_rename = None\<rparr>],
      pl_acquired_resources := [(''ex'', ''g'', ''USB'', ''r'')]\<rparr>"



section \<open>Reservations\<close>

datatype reservation_state =
    RWaiting
  | RAllocated
  | RAcquired
  | RExpired
  | RInvalid

fun state_value :: "reservation_state \<Rightarrow> int" where
  "state_value RWaiting = 0"
| "state_value RAllocated = 1"
| "state_value RAcquired = 2"
| "state_value RExpired = 3"
| "state_value RInvalid = 4"

text \<open>\<open>ReservationState(n)\<close> raises \<open>ValueError\<close> for a number that is not a value.\<close>

definition state_of_value :: "int \<Rightarrow> py_error + reservation_state" where
  "state_of_value n =
     (if n = 0 then Inr RWaiting else if n = 1 then Inr RAllocated else if n = 2 then Inr RAcquired
      else if n = 3 then Inr RExpired else if n = 4 then Inr RInvalid else Inl ValueError)"

lemma state_of_value_value [simp]: "state_of_value (state_value s) = Inr s"
  by (cases s) (simp_all add: state_of_value_def)

record reservation =
  rs_owner :: string
  rs_token :: string
  rs_state :: reservation_state
  rs_prio :: real
  rs_filters :: "(string, (string, string) dict) dict"
  rs_allocations :: "(string, string list) dict"
  rs_created :: real
  rs_timeout :: real

text \<open>A new reservation: \<open>token\<close> stands for the random token.\<close>

definition new_reservation ::
  "real \<Rightarrow> string \<Rightarrow> string \<Rightarrow> real \<Rightarrow> (string, (string, string) dict) dict \<Rightarrow> reservation" where
  "new_reservation now token owner prio filters =
     \<lparr>rs_owner = owner, rs_token = token, rs_state = RWaiting, rs_prio = prio,
      rs_filters = filters, rs_allocations = [], rs_created = now, rs_timeout = now + 60\<rparr>"

definition rs_refresh :: "real \<Rightarrow> real \<Rightarrow> reservation \<Rightarrow> reservation" where
  "rs_refresh now delta r = r\<lparr>rs_timeout := max (rs_timeout r) (now + delta)\<rparr>"

definition rs_expired :: "real \<Rightarrow> reservation \<Rightarrow> bool" where
  "rs_expired now r \<longleftrightarrow> rs_timeout r < now"

record pb_reservation =
  pbv_owner :: string
  pbv_token :: string
  pbv_state :: int
  pbv_prio :: real
  pbv_filters :: "(string, (string, string) dict) dict"
  pbv_allocations :: "(string, string) dict"
  pbv_created :: real
  pbv_timeout :: real

text \<open>The assertions on \<open>allocations\<close>: one entry, named \<open>main\<close>, with one place.\<close>

definition pb_allocations :: "(string, string list) dict \<Rightarrow> py_error + (string, string) dict" where
  "pb_allocations a =
     (if a = [] then Inr []
      else if length a \<noteq> 1 then Inl AssertionError
      else case map_of a ''main'' of
             None \<Rightarrow> Inl AssertionError
           | Some allocation \<Rightarrow>
               if length allocation \<noteq> 1 then Inl AssertionError
               else Inr [(''main'', hd allocation)])"

definition reservation_as_pb2 :: "reservation \<Rightarrow> py_error + pb_reservation" where
  "reservation_as_pb2 r =
     (case pb_allocations (rs_allocations r) of
        Inl e \<Rightarrow> Inl e
      | Inr allocations \<Rightarrow>
          Inr \<lparr>pbv_owner = rs_owner r, pbv_token = rs_token r,
               pbv_state = state_value (rs_state r), pbv_prio = rs_prio r,
               pbv_filters = rs_filters r, pbv_allocations = allocations,
               pbv_created = rs_created r, pbv_timeout = rs_timeout r\<rparr>)"

definition reservation_from_pb2 :: "pb_reservation \<Rightarrow> py_error + reservation" where
  "reservation_from_pb2 m =
     (case state_of_value (pbv_state m) of
        Inl e \<Rightarrow> Inl e
      | Inr state \<Rightarrow>
          Inr \<lparr>rs_owner = pbv_owner m, rs_token = pbv_token m, rs_state = state,
               rs_prio = pbv_prio m, rs_filters = pbv_filters m,
               rs_allocations = map (\<lambda>(n, p). (n, [p])) (pbv_allocations m),
               rs_created = pbv_created m, rs_timeout = pbv_timeout m\<rparr>)"

text \<open>The allocations a reservation may have when it is sent to a client.\<close>

definition main_only :: "(string, string list) dict \<Rightarrow> bool" where
  "main_only a \<longleftrightarrow> a = [] \<or> (\<exists>p. a = [(''main'', [p])])"

lemma pb_allocations_iff:
  "pb_allocations a = (if main_only a then Inr (map (\<lambda>(n, ps). (n, hd ps)) a) else Inl AssertionError)"
proof (cases a)
  case Nil
  then show ?thesis by (simp add: pb_allocations_def main_only_def)
next
  case (Cons x a')
  obtain n ps where x: "x = (n, ps)" by (cases x)
  show ?thesis
  proof (cases "a' = [] \<and> n = ''main'' \<and> length ps = 1")
    case True
    then obtain p where "ps = [p]" by (auto simp: length_Suc_conv)
    with True Cons x show ?thesis by (simp add: pb_allocations_def main_only_def)
  next
    case False
    then have "\<not> main_only a" using Cons x by (auto simp: main_only_def)
    moreover have "pb_allocations a = Inl AssertionError"
      using False Cons x by (cases a') (auto simp: pb_allocations_def)
    ultimately show ?thesis by simp
  qed
qed

text \<open>
  A reservation can be sent to a client exactly when it has no allocation or one place under
  the name \<open>main\<close>; then the client reads back the same reservation, and otherwise the
  conversion raises \<open>AssertionError\<close>.
\<close>

lemma reservation_roundtrip:
  "(case reservation_as_pb2 r of
      Inr m \<Rightarrow> main_only (rs_allocations r) \<and> reservation_from_pb2 m = Inr r
    | Inl e \<Rightarrow> e = AssertionError \<and> \<not> main_only (rs_allocations r))"
proof (cases "main_only (rs_allocations r)")
  case True
  then have "map (\<lambda>(n, p). (n, [p])) (map (\<lambda>(n, ps). (n, hd ps)) (rs_allocations r)) =
      rs_allocations r"
    by (auto simp: main_only_def)
  with True show ?thesis
    by (simp add: reservation_as_pb2_def reservation_from_pb2_def pb_allocations_iff)
next
  case False
  then show ?thesis by (simp add: reservation_as_pb2_def pb_allocations_iff)
qed

end
