(* ===== verification/Scheduler.thy ===== *)
theory Scheduler
  imports Prelude
begin

text \<open>
  \<^verbatim>\<open>labgrid/remote/scheduler.py\<close>: which waiting reservation (a filter) gets which free
  place. The model keeps the order of the dictionaries, since two places that want the same
  filter overwrite each other in that order. A \<open>TagSet\<close> is compared by identity in the code;
  here two tag sets are the same object iff they are equal, which the theorems make true by
  asking for lists without repetition.
\<close>

section \<open>The algorithm\<close>

record tagset =
  ts_name :: string
  ts_tags :: "(string \<times> string) set"

definition fits :: "tagset \<Rightarrow> tagset \<Rightarrow> bool" where
  "fits f place \<longleftrightarrow> ts_tags f \<subseteq> ts_tags place"

text \<open>\<open>interest[place].append(f)\<close> on the \<open>defaultdict(list)\<close>.\<close>

definition add_interest ::
  "tagset \<Rightarrow> tagset \<Rightarrow> (tagset, tagset list) dict \<Rightarrow> (tagset, tagset list) dict" where
  "add_interest f place interest =
     (if fits f place
      then AList.update place ((case map_of interest place of None \<Rightarrow> [] | Some fs \<Rightarrow> fs) @ [f])
             interest
      else interest)"

definition build_interest ::
  "tagset list \<Rightarrow> tagset list \<Rightarrow> (tagset, tagset list) dict" where
  "build_interest places filters = fold (\<lambda>f. fold (add_interest f) places) filters []"

definition schedule_step :: "tagset list \<Rightarrow> tagset list \<Rightarrow> (tagset, tagset) dict" where
  "schedule_step places filters =
     (let interest = build_interest places filters in
      if interest = [] then []
      else
        let limit = Min (set (map (\<lambda>(_, fs). length fs) interest)) in
        fold (\<lambda>(place, fs) allocation.
                if length fs = limit then AList.update (hd fs) place allocation else allocation)
          interest [])"

text \<open>The body of the \<open>while\<close> loop of \<open>schedule_overlaps\<close>: its assertion and its two removals.\<close>

fun apply_new ::
  "(tagset, tagset) dict \<Rightarrow> tagset list \<Rightarrow> tagset list \<Rightarrow> (tagset, tagset) dict
   \<Rightarrow> py_error + tagset list \<times> tagset list \<times> (tagset, tagset) dict" where
  "apply_new [] places filters allocation = Inr (places, filters, allocation)"
| "apply_new ((f, place) # new) places filters allocation =
     (if map_of allocation f \<noteq> None then Inl AssertionError
      else case py_remove place places of
        Inl e \<Rightarrow> Inl e
      | Inr places' \<Rightarrow>
          (case py_remove f filters of
             Inl e \<Rightarrow> Inl e
           | Inr filters' \<Rightarrow> apply_new new places' filters' (AList.update f place allocation)))"

lemma apply_new_length:
  "apply_new new places filters allocation = Inr (places', filters', allocation') \<Longrightarrow>
   length filters = length new + length filters'"
proof (induction new places filters allocation rule: apply_new.induct)
  case (1 places filters allocation)
  then show ?case by simp
next
  case (2 f place new places filters allocation)
  then have "place \<in> set places" "f \<in> set filters" "map_of allocation f = None"
    by (auto simp: py_remove_def split: if_splits)
  with 2 have "length (remove1 f filters) = length new + length filters'" by auto
  with \<open>f \<in> set filters\<close> length_pos_if_in_set [of f filters] show ?case
    by (simp add: length_remove1 del: length_greater_0_conv)
qed

function schedule_overlaps_loop ::
  "tagset list \<Rightarrow> tagset list \<Rightarrow> (tagset, tagset) dict \<Rightarrow> py_error + (tagset, tagset) dict" where
  "schedule_overlaps_loop places filters allocation =
     (let new = schedule_step places filters in
      if new = [] then Inr allocation
      else case apply_new new places filters allocation of
        Inl e \<Rightarrow> Inl e
      | Inr (places', filters', allocation') \<Rightarrow>
          schedule_overlaps_loop places' filters' allocation')"
  by pat_completeness auto
termination
  by (relation "measure (\<lambda>(_, filters, _). length filters)") (auto dest: apply_new_length)

declare schedule_overlaps_loop.simps [simp del]

definition schedule_overlaps ::
  "tagset list \<Rightarrow> tagset list \<Rightarrow> py_error + (tagset, tagset) dict" where
  "schedule_overlaps places filters = schedule_overlaps_loop places filters []"

definition schedule :: "tagset list \<Rightarrow> tagset list \<Rightarrow> py_error + (string, string) dict" where
  "schedule places filters =
     (case schedule_overlaps places filters of
        Inl e \<Rightarrow> Inl e
      | Inr allocation \<Rightarrow>
          Inr (fold (\<lambda>(f, p). AList.update (ts_name f) (ts_name p)) allocation []))"


section \<open>What one step allocates\<close>

lemma map_of_add_interest:
  "map_of (add_interest f p acc) q =
     (if q = p \<and> fits f p
      then Some ((case map_of acc q of None \<Rightarrow> [] | Some fs \<Rightarrow> fs) @ [f]) else map_of acc q)"
  by (simp add: add_interest_def)

lemma map_of_interest_places:
  "distinct places \<Longrightarrow>
   map_of (fold (add_interest f) places acc) q =
     (if q \<in> set places \<and> fits f q
      then Some ((case map_of acc q of None \<Rightarrow> [] | Some fs \<Rightarrow> fs) @ [f]) else map_of acc q)"
proof (induction places arbitrary: acc)
  case Nil
  then show ?case by simp
next
  case (Cons p places)
  then show ?case by (auto simp: map_of_add_interest)
qed

lemma map_of_interest_filters:
  "distinct places \<Longrightarrow>
   map_of (fold (\<lambda>f. fold (add_interest f) places) filters acc) q =
     (let fs = filter (\<lambda>f. fits f q) filters in
      if q \<in> set places \<and> fs \<noteq> []
      then Some ((case map_of acc q of None \<Rightarrow> [] | Some gs \<Rightarrow> gs) @ fs) else map_of acc q)"
proof (induction filters arbitrary: acc)
  case Nil
  then show ?case by simp
next
  case (Cons f filters)
  then show ?case
    by (cases "q \<in> set places"; cases "fits f q") (auto simp: map_of_interest_places Let_def)
qed

lemma map_of_build_interest:
  "distinct places \<Longrightarrow>
   map_of (build_interest places filters) q =
     (let fs = filter (\<lambda>f. fits f q) filters in
      if q \<in> set places \<and> fs \<noteq> [] then Some fs else None)"
  by (simp add: build_interest_def map_of_interest_filters Let_def)

lemma dict_wf_interest_places: "dict_wf acc \<Longrightarrow> dict_wf (fold (add_interest f) places acc)"
  by (induction places arbitrary: acc) (auto simp: add_interest_def)

lemma dict_wf_interest_filters:
  "dict_wf acc \<Longrightarrow> dict_wf (fold (\<lambda>f. fold (add_interest f) places) filters acc)"
  by (induction filters arbitrary: acc) (auto simp: dict_wf_interest_places)

lemma dict_wf_build_interest: "dict_wf (build_interest places filters)"
  unfolding build_interest_def by (rule dict_wf_interest_filters) simp

lemma build_interest_empty_iff:
  "distinct places \<Longrightarrow>
   build_interest places filters = [] \<longleftrightarrow> (\<forall>p \<in> set places. \<forall>f \<in> set filters. \<not> fits f p)"
proof -
  assume d: "distinct places"
  have "build_interest places filters = [] \<longleftrightarrow> (\<forall>q. map_of (build_interest places filters) q = None)"
    by (metis map_of_eq_empty_iff)
  also have "\<dots> \<longleftrightarrow> (\<forall>p \<in> set places. \<forall>f \<in> set filters. \<not> fits f p)"
    using d by (auto simp: map_of_build_interest Let_def filter_empty_conv)
  finally show ?thesis .
qed

text \<open>The loop that turns interests into allocations, over any list of interests.\<close>

abbreviation pick :: "nat \<Rightarrow> (tagset, tagset list) dict \<Rightarrow> (tagset, tagset) dict \<Rightarrow> (tagset, tagset) dict"
where
  "pick limit \<equiv> fold (\<lambda>(place, fs) allocation.
     if length fs = limit then AList.update (hd fs) place allocation else allocation)"

lemma pick_wf: "dict_wf acc \<Longrightarrow> dict_wf (pick limit interest acc)"
  by (induction interest arbitrary: acc) (auto split: prod.splits)

lemma pick_entries:
  "dict_wf acc \<Longrightarrow> (f, p) \<in> set (pick limit interest acc) \<Longrightarrow>
   (f, p) \<in> set acc \<or> (\<exists>fs. (p, fs) \<in> set interest \<and> length fs = limit \<and> f = hd fs)"
proof (induction interest arbitrary: acc)
  case Nil
  then show ?case by simp
next
  case (Cons x interest)
  obtain q fs where x: "x = (q, fs)" by (cases x)
  define acc' where "acc' = (if length fs = limit then AList.update (hd fs) q acc else acc)"
  have wf': "dict_wf acc'" using Cons.prems(1) by (simp add: acc'_def)
  from Cons.prems(2) x have "(f, p) \<in> set (pick limit interest acc')" by (simp add: acc'_def)
  from Cons.IH [OF wf' this] show ?case
  proof
    assume "(f, p) \<in> set acc'"
    with Cons.prems(1) x show ?thesis
      unfolding acc'_def by (auto simp: in_update_iff split: if_splits)
  qed (use x in auto)
qed

lemma pick_distinct_values:
  "dict_wf acc \<Longrightarrow> distinct (map snd acc) \<Longrightarrow> dict_wf interest \<Longrightarrow>
   snd ` set acc \<inter> fst ` set interest = {} \<Longrightarrow> distinct (map snd (pick limit interest acc))"
proof (induction interest arbitrary: acc)
  case Nil
  then show ?case by simp
next
  case (Cons x interest)
  obtain q fs where x: "x = (q, fs)" by (cases x)
  define acc' where "acc' = (if length fs = limit then AList.update (hd fs) q acc else acc)"
  have "dict_wf acc'" using Cons.prems(1) by (simp add: acc'_def)
  moreover have "distinct (map snd acc')"
    using Cons.prems x unfolding acc'_def by (auto intro: distinct_values_update)
  moreover have "snd ` set acc' \<inter> fst ` set interest = {}"
  proof -
    have "snd ` set acc' \<subseteq> insert q (snd ` set acc)"
      using values_update_subset [of "hd fs" q acc] unfolding acc'_def by auto
    moreover have "q \<notin> fst ` set interest" "snd ` set acc \<inter> fst ` set interest = {}"
      using Cons.prems(3,4) x by auto
    ultimately show ?thesis by blast
  qed
  ultimately have "distinct (map snd (pick limit interest acc'))"
    using Cons.IH Cons.prems(3) by simp
  with x show ?case by (simp add: acc'_def)
qed

lemma pick_keys_grow: "fst ` set acc \<subseteq> fst ` set (pick limit interest acc)"
proof (induction interest arbitrary: acc)
  case Nil
  then show ?case by simp
next
  case (Cons x interest)
  obtain q fs where x: "x = (q, fs)" by (cases x)
  define acc' where "acc' = (if length fs = limit then AList.update (hd fs) q acc else acc)"
  have "fst ` set acc \<subseteq> fst ` set acc'" by (auto simp: acc'_def)
  also have "\<dots> \<subseteq> fst ` set (pick limit interest acc')" by (rule Cons.IH)
  finally show ?case by (simp add: x acc'_def)
qed

lemma pick_key: "(p, fs) \<in> set interest \<Longrightarrow> length fs = limit \<Longrightarrow> hd fs \<in> fst ` set (pick limit interest acc)"
proof (induction interest arbitrary: acc)
  case Nil
  then show ?case by simp
next
  case (Cons x interest)
  show ?case
  proof (cases "x = (p, fs)")
    case True
    with Cons.prems pick_keys_grow [of "AList.update (hd fs) p acc" limit interest]
    show ?thesis by auto
  next
    case False
    with Cons show ?thesis by (cases x) auto
  qed
qed

lemma schedule_step_wf: "dict_wf (schedule_step places filters)"
  by (auto simp: schedule_step_def Let_def intro: pick_wf)

lemma schedule_step_entry:
  assumes "distinct places" and "(f, p) \<in> set (schedule_step places filters)"
  shows "p \<in> set places" and "f \<in> set filters" and "fits f p"
    and "\<And>q. q \<in> set places \<Longrightarrow> filter (\<lambda>g. fits g q) filters \<noteq> [] \<Longrightarrow>
      length (filter (\<lambda>g. fits g p) filters) \<le> length (filter (\<lambda>g. fits g q) filters)"
proof -
  define interest where "interest = build_interest places filters"
  define limit where "limit = Min (set (map (\<lambda>(_, fs). length fs) interest))"
  from assms(2) have ne: "interest \<noteq> []" and e: "(f, p) \<in> set (pick limit interest [])"
    by (auto simp: schedule_step_def interest_def limit_def Let_def split: if_splits)
  from pick_entries [OF _ e] obtain fs
    where fs: "(p, fs) \<in> set interest" "length fs = limit" "f = hd fs" by auto
  have mo: "map_of interest p = Some fs"
    using fs(1) dict_wf_build_interest dict_in_iff unfolding interest_def by metis
  then have sel: "p \<in> set places" "fs = filter (\<lambda>g. fits g p) filters" "fs \<noteq> []"
    unfolding interest_def map_of_build_interest [OF assms(1)] by (auto simp: Let_def split: if_splits)
  have "f \<in> set fs" using fs(3) sel(3) by simp
  then have "f \<in> set (filter (\<lambda>g. fits g p) filters)" using sel(2) by simp
  then show "p \<in> set places" "f \<in> set filters" "fits f p" using sel(1) by auto
  fix q assume q: "q \<in> set places" "filter (\<lambda>g. fits g q) filters \<noteq> []"
  then have "map_of interest q = Some (filter (\<lambda>g. fits g q) filters)"
    unfolding interest_def map_of_build_interest [OF assms(1)] by (simp add: Let_def)
  then have "(q, filter (\<lambda>g. fits g q) filters) \<in> set interest" by (rule map_of_SomeD)
  then have "limit \<le> length (filter (\<lambda>g. fits g q) filters)"
    unfolding limit_def by (intro Min_le) (auto intro: rev_image_eqI)
  with fs(2) sel(2)
  show "length (filter (\<lambda>g. fits g p) filters) \<le> length (filter (\<lambda>g. fits g q) filters)" by simp
qed

lemma schedule_step_distinct_values: "distinct (map snd (schedule_step places filters))"
  using dict_wf_build_interest [of places filters]
  by (auto simp: schedule_step_def Let_def intro: pick_distinct_values)

lemma schedule_step_empty_iff:
  assumes "distinct places"
  shows "schedule_step places filters = [] \<longleftrightarrow>
    (\<forall>p \<in> set places. \<forall>f \<in> set filters. \<not> fits f p)"
proof
  assume "\<forall>p \<in> set places. \<forall>f \<in> set filters. \<not> fits f p"
  with assms show "schedule_step places filters = []"
    by (simp add: schedule_step_def build_interest_empty_iff)
next
  assume e: "schedule_step places filters = []"
  define interest where "interest = build_interest places filters"
  define limit where "limit = Min (set (map (\<lambda>(_, fs). length fs) interest))"
  have "interest = []"
  proof (rule ccontr)
    assume ne: "interest \<noteq> []"
    then have "limit \<in> set (map (\<lambda>(_, fs). length fs) interest)"
      unfolding limit_def by (intro Min_in) auto
    then obtain p fs where "(p, fs) \<in> set interest" "length fs = limit" by auto
    then have "pick limit interest [] \<noteq> []" using pick_key [of p fs interest limit "[]"] by auto
    with e ne show False by (simp add: schedule_step_def interest_def limit_def Let_def)
  qed
  with assms show "\<forall>p \<in> set places. \<forall>f \<in> set filters. \<not> fits f p"
    by (simp add: interest_def build_interest_empty_iff)
qed


section \<open>The loop\<close>

lemma remove1_filter: "distinct xs \<Longrightarrow> remove1 x xs = filter (\<lambda>y. y \<noteq> x) xs"
  by (auto simp: distinct_remove1_removeAll removeAll_filter_not_eq intro: filter_cong)

lemma apply_new_ok:
  assumes "dict_wf new" and "distinct (map snd new)"
    and "fst ` set new \<subseteq> set filters" and "snd ` set new \<subseteq> set places"
    and "distinct places" and "distinct filters" and "fst ` set new \<inter> fst ` set allocation = {}"
  shows "apply_new new places filters allocation =
    Inr (filter (\<lambda>p. p \<notin> snd ` set new) places, filter (\<lambda>f. f \<notin> fst ` set new) filters,
         allocation @ new)"
  using assms
proof (induction new places filters allocation rule: apply_new.induct)
  case (1 places filters allocation)
  then show ?case by simp
next
  case (2 f place new places filters allocation)
  have fresh: "map_of allocation f = None" using "2.prems"(7) by (simp add: map_of_eq_None)
  have mem: "place \<in> set places" "f \<in> set filters" using "2.prems"(3,4) by auto
  let ?ps = "remove1 place places" and ?fs = "remove1 f filters"
  have "apply_new new ?ps ?fs (AList.update f place allocation) =
    Inr (filter (\<lambda>p. p \<notin> snd ` set new) ?ps, filter (\<lambda>g. g \<notin> fst ` set new) ?fs,
         AList.update f place allocation @ new)"
  proof (rule "2.IH")
    show "\<not> map_of allocation f \<noteq> None" using fresh by simp
    show "py_remove place places = Inr ?ps" "py_remove f filters = Inr ?fs" using mem by simp_all
    show "fst ` set new \<subseteq> set ?fs" "snd ` set new \<subseteq> set ?ps"
      using "2.prems"(1-6) by (auto simp: remove1_filter)
    show "fst ` set new \<inter> fst ` set (AList.update f place allocation) = {}"
      using "2.prems"(1,7) by auto
  qed (use "2.prems" in auto)
  moreover have "AList.update f place allocation = allocation @ [(f, place)]"
    using "2.prems"(7) by (simp add: update_absent)
  ultimately show ?case
    using fresh mem "2.prems"(5,6) by (simp add: remove1_filter conj_commute)
qed

text \<open>Everything an iteration of the loop needs to know about the new allocations.\<close>

lemma apply_step:
  assumes "distinct places" and "distinct filters" and "set filters \<inter> fst ` set allocation = {}"
    and "new = schedule_step places filters"
  shows "apply_new new places filters allocation =
    Inr (filter (\<lambda>p. p \<notin> snd ` set new) places, filter (\<lambda>f. f \<notin> fst ` set new) filters,
         allocation @ new)"
proof (rule apply_new_ok)
  show f: "fst ` set new \<subseteq> set filters" and "snd ` set new \<subseteq> set places"
    using schedule_step_entry(1,2) [OF assms(1)] assms(4) by auto
  show "fst ` set new \<inter> fst ` set allocation = {}" using f assms(3) by blast
qed (use assms in \<open>simp_all add: schedule_step_wf schedule_step_distinct_values\<close>)

lemma schedule_overlaps_loop_unfold:
  assumes "distinct places" and "distinct filters" and "set filters \<inter> fst ` set allocation = {}"
    and "new = schedule_step places filters" and "new \<noteq> []"
  shows "schedule_overlaps_loop places filters allocation =
    schedule_overlaps_loop (filter (\<lambda>p. p \<notin> snd ` set new) places)
      (filter (\<lambda>f. f \<notin> fst ` set new) filters) (allocation @ new)"
  using apply_step [OF assms(1-4)] assms(4,5)
  by (subst schedule_overlaps_loop.simps) (simp add: Let_def)

lemma schedule_overlaps_loop_stop:
  "schedule_step places filters = [] \<Longrightarrow> schedule_overlaps_loop places filters allocation = Inr allocation"
  by (subst schedule_overlaps_loop.simps) simp

definition matching ::
  "tagset list \<Rightarrow> tagset list \<Rightarrow> (tagset, tagset) dict \<Rightarrow> bool" where
  "matching places filters new \<longleftrightarrow>
     dict_wf new \<and> distinct (map snd new) \<and>
     (\<forall>(f, p) \<in> set new. f \<in> set filters \<and> p \<in> set places \<and> fits f p)"

definition maximal ::
  "tagset list \<Rightarrow> tagset list \<Rightarrow> (tagset, tagset) dict \<Rightarrow> bool" where
  "maximal places filters new \<longleftrightarrow>
     (\<forall>p \<in> set places - snd ` set new. \<forall>f \<in> set filters - fst ` set new. \<not> fits f p)"

lemma matching_step: "distinct places \<Longrightarrow> matching places filters (schedule_step places filters)"
  using schedule_step_entry [of places _ _ filters]
  by (auto simp: matching_def schedule_step_wf schedule_step_distinct_values)

lemma matching_append:
  assumes "matching places filters new"
    and "matching (filter (\<lambda>p. p \<notin> snd ` set new) places) (filter (\<lambda>f. f \<notin> fst ` set new) filters) later"
  shows "matching places filters (new @ later)"
proof -
  have "fst ` set new \<inter> fst ` set later = {}" "snd ` set new \<inter> snd ` set later = {}"
    using assms(2) unfolding matching_def by force+
  with assms show ?thesis unfolding matching_def by auto
qed

lemma schedule_overlaps_loop_correct:
  assumes "distinct places" and "distinct filters" and "set filters \<inter> fst ` set allocation = {}"
  shows "\<exists>new. schedule_overlaps_loop places filters allocation = Inr (allocation @ new) \<and>
    matching places filters new \<and> maximal places filters new"
  using assms
proof (induction "length filters" arbitrary: places filters allocation rule: less_induct)
  case less
  define new where "new = schedule_step places filters"
  let ?ps = "filter (\<lambda>p. p \<notin> snd ` set new) places"
    and ?fs = "filter (\<lambda>f. f \<notin> fst ` set new) filters"
  show ?case
  proof (cases "new = []")
    case True
    then have "schedule_overlaps_loop places filters allocation = Inr (allocation @ [])"
      by (simp add: new_def schedule_overlaps_loop_stop)
    moreover have "maximal places filters []"
      using True less.prems(1) by (simp add: new_def schedule_step_empty_iff maximal_def)
    moreover have "matching places filters []" by (simp add: matching_def)
    ultimately show ?thesis by blast
  next
    case False
    have m: "matching places filters new" using less.prems(1) by (simp add: new_def matching_step)
    have "length filters = length new + length ?fs"
      using apply_step [OF less.prems new_def] by (rule apply_new_length)
    with False have "length ?fs < length filters" by simp
    moreover have "set ?fs \<inter> fst ` set (allocation @ new) = {}" using less.prems(3) by auto
    ultimately obtain later where later:
      "schedule_overlaps_loop ?ps ?fs (allocation @ new) = Inr ((allocation @ new) @ later)"
      "matching ?ps ?fs later" "maximal ?ps ?fs later"
      using less.hyps less.prems(1,2) by (metis distinct_filter)
    have "schedule_overlaps_loop places filters allocation = Inr (allocation @ (new @ later))"
      using schedule_overlaps_loop_unfold [OF less.prems new_def False] later(1) by simp
    moreover have "maximal places filters (new @ later)"
      using later(3) unfolding maximal_def by auto
    ultimately show ?thesis using matching_append [OF m later(2)] by blast
  qed
qed

text \<open>An earlier filter that asks for no later than a later one is never passed over for it.\<close>

lemma schedule_step_first:
  assumes "distinct places" and "filters = xs @ f # ys" and "distinct filters"
    and "g \<in> set ys" and "ts_tags f \<subseteq> ts_tags g"
  shows "g \<notin> fst ` set (schedule_step places filters)"
proof
  assume "g \<in> fst ` set (schedule_step places filters)"
  then obtain p where e: "(g, p) \<in> set (schedule_step places filters)" by auto
  define interest where "interest = build_interest places filters"
  define limit where "limit = Min (set (map (\<lambda>(_, fs). length fs) interest))"
  from e have "(g, p) \<in> set (pick limit interest [])"
    by (auto simp: schedule_step_def interest_def limit_def Let_def split: if_splits)
  from pick_entries [OF _ this] obtain fs where fs: "(p, fs) \<in> set interest" "g = hd fs" by auto
  have "map_of interest p = Some fs"
    using fs(1) dict_wf_build_interest dict_in_iff unfolding interest_def by metis
  then have "fs = filter (\<lambda>h. fits h p) filters"
    unfolding interest_def map_of_build_interest [OF assms(1)] by (auto simp: Let_def split: if_splits)
  moreover have "fits f p"
    using schedule_step_entry(3) [OF assms(1) e] assms(5) by (auto simp: fits_def)
  ultimately have "hd fs \<in> set (xs @ [f])"
    using assms(2) by (cases "filter (\<lambda>h. fits h p) xs") (auto simp: filter_eq_Cons_iff)
  with fs(2) assms(2,3,4) show False by auto
qed

lemma schedule_overlaps_loop_first:
  assumes "distinct places" and "distinct filters" and "set filters \<inter> fst ` set allocation = {}"
    and "filters = xs @ f # ys" and "g \<in> set ys" and "ts_tags f \<subseteq> ts_tags g"
    and "schedule_overlaps_loop places filters allocation = Inr result"
    and "g \<in> fst ` set result"
  shows "f \<in> fst ` set result"
  using assms
proof (induction "length filters" arbitrary: places filters allocation xs ys rule: less_induct)
  case less
  define new where "new = schedule_step places filters"
  let ?P = "\<lambda>f. f \<notin> fst ` set new"
  let ?ps = "filter (\<lambda>p. p \<notin> snd ` set new) places" and ?fs = "filter ?P filters"
  have g: "g \<notin> fst ` set new"
    using schedule_step_first [OF less.prems(1,4,2,5,6)] by (simp add: new_def)
  show ?case
  proof (cases "new = []")
    case True
    then have "result = allocation"
      using less.prems(7) by (simp add: new_def schedule_overlaps_loop_stop)
    then show ?thesis using less.prems(3,4,5,8) by auto
  next
    case False
    have loop: "schedule_overlaps_loop ?ps ?fs (allocation @ new) = Inr result"
      using schedule_overlaps_loop_unfold [OF less.prems(1-3) new_def False] less.prems(7) by simp
    have len: "length ?fs < length filters"
      using apply_new_length [OF apply_step [OF less.prems(1-3) new_def]] False by simp
    have disj: "set ?fs \<inter> fst ` set (allocation @ new) = {}" using less.prems(3) by auto
    show ?thesis
    proof (cases "f \<in> fst ` set new")
      case True
      obtain later where "result = (allocation @ new) @ later"
        using schedule_overlaps_loop_correct [of ?ps ?fs "allocation @ new"] loop disj
          less.prems(1,2) by auto
      with True show ?thesis by auto
    next
      case f: False
      have "?fs = filter ?P xs @ f # filter ?P ys" using less.prems(4) f by simp
      moreover have "g \<in> set (filter ?P ys)" using less.prems(5) g by simp
      ultimately show ?thesis
        using less.hyps [OF len _ _ disj] loop less.prems(1,2,6,8) by (metis distinct_filter)
    qed
  qed
qed


section \<open>The interface of the scheduler\<close>

text \<open>
  What the coordinator relies on: for places and filters with names of their own the scheduler
  returns, it pairs every filter with at most one place and every place with at most one filter,
  and a pair is always a filter and a place that carries all its tags.
\<close>

locale allocator =
  fixes alloc :: "tagset list \<Rightarrow> tagset list \<Rightarrow> py_error + (string, string) dict"
  assumes alloc_returns:
      "distinct (map ts_name ps) \<Longrightarrow> distinct (map ts_name fs) \<Longrightarrow> \<exists>a. alloc ps fs = Inr a"
    and alloc_keys: "distinct (map ts_name ps) \<Longrightarrow> distinct (map ts_name fs) \<Longrightarrow>
      alloc ps fs = Inr a \<Longrightarrow> dict_wf a"
    and alloc_values: "distinct (map ts_name ps) \<Longrightarrow> distinct (map ts_name fs) \<Longrightarrow>
      alloc ps fs = Inr a \<Longrightarrow> distinct (map snd a)"
    and alloc_fits: "distinct (map ts_name ps) \<Longrightarrow> distinct (map ts_name fs) \<Longrightarrow>
      alloc ps fs = Inr a \<Longrightarrow> (t, n) \<in> set a \<Longrightarrow>
      \<exists>f \<in> set fs. \<exists>p \<in> set ps. ts_name f = t \<and> ts_name p = n \<and> fits f p"
    and alloc_maximal: "distinct (map ts_name ps) \<Longrightarrow> distinct (map ts_name fs) \<Longrightarrow>
      alloc ps fs = Inr a \<Longrightarrow> f \<in> set fs \<Longrightarrow> p \<in> set ps \<Longrightarrow> fits f p \<Longrightarrow>
      ts_name f \<in> fst ` set a \<or> ts_name p \<in> snd ` set a"
begin

lemma alloc_names:
  assumes "distinct (map ts_name ps)" and "distinct (map ts_name fs)" and "alloc ps fs = Inr a"
  shows "fst ` set a \<subseteq> ts_name ` set fs" and "snd ` set a \<subseteq> ts_name ` set ps"
  using alloc_fits [OF assms] by force+

lemma alloc_one_place_per_filter:
  assumes "distinct (map ts_name ps)" and "distinct (map ts_name fs)" and "alloc ps fs = Inr a"
    and "(t, n) \<in> set a" and "(t', n) \<in> set a"
  shows "t = t'"
  using alloc_values [OF assms(1-3)] assms(4,5) by (metis distinct_map inj_onD prod.inject snd_conv)

end

lemma schedule_overlaps_correct:
  assumes "distinct places" and "distinct filters"
  shows "\<exists>new. schedule_overlaps places filters = Inr new \<and>
    matching places filters new \<and> maximal places filters new"
  using schedule_overlaps_loop_correct [OF assms, of "[]"] by (simp add: schedule_overlaps_def)

lemma fold_names:
  assumes "inj_on ts_name (fst ` set new)" and "dict_wf new"
    and "fst ` set acc \<inter> ts_name ` fst ` set new = {}"
  shows "fold (\<lambda>(f, p). AList.update (ts_name f) (ts_name p)) new acc =
    acc @ map (\<lambda>(f, p). (ts_name f, ts_name p)) new"
  using assms
proof (induction new arbitrary: acc)
  case Nil
  then show ?case by simp
next
  case (Cons x new)
  obtain f p where x: "x = (f, p)" by (cases x)
  have "ts_name f \<notin> fst ` set acc" using Cons.prems(3) x by auto
  then have up: "AList.update (ts_name f) (ts_name p) acc = acc @ [(ts_name f, ts_name p)]"
    by (rule update_absent)
  have "ts_name f \<notin> ts_name ` fst ` set new"
    using Cons.prems(1,2) x by (auto simp: inj_on_def)
  then have "fst ` set (acc @ [(ts_name f, ts_name p)]) \<inter> ts_name ` fst ` set new = {}"
    using Cons.prems(3) x by auto
  then show ?case
    using Cons.IH [of "acc @ [(ts_name f, ts_name p)]"] Cons.prems(1,2) x up
    by (simp add: inj_on_def)
qed

lemma schedule_result:
  assumes "distinct (map ts_name places)" and "distinct (map ts_name filters)"
  obtains new where "schedule places filters = Inr (map (\<lambda>(f, p). (ts_name f, ts_name p)) new)"
    and "schedule_overlaps places filters = Inr new"
    and "matching places filters new" and "maximal places filters new"
proof -
  have "distinct places" "distinct filters" using assms by (simp_all add: distinct_map)
  then obtain new where new: "schedule_overlaps places filters = Inr new"
    "matching places filters new" "maximal places filters new"
    using schedule_overlaps_correct by blast
  have "fst ` set new \<subseteq> set filters" using new(2) by (auto simp: matching_def)
  then have "inj_on ts_name (fst ` set new)"
    using assms(2) by (auto simp: distinct_map intro: inj_on_subset)
  with new have "schedule places filters = Inr (map (\<lambda>(f, p). (ts_name f, ts_name p)) new)"
    by (simp add: schedule_def fold_names matching_def)
  with new show ?thesis using that by blast
qed

lemma matching_names:
  assumes "distinct (map ts_name places)" and "distinct (map ts_name filters)"
    and "matching places filters new"
  shows "dict_wf (map (\<lambda>(f, p). (ts_name f, ts_name p)) new)"
    and "distinct (map snd (map (\<lambda>(f, p). (ts_name f, ts_name p)) new))"
proof -
  have "set (map fst new) \<subseteq> set filters" "set (map snd new) \<subseteq> set places"
    using assms(3) by (auto simp: matching_def)
  then have "inj_on ts_name (set (map fst new))" "inj_on ts_name (set (map snd new))"
    using assms(1,2) by (auto simp: distinct_map intro: inj_on_subset)
  then have "distinct (map ts_name (map fst new))" "distinct (map ts_name (map snd new))"
    using assms(3) unfolding matching_def by (simp_all only: distinct_map simp_thms)
  then show "dict_wf (map (\<lambda>(f, p). (ts_name f, ts_name p)) new)"
    "distinct (map snd (map (\<lambda>(f, p). (ts_name f, ts_name p)) new))"
    by (simp_all add: comp_def case_prod_unfold)
qed

interpretation scheduler: allocator schedule
proof
  fix ps fs :: "tagset list" and a t n f p
  assume d: "distinct (map ts_name ps)" "distinct (map ts_name fs)"
  from schedule_result [OF d] obtain new where new:
    "schedule ps fs = Inr (map (\<lambda>(f, p). (ts_name f, ts_name p)) new)" "matching ps fs new"
    "maximal ps fs new" .
  then show "\<exists>a. schedule ps fs = Inr a" by blast
  assume a: "schedule ps fs = Inr a"
  with new matching_names [OF d new(2)] show "dict_wf a" "distinct (map snd a)" by auto
  show "ts_name f \<in> fst ` set a \<or> ts_name p \<in> snd ` set a"
    if "f \<in> set fs" "p \<in> set ps" "fits f p"
  proof -
    have "a = map (\<lambda>(f, p). (ts_name f, ts_name p)) new" using a new(1) by simp
    moreover have "f \<in> fst ` set new \<or> p \<in> snd ` set new"
      using that new(3) unfolding maximal_def by blast
    ultimately show ?thesis by force
  qed
  assume "(t, n) \<in> set a"
  with a new show "\<exists>f \<in> set fs. \<exists>p \<in> set ps. ts_name f = t \<and> ts_name p = n \<and> fits f p"
    unfolding matching_def by fastforce
qed


section \<open>What the scheduler promises\<close>

text \<open>
  A correct answer for \<open>places\<close> and \<open>filters\<close>, over their names: one place per filter, one
  filter per place, only pairs that fit, and no filter left without a place while a place it
  fits is free.
\<close>

definition valid_schedule :: "tagset list \<Rightarrow> tagset list \<Rightarrow> (string, string) dict \<Rightarrow> bool" where
  "valid_schedule places filters a \<longleftrightarrow>
     dict_wf a \<and> distinct (map snd a) \<and>
     (\<forall>(t, n) \<in> set a. \<exists>f \<in> set filters. \<exists>p \<in> set places.
        ts_name f = t \<and> ts_name p = n \<and> fits f p) \<and>
     (\<forall>f \<in> set filters. \<forall>p \<in> set places.
        fits f p \<longrightarrow> ts_name f \<in> set (keys a) \<or> ts_name p \<in> snd ` set a)"

definition sample_places :: "tagset list" where
  "sample_places =
     [\<lparr>ts_name = ''p1'', ts_tags = {(''board'', ''a''), (''bar'', ''x'')}\<rparr>,
      \<lparr>ts_name = ''p2'', ts_tags = {(''board'', ''a'')}\<rparr>]"

definition sample_filters :: "tagset list" where
  "sample_filters =
     [\<lparr>ts_name = ''t1'', ts_tags = {(''board'', ''a'')}\<rparr>,
      \<lparr>ts_name = ''t2'', ts_tags = {(''board'', ''a''), (''bar'', ''x'')}\<rparr>]"

lemma sample_names:
  "distinct (map ts_name sample_places)" "distinct (map ts_name sample_filters)"
  "distinct sample_places" "distinct sample_filters"
  by (simp_all add: sample_places_def sample_filters_def)

text \<open>
  C1. For places and filters with distinct names, \<open>schedule\<close> returns, and what it returns is a
  matching of filters and places that fit, to which no further pair can be added.
\<close>

theorem schedule_returns_maximal_matching:
  assumes "distinct (map ts_name places)" and "distinct (map ts_name filters)"
  shows "\<exists>a. schedule places filters = Inr a \<and> valid_schedule places filters a"
proof -
  obtain a where a: "schedule places filters = Inr a" using scheduler.alloc_returns [OF assms] by blast
  have "\<forall>(t, n) \<in> set a. \<exists>f \<in> set filters. \<exists>p \<in> set places.
      ts_name f = t \<and> ts_name p = n \<and> fits f p"
    using scheduler.alloc_fits [OF assms a] by blast
  moreover have "\<forall>f \<in> set filters. \<forall>p \<in> set places.
      fits f p \<longrightarrow> ts_name f \<in> set (keys a) \<or> ts_name p \<in> snd ` set a"
    using scheduler.alloc_maximal [OF assms a] by simp
  ultimately have "valid_schedule places filters a"
    using scheduler.alloc_keys [OF assms a] scheduler.alloc_values [OF assms a]
    unfolding valid_schedule_def by blast
  with a show ?thesis by blast
qed

theorem schedule_returns_maximal_matching_witness:
  "\<exists>a. schedule sample_places sample_filters = Inr a \<and> valid_schedule sample_places sample_filters a"
  by (rule schedule_returns_maximal_matching) (simp_all add: sample_names)

text \<open>
  The queue order is respected where it can be: when an earlier filter asks for no tag that a
  later one does not also ask for, the later one gets a place only if the earlier one does.
\<close>

lemma schedule_overlaps_respects_order:
  assumes "distinct places" and "distinct filters"
    and "filters = xs @ f # ys" and "g \<in> set ys" and "ts_tags f \<subseteq> ts_tags g"
    and "schedule_overlaps places filters = Inr result" and "g \<in> set (keys result)"
  shows "f \<in> set (keys result)"
  using schedule_overlaps_loop_first [of places filters "[]" xs f ys g result] assms
  by (simp add: schedule_overlaps_def)

lemma sample_schedule:
  "schedule_overlaps sample_places sample_filters =
     Inr [(sample_filters ! 0, sample_places ! 1), (sample_filters ! 1, sample_places ! 0)]"
  by (simp add: schedule_overlaps_def schedule_overlaps_loop.simps schedule_step_def
      build_interest_def add_interest_def fits_def Let_def sample_places_def sample_filters_def)

theorem schedule_overlaps_respects_order_witness:
  "sample_filters ! 0 \<in> set (keys [(sample_filters ! 0, sample_places ! 1),
     (sample_filters ! 1, sample_places ! 0)])"
  by (rule schedule_overlaps_respects_order
        [of sample_places sample_filters "[]" _ "[sample_filters ! 1]" "sample_filters ! 1",
         OF sample_names(3,4) _ _ _ sample_schedule])
    (simp_all add: sample_filters_def)

text \<open>
  A single \<open>schedule_step\<close> serves the least contended places first: a place it hands out is
  wanted by no more filters than any other wanted place.
\<close>

lemma schedule_step_least_contended:
  assumes "distinct places" and "(f, p) \<in> set (schedule_step places filters)"
    and "q \<in> set places" and "\<exists>g \<in> set filters. fits g q"
  shows "fits f p \<and>
    length (filter (\<lambda>g. fits g p) filters) \<le> length (filter (\<lambda>g. fits g q) filters)"
  using schedule_step_entry(3,4) [OF assms(1,2)] assms(3,4) by (auto simp: filter_empty_conv)

theorem schedule_step_least_contended_witness:
  "length (filter (\<lambda>g. fits g (sample_places ! 1)) sample_filters)
     \<le> length (filter (\<lambda>g. fits g (sample_places ! 0)) sample_filters)"
proof -
  have "(sample_filters ! 0, sample_places ! 1) \<in> set (schedule_step sample_places sample_filters)"
    by (simp add: schedule_step_def build_interest_def add_interest_def fits_def Let_def
        sample_places_def sample_filters_def)
  moreover have "sample_places ! 0 \<in> set sample_places"
    "\<exists>g \<in> set sample_filters. fits g (sample_places ! 0)"
    by (auto simp: sample_places_def sample_filters_def fits_def)
  ultimately show ?thesis using schedule_step_least_contended [OF sample_names(3)] by blast
qed

end
