(* ===== verification/CoordState.thy ===== *)
theory CoordState
  imports Common Scheduler
begin

text \<open>
  The state of \<^verbatim>\<open>labgrid/remote/coordinator.py\<close>, the sessions of exporters and clients, and what
  the coordinator does when a message arrives from one of them. A \<open>ResourceImport\<close> is shared
  between an exporter's session and the places that hold it, so resources live in a heap and are
  referred to by their index; so are commands, which the waiting handler and the two lists of an
  exporter's session share.

  The handlers of the next theories run under the coordinator's lock and give up control only
  while they wait for the answer to a command. What other tasks do meanwhile is a script of
  events, so every interleaving is a choice of scripts.
\<close>

section \<open>Errors and messages\<close>

datatype grpc_status =
    INVALID_ARGUMENT
  | ALREADY_EXISTS
  | FAILED_PRECONDITION
  | PERMISSION_DENIED
  | UNIMPLEMENTED

text \<open>\<open>Abort\<close> is \<open>context.abort\<close>, which raises in the handler.\<close>

datatype cerror =
    Builtin py_error
  | Abort grpc_status
  | ExporterErr
  | TimeoutErr
  | Cancelled

text \<open>
  One update of a message to the clients. A resource is the entry before its encoding by
  \<open>resource_as_pb2\<close>.
\<close>

datatype client_update =
    UpdResource string string string resource_entry
  | UpdDelResource string string string
  | UpdPlace pb_place
  | UpdDelPlace string

datatype client_out = OutSync int | OutUpdates "client_update list"


section \<open>The state\<close>

record resource_import =
  ri_data :: resource_entry
  ri_path :: path
  ri_orphaned :: bool

text \<open>An \<open>ExporterCommand\<close>: its request, the response (success and reason) and \<open>expired\<close>.\<close>

record exporter_command =
  ec_group :: string
  ec_resource :: string
  ec_place :: "string option"
  ec_response :: "(bool \<times> string) option"
  ec_expired :: bool

text \<open>
  The task that reads an exporter's messages: running, waiting for the coordinator's lock to add
  the default place of a group, or ended by an exception.
\<close>

datatype rx_state = RxRunning | RxWaiting string | RxDead

record exporter_session =
  es_name :: string
  es_groups :: "(string, (string, nat) dict) dict"
  es_queue :: "nat list"
  es_pending :: "nat list"
  es_rx :: rx_state

record client_session =
  cs_name :: string
  cs_queue :: "client_out list"

text \<open>What happens outside the handlers.\<close>

datatype event =
    EvExporterStartup string string
  | EvExporterResource string string string pb_resource
  | EvExporterResponse string bool string
  | EvExporterSend string
  | EvExporterResume string
  | EvExporterDisconnect string
  | EvClientStartup string string
  | EvClientSync string int
  | EvClientSubscribe string bool bool
  | EvClientDisconnect string
  | EvSave
  | EvTick real real

text \<open>A wait for a command ends early when its ten seconds are over or its task is cancelled.\<close>

datatype wait_event = WEvent event | WTimeout | WCancel

text \<open>
  \<open>co_now\<close> is \<open>time.time()\<close> and \<open>co_mono\<close> is \<open>time.monotonic()\<close>; \<open>co_script\<close> is what the running
  handler will find while it waits.
\<close>

record coord =
  co_places :: "(string, nat place) dict"
  co_reservations :: "(string, reservation) dict"
  co_exporters :: "(string, exporter_session) dict"
  co_clients :: "(string, client_session) dict"
  co_heap :: "resource_import list"
  co_commands :: "exporter_command list"
  co_save_scheduled :: bool
  co_locked :: bool
  co_now :: real
  co_mono :: real
  co_script :: "wait_event list"

abbreviation res_path :: "coord \<Rightarrow> nat \<Rightarrow> path" where
  "res_path s r \<equiv> ri_path (co_heap s ! r)"

abbreviation res_acquired :: "coord \<Rightarrow> nat \<Rightarrow> string option" where
  "res_acquired s r \<equiv> re_acquired (ri_data (co_heap s ! r))"


section \<open>Sending to clients\<close>

definition broadcast :: "client_out \<Rightarrow> coord \<Rightarrow> coord" where
  "broadcast msg s =
     s\<lparr>co_clients := map (\<lambda>(peer, c). (peer, c\<lparr>cs_queue := cs_queue c @ [msg]\<rparr>)) (co_clients s)\<rparr>"

definition save_later :: "coord \<Rightarrow> coord" where
  "save_later s = s\<lparr>co_save_scheduled := True\<rparr>"

definition place_pb :: "coord \<Rightarrow> nat place \<Rightarrow> pb_place" where
  "place_pb s p = place_as_pb2 (res_path s) p"

definition publish_place :: "nat place \<Rightarrow> coord \<Rightarrow> coord" where
  "publish_place p s = broadcast (OutUpdates [UpdPlace (place_pb s p)]) s"

definition publish_resource :: "nat \<Rightarrow> coord \<Rightarrow> coord" where
  "publish_resource r s =
     (case res_path s r of (exporter, grp, cls, name) \<Rightarrow>
        broadcast (OutUpdates [UpdResource exporter grp name (ri_data (co_heap s ! r))]) s)"

definition set_place :: "string \<Rightarrow> nat place \<Rightarrow> coord \<Rightarrow> coord" where
  "set_place name p s = s\<lparr>co_places := AList.update name p (co_places s)\<rparr>"

text \<open>\<open>place.touch()\<close>, \<open>_publish_place(place)\<close> and \<open>save_later()\<close>, with which most handlers end.\<close>

definition finish_place :: "string \<Rightarrow> nat place \<Rightarrow> coord \<Rightarrow> coord" where
  "finish_place name p s =
     (let q = touch (co_now s) p in save_later (publish_place q (set_place name q s)))"


section \<open>Exporter sessions\<close>

definition get_exporter_by_name :: "string \<Rightarrow> coord \<Rightarrow> (string \<times> exporter_session) option" where
  "get_exporter_by_name name s = find (\<lambda>(_, e). es_name e = name) (co_exporters s)"

datatype action = ActionADD | ActionDEL | ActionUPD

definition mark_orphaned :: "nat \<Rightarrow> coord \<Rightarrow> coord" where
  "mark_orphaned r s = s\<lparr>co_heap := (co_heap s)[r := (co_heap s ! r)\<lparr>ri_orphaned := True\<rparr>]\<rparr>"

definition set_data :: "nat \<Rightarrow> resource_entry \<Rightarrow> coord \<Rightarrow> coord" where
  "set_data r d s = s\<lparr>co_heap := (co_heap s)[r := (co_heap s ! r)\<lparr>ri_data := d\<rparr>]\<rparr>"

definition set_group ::
  "string \<Rightarrow> (string, nat) dict \<Rightarrow> exporter_session \<Rightarrow> exporter_session" where
  "set_group grp g e = e\<lparr>es_groups := AList.update grp g (es_groups e)\<rparr>"

text \<open>
  \<open>ExporterSession.set_resource\<close>, which returns the action and the session. Deleting a resource
  that is not there reads \<open>acquired\<close> off \<open>None\<close>.
\<close>

definition set_resource ::
  "string \<Rightarrow> string \<Rightarrow> pb_resource option \<Rightarrow> exporter_session \<Rightarrow> coord \<Rightarrow>
   (cerror, action \<times> exporter_session, coord) outcome" where
  "set_resource grp name resource e s =
     (let e1 = e\<lparr>es_groups := dict_setdefault grp [] (es_groups e)\<rparr>;
          g = the (map_of (es_groups e1) grp)
      in case (resource, map_of g name) of
        (Some m, Some old) \<Rightarrow>
          let d = resource_entry_init (resource_data_from_pb2 m);
              s1 = set_data old d s
          in (Inr (ActionUPD, e1), broadcast (OutUpdates [UpdResource (es_name e) grp name d]) s1)
      | (Some m, None) \<Rightarrow>
          let d = resource_entry_init (resource_data_from_pb2 m);
              new = \<lparr>ri_data = d, ri_path = (es_name e, grp, pbr_cls m, name), ri_orphaned = False\<rparr>;
              s1 = s\<lparr>co_heap := co_heap s @ [new]\<rparr>
          in (Inr (ActionADD, set_group grp (AList.update name (length (co_heap s)) g) e1),
              broadcast (OutUpdates [UpdResource (es_name e) grp name d]) s1)
      | (None, Some old) \<Rightarrow>
          let s1 = (if truthy (res_acquired s old) then mark_orphaned old s else s)
          in (Inr (ActionDEL, set_group grp (AList.delete name g) e1),
              broadcast (OutUpdates [UpdDelResource (es_name e) grp name]) s1)
      | (None, None) \<Rightarrow> (Inl (Builtin AttributeError), s))"

text \<open>\<open>get_resources\<close>: what the exporter offers, as saved in \<^verbatim>\<open>resources.yaml\<close>.\<close>

definition get_resources ::
  "exporter_session \<Rightarrow> coord \<Rightarrow> (string, (string, resource_entry) dict) dict" where
  "get_resources e s =
     map (\<lambda>(grp, g). (grp, map (\<lambda>(name, r). (name, ri_data (co_heap s ! r))) g)) (es_groups e)"

definition add_default_place :: "string \<Rightarrow> coord \<Rightarrow> coord" where
  "add_default_place name s =
     (if name \<in> set (keys (co_places s)) then s
      else if \<not> isdigit name then s
      else set_place name
        ((new_place (co_now s) name)
           \<lparr>pl_matches := [\<lparr>rm_exporter = ''*'', rm_group = name, rm_cls = ''*'', rm_name = None,
                            rm_rename = None\<rparr>]\<rparr>) s)"

definition put_exporter :: "string \<Rightarrow> exporter_session \<Rightarrow> coord \<Rightarrow> coord" where
  "put_exporter peer e s = s\<lparr>co_exporters := AList.update peer e (co_exporters s)\<rparr>"

definition complete_command :: "nat \<Rightarrow> bool \<Rightarrow> string \<Rightarrow> coord \<Rightarrow> coord" where
  "complete_command c success reason s =
     s\<lparr>co_commands := (co_commands s)[c := (co_commands s ! c)\<lparr>ec_response := Some (success, reason)\<rparr>]\<rparr>"

text \<open>
  The first message of an exporter. A name that another session uses ends the connection with
  \<open>ExporterError\<close>, before a session exists.
\<close>

definition exporter_startup :: "string \<Rightarrow> string \<Rightarrow> coord \<Rightarrow> coord" where
  "exporter_startup peer name s =
     (case get_exporter_by_name name s of
        Some _ \<Rightarrow>
          (case map_of (co_exporters s) peer of
             None \<Rightarrow> s
           | Some e \<Rightarrow> put_exporter peer (e\<lparr>es_rx := RxDead\<rparr>) s)
      | None \<Rightarrow>
          (case map_of (co_exporters s) peer of
             None \<Rightarrow>
               put_exporter peer \<lparr>es_name = name, es_groups = [], es_queue = [], es_pending = [],
                 es_rx = RxRunning\<rparr> s
           | Some e \<Rightarrow> put_exporter peer (e\<lparr>es_name := name, es_groups := []\<rparr>) s))"

text \<open>
  A resource message. A new resource asks for the default place of its group, which waits for
  the lock when a handler holds it: the task reads no further message until then.
\<close>

definition exporter_resource ::
  "string \<Rightarrow> string \<Rightarrow> string \<Rightarrow> pb_resource \<Rightarrow> exporter_session \<Rightarrow> coord \<Rightarrow> coord" where
  "exporter_resource peer grp name m e s =
     (case set_resource grp name (Some m) e s of
        (Inl _, s1) \<Rightarrow> put_exporter peer (e\<lparr>es_rx := RxDead\<rparr>) s1
      | (Inr (a, e1), s1) \<Rightarrow>
          if a = ActionADD \<and> co_locked s
          then put_exporter peer (e1\<lparr>es_rx := RxWaiting grp\<rparr>) s1
          else if a = ActionADD then save_later (add_default_place grp (put_exporter peer e1 s1))
          else save_later (put_exporter peer e1 s1))"

text \<open>A response answers the oldest command that was sent; with none, \<open>pop(0)\<close> raises.\<close>

definition exporter_response ::
  "string \<Rightarrow> bool \<Rightarrow> string \<Rightarrow> exporter_session \<Rightarrow> coord \<Rightarrow> coord" where
  "exporter_response peer success reason e s =
     (case es_pending e of
        [] \<Rightarrow> put_exporter peer (e\<lparr>es_rx := RxDead\<rparr>) s
      | c # cs \<Rightarrow> complete_command c success reason (put_exporter peer (e\<lparr>es_pending := cs\<rparr>) s))"

text \<open>The sending task moves a command from the queue to the list of pending commands.\<close>

definition exporter_send :: "string \<Rightarrow> exporter_session \<Rightarrow> coord \<Rightarrow> coord" where
  "exporter_send peer e s =
     (case es_queue e of
        [] \<Rightarrow> s
      | c # cs \<Rightarrow> put_exporter peer (e\<lparr>es_queue := cs, es_pending := es_pending e @ [c]\<rparr>) s)"

text \<open>
  The end of \<open>ExporterStream\<close>: every resource of the session is set to \<open>None\<close>. Before that the
  reading task is cancelled and awaited. When it has ended with an exception, or is still waiting
  for the lock, awaiting it raises and the session stays in \<open>self.exporters\<close>.
\<close>

definition drop_resource :: "string \<times> string \<Rightarrow> exporter_session \<times> coord \<Rightarrow> exporter_session \<times> coord"
where
  "drop_resource x es =
     (case set_resource (fst x) (snd x) None (fst es) (snd es) of
        (Inl _, s) \<Rightarrow> (fst es, s)
      | (Inr (_, e), s) \<Rightarrow> (e, s))"

definition session_resources :: "exporter_session \<Rightarrow> (string \<times> string) list" where
  "session_resources e =
     concat (map (\<lambda>(grp, g). map (\<lambda>name. (grp, name)) (keys g)) (es_groups e))"

definition exporter_disconnect :: "string \<Rightarrow> exporter_session \<Rightarrow> coord \<Rightarrow> coord" where
  "exporter_disconnect peer e s =
     (case es_rx e of
        RxDead \<Rightarrow> s
      | RxWaiting _ \<Rightarrow> put_exporter peer (e\<lparr>es_rx := RxDead\<rparr>) s
      | RxRunning \<Rightarrow> snd (fold drop_resource (session_resources e)
                 (e, s\<lparr>co_exporters := AList.delete peer (co_exporters s)\<rparr>)))"



section \<open>Client sessions\<close>

definition send_client :: "string \<Rightarrow> client_out \<Rightarrow> coord \<Rightarrow> coord" where
  "send_client peer msg s =
     (case map_of (co_clients s) peer of
        None \<Rightarrow> s
      | Some c \<Rightarrow>
          s\<lparr>co_clients := AList.update peer (c\<lparr>cs_queue := cs_queue c @ [msg]\<rparr>) (co_clients s)\<rparr>)"

definition subscribe_places :: "string \<Rightarrow> coord \<Rightarrow> coord" where
  "subscribe_places peer s =
     send_client peer (OutUpdates (map (\<lambda>(_, p). UpdPlace (place_pb s p)) (co_places s))) s"

definition collect_resources :: "coord \<Rightarrow> client_update list" where
  "collect_resources s =
     concat (map (\<lambda>(_, e).
       concat (map (\<lambda>(grp, g).
         map (\<lambda>(name, r). UpdResource (es_name e) grp name (ri_data (co_heap s ! r))) g)
         (es_groups e)))
       (co_exporters s))"

text \<open>The \<open>while\<close> loop that sends the collected updates in batches of a hundred.\<close>

function batches :: "'a list \<Rightarrow> 'a list list" where
  "batches collected =
     (if collected = [] then [] else take 100 collected # batches (drop 100 collected))"
  by pat_completeness auto
termination
  by (relation "measure length") (auto simp: not_less_eq_eq)

declare batches.simps [simp del]

definition subscribe_resources :: "string \<Rightarrow> coord \<Rightarrow> coord" where
  "subscribe_resources peer s =
     fold (\<lambda>batch. send_client peer (OutUpdates batch)) (batches (collect_resources s)) s"

definition client_startup :: "string \<Rightarrow> string \<Rightarrow> coord \<Rightarrow> coord" where
  "client_startup peer name s =
     (case map_of (co_clients s) peer of
        None \<Rightarrow>
          s\<lparr>co_clients := AList.update peer \<lparr>cs_name = name, cs_queue = []\<rparr> (co_clients s)\<rparr>
      | Some c \<Rightarrow> s\<lparr>co_clients := AList.update peer (c\<lparr>cs_name := name\<rparr>) (co_clients s)\<rparr>)"

definition client_subscribe :: "string \<Rightarrow> bool \<Rightarrow> bool \<Rightarrow> coord \<Rightarrow> coord" where
  "client_subscribe peer all_places all_resources s =
     (let s1 = (if all_places then subscribe_places peer s else s)
      in if all_resources then subscribe_resources peer s1 else s1)"

definition client_disconnect :: "string \<Rightarrow> coord \<Rightarrow> coord" where
  "client_disconnect peer s = s\<lparr>co_clients := AList.delete peer (co_clients s)\<rparr>"


section \<open>Saving\<close>

text \<open>
  An entry of \<^verbatim>\<open>places.yaml\<close>: \<open>Place.asdict\<close> without the keys that \<open>load\<close> deletes. The files are
  written and read by the YAML library; here a file is the value it holds.
\<close>

record saved_place =
  sv_aliases :: "string list"
  sv_comment :: string
  sv_tags :: "(string, string) dict"
  sv_matches :: "resource_match list"
  sv_acquired :: "string option"
  sv_acquired_resources :: "path list"
  sv_allowed :: "string list"
  sv_created :: real
  sv_changed :: real
  sv_reservation :: "string option"

definition place_asdict :: "(nat \<Rightarrow> path) \<Rightarrow> nat place \<Rightarrow> saved_place" where
  "place_asdict path_of p =
     \<lparr>sv_aliases = pl_aliases p, sv_comment = pl_comment p, sv_tags = pl_tags p,
      sv_matches = pl_matches p, sv_acquired = pl_acquired p,
      sv_acquired_resources = map path_of (pl_acquired_resources p), sv_allowed = pl_allowed p,
      sv_created = pl_created p, sv_changed = pl_changed p, sv_reservation = pl_reservation p\<rparr>"

type_synonym saved =
  "(string, (string, (string, resource_entry) dict) dict) dict \<times> (string, saved_place) dict"

definition save :: "coord \<Rightarrow> saved \<times> coord" where
  "save s =
     ((fold (\<lambda>(_, e). AList.update (es_name e) (get_resources e s)) (co_exporters s) [],
       map (\<lambda>(k, p). (k, place_asdict (res_path s) p)) (co_places s)),
      s\<lparr>co_save_scheduled := False\<rparr>)"


section \<open>Events\<close>

text \<open>A message is handled by the reading task of its exporter, while that is running.\<close>

definition on_exporter ::
  "string \<Rightarrow> (exporter_session \<Rightarrow> coord \<Rightarrow> coord) \<Rightarrow> coord \<Rightarrow> coord" where
  "on_exporter peer f s = (case map_of (co_exporters s) peer of None \<Rightarrow> s | Some e \<Rightarrow> f e s)"

definition reading ::
  "(exporter_session \<Rightarrow> coord \<Rightarrow> coord) \<Rightarrow> exporter_session \<Rightarrow> coord \<Rightarrow> coord" where
  "reading f e s = (if es_rx e = RxRunning then f e s else s)"

text \<open>
  A reading task that waits for the lock gets it when no handler holds it: it adds the default
  place of the group it was told about and reads on.
\<close>

definition resume_reader :: "string \<Rightarrow> exporter_session \<Rightarrow> coord \<Rightarrow> coord" where
  "resume_reader peer e s =
     (case es_rx e of
        RxWaiting grp \<Rightarrow>
          if co_locked s then s
          else save_later (add_default_place grp (put_exporter peer (e\<lparr>es_rx := RxRunning\<rparr>) s))
      | _ \<Rightarrow> s)"

fun deliver :: "event \<Rightarrow> coord \<Rightarrow> coord" where
  "deliver (EvExporterStartup peer name) s =
     (case map_of (co_exporters s) peer of
        None \<Rightarrow> exporter_startup peer name s
      | Some e \<Rightarrow> if es_rx e = RxRunning then exporter_startup peer name s else s)"
| "deliver (EvExporterResource peer grp name m) s =
     on_exporter peer (reading (exporter_resource peer grp name m)) s"
| "deliver (EvExporterResponse peer success reason) s =
     on_exporter peer (reading (exporter_response peer success reason)) s"
| "deliver (EvExporterSend peer) s = on_exporter peer (exporter_send peer) s"
| "deliver (EvExporterResume peer) s = on_exporter peer (resume_reader peer) s"
| "deliver (EvExporterDisconnect peer) s = on_exporter peer (exporter_disconnect peer) s"
| "deliver (EvClientStartup peer name) s = client_startup peer name s"
| "deliver (EvClientSync peer n) s = send_client peer (OutSync n) s"
| "deliver (EvClientSubscribe peer ps rs) s = client_subscribe peer ps rs s"
| "deliver (EvClientDisconnect peer) s = client_disconnect peer s"
| "deliver EvSave s = (if co_save_scheduled s then snd (save s) else s)"
| "deliver (EvTick now clk) s = s\<lparr>co_now := now, co_mono := clk\<rparr>"

text \<open>The \<open>locked\<close> decorator.\<close>

definition locked ::
  "(coord \<Rightarrow> (cerror, 'a, coord) outcome) \<Rightarrow> coord \<Rightarrow> (cerror, 'a, coord) outcome" where
  "locked func s = (case func (s\<lparr>co_locked := True\<rparr>) of (r, t) \<Rightarrow> (r, t\<lparr>co_locked := False\<rparr>))"

text \<open>
  \<open>cmd.wait()\<close>: events happen until the command has a response, its time is over (also when the
  script has nothing more to offer) or the waiting task is cancelled.
\<close>

definition expire_command :: "nat \<Rightarrow> coord \<Rightarrow> coord" where
  "expire_command c s =
     s\<lparr>co_commands := (co_commands s)[c := (co_commands s ! c)\<lparr>ec_expired := True\<rparr>]\<rparr>"

fun wait_command :: "nat \<Rightarrow> wait_event list \<Rightarrow> coord \<Rightarrow> (cerror, unit, coord) outcome" where
  "wait_command c [] s =
     (if ec_response (co_commands s ! c) \<noteq> None then (Inr (), s\<lparr>co_script := []\<rparr>)
      else (Inl TimeoutErr, expire_command c (s\<lparr>co_script := []\<rparr>)))"
| "wait_command c (w # ws) s =
     (if ec_response (co_commands s ! c) \<noteq> None then (Inr (), s\<lparr>co_script := w # ws\<rparr>)
      else case w of
        WEvent e \<Rightarrow> wait_command c ws (deliver e s)
      | WTimeout \<Rightarrow> (Inl TimeoutErr, expire_command c (s\<lparr>co_script := ws\<rparr>))
      | WCancel \<Rightarrow> (Inl Cancelled, expire_command c (s\<lparr>co_script := ws\<rparr>)))"

text \<open>
  Sending a command to the exporter of a resource and waiting for its response. An exporter that
  is not connected is \<open>None\<close>, and reading its \<open>queue\<close> raises.
\<close>

definition run_command :: "nat \<Rightarrow> string option \<Rightarrow> coord \<Rightarrow> (cerror, unit, coord) outcome" where
  "run_command r place_name s =
     (case res_path s r of (exporter, grp, cls, name) \<Rightarrow>
       (case get_exporter_by_name exporter s of
          None \<Rightarrow> (Inl (Builtin AttributeError), s)
        | Some (peer, e) \<Rightarrow>
            let c = length (co_commands s);
                cmd = \<lparr>ec_group = grp, ec_resource = name, ec_place = place_name,
                       ec_response = None, ec_expired = False\<rparr>;
                s1 = put_exporter peer (e\<lparr>es_queue := es_queue e @ [c]\<rparr>)
                       (s\<lparr>co_commands := co_commands s @ [cmd]\<rparr>)
            in and_then (wait_command c (co_script s1) s1)
                 (\<lambda>_ t. case ec_response (co_commands t ! c) of
                    Some (True, _) \<Rightarrow> (Inr (), t)
                  | _ \<Rightarrow> (Inl ExporterErr, t))))"

end
