(* ===== verification/CoordReserve.thy ===== *)
theory CoordReserve
  imports CoordState
begin

text \<open>
  \<open>Coordinator.schedule_reservations\<close>: expiry, the check of the allocated places, the call of the
  scheduler and the copy of the allocations to the places. Where the code iterates over a set, the
  order is a parameter that gives a permutation of the indices for every length.
\<close>

section \<open>Iteration over sets\<close>

definition reorder :: "(nat \<Rightarrow> nat list) \<Rightarrow> 'a list \<Rightarrow> 'a list" where
  "reorder order xs = map ((!) xs) (order (length xs))"

definition set_order :: "(nat \<Rightarrow> nat list) \<Rightarrow> bool" where
  "set_order order \<longleftrightarrow> (\<forall>n. distinct (order n) \<and> set (order n) = {0..<n})"

lemma set_order_upt: "set_order (\<lambda>n. [0..<n])"
  by (simp add: set_order_def)

lemma set_reorder [simp]: "set_order order \<Longrightarrow> set (reorder order xs) = set xs"
  by (simp add: reorder_def set_order_def nth_image)

lemma distinct_reorder: "set_order order \<Longrightarrow> distinct xs \<Longrightarrow> distinct (reorder order xs)"
  unfolding reorder_def set_order_def distinct_map by (auto simp: inj_on_def nth_eq_iff_index_eq)


section \<open>The stages\<close>

text \<open>Expiry: \<open>None\<close> when the reservation is removed.\<close>

definition expire_one :: "real \<Rightarrow> reservation \<Rightarrow> reservation option" where
  "expire_one now r =
     (let r1 = (if rs_state r = RAcquired then rs_refresh now 60 r else r)
      in if \<not> rs_expired now r1 then Some r1
         else if rs_state r1 \<noteq> RExpired
         then Some (rs_refresh now 60 (r1\<lparr>rs_state := RExpired, rs_allocations := []\<rparr>))
         else None)"

definition expire_reservation ::
  "real \<Rightarrow> string \<Rightarrow> (string, reservation) dict \<Rightarrow> (string, reservation) dict" where
  "expire_reservation now token rs =
     (case map_of rs token of
        None \<Rightarrow> rs
      | Some r \<Rightarrow>
          (case expire_one now r of
             None \<Rightarrow> AList.delete token rs
           | Some r' \<Rightarrow> AList.update token r' rs))"

definition expire_reservations ::
  "real \<Rightarrow> (string, reservation) dict \<Rightarrow> (string, reservation) dict" where
  "expire_reservations now rs = fold (expire_reservation now) (keys rs) rs"

text \<open>
  The loop over the places of one filter group. Its state is the reservation and the sets
  \<open>acquired_places\<close> and \<open>allocated_places\<close>; a place that was deleted ends it.
\<close>

fun scan_group ::
  "(string, nat place) dict \<Rightarrow> real \<Rightarrow> string list \<Rightarrow> reservation \<times> string list \<times> string list \<Rightarrow>
   (py_error, unit, reservation \<times> string list \<times> string list) outcome" where
  "scan_group places now [] st = (Inr (), st)"
| "scan_group places now (name # names) (r, acquired, allocated) =
     (case map_of places name of
        None \<Rightarrow>
          (Inr (), (rs_refresh now 300 (r\<lparr>rs_state := RInvalid, rs_allocations := []\<rparr>),
                    acquired, allocated))
      | Some p \<Rightarrow>
          let acquired' = (if pl_acquired p \<noteq> None then List.insert name acquired else acquired)
          in if name \<in> set allocated then (Inl AssertionError, (r, acquired', allocated))
             else scan_group places now names (r, acquired', List.insert name allocated))"

text \<open>The two transitions between \<open>allocated\<close> and \<open>acquired\<close>.\<close>

definition follow_acquired :: "real \<Rightarrow> bool \<Rightarrow> reservation \<Rightarrow> reservation" where
  "follow_acquired now any_acquired r =
     (let r1 = (if any_acquired \<and> rs_state r = RAllocated
                then rs_refresh now 60 (r\<lparr>rs_state := RAcquired\<rparr>) else r)
      in if \<not> any_acquired \<and> rs_state r1 = RAcquired
         then rs_refresh now 60 (r1\<lparr>rs_state := RAllocated\<rparr>) else r1)"

definition scan_reservation ::
  "(string, nat place) dict \<Rightarrow> real \<Rightarrow> string \<Rightarrow> (string, reservation) dict \<times> string list \<Rightarrow>
   (py_error, unit, (string, reservation) dict \<times> string list) outcome" where
  "scan_reservation places now token st =
     (case map_of (fst st) token of
        None \<Rightarrow> (Inr (), st)
      | Some r \<Rightarrow>
          (case for_each (scan_group places now) (map snd (rs_allocations r)) (r, [], snd st) of
             (Inl e, (r1, acquired, allocated)) \<Rightarrow>
               (Inl e, (AList.update token r1 (fst st), allocated))
           | (Inr _, (r1, acquired, allocated)) \<Rightarrow>
               (Inr (), (AList.update token (follow_acquired now (acquired \<noteq> []) r1) (fst st),
                         allocated))))"

definition available_places :: "(string, nat place) dict \<Rightarrow> string list" where
  "available_places places =
     map fst (filter (\<lambda>(_, p). pl_acquired p = None \<and> pl_reservation p = None) places)"

text \<open>The reservations to be handled, by descending priority and then by age.\<close>

definition pending_reservations :: "(string, reservation) dict \<Rightarrow> reservation list" where
  "pending_reservations rs =
     filter (\<lambda>r. rs_state r = RWaiting)
       (sort_key (\<lambda>r. (- rs_prio r, rs_created r)) (map snd rs))"

definition place_tagset :: "(string, nat place) dict \<Rightarrow> string \<Rightarrow> tagset" where
  "place_tagset places name =
     \<lparr>ts_name = name,
      ts_tags = insert (''name'', name)
        (set (case map_of places name of None \<Rightarrow> [] | Some p \<Rightarrow> pl_tags p))\<rparr>"

fun filter_tagsets :: "reservation list \<Rightarrow> py_error + tagset list" where
  "filter_tagsets [] = Inr []"
| "filter_tagsets (r # rs) =
     (case map_of (rs_filters r) ''main'' of
        None \<Rightarrow> Inl KeyError
      | Some fltr \<Rightarrow>
          (case filter_tagsets rs of
             Inl e \<Rightarrow> Inl e
           | Inr fs \<Rightarrow> Inr (\<lparr>ts_name = rs_token r, ts_tags = set fltr\<rparr> # fs)))"

definition apply_allocation ::
  "real \<Rightarrow> string \<times> string \<Rightarrow> (string, reservation) dict \<Rightarrow>
   (py_error, unit, (string, reservation) dict) outcome" where
  "apply_allocation now x rs =
     (case map_of rs (fst x) of
        None \<Rightarrow> (Inl KeyError, rs)
      | Some r \<Rightarrow>
          (Inr (), AList.update (fst x)
             (rs_refresh now 60 (r\<lparr>rs_allocations := [(''main'', [snd x])], rs_state := RAllocated\<rparr>))
             rs))"

text \<open>Copying the allocations: the state is \<open>new_map\<close> and the places.\<close>

definition copy_place ::
  "string \<Rightarrow> string \<Rightarrow> (string, string) dict \<times> (string, nat place) dict \<Rightarrow>
   (py_error, unit, (string, string) dict \<times> (string, nat place) dict) outcome" where
  "copy_place token name st =
     (if map_of (fst st) name \<noteq> None then (Inl AssertionError, st)
      else
        let new_map = AList.update name token (fst st)
        in case map_of (snd st) name of
             None \<Rightarrow> (Inl AssertionError, (new_map, snd st))
           | Some p \<Rightarrow>
               (Inr (), (new_map, AList.update name (p\<lparr>pl_reservation := Some token\<rparr>) (snd st))))"

definition copy_allocation ::
  "reservation \<Rightarrow> (string, string) dict \<times> (string, nat place) dict \<Rightarrow>
   (py_error, unit, (string, string) dict \<times> (string, nat place) dict) outcome" where
  "copy_allocation r st =
     (if rs_allocations r = [] then (Inr (), st)
      else if length (rs_allocations r) \<noteq> 1 then (Inl AssertionError, st)
      else for_each (for_each (copy_place (rs_token r))) (map snd (rs_allocations r)) st)"

definition publish_changed ::
  "(string, string option) dict \<Rightarrow> (string, string) dict \<Rightarrow> string \<Rightarrow> coord \<Rightarrow>
   (cerror, unit, coord) outcome" where
  "publish_changed old_map new_map name s =
     (if Option.bind (map_of old_map name) id = map_of new_map name then (Inr (), s)
      else case map_of (co_places s) name of
        None \<Rightarrow> (Inl (Builtin KeyError), s)
      | Some p \<Rightarrow> (Inr (), publish_place p s))"

text \<open>An error of a stage, with the state the stage reached.\<close>

definition lift_stage ::
  "(py_error, unit, 't) outcome \<Rightarrow> ('t \<Rightarrow> coord) \<Rightarrow> ('t \<Rightarrow> (cerror, unit, coord) outcome) \<Rightarrow>
   (cerror, unit, coord) outcome" where
  "lift_stage m put k = (case m of (Inl e, t) \<Rightarrow> (Inl (Builtin e), put t) | (Inr _, t) \<Rightarrow> k t)"

definition update_places ::
  "(nat \<Rightarrow> nat list) \<Rightarrow> coord \<Rightarrow> (cerror, unit, coord) outcome" where
  "update_places order s =
     (let old_map = map (\<lambda>(_, p). (pl_name p, pl_reservation p)) (co_places s);
          cleared = map (\<lambda>(k, p). (k, p\<lparr>pl_reservation := None\<rparr>)) (co_places s)
      in lift_stage (for_each copy_allocation (map snd (co_reservations s)) ([], cleared))
           (\<lambda>st. s\<lparr>co_places := snd st\<rparr>)
           (\<lambda>(new_map, places).
              for_each (publish_changed old_map new_map)
                (reorder order (remdups (keys old_map @ keys new_map)))
                (s\<lparr>co_places := places\<rparr>)))"

definition schedule_reservations ::
  "(nat \<Rightarrow> nat list) \<Rightarrow> (nat \<Rightarrow> nat list) \<Rightarrow> coord \<Rightarrow> (cerror, unit, coord) outcome" where
  "schedule_reservations order1 order2 s =
     (let now = co_now s;
          places = co_places s;
          rs1 = expire_reservations now (co_reservations s)
      in lift_stage (for_each (scan_reservation places now) (keys rs1) (rs1, []))
           (\<lambda>st. s\<lparr>co_reservations := fst st\<rparr>)
           (\<lambda>(rs2, allocated).
              let s2 = s\<lparr>co_reservations := rs2\<rparr>;
                  available = available_places places
              in if list_ex (\<lambda>n. n \<in> set allocated) available then (Inl (Builtin AssertionError), s2)
                 else
                   case filter_tagsets (pending_reservations rs2) of
                     Inl e \<Rightarrow> (Inl (Builtin e), s2)
                   | Inr filters \<Rightarrow>
                       (case schedule (map (place_tagset places) (reorder order1 available)) filters of
                          Inl e \<Rightarrow> (Inl (Builtin e), s2)
                        | Inr allocation \<Rightarrow>
                            lift_stage (for_each (apply_allocation now) allocation rs2)
                              (\<lambda>rs3. s2\<lparr>co_reservations := rs3\<rparr>)
                              (\<lambda>rs3. update_places order2 (s2\<lparr>co_reservations := rs3\<rparr>)))))"



section \<open>Bookings\<close>

text \<open>Reservation \<open>t\<close> has place \<open>n\<close> allocated.\<close>

definition booked :: "(string, reservation) dict \<Rightarrow> string \<Rightarrow> string \<Rightarrow> bool" where
  "booked rs t n \<longleftrightarrow> (\<exists>r. map_of rs t = Some r \<and> rs_allocations r = [(''main'', [n])])"

text \<open>
  What the coordinator keeps of the reservations: an allocation is one place under \<open>main\<close>, exactly
  the allocated and the acquired reservations have one, and no two share a place.
\<close>

definition holds_place :: "reservation \<Rightarrow> bool" where
  "holds_place r \<longleftrightarrow> rs_state r \<in> {RAllocated, RAcquired}"

definition reservation_ok :: "string \<Rightarrow> reservation \<Rightarrow> bool" where
  "reservation_ok t r \<longleftrightarrow> rs_token r = t \<and> main_only (rs_allocations r) \<and>
     (rs_allocations r \<noteq> [] \<longleftrightarrow> holds_place r)"

definition exclusive_bookings :: "(string, reservation) dict \<Rightarrow> bool" where
  "exclusive_bookings rs \<longleftrightarrow> (\<forall>t t' n. booked rs t n \<longrightarrow> booked rs t' n \<longrightarrow> t = t')"

definition reservations_ok :: "(string, reservation) dict \<Rightarrow> bool" where
  "reservations_ok rs \<longleftrightarrow> dict_wf rs \<and> dict.every reservation_ok rs \<and> exclusive_bookings rs"

definition places_ok :: "(string, 'r place) dict \<Rightarrow> bool" where
  "places_ok ps \<longleftrightarrow> dict_wf ps \<and> dict.every (\<lambda>n p. pl_name p = n) ps"

text \<open>A place that some reservation has allocated carries its token.\<close>

definition copies_ok :: "(string, reservation) dict \<Rightarrow> (string, 'r place) dict \<Rightarrow> bool" where
  "copies_ok rs ps \<longleftrightarrow>
     (\<forall>t n p. booked rs t n \<longrightarrow> map_of ps n = Some p \<longrightarrow> pl_reservation p = Some t)"

text \<open>After scheduling the copies agree in both directions and no allocation dangles.\<close>

definition copies_synced :: "(string, reservation) dict \<Rightarrow> (string, 'r place) dict \<Rightarrow> bool" where
  "copies_synced rs ps \<longleftrightarrow>
     (\<forall>t n. booked rs t n \<longleftrightarrow> (\<exists>p. map_of ps n = Some p \<and> pl_reservation p = Some t))"

definition all_have_main :: "(string, reservation) dict \<Rightarrow> bool" where
  "all_have_main rs \<longleftrightarrow> dict.every (\<lambda>_ r. map_of (rs_filters r) ''main'' \<noteq> None) rs"

lemma copies_synced_ok: "copies_synced rs ps \<Longrightarrow> copies_ok rs ps"
  unfolding copies_synced_def copies_ok_def by fastforce

lemma reservations_okD:
  "reservations_ok rs \<Longrightarrow> map_of rs t = Some r \<Longrightarrow> reservation_ok t r"
  unfolding reservations_ok_def by (blast dest: dict.every_get)

lemma reservation_ok_allocations:
  "reservation_ok t r \<Longrightarrow> rs_allocations r = [] \<or> (\<exists>n. rs_allocations r = [(''main'', [n])])"
  by (auto simp: reservation_ok_def main_only_def)

text \<open>Stages that change every reservation on its own, by a function of the reservation.\<close>

definition pointwise ::
  "(reservation \<Rightarrow> reservation option) \<Rightarrow> (string, reservation) dict \<Rightarrow> (string, reservation) dict \<Rightarrow> bool"
where
  "pointwise f rs rs' \<longleftrightarrow> dict_wf rs' \<and> (\<forall>t. map_of rs' t = Option.bind (map_of rs t) f)"

text \<open>Such a stage may keep a reservation's allocation or drop it, but not invent one.\<close>

definition keeps_ok :: "(reservation \<Rightarrow> reservation option) \<Rightarrow> bool" where
  "keeps_ok f \<longleftrightarrow> (\<forall>t r r'. reservation_ok t r \<longrightarrow> f r = Some r' \<longrightarrow>
     reservation_ok t r' \<and> rs_filters r' = rs_filters r \<and>
     (rs_allocations r' = rs_allocations r \<or> rs_allocations r' = []))"

lemma keeps_okD:
  "keeps_ok f \<Longrightarrow> reservation_ok t r \<Longrightarrow> f r = Some r' \<Longrightarrow>
   reservation_ok t r' \<and> rs_filters r' = rs_filters r \<and>
   (rs_allocations r' = rs_allocations r \<or> rs_allocations r' = [])"
  unfolding keeps_ok_def by blast

lemma pointwise_booked:
  assumes "pointwise f rs rs'" and "keeps_ok f" and "reservations_ok rs" and "booked rs' t n"
  shows "booked rs t n"
proof -
  from assms(1,4) obtain r r' where r: "map_of rs t = Some r" "f r = Some r'"
    "rs_allocations r' = [(''main'', [n])]"
    unfolding booked_def pointwise_def by (auto simp: bind_eq_Some_conv)
  with keeps_okD [OF assms(2) reservations_okD [OF assms(3) r(1)] r(2)] show ?thesis
    by (auto simp: booked_def)
qed

lemma pointwise_ok:
  assumes "pointwise f rs rs'" and "keeps_ok f" and "reservations_ok rs"
  shows "reservations_ok rs'"
proof -
  have "dict_wf rs'" using assms(1) by (simp add: pointwise_def)
  moreover have "dict.every reservation_ok rs'"
    unfolding dict.every_def
  proof (intro allI impI)
    fix t r' assume "map_of rs' t = Some r'"
    with assms(1) obtain r where r: "map_of rs t = Some r" "f r = Some r'"
      unfolding pointwise_def by (auto simp: bind_eq_Some_conv)
    with keeps_okD [OF assms(2) reservations_okD [OF assms(3)]] show "reservation_ok t r'" by blast
  qed
  moreover have "exclusive_bookings rs'"
    unfolding exclusive_bookings_def
  proof (intro allI impI)
    fix t t' n assume "booked rs' t n" "booked rs' t' n"
    then have "booked rs t n" "booked rs t' n" using pointwise_booked [OF assms] by blast+
    with assms(3) show "t = t'" by (auto simp: reservations_ok_def exclusive_bookings_def)
  qed
  ultimately show ?thesis by (simp add: reservations_ok_def)
qed

lemma pointwise_main:
  assumes "pointwise f rs rs'" and "keeps_ok f" and "reservations_ok rs" and "all_have_main rs"
  shows "all_have_main rs'"
  unfolding all_have_main_def dict.every_def
proof (intro allI impI)
  fix t r' assume "map_of rs' t = Some r'"
  with assms(1) obtain r where r: "map_of rs t = Some r" "f r = Some r'"
    unfolding pointwise_def by (auto simp: bind_eq_Some_conv)
  with assms(4) have "map_of (rs_filters r) ''main'' \<noteq> None"
    unfolding all_have_main_def by (blast dest: dict.every_get)
  with keeps_okD [OF assms(2) reservations_okD [OF assms(3) r(1)] r(2)]
  show "map_of (rs_filters r') ''main'' \<noteq> None" by simp
qed


section \<open>Expiry\<close>

lemma expire_loop:
  "dict_wf rs \<Longrightarrow> distinct ks \<Longrightarrow>
   dict_wf (fold (expire_reservation now) ks rs) \<and>
   (\<forall>t. map_of (fold (expire_reservation now) ks rs) t =
      (if t \<in> set ks then Option.bind (map_of rs t) (expire_one now) else map_of rs t))"
proof (induction ks arbitrary: rs)
  case Nil
  then show ?case by simp
next
  case (Cons k ks)
  let ?rs = "expire_reservation now k rs"
  have wf: "dict_wf ?rs"
    using Cons.prems(1) by (auto simp: expire_reservation_def split: option.splits)
  have look: "map_of ?rs t = (if t = k then Option.bind (map_of rs k) (expire_one now) else map_of rs t)"
    for t
    by (auto simp: expire_reservation_def split: option.splits)
  from Cons.IH [OF wf] Cons.prems(2) show ?case by (auto simp: look)
qed

lemma expire_pointwise:
  assumes "dict_wf rs"
  shows "pointwise (expire_one now) rs (expire_reservations now rs)"
proof -
  have "map_of (expire_reservations now rs) t = Option.bind (map_of rs t) (expire_one now)" for t
  proof (cases "t \<in> set (keys rs)")
    case True
    with expire_loop [OF assms assms] show ?thesis by (simp add: expire_reservations_def)
  next
    case False
    then have "map_of rs t = None" by (simp add: map_of_eq_None_iff)
    with False expire_loop [OF assms assms] show ?thesis by (simp add: expire_reservations_def)
  qed
  with expire_loop [OF assms assms] show ?thesis
    by (simp add: pointwise_def expire_reservations_def)
qed

lemma expire_keeps_ok: "keeps_ok (expire_one now)"
  unfolding keeps_ok_def expire_one_def reservation_ok_def
  by (auto simp: Let_def rs_refresh_def main_only_def holds_place_def split: if_splits)



section \<open>The check of the allocated places\<close>

text \<open>What the loop does to a single reservation.\<close>

definition scan_one ::
  "(string, nat place) dict \<Rightarrow> real \<Rightarrow> reservation \<Rightarrow> reservation" where
  "scan_one places now r =
     (case rs_allocations r of
        [] \<Rightarrow> r
      | (_, ns) # _ \<Rightarrow>
          (case map_of places (hd ns) of
             None \<Rightarrow> rs_refresh now 300 (r\<lparr>rs_state := RInvalid, rs_allocations := []\<rparr>)
           | Some p \<Rightarrow> follow_acquired now (pl_acquired p \<noteq> None) r))"

definition present_allocation :: "(string, nat place) dict \<Rightarrow> reservation \<Rightarrow> string set" where
  "present_allocation places r =
     {n. rs_allocations r = [(''main'', [n])] \<and> n \<in> set (keys places)}"

lemma follow_acquired_fields [simp]:
  "rs_allocations (follow_acquired now b r) = rs_allocations r"
  "rs_filters (follow_acquired now b r) = rs_filters r"
  "rs_token (follow_acquired now b r) = rs_token r"
  by (simp_all add: follow_acquired_def rs_refresh_def Let_def)

lemma follow_acquired_state:
  "holds_place r \<Longrightarrow> rs_state (follow_acquired now b r) = (if b then RAcquired else RAllocated)"
  by (auto simp: follow_acquired_def rs_refresh_def holds_place_def Let_def)

lemma follow_acquired_holds: "holds_place r \<Longrightarrow> holds_place (follow_acquired now b r)"
  by (simp add: holds_place_def [of "follow_acquired now b r"] follow_acquired_state)

lemma scan_keeps_ok: "keeps_ok (\<lambda>r. Some (scan_one places now r))"
  unfolding keeps_ok_def
proof (intro allI impI)
  fix t r r' assume r: "reservation_ok t r" and "Some (scan_one places now r) = Some r'"
  then have r': "r' = scan_one places now r" by simp
  show "reservation_ok t r' \<and> rs_filters r' = rs_filters r \<and>
    (rs_allocations r' = rs_allocations r \<or> rs_allocations r' = [])"
  proof (cases "rs_allocations r")
    case Nil
    then show ?thesis using r r' by (simp add: scan_one_def)
  next
    case (Cons x xs)
    then have "holds_place r" using r by (simp add: reservation_ok_def)
    then show ?thesis
      using Cons r r' follow_acquired_holds
      by (cases "map_of places (hd (snd x))")
        (auto simp: scan_one_def reservation_ok_def rs_refresh_def holds_place_def main_only_def
          split: prod.splits)
  qed
qed

lemma scan_reservation_ok:
  assumes "map_of rs t = Some r" and "reservation_ok t r"
    and "present_allocation places r \<inter> set allocated = {}"
  shows "\<exists>allocated'. scan_reservation places now t (rs, allocated) =
      (Inr (), (AList.update t (scan_one places now r) rs, allocated')) \<and>
    set allocated' = set allocated \<union> present_allocation places r"
proof (cases "rs_allocations r")
  case Nil
  with assms(2) have "rs_state r \<noteq> RAcquired" by (auto simp: reservation_ok_def holds_place_def)
  with Nil assms(1) show ?thesis
    by (simp add: scan_reservation_def scan_one_def follow_acquired_def present_allocation_def Let_def)
next
  case (Cons x xs)
  with reservation_ok_allocations [OF assms(2)] obtain n where
    n: "rs_allocations r = [(''main'', [n])]" by auto
  show ?thesis
  proof (cases "map_of places n")
    case None
    then have "present_allocation places r = {}"
      using n by (simp add: present_allocation_def map_of_eq_None_iff)
    with n None assms(1) show ?thesis
      by (simp add: scan_reservation_def scan_one_def follow_acquired_def rs_refresh_def Let_def)
  next
    case (Some p)
    then have "n \<in> set (keys places)" by (metis map_of_eq_None_iff option.distinct(1) set_map)
    then have "present_allocation places r = {n}" using n by (auto simp: present_allocation_def)
    with n Some assms(1,3) show ?thesis
      by (simp add: scan_reservation_def scan_one_def Let_def insert_Nil)
  qed
qed

text \<open>\<open>claimed\<close> are the places that the reservations of a list of tokens have.\<close>

definition claimed :: "(string, nat place) dict \<Rightarrow> (string, reservation) dict \<Rightarrow> string list \<Rightarrow> string set"
where
  "claimed places rs ts = {n. n \<in> set (keys places) \<and> (\<exists>t \<in> set ts. booked rs t n)}"

lemma booked_allocation: "map_of rs t = Some r \<Longrightarrow>
   present_allocation places r = {n. n \<in> set (keys places) \<and> booked rs t n}"
  by (auto simp: present_allocation_def booked_def)

lemma claimed_Cons: "map_of rs t = Some r \<Longrightarrow>
   claimed places rs (t # ts) = present_allocation places r \<union> claimed places rs ts"
  by (auto simp: claimed_def booked_allocation)

lemma booked_update_other: "t' \<noteq> t \<Longrightarrow> booked (AList.update t r rs) t' n = booked rs t' n"
  by (simp add: booked_def)

lemma claimed_update_other: "t \<notin> set ts \<Longrightarrow> claimed places (AList.update t r rs) ts = claimed places rs ts"
  unfolding claimed_def by (metis (no_types, lifting) booked_update_other)

lemma scan_loop:
  assumes "dict_wf rs" and "distinct ts" and "\<forall>t \<in> set ts. \<exists>r. map_of rs t = Some r \<and> reservation_ok t r"
    and "exclusive_bookings rs" and "claimed places rs ts \<inter> set allocated = {}"
  shows "\<exists>rs' allocated'. for_each (scan_reservation places now) ts (rs, allocated) =
      (Inr (), (rs', allocated')) \<and> dict_wf rs' \<and>
    (\<forall>t. map_of rs' t =
      (if t \<in> set ts then map_option (scan_one places now) (map_of rs t) else map_of rs t)) \<and>
    set allocated' = set allocated \<union> claimed places rs ts"
  using assms
proof (induction ts arbitrary: rs allocated)
  case Nil
  then show ?case by (simp add: claimed_def)
next
  case (Cons t ts)
  from Cons.prems(3) obtain r where r: "map_of rs t = Some r" "reservation_ok t r" by auto
  have fresh: "t \<notin> set ts" and d: "distinct ts" using Cons.prems(2) by simp_all
  have "present_allocation places r \<inter> set allocated = {}"
    using Cons.prems(5) claimed_Cons [OF r(1)] by blast
  from scan_reservation_ok [OF r this, of now] obtain allocated1 where
    step: "scan_reservation places now t (rs, allocated) =
      (Inr (), (AList.update t (scan_one places now r) rs, allocated1))"
    and alloc1: "set allocated1 = set allocated \<union> present_allocation places r" by (elim exE conjE)
  let ?rs1 = "AList.update t (scan_one places now r) rs"
  have later: "booked ?rs1 t' n \<Longrightarrow> booked rs t' n" for t' n
  proof -
    assume b: "booked ?rs1 t' n"
    show "booked rs t' n"
    proof (cases "t' = t")
      case True
      with b keeps_okD [OF scan_keeps_ok r(2) refl, of places now] r(1) show ?thesis
          by (auto simp: booked_def)
    qed (use b in \<open>simp add: booked_update_other\<close>)
  qed
  have ex1: "exclusive_bookings ?rs1"
    using Cons.prems(4) later unfolding exclusive_bookings_def by blast
  have ok1: "\<forall>t' \<in> set ts. \<exists>r. map_of ?rs1 t' = Some r \<and> reservation_ok t' r"
    using Cons.prems(3) fresh by auto
  have same: "claimed places ?rs1 ts = claimed places rs ts"
    by (rule claimed_update_other [OF fresh])
  have "present_allocation places r \<inter> claimed places rs ts = {}"
    using Cons.prems(4) fresh booked_allocation [OF r(1)]
    by (auto simp: claimed_def exclusive_bookings_def)
  then have disj1: "claimed places ?rs1 ts \<inter> set allocated1 = {}"
    using Cons.prems(5) claimed_Cons [OF r(1)] alloc1 same by blast
  from Cons.IH [OF dict_wf_update [OF Cons.prems(1)] d ok1 ex1 disj1] obtain rs' allocated' where
    rest: "for_each (scan_reservation places now) ts (?rs1, allocated1) = (Inr (), (rs', allocated'))"
    and wf': "dict_wf rs'"
    and look: "\<forall>t. map_of rs' t =
      (if t \<in> set ts then map_option (scan_one places now) (map_of ?rs1 t) else map_of ?rs1 t)"
    and alloc': "set allocated' = set allocated1 \<union> claimed places ?rs1 ts" by (elim exE conjE)
  have "for_each (scan_reservation places now) (t # ts) (rs, allocated) = (Inr (), (rs', allocated'))"
    by (simp add: step rest)
  moreover have "map_of rs' t' =
      (if t' \<in> set (t # ts) then map_option (scan_one places now) (map_of rs t') else map_of rs t')"
    for t'
    using look r(1) fresh by (cases "t' = t") simp_all
  moreover have "set allocated' = set allocated \<union> claimed places rs (t # ts)"
    using alloc' alloc1 same claimed_Cons [OF r(1)] by blast
  ultimately show ?case using wf' by blast
qed


lemma in_keys_iff: "n \<in> set (keys d) \<longleftrightarrow> (\<exists>v. map_of d n = Some v)"
  by (metis map_of_eq_None not_None_eq)

lemma booked_has_token: "booked rs t n \<Longrightarrow> t \<in> set (keys rs)"
  by (auto simp: booked_def in_keys_iff simp del: set_map)

lemma scan_all:
  assumes "reservations_ok rs"
  shows "\<exists>rs2 allocated. for_each (scan_reservation places now) (keys rs) (rs, []) =
      (Inr (), (rs2, allocated)) \<and>
    pointwise (\<lambda>r. Some (scan_one places now r)) rs rs2 \<and>
    set allocated = {n \<in> set (keys places). \<exists>t. booked rs t n}"
proof -
  have wf: "dict_wf rs" and ex: "exclusive_bookings rs" using assms by (simp_all add: reservations_ok_def)
  have all: "\<forall>t \<in> set (keys rs). \<exists>r. map_of rs t = Some r \<and> reservation_ok t r"
    using reservations_okD [OF assms] by (auto simp: in_keys_iff simp del: set_map)
  have "claimed places rs (keys rs) \<inter> set [] = {}" by simp
  from scan_loop [OF wf wf all ex this, of now] obtain rs2 allocated where
    run: "for_each (scan_reservation places now) (keys rs) (rs, []) = (Inr (), (rs2, allocated))"
    and wf2: "dict_wf rs2"
    and look: "\<forall>t. map_of rs2 t =
      (if t \<in> set (keys rs) then map_option (scan_one places now) (map_of rs t) else map_of rs t)"
    and alloc: "set allocated = set [] \<union> claimed places rs (keys rs)" by (elim exE conjE)
  have "map_of rs2 t = Option.bind (map_of rs t) (\<lambda>r. Some (scan_one places now r))" for t
    using look by (cases "map_of rs t") (auto simp: in_keys_iff simp del: set_map)
  then have "pointwise (\<lambda>r. Some (scan_one places now r)) rs rs2" using wf2 by (simp add: pointwise_def)
  moreover have "set allocated = {n \<in> set (keys places). \<exists>t. booked rs t n}"
    using alloc booked_has_token [of rs] unfolding claimed_def empty_set [symmetric] by blast
  ultimately show ?thesis using run by (intro exI conjI)
qed

lemma scan_booked:
  assumes "pointwise (\<lambda>r. Some (scan_one places now r)) rs rs2" and "reservations_ok rs"
  shows "booked rs2 t n \<longleftrightarrow> booked rs t n \<and> n \<in> set (keys places)"
proof
  assume b: "booked rs2 t n"
  then have old: "booked rs t n" by (rule pointwise_booked [OF assms(1) scan_keeps_ok assms(2)])
  then obtain r where r: "map_of rs t = Some r" "rs_allocations r = [(''main'', [n])]"
    by (auto simp: booked_def)
  with b assms(1) have "rs_allocations (scan_one places now r) = [(''main'', [n])]"
    by (auto simp: booked_def pointwise_def)
  with r(2) have "map_of places n \<noteq> None"
    by (cases "map_of places n") (simp_all add: scan_one_def rs_refresh_def)
  with old show "booked rs t n \<and> n \<in> set (keys places)" by (simp add: map_of_eq_None)
next
  assume b: "booked rs t n \<and> n \<in> set (keys places)"
  then obtain p where "map_of places n = Some p" by (auto simp: in_keys_iff simp del: set_map)
  with b assms(1) show "booked rs2 t n" by (auto simp: booked_def pointwise_def scan_one_def)
qed

lemma available_places_iff:
  assumes "dict_wf places"
  shows "n \<in> set (available_places places) \<longleftrightarrow>
    (\<exists>p. map_of places n = Some p \<and> pl_acquired p = None \<and> pl_reservation p = None)"
  using assms by (force simp: available_places_def)

lemma distinct_available: "dict_wf places \<Longrightarrow> distinct (available_places places)"
  by (simp add: available_places_def distinct_map_filter)


section \<open>The call of the scheduler\<close>

definition reservation_tagset :: "reservation \<Rightarrow> tagset" where
  "reservation_tagset r =
     \<lparr>ts_name = rs_token r, ts_tags = set (the (map_of (rs_filters r) ''main''))\<rparr>"

lemma filter_tagsets_main:
  "\<forall>r \<in> set rs. map_of (rs_filters r) ''main'' \<noteq> None \<Longrightarrow>
   filter_tagsets rs = Inr (map reservation_tagset rs)"
  by (induction rs) (auto simp: reservation_tagset_def)

lemma tokens_are_keys: "reservations_ok rs \<Longrightarrow> map rs_token (map snd rs) = keys rs"
proof -
  assume ok: "reservations_ok rs"
  have "rs_token (snd x) = fst x" if "x \<in> set rs" for x
  proof -
    have "map_of rs (fst x) = Some (snd x)"
      using that ok dict_in_iff [of rs "fst x" "snd x"] by (simp add: reservations_ok_def)
    from reservations_okD [OF ok this] show ?thesis by (simp add: reservation_ok_def)
  qed
  then show ?thesis by simp
qed

lemma pending_distinct:
  assumes "reservations_ok rs"
  shows "distinct (map rs_token (pending_reservations rs))"
proof -
  have "distinct (map rs_token (map snd rs))"
    using assms tokens_are_keys [OF assms] by (simp add: reservations_ok_def del: map_map)
  then have d: "distinct (map snd rs)" "inj_on rs_token (set (map snd rs))"
    unfolding distinct_map [of rs_token] by blast+
  then have "distinct (pending_reservations rs)" by (simp add: pending_reservations_def)
  moreover have "set (pending_reservations rs) \<subseteq> set (map snd rs)"
    by (auto simp: pending_reservations_def)
  ultimately show ?thesis using d(2) by (auto simp: distinct_map intro: inj_on_subset)
qed

lemma pending_iff:
  assumes "reservations_ok rs"
  shows "r \<in> set (pending_reservations rs) \<longleftrightarrow>
    rs_state r = RWaiting \<and> map_of rs (rs_token r) = Some r"
proof -
  have wf: "dict_wf rs" using assms by (simp add: reservations_ok_def)
  have "(\<exists>t. map_of rs t = Some r) \<longleftrightarrow> map_of rs (rs_token r) = Some r"
    using reservations_okD [OF assms] by (auto simp: reservation_ok_def)
  then show ?thesis
    using dict_in_iff [OF wf] by (auto simp: pending_reservations_def image_iff Bex_def)
qed

lemma pending_have_main:
  "all_have_main rs \<Longrightarrow> reservations_ok rs \<Longrightarrow> r \<in> set (pending_reservations rs) \<Longrightarrow>
   map_of (rs_filters r) ''main'' \<noteq> None"
  unfolding pending_iff all_have_main_def by (blast dest: dict.every_get)

text \<open>A correct answer of the scheduler for the waiting reservations and the free places.\<close>

definition good_allocation ::
  "(string, nat place) dict \<Rightarrow> (string, reservation) dict \<Rightarrow> (string, string) dict \<Rightarrow> bool" where
  "good_allocation places rs a \<longleftrightarrow>
     dict_wf a \<and> distinct (map snd a) \<and>
     (\<forall>(t, n) \<in> set a. n \<in> set (available_places places) \<and>
        (\<exists>r. map_of rs t = Some r \<and> rs_state r = RWaiting \<and>
           fits (reservation_tagset r) (place_tagset places n))) \<and>
     (\<forall>r n. map_of rs (rs_token r) = Some r \<longrightarrow> rs_state r = RWaiting \<longrightarrow>
        n \<in> set (available_places places) \<longrightarrow>
        fits (reservation_tagset r) (place_tagset places n) \<longrightarrow>
        map_of a (rs_token r) \<noteq> None \<or> n \<in> snd ` set a)"

lemma place_tagset_names: "map ts_name (map (place_tagset places) ns) = ns"
  by (induction ns) (simp_all add: place_tagset_def)

lemma reservation_tagset_names: "map ts_name (map reservation_tagset rs) = map rs_token rs"
  by (induction rs) (simp_all add: reservation_tagset_def)

lemma schedule_good:
  assumes "set_order order" and "dict_wf places" and "reservations_ok rs"
    and "schedule (map (place_tagset places) (reorder order (available_places places)))
      (map reservation_tagset (pending_reservations rs)) = Inr a"
  shows "good_allocation places rs a"
proof -
  let ?ps = "map (place_tagset places) (reorder order (available_places places))"
    and ?fs = "map reservation_tagset (pending_reservations rs)"
  have dp: "distinct (map ts_name ?ps)"
    unfolding place_tagset_names by (rule distinct_reorder [OF assms(1) distinct_available [OF assms(2)]])
  have df: "distinct (map ts_name ?fs)"
    unfolding reservation_tagset_names by (rule pending_distinct [OF assms(3)])
  have "n \<in> set (available_places places) \<and>
      (\<exists>r. map_of rs t = Some r \<and> rs_state r = RWaiting \<and>
         fits (reservation_tagset r) (place_tagset places n))" if "(t, n) \<in> set a" for t n
  proof -
    from scheduler.alloc_fits [OF dp df assms(4) that] obtain r m where
      "r \<in> set (pending_reservations rs)" "m \<in> set (available_places places)"
      "rs_token r = t" "m = n" "fits (reservation_tagset r) (place_tagset places m)"
      using assms(1) by (auto simp: place_tagset_def reservation_tagset_def)
    with pending_iff [OF assms(3)] show ?thesis by auto
  qed
  moreover have "map_of a (rs_token r) \<noteq> None \<or> n \<in> snd ` set a"
    if "map_of rs (rs_token r) = Some r" "rs_state r = RWaiting" "n \<in> set (available_places places)"
      "fits (reservation_tagset r) (place_tagset places n)" for r n
  proof -
    have "reservation_tagset r \<in> set ?fs" "place_tagset places n \<in> set ?ps"
      using that pending_iff [OF assms(3)] assms(1) by simp_all
    from scheduler.alloc_maximal [OF dp df assms(4) this that(4)] show ?thesis
      by (simp add: reservation_tagset_def place_tagset_def map_of_eq_None_iff)
  qed
  ultimately show ?thesis
    using scheduler.alloc_keys [OF dp df assms(4)] scheduler.alloc_values [OF dp df assms(4)]
    unfolding good_allocation_def by blast
qed

lemma schedule_runs:
  assumes "set_order order" and "dict_wf places" and "reservations_ok rs"
  shows "\<exists>a. schedule (map (place_tagset places) (reorder order (available_places places)))
      (map reservation_tagset (pending_reservations rs)) = Inr a"
proof (rule scheduler.alloc_returns)
  show "distinct (map ts_name (map (place_tagset places) (reorder order (available_places places))))"
    unfolding place_tagset_names by (rule distinct_reorder [OF assms(1) distinct_available [OF assms(2)]])
  show "distinct (map ts_name (map reservation_tagset (pending_reservations rs)))"
    unfolding reservation_tagset_names by (rule pending_distinct [OF assms(3)])
qed



section \<open>Applying the allocation\<close>

definition allocate_one :: "real \<Rightarrow> string \<Rightarrow> reservation \<Rightarrow> reservation" where
  "allocate_one now n r =
     rs_refresh now 60 (r\<lparr>rs_allocations := [(''main'', [n])], rs_state := RAllocated\<rparr>)"

lemma allocate_one_fields [simp]:
  "rs_allocations (allocate_one now n r) = [(''main'', [n])]"
  "rs_filters (allocate_one now n r) = rs_filters r"
  "rs_token (allocate_one now n r) = rs_token r"
  "rs_state (allocate_one now n r) = RAllocated"
  by (simp_all add: allocate_one_def rs_refresh_def)

lemma apply_loop:
  assumes "dict_wf rs" and "dict_wf a" and "fst ` set a \<subseteq> fst ` set rs"
  shows "\<exists>rs'. for_each (apply_allocation now) a rs = (Inr (), rs') \<and> dict_wf rs' \<and>
    (\<forall>t. map_of rs' t = (case map_of a t of None \<Rightarrow> map_of rs t
       | Some n \<Rightarrow> map_option (allocate_one now n) (map_of rs t)))"
  using assms
proof (induction a arbitrary: rs)
  case Nil
  then show ?case by simp
next
  case (Cons x a)
  obtain t n where x: "x = (t, n)" by (cases x)
  have "t \<in> set (keys rs)" using Cons.prems(3) x by simp
  then obtain r where r: "map_of rs t = Some r" unfolding in_keys_iff by blast
  let ?rs = "AList.update t (allocate_one now n r) rs"
  have wf: "dict_wf ?rs" and wfa: "dict_wf a" using Cons.prems(1,2) by simp_all
  have "fst ` set a \<subseteq> fst ` set ?rs" using Cons.prems(3) by auto
  from Cons.IH [OF wf wfa this] obtain rs' where
    run: "for_each (apply_allocation now) a ?rs = (Inr (), rs')" and wf': "dict_wf rs'"
    and look: "\<forall>t. map_of rs' t = (case map_of a t of None \<Rightarrow> map_of ?rs t
       | Some n \<Rightarrow> map_option (allocate_one now n) (map_of ?rs t))" by (elim exE conjE)
  have "map_of a t = None" using Cons.prems(2) x by (simp add: map_of_eq_None_iff)
  then have "\<forall>t'. map_of rs' t' = (case map_of (x # a) t' of None \<Rightarrow> map_of rs t'
       | Some n \<Rightarrow> map_option (allocate_one now n) (map_of rs t'))"
    using look r x by (simp split: option.split)
  moreover have "for_each (apply_allocation now) (x # a) rs = (Inr (), rs')"
    using run r by (simp add: x apply_allocation_def allocate_one_def)
  ultimately show ?case using wf' by (intro exI conjI)
qed

text \<open>The reservations after the allocation \<open>a\<close> is applied.\<close>

definition applied ::
  "real \<Rightarrow> (string, string) dict \<Rightarrow> (string, reservation) dict \<Rightarrow> (string, reservation) dict \<Rightarrow> bool"
where
  "applied now a rs rs' \<longleftrightarrow> dict_wf rs' \<and>
     (\<forall>t. map_of rs' t = (case map_of a t of None \<Rightarrow> map_of rs t
        | Some n \<Rightarrow> map_option (allocate_one now n) (map_of rs t)))"

lemma applied_booked:
  assumes "applied now a rs rs'" and "good_allocation places rs a" and "reservations_ok rs"
  shows "booked rs' t n \<longleftrightarrow> booked rs t n \<or> map_of a t = Some n"
proof (cases "map_of a t")
  case None
  with assms(1) show ?thesis by (simp add: applied_def booked_def)
next
  case (Some m)
  then have "(t, m) \<in> set a" by (rule map_of_SomeD)
  with assms(2) obtain r where r: "map_of rs t = Some r" "rs_state r = RWaiting"
    by (auto simp: good_allocation_def)
  with reservations_okD [OF assms(3) r(1)] have "rs_allocations r = []"
    by (simp add: reservation_ok_def holds_place_def)
  with Some r assms(1) show ?thesis by (auto simp: applied_def booked_def)
qed

lemma applied_ok:
  assumes "applied now a rs rs'" and "good_allocation places rs a" and "reservations_ok rs"
    and "\<And>t n. booked rs t n \<Longrightarrow> n \<notin> set (available_places places)"
  shows "reservations_ok rs'"
proof -
  have "dict.every reservation_ok rs'"
    unfolding dict.every_def
  proof (intro allI impI)
    fix t r' assume r': "map_of rs' t = Some r'"
    show "reservation_ok t r'"
    proof (cases "map_of a t")
      case None
      with r' assms(1) reservations_okD [OF assms(3)] show ?thesis by (simp add: applied_def)
    next
      case (Some n)
      with r' assms(1) obtain r where r: "map_of rs t = Some r" "r' = allocate_one now n r"
        by (auto simp: applied_def)
      with reservations_okD [OF assms(3) r(1)] show ?thesis
        by (auto simp: reservation_ok_def main_only_def holds_place_def)
    qed
  qed
  moreover have "exclusive_bookings rs'"
    unfolding exclusive_bookings_def
  proof (intro allI impI)
    fix t t' n assume "booked rs' t n" "booked rs' t' n"
    then have b: "booked rs t n \<or> map_of a t = Some n" "booked rs t' n \<or> map_of a t' = Some n"
      using applied_booked [OF assms(1-3)] by blast+
    have free: "n \<in> set (available_places places)" if "map_of a u = Some n" for u
      using map_of_SomeD [OF that] assms(2) by (auto simp: good_allocation_def)
    have "inj_on snd (set a)" using assms(2) by (simp add: good_allocation_def distinct_map)
    then have inj: "t = t'" if "map_of a t = Some n" "map_of a t' = Some n"
      using inj_onD [of snd "set a" "(t, n)" "(t', n)"] that [THEN map_of_SomeD] by simp
    have old: "t = t'" if "booked rs t n" "booked rs t' n"
      using that assms(3) by (simp add: reservations_ok_def exclusive_bookings_def)
    show "t = t'"
    proof (cases "n \<in> set (available_places places)")
      case True
      with b assms(4) inj show ?thesis by blast
    next
      case False
      with b free old show ?thesis by blast
    qed
  qed
  ultimately show ?thesis using assms(1) by (simp add: reservations_ok_def applied_def)
qed


section \<open>Copying the allocations to the places\<close>

lemma copy_allocation_ok:
  assumes "rs_allocations r = [(''main'', [n])]" and "map_of nm n = None" and "map_of ps n = Some p"
  shows "copy_allocation r (nm, ps) =
    (Inr (), (AList.update n (rs_token r) nm,
              AList.update n (p\<lparr>pl_reservation := Some (rs_token r)\<rparr>) ps))"
  using assms by (simp add: copy_allocation_def copy_place_def)

text \<open>The token of the reservation in the list that has place \<open>n\<close>.\<close>

definition holder :: "reservation list \<Rightarrow> string \<Rightarrow> string option" where
  "holder rs n = map_option rs_token (find (\<lambda>r. rs_allocations r = [(''main'', [n])]) rs)"

lemma holder_Cons:
  "holder (r # rs) n = (if rs_allocations r = [(''main'', [n])] then Some (rs_token r) else holder rs n)"
  by (simp add: holder_def)

lemma holder_None_iff: "holder rs n = None \<longleftrightarrow> (\<forall>r \<in> set rs. rs_allocations r \<noteq> [(''main'', [n])])"
  by (auto simp: holder_def find_None_iff)

fun disjoint_allocations :: "reservation list \<Rightarrow> bool" where
  "disjoint_allocations [] = True"
| "disjoint_allocations (r # rs) =
     ((\<forall>n. rs_allocations r = [(''main'', [n])] \<longrightarrow> holder rs n = None) \<and> disjoint_allocations rs)"

lemma copy_loop:
  assumes "\<forall>r \<in> set rs. main_only (rs_allocations r)" and "disjoint_allocations rs"
    and "\<forall>n. holder rs n \<noteq> None \<longrightarrow> map_of nm n = None \<and> n \<in> set (keys ps)" and "dict_wf ps"
  shows "\<exists>nm' ps'. for_each copy_allocation rs (nm, ps) = (Inr (), (nm', ps')) \<and>
    (\<forall>n. map_of nm' n = (case holder rs n of None \<Rightarrow> map_of nm n | Some t \<Rightarrow> Some t)) \<and>
    (\<forall>n. map_of ps' n = map_option (\<lambda>p. case holder rs n of None \<Rightarrow> p
       | Some t \<Rightarrow> p\<lparr>pl_reservation := Some t\<rparr>) (map_of ps n)) \<and>
    keys ps' = keys ps"
  using assms
proof (induction rs arbitrary: nm ps)
  case Nil
  then show ?case by (simp add: holder_def option.map_ident)
next
  case (Cons r rs)
  show ?case
  proof (cases "rs_allocations r = []")
    case True
    then have "copy_allocation r (nm, ps) = (Inr (), (nm, ps))" by (simp add: copy_allocation_def)
    moreover have "holder (r # rs) = holder rs" using True by (intro ext) (simp add: holder_Cons)
    ultimately show ?thesis using Cons.IH [of nm ps] Cons.prems by simp
  next
    case False
    with Cons.prems(1) obtain n where n: "rs_allocations r = [(''main'', [n])]"
      by (auto simp: main_only_def)
    then have hn: "holder (r # rs) n = Some (rs_token r)" "holder rs n = None"
      using Cons.prems(2) by (simp_all add: holder_Cons)
    have hm: "holder (r # rs) m = holder rs m" if "m \<noteq> n" for m using n that by (simp add: holder_Cons)
    have nk: "map_of nm n = None" "n \<in> set (keys ps)" using Cons.prems(3) hn(1) by simp_all
    then obtain p where p: "map_of ps n = Some p" unfolding in_keys_iff by blast
    let ?nm = "AList.update n (rs_token r) nm"
      and ?ps = "AList.update n (p\<lparr>pl_reservation := Some (rs_token r)\<rparr>) ps"
    have keys: "keys ?ps = keys ps" using nk(2) by (intro update_present_keys) simp
    have side: "\<forall>m. holder rs m \<noteq> None \<longrightarrow> map_of ?nm m = None \<and> m \<in> set (keys ?ps)"
    proof (intro allI impI)
      fix m assume m: "holder rs m \<noteq> None"
      then have "m \<noteq> n" using hn(2) by auto
      with m Cons.prems(3) hm [of m] show "map_of ?nm m = None \<and> m \<in> set (keys ?ps)"
        unfolding keys by simp
    qed
    have "\<forall>r \<in> set rs. main_only (rs_allocations r)" "disjoint_allocations rs"
      using Cons.prems(1,2) by simp_all
    from Cons.IH [OF this side dict_wf_update [OF Cons.prems(4)]] obtain nm' ps' where
      run: "for_each copy_allocation rs (?nm, ?ps) = (Inr (), (nm', ps'))"
      and lnm: "\<forall>m. map_of nm' m = (case holder rs m of None \<Rightarrow> map_of ?nm m | Some t \<Rightarrow> Some t)"
      and lps: "\<forall>m. map_of ps' m = map_option (\<lambda>p. case holder rs m of None \<Rightarrow> p
         | Some t \<Rightarrow> p\<lparr>pl_reservation := Some t\<rparr>) (map_of ?ps m)"
      and kps: "keys ps' = keys ?ps" by (elim exE conjE)
    have "for_each copy_allocation (r # rs) (nm, ps) = (Inr (), (nm', ps'))"
      using run by (simp add: copy_allocation_ok [OF n nk(1) p])
    moreover have "map_of nm' m = (case holder (r # rs) m of None \<Rightarrow> map_of nm m | Some t \<Rightarrow> Some t)" for m
      using lnm hn hm [of m] by (cases "m = n") (simp_all split: option.split)
    moreover have "map_of ps' m = map_option (\<lambda>p. case holder (r # rs) m of None \<Rightarrow> p
         | Some t \<Rightarrow> p\<lparr>pl_reservation := Some t\<rparr>) (map_of ps m)" for m
      using lps hn hm [of m] p by (cases "m = n") (simp_all split: option.split)
    moreover have "keys ps' = keys ps" using kps keys by (rule trans)
    ultimately show ?thesis by (intro exI conjI allI)
  qed
qed


lemma holder_SomeD:
  "holder rs n = Some t \<Longrightarrow> \<exists>r \<in> set rs. rs_allocations r = [(''main'', [n])] \<and> rs_token r = t"
  unfolding holder_def by (auto dest: find_SomeD)

lemma holder_booked:
  assumes "reservations_ok rs"
  shows "holder (map snd rs) n = Some t \<longleftrightarrow> booked rs t n"
proof -
  have wf: "dict_wf rs" using assms by (simp add: reservations_ok_def)
  have tok: "rs_token r = t" if "(t, r) \<in> set rs" for t r
    using that reservations_okD [OF assms] dict_in_iff [OF wf] by (auto simp: reservation_ok_def)
  show ?thesis
  proof
    assume "holder (map snd rs) n = Some t"
    then obtain r where r: "r \<in> set (map snd rs)" "rs_allocations r = [(''main'', [n])]" "rs_token r = t"
      using holder_SomeD by blast
    then obtain u where "(u, r) \<in> set rs" by auto
    with tok r dict_in_iff [OF wf] show "booked rs t n" by (auto simp: booked_def)
  next
    assume b: "booked rs t n"
    then obtain r where r: "map_of rs t = Some r" "rs_allocations r = [(''main'', [n])]"
      by (auto simp: booked_def)
    have "r \<in> set (map snd rs)" using map_of_SomeD [OF r(1)] by force
    with r(2) have "holder (map snd rs) n \<noteq> None" unfolding holder_None_iff by blast
    then obtain r' where r': "r' \<in> set (map snd rs)" "rs_allocations r' = [(''main'', [n])]"
      "holder (map snd rs) n = Some (rs_token r')"
      using holder_SomeD by blast
    then obtain u where "(u, r') \<in> set rs" by auto
    with tok r' dict_in_iff [OF wf] have "booked rs (rs_token r') n" by (auto simp: booked_def)
    with b assms have "rs_token r' = t" unfolding reservations_ok_def exclusive_bookings_def by blast
    with r'(3) show "holder (map snd rs) n = Some t" by simp
  qed
qed

lemma disjoint_allocations_distinct:
  assumes "distinct (map rs_token rs)"
    and "\<And>r r' n. r \<in> set rs \<Longrightarrow> r' \<in> set rs \<Longrightarrow> rs_allocations r = [(''main'', [n])] \<Longrightarrow>
      rs_allocations r' = [(''main'', [n])] \<Longrightarrow> rs_token r = rs_token r'"
  shows "disjoint_allocations rs"
  using assms
proof (induction rs)
  case Nil
  then show ?case by simp
next
  case (Cons r rs)
  have "holder rs n = None" if "rs_allocations r = [(''main'', [n])]" for n
    unfolding holder_None_iff
  proof (intro ballI notI)
    fix r' assume "r' \<in> set rs" "rs_allocations r' = [(''main'', [n])]"
    with that Cons.prems(2) [of r r' n] have "rs_token r = rs_token r'" by simp
    with Cons.prems(1) \<open>r' \<in> set rs\<close> show False by auto
  qed
  moreover have "disjoint_allocations rs"
  proof (rule Cons.IH)
    show "distinct (map rs_token rs)" using Cons.prems(1) by simp
    show "rs_token r1 = rs_token r2" if "r1 \<in> set rs" "r2 \<in> set rs"
      "rs_allocations r1 = [(''main'', [n])]" "rs_allocations r2 = [(''main'', [n])]" for r1 r2 n
      using that Cons.prems(2) [of r1 r2 n] by simp
  qed
  ultimately show ?case by simp
qed

lemma reservations_disjoint:
  assumes "reservations_ok rs"
  shows "disjoint_allocations (map snd rs)" and "\<forall>r \<in> set (map snd rs). main_only (rs_allocations r)"
proof -
  have wf: "dict_wf rs" and ex: "exclusive_bookings rs" using assms by (simp_all add: reservations_ok_def)
  have ok: "map_of rs (rs_token r) = Some r \<and> main_only (rs_allocations r)" if "r \<in> set (map snd rs)" for r
  proof -
    from that obtain u where "map_of rs u = Some r" using dict_in_iff [OF wf] by auto
    with reservations_okD [OF assms] show ?thesis by (auto simp: reservation_ok_def)
  qed
  then show "\<forall>r \<in> set (map snd rs). main_only (rs_allocations r)" by blast
  have "distinct (map rs_token (map snd rs))"
    unfolding tokens_are_keys [OF assms] by (rule wf)
  moreover have "rs_token r = rs_token r'"
    if "r \<in> set (map snd rs)" "r' \<in> set (map snd rs)" "rs_allocations r = [(''main'', [n])]"
      "rs_allocations r' = [(''main'', [n])]" for r r' n
    using that ok ex unfolding exclusive_bookings_def booked_def by blast
  ultimately show "disjoint_allocations (map snd rs)" by (rule disjoint_allocations_distinct)
qed


section \<open>The whole of it\<close>

definition same_but_clients :: "coord \<Rightarrow> coord \<Rightarrow> bool" where
  "same_but_clients s t \<longleftrightarrow> (\<exists>cl. t = s\<lparr>co_clients := cl\<rparr>)"

lemma same_but_clients_publish [intro]:
  "same_but_clients s t \<Longrightarrow> same_but_clients s (publish_place p t)"
  by (auto simp: same_but_clients_def publish_place_def broadcast_def)

lemma publish_loop:
  assumes "set names \<subseteq> set (keys (co_places s))"
  shows "fst (for_each (publish_changed old_map new_map) names s) = Inr () \<and>
    same_but_clients s (snd (for_each (publish_changed old_map new_map) names s))"
proof (rule for_each_returns)
  show "same_but_clients s s" by (auto simp: same_but_clients_def intro: exI [of _ "co_clients s"])
  fix name t assume "name \<in> set names" and t: "same_but_clients s t"
  then have "co_places t = co_places s" "name \<in> set (keys (co_places s))"
    using assms by (auto simp: same_but_clients_def)
  then obtain p where "map_of (co_places t) name = Some p" by (metis in_keys_iff)
  with t show "fst (publish_changed old_map new_map name t) = Inr () \<and>
      same_but_clients s (snd (publish_changed old_map new_map name t))"
    by (simp add: publish_changed_def same_but_clients_publish)
qed

definition set_copies ::
  "(string, reservation) dict \<Rightarrow> string \<Rightarrow> nat place \<Rightarrow> nat place" where
  "set_copies rs n p = p\<lparr>pl_reservation := holder (map snd rs) n\<rparr>"

lemma update_places_ok:
  assumes "reservations_ok (co_reservations s)" and "places_ok (co_places s)"
    and "set_order order"
    and "\<And>t n. booked (co_reservations s) t n \<Longrightarrow> n \<in> set (keys (co_places s))"
  shows "\<exists>t. update_places order s = (Inr (), t) \<and> co_reservations t = co_reservations s \<and>
    (\<forall>n. map_of (co_places t) n = map_option (set_copies (co_reservations s) n) (map_of (co_places s) n)) \<and>
    keys (co_places t) = keys (co_places s)"
proof -
  let ?rs = "map snd (co_reservations s)" and ?ps = "co_places s"
  let ?clear = "\<lambda>p. p\<lparr>pl_reservation := None\<rparr>"
  let ?cleared = "map (\<lambda>(k, p). (k, ?clear p)) ?ps"
  let ?old = "map (\<lambda>(_, p). (pl_name p, pl_reservation p)) ?ps"
  have kc: "keys ?cleared = keys ?ps" by (simp add: comp_def case_prod_beta')
  have wf: "dict_wf ?ps" using assms(2) by (simp add: places_ok_def)
  have "\<forall>n. holder ?rs n \<noteq> None \<longrightarrow> map_of [] n = None \<and> n \<in> set (keys ?cleared)"
    unfolding kc using holder_booked [OF assms(1)] assms(4) by (auto simp del: set_map)
  from copy_loop [OF reservations_disjoint(2,1) [OF assms(1)] this]
  have "\<exists>nm' ps'. for_each copy_allocation ?rs ([], ?cleared) = (Inr (), (nm', ps')) \<and>
    (\<forall>n. map_of nm' n = (case holder ?rs n of None \<Rightarrow> map_of [] n | Some t \<Rightarrow> Some t)) \<and>
    (\<forall>n. map_of ps' n = map_option (\<lambda>p. case holder ?rs n of None \<Rightarrow> p
       | Some t \<Rightarrow> p\<lparr>pl_reservation := Some t\<rparr>) (map_of ?cleared n)) \<and>
    keys ps' = keys ?cleared" unfolding kc using wf by blast
  then obtain nm ps where
    run: "for_each copy_allocation ?rs ([], ?cleared) = (Inr (), (nm, ps))"
    and lnm: "\<forall>n. map_of nm n = (case holder ?rs n of None \<Rightarrow> map_of [] n | Some t \<Rightarrow> Some t)"
    and lps: "\<forall>n. map_of ps n = map_option (\<lambda>p. case holder ?rs n of None \<Rightarrow> p
       | Some t \<Rightarrow> p\<lparr>pl_reservation := Some t\<rparr>) (map_of ?cleared n)"
    and kps: "keys ps = keys ?cleared" by (elim exE conjE)
  have lps': "map_of ps n = map_option (set_copies (co_reservations s) n) (map_of ?ps n)" for n
    using lps by (cases "map_of ?ps n"; cases "holder ?rs n") (simp_all add: map_of_map set_copies_def)
  have "pl_name p = n" if "(n, p) \<in> set ?ps" for n p
    using that assms(2) dict_in_iff [OF wf] by (auto simp: places_ok_def dest: dict.every_get)
  then have ko: "keys ?old = keys ?ps" by (auto simp: case_prod_beta')
  have "set (keys nm) \<subseteq> set (keys ?ps)"
  proof
    fix n assume "n \<in> set (keys nm)"
    then have "map_of nm n \<noteq> None" unfolding in_keys_iff by simp
    then have "holder ?rs n \<noteq> None" using lnm by (simp split: option.splits)
    then show "n \<in> set (keys ?ps)" using holder_booked [OF assms(1)] assms(4) by blast
  qed
  then have names: "set (reorder order (remdups (keys ?old @ keys nm))) \<subseteq> set (keys ps)"
    using assms(3) by (simp only: set_reorder set_remdups set_append kps kc ko) blast
  let ?loop = "for_each (publish_changed ?old nm) (reorder order (remdups (keys ?old @ keys nm)))
    (s\<lparr>co_places := ps\<rparr>)"
  have "fst ?loop = Inr () \<and> same_but_clients (s\<lparr>co_places := ps\<rparr>) (snd ?loop)"
    by (rule publish_loop) (use names in simp)
  then obtain cl where "?loop = (Inr (), s\<lparr>co_places := ps, co_clients := cl\<rparr>)"
    by (cases ?loop) (auto simp: same_but_clients_def)
  then have "update_places order s = (Inr (), s\<lparr>co_places := ps, co_clients := cl\<rparr>)"
    by (simp only: update_places_def Let_def lift_stage_def run prod.case sum.case)
  moreover have "keys ps = keys ?ps" using kps kc by (rule trans)
  ultimately show ?thesis
    using lps' by (intro exI [of _ "s\<lparr>co_places := ps, co_clients := cl\<rparr>"]) simp
qed


text \<open>What a run of \<open>schedule_reservations\<close> is made of, when nothing raises.\<close>

definition fresh_booking :: "coord \<Rightarrow> string \<Rightarrow> string \<Rightarrow> bool" where
  "fresh_booking s t n \<longleftrightarrow>
     (\<exists>r p. map_of (co_reservations s) t = Some r \<and> rs_state r = RWaiting \<and>
        map_of (co_places s) n = Some p \<and> pl_acquired p = None \<and> pl_reservation p = None \<and>
        set (the (map_of (rs_filters r) ''main'')) \<subseteq> insert (''name'', n) (set (pl_tags p)))"

lemma waiting_before:
  assumes "pointwise f rs rs'" and "map_of rs' t = Some r'" and "rs_state r' = RWaiting"
    and "\<And>r r'. f r = Some r' \<Longrightarrow> rs_state r' = RWaiting \<Longrightarrow> r' = r"
  shows "map_of rs t = Some r'"
  using assms by (auto simp: pointwise_def bind_eq_Some_conv)

lemma expire_waiting: "expire_one now r = Some r' \<Longrightarrow> rs_state r' = RWaiting \<Longrightarrow> r' = r"
  by (auto simp: expire_one_def rs_refresh_def Let_def split: if_splits)

lemma scan_waiting: "Some (scan_one places now r) = Some r' \<Longrightarrow> rs_state r' = RWaiting \<Longrightarrow> r' = r"
  by (auto simp: scan_one_def follow_acquired_def rs_refresh_def Let_def
      split: list.splits option.splits prod.splits if_splits)

lemma places_ok_set_copies:
  assumes "places_ok ps" and "keys ps' = keys ps"
    and "\<forall>n. map_of ps' n = map_option (set_copies rs n) (map_of ps n)"
  shows "places_ok ps'"
proof -
  have "pl_name p' = n" if "map_of ps' n = Some p'" for n p'
  proof -
    from that assms(3) obtain p where "map_of ps n = Some p" "p' = set_copies rs n p" by auto
    with assms(1) show ?thesis by (auto simp: places_ok_def set_copies_def dest: dict.every_get)
  qed
  with assms(1,2) show ?thesis by (simp add: places_ok_def dict.every_def)
qed


definition bookings_ok :: "coord \<Rightarrow> bool" where
  "bookings_ok s \<longleftrightarrow> reservations_ok (co_reservations s) \<and> places_ok (co_places s) \<and>
     copies_ok (co_reservations s) (co_places s)"

lemma fits_iff:
  "map_of ps n = Some p \<Longrightarrow> fits (reservation_tagset r) (place_tagset ps n) \<longleftrightarrow>
   set (the (map_of (rs_filters r) ''main'')) \<subseteq> insert (''name'', n) (set (pl_tags p))"
  by (simp add: fits_def reservation_tagset_def place_tagset_def)

lemma keeps_ok_main: "keeps_ok f \<Longrightarrow> pointwise f rs rs' \<Longrightarrow> reservations_ok rs \<Longrightarrow> all_have_main rs \<Longrightarrow>
   reservations_ok rs' \<and> all_have_main rs'"
  using pointwise_ok pointwise_main by blast

lemma applied_main: "applied now a rs rs' \<Longrightarrow> all_have_main rs \<Longrightarrow> all_have_main rs'"
  unfolding all_have_main_def applied_def dict.every_def
  by (auto split: option.splits)

text \<open>The stages up to the call of the scheduler.\<close>

lemma before_scheduling:
  assumes "bookings_ok s"
  shows "\<exists>rs2 allocated.
    for_each (scan_reservation (co_places s) (co_now s)) (keys (expire_reservations (co_now s) (co_reservations s)))
      (expire_reservations (co_now s) (co_reservations s), []) = (Inr (), (rs2, allocated)) \<and>
    reservations_ok rs2 \<and> (all_have_main (co_reservations s) \<longrightarrow> all_have_main rs2) \<and>
    (\<forall>t r. map_of (co_reservations s) t = Some r \<longrightarrow> rs_state r = RWaiting \<longrightarrow>
       \<not> rs_expired (co_now s) r \<longrightarrow> map_of rs2 t = Some r) \<and>
    (\<forall>t n. booked rs2 t n \<longrightarrow> booked (co_reservations s) t n \<and> n \<in> set (keys (co_places s)) \<and>
       n \<notin> set (available_places (co_places s))) \<and>
    (\<forall>t r. map_of rs2 t = Some r \<longrightarrow> rs_state r = RWaiting \<longrightarrow> map_of (co_reservations s) t = Some r) \<and>
    \<not> list_ex (\<lambda>n. n \<in> set allocated) (available_places (co_places s))"
proof -
  let ?rs = "co_reservations s" and ?ps = "co_places s" and ?now = "co_now s"
  let ?rs1 = "expire_reservations ?now ?rs"
  have ok: "reservations_ok ?rs" and pok: "places_ok ?ps" and cp: "copies_ok ?rs ?ps"
    using assms by (simp_all add: bookings_ok_def)
  have wf: "dict_wf ?rs" "dict_wf ?ps" using ok pok by (simp_all add: reservations_ok_def places_ok_def)
  have e: "pointwise (expire_one ?now) ?rs ?rs1" by (rule expire_pointwise [OF wf(1)])
  have ok1: "reservations_ok ?rs1" by (rule pointwise_ok [OF e expire_keeps_ok ok])
  from scan_all [OF ok1, of ?ps ?now] obtain rs2 allocated where
    run: "for_each (scan_reservation ?ps ?now) (keys ?rs1) (?rs1, []) = (Inr (), (rs2, allocated))"
    and sc: "pointwise (\<lambda>r. Some (scan_one ?ps ?now r)) ?rs1 rs2"
    and al: "set allocated = {n \<in> set (keys ?ps). \<exists>t. booked ?rs1 t n}" by (elim exE conjE)
  have ok2: "reservations_ok rs2" by (rule pointwise_ok [OF sc scan_keeps_ok ok1])
  have main: "all_have_main ?rs \<longrightarrow> all_have_main rs2"
    using pointwise_main [OF e expire_keeps_ok ok] pointwise_main [OF sc scan_keeps_ok ok1] by blast
  have stays: "map_of rs2 t = Some r"
    if "map_of ?rs t = Some r" "rs_state r = RWaiting" "\<not> rs_expired ?now r" for t r
  proof -
    have "rs_allocations r = []"
      using reservations_okD [OF ok that(1)] that(2) by (simp add: reservation_ok_def holds_place_def)
    with that e sc show ?thesis by (simp add: pointwise_def expire_one_def scan_one_def)
  qed
  have taken: "n \<notin> set (available_places ?ps)" if "booked ?rs1 t n" for t n
    using cp pointwise_booked [OF e expire_keeps_ok ok that]
    by (auto simp: available_places_iff [OF wf(2)] copies_ok_def)
  have "booked ?rs t n \<and> n \<in> set (keys ?ps) \<and> n \<notin> set (available_places ?ps)" if "booked rs2 t n" for t n
    using that scan_booked [OF sc ok1] pointwise_booked [OF e expire_keeps_ok ok] taken by blast
  moreover have "map_of ?rs t = Some r" if "map_of rs2 t = Some r" "rs_state r = RWaiting" for t r
  proof -
    have "map_of ?rs1 t = Some r"
      by (rule waiting_before [OF sc that]) (erule (1) scan_waiting)
    then show ?thesis by (rule waiting_before [OF e _ that(2)]) (erule (1) expire_waiting)
  qed
  moreover have "\<not> list_ex (\<lambda>n. n \<in> set allocated) (available_places ?ps)"
    using taken al by (auto simp: list_ex_iff simp del: set_map)
  ultimately show ?thesis using run ok2 main stays by blast
qed

lemma schedule_reservations_ok:
  assumes "bookings_ok s" and "all_have_main (co_reservations s)"
    and "set_order order1" and "set_order order2"
  shows "\<exists>t. schedule_reservations order1 order2 s = (Inr (), t) \<and>
    reservations_ok (co_reservations t) \<and> all_have_main (co_reservations t) \<and>
    places_ok (co_places t) \<and> copies_synced (co_reservations t) (co_places t) \<and>
    keys (co_places t) = keys (co_places s) \<and>
    (\<forall>n. map_of (co_places t) n = map_option (set_copies (co_reservations t) n) (map_of (co_places s) n)) \<and>
    (\<forall>k n. booked (co_reservations t) k n \<longrightarrow> booked (co_reservations s) k n \<or> fresh_booking s k n) \<and>
    (\<forall>k r n p. map_of (co_reservations t) k = Some r \<longrightarrow> rs_state r = RWaiting \<longrightarrow>
       map_of (co_places s) n = Some p \<longrightarrow> pl_acquired p = None \<longrightarrow> pl_reservation p = None \<longrightarrow>
       set (the (map_of (rs_filters r) ''main'')) \<subseteq> insert (''name'', n) (set (pl_tags p)) \<longrightarrow>
       (\<exists>k'. booked (co_reservations t) k' n))"
proof -
  let ?rs = "co_reservations s" and ?ps = "co_places s" and ?now = "co_now s"
  let ?avail = "available_places ?ps"
  have pok: "places_ok ?ps" and wfp: "dict_wf ?ps"
    using assms(1) by (simp_all add: bookings_ok_def places_ok_def)
  from before_scheduling [OF assms(1)] assms(2) obtain rs2 allocated where
    run: "for_each (scan_reservation ?ps ?now) (keys (expire_reservations ?now ?rs))
      (expire_reservations ?now ?rs, []) = (Inr (), (rs2, allocated))"
    and ok2: "reservations_ok rs2" "all_have_main rs2"
    and old: "\<And>t n. booked rs2 t n \<Longrightarrow> booked ?rs t n \<and> n \<in> set (keys ?ps) \<and> n \<notin> set ?avail"
    and wait: "\<And>t r. map_of rs2 t = Some r \<Longrightarrow> rs_state r = RWaiting \<Longrightarrow> map_of ?rs t = Some r"
    and disj: "\<not> list_ex (\<lambda>n. n \<in> set allocated) ?avail" by blast
  have filters: "filter_tagsets (pending_reservations rs2) =
      Inr (map reservation_tagset (pending_reservations rs2))"
    by (rule filter_tagsets_main) (use pending_have_main [OF ok2(2,1)] in blast)
  from schedule_runs [OF assms(3) wfp ok2(1)] obtain a where
    a: "schedule (map (place_tagset ?ps) (reorder order1 ?avail))
      (map reservation_tagset (pending_reservations rs2)) = Inr a" ..
  have good: "good_allocation ?ps rs2 a" by (rule schedule_good [OF assms(3) wfp ok2(1) a])
  have "fst ` set a \<subseteq> fst ` set rs2"
    using good unfolding good_allocation_def by (force dest: map_of_SomeD)
  with good ok2(1) apply_loop [of rs2 a ?now] obtain rs3 where
    run3: "for_each (apply_allocation ?now) a rs2 = (Inr (), rs3)" and ap: "applied ?now a rs2 rs3"
    unfolding applied_def good_allocation_def reservations_ok_def by (elim conjE) blast
  have ok3: "reservations_ok rs3" by (rule applied_ok [OF ap good ok2(1)]) (use old in blast)
  have main3: "all_have_main rs3" by (rule applied_main [OF ap ok2(2)])
  note b3 = applied_booked [OF ap good ok2(1)]
  have new: "n \<in> set ?avail \<and> fresh_booking s t n" if "map_of a t = Some n" for t n
  proof -
    from map_of_SomeD [OF that] good obtain r where
      r: "map_of rs2 t = Some r" "rs_state r = RWaiting" "n \<in> set ?avail"
      "fits (reservation_tagset r) (place_tagset ?ps n)" unfolding good_allocation_def by blast
    from r(3) obtain p where "map_of ?ps n = Some p" "pl_acquired p = None" "pl_reservation p = None"
      by (auto simp: available_places_iff [OF wfp])
    with r wait [OF r(1,2)] fits_iff show ?thesis unfolding fresh_booking_def by blast
  qed
  let ?s3 = "s\<lparr>co_reservations := rs3\<rparr>"
  have avail_key: "n \<in> set (keys ?ps)" if "n \<in> set ?avail" for n
    using that unfolding available_places_iff [OF wfp] in_keys_iff by blast
  have key3: "n \<in> set (keys ?ps)" if "booked rs3 t n" for t n
    using that b3 [of t n] old [of t n] new [of t n] avail_key [of n] by blast
  then have "n \<in> set (keys (co_places ?s3))" if "booked (co_reservations ?s3) t n" for t n
    using that by simp
  then have "\<exists>t. update_places order2 ?s3 = (Inr (), t) \<and> co_reservations t = co_reservations ?s3 \<and>
      (\<forall>n. map_of (co_places t) n =
         map_option (set_copies (co_reservations ?s3) n) (map_of (co_places ?s3) n)) \<and>
      keys (co_places t) = keys (co_places ?s3)"
    using ok3 pok assms(4) by (intro update_places_ok) simp_all
  then obtain t where
    up: "update_places order2 ?s3 = (Inr (), t)" "co_reservations t = rs3"
    "\<forall>n. map_of (co_places t) n = map_option (set_copies rs3 n) (map_of ?ps n)"
    "keys (co_places t) = keys ?ps" by (elim exE conjE) simp
  have "schedule_reservations order1 order2 s = (Inr (), t)"
    using disj by (simp add: schedule_reservations_def Let_def lift_stage_def run filters a run3 up(1))
  moreover have "places_ok (co_places t)" by (rule places_ok_set_copies [OF pok up(4,3)])
  moreover have "copies_synced rs3 (co_places t)"
    unfolding copies_synced_def
  proof (intro allI iffI)
    fix k n assume b: "booked rs3 k n"
    with key3 obtain p where "map_of ?ps n = Some p" unfolding in_keys_iff by blast
    with b up(3) holder_booked [OF ok3] show "\<exists>p. map_of (co_places t) n = Some p \<and> pl_reservation p = Some k"
      by (simp add: set_copies_def)
  next
    fix k n assume "\<exists>p. map_of (co_places t) n = Some p \<and> pl_reservation p = Some k"
    with up(3) holder_booked [OF ok3] show "booked rs3 k n" by (auto simp: set_copies_def)
  qed
  moreover have "\<exists>k'. booked rs3 k' n"
    if "map_of rs3 k = Some r" "rs_state r = RWaiting" "map_of ?ps n = Some p" "pl_acquired p = None"
      "pl_reservation p = None"
      "set (the (map_of (rs_filters r) ''main'')) \<subseteq> insert (''name'', n) (set (pl_tags p))" for k r n p
  proof -
    have n: "n \<in> set ?avail" using that available_places_iff [OF wfp] by blast
    have none: "map_of a k = None"
      using that(1,2) ap by (cases "map_of a k") (auto simp: applied_def)
    with that(1) ap have r2: "map_of rs2 k = Some r" by (simp add: applied_def)
    then have tok: "rs_token r = k" using reservations_okD [OF ok2(1)] by (simp add: reservation_ok_def)
    have "n \<in> snd ` set a"
      using good r2 none n that(2,6) fits_iff [OF that(3)] unfolding good_allocation_def tok [symmetric] by blast
    then obtain k' where "(k', n) \<in> set a" by auto
    then have "map_of a k' = Some n" using good by (simp add: good_allocation_def)
    with b3 show ?thesis by blast
  qed
  moreover have "booked ?rs k n \<or> fresh_booking s k n" if "booked rs3 k n" for k n
    using that b3 [of k n] old [of k n] new [of k n] by blast
  ultimately show ?thesis
    using ok3 main3 up(2-4) by (intro exI [of _ t]) (simp only: simp_thms, blast)
qed



section \<open>What scheduling promises\<close>

text \<open>
  C3. Reservations and places agree after \<open>schedule_reservations\<close>: in a state where allocations
  are exclusive, allocated places that exist carry their token and every reservation has a
  \<open>main\<close> filter, it returns without an exception; afterwards exactly the allocated and acquired
  reservations have one existing place each, no place twice, and a place carries a token if and
  only if that reservation has it.
\<close>

theorem schedule_reservations_synced:
  assumes "bookings_ok s" and "all_have_main (co_reservations s)"
    and "set_order order1" and "set_order order2"
  shows "\<exists>t. schedule_reservations order1 order2 s = (Inr (), t) \<and>
    reservations_ok (co_reservations t) \<and> places_ok (co_places t) \<and>
    copies_synced (co_reservations t) (co_places t)"
  using schedule_reservations_ok [OF assms] by blast

definition sample_reservation :: "string \<Rightarrow> reservation" where
  "sample_reservation token =
     new_reservation 0 token ''host/user'' 0 [(''main'', [(''board'', ''a'')])]"

definition sample_coord :: coord where
  "sample_coord =
     \<lparr>co_places = [(''p1'', (new_place 0 ''p1'')\<lparr>pl_tags := [(''board'', ''a'')]\<rparr>)],
      co_reservations = [(''T1'', sample_reservation ''T1''), (''T2'', sample_reservation ''T2'')],
      co_exporters = [], co_clients = [], co_heap = [], co_commands = [],
      co_save_scheduled = False, co_locked = True, co_now = 1, co_mono = 1, co_script = []\<rparr>"

lemma sample_coord_ok:
  "bookings_ok sample_coord" "all_have_main (co_reservations sample_coord)"
proof -
  have "\<not> booked (co_reservations sample_coord) t n" for t n
    by (simp add: booked_def sample_coord_def sample_reservation_def new_reservation_def)
  then show "bookings_ok sample_coord"
    unfolding bookings_ok_def reservations_ok_def places_ok_def exclusive_bookings_def copies_ok_def
      dict.every_def
    by (simp add: sample_coord_def sample_reservation_def new_reservation_def new_place_def
        reservation_ok_def main_only_def holds_place_def)
  show "all_have_main (co_reservations sample_coord)"
    by (simp add: all_have_main_def dict.every_def sample_coord_def sample_reservation_def
        new_reservation_def)
qed

theorem schedule_reservations_synced_witness:
  "\<exists>t. schedule_reservations (\<lambda>n. [0..<n]) (\<lambda>n. [0..<n]) sample_coord = (Inr (), t) \<and>
    reservations_ok (co_reservations t) \<and> places_ok (co_places t) \<and>
    copies_synced (co_reservations t) (co_places t)"
  by (rule schedule_reservations_synced [OF sample_coord_ok set_order_upt set_order_upt])

text \<open>
  A fair outcome: new bookings are fresh, and no waiting reservation is left beside a free place
  that it fits.
\<close>

definition fair_schedule :: "coord \<Rightarrow> coord \<Rightarrow> bool" where
  "fair_schedule s t \<longleftrightarrow>
     (\<forall>k n. booked (co_reservations t) k n \<longrightarrow> booked (co_reservations s) k n \<or> fresh_booking s k n) \<and>
     (\<forall>k r n p. map_of (co_reservations t) k = Some r \<longrightarrow> rs_state r = RWaiting \<longrightarrow>
        map_of (co_places s) n = Some p \<longrightarrow> pl_acquired p = None \<longrightarrow> pl_reservation p = None \<longrightarrow>
        set (the (map_of (rs_filters r) ''main'')) \<subseteq> insert (''name'', n) (set (pl_tags p)) \<longrightarrow>
        (\<exists>k'. booked (co_reservations t) k' n))"




section \<open>When scheduling fails\<close>

lemma filter_tagsets_without_main:
  "r \<in> set rs \<Longrightarrow> map_of (rs_filters r) ''main'' = None \<Longrightarrow> filter_tagsets rs = Inl KeyError"
  by (induction rs) (auto split: option.splits sum.splits)

text \<open>
  One waiting reservation without a \<open>main\<close> filter stops the scheduler: until it expires, every
  call of \<open>schedule_reservations\<close> raises \<open>KeyError\<close>, whatever the other reservations are.
\<close>

lemma reservation_without_main_blocks_scheduler:
  assumes "bookings_ok s" and "map_of (co_reservations s) t = Some r"
    and "rs_state r = RWaiting" and "co_now s \<le> rs_timeout r"
    and "map_of (rs_filters r) ''main'' = None"
  shows "fst (schedule_reservations order1 order2 s) = Inl (Builtin KeyError)"
proof -
  let ?rs1 = "expire_reservations (co_now s) (co_reservations s)"
  from before_scheduling [OF assms(1)] assms(2-4) obtain rs2 allocated where
    run: "for_each (scan_reservation (co_places s) (co_now s)) (keys ?rs1) (?rs1, []) =
      (Inr (), (rs2, allocated))"
    and ok: "reservations_ok rs2" and r: "map_of rs2 t = Some r"
    and disj: "\<not> list_ex (\<lambda>n. n \<in> set allocated) (available_places (co_places s))"
    unfolding rs_expired_def not_less by blast
  from reservations_okD [OF ok r] have "rs_token r = t" by (simp add: reservation_ok_def)
  with r assms(3) have "r \<in> set (pending_reservations rs2)" by (simp add: pending_iff [OF ok])
  then have "filter_tagsets (pending_reservations rs2) = Inl KeyError"
    by (rule filter_tagsets_without_main [OF _ assms(5)])
  then show ?thesis
    using disj by (simp add: schedule_reservations_def Let_def lift_stage_def run)
qed

theorem reservation_without_main_blocks_scheduler_witness:
  "fst (schedule_reservations (\<lambda>n. [0..<n]) (\<lambda>n. [0..<n])
     (sample_coord\<lparr>co_reservations := [(''T1'', new_reservation 0 ''T1'' ''host/user'' 0 [])]\<rparr>)) =
   Inl (Builtin KeyError)"
proof (rule reservation_without_main_blocks_scheduler)
  let ?s = "sample_coord\<lparr>co_reservations := [(''T1'', new_reservation 0 ''T1'' ''host/user'' 0 [])]\<rparr>"
  show "map_of (co_reservations ?s) ''T1'' = Some (new_reservation 0 ''T1'' ''host/user'' 0 [])" by simp
  have "\<not> booked (co_reservations ?s) t n" for t n by (simp add: booked_def new_reservation_def)
  then show "bookings_ok ?s"
    using sample_coord_ok(1)
    unfolding bookings_ok_def reservations_ok_def exclusive_bookings_def copies_ok_def dict.every_def
    by (simp add: new_reservation_def reservation_ok_def main_only_def holds_place_def)
qed (simp_all add: new_reservation_def sample_coord_def)

text \<open>
  Deleting an allocated place and adding it again stops the scheduler too: while a
  reservation that does not expire holds a place whose new object is free, every call of
  \<open>schedule_reservations\<close> fails at the assertion \<open>inconsistent allocation\<close>.
\<close>

lemma readded_place_blocks_scheduler:
  assumes "reservations_ok (co_reservations s)" and "dict_wf (co_places s)"
    and "map_of (co_reservations s) t = Some r" and "rs_allocations r = [(''main'', [n])]"
    and "co_now s \<le> rs_timeout r" and "map_of (co_places s) n = Some p"
    and "pl_acquired p = None" and "pl_reservation p = None"
  shows "fst (schedule_reservations order1 order2 s) = Inl (Builtin AssertionError)"
proof -
  let ?rs = "co_reservations s"
  let ?rs1 = "expire_reservations (co_now s) ?rs"
  have e: "pointwise (expire_one (co_now s)) ?rs ?rs1"
    using assms(1) by (intro expire_pointwise) (simp add: reservations_ok_def)
  have ok1: "reservations_ok ?rs1" by (rule pointwise_ok [OF e expire_keeps_ok assms(1)])
  have "booked ?rs1 t n"
    using e assms(3-5)
    by (auto simp: booked_def pointwise_def expire_one_def rs_refresh_def rs_expired_def)
  moreover have "n \<in> set (keys (co_places s))" using assms(6) unfolding in_keys_iff by blast
  moreover from scan_all [OF ok1, of "co_places s" "co_now s"] obtain rs2 allocated where
    run: "for_each (scan_reservation (co_places s) (co_now s)) (keys ?rs1) (?rs1, []) =
      (Inr (), (rs2, allocated))"
    and al: "set allocated = {n \<in> set (keys (co_places s)). \<exists>t. booked ?rs1 t n}" by (elim exE conjE)
  moreover have "n \<in> set (available_places (co_places s))"
    using assms(6-8) by (simp add: available_places_iff [OF assms(2)])
  ultimately have "list_ex (\<lambda>n. n \<in> set allocated) (available_places (co_places s))"
    by (auto simp: list_ex_iff)
  then show ?thesis by (simp add: schedule_reservations_def Let_def lift_stage_def run)
qed

definition readded_coord :: coord where
  "readded_coord = sample_coord\<lparr>co_reservations :=
     [(''T1'', (sample_reservation ''T1'')
         \<lparr>rs_state := RAllocated, rs_allocations := [(''main'', [''p1''])]\<rparr>)]\<rparr>"

theorem readded_place_blocks_scheduler_witness:
  "fst (schedule_reservations (\<lambda>n. [0..<n]) (\<lambda>n. [0..<n]) readded_coord) = Inl (Builtin AssertionError)"
proof (rule readded_place_blocks_scheduler
    [where p = "(new_place 0 ''p1'')\<lparr>pl_tags := [(''board'', ''a'')]\<rparr>"])
  have "booked (co_reservations readded_coord) t n \<Longrightarrow> t = ''T1''" for t n
    by (simp add: booked_def readded_coord_def split: if_splits)
  then show "reservations_ok (co_reservations readded_coord)"
    unfolding reservations_ok_def exclusive_bookings_def dict.every_def
    by (auto simp: readded_coord_def sample_reservation_def new_reservation_def reservation_ok_def
        main_only_def holds_place_def split: if_splits)
  show "map_of (co_reservations readded_coord) ''T1'' = Some ((sample_reservation ''T1'')
      \<lparr>rs_state := RAllocated, rs_allocations := [(''main'', [''p1''])]\<rparr>)"
    by (simp add: readded_coord_def)
qed (simp_all add: readded_coord_def sample_coord_def sample_reservation_def new_reservation_def
    new_place_def)

end
