(* ===== verification/CoordHandlers.thy ===== *)
theory CoordHandlers
  imports CoordReserve
begin

text \<open>
  The handlers of \<open>Coordinator\<close>: the calls that manage places, acquiring and releasing a place,
  the periodic synchronisation of resources, and the calls on reservations. Each is the body under
  the \<open>locked\<close> decorator; \<open>handle\<close> adds the lock. The random token of a reservation, the peer of a
  call and the orders of the iterations over sets are arguments.
\<close>

section \<open>Managing places\<close>

type_synonym 'a handler = "coord \<Rightarrow> (cerror, 'a, coord) outcome"

definition abort :: "grpc_status \<Rightarrow> 'a handler" where
  "abort status s = (Inl (Abort status), s)"

definition raise_error :: "py_error \<Rightarrow> 'a handler" where
  "raise_error e s = (Inl (Builtin e), s)"

definition with_place :: "string \<Rightarrow> (nat place \<Rightarrow> unit handler) \<Rightarrow> unit handler" where
  "with_place name body s =
     (case map_of (co_places s) name of
        None \<Rightarrow> abort INVALID_ARGUMENT s
      | Some p \<Rightarrow> body p s)"

definition finish_with :: "string \<Rightarrow> nat place \<Rightarrow> unit handler" where
  "finish_with name p s = (Inr (), finish_place name p s)"

definition add_place :: "string \<Rightarrow> unit handler" where
  "add_place name s =
     (if name = [] then abort INVALID_ARGUMENT s
      else if name \<in> set (keys (co_places s)) then abort ALREADY_EXISTS s
      else
        let p = new_place (co_now s) name
        in (Inr (), save_later (publish_place p (set_place name p s))))"

definition delete_place :: "string \<Rightarrow> unit handler" where
  "delete_place name s =
     (if name = [] then abort INVALID_ARGUMENT s
      else if name \<notin> set (keys (co_places s)) then abort ALREADY_EXISTS s
      else
        (Inr (), save_later (broadcast (OutUpdates [UpdDelPlace name])
           (s\<lparr>co_places := AList.delete name (co_places s)\<rparr>))))"

definition add_place_alias :: "string \<Rightarrow> string \<Rightarrow> unit handler" where
  "add_place_alias name alias =
     with_place name (\<lambda>p. finish_with name (p\<lparr>pl_aliases := List.insert alias (pl_aliases p)\<rparr>))"

text \<open>\<open>set.remove\<close> raises \<open>KeyError\<close>, which the handler's \<open>except ValueError\<close> lets through.\<close>

definition delete_place_alias :: "string \<Rightarrow> string \<Rightarrow> unit handler" where
  "delete_place_alias name alias =
     with_place name (\<lambda>p.
       if alias \<in> set (pl_aliases p)
       then finish_with name (p\<lparr>pl_aliases := remove1 alias (pl_aliases p)\<rparr>)
       else raise_error KeyError)"

definition tags_valid :: "(string, string) dict \<Rightarrow> bool" where
  "tags_valid tags \<longleftrightarrow> list_all (\<lambda>(k, v). tag_key_match k \<and> tag_val_match v) tags"

definition apply_tag :: "string \<times> string \<Rightarrow> (string, string) dict \<Rightarrow> (string, string) dict" where
  "apply_tag kv tags =
     (if snd kv = [] then AList.delete (fst kv) tags else AList.update (fst kv) (snd kv) tags)"

definition set_place_tags :: "string \<Rightarrow> (string, string) dict \<Rightarrow> unit handler" where
  "set_place_tags name tags =
     with_place name (\<lambda>p.
       if tags_valid tags
       then finish_with name (p\<lparr>pl_tags := fold apply_tag tags (pl_tags p)\<rparr>)
       else abort INVALID_ARGUMENT)"

definition set_place_comment :: "string \<Rightarrow> string \<Rightarrow> unit handler" where
  "set_place_comment name comment =
     with_place name (\<lambda>p. finish_with name (p\<lparr>pl_comment := comment\<rparr>))"

text \<open>\<open>ResourceMatch(*pattern.split("/"), rename=rename)\<close>: three or four arguments.\<close>

definition match_of_pattern :: "string \<Rightarrow> string option \<Rightarrow> py_error + resource_match" where
  "match_of_pattern pattern rename =
     (case split_on (CHR ''/'') pattern of
        [e, g, c] \<Rightarrow>
          Inr \<lparr>rm_exporter = e, rm_group = g, rm_cls = c, rm_name = None, rm_rename = rename\<rparr>
      | [e, g, c, n] \<Rightarrow>
          Inr \<lparr>rm_exporter = e, rm_group = g, rm_cls = c, rm_name = Some n, rm_rename = rename\<rparr>
      | _ \<Rightarrow> Inl TypeError)"

definition add_place_match :: "string \<Rightarrow> string \<Rightarrow> string option \<Rightarrow> unit handler" where
  "add_place_match name pattern rename =
     with_place name (\<lambda>p.
       case match_of_pattern pattern rename of
         Inl e \<Rightarrow> raise_error e
       | Inr rm \<Rightarrow>
           if list_ex (rm_eq rm) (pl_matches p) then abort ALREADY_EXISTS
           else finish_with name (p\<lparr>pl_matches := pl_matches p @ [rm]\<rparr>))"

fun remove_match :: "resource_match \<Rightarrow> resource_match list \<Rightarrow> resource_match list" where
  "remove_match rm [] = []"
| "remove_match rm (m # ms) = (if rm_eq rm m then ms else m # remove_match rm ms)"

definition delete_place_match :: "string \<Rightarrow> string \<Rightarrow> string option \<Rightarrow> unit handler" where
  "delete_place_match name pattern rename =
     with_place name (\<lambda>p.
       case match_of_pattern pattern rename of
         Inl e \<Rightarrow> raise_error e
       | Inr rm \<Rightarrow>
           if list_ex (rm_eq rm) (pl_matches p)
           then finish_with name (p\<lparr>pl_matches := remove_match rm (pl_matches p)\<rparr>)
           else abort INVALID_ARGUMENT)"

definition get_places :: "pb_place list handler" where
  "get_places s = (Inr (map (\<lambda>(_, p). place_pb s p) (co_places s)), s)"


section \<open>Acquiring and releasing resources\<close>

definition acquire_resource :: "string \<Rightarrow> nat \<Rightarrow> unit handler" where
  "acquire_resource place_name r = run_command r (Some place_name)"

text \<open>The resource is not free, or a place still holds a resource with its path.\<close>

definition in_conflict :: "coord \<Rightarrow> nat \<Rightarrow> bool" where
  "in_conflict s r \<longleftrightarrow>
     truthy (res_acquired s r) \<or>
     list_ex (\<lambda>(_, p). list_ex (\<lambda>old. res_path s r = res_path s old) (pl_acquired_resources p))
       (co_places s)"

text \<open>The loop that acquires, with the list of the resources acquired so far.\<close>

fun acquire_all :: "string \<Rightarrow> nat list \<Rightarrow> nat list \<Rightarrow> coord \<Rightarrow> cerror option \<times> nat list \<times> coord" where
  "acquire_all name [] acquired s = (None, acquired, s)"
| "acquire_all name (r # rs) acquired s =
     (case acquire_resource name r s of
        (Inl e, t) \<Rightarrow> (Some e, acquired, t)
      | (Inr _, t) \<Rightarrow> acquire_all name rs (acquired @ [r]) t)"

definition update_resources :: "string \<Rightarrow> (nat list \<Rightarrow> nat list) \<Rightarrow> coord \<Rightarrow> coord" where
  "update_resources name f s =
     (case map_of (co_places s) name of
        None \<Rightarrow> s
      | Some p \<Rightarrow> set_place name (p\<lparr>pl_acquired_resources := f (pl_acquired_resources p)\<rparr>) s)"

text \<open>One round of the second loop of \<open>_release_resources\<close>.\<close>

definition release_one :: "bool \<Rightarrow> nat \<Rightarrow> unit handler" where
  "release_one callback r s =
     (if ri_orphaned (co_heap s ! r) then (Inr (), s)
      else if \<not> callback then (Inr (), s)
      else case run_command r None s of
        (Inr _, t) \<Rightarrow> (Inr (), t)
      | (Inl e, t) \<Rightarrow>
          if e = ExporterErr \<or> e = TimeoutErr then (Inr (), publish_resource r t) else (Inl e, t))"

text \<open>
  The place is given by its name; \<open>None\<close> is Python's \<open>None\<close>, which \<open>_synchronize_resources\<close> passes
  for an unknown place and which has no \<open>acquired_resources\<close>.
\<close>

definition release_resources :: "string option \<Rightarrow> nat list \<Rightarrow> bool \<Rightarrow> unit handler" where
  "release_resources place_name rs callback s =
     (case place_name of
        None \<Rightarrow> if rs = [] then (Inr (), s) else (Inl (Builtin AttributeError), s)
      | Some name \<Rightarrow>
          for_each (release_one callback) rs
            (update_resources name (\<lambda>held. fold remove1 rs held) s))"

definition acquire_resources :: "string \<Rightarrow> nat list \<Rightarrow> bool handler" where
  "acquire_resources name rs s =
     (if list_ex (in_conflict s) rs then (Inr False, s)
      else case acquire_all name rs [] s of
        (None, _, t) \<Rightarrow> (Inr True, update_resources name (\<lambda>held. held @ rs) t)
      | (Some e, acquired, t) \<Rightarrow>
          if e = Cancelled then (Inl e, t)
          else and_then (release_resources (Some name) acquired True t) (\<lambda>_ u. (Inr False, u)))"

text \<open>All resources of the exporters that the place matches, in sorted order.\<close>

definition matching_resources :: "nat place \<Rightarrow> coord \<Rightarrow> nat list" where
  "matching_resources p s =
     filter (\<lambda>r. hasmatch p (res_path s r))
       (concat (map (\<lambda>(_, e).
          concat (map (\<lambda>(_, g). map snd (sort_key fst g)) (sort_key fst (es_groups e))))
          (sort_key fst (co_exporters s))))"

definition set_acquired :: "string \<Rightarrow> string option \<Rightarrow> coord \<Rightarrow> coord" where
  "set_acquired name user s =
     (case map_of (co_places s) name of
        None \<Rightarrow> s
      | Some p \<Rightarrow> set_place name (p\<lparr>pl_acquired := user\<rparr>) s)"

definition reservation_allows :: "string \<Rightarrow> nat place \<Rightarrow> coord \<Rightarrow> cerror + unit" where
  "reservation_allows username p s =
     (if truthy (pl_reservation p) then
        (case map_of (co_reservations s) (the (pl_reservation p)) of
           None \<Rightarrow> Inl (Builtin KeyError)
         | Some res \<Rightarrow> if rs_owner res = username then Inr () else Inl (Abort PERMISSION_DENIED))
      else Inr ())"

definition finish_and_schedule ::
  "(nat \<Rightarrow> nat list) \<Rightarrow> (nat \<Rightarrow> nat list) \<Rightarrow> string \<Rightarrow> unit handler" where
  "finish_and_schedule order1 order2 name s =
     (case map_of (co_places s) name of
        None \<Rightarrow> (Inr (), s)
      | Some p \<Rightarrow> schedule_reservations order1 order2 (finish_place name p s))"

definition acquire_place ::
  "(nat \<Rightarrow> nat list) \<Rightarrow> (nat \<Rightarrow> nat list) \<Rightarrow> string \<Rightarrow> string \<Rightarrow> unit handler" where
  "acquire_place order1 order2 peer name s =
     (case map_of (co_clients s) peer of
        None \<Rightarrow> abort FAILED_PRECONDITION s
      | Some client \<Rightarrow>
          (case map_of (co_places s) name of
             None \<Rightarrow> abort INVALID_ARGUMENT s
           | Some p \<Rightarrow>
               if truthy (pl_acquired p) then abort FAILED_PRECONDITION s
               else case reservation_allows (cs_name client) p s of
                 Inl e \<Rightarrow> (Inl e, s)
               | Inr _ \<Rightarrow>
                   (case acquire_resources name (matching_resources p s)
                      (set_acquired name (Some (cs_name client)) s) of
                      (Inl e, t) \<Rightarrow> (Inl e, t)
                    | (Inr False, t) \<Rightarrow> abort FAILED_PRECONDITION (set_acquired name None t)
                    | (Inr True, t) \<Rightarrow> finish_and_schedule order1 order2 name t)))"

definition clear_place :: "string \<Rightarrow> coord \<Rightarrow> coord" where
  "clear_place name s =
     (case map_of (co_places s) name of
        None \<Rightarrow> s
      | Some p \<Rightarrow> set_place name (p\<lparr>pl_acquired := None, pl_allowed := []\<rparr>) s)"

definition release_place ::
  "(nat \<Rightarrow> nat list) \<Rightarrow> (nat \<Rightarrow> nat list) \<Rightarrow> string \<Rightarrow> string option \<Rightarrow> unit handler" where
  "release_place order1 order2 name fromuser =
     with_place name (\<lambda>p s.
       if \<not> truthy (pl_acquired p) then
         (if truthy fromuser then (Inr (), s) else abort FAILED_PRECONDITION s)
       else if truthy fromuser \<and> pl_acquired p \<noteq> fromuser then (Inr (), s)
       else and_then (release_resources (Some name) (pl_acquired_resources p) True s)
         (\<lambda>_ t. finish_and_schedule order1 order2 name (clear_place name t)))"

definition allow_place :: "string \<Rightarrow> string \<Rightarrow> string \<Rightarrow> unit handler" where
  "allow_place peer name user s =
     (case map_of (co_clients s) peer of
        None \<Rightarrow> abort FAILED_PRECONDITION s
      | Some client \<Rightarrow>
          with_place name (\<lambda>p.
            if \<not> truthy (pl_acquired p) then abort FAILED_PRECONDITION
            else if pl_acquired p \<noteq> Some (cs_name client) then abort FAILED_PRECONDITION
            else finish_with name (p\<lparr>pl_allowed := List.insert user (pl_allowed p)\<rparr>)) s)"



section \<open>Synchronising resources\<close>

text \<open>The resources that exporters report as acquired, and those that places hold, by path.\<close>

definition all_resources :: "coord \<Rightarrow> nat list" where
  "all_resources s =
     concat (map (\<lambda>(_, e). concat (map (\<lambda>(_, g). map snd g) (es_groups e))) (co_exporters s))"

definition by_path :: "coord \<Rightarrow> nat list \<Rightarrow> (path, nat) dict" where
  "by_path s rs = fold (\<lambda>r. AList.update (res_path s r) r) rs []"

definition held_resources :: "coord \<Rightarrow> nat list" where
  "held_resources s = concat (map (\<lambda>(_, p). pl_acquired_resources p) (co_places s))"

definition broken_mark :: "string option" where
  "broken_mark = Some ''<broken>''"

text \<open>\<open>self.places.get(resource.acquired)\<close> and the name to find the place by.\<close>

definition acquiring_place :: "coord \<Rightarrow> nat \<Rightarrow> (string \<times> nat place) option" where
  "acquiring_place s r =
     (case res_acquired s r of
        None \<Rightarrow> None
      | Some name \<Rightarrow> (case map_of (co_places s) name of None \<Rightarrow> None | Some p \<Rightarrow> Some (name, p)))"

text \<open>The three loops keep \<open>acquired_resources\<close>; the first two stop at an exception.\<close>

fun sync_release :: "real \<Rightarrow> path list \<Rightarrow> (path, nat) dict \<Rightarrow> (path, nat) dict handler" where
  "sync_release deadline [] acquired s = (Inr acquired, s)"
| "sync_release deadline (path # paths) acquired s =
     (let r = the (map_of acquired path) in
      if deadline \<le> co_mono s then sync_release deadline paths acquired s
      else if res_acquired s r = broken_mark then sync_release deadline paths acquired s
      else
        (case acquiring_place s r of
           Some (name, p) \<Rightarrow>
             if truthy (pl_acquired p) then sync_release deadline paths acquired s
             else (case release_resources (Some name) [r] True s of
                (Inr _, t) \<Rightarrow> sync_release deadline paths (AList.delete path acquired) t
              | (Inl e, t) \<Rightarrow> if e = Cancelled then (Inl e, t) else (Inr acquired, t))
         | None \<Rightarrow>
             (case release_resources None [r] True s of
                (Inr _, t) \<Rightarrow> sync_release deadline paths (AList.delete path acquired) t
              | (Inl e, t) \<Rightarrow> if e = Cancelled then (Inl e, t) else (Inr acquired, t))))"

definition find_resource :: "coord \<Rightarrow> path \<Rightarrow> nat option" where
  "find_resource s path =
     (case path of (exporter, grp, cls, name) \<Rightarrow>
       (case get_exporter_by_name exporter s of
          None \<Rightarrow> None
        | Some (_, e) \<Rightarrow>
            (case map_of (es_groups e) grp of None \<Rightarrow> None | Some g \<Rightarrow> map_of g name)))"

fun sync_acquire ::
  "real \<Rightarrow> (path, nat) dict \<Rightarrow> path list \<Rightarrow> (path, nat) dict \<Rightarrow> (path, nat) dict handler" where
  "sync_acquire deadline orphaned [] acquired s = (Inr acquired, s)"
| "sync_acquire deadline orphaned (path # paths) acquired s =
     (let r = the (map_of orphaned path) in
      if deadline \<le> co_mono s then sync_acquire deadline orphaned paths acquired s
      else if res_acquired s r = broken_mark then sync_acquire deadline orphaned paths acquired s
      else
        (case acquiring_place s r of
           None \<Rightarrow> (Inl (Builtin AssertionError), s)
         | Some (name, p) \<Rightarrow>
             if \<not> truthy (pl_acquired p) then (Inl (Builtin AssertionError), s)
             else (case find_resource s (res_path s r) of
                None \<Rightarrow> sync_acquire deadline orphaned paths acquired s
              | Some new \<Rightarrow>
                  if truthy (res_acquired s new) then sync_acquire deadline orphaned paths acquired s
                  else (case acquire_resource name new s of
                     (Inr _, t) \<Rightarrow>
                       sync_acquire deadline orphaned paths (AList.update (res_path t new) new acquired) t
                   | (Inl e, t) \<Rightarrow> if e = Cancelled then (Inl e, t) else (Inr acquired, t)))))"

fun replace_first :: "'a \<Rightarrow> 'a \<Rightarrow> 'a list \<Rightarrow> 'a list" where
  "replace_first old new [] = []"
| "replace_first old new (x # xs) = (if x = old then new # xs else x # replace_first old new xs)"

definition sync_replace :: "(path, nat) dict \<Rightarrow> (path, nat) dict \<Rightarrow> path \<Rightarrow> unit handler" where
  "sync_replace orphaned acquired path s =
     (let old = the (map_of orphaned path); new = the (map_of acquired path) in
      if res_acquired s old \<noteq> res_acquired s new then (Inl (Builtin AssertionError), s)
      else
        (case acquiring_place s new of
           None \<Rightarrow> (Inl (Builtin AssertionError), s)
         | Some (name, p) \<Rightarrow>
             if \<not> truthy (pl_acquired p) then (Inl (Builtin AssertionError), s)
             else if old \<notin> set (pl_acquired_resources p) then (Inl (Builtin ValueError), s)
             else (Inr (), update_resources name (replace_first old new) s)))"

definition synchronize_resources ::
  "(nat \<Rightarrow> nat list) \<Rightarrow> (nat \<Rightarrow> nat list) \<Rightarrow> (nat \<Rightarrow> nat list) \<Rightarrow> unit handler" where
  "synchronize_resources order1 order2 order3 s =
     (let acquired = by_path s (filter (\<lambda>r. truthy (res_acquired s r)) (all_resources s));
          used = by_path s (filter (\<lambda>r. \<not> ri_orphaned (co_heap s ! r)) (held_resources s));
          orphaned = by_path s (filter (\<lambda>r. ri_orphaned (co_heap s ! r)) (held_resources s));
          deadline = co_mono s + 5;
          to_release = filter (\<lambda>p. p \<notin> set (keys used) \<and> p \<notin> set (keys orphaned)) (keys acquired)
      in and_then (sync_release deadline (reorder order1 to_release) acquired s)
           (\<lambda>acquired1 s1.
              let to_acquire = filter (\<lambda>p. p \<notin> set (keys acquired1)) (keys orphaned)
              in and_then (sync_acquire deadline orphaned (reorder order2 to_acquire) acquired1 s1)
                   (\<lambda>acquired2 s2.
                      let to_replace = filter (\<lambda>p. p \<in> set (keys acquired2)) (keys orphaned)
                      in for_each (sync_replace orphaned acquired2) (reorder order3 to_replace) s2)))"


section \<open>Calls on reservations\<close>

text \<open>The checks of the filters of a request, in the order of the loop.\<close>

fun check_filters :: "(string, (string, string) dict) dict \<Rightarrow> cerror + unit" where
  "check_filters [] = Inr ()"
| "check_filters ((name, fltr) # fltrs) =
     (if name \<noteq> ''main'' then Inl (Abort UNIMPLEMENTED)
      else if \<not> tags_valid fltr then Inl (Abort INVALID_ARGUMENT)
      else check_filters fltrs)"

definition reservation_response :: "string \<Rightarrow> pb_reservation handler" where
  "reservation_response token s =
     (case map_of (co_reservations s) token of
        None \<Rightarrow> (Inl (Builtin KeyError), s)
      | Some r \<Rightarrow> (case reservation_as_pb2 r of Inl e \<Rightarrow> (Inl (Builtin e), s) | Inr m \<Rightarrow> (Inr m, s)))"

text \<open>
  \<open>token\<close> is the random token. The response is built from the object the handler made, which is
  still in the dictionary: a reservation that was just made does not expire.
\<close>

definition create_reservation ::
  "(nat \<Rightarrow> nat list) \<Rightarrow> (nat \<Rightarrow> nat list) \<Rightarrow> string \<Rightarrow> string \<Rightarrow>
   (string, (string, string) dict) dict \<Rightarrow> real \<Rightarrow> pb_reservation handler" where
  "create_reservation order1 order2 token peer filters prio s =
     (case check_filters filters of
        Inl e \<Rightarrow> (Inl e, s)
      | Inr _ \<Rightarrow>
          (case map_of (co_clients s) peer of
             None \<Rightarrow> (Inl (Builtin KeyError), s)
           | Some client \<Rightarrow>
               let r = new_reservation (co_now s) token (cs_name client) prio filters
               in and_then
                    (schedule_reservations order1 order2
                       (s\<lparr>co_reservations := AList.update token r (co_reservations s)\<rparr>))
                    (\<lambda>_. reservation_response token)))"

definition cancel_reservation ::
  "(nat \<Rightarrow> nat list) \<Rightarrow> (nat \<Rightarrow> nat list) \<Rightarrow> string \<Rightarrow> unit handler" where
  "cancel_reservation order1 order2 token s =
     (if token = [] then abort INVALID_ARGUMENT s
      else if token \<notin> set (keys (co_reservations s)) then abort FAILED_PRECONDITION s
      else schedule_reservations order1 order2
        (s\<lparr>co_reservations := AList.delete token (co_reservations s)\<rparr>))"

definition poll_reservation :: "string \<Rightarrow> pb_reservation handler" where
  "poll_reservation token s =
     (case map_of (co_reservations s) token of
        None \<Rightarrow> abort FAILED_PRECONDITION s
      | Some r \<Rightarrow>
          reservation_response token
            (s\<lparr>co_reservations := AList.update token (rs_refresh (co_now s) 60 r) (co_reservations s)\<rparr>))"

fun reservations_pb :: "reservation list \<Rightarrow> py_error + pb_reservation list" where
  "reservations_pb [] = Inr []"
| "reservations_pb (r # rs) =
     (case reservation_as_pb2 r of
        Inl e \<Rightarrow> Inl e
      | Inr m \<Rightarrow> (case reservations_pb rs of Inl e \<Rightarrow> Inl e | Inr ms \<Rightarrow> Inr (m # ms)))"

definition get_reservations :: "pb_reservation list handler" where
  "get_reservations s =
     (case reservations_pb (map snd (co_reservations s)) of
        Inl e \<Rightarrow> (Inl (Builtin e), s)
      | Inr ms \<Rightarrow> (Inr ms, s))"


section \<open>Loading\<close>

definition load_place :: "string \<Rightarrow> saved_place \<Rightarrow> nat place" where
  "load_place name c =
     \<lparr>pl_name = name, pl_aliases = remdups (sv_aliases c), pl_comment = sv_comment c,
      pl_tags = sv_tags c, pl_matches = sv_matches c, pl_acquired = None,
      pl_acquired_resources = [], pl_allowed = [], pl_created = sv_created c,
      pl_changed = sv_changed c, pl_reservation = None\<rparr>"

text \<open>A coordinator that starts: \<open>None\<close> when there is no file.\<close>

definition load :: "(string, saved_place) dict option \<Rightarrow> (string, nat place) dict" where
  "load file = (case file of None \<Rightarrow> [] | Some d \<Rightarrow> map (\<lambda>(name, c). (name, load_place name c)) d)"

definition start_coordinator :: "(string, saved_place) dict option \<Rightarrow> real \<Rightarrow> real \<Rightarrow> coord" where
  "start_coordinator file now clk =
     \<lparr>co_places = load file, co_reservations = [], co_exporters = [], co_clients = [],
      co_heap = [], co_commands = [], co_save_scheduled = False, co_locked = False,
      co_now = now, co_mono = clk, co_script = []\<rparr>"


section \<open>All calls\<close>

datatype request =
    AddPlace string
  | DeletePlace string
  | AddPlaceAlias string string
  | DeletePlaceAlias string string
  | SetPlaceTags string "(string, string) dict"
  | SetPlaceComment string string
  | AddPlaceMatch string string "string option"
  | DeletePlaceMatch string string "string option"
  | AcquirePlace string string
  | ReleasePlace string "string option"
  | AllowPlace string string string
  | CreateReservation string string "(string, (string, string) dict) dict" real
  | CancelReservation string
  | PollReservation string
  | PollSynchronize
  | PollSchedule

definition ignore_result :: "'a handler \<Rightarrow> unit handler" where
  "ignore_result h s = (case h s of (Inl e, t) \<Rightarrow> (Inl e, t) | (Inr _, t) \<Rightarrow> (Inr (), t))"

text \<open>The body of a call, and of the two tasks that \<open>poll\<close> runs under the lock; \<open>o1\<close> to \<open>o3\<close> are set orders.\<close>

fun call_body :: "(nat \<Rightarrow> nat list) \<Rightarrow> (nat \<Rightarrow> nat list) \<Rightarrow> (nat \<Rightarrow> nat list) \<Rightarrow> request \<Rightarrow> unit handler" where
  "call_body o1 o2 o3 (AddPlace n) = add_place n"
| "call_body o1 o2 o3 (DeletePlace n) = delete_place n"
| "call_body o1 o2 o3 (AddPlaceAlias n a) = add_place_alias n a"
| "call_body o1 o2 o3 (DeletePlaceAlias n a) = delete_place_alias n a"
| "call_body o1 o2 o3 (SetPlaceTags n ts) = set_place_tags n ts"
| "call_body o1 o2 o3 (SetPlaceComment n c) = set_place_comment n c"
| "call_body o1 o2 o3 (AddPlaceMatch n p r) = add_place_match n p r"
| "call_body o1 o2 o3 (DeletePlaceMatch n p r) = delete_place_match n p r"
| "call_body o1 o2 o3 (AcquirePlace peer n) = acquire_place o1 o2 peer n"
| "call_body o1 o2 o3 (ReleasePlace n u) = release_place o1 o2 n u"
| "call_body o1 o2 o3 (AllowPlace peer n u) = allow_place peer n u"
| "call_body o1 o2 o3 (CreateReservation token peer fs prio) =
     ignore_result (create_reservation o1 o2 token peer fs prio)"
| "call_body o1 o2 o3 (CancelReservation token) = cancel_reservation o1 o2 token"
| "call_body o1 o2 o3 (PollReservation token) = ignore_result (poll_reservation token)"
| "call_body o1 o2 o3 PollSynchronize = synchronize_resources o1 o2 o3"
| "call_body o1 o2 o3 PollSchedule = schedule_reservations o1 o2"

text \<open>A call under the lock, with the script of what happens while it waits.\<close>

definition handle ::
  "(nat \<Rightarrow> nat list) \<Rightarrow> (nat \<Rightarrow> nat list) \<Rightarrow> (nat \<Rightarrow> nat list) \<Rightarrow> wait_event list \<Rightarrow> request \<Rightarrow> unit handler"
where
  "handle o1 o2 o3 script req s = locked (call_body o1 o2 o3 req) (s\<lparr>co_script := script\<rparr>)"

inductive coord_step :: "coord \<Rightarrow> coord \<Rightarrow> bool" where
  event_step: "coord_step s (deliver e s)"
| request_step: "set_order o1 \<Longrightarrow> set_order o2 \<Longrightarrow> set_order o3 \<Longrightarrow>
    coord_step s (snd (handle o1 o2 o3 script req s))"

end
