(* ===== verification/PyPath.thy ===== *)
theory PyPath
  imports PyLib
begin

text \<open>
  The part of Python's standard library that the configuration uses: \<open>os.path\<close> on POSIX,
  \<open>string.Template\<close>, and the operations on a value whose type is only known when the program
  runs. What the machine answers (environment, home directories, existing files) is a record.
\<close>

section \<open>Paths\<close>

record os =
  os_env :: "(string, string) dict"
  os_home :: "string option"
  os_homes :: "(string, string) dict"
  os_cwd :: string
  os_exists :: "string \<Rightarrow> bool"
  os_str :: "pyval \<Rightarrow> string"

definition rstrip :: "('a \<Rightarrow> bool) \<Rightarrow> 'a list \<Rightarrow> 'a list" where
  "rstrip P xs = rev (dropWhile P (rev xs))"

lemma rstrip_prefix: "\<exists>zs. xs = rstrip P xs @ zs"
  unfolding rstrip_def by (metis rev_append rev_rev_ident takeWhile_dropWhile_id)

lemma rstrip_Nil_iff: "rstrip P xs = [] \<longleftrightarrow> (\<forall>x \<in> set xs. P x)"
  by (simp add: rstrip_def)

lemma rstrip_Cons: "\<exists>y \<in> set (x # xs). \<not> P y \<Longrightarrow> \<exists>zs. rstrip P (x # xs) = x # zs"
  using rstrip_prefix [of "x # xs" P] rstrip_Nil_iff [of P "x # xs"]
  by (cases "rstrip P (x # xs)") auto

definition isabs :: "string \<Rightarrow> bool" where
  "isabs p \<longleftrightarrow> p \<noteq> [] \<and> hd p = CHR ''/''"

lemma isabs_iff: "isabs p \<longleftrightarrow> (\<exists>q. p = CHR ''/'' # q)"
  by (cases p) (auto simp: isabs_def)

definition path_join :: "string \<Rightarrow> string \<Rightarrow> string" where
  "path_join a b =
     (if isabs b then b
      else if a = [] \<or> last a = CHR ''/'' then a @ b
      else a @ ''/'' @ b)"

lemma isabs_path_join: "isabs a \<Longrightarrow> isabs (path_join a b)"
  by (auto simp: path_join_def isabs_iff)

definition dirname :: "string \<Rightarrow> string" where
  "dirname p =
     (let head = rstrip (\<lambda>c. c \<noteq> CHR ''/'') p in
      if \<forall>c \<in> set head. c = CHR ''/'' then head else rstrip (\<lambda>c. c = CHR ''/'') head)"

definition basename :: "string \<Rightarrow> string" where
  "basename p = rev (takeWhile (\<lambda>c. c \<noteq> CHR ''/'') (rev p))"

lemma isabs_dirname: "isabs p \<Longrightarrow> isabs (dirname p)"
proof -
  assume "isabs p"
  then obtain q where "p = CHR ''/'' # q" by (auto simp: isabs_iff)
  then obtain h where h: "rstrip (\<lambda>c. c \<noteq> CHR ''/'') p = CHR ''/'' # h"
    using rstrip_Cons [of "CHR ''/''" q "\<lambda>c. c \<noteq> CHR ''/''"] by auto
  show ?thesis
  proof (cases "\<forall>c \<in> set h. c = CHR ''/''")
    case True
    with h show ?thesis by (simp add: dirname_def isabs_def)
  next
    case False
    then obtain z where "rstrip (\<lambda>c. c = CHR ''/'') (CHR ''/'' # h) = CHR ''/'' # z"
      using rstrip_Cons [of "CHR ''/''" h "\<lambda>c. c = CHR ''/''"] by auto
    with False h show ?thesis by (auto simp: dirname_def isabs_def Let_def)
  qed
qed

text \<open>\<open>normpath\<close>: the components that stay, in reverse order, then the path again.\<close>

fun norm_comps :: "bool \<Rightarrow> string list \<Rightarrow> string list \<Rightarrow> string list" where
  "norm_comps rooted acc [] = rev acc"
| "norm_comps rooted acc (c # cs) =
     (if c = [] \<or> c = ''.'' then norm_comps rooted acc cs
      else if c \<noteq> ''..'' \<or> (\<not> rooted \<and> acc = []) \<or> (acc \<noteq> [] \<and> hd acc = ''..'')
      then norm_comps rooted (c # acc) cs
      else norm_comps rooted (tl acc) cs)"

fun initial_slashes :: "string \<Rightarrow> nat" where
  "initial_slashes p =
     (if \<not> isabs p then 0 else if take 2 p = ''//'' \<and> take 3 p \<noteq> ''///'' then 2 else 1)"

definition normpath :: "string \<Rightarrow> string" where
  "normpath p =
     (if p = [] then ''.''
      else let n = initial_slashes p;
               q = replicate n (CHR ''/'') @
                 join_with ''/'' (norm_comps (n \<noteq> 0) [] (split_on (CHR ''/'') p))
           in if q = [] then ''.'' else q)"

definition abspath :: "os \<Rightarrow> string \<Rightarrow> string" where
  "abspath os p = normpath (if isabs p then p else path_join (os_cwd os) p)"

lemma isabs_abspath: "isabs (os_cwd os) \<Longrightarrow> isabs (abspath os p)"
proof -
  assume "isabs (os_cwd os)"
  then have a: "isabs (if isabs p then p else path_join (os_cwd os) p)" (is "isabs ?q")
    by (simp add: isabs_path_join)
  then have "?q \<noteq> []" "initial_slashes ?q \<in> {1, 2}" by (auto simp: isabs_def)
  then show ?thesis unfolding abspath_def normpath_def Let_def isabs_def
    by (auto simp: numeral_2_eq_2)
qed

text \<open>\<open>expanduser\<close>: a leading \<open>~\<close> or \<open>~user\<close>; an unknown user leaves the path as it is.\<close>

definition expanduser :: "os \<Rightarrow> string \<Rightarrow> string" where
  "expanduser os p =
     (case p of
        [] \<Rightarrow> p
      | c # rest \<Rightarrow>
          (if c \<noteq> CHR ''~'' then p
           else let user = takeWhile (\<lambda>c. c \<noteq> CHR ''/'') rest;
                    tail = dropWhile (\<lambda>c. c \<noteq> CHR ''/'') rest;
                    home = (if user \<noteq> [] then map_of (os_homes os) user
                            else case map_of (os_env os) ''HOME'' of
                              Some h \<Rightarrow> Some h | None \<Rightarrow> os_home os)
                in case home of
                  None \<Rightarrow> p
                | Some h \<Rightarrow>
                    (let q = rstrip (\<lambda>c. c = CHR ''/'') h @ tail in if q = [] then ''/'' else q)))"


section \<open>Variables in strings\<close>

definition is_letter :: "char \<Rightarrow> bool" where
  "is_letter c \<longleftrightarrow> is_lower c \<or> (CHR ''A'' \<le> c \<and> c \<le> CHR ''Z'')"

definition id_start :: "char \<Rightarrow> bool" where
  "id_start c \<longleftrightarrow> is_letter c \<or> c = CHR ''_''"

definition id_char :: "char \<Rightarrow> bool" where
  "id_char c \<longleftrightarrow> id_start c \<or> is_digit c"

text \<open>\<open>expandvars\<close> replaces \<open>$NAME\<close> and \<open>${...}\<close>; variables that are not set stay as they are.\<close>

function expandvars :: "(string, string) dict \<Rightarrow> string \<Rightarrow> string" where
  "expandvars env [] = []"
| "expandvars env (c # s) =
     (if c \<noteq> CHR ''$'' then c # expandvars env s
      else if s \<noteq> [] \<and> id_char (hd s) then
        (let w = takeWhile id_char s in
         (case map_of env w of Some v \<Rightarrow> v | None \<Rightarrow> c # w) @ expandvars env (dropWhile id_char s))
      else if s \<noteq> [] \<and> hd s = CHR ''{'' \<and> CHR ''}'' \<in> set s then
        (let w = takeWhile (\<lambda>c. c \<noteq> CHR ''}'') (tl s) in
         (case map_of env w of Some v \<Rightarrow> v | None \<Rightarrow> ''${'' @ w @ ''}'') @
           expandvars env (tl (dropWhile (\<lambda>c. c \<noteq> CHR ''}'') (tl s))))
      else c # expandvars env s)"
  by pat_completeness auto
termination
proof (relation "measure (length \<circ> snd)"; simp)
  fix s :: string
  show "length (dropWhile id_char s) < Suc (length s)"
    by (simp add: le_imp_less_Suc length_dropWhile_le)
  show "length (dropWhile (\<lambda>c. c \<noteq> CHR ''}'') (tl s)) - Suc 0 < Suc (length s)"
    using length_dropWhile_le [of "\<lambda>c. c \<noteq> CHR ''}''" "tl s"] by simp
qed

text \<open>
  \<open>Template.substitute\<close>: \<open>$$\<close> is a dollar sign, \<open>$name\<close> and \<open>${name}\<close> are looked up, and a \<open>$\<close>
  before anything else is an error. What is wrong first is raised.
\<close>

datatype template_error = UnknownVariable string | InvalidTemplate

fun prepend :: "'a list \<Rightarrow> 'e + 'a list \<Rightarrow> 'e + 'a list" where
  "prepend xs (Inl e) = Inl e"
| "prepend xs (Inr ys) = Inr (xs @ ys)"

function substitute :: "(string, string) dict \<Rightarrow> string \<Rightarrow> template_error + string" where
  "substitute m [] = Inr []"
| "substitute m (c # s) =
     (if c \<noteq> CHR ''$'' then prepend [c] (substitute m s)
      else if s \<noteq> [] \<and> hd s = CHR ''$'' then prepend [c] (substitute m (tl s))
      else if s \<noteq> [] \<and> id_start (hd s) then
        (let w = takeWhile id_char s in
         case map_of m w of
           None \<Rightarrow> Inl (UnknownVariable w)
         | Some v \<Rightarrow> prepend v (substitute m (dropWhile id_char s)))
      else if s \<noteq> [] \<and> hd s = CHR ''{'' \<and> tl s \<noteq> [] \<and> id_start (hd (tl s)) then
        (let w = takeWhile id_char (tl s); rest = dropWhile id_char (tl s) in
         if rest = [] \<or> hd rest \<noteq> CHR ''}'' then Inl InvalidTemplate
         else case map_of m w of
           None \<Rightarrow> Inl (UnknownVariable w)
         | Some v \<Rightarrow> prepend v (substitute m (tl rest)))
      else Inl InvalidTemplate)"
  by pat_completeness auto
termination
proof (relation "measure (length \<circ> snd)"; simp)
  fix s :: string
  show "length (dropWhile id_char s) < Suc (length s)"
    by (simp add: le_imp_less_Suc length_dropWhile_le)
  show "length (dropWhile id_char (tl s)) - Suc 0 < Suc (length s)"
    using length_dropWhile_le [of id_char "tl s"] by simp
qed

lemma substitute_plain: "CHR ''$'' \<notin> set s \<Longrightarrow> substitute m s = Inr s"
  by (induction s) auto


section \<open>Operations on values\<close>

text \<open>\<open>v[k]\<close>, \<open>v.get(k, d)\<close> and \<open>k in v\<close> with a string for the key.\<close>

fun subscript :: "pyval \<Rightarrow> string \<Rightarrow> py_error + pyval" where
  "subscript (VDict d) k = (case map_of d k of Some v \<Rightarrow> Inr v | None \<Rightarrow> Inl KeyError)"
| "subscript _ k = Inl TypeError"

fun get_default :: "pyval \<Rightarrow> string \<Rightarrow> pyval \<Rightarrow> py_error + pyval" where
  "get_default (VDict d) k v = Inr (case map_of d k of Some w \<Rightarrow> w | None \<Rightarrow> v)"
| "get_default _ k v = Inl AttributeError"

fun substring :: "string \<Rightarrow> string \<Rightarrow> bool" where
  "substring k [] = (k = [])"
| "substring k (c # s) = (take (length k) (c # s) = k \<or> substring k s)"

fun contains :: "pyval \<Rightarrow> string \<Rightarrow> py_error + bool" where
  "contains (VDict d) k = Inr (k \<in> set (keys d))"
| "contains (VList xs) k = Inr (list_ex (\<lambda>x. py_eq x (VStr k)) xs)"
| "contains (VStr s) k = Inr (substring k s)"
| "contains _ k = Inl TypeError"

text \<open>\<open>v[k] = w\<close> and \<open>v.setdefault(k, w)\<close>.\<close>

fun assign :: "pyval \<Rightarrow> string \<Rightarrow> pyval \<Rightarrow> py_error + pyval" where
  "assign (VDict d) k w = Inr (VDict (AList.update k w d))"
| "assign _ k w = Inl TypeError"

fun setdefault :: "pyval \<Rightarrow> string \<Rightarrow> pyval \<Rightarrow> py_error + pyval" where
  "setdefault (VDict d) k w = Inr (VDict (dict_setdefault k w d))"
| "setdefault _ k w = Inl AttributeError"

fun item_pairs :: "pyval \<Rightarrow> py_error + (string \<times> pyval) list" where
  "item_pairs (VDict d) = Inr d"
| "item_pairs _ = Inl AttributeError"

text \<open>What iterating over a value yields.\<close>

fun elements :: "pyval \<Rightarrow> py_error + pyval list" where
  "elements (VList xs) = Inr xs"
| "elements (VDict d) = Inr (map (VStr \<circ> fst) d)"
| "elements (VStr s) = Inr (map (\<lambda>c. VStr [c]) s)"
| "elements _ = Inl TypeError"

fun hashable :: "pyval \<Rightarrow> bool" where
  "hashable (VList _) = False"
| "hashable (VDict _) = False"
| "hashable _ = True"

text \<open>\<open>set(v)\<close>, as the list of its elements.\<close>

definition as_set :: "pyval \<Rightarrow> py_error + pyval list" where
  "as_set v = (case elements v of
     Inl e \<Rightarrow> Inl e
   | Inr xs \<Rightarrow> (if list_all hashable xs then Inr (remdups xs) else Inl TypeError))"

text \<open>\<open>str(v)\<close>; how Python writes floats, lists and dictionaries is asked.\<close>

fun str_of :: "os \<Rightarrow> pyval \<Rightarrow> string" where
  "str_of os (VStr s) = s"
| "str_of os (VInt i) = show_int i"
| "str_of os (VBool b) = (if b then ''True'' else ''False'')"
| "str_of os VNone = ''None''"
| "str_of os v = os_str os v"

text \<open>An operation that may raise, followed by another.\<close>

definition and_result :: "'e + 'a \<Rightarrow> ('a \<Rightarrow> 'e + 'b) \<Rightarrow> 'e + 'b" where
  "and_result m k = (case m of Inl e \<Rightarrow> Inl e | Inr a \<Rightarrow> k a)"

lemma and_result_simps [simp, outcome_simps]:
  "and_result (Inl e) k = Inl e"
  "and_result (Inr a) k = k a"
  by (simp_all add: and_result_def)

lemma and_result_Inr: "and_result m k = Inr b \<longleftrightarrow> (\<exists>a. m = Inr a \<and> k a = Inr b)"
  by (cases m) simp_all

text \<open>A list comprehension whose expression may raise.\<close>

fun map_result :: "('a \<Rightarrow> 'e + 'b) \<Rightarrow> 'a list \<Rightarrow> 'e + 'b list" where
  "map_result f [] = Inr []"
| "map_result f (x # xs) =
     and_result (f x) (\<lambda>y. and_result (map_result f xs) (\<lambda>ys. Inr (y # ys)))"

lemma map_result_Inr:
  "map_result f xs = Inr ys \<longleftrightarrow> list_all2 (\<lambda>x y. f x = Inr y) xs ys"
  by (induction xs arbitrary: ys) (auto simp: and_result_Inr list_all2_Cons1)

lemma map_result_pure: "(\<And>x. x \<in> set xs \<Longrightarrow> f x = Inr (g x)) \<Longrightarrow> map_result f xs = Inr (map g xs)"
  by (induction xs) simp_all

end
