(* ===== verification/Client.thy ===== *)
theory Client
  imports CoordHandlers PyPath
begin

text \<open>
  \<open>ClientSession\<close> of \<^verbatim>\<open>labgrid/remote/client.py\<close>: the copy of the coordinator's resources and places
  that a client keeps, the message pump that updates it, and the synchronisation with the
  coordinator. What the pump receives is a list; what it queues is a list too.
\<close>

section \<open>State\<close>

text \<open>
  The dictionary of a \<open>ResourceEntry\<close>: any of its keys may be missing, since a deletion replaces it
  by an empty one.
\<close>

record entry_data =
  ed_cls :: "string option"
  ed_params :: "(string \<times> pyval) list option"
  ed_acquired :: "string option option"
  ed_avail :: "bool option"

definition empty_data :: entry_data where
  "empty_data = \<lparr>ed_cls = None, ed_params = None, ed_acquired = None, ed_avail = None\<rparr>"

definition data_of :: "raw_data \<Rightarrow> entry_data" where
  "data_of d =
     \<lparr>ed_cls = Some (raw_cls d), ed_params = Some (raw_params d), ed_acquired = raw_acquired d,
      ed_avail = raw_avail d\<rparr>"

text \<open>\<open>ResourceEntry(data)\<close> adds the keys \<open>acquired\<close> and \<open>avail\<close>.\<close>

definition new_entry :: "entry_data \<Rightarrow> entry_data" where
  "new_entry d =
     d\<lparr>ed_acquired := Some (case ed_acquired d of None \<Rightarrow> None | Some a \<Rightarrow> a),
       ed_avail := Some (case ed_avail d of None \<Rightarrow> False | Some b \<Rightarrow> b)\<rparr>"

definition key_of :: "'a option \<Rightarrow> py_error + 'a" where
  "key_of x = (case x of None \<Rightarrow> Inl KeyError | Some a \<Rightarrow> Inr a)"

type_synonym resource_map = "(string, (string, (string, entry_data) dict) dict) dict"

datatype client_in =
    InStartup string
  | InSubscribePlaces
  | InSubscribeResources
  | InSync int
  | InEnd

text \<open>
  \<open>se_sync\<close> are the identifiers in \<open>sync_events\<close>, \<open>se_set\<close> those whose event was set.
\<close>

record session =
  se_resources :: resource_map
  se_places :: "(string, path place) dict"
  se_next :: int
  se_sync :: "int list"
  se_set :: "int list"
  se_stopping :: bool
  se_running :: bool
  se_out :: "client_in list"

definition new_session :: session where
  "new_session =
     \<lparr>se_resources = [], se_places = [], se_next = 1, se_sync = [], se_set = [],
      se_stopping = False, se_running = False, se_out = []\<rparr>"

text \<open>What an update carries over the wire, and what the pump receives.\<close>

datatype wire_update =
    WireResource string string string pb_resource
  | WireDelResource string string string
  | WirePlace pb_place
  | WireDelPlace string
  | WireUnknown

datatype received = Message "wire_update list" "int option" | RpcError | Ended

type_synonym 'a in_session = "session \<Rightarrow> (py_error, 'a, session) outcome"


section \<open>Updates\<close>

definition lookup_group :: "resource_map \<Rightarrow> string \<Rightarrow> string \<Rightarrow> (string, entry_data) dict" where
  "lookup_group m exporter grp =
     (case map_of m exporter of
        None \<Rightarrow> []
      | Some gs \<Rightarrow> (case map_of gs grp of None \<Rightarrow> [] | Some g \<Rightarrow> g))"

definition put_group :: "string \<Rightarrow> string \<Rightarrow> (string, entry_data) dict \<Rightarrow> resource_map \<Rightarrow> resource_map" where
  "put_group exporter grp g m =
     AList.update exporter
       (AList.update grp g (case map_of m exporter of None \<Rightarrow> [] | Some gs \<Rightarrow> gs)) m"

text \<open>An entry that is there gets new data, which is stored as it is.\<close>

definition on_resource_changed :: "string \<Rightarrow> string \<Rightarrow> string \<Rightarrow> entry_data \<Rightarrow> session \<Rightarrow> session" where
  "on_resource_changed exporter grp name d s =
     (let g = lookup_group (se_resources s) exporter grp;
          g' = AList.update name (if name \<in> set (keys g) then d else new_entry d) g
      in s\<lparr>se_resources := put_group exporter grp g' (se_resources s)\<rparr>)"

definition on_place_changed :: "pb_place \<Rightarrow> unit in_session" where
  "on_place_changed m s =
     (let name = pbp_name m in
      case (case map_of (se_places s) name of
              None \<Rightarrow> place_from_pb2 m
            | Some p \<Rightarrow> place_update_from_pb2 m p) of
        Inl e \<Rightarrow> (Inl e, s)
      | Inr p \<Rightarrow> (Inr (), s\<lparr>se_places := AList.update name p (se_places s)\<rparr>))"

definition on_place_deleted :: "string \<Rightarrow> unit in_session" where
  "on_place_deleted name s =
     (if name \<in> set (keys (se_places s))
      then (Inr (), s\<lparr>se_places := AList.delete name (se_places s)\<rparr>)
      else (Inl KeyError, s))"

fun on_update :: "wire_update \<Rightarrow> unit in_session" where
  "on_update (WireResource exporter grp name m) s =
     (Inr (), on_resource_changed exporter grp name (data_of (resource_data_from_pb2 m)) s)"
| "on_update (WireDelResource exporter grp name) s =
     (Inr (), on_resource_changed exporter grp name empty_data s)"
| "on_update (WirePlace m) s = on_place_changed m s"
| "on_update (WireDelPlace name) s = on_place_deleted name s"
| "on_update WireUnknown s = (Inr (), s)"

definition on_sync :: "int option \<Rightarrow> unit in_session" where
  "on_sync sync s =
     (case sync of
        None \<Rightarrow> (Inr (), s)
      | Some n \<Rightarrow>
          (if n \<in> set (se_sync s)
           then (Inr (), s\<lparr>se_sync := remove1 n (se_sync s), se_set := n # se_set s\<rparr>)
           else (Inl KeyError, s)))"


section \<open>The pump\<close>

text \<open>\<open>cancel_pending_syncs\<close> asserts that the session is stopping.\<close>

definition cancel_pending_syncs :: "unit in_session" where
  "cancel_pending_syncs s =
     (if \<not> se_stopping s then (Inl AssertionError, s)
      else (Inr (), s\<lparr>se_sync := [], se_set := se_sync s @ se_set s\<rparr>))"

text \<open>The \<open>finally\<close> block.\<close>

definition finish_pump :: "session \<Rightarrow> session" where
  "finish_pump s =
     snd (cancel_pending_syncs
       (s\<lparr>se_stopping := True, se_running := False, se_out := se_out s @ [InEnd]\<rparr>))"

definition pump_one :: "received \<Rightarrow> session \<Rightarrow> session" where
  "pump_one r s =
     (if \<not> se_running s then s
      else case r of
        Message us sync \<Rightarrow>
          (case and_then (for_each on_update us s) (\<lambda>_. on_sync sync) of
             (Inl e, t) \<Rightarrow> finish_pump t
           | (Inr _, t) \<Rightarrow> t)
      | _ \<Rightarrow> finish_pump s)"

definition pump :: "received list \<Rightarrow> session \<Rightarrow> session" where
  "pump rs s = fold pump_one rs s"

definition begin_sync :: "session \<Rightarrow> int \<times> session" where
  "begin_sync s =
     (se_next s,
      s\<lparr>se_next := se_next s + 1, se_sync := se_sync s @ [se_next s], se_out := se_out s @ [InSync (se_next s)]\<rparr>)"

text \<open>\<open>start\<close> up to the wait for the first synchronisation, and what it ends with.\<close>

definition start_session :: "string \<Rightarrow> session \<Rightarrow> int \<times> session" where
  "start_session name s =
     begin_sync (s\<lparr>se_resources := [], se_places := [], se_running := True,
       se_out := se_out s @ [InStartup name, InSubscribePlaces, InSubscribeResources]\<rparr>)"

definition started :: "session \<Rightarrow> bool" where
  "started s \<longleftrightarrow> \<not> se_stopping s"

text \<open>\<open>stop\<close>: a running pump is cancelled, which runs its \<open>finally\<close> block.\<close>

definition stop_session :: "unit in_session" where
  "stop_session s =
     (let t = s\<lparr>se_out := se_out s @ [InEnd]\<rparr>;
          u = (if se_running t then finish_pump t else t)
      in cancel_pending_syncs u)"


section \<open>Every synchronisation ends\<close>

lemma finish_pump_simps [simp]:
  "se_stopping (finish_pump s)" "\<not> se_running (finish_pump s)" "se_sync (finish_pump s) = []"
  "se_set (finish_pump s) = se_sync s @ se_set s" "se_next (finish_pump s) = se_next s"
  by (simp_all add: finish_pump_def cancel_pending_syncs_def)

text \<open>Updates of the copy leave the synchronisation alone.\<close>

definition same_sync :: "session \<Rightarrow> session \<Rightarrow> bool" where
  "same_sync s t \<longleftrightarrow> se_sync t = se_sync s \<and> se_set t = se_set s \<and> se_running t = se_running s \<and>
     se_stopping t = se_stopping s \<and> se_next t = se_next s"

lemma on_update_same_sync: "same_sync s (snd (on_update u s))"
  by (cases u)
    (simp_all add: same_sync_def on_resource_changed_def on_place_changed_def on_place_deleted_def Let_def
      split: sum.split option.split)

lemma same_sync_trans: "same_sync s t \<Longrightarrow> same_sync t u \<Longrightarrow> same_sync s u"
  by (simp add: same_sync_def)

lemma updates_same_sync: "same_sync s (snd (for_each on_update us s))"
proof (rule for_each_keeps [where P = "same_sync s"])
  show "same_sync s s" by (simp add: same_sync_def)
  show "same_sync s (snd (on_update u t))" if "same_sync s t" for u t
    using that on_update_same_sync by (rule same_sync_trans)
qed

lemma message_sync:
  assumes "fst (for_each on_update us s) = Inr ()" and "se_running s"
  shows "pump_one (Message us sync) s =
    (let t = snd (for_each on_update us s) in
     case on_sync sync t of (Inl e, u) \<Rightarrow> finish_pump u | (Inr _, u) \<Rightarrow> u)"
  using assms by (cases "for_each on_update us s") (simp add: pump_one_def)

lemma pump_one_set:
  assumes "n \<in> set (se_set s)"
  shows "n \<in> set (se_set (pump_one r s))"
proof -
  have "n \<in> set (se_set (snd (and_then (for_each on_update us s) (\<lambda>_. on_sync sync))))" for us sync
    by (rule and_then_keeps [where P = "\<lambda>t. n \<in> set (se_set t)"])
      (use updates_same_sync [of s us] assms in \<open>auto simp: same_sync_def on_sync_def split: option.split\<close>)
  then show ?thesis using assms
    by (auto simp: pump_one_def split: received.split prod.split sum.split) (metis snd_conv)+
qed

lemma pump_set: "n \<in> set (se_set s) \<Longrightarrow> n \<in> set (se_set (pump rs s))"
  unfolding pump_def by (induction rs arbitrary: s) (simp_all add: pump_one_set)

text \<open>One thing received: an event that is waited for is set, or still waited for while the pump runs.\<close>

lemma pump_one_waiting:
  assumes "n \<in> set (se_sync s)" and "se_running s"
  shows "n \<in> set (se_set (pump_one r s)) \<or>
    n \<in> set (se_sync (pump_one r s)) \<and> se_running (pump_one r s) \<and> (\<forall>us. r \<noteq> Message us (Some n))"
proof (cases r)
  case (Message us sync)
  let ?t = "snd (for_each on_update us s)"
  have t: "same_sync s ?t" by (rule updates_same_sync)
  show ?thesis
  proof (cases "fst (for_each on_update us s)")
    case (Inl e)
    then have "pump_one r s = finish_pump ?t"
      using assms(2) Message by (cases "for_each on_update us s") (simp add: pump_one_def)
    with assms t show ?thesis by (simp add: same_sync_def)
  next
    case (Inr v)
    then have "pump_one r s = (case on_sync sync ?t of (Inl e, u) \<Rightarrow> finish_pump u | (Inr _, u) \<Rightarrow> u)"
      using message_sync [of us s sync] assms(2) Message by (simp add: Let_def)
    with assms t Message show ?thesis
      by (cases sync) (auto simp: on_sync_def same_sync_def)
  qed
qed (use assms in \<open>simp_all add: pump_one_def\<close>)

lemma pump_waiting:
  assumes "n \<in> set (se_sync s)" and "se_running s"
    and "(\<exists>us. Message us (Some n) \<in> set rs) \<or> \<not> se_running (pump rs s)"
  shows "n \<in> set (se_set (pump rs s))"
  using assms
proof (induction rs arbitrary: s)
  case Nil
  then show ?case by (simp add: pump_def)
next
  case (Cons r rs)
  have step: "pump (r # rs) s = pump rs (pump_one r s)" by (simp add: pump_def)
  consider "n \<in> set (se_set (pump_one r s))"
    | "n \<in> set (se_sync (pump_one r s))" "se_running (pump_one r s)" "\<forall>us. r \<noteq> Message us (Some n)"
    using pump_one_waiting [OF Cons.prems(1,2)] by blast
  then show ?case
  proof cases
    case 1
    then show ?thesis unfolding step by (rule pump_set)
  next
    case 2
    with Cons.prems(3) have "(\<exists>us. Message us (Some n) \<in> set rs) \<or> \<not> se_running (pump rs (pump_one r s))"
      unfolding step by auto
    then show ?thesis unfolding step by (rule Cons.IH [OF 2(1,2)])
  qed
qed

text \<open>
  C22. A synchronisation that a client begins while its pump runs ends: when the pump receives the answer
  of the coordinator, or when the pump ends for whatever reason, its event is set.
\<close>

theorem synchronisation_ends:
  assumes "begin_sync s = (n, t)" and "se_running s"
    and "(\<exists>us. Message us (Some n) \<in> set rs) \<or> \<not> se_running (pump rs t)"
  shows "n \<in> set (se_set (pump rs t))"
proof -
  have t: "n \<in> set (se_sync t)" "se_running t"
    using assms(1,2) by (auto simp: begin_sync_def)
  show ?thesis by (rule pump_waiting [OF t assms(3)])
qed

theorem synchronisation_ends_witness:
  "2 \<in> set (se_set (pump [Message [] (Some 1), RpcError]
     (snd (begin_sync (snd (start_session ''h/u'' new_session))))))"
proof (rule synchronisation_ends)
  show "begin_sync (snd (start_session ''h/u'' new_session)) =
    (2, snd (begin_sync (snd (start_session ''h/u'' new_session))))"
    by (simp add: begin_sync_def start_session_def new_session_def)
  show "se_running (snd (start_session ''h/u'' new_session))"
    by (simp add: begin_sync_def start_session_def)
  show "(\<exists>us. Message us (Some 2) \<in> set [Message [] (Some 1), RpcError]) \<or>
    \<not> se_running (pump [Message [] (Some 1), RpcError] (snd (begin_sync (snd (start_session ''h/u'' new_session)))))"
  proof (rule disjI2)
    show "\<not> se_running (pump [Message [] (Some 1), RpcError]
        (snd (begin_sync (snd (start_session ''h/u'' new_session)))))" by code_simp
  qed
qed

text \<open>After the pump has ended, nothing sets the event of a new synchronisation but \<open>stop\<close>.\<close>

lemma late_synchronisation_waits:
  "\<not> se_running s \<Longrightarrow> begin_sync s = (n, t) \<Longrightarrow> n \<in> set (se_sync (pump rs t))"
proof -
  assume s: "\<not> se_running s" and b: "begin_sync s = (n, t)"
  have "pump rs u = u" if "\<not> se_running u" for u
    unfolding pump_def using that by (induction rs arbitrary: u) (simp_all add: pump_one_def)
  with s b show ?thesis by (auto simp: begin_sync_def)
qed

end
