(* ===== verification/CoordInv.thy ===== *)
theory CoordInv
  imports CoordHandlers
begin

text \<open>
  What the coordinator keeps in every reachable state: the sessions refer to resources that carry
  their names in the path, and no resource path is held by two places or twice by one. The events
  that can happen while a handler waits leave places and reservations alone.
\<close>

section \<open>The invariant\<close>

text \<open>Every resource of a session exists and its path starts with exporter and group.\<close>

definition entry_ok :: "resource_import list \<Rightarrow> string \<Rightarrow> string \<Rightarrow> string \<Rightarrow> nat \<Rightarrow> bool" where
  "entry_ok heap exporter grp name r \<longleftrightarrow>
     r < length heap \<and> (\<exists>cls. ri_path (heap ! r) = (exporter, grp, cls, name))"

definition group_ok :: "resource_import list \<Rightarrow> string \<Rightarrow> string \<Rightarrow> (string, nat) dict \<Rightarrow> bool" where
  "group_ok heap exporter grp g \<longleftrightarrow> dict_wf g \<and> dict.every (entry_ok heap exporter grp) g"

definition session_ok :: "resource_import list \<Rightarrow> exporter_session \<Rightarrow> bool" where
  "session_ok heap e \<longleftrightarrow>
     dict_wf (es_groups e) \<and> dict.every (group_ok heap (es_name e)) (es_groups e)"

definition names_distinct :: "(string, exporter_session) dict \<Rightarrow> bool" where
  "names_distinct es \<longleftrightarrow>
     (\<forall>p p' e e'. map_of es p = Some e \<longrightarrow> map_of es p' = Some e' \<longrightarrow> es_name e = es_name e' \<longrightarrow> p = p')"

definition sessions_ok :: "coord \<Rightarrow> bool" where
  "sessions_ok s \<longleftrightarrow> dict_wf (co_exporters s) \<and> names_distinct (co_exporters s) \<and>
     dict.every (\<lambda>_. session_ok (co_heap s)) (co_exporters s)"

text \<open>The resources that places hold exist, and their paths are pairwise different.\<close>

definition held_ok :: "resource_import list \<Rightarrow> nat place \<Rightarrow> bool" where
  "held_ok heap p \<longleftrightarrow>
     set (pl_acquired_resources p) \<subseteq> {..<length heap} \<and>
     distinct (map (\<lambda>r. ri_path (heap ! r)) (pl_acquired_resources p))"

definition held_paths :: "resource_import list \<Rightarrow> nat place \<Rightarrow> path set" where
  "held_paths heap p = (\<lambda>r. ri_path (heap ! r)) ` set (pl_acquired_resources p)"

definition exclusive_paths :: "resource_import list \<Rightarrow> (string, nat place) dict \<Rightarrow> bool" where
  "exclusive_paths heap ps \<longleftrightarrow>
     dict.every (\<lambda>_. held_ok heap) ps \<and>
     (\<forall>n n' p p'. n \<noteq> n' \<longrightarrow> map_of ps n = Some p \<longrightarrow> map_of ps n' = Some p' \<longrightarrow>
        held_paths heap p \<inter> held_paths heap p' = {})"

definition coord_inv :: "coord \<Rightarrow> bool" where
  "coord_inv s \<longleftrightarrow>
     sessions_ok s \<and> places_ok (co_places s) \<and> exclusive_paths (co_heap s) (co_places s)"

text \<open>Resources are only added to the heap, and their paths never change.\<close>

definition heap_ext :: "resource_import list \<Rightarrow> resource_import list \<Rightarrow> bool" where
  "heap_ext h h' \<longleftrightarrow> length h \<le> length h' \<and> (\<forall>r < length h. ri_path (h' ! r) = ri_path (h ! r))"

lemma heap_ext_refl [simp, intro]: "heap_ext h h"
  by (simp add: heap_ext_def)

lemma heap_ext_trans: "heap_ext h h' \<Longrightarrow> heap_ext h' h'' \<Longrightarrow> heap_ext h h''"
  by (simp add: heap_ext_def)

lemma entry_ok_ext: "entry_ok h ex grp name r \<Longrightarrow> heap_ext h h' \<Longrightarrow> entry_ok h' ex grp name r"
  by (auto simp: entry_ok_def heap_ext_def)

lemma group_ok_ext: "group_ok h ex grp g \<Longrightarrow> heap_ext h h' \<Longrightarrow> group_ok h' ex grp g"
  unfolding group_ok_def by (blast intro: dict.every_mono entry_ok_ext)

lemma session_ok_ext: "session_ok h e \<Longrightarrow> heap_ext h h' \<Longrightarrow> session_ok h' e"
  unfolding session_ok_def by (blast intro: dict.every_mono group_ok_ext)

lemma session_ok_cong:
  "es_name e' = es_name e \<Longrightarrow> es_groups e' = es_groups e \<Longrightarrow> session_ok h e' = session_ok h e"
  by (simp add: session_ok_def)

lemma held_ext:
  assumes "heap_ext h h'" and "held_ok h p"
  shows "held_ok h' p" and "held_paths h' p = held_paths h p"
proof -
  have same: "map (\<lambda>r. ri_path (h' ! r)) (pl_acquired_resources p) =
      map (\<lambda>r. ri_path (h ! r)) (pl_acquired_resources p)"
    using assms by (auto simp: heap_ext_def held_ok_def)
  have "set (pl_acquired_resources p) \<subseteq> {..<length h'}"
    using assms by (force simp: heap_ext_def held_ok_def)
  with assms(2) same show "held_ok h' p" by (simp only: held_ok_def)
  show "held_paths h' p = held_paths h p"
    unfolding held_paths_def using arg_cong [OF same, of set] by simp
qed

lemma exclusive_pathsD: "exclusive_paths h ps \<Longrightarrow> map_of ps n = Some p \<Longrightarrow> held_ok h p"
  unfolding exclusive_paths_def by (blast dest: dict.every_get)

lemma exclusive_paths_disjoint:
  "exclusive_paths h ps \<Longrightarrow> n \<noteq> n' \<Longrightarrow> map_of ps n = Some p \<Longrightarrow> map_of ps n' = Some p' \<Longrightarrow>
   held_paths h p \<inter> held_paths h p' = {}"
  unfolding exclusive_paths_def by blast

lemma exclusive_paths_ext:
  assumes "exclusive_paths h ps" and "heap_ext h h'"
  shows "exclusive_paths h' ps"
  unfolding exclusive_paths_def
proof (intro conjI allI impI)
  show "dict.every (\<lambda>_. held_ok h') ps"
    unfolding dict.every_def
    using held_ext(1) [OF assms(2)] exclusive_pathsD [OF assms(1)] by blast
  fix n n' p p' assume n: "n \<noteq> n'" "map_of ps n = Some p" "map_of ps n' = Some p'"
  have "held_paths h' p = held_paths h p" "held_paths h' p' = held_paths h p'"
    using held_ext(2) [OF assms(2)] exclusive_pathsD [OF assms(1)] n(2,3) by blast+
  with exclusive_paths_disjoint [OF assms(1) n] show "held_paths h' p \<inter> held_paths h' p' = {}" by simp
qed

lemma exclusive_paths_update:
  assumes "exclusive_paths h ps" and "held_ok h p'"
    and "\<And>n' q. n' \<noteq> n \<Longrightarrow> map_of ps n' = Some q \<Longrightarrow> held_paths h p' \<inter> held_paths h q = {}"
  shows "exclusive_paths h (AList.update n p' ps)"
proof -
  have "dict.every (\<lambda>_. held_ok h) (AList.update n p' ps)"
    using assms(1,2) by (simp add: exclusive_paths_def dict.every_put)
  moreover have "held_paths h q \<inter> held_paths h q' = {}"
    if "m \<noteq> m'" "map_of (AList.update n p' ps) m = Some q" "map_of (AList.update n p' ps) m' = Some q'"
    for m m' q q'
  proof (cases "m = n")
    case True
    with that assms(3) [of m' q'] show ?thesis by simp
  next
    case m: False
    show ?thesis
    proof (cases "m' = n")
      case True
      with that m assms(3) [of m q] show ?thesis by (simp add: Int_commute)
    next
      case False
      with that m assms(1) show ?thesis unfolding exclusive_paths_def by simp
    qed
  qed
  ultimately show ?thesis unfolding exclusive_paths_def by blast
qed

text \<open>A change of a place that takes no new resource.\<close>

lemma exclusive_paths_shrink:
  assumes "exclusive_paths h ps" and "map_of ps n = Some p" and "held_ok h p'"
    and "held_paths h p' \<subseteq> held_paths h p"
  shows "exclusive_paths h (AList.update n p' ps)"
proof (rule exclusive_paths_update [OF assms(1,3)])
  fix n' q assume "n' \<noteq> n" "map_of ps n' = Some q"
  with assms(1,2) have "held_paths h p \<inter> held_paths h q = {}" unfolding exclusive_paths_def by metis
  with assms(4) show "held_paths h p' \<inter> held_paths h q = {}" by blast
qed

lemma exclusive_paths_delete: "exclusive_paths h ps \<Longrightarrow> exclusive_paths h (AList.delete n ps)"
  unfolding exclusive_paths_def by (auto intro: dict.every_del)

lemma held_empty: "pl_acquired_resources p = [] \<Longrightarrow> held_ok h p \<and> held_paths h p = {}"
  by (simp add: held_ok_def held_paths_def)

lemma held_same:
  "pl_acquired_resources p' = pl_acquired_resources p \<Longrightarrow>
   held_ok h p' = held_ok h p \<and> held_paths h p' = held_paths h p"
  by (simp add: held_ok_def held_paths_def)


section \<open>What a wait leaves alone\<close>

text \<open>The part of the state that only the holder of the lock changes.\<close>

definition wait_frame :: "coord \<Rightarrow> coord \<Rightarrow> bool" where
  "wait_frame s t \<longleftrightarrow> co_places t = co_places s \<and> co_reservations t = co_reservations s \<and>
     co_locked t = co_locked s \<and> heap_ext (co_heap s) (co_heap t)"

lemma wait_frame_refl [simp, intro]: "wait_frame s s"
  by (simp add: wait_frame_def)

lemma wait_frame_trans: "wait_frame s t \<Longrightarrow> wait_frame t u \<Longrightarrow> wait_frame s u"
  unfolding wait_frame_def by (auto intro: heap_ext_trans)

text \<open>An invariant step of the sessions.\<close>

definition good_step :: "coord \<Rightarrow> coord \<Rightarrow> bool" where
  "good_step s t \<longleftrightarrow> (sessions_ok s \<longrightarrow> wait_frame s t \<and> sessions_ok t)"

lemma good_step_refl [simp, intro]: "good_step s s"
  by (simp add: good_step_def)

lemma good_step_trans: "good_step s t \<Longrightarrow> good_step t u \<Longrightarrow> good_step s u"
  unfolding good_step_def using wait_frame_trans by blast

lemma good_step_inv: "good_step s t \<Longrightarrow> coord_inv s \<Longrightarrow> coord_inv t"
  unfolding good_step_def coord_inv_def wait_frame_def using exclusive_paths_ext by metis

text \<open>A change of anything but exporters, heap, places, reservations and the lock.\<close>

definition quiet :: "coord \<Rightarrow> coord \<Rightarrow> bool" where
  "quiet s t \<longleftrightarrow> co_places t = co_places s \<and> co_reservations t = co_reservations s \<and>
     co_locked t = co_locked s \<and> co_heap t = co_heap s \<and> co_exporters t = co_exporters s"

lemma quiet_good: "quiet s t \<Longrightarrow> good_step s t"
  by (simp add: quiet_def good_step_def wait_frame_def sessions_ok_def)

lemma quiet_trans: "quiet s t \<Longrightarrow> quiet t u \<Longrightarrow> quiet s u"
  by (simp add: quiet_def)

lemma quiet_refl [simp]: "quiet s s"
  by (simp add: quiet_def)

lemma quiet_ops [simp]:
  "quiet s (broadcast msg s)" "quiet s (save_later s)" "quiet s (publish_place p s)"
  "quiet s (publish_resource r s)" "quiet s (send_client peer msg s)"
  "quiet s (s\<lparr>co_script := ws\<rparr>)" "quiet s (s\<lparr>co_commands := cs\<rparr>)" "quiet s (expire_command c s)"
  "quiet s (complete_command c b x s)" "quiet s (subscribe_places peer s)"
  "quiet s (client_startup peer name s)" "quiet s (client_disconnect peer s)"
  by (simp_all add: quiet_def broadcast_def save_later_def publish_place_def publish_resource_def
      send_client_def expire_command_def complete_command_def subscribe_places_def
      client_startup_def client_disconnect_def split: option.split prod.split)

lemma quiet_send: "quiet s t \<Longrightarrow> quiet s (send_client peer msg t)"
  by (rule quiet_trans [OF _ quiet_ops(5)])

lemma quiet_sends: "quiet s t \<Longrightarrow> quiet s (fold (\<lambda>x. send_client peer (OutUpdates x)) xs t)"
  by (induction xs arbitrary: t) (simp_all add: quiet_send)

lemma quiet_subscribe: "quiet s (client_subscribe peer a b s)"
  by (simp add: client_subscribe_def subscribe_resources_def Let_def quiet_sends)



section \<open>Events\<close>

lemma names_distinct_update:
  assumes "names_distinct es" and "\<And>p e'. p \<noteq> peer \<Longrightarrow> map_of es p = Some e' \<Longrightarrow> es_name e' \<noteq> es_name e"
  shows "names_distinct (AList.update peer e es)"
  unfolding names_distinct_def
proof (intro allI impI)
  fix p p' f f'
  assume f: "map_of (AList.update peer e es) p = Some f" "map_of (AList.update peer e es) p' = Some f'"
    "es_name f = es_name f'"
  show "p = p'"
  proof (cases "p = peer"; cases "p' = peer")
    assume "p = peer" "p' \<noteq> peer"
    with f assms(2) [of p' f'] show ?thesis by simp
  next
    assume "p \<noteq> peer" "p' = peer"
    with f assms(2) [of p f] show ?thesis by simp
  next
    assume "p \<noteq> peer" "p' \<noteq> peer"
    with f assms(1) show ?thesis unfolding names_distinct_def by simp
  qed simp
qed

text \<open>A session is put back with the same name and groups that are still right.\<close>

lemma sessions_ok_put:
  assumes "sessions_ok s" and "map_of (co_exporters s) peer = Some e" and "es_name e' = es_name e"
    and "session_ok (co_heap s) e'"
  shows "sessions_ok (put_exporter peer e' s)"
proof -
  have "names_distinct (AList.update peer e' (co_exporters s))"
  proof (rule names_distinct_update)
    show "names_distinct (co_exporters s)" using assms(1) by (simp add: sessions_ok_def)
    fix p f assume "p \<noteq> peer" "map_of (co_exporters s) p = Some f"
    with assms(1,2,3) show "es_name f \<noteq> es_name e'"
      unfolding sessions_ok_def names_distinct_def by metis
  qed
  with assms(1,4) show ?thesis
    by (simp add: sessions_ok_def put_exporter_def dict.every_put)
qed

lemma sessions_okD: "sessions_ok s \<Longrightarrow> map_of (co_exporters s) peer = Some e \<Longrightarrow> session_ok (co_heap s) e"
  unfolding sessions_ok_def by (blast dest: dict.every_get)

lemma put_exporter_frame [simp]:
  "co_places (put_exporter peer e s) = co_places s"
  "co_reservations (put_exporter peer e s) = co_reservations s"
  "co_locked (put_exporter peer e s) = co_locked s"
  "co_heap (put_exporter peer e s) = co_heap s"
  "co_commands (put_exporter peer e s) = co_commands s"
  by (simp_all add: put_exporter_def)

lemma put_exporter_good:
  assumes "map_of (co_exporters s) peer = Some e" and "es_name e' = es_name e"
    and "es_groups e' = es_groups e"
  shows "good_step s (put_exporter peer e' s)"
  unfolding good_step_def
proof
  assume ok: "sessions_ok s"
  have "session_ok (co_heap s) e'"
    using sessions_okD [OF ok assms(1)] session_ok_cong [OF assms(2,3)] by simp
  with ok assms show "wait_frame s (put_exporter peer e' s) \<and> sessions_ok (put_exporter peer e' s)"
    using sessions_ok_put [OF ok assms(1,2)] by (simp add: wait_frame_def)
qed

lemma group_ok_empty: "group_ok h ex grp []"
  by (simp add: group_ok_def dict.every_def)

lemma session_ok_setdefault:
  "session_ok h e \<Longrightarrow> session_ok h (e\<lparr>es_groups := dict_setdefault grp [] (es_groups e)\<rparr>)"
  by (auto simp: session_ok_def dict_setdefault_def dict.every_put group_ok_empty split: option.splits)

lemma session_ok_set_group:
  "session_ok h e \<Longrightarrow> group_ok h (es_name e) grp g \<Longrightarrow> session_ok h (set_group grp g e)"
  by (simp add: session_ok_def set_group_def dict.every_put)

lemma heap_ext_set: "ri_path x = ri_path (h ! r) \<Longrightarrow> heap_ext h (h[r := x])"
proof -
  assume "ri_path x = ri_path (h ! r)"
  then have "ri_path (h[r := x] ! i) = ri_path (h ! i)" if "i < length h" for i
    using that by (cases "i = r") simp_all
  then show ?thesis by (simp add: heap_ext_def)
qed

lemma heap_ext_append: "heap_ext h (h @ xs)"
  by (simp add: heap_ext_def nth_append)

text \<open>All that \<open>set_resource\<close> does to a correct session.\<close>

definition session_step :: "exporter_session \<Rightarrow> coord \<Rightarrow> exporter_session \<Rightarrow> coord \<Rightarrow> bool" where
  "session_step e s e' t \<longleftrightarrow>
     session_ok (co_heap t) e' \<and> es_name e' = es_name e \<and> heap_ext (co_heap s) (co_heap t) \<and>
     co_places t = co_places s \<and> co_reservations t = co_reservations s \<and>
     co_locked t = co_locked s \<and> co_exporters t = co_exporters s"

lemma session_stepI:
  assumes "session_ok (co_heap t) e'" and "es_name e' = es_name e"
    and "heap_ext (co_heap s) (co_heap t)" and "co_places t = co_places s"
    and "co_reservations t = co_reservations s" and "co_locked t = co_locked s"
    and "co_exporters t = co_exporters s" and "quiet t u"
  shows "session_step e s e' u"
  using assms by (simp add: session_step_def quiet_def)

lemma set_group_name [simp]: "es_name (set_group grp g e) = es_name e"
  by (simp add: set_group_def)

lemma set_resource_step:
  assumes "session_ok (co_heap s) e" and "set_resource grp name m e s = (Inr (a, e'), t)"
  shows "session_step e s e' t"
proof -
  let ?e1 = "e\<lparr>es_groups := dict_setdefault grp [] (es_groups e)\<rparr>"
  let ?g = "the (map_of (es_groups ?e1) grp)"
  have ok1: "session_ok (co_heap s) ?e1" by (rule session_ok_setdefault [OF assms(1)])
  obtain g where g: "map_of (es_groups ?e1) grp = Some g"
    by (cases "map_of (es_groups e) grp") auto
  have "dict.every (group_ok (co_heap s) (es_name e)) (es_groups ?e1)"
    using ok1 by (simp add: session_ok_def)
  from dict.every_get [OF this g] have gok: "group_ok (co_heap s) (es_name e) grp g" .
  have key: "?g = g" using g by simp
  show ?thesis
  proof (cases m)
    case (Some pb)
    let ?d = "resource_entry_init (resource_data_from_pb2 pb)"
    show ?thesis
    proof (cases "map_of g name")
      case (Some old)
      let ?t = "set_data old ?d s"
      have ext: "heap_ext (co_heap s) (co_heap ?t)" by (simp add: set_data_def heap_ext_set)
      have "e' = ?e1" "t = broadcast (OutUpdates [UpdResource (es_name e) grp name ?d]) ?t"
        using assms(2) \<open>m = Some pb\<close> Some key by (simp_all add: set_resource_def Let_def)
      then show ?thesis
        using session_ok_ext [OF ok1 ext] ext
        by (intro session_stepI [of ?t]) (simp_all add: set_data_def)
    next
      case None
      let ?new = "\<lparr>ri_data = ?d, ri_path = (es_name e, grp, pbr_cls pb, name), ri_orphaned = False\<rparr>"
      let ?t = "s\<lparr>co_heap := co_heap s @ [?new]\<rparr>"
      let ?g' = "AList.update name (length (co_heap s)) g"
      have ext: "heap_ext (co_heap s) (co_heap ?t)" by (simp add: heap_ext_append)
      have "entry_ok (co_heap ?t) (es_name e) grp name (length (co_heap s))"
        by (simp add: entry_ok_def)
      then have "group_ok (co_heap ?t) (es_name e) grp ?g'"
        using group_ok_ext [OF gok ext] by (simp add: group_ok_def dict.every_put)
      then have "session_ok (co_heap ?t) (set_group grp ?g' ?e1)"
        using session_ok_ext [OF ok1 ext] by (intro session_ok_set_group) simp_all
      moreover have "e' = set_group grp ?g' ?e1"
        "t = broadcast (OutUpdates [UpdResource (es_name e) grp name ?d]) ?t"
        using assms(2) \<open>m = Some pb\<close> None key by (simp_all add: set_resource_def Let_def)
      ultimately show ?thesis using ext by (intro session_stepI [of ?t]) simp_all
    qed
  next
    case None
    then obtain old where old: "map_of g name = Some old"
      using assms(2) key by (cases "map_of g name") (simp_all add: set_resource_def Let_def)
    let ?t = "if truthy (res_acquired s old) then mark_orphaned old s else s"
    have ext: "heap_ext (co_heap s) (co_heap ?t)" by (simp add: mark_orphaned_def heap_ext_set)
    have "group_ok (co_heap ?t) (es_name e) grp (AList.delete name g)"
      using group_ok_ext [OF gok ext] by (simp add: group_ok_def dict.every_del)
    then have "session_ok (co_heap ?t) (set_group grp (AList.delete name g) ?e1)"
      using session_ok_ext [OF ok1 ext] by (intro session_ok_set_group) simp_all
    moreover have "e' = set_group grp (AList.delete name g) ?e1"
      "t = broadcast (OutUpdates [UpdDelResource (es_name e) grp name]) ?t"
      using assms(2) None old key by (simp_all add: set_resource_def Let_def)
    ultimately show ?thesis
      using ext by (intro session_stepI [of ?t]) (simp_all add: mark_orphaned_def)
  qed
qed

lemma set_resource_error: "set_resource grp name m e s = (Inl x, t) \<Longrightarrow> t = s"
  by (auto simp: set_resource_def Let_def split: option.splits)


lemma session_step_put:
  assumes "sessions_ok s" and "map_of (co_exporters s) peer = Some e" and "session_step e s e' t"
    and "es_name e'' = es_name e'" and "es_groups e'' = es_groups e'"
  shows "wait_frame s (put_exporter peer e'' t) \<and> sessions_ok (put_exporter peer e'' t)"
proof -
  have st: "session_ok (co_heap t) e'" "es_name e' = es_name e" "heap_ext (co_heap s) (co_heap t)"
    "co_places t = co_places s" "co_reservations t = co_reservations s" "co_locked t = co_locked s"
    "co_exporters t = co_exporters s"
    using assms(3) by (simp_all add: session_step_def)
  have "sessions_ok t"
    using assms(1) st(3,7) unfolding sessions_ok_def by (auto intro: dict.every_mono session_ok_ext)
  moreover have "session_ok (co_heap t) e''" using st(1) session_ok_cong [OF assms(4,5)] by simp
  ultimately have "sessions_ok (put_exporter peer e'' t)"
    using assms(2,4) st(2,7) by (intro sessions_ok_put [of t peer e]) simp_all
  with st show ?thesis by (simp add: wait_frame_def)
qed

lemma get_exporter_None:
  "get_exporter_by_name name s = None \<Longrightarrow> map_of (co_exporters s) p = Some e \<Longrightarrow> es_name e \<noteq> name"
  unfolding get_exporter_by_name_def find_None_iff by (auto dest: map_of_SomeD)

lemma get_exporter_Some:
  "get_exporter_by_name name s = Some (p, e) \<Longrightarrow> sessions_ok s \<Longrightarrow>
   map_of (co_exporters s) p = Some e \<and> es_name e = name"
  unfolding get_exporter_by_name_def sessions_ok_def
  by (auto dest: find_SomeD simp: map_of_is_SomeI)

lemma startup_good: "good_step s (exporter_startup peer name s)"
proof (cases "get_exporter_by_name name s")
  case (Some x)
  then show ?thesis
    using put_exporter_good [of s peer]
    by (auto simp: exporter_startup_def split: option.split)
next
  case None
  let ?new = "\<lambda>e. put_exporter peer e s"
  have put: "sessions_ok s \<Longrightarrow> wait_frame s (?new e) \<and> sessions_ok (?new e)"
    if "es_name e = name" "es_groups e = []" for e
  proof -
    assume ok: "sessions_ok s"
    have "names_distinct (AList.update peer e (co_exporters s))"
      using ok get_exporter_None [OF None] that(1)
      by (intro names_distinct_update) (auto simp: sessions_ok_def)
    moreover have "session_ok (co_heap s) e" using that(2) by (simp add: session_ok_def dict.every_def)
    ultimately show "wait_frame s (?new e) \<and> sessions_ok (?new e)"
      using ok by (simp add: sessions_ok_def wait_frame_def put_exporter_def dict.every_put)
  qed
  then show ?thesis
    using None by (auto simp: exporter_startup_def good_step_def split: option.split)
qed

lemma drop_resources_step:
  "session_ok (co_heap s) e \<Longrightarrow> fold drop_resource xs (e, s) = (e', t) \<Longrightarrow> session_step e s e' t"
proof (induction xs arbitrary: e s)
  case Nil
  then show ?case by (simp add: session_step_def)
next
  case (Cons x xs)
  obtain e1 s1 where d: "drop_resource x (e, s) = (e1, s1)" by (cases "drop_resource x (e, s)")
  have one: "session_step e s e1 s1"
  proof (cases "set_resource (fst x) (snd x) None e s")
    case (Pair r u)
    show ?thesis
    proof (cases r)
      case (Inl err)
      with Pair d set_resource_error [of "fst x" "snd x" None e s err u] Cons.prems(1)
      show ?thesis by (simp add: drop_resource_def session_step_def)
    next
      case (Inr ae)
      with Pair d set_resource_step [OF Cons.prems(1), of "fst x" "snd x" None "fst ae" "snd ae" u]
      show ?thesis by (cases ae) (simp add: drop_resource_def)
    qed
  qed
  then have "session_step e1 s1 e' t"
    using Cons.IH [of s1 e1] Cons.prems(2) d by (simp add: session_step_def)
  with one show ?case unfolding session_step_def by (auto intro: heap_ext_trans)
qed

lemma names_distinct_delete: "names_distinct es \<Longrightarrow> names_distinct (AList.delete peer es)"
  unfolding names_distinct_def by simp

lemma disconnect_good:
  assumes "map_of (co_exporters s) peer = Some e"
  shows "good_step s (exporter_disconnect peer e s)"
proof (cases "es_rx e")
  case RxRunning
  let ?s = "s\<lparr>co_exporters := AList.delete peer (co_exporters s)\<rparr>"
  obtain e' t where d: "fold drop_resource (session_resources e) (e, ?s) = (e', t)"
    by (cases "fold drop_resource (session_resources e) (e, ?s)")
  have "wait_frame s t \<and> sessions_ok t" if ok: "sessions_ok s"
  proof -
    have "session_ok (co_heap ?s) e" using sessions_okD [OF ok assms] by simp
    from drop_resources_step [OF this d] have st: "session_step e ?s e' t" .
    have "sessions_ok ?s"
      using ok by (simp add: sessions_ok_def names_distinct_delete dict.every_del)
    with st have "sessions_ok t"
      unfolding sessions_ok_def session_step_def by (auto intro: dict.every_mono session_ok_ext)
    with st show ?thesis by (simp add: session_step_def wait_frame_def)
  qed
  with d RxRunning show ?thesis by (simp add: exporter_disconnect_def good_step_def)
next
  case (RxWaiting grp)
  then show ?thesis using assms by (simp add: exporter_disconnect_def put_exporter_good)
next
  case RxDead
  then show ?thesis by (simp add: exporter_disconnect_def)
qed

lemma add_default_place_inv: "coord_inv s \<Longrightarrow> coord_inv (add_default_place name s)"
proof -
  assume inv: "coord_inv s"
  let ?p = "(new_place (co_now s) name)\<lparr>pl_matches := [\<lparr>rm_exporter = ''*'', rm_group = name,
    rm_cls = ''*'', rm_name = None, rm_rename = None\<rparr>]\<rparr> :: nat place"
  have "pl_acquired_resources ?p = []" "pl_name ?p = name" by (simp_all add: new_place_def)
  then have "exclusive_paths (co_heap s) (AList.update name ?p (co_places s))"
    "places_ok (AList.update name ?p (co_places s))"
    using inv held_empty [of ?p]
    by (auto simp: coord_inv_def places_ok_def dict.every_put intro!: exclusive_paths_update)
  with inv show ?thesis
    by (simp add: add_default_place_def set_place_def coord_inv_def sessions_ok_def)
qed

lemma quiet_inv: "quiet s t \<Longrightarrow> coord_inv s \<Longrightarrow> coord_inv t"
  using good_step_inv quiet_good by blast

lemma save_later_inv: "coord_inv s \<Longrightarrow> coord_inv (save_later s)"
  by (rule quiet_inv [OF quiet_ops(2)])

lemma save_later_good: "good_step s t \<Longrightarrow> good_step s (save_later t)"
  by (rule good_step_trans [OF _ quiet_good [OF quiet_ops(2)]])

lemma resource_good:
  assumes "map_of (co_exporters s) peer = Some e"
  shows "co_locked s \<Longrightarrow> good_step s (exporter_resource peer grp name m e s)"
    and "coord_inv s \<Longrightarrow> coord_inv (exporter_resource peer grp name m e s)"
proof -
  obtain r t where r: "set_resource grp name (Some m) e s = (r, t)"
    by (cases "set_resource grp name (Some m) e s")
  obtain a e1 where "r = Inr (a, e1)"
    using r by (cases r) (auto simp: set_resource_def Let_def split: option.splits)
  with r have sr: "set_resource grp name (Some m) e s = (Inr (a, e1), t)" by simp
  have put: "good_step s (put_exporter peer e2 t)"
    if "es_name e2 = es_name e1" "es_groups e2 = es_groups e1" for e2
    unfolding good_step_def
  proof
    assume ok: "sessions_ok s"
    from session_step_put [OF ok assms set_resource_step [OF sessions_okD [OF ok assms] sr] that]
    show "wait_frame s (put_exporter peer e2 t) \<and> sessions_ok (put_exporter peer e2 t)" .
  qed
  show "co_locked s \<Longrightarrow> good_step s (exporter_resource peer grp name m e s)"
    using put by (auto simp: exporter_resource_def sr intro!: save_later_good)
  show "coord_inv (exporter_resource peer grp name m e s)" if inv: "coord_inv s"
    using good_step_inv [OF put inv]
    by (auto simp: exporter_resource_def sr intro!: save_later_inv add_default_place_inv)
qed

lemma response_good:
  assumes "map_of (co_exporters s) peer = Some e"
  shows "good_step s (exporter_response peer success reason e s)"
proof (cases "es_pending e")
  case Nil
  then show ?thesis by (simp add: exporter_response_def put_exporter_good [OF assms])
next
  case (Cons c cs)
  let ?t = "put_exporter peer (e\<lparr>es_pending := cs\<rparr>) s"
  have "good_step s ?t" by (rule put_exporter_good [OF assms]) simp_all
  then have "good_step s (complete_command c success reason ?t)"
    by (rule good_step_trans [OF _ quiet_good [OF quiet_ops(9)]])
  with Cons show ?thesis by (simp add: exporter_response_def)
qed

lemma send_good:
  assumes "map_of (co_exporters s) peer = Some e"
  shows "good_step s (exporter_send peer e s)"
  using put_exporter_good [OF assms] by (auto simp: exporter_send_def split: list.split)

lemma resume_good:
  assumes "map_of (co_exporters s) peer = Some e"
  shows "co_locked s \<Longrightarrow> good_step s (resume_reader peer e s)"
    and "coord_inv s \<Longrightarrow> coord_inv (resume_reader peer e s)"
proof -
  show "co_locked s \<Longrightarrow> good_step s (resume_reader peer e s)"
    by (simp add: resume_reader_def split: rx_state.split)
  show "coord_inv (resume_reader peer e s)" if inv: "coord_inv s"
    using good_step_inv [OF put_exporter_good [OF assms] inv] inv
    by (auto simp: resume_reader_def split: rx_state.split intro!: save_later_inv add_default_place_inv)
qed

lemma quiet_events [simp]:
  "quiet s (snd (save s))" "quiet s (s\<lparr>co_now := now, co_mono := clk\<rparr>)"
  by (simp_all add: quiet_def save_def)

text \<open>While a handler holds the lock an event leaves places and reservations alone.\<close>

lemma deliver_good: "co_locked s \<Longrightarrow> good_step s (deliver e s)"
  by (cases e)
    (auto simp: on_exporter_def reading_def startup_good resource_good response_good send_good
      resume_good disconnect_good quiet_good quiet_subscribe split: option.split)

lemma deliver_inv: "coord_inv s \<Longrightarrow> coord_inv (deliver e s)"
  by (cases e)
    (auto simp: on_exporter_def reading_def resource_good resume_good
      good_step_inv [OF startup_good] good_step_inv [OF response_good] good_step_inv [OF send_good]
      good_step_inv [OF disconnect_good]
      intro: quiet_inv [OF quiet_subscribe] quiet_inv [OF quiet_ops(5)] quiet_inv [OF quiet_ops(11)]
        quiet_inv [OF quiet_ops(12)] quiet_inv [OF quiet_events(1)] quiet_inv [OF quiet_events(2)]
      split: option.split)



section \<open>Commands\<close>

lemma good_step_locked: "good_step s t \<Longrightarrow> sessions_ok s \<Longrightarrow> co_locked t = co_locked s \<and> sessions_ok t"
  by (simp add: good_step_def wait_frame_def)

text \<open>A step under the lock that keeps places and reservations.\<close>

definition held_step :: "coord \<Rightarrow> coord \<Rightarrow> bool" where
  "held_step s t \<longleftrightarrow> (co_locked s \<longrightarrow> good_step s t)"

lemma held_step_trans: "held_step s t \<Longrightarrow> held_step t u \<Longrightarrow> held_step s u"
  unfolding held_step_def good_step_def using wait_frame_trans by (auto simp: wait_frame_def)

lemma held_step_refl [simp, intro]: "held_step s s"
  by (simp add: held_step_def)

lemma held_step_quiet: "quiet s t \<Longrightarrow> held_step s t"
  by (simp add: held_step_def quiet_good)

lemma held_step_deliver: "held_step s (deliver e s)"
  by (simp add: held_step_def deliver_good)

lemma held_step_snd: "m = (r, t) \<Longrightarrow> held_step s (snd m) \<Longrightarrow> held_step s t"
  by simp

lemma quiet_end [simp]: "quiet s (expire_command c (s\<lparr>co_script := ws\<rparr>))"
  by (simp add: quiet_def expire_command_def)

lemma wait_command_held: "held_step s (snd (wait_command c ws s))"
proof (induction c ws s rule: wait_command.induct)
  case (1 c s)
  then show ?case by (simp add: held_step_quiet)
next
  case (2 c w ws s)
  show ?case
  proof (cases "ec_response (co_commands s ! c) \<noteq> None")
    case True
    then show ?thesis by (simp add: held_step_quiet)
  next
    case False
    show ?thesis
    proof (cases w)
      case (WEvent e)
      with False 2 held_step_trans [OF held_step_deliver] show ?thesis by simp
    qed (use False in \<open>simp_all add: held_step_quiet\<close>)
  qed
qed

text \<open>A command that returns was answered with success.\<close>

lemma run_command_held: "held_step s (snd (run_command r pn s))"
proof -
  obtain ex grp cls name where p: "res_path s r = (ex, grp, cls, name)" by (metis prod.exhaust)
  show ?thesis
  proof (cases "get_exporter_by_name ex s")
    case None
    with p show ?thesis by (simp add: run_command_def)
  next
    case (Some pe)
    obtain peer e where pe: "pe = (peer, e)" by (cases pe)
    let ?c = "length (co_commands s)"
    let ?cmd = "\<lparr>ec_group = grp, ec_resource = name, ec_place = pn, ec_response = None, ec_expired = False\<rparr>"
    let ?s0 = "s\<lparr>co_commands := co_commands s @ [?cmd]\<rparr>"
    let ?s1 = "put_exporter peer (e\<lparr>es_queue := es_queue e @ [?c]\<rparr>) ?s0"
    have "good_step s ?s1"
    proof -
      have "sessions_ok s \<Longrightarrow> map_of (co_exporters ?s0) peer = Some e"
        using get_exporter_Some [OF Some [unfolded pe]] by simp
      then have "sessions_ok s \<Longrightarrow> good_step ?s0 ?s1" by (intro put_exporter_good) simp_all
      then show ?thesis
        using good_step_trans [OF quiet_good [OF quiet_ops(7)]] by (auto simp: good_step_def)
    qed
    then have s1: "held_step s ?s1" by (simp add: held_step_def)
    obtain res t where w: "wait_command ?c (co_script ?s1) ?s1 = (res, t)"
      by (cases "wait_command ?c (co_script ?s1) ?s1")
    have "held_step s t"
      using held_step_trans [OF s1 wait_command_held [of ?s1 ?c "co_script ?s1"]] w by simp
    moreover have "snd (run_command r pn s) = t"
      using p Some pe w
      by (cases res) (auto simp: run_command_def Let_def split: option.split bool.split)
    ultimately show ?thesis by simp
  qed
qed

lemma acquire_all_held: "held_step s (snd (snd (acquire_all name rs acquired s)))"
proof (induction name rs acquired s rule: acquire_all.induct)
  case (1 name acquired s)
  then show ?case by simp
next
  case (2 name r rs acquired s)
  obtain res t where m: "acquire_resource name r s = (res, t)" by (cases "acquire_resource name r s")
  have t: "held_step s t"
    using run_command_held [of s r "Some name"] m by (simp add: acquire_resource_def)
  show ?case
  proof (cases res)
    case (Inl e)
    with m t show ?thesis by simp
  next
    case (Inr u)
    with 2 [OF m [symmetric] Inr] m held_step_trans [OF t] show ?thesis by simp
  qed
qed

lemma release_one_held: "held_step s (snd (release_one cb r s))"
proof -
  obtain res t where m: "run_command r None s = (res, t)" by (cases "run_command r None s")
  have t: "held_step s t" using run_command_held [of s r None] m by simp
  have "held_step s (publish_resource r t)"
    by (rule held_step_trans [OF t held_step_quiet]) simp
  with m t show ?thesis by (cases res) (simp_all add: release_one_def)
qed

lemma release_loop_held: "held_step s (snd (for_each (release_one cb) rs s))"
  by (rule for_each_keeps [of "held_step s"]) (auto intro: held_step_trans [OF _ release_one_held])



section \<open>Scheduling changes no place's resources\<close>

definition same_held :: "(string, nat place) dict \<Rightarrow> (string, nat place) dict \<Rightarrow> bool" where
  "same_held ps ps' \<longleftrightarrow> keys ps' = keys ps \<and>
     (\<forall>n p'. map_of ps' n = Some p' \<longrightarrow>
        (\<exists>p x. map_of ps n = Some p \<and> p' = p\<lparr>pl_reservation := x\<rparr>))"

lemma same_held_refl [simp]: "same_held ps ps"
proof -
  have "p = p\<lparr>pl_reservation := pl_reservation p\<rparr>" for p :: "nat place" by simp
  then show ?thesis unfolding same_held_def by blast
qed

lemma same_held_trans: "same_held a b \<Longrightarrow> same_held b c \<Longrightarrow> same_held a c"
  unfolding same_held_def by (fastforce simp: place.update_convs)

lemma same_heldD:
  "same_held ps ps' \<Longrightarrow> map_of ps' n = Some p' \<Longrightarrow>
   \<exists>p x. map_of ps n = Some p \<and> p' = p\<lparr>pl_reservation := x\<rparr>"
  unfolding same_held_def by blast

lemma same_held_fwd:
  assumes "same_held ps ps'" and "map_of ps n = Some p"
  shows "\<exists>x. map_of ps' n = Some (p\<lparr>pl_reservation := x\<rparr>)"
proof -
  have "n \<in> set (keys ps)" using assms(2) unfolding in_keys_iff by blast
  then have "n \<in> set (keys ps')" using assms(1) by (simp add: same_held_def)
  then obtain p' where "map_of ps' n = Some p'" unfolding in_keys_iff by blast
  with same_heldD [OF assms(1) this] assms(2) show ?thesis by auto
qed

lemma same_held_update:
  assumes "map_of ps n = Some p" and "p' = p\<lparr>pl_reservation := x\<rparr>"
  shows "same_held ps (AList.update n p' ps)"
proof -
  have "n \<in> fst ` set ps" using assms(1) by (auto dest: map_of_SomeD intro: rev_image_eqI)
  then have "keys (AList.update n p' ps) = keys ps" by (rule update_present_keys)
  moreover have "\<exists>p x. map_of ps m = Some p \<and> q = p\<lparr>pl_reservation := x\<rparr>"
    if "map_of (AList.update n p' ps) m = Some q" for m q
    using that assms same_heldD [OF same_held_refl, of ps m q] by (auto split: if_splits)
  ultimately show ?thesis by (simp add: same_held_def)
qed

lemma same_held_exclusive:
  assumes "same_held ps ps'" and "exclusive_paths h ps"
  shows "exclusive_paths h ps'"
  unfolding exclusive_paths_def
proof (intro conjI allI impI)
  show "dict.every (\<lambda>_. held_ok h) ps'"
    unfolding dict.every_def
  proof (intro allI impI)
    fix n p' assume "map_of ps' n = Some p'"
    with assms(1) obtain p where "map_of ps n = Some p"
      "pl_acquired_resources p' = pl_acquired_resources p" by (auto dest!: same_heldD)
    with exclusive_pathsD [OF assms(2)] held_same show "held_ok h p'" by blast
  qed
  fix n n' p p' assume n: "n \<noteq> n'" and "map_of ps' n = Some p" "map_of ps' n' = Some p'"
  with assms(1) obtain q q' where q: "map_of ps n = Some q" "map_of ps n' = Some q'"
    "pl_acquired_resources p = pl_acquired_resources q"
    "pl_acquired_resources p' = pl_acquired_resources q'"
    by (fastforce dest!: same_heldD [OF assms(1)])
  from exclusive_paths_disjoint [OF assms(2) n q(1,2)] q(3,4)
  show "held_paths h p \<inter> held_paths h p' = {}" by (simp add: held_paths_def)
qed

lemma same_held_places_ok:
  assumes "same_held ps ps'" and "places_ok ps"
  shows "places_ok ps'"
proof -
  have "dict_wf ps'" using assms by (simp add: same_held_def places_ok_def)
  moreover have "pl_name p' = n" if "map_of ps' n = Some p'" for n p'
    using same_heldD [OF assms(1) that] assms(2) unfolding places_ok_def dict.every_def by auto
  ultimately show ?thesis by (simp add: places_ok_def dict.every_def)
qed

text \<open>The state after scheduling differs in reservations, places' reservations and clients only.\<close>

definition schedule_frame :: "coord \<Rightarrow> coord \<Rightarrow> bool" where
  "schedule_frame s t \<longleftrightarrow> same_held (co_places s) (co_places t) \<and> co_heap t = co_heap s \<and>
     co_exporters t = co_exporters s \<and> co_locked t = co_locked s"

lemma schedule_frame_quiet: "schedule_frame s t \<Longrightarrow> quiet t u \<Longrightarrow> schedule_frame s u"
  by (simp add: schedule_frame_def quiet_def)

lemma schedule_frame_inv: "schedule_frame s t \<Longrightarrow> coord_inv s \<Longrightarrow> coord_inv t"
  unfolding schedule_frame_def coord_inv_def sessions_ok_def
  using same_held_exclusive same_held_places_ok by auto

lemma copy_place_same: "same_held ps (snd st) \<Longrightarrow> same_held ps (snd (snd (copy_place token n st)))"
proof -
  assume s: "same_held ps (snd st)"
  have "same_held ps (AList.update n (p\<lparr>pl_reservation := Some token\<rparr>) (snd st))"
    if "map_of (snd st) n = Some p" for p
    by (rule same_held_trans [OF s same_held_update [OF that refl]])
  with s show ?thesis by (simp add: copy_place_def Let_def split: option.split)
qed

lemma copy_allocation_same:
  "same_held ps (snd st) \<Longrightarrow> same_held ps (snd (snd (copy_allocation r st)))"
proof -
  assume s: "same_held ps (snd st)"
  let ?P = "\<lambda>st :: (string, string) dict \<times> (string, nat place) dict. same_held ps (snd st)"
  have inner: "?P (snd (for_each (copy_place (rs_token r)) ns t))" if "?P t" for ns t
    by (rule for_each_keeps [of ?P, OF that]) (rule copy_place_same)
  have "?P (snd (for_each (for_each (copy_place (rs_token r))) nss st))" for nss
    by (rule for_each_keeps [of ?P, OF s]) (rule inner)
  with s show ?thesis by (simp add: copy_allocation_def)
qed

lemma map_of_clear: "map_of (map (\<lambda>(k, p). (k, f p)) ps) n = map_option f (map_of ps n)"
  by (simp add: map_of_map)

lemma update_places_frame: "schedule_frame s (snd (update_places order s))"
proof -
  let ?clear = "\<lambda>p. p\<lparr>pl_reservation := None\<rparr>" and ?ps = "co_places s"
  let ?cleared = "map (\<lambda>(k, p). (k, ?clear p)) ?ps"
  let ?P = "\<lambda>st :: (string, string) dict \<times> (string, nat place) dict. same_held ?ps (snd st)"
  have "same_held ?ps ?cleared"
    unfolding same_held_def map_of_clear by (auto simp: case_prod_beta')
  then have run: "?P (snd (for_each copy_allocation rs ([], ?cleared)))" for rs
    by (intro for_each_keeps [of ?P]) (simp_all add: copy_allocation_same)
  let ?run = "for_each copy_allocation (map snd (co_reservations s)) ([], ?cleared)"
  obtain r nm ps where e: "?run = (r, nm, ps)" by (metis prod.exhaust)
  with run [of "map snd (co_reservations s)"] have "same_held ?ps ps" by simp
  then have base: "schedule_frame s (s\<lparr>co_places := ps\<rparr>)" by (simp add: schedule_frame_def)
  have step: "schedule_frame s (snd (publish_changed old new n t))" if "schedule_frame s t" for old new n t
    using that schedule_frame_quiet [OF that quiet_ops(3)]
    by (auto simp: publish_changed_def split: option.split)
  have "schedule_frame s (snd (for_each (publish_changed old new) ns (s\<lparr>co_places := ps\<rparr>)))" for old new ns
    by (rule for_each_keeps [of "schedule_frame s", OF base]) (rule step)
  with e base show ?thesis by (cases r) (simp_all add: update_places_def Let_def lift_stage_def)
qed

lemma lift_stage_keeps:
  assumes "\<And>t. P (put t)" and "\<And>t. P (snd (k t))"
  shows "P (snd (lift_stage m put k))"
proof -
  obtain r t where m: "m = (r, t)" by (cases m)
  with assms show ?thesis by (cases r) (simp_all add: lift_stage_def)
qed

lemma schedule_reservations_frame: "schedule_frame s (snd (schedule_reservations o1 o2 s))"
proof -
  have base: "schedule_frame s (s\<lparr>co_reservations := rs\<rparr>)" for rs by (simp add: schedule_frame_def)
  have up: "schedule_frame s (snd (update_places o2 (s\<lparr>co_reservations := rs\<rparr>)))" for rs
    using update_places_frame [of "s\<lparr>co_reservations := rs\<rparr>" o2] by (simp add: schedule_frame_def)
  have applied: "schedule_frame s (snd (lift_stage m (\<lambda>rs. s\<lparr>co_reservations := rs\<rparr>)
      (\<lambda>rs. update_places o2 (s\<lparr>co_reservations := rs\<rparr>))))" for m
    by (rule lift_stage_keeps) (rule base, rule up)
  have case_frame: "schedule_frame s (snd (case x of Inl e \<Rightarrow> (f e, s\<lparr>co_reservations := rs\<rparr>) | Inr y \<Rightarrow> g y))"
    if "\<And>y. schedule_frame s (snd (g y))" for x f g rs
    using that base by (cases x) simp_all
  have stage: "schedule_frame s (snd (let s2 = s\<lparr>co_reservations := fst st\<rparr>; available = available_places (co_places s)
      in if list_ex (\<lambda>n. n \<in> set (snd st)) available then (Inl (Builtin AssertionError), s2)
         else case filter_tagsets (pending_reservations (fst st)) of
           Inl e \<Rightarrow> (Inl (Builtin e), s2)
         | Inr filters \<Rightarrow>
             (case schedule (map (place_tagset (co_places s)) (reorder o1 available)) filters of
                Inl e \<Rightarrow> (Inl (Builtin e), s2)
              | Inr allocation \<Rightarrow>
                  lift_stage (for_each (apply_allocation (co_now s)) allocation (fst st))
                    (\<lambda>rs3. s2\<lparr>co_reservations := rs3\<rparr>)
                    (\<lambda>rs3. update_places o2 (s2\<lparr>co_reservations := rs3\<rparr>)))))" for st
    unfolding Let_def using base by (simp add: applied case_frame)
  show ?thesis
    unfolding schedule_reservations_def Let_def
    by (rule lift_stage_keeps) (use base stage in \<open>simp_all add: Let_def case_prod_beta\<close>)
qed



section \<open>Handlers keep the invariant\<close>

definition locked_inv :: "coord \<Rightarrow> bool" where
  "locked_inv s \<longleftrightarrow> coord_inv s \<and> co_locked s"

definition keeps_inv :: "'a handler \<Rightarrow> bool" where
  "keeps_inv h \<longleftrightarrow> (\<forall>s. locked_inv s \<longrightarrow> locked_inv (snd (h s)))"

lemma keeps_invD: "keeps_inv h \<Longrightarrow> locked_inv s \<Longrightarrow> locked_inv (snd (h s))"
  by (simp add: keeps_inv_def)

lemma locked_inv_quiet: "locked_inv s \<Longrightarrow> quiet s t \<Longrightarrow> locked_inv t"
  unfolding locked_inv_def using quiet_inv by (auto simp: quiet_def)

lemma locked_inv_ops [intro]:
  "locked_inv s \<Longrightarrow> locked_inv (save_later s)" "locked_inv s \<Longrightarrow> locked_inv (broadcast msg s)"
  "locked_inv s \<Longrightarrow> locked_inv (publish_place p s)" "locked_inv s \<Longrightarrow> locked_inv (publish_resource r s)"
  by (erule locked_inv_quiet, simp)+

lemma locked_inv_held: "locked_inv s \<Longrightarrow> held_step s t \<Longrightarrow> locked_inv t"
  unfolding locked_inv_def held_step_def
  using good_step_inv by (auto simp: coord_inv_def good_step_def wait_frame_def)

lemma locked_inv_schedule: "locked_inv s \<Longrightarrow> schedule_frame s t \<Longrightarrow> locked_inv t"
  unfolding locked_inv_def using schedule_frame_inv by (auto simp: schedule_frame_def)

lemma set_place_inv:
  assumes "locked_inv s" and "pl_name p' = n" and "held_ok (co_heap s) p'"
    and "\<And>n' q. n' \<noteq> n \<Longrightarrow> map_of (co_places s) n' = Some q \<Longrightarrow>
      held_paths (co_heap s) p' \<inter> held_paths (co_heap s) q = {}"
  shows "locked_inv (set_place n p' s)"
proof -
  have "exclusive_paths (co_heap s) (AList.update n p' (co_places s))"
    using assms by (intro exclusive_paths_update) (simp_all add: locked_inv_def coord_inv_def)
  with assms(1,2) show ?thesis
    by (simp add: locked_inv_def coord_inv_def set_place_def places_ok_def sessions_ok_def dict.every_put)
qed

lemma place_name: "locked_inv s \<Longrightarrow> map_of (co_places s) n = Some p \<Longrightarrow> pl_name p = n"
  unfolding locked_inv_def coord_inv_def places_ok_def by (blast dest: dict.every_get)

lemma place_held_ok: "locked_inv s \<Longrightarrow> map_of (co_places s) n = Some p \<Longrightarrow> held_ok (co_heap s) p"
  unfolding locked_inv_def coord_inv_def by (blast dest: exclusive_pathsD)

text \<open>A change of a place that takes no resource away from another.\<close>

lemma change_place_inv:
  assumes "locked_inv s" and "map_of (co_places s) n = Some p" and "pl_name p' = pl_name p"
    and "held_ok (co_heap s) p'" and "held_paths (co_heap s) p' \<subseteq> held_paths (co_heap s) p"
  shows "locked_inv (set_place n p' s)"
proof (rule set_place_inv [OF assms(1)])
  show "pl_name p' = n" using assms(3) place_name [OF assms(1,2)] by simp
  fix n' q assume "n' \<noteq> n" "map_of (co_places s) n' = Some q"
  with assms(1,2) have "held_paths (co_heap s) p \<inter> held_paths (co_heap s) q = {}"
    unfolding locked_inv_def coord_inv_def by (metis exclusive_paths_disjoint)
  with assms(5) show "held_paths (co_heap s) p' \<inter> held_paths (co_heap s) q = {}" by blast
qed (rule assms(4))

lemma same_resources_inv:
  assumes "locked_inv s" and "map_of (co_places s) n = Some p" and "pl_name p' = pl_name p"
    and "pl_acquired_resources p' = pl_acquired_resources p"
  shows "locked_inv (set_place n p' s)"
  using change_place_inv [OF assms(1-3)] held_same [OF assms(4)] place_held_ok [OF assms(1,2)] by simp

lemma finish_place_inv:
  assumes "locked_inv s" and "map_of (co_places s) n = Some p" and "pl_name p' = pl_name p"
    and "pl_acquired_resources p' = pl_acquired_resources p"
  shows "locked_inv (finish_place n p' s)"
proof -
  let ?q = "touch (co_now s) p'"
  have "locked_inv (set_place n ?q s)"
    using assms by (intro same_resources_inv [OF assms(1,2)]) (simp_all add: touch_def)
  then have "locked_inv (publish_place ?q (set_place n ?q s))" by (rule locked_inv_quiet) simp
  then show ?thesis unfolding finish_place_def Let_def by (rule locked_inv_quiet) simp
qed

lemma with_place_inv:
  assumes "\<And>p s. locked_inv s \<Longrightarrow> map_of (co_places s) n = Some p \<Longrightarrow> locked_inv (snd (body p s))"
  shows "keeps_inv (with_place n body)"
  using assms by (simp add: keeps_inv_def with_place_def abort_def split: option.split)

lemma new_place_inv:
  assumes "locked_inv s"
  shows "locked_inv (set_place n (new_place now n) s)"
  using assms held_empty [of "new_place now n :: nat place"]
  by (intro set_place_inv) (simp_all add: new_place_def)

lemma add_place_inv: "keeps_inv (add_place n)"
proof -
  have "locked_inv (save_later (publish_place p (set_place n (new_place now n) s)))"
    if "locked_inv s" for p now s
    by (intro locked_inv_ops new_place_inv that)
  then show ?thesis by (simp add: keeps_inv_def add_place_def abort_def Let_def)
qed

lemma delete_place_inv: "keeps_inv (delete_place n)"
proof -
  have "locked_inv (save_later (broadcast msg (s\<lparr>co_places := AList.delete n (co_places s)\<rparr>)))"
    if inv: "locked_inv s" for msg s
  proof -
    have "locked_inv (s\<lparr>co_places := AList.delete n (co_places s)\<rparr>)"
      using inv by (simp add: locked_inv_def coord_inv_def sessions_ok_def places_ok_def
          exclusive_paths_delete dict.every_del)
    then show ?thesis by (intro locked_inv_ops)
  qed
  then show ?thesis by (simp add: keeps_inv_def delete_place_def abort_def)
qed

lemma place_handlers_inv:
  "keeps_inv (add_place_alias n a)" "keeps_inv (delete_place_alias n a)"
  "keeps_inv (set_place_tags n ts)" "keeps_inv (set_place_comment n c)"
  "keeps_inv (add_place_match n pat r)" "keeps_inv (delete_place_match n pat r)"
  unfolding add_place_alias_def delete_place_alias_def set_place_tags_def set_place_comment_def
    add_place_match_def delete_place_match_def
  by (rule with_place_inv;
      auto simp: finish_with_def raise_error_def abort_def split: sum.split intro: finish_place_inv)+

lemma allow_place_inv: "keeps_inv (allow_place peer n u)"
proof -
  have "keeps_inv (with_place n (\<lambda>p.
      if \<not> truthy (pl_acquired p) then abort FAILED_PRECONDITION
      else if pl_acquired p \<noteq> Some x then abort FAILED_PRECONDITION
      else finish_with n (p\<lparr>pl_allowed := List.insert u (pl_allowed p)\<rparr>)))" for x
    by (rule with_place_inv) (auto simp: finish_with_def abort_def intro: finish_place_inv)
  then show ?thesis
    by (simp add: keeps_inv_def allow_place_def abort_def split: option.split)
qed



section \<open>Acquiring, releasing and synchronising keep it\<close>

lemma update_resources_inv:
  assumes "locked_inv s"
    and "\<And>p. map_of (co_places s) n = Some p \<Longrightarrow>
      (let p' = p\<lparr>pl_acquired_resources := f (pl_acquired_resources p)\<rparr> in
       held_ok (co_heap s) p' \<and>
       (\<forall>n' q. n' \<noteq> n \<longrightarrow> map_of (co_places s) n' = Some q \<longrightarrow>
          held_paths (co_heap s) p' \<inter> held_paths (co_heap s) q = {}))"
  shows "locked_inv (update_resources n f s)"
proof (cases "map_of (co_places s) n")
  case None
  with assms(1) show ?thesis by (simp add: update_resources_def)
next
  case (Some p)
  have "locked_inv (set_place n (p\<lparr>pl_acquired_resources := f (pl_acquired_resources p)\<rparr>) s)"
    using assms(2) [OF Some] place_name [OF assms(1) Some]
    by (intro set_place_inv [OF assms(1)]) (simp_all add: Let_def)
  with Some show ?thesis by (simp add: update_resources_def)
qed

text \<open>Dropping resources from a list, or swapping one for another with the same path.\<close>

lemma update_resources_shrink:
  assumes "locked_inv s"
    and "\<And>rs. set rs \<subseteq> {..<length (co_heap s)} \<Longrightarrow> distinct (map (res_path s) rs) \<Longrightarrow>
      set (f rs) \<subseteq> {..<length (co_heap s)} \<and> distinct (map (res_path s) (f rs)) \<and>
      res_path s ` set (f rs) \<subseteq> res_path s ` set rs"
  shows "locked_inv (update_resources n f s)"
proof (cases "map_of (co_places s) n")
  case None
  with assms(1) show ?thesis by (simp add: update_resources_def)
next
  case (Some p)
  let ?p = "p\<lparr>pl_acquired_resources := f (pl_acquired_resources p)\<rparr>"
  have "held_ok (co_heap s) ?p \<and> held_paths (co_heap s) ?p \<subseteq> held_paths (co_heap s) p"
    using assms(2) [of "pl_acquired_resources p"] place_held_ok [OF assms(1) Some]
    by (simp add: held_ok_def held_paths_def)
  then have "locked_inv (set_place n ?p s)"
    by (intro change_place_inv [OF assms(1) Some]) simp_all
  with Some show ?thesis by (simp add: update_resources_def)
qed

lemma fold_remove1_subset: "set (fold remove1 xs ys) \<subseteq> set ys"
  by (induction xs arbitrary: ys) (simp, metis fold_simps(2) order_trans set_remove1_subset)

lemma fold_remove1_distinct: "distinct ys \<Longrightarrow> distinct (fold remove1 xs ys)"
  by (induction xs arbitrary: ys) simp_all

lemma fold_remove1_map: "distinct (map f ys) \<Longrightarrow> distinct (map f (fold remove1 xs ys))"
  unfolding distinct_map using fold_remove1_distinct fold_remove1_subset inj_on_subset by metis

lemma release_resources_inv: "keeps_inv (release_resources pn rs cb)"
  unfolding keeps_inv_def
proof (intro allI impI)
  fix s assume inv: "locked_inv s"
  show "locked_inv (snd (release_resources pn rs cb s))"
  proof (cases pn)
    case None
    with inv show ?thesis by (simp add: release_resources_def)
  next
    case (Some n)
    have "locked_inv (update_resources n (\<lambda>held. fold remove1 rs held) s)"
    proof (rule update_resources_shrink [OF inv])
      fix held assume "set held \<subseteq> {..<length (co_heap s)}" "distinct (map (res_path s) held)"
      with fold_remove1_map fold_remove1_subset [of rs held]
      show "set (fold remove1 rs held) \<subseteq> {..<length (co_heap s)} \<and>
        distinct (map (res_path s) (fold remove1 rs held)) \<and>
        res_path s ` set (fold remove1 rs held) \<subseteq> res_path s ` set held" by blast
    qed
    from locked_inv_held [OF this release_loop_held] Some show ?thesis
      by (simp add: release_resources_def)
  qed
qed

lemma set_acquired_inv: "locked_inv s \<Longrightarrow> locked_inv (set_acquired n u s)"
  by (auto simp: set_acquired_def split: option.split intro: same_resources_inv)

lemma clear_place_inv: "locked_inv s \<Longrightarrow> locked_inv (clear_place n s)"
  by (auto simp: clear_place_def split: option.split intro: same_resources_inv)

lemma finish_and_schedule_inv: "locked_inv s \<Longrightarrow> locked_inv (snd (finish_and_schedule o1 o2 n s))"
  by (auto simp: finish_and_schedule_def split: option.split
      intro!: finish_place_inv locked_inv_schedule [OF _ schedule_reservations_frame])

text \<open>The frame of a wait over the values that the conflict check has read.\<close>

lemma held_step_frame:
  "held_step s t \<Longrightarrow> locked_inv s \<Longrightarrow>
   co_places t = co_places s \<and> heap_ext (co_heap s) (co_heap t)"
  by (simp add: held_step_def good_step_def locked_inv_def coord_inv_def wait_frame_def)

lemma no_conflict_disjoint:
  assumes "\<not> list_ex (in_conflict s) rs" and "places_ok (co_places s)"
    and "map_of (co_places s) n = Some p"
  shows "res_path s ` set rs \<inter> held_paths (co_heap s) p = {}"
proof -
  have "(n, p) \<in> set (co_places s)" using assms(3) by (rule map_of_SomeD)
  then show ?thesis
    using assms(1) by (fastforce simp: list_ex_iff in_conflict_def held_paths_def)
qed

lemma acquire_resources_inv:
  assumes "locked_inv s" and "set rs \<subseteq> {..<length (co_heap s)}"
    and "distinct (map (res_path s) rs)"
  shows "locked_inv (snd (acquire_resources n rs s))"
proof (cases "list_ex (in_conflict s) rs")
  case True
  with assms(1) show ?thesis by (simp add: acquire_resources_def)
next
  case False
  obtain r acq t where m: "acquire_all n rs [] s = (r, acq, t)" by (metis prod.exhaust)
  have st: "held_step s t" using acquire_all_held [of s n rs "[]"] m by simp
  have inv: "locked_inv t" by (rule locked_inv_held [OF assms(1) st])
  note fr = held_step_frame [OF st assms(1)]
  show ?thesis
  proof (cases r)
    case None
    have same: "res_path t x = res_path s x" if "x < length (co_heap s)" for x
      using that fr by (simp add: heap_ext_def)
    have len: "length (co_heap s) \<le> length (co_heap t)" using fr by (simp add: heap_ext_def)
    have paths: "map (res_path t) rs = map (res_path s) rs" using assms(2) same by auto
    have "locked_inv (update_resources n (\<lambda>held. held @ rs) t)"
    proof (rule update_resources_inv [OF inv])
      fix p assume p: "map_of (co_places t) n = Some p"
      have hp: "held_ok (co_heap t) p" by (rule place_held_ok [OF inv p])
      have old: "res_path t ` set rs \<inter> held_paths (co_heap t) q = {}" if "map_of (co_places t) n' = Some q" for n' q
      proof -
        have q: "map_of (co_places s) n' = Some q" using that fr by simp
        have "held_ok (co_heap s) q" by (rule place_held_ok [OF assms(1) q])
        then have "held_paths (co_heap t) q = held_paths (co_heap s) q" using held_ext(2) fr by blast
        moreover have "res_path t ` set rs = res_path s ` set rs"
          using arg_cong [OF paths, of set] by simp
        moreover have "places_ok (co_places s)" using assms(1) by (simp add: locked_inv_def coord_inv_def)
        ultimately show ?thesis using no_conflict_disjoint [OF False _ q] by simp
      qed
      let ?p = "p\<lparr>pl_acquired_resources := pl_acquired_resources p @ rs\<rparr>"
      have "held_ok (co_heap t) ?p"
      proof -
        have "set rs \<subseteq> {..<length (co_heap t)}" using assms(2) len by (auto intro: less_le_trans)
        moreover have "distinct (map (res_path t) rs)" using assms(3) unfolding paths .
        ultimately show ?thesis
          using hp old [OF p] by (simp add: held_ok_def held_paths_def Int_commute)
      qed
      moreover have "held_paths (co_heap t) ?p \<inter> held_paths (co_heap t) q = {}"
        if "n' \<noteq> n" "map_of (co_places t) n' = Some q" for n' q
      proof -
        have "held_paths (co_heap t) p \<inter> held_paths (co_heap t) q = {}"
          using that p inv unfolding locked_inv_def coord_inv_def by (metis exclusive_paths_disjoint)
        with old [OF that(2)] show ?thesis by (auto simp: held_paths_def)
      qed
      ultimately show "let p' = p\<lparr>pl_acquired_resources := pl_acquired_resources p @ rs\<rparr> in
        held_ok (co_heap t) p' \<and> (\<forall>n' q. n' \<noteq> n \<longrightarrow> map_of (co_places t) n' = Some q \<longrightarrow>
          held_paths (co_heap t) p' \<inter> held_paths (co_heap t) q = {})" by (simp add: Let_def)
    qed
    with None m False show ?thesis by (simp add: acquire_resources_def)
  next
    case (Some e)
    obtain r' u where rel: "release_resources (Some n) acq True t = (r', u)"
      by (cases "release_resources (Some n) acq True t")
    have "locked_inv u" using keeps_invD [OF release_resources_inv inv] rel by (metis snd_conv)
    with Some m False inv rel show ?thesis by (cases r') (simp_all add: acquire_resources_def)
  qed
qed


text \<open>The resources that an acquire collects have different paths.\<close>

lemma distinct_concat_map:
  assumes "distinct xs" and "\<And>x. x \<in> set xs \<Longrightarrow> distinct (map f (g x))"
    and "\<And>x y. x \<in> set xs \<Longrightarrow> y \<in> set xs \<Longrightarrow> x \<noteq> y \<Longrightarrow> f ` set (g x) \<inter> f ` set (g y) = {}"
  shows "distinct (map f (concat (map g xs)))"
  using assms
proof (induction xs)
  case Nil
  then show ?case by simp
next
  case (Cons x xs)
  have "f ` set (g x) \<inter> f ` set (g y) = {}" if "y \<in> set xs" for y
    using Cons.prems(1) Cons.prems(3) [of x y] that by auto
  then have "f ` set (g x) \<inter> f ` (\<Union>y \<in> set xs. set (g y)) = {}" by blast
  moreover have "distinct (map f (concat (map g xs)))" using Cons by simp
  moreover have "distinct (map f (g x))" using Cons.prems(2) by simp
  ultimately show ?case by simp
qed

lemma disjoint_paths:
  assumes "\<And>r. r \<in> A \<Longrightarrow> key (f r) = k" and "\<And>r. r \<in> B \<Longrightarrow> key (f r) = k'" and "k \<noteq> k'"
  shows "f ` A \<inter> f ` B = {}"
proof (rule equals0I)
  fix y assume "y \<in> f ` A \<inter> f ` B"
  then have "key y = k" "key y = k'" using assms(1,2) by auto
  with assms(3) show False by simp
qed

abbreviation sorted_resources :: "coord \<Rightarrow> nat list" where
  "sorted_resources s \<equiv>
     concat (map (\<lambda>(_, e).
       concat (map (\<lambda>(_, g). map snd (sort_key fst g)) (sort_key fst (es_groups e))))
       (sort_key fst (co_exporters s)))"

abbreviation group_resources :: "string \<times> (string, nat) dict \<Rightarrow> nat list" where
  "group_resources \<equiv> \<lambda>(_, g). map snd (sort_key fst g)"

abbreviation session_list :: "string \<times> exporter_session \<Rightarrow> nat list" where
  "session_list \<equiv> \<lambda>(_, e). concat (map group_resources (sort_key fst (es_groups e)))"

lemma group_entry:
  assumes "group_ok h ex grp g" and "r \<in> set (map snd (sort_key fst g))"
  shows "\<exists>name. (name, r) \<in> set g \<and> entry_ok h ex grp name r"
  using assms dict_in_iff [of g] by (auto simp: group_ok_def dict.every_def)

lemma group_distinct:
  assumes "group_ok h ex grp g"
  shows "distinct (map (\<lambda>r. ri_path (h ! r)) (map snd (sort_key fst g)))"
proof -
  have wf: "dict_wf g" and ev: "dict.every (entry_ok h ex grp) g"
    using assms by (simp_all add: group_ok_def)
  have path: "\<exists>cls. ri_path (h ! snd x) = (ex, grp, cls, fst x)" if "x \<in> set g" for x
    using that ev dict_in_iff [OF wf, of "fst x" "snd x"] by (simp add: dict.every_def entry_ok_def)
  have "inj_on (\<lambda>x. ri_path (h ! snd x)) (set g)"
  proof (rule inj_onI)
    fix x y assume xy: "x \<in> set g" "y \<in> set g" "ri_path (h ! snd x) = ri_path (h ! snd y)"
    with path [OF xy(1)] path [OF xy(2)] have "fst x = fst y" by auto
    with xy(1,2) wf show "x = y" by (metis eq_key_imp_eq_value prod.collapse)
  qed
  moreover have "distinct (sort_key fst g)" using wf by (simp add: distinct_map)
  ultimately show ?thesis by (simp add: distinct_map comp_def inj_on_def)
qed

lemma session_entry:
  assumes "session_ok h e" and "r \<in> set (session_list (peer, e))"
  shows "\<exists>grp name. entry_ok h (es_name e) grp name r \<and>
    (\<exists>g. map_of (es_groups e) grp = Some g \<and> r \<in> set (map snd (sort_key fst g)))"
proof -
  from assms(2) obtain grp g where g: "(grp, g) \<in> set (es_groups e)" "r \<in> set (map snd (sort_key fst g))"
    by auto
  with assms(1) have m: "map_of (es_groups e) grp = Some g" by (simp add: session_ok_def)
  with assms(1) have "group_ok h (es_name e) grp g" unfolding session_ok_def by (blast dest: dict.every_get)
  from group_entry [OF this g(2)] m g(2) show ?thesis by blast
qed

lemma session_distinct:
  assumes "session_ok h e"
  shows "distinct (map (\<lambda>r. ri_path (h ! r)) (session_list (peer, e)))"
proof -
  have gok: "group_ok h (es_name e) (fst x) (snd x)" if "x \<in> set (es_groups e)" for x
  proof -
    have "map_of (es_groups e) (fst x) = Some (snd x)"
      using that assms by (simp add: session_ok_def map_of_is_SomeI)
    with assms show ?thesis unfolding session_ok_def by (blast dest: dict.every_get)
  qed
  have "distinct (map (\<lambda>r. ri_path (h ! r)) (concat (map group_resources (sort_key fst (es_groups e)))))"
  proof (rule distinct_concat_map)
    show "distinct (sort_key fst (es_groups e))" using assms by (simp add: session_ok_def distinct_map)
    fix x assume x: "x \<in> set (sort_key fst (es_groups e))"
    then show "distinct (map (\<lambda>r. ri_path (h ! r)) (group_resources x))"
      using group_distinct [OF gok] by (simp add: case_prod_beta')
    fix y assume y: "y \<in> set (sort_key fst (es_groups e))" "x \<noteq> y"
    then have "fst x \<noteq> fst y"
      using x assms by (auto simp: session_ok_def distinct_map inj_on_def)
    moreover have path: "fst (snd (ri_path (h ! r))) = fst z"
      if "z \<in> set (sort_key fst (es_groups e))" "r \<in> set (group_resources z)" for z r
    proof -
      have "\<exists>name. (name, r) \<in> set (snd z) \<and> entry_ok h (es_name e) (fst z) name r"
        by (rule group_entry [OF gok]) (use that in \<open>simp_all add: case_prod_beta'\<close>)
      then show ?thesis by (auto simp: entry_ok_def)
    qed
    ultimately show "(\<lambda>r. ri_path (h ! r)) ` set (group_resources x) \<inter>
        (\<lambda>r. ri_path (h ! r)) ` set (group_resources y) = {}"
      using path [OF x] path [OF y(1)]
      by (intro disjoint_paths [where key = "\<lambda>q. fst (snd q)" and k = "fst x" and k' = "fst y"])
  qed
  then show ?thesis by simp
qed

lemma matching_resources_ok:
  assumes "sessions_ok s"
  shows "set (matching_resources p s) \<subseteq> {..<length (co_heap s)}"
    and "distinct (map (res_path s) (matching_resources p s))"
proof -
  have sok: "session_ok (co_heap s) (snd x)" if "x \<in> set (co_exporters s)" for x
  proof -
    have "map_of (co_exporters s) (fst x) = Some (snd x)"
      using that assms by (simp add: sessions_ok_def map_of_is_SomeI)
    then show ?thesis by (rule sessions_okD [OF assms])
  qed
  show "set (matching_resources p s) \<subseteq> {..<length (co_heap s)}"
  proof
    fix r assume "r \<in> set (matching_resources p s)"
    then have "r \<in> set (concat (map session_list (sort_key fst (co_exporters s))))"
      by (simp add: matching_resources_def)
    then obtain x where x: "x \<in> set (co_exporters s)" "r \<in> set (session_list (fst x, snd x))"
      unfolding set_concat set_map set_sort prod.collapse by blast
    from session_entry [OF sok [OF x(1)] x(2)] show "r \<in> {..<length (co_heap s)}"
      by (auto simp: entry_ok_def)
  qed
  have "distinct (map (res_path s) (concat (map session_list (sort_key fst (co_exporters s)))))"
  proof (rule distinct_concat_map)
    show "distinct (sort_key fst (co_exporters s))" using assms by (simp add: sessions_ok_def distinct_map)
    fix x assume x: "x \<in> set (sort_key fst (co_exporters s))"
    then show "distinct (map (res_path s) (session_list x))"
      using session_distinct [OF sok, of x "fst x"] by simp
    fix y assume y: "y \<in> set (sort_key fst (co_exporters s))" "x \<noteq> y"
    have "es_name (snd x) \<noteq> es_name (snd y)"
    proof
      assume eq: "es_name (snd x) = es_name (snd y)"
      have "map_of (co_exporters s) (fst x) = Some (snd x)" "map_of (co_exporters s) (fst y) = Some (snd y)"
        using x y assms by (simp_all add: sessions_ok_def map_of_is_SomeI)
      with eq assms have "fst x = fst y" unfolding sessions_ok_def names_distinct_def by blast
      with x y assms show False by (auto simp: sessions_ok_def distinct_map inj_on_def)
    qed
    moreover have path: "fst (res_path s r) = es_name (snd z)"
      if "z \<in> set (sort_key fst (co_exporters s))" "r \<in> set (session_list z)" for z r
    proof -
      have "z \<in> set (co_exporters s)" "r \<in> set (session_list (fst z, snd z))" using that by simp_all
      from session_entry [OF sok [OF this(1)] this(2)] show ?thesis by (auto simp: entry_ok_def)
    qed
    ultimately show "res_path s ` set (session_list x) \<inter> res_path s ` set (session_list y) = {}"
      using path [OF x] path [OF y(1)]
      by (intro disjoint_paths [where key = fst and k = "es_name (snd x)" and k' = "es_name (snd y)"])
  qed
  then show "distinct (map (res_path s) (matching_resources p s))"
    unfolding matching_resources_def by (rule distinct_map_filter)
qed

lemma acquire_place_inv: "keeps_inv (acquire_place o1 o2 peer n)"
  unfolding keeps_inv_def
proof (intro allI impI)
  fix s assume inv: "locked_inv s"
  let ?thesis = "locked_inv (snd (acquire_place o1 o2 peer n s))"
  have go: "locked_inv (snd (case acquire_resources n (matching_resources p s) (set_acquired n (Some u) s) of
      (Inl e, t) \<Rightarrow> (Inl e, t)
    | (Inr False, t) \<Rightarrow> abort FAILED_PRECONDITION (set_acquired n None t)
    | (Inr True, t) \<Rightarrow> finish_and_schedule o1 o2 n t))" for p and u :: string
  proof -
    let ?s = "set_acquired n (Some u) s"
    have same: "co_heap ?s = co_heap s" by (simp add: set_acquired_def set_place_def split: option.split)
    obtain r t where m: "acquire_resources n (matching_resources p s) ?s = (r, t)"
      by (cases "acquire_resources n (matching_resources p s) ?s")
    have "sessions_ok s" using inv by (simp add: locked_inv_def coord_inv_def)
    note ok = matching_resources_ok [OF this, of p]
    have "locked_inv t"
      using acquire_resources_inv [OF set_acquired_inv [OF inv], of "matching_resources p s" n "Some u" n] ok m
      unfolding same by simp
    with m show ?thesis
      by (cases r) (auto simp: abort_def intro: set_acquired_inv finish_and_schedule_inv split: bool.split)
  qed
  show ?thesis
    using inv go by (simp add: acquire_place_def abort_def split: option.split sum.split)
qed

lemma release_place_inv: "keeps_inv (release_place o1 o2 n u)"
  unfolding release_place_def
proof (rule with_place_inv)
  fix p s assume inv: "locked_inv s" "map_of (co_places s) n = Some p"
  obtain r t where m: "release_resources (Some n) (pl_acquired_resources p) True s = (r, t)"
    by (cases "release_resources (Some n) (pl_acquired_resources p) True s")
  have "locked_inv t" using keeps_invD [OF release_resources_inv inv(1)] m by (metis snd_conv)
  with inv(1) m show "locked_inv (snd (
      if \<not> truthy (pl_acquired p) then
         (if truthy u then (Inr (), s) else abort FAILED_PRECONDITION s)
       else if truthy u \<and> pl_acquired p \<noteq> u then (Inr (), s)
       else and_then (release_resources (Some n) (pl_acquired_resources p) True s)
         (\<lambda>_ t. finish_and_schedule o1 o2 n (clear_place n t))))"
    by (cases r) (auto simp: abort_def intro: finish_and_schedule_inv clear_place_inv)
qed


text \<open>The dictionaries that the synchronisation keeps send a path to a resource with that path.\<close>

definition paths_ok :: "resource_import list \<Rightarrow> (path, nat) dict \<Rightarrow> bool" where
  "paths_ok h d \<longleftrightarrow> dict.every (\<lambda>p r. r < length h \<and> ri_path (h ! r) = p) d"

lemma paths_ok_ext: "paths_ok h d \<Longrightarrow> heap_ext h h' \<Longrightarrow> paths_ok h' d"
  unfolding paths_ok_def by (erule dict.every_mono) (auto simp: heap_ext_def)

lemma paths_ok_update:
  "paths_ok h d \<Longrightarrow> r < length h \<Longrightarrow> p = ri_path (h ! r) \<Longrightarrow> paths_ok h (AList.update p r d)"
  unfolding paths_ok_def by (rule dict.every_put) simp_all

lemma by_path_loop:
  "paths_ok (co_heap s) d \<Longrightarrow> set rs \<subseteq> {..<length (co_heap s)} \<Longrightarrow>
   paths_ok (co_heap s) (fold (\<lambda>r. AList.update (res_path s r) r) rs d)"
proof (induction rs arbitrary: d)
  case Nil
  then show ?case by simp
next
  case (Cons r rs)
  have "r < length (co_heap s)" "set rs \<subseteq> {..<length (co_heap s)}" using Cons.prems(2) by simp_all
  from Cons.IH [OF paths_ok_update [OF Cons.prems(1) this(1) refl] this(2)] show ?case
    unfolding fold_simps .
qed

lemma by_path_ok:
  assumes "set rs \<subseteq> {..<length (co_heap s)}"
  shows "paths_ok (co_heap s) (by_path s rs)"
  unfolding by_path_def
  by (rule by_path_loop [OF _ assms]) (simp add: paths_ok_def dict.every_def)

lemma held_resources_ok:
  "locked_inv s \<Longrightarrow> set (held_resources s) \<subseteq> {..<length (co_heap s)}"
proof
  fix r assume inv: "locked_inv s" and "r \<in> set (held_resources s)"
  then obtain n p where p: "(n, p) \<in> set (co_places s)" "r \<in> set (pl_acquired_resources p)"
    by (auto simp: held_resources_def)
  from p(1) inv have "map_of (co_places s) n = Some p"
    by (simp add: locked_inv_def coord_inv_def places_ok_def map_of_is_SomeI)
  from place_held_ok [OF inv this] p(2) show "r \<in> {..<length (co_heap s)}"
    by (auto simp: held_ok_def)
qed

lemma all_resources_ok:
  assumes "sessions_ok s"
  shows "set (all_resources s) \<subseteq> {..<length (co_heap s)}"
proof
  fix r assume "r \<in> set (all_resources s)"
  then obtain peer e grp g name where
    e: "(peer, e) \<in> set (co_exporters s)" "(grp, g) \<in> set (es_groups e)" "(name, r) \<in> set g"
    by (auto simp: all_resources_def)
  have "map_of (co_exporters s) peer = Some e" using e(1) assms by (simp add: sessions_ok_def map_of_is_SomeI)
  then have sok: "session_ok (co_heap s) e" by (rule sessions_okD [OF assms])
  then have "map_of (es_groups e) grp = Some g" using e(2) by (simp add: session_ok_def map_of_is_SomeI)
  with sok have gok: "group_ok (co_heap s) (es_name e) grp g"
    unfolding session_ok_def by (blast dest: dict.every_get)
  then have "map_of g name = Some r" using e(3) by (simp add: group_ok_def map_of_is_SomeI)
  with gok have "entry_ok (co_heap s) (es_name e) grp name r"
    unfolding group_ok_def by (blast dest: dict.every_get)
  then show "r \<in> {..<length (co_heap s)}" by (simp add: entry_ok_def)
qed

lemma find_resource_ok:
  assumes "sessions_ok s" and "find_resource s path = Some r"
  shows "r < length (co_heap s)"
proof -
  obtain ex grp cls name where path: "path = (ex, grp, cls, name)" by (metis prod.exhaust)
  from assms(2) path obtain peer e g where
    e: "get_exporter_by_name ex s = Some (peer, e)" "map_of (es_groups e) grp = Some g" "map_of g name = Some r"
    by (auto simp: find_resource_def split: option.splits)
  have "session_ok (co_heap s) e" using get_exporter_Some [OF e(1) assms(1)] sessions_okD [OF assms(1)] by blast
  with e(2) have "group_ok (co_heap s) (es_name e) grp g"
    unfolding session_ok_def by (blast dest: dict.every_get)
  with e(3) have "entry_ok (co_heap s) (es_name e) grp name r"
    unfolding group_ok_def by (blast dest: dict.every_get)
  then show ?thesis by (simp add: entry_ok_def)
qed

lemma run_result_held: "run_command r pn s = (x, t) \<Longrightarrow> held_step s t"
  using run_command_held [of s r pn] by simp

lemma release_result_ext:
  assumes "release_resources pn rs cb s = (x, t)" and "locked_inv s"
  shows "locked_inv t \<and> heap_ext (co_heap s) (co_heap t)"
proof (cases pn)
  case None
  with assms show ?thesis by (simp add: release_resources_def split: if_splits)
next
  case (Some n)
  let ?s = "update_resources n (\<lambda>held. fold remove1 rs held) s"
  have same: "co_heap ?s = co_heap s" by (simp add: update_resources_def set_place_def split: option.split)
  have inv: "locked_inv t" using keeps_invD [OF release_resources_inv assms(2)] assms(1) by (metis snd_conv)
  have "held_step ?s t" using release_loop_held [of ?s cb rs] assms(1) Some by (simp add: release_resources_def)
  moreover have "locked_inv ?s"
  proof (rule update_resources_shrink [OF assms(2)])
    fix held assume "set held \<subseteq> {..<length (co_heap s)}" "distinct (map (res_path s) held)"
    with fold_remove1_map fold_remove1_subset [of rs held]
    show "set (fold remove1 rs held) \<subseteq> {..<length (co_heap s)} \<and>
      distinct (map (res_path s) (fold remove1 rs held)) \<and>
      res_path s ` set (fold remove1 rs held) \<subseteq> res_path s ` set held" by blast
  qed
  ultimately show ?thesis using held_step_frame [of ?s t] same inv by simp
qed

definition sync_result ::
  "coord \<Rightarrow> (cerror + (path, nat) dict) \<times> coord \<Rightarrow> bool" where
  "sync_result s m \<longleftrightarrow> locked_inv (snd m) \<and> heap_ext (co_heap s) (co_heap (snd m)) \<and>
     (\<forall>d. fst m = Inr d \<longrightarrow> paths_ok (co_heap (snd m)) d)"

lemma sync_result_trans:
  "sync_result t m \<Longrightarrow> heap_ext (co_heap s) (co_heap t) \<Longrightarrow> sync_result s m"
  unfolding sync_result_def by (auto intro: heap_ext_trans)

lemma sync_result_refl: "locked_inv s \<Longrightarrow> paths_ok (co_heap s) d \<Longrightarrow> sync_result s (Inr d, s)"
  by (simp add: sync_result_def)

lemma sync_result_error: "locked_inv t \<Longrightarrow> heap_ext (co_heap s) (co_heap t) \<Longrightarrow> sync_result s (Inl e, t)"
  by (simp add: sync_result_def)

lemma sync_result_stop:
  "locked_inv t \<Longrightarrow> heap_ext (co_heap s) (co_heap t) \<Longrightarrow> paths_ok (co_heap s) d \<Longrightarrow> sync_result s (Inr d, t)"
  by (auto simp: sync_result_def intro: paths_ok_ext)

lemma paths_ok_delete: "paths_ok h d \<Longrightarrow> paths_ok h (AList.delete p d)"
  unfolding paths_ok_def by (rule dict.every_del)

lemma sync_release_ok:
  "locked_inv s \<Longrightarrow> paths_ok (co_heap s) d \<Longrightarrow> sync_result s (sync_release deadline paths d s)"
proof (induction paths arbitrary: d s)
  case Nil
  then show ?case by (simp add: sync_result_refl)
next
  case (Cons path paths)
  let ?r = "the (map_of d path)"
  have skip: "sync_result s (sync_release deadline paths d s)" using Cons by simp
  have rel: "sync_result s (case release_resources pn [?r] True s of
      (Inr _, t) \<Rightarrow> sync_release deadline paths (AList.delete path d) t
    | (Inl e, t) \<Rightarrow> if e = Cancelled then (Inl e, t) else (Inr d, t))" for pn
  proof -
    obtain x t where m: "release_resources pn [?r] True s = (x, t)"
      by (cases "release_resources pn [?r] True s")
    from release_result_ext [OF m Cons.prems(1)] have t: "locked_inv t" "heap_ext (co_heap s) (co_heap t)"
      by simp_all
    have "paths_ok (co_heap t) (AList.delete path d)"
      using paths_ok_delete paths_ok_ext [OF Cons.prems(2) t(2)] by blast
    then have "sync_result s (sync_release deadline paths (AList.delete path d) t)"
      using sync_result_trans [OF Cons.IH [OF t(1)] t(2)] by blast
    with m t Cons.prems(2) show ?thesis
      by (cases x) (simp_all add: sync_result_error sync_result_stop)
  qed
  show ?case
    using skip rel by (simp add: Let_def split: option.split prod.split)
qed

lemma sync_acquire_ok:
  "locked_inv s \<Longrightarrow> paths_ok (co_heap s) d \<Longrightarrow> sync_result s (sync_acquire deadline orphaned paths d s)"
proof (induction paths arbitrary: d s)
  case Nil
  then show ?case by (simp add: sync_result_refl)
next
  case (Cons path paths)
  let ?r = "the (map_of orphaned path)"
  have skip: "sync_result s (sync_acquire deadline orphaned paths d s)" using Cons by simp
  have acq: "sync_result s (case acquire_resource name new s of
      (Inr _, t) \<Rightarrow> sync_acquire deadline orphaned paths (AList.update (res_path t new) new d) t
    | (Inl e, t) \<Rightarrow> if e = Cancelled then (Inl e, t) else (Inr d, t))"
    if new: "find_resource s q = Some new" for name new q
  proof -
    obtain x t where m: "acquire_resource name new s = (x, t)" by (cases "acquire_resource name new s")
    then have st: "held_step s t" by (simp add: acquire_resource_def run_result_held)
    have t: "locked_inv t" "heap_ext (co_heap s) (co_heap t)"
      using locked_inv_held [OF Cons.prems(1) st] held_step_frame [OF st Cons.prems(1)] by simp_all
    have "new < length (co_heap s)"
      using find_resource_ok [OF _ new] Cons.prems(1) by (simp add: locked_inv_def coord_inv_def)
    with t(2) have "new < length (co_heap t)" by (simp add: heap_ext_def)
    then have "paths_ok (co_heap t) (AList.update (res_path t new) new d)"
      using paths_ok_ext [OF Cons.prems(2) t(2)] by (simp add: paths_ok_def dict.every_put)
    then have "sync_result s (sync_acquire deadline orphaned paths (AList.update (res_path t new) new d) t)"
      using sync_result_trans [OF Cons.IH [OF t(1)] t(2)] by blast
    with m t Cons.prems(2) show ?thesis
      by (cases x) (simp_all add: sync_result_error sync_result_stop)
  qed
  have err: "sync_result s (Inl e, s)" for e using Cons.prems(1) by (simp add: sync_result_error)
  show ?case
    using skip acq err by (simp add: Let_def split: option.split prod.split)
qed

lemma replace_first_map: "f new = f old \<Longrightarrow> map f (replace_first old new xs) = map f xs"
  by (induction xs) auto

lemma replace_first_set: "set (replace_first old new xs) \<subseteq> insert new (set xs)"
  by (induction xs) auto

lemma sync_replace_ok:
  assumes "locked_inv s" and "paths_ok (co_heap s) orphaned" and "paths_ok (co_heap s) acquired"
    and "map_of orphaned path = Some old" and "map_of acquired path = Some new"
  shows "locked_inv (snd (sync_replace orphaned acquired path s)) \<and>
    co_heap (snd (sync_replace orphaned acquired path s)) = co_heap s"
proof -
  have old: "res_path s old = path" "old < length (co_heap s)"
    using assms(2,4) unfolding paths_ok_def by (auto dest: dict.every_get)
  have new: "res_path s new = path" "new < length (co_heap s)"
    using assms(3,5) unfolding paths_ok_def by (auto dest: dict.every_get)
  have "locked_inv (update_resources n (replace_first old new) s)" for n
  proof (rule update_resources_shrink [OF assms(1)])
    fix rs assume rs: "set rs \<subseteq> {..<length (co_heap s)}" "distinct (map (res_path s) rs)"
    have same: "map (res_path s) (replace_first old new rs) = map (res_path s) rs"
      by (rule replace_first_map) (simp add: old new)
    have "set (replace_first old new rs) \<subseteq> {..<length (co_heap s)}"
      using replace_first_set [of old new rs] rs(1) new(2) by auto
    moreover have "res_path s ` set (replace_first old new rs) = res_path s ` set rs"
      using arg_cong [OF same, of set] by simp
    ultimately show "set (replace_first old new rs) \<subseteq> {..<length (co_heap s)} \<and>
      distinct (map (res_path s) (replace_first old new rs)) \<and>
      res_path s ` set (replace_first old new rs) \<subseteq> res_path s ` set rs" using rs(2) same by simp
  qed
  then show ?thesis
    using assms(1,4,5)
    by (auto simp: sync_replace_def Let_def update_resources_def set_place_def
        split: option.split prod.split)
qed

lemma synchronize_inv: "set_order o3 \<Longrightarrow> keeps_inv (synchronize_resources o1 o2 o3)"
  unfolding keeps_inv_def
proof (intro allI impI)
  fix s assume o3: "set_order o3" and inv: "locked_inv s"
  have held: "set (held_resources s) \<subseteq> {..<length (co_heap s)}" by (rule held_resources_ok [OF inv])
  have all: "set (all_resources s) \<subseteq> {..<length (co_heap s)}"
    using inv by (intro all_resources_ok) (simp add: locked_inv_def coord_inv_def)
  define acq where "acq = by_path s (filter (\<lambda>r. truthy (res_acquired s r)) (all_resources s))"
  define orph where "orph = by_path s (filter (\<lambda>r. ri_orphaned (co_heap s ! r)) (held_resources s))"
  have ok: "paths_ok (co_heap s) acq" "paths_ok (co_heap s) orph"
    unfolding acq_def orph_def by (rule by_path_ok, use all held in auto)+
  have last: "locked_inv (snd (for_each (sync_replace orph d) (reorder o3 (filter (\<lambda>p. p \<in> set (keys d)) (keys orph))) t))"
    if "locked_inv t" "paths_ok (co_heap t) orph" "paths_ok (co_heap t) d" for d t
  proof -
    let ?P = "\<lambda>u. locked_inv u \<and> co_heap u = co_heap t"
    have "?P (snd (for_each (sync_replace orph d) (reorder o3 (filter (\<lambda>p. p \<in> set (keys d)) (keys orph))) t))"
    proof (rule for_each_keeps [of ?P])
      fix path u assume "path \<in> set (reorder o3 (filter (\<lambda>p. p \<in> set (keys d)) (keys orph)))" and u: "?P u"
      then have "path \<in> set (keys d)" "path \<in> set (keys orph)" using o3 by auto
      then obtain old new where "map_of orph path = Some old" "map_of d path = Some new"
        unfolding in_keys_iff by blast
      with sync_replace_ok [of u orph d] u that(2,3) show "?P (snd (sync_replace orph d path u))" by simp
    qed (simp add: that(1))
    then show ?thesis by simp
  qed
  have mid: "locked_inv (snd (and_then m k))"
    if "sync_result t m" "paths_ok (co_heap t) orph"
      "\<And>d u. locked_inv u \<Longrightarrow> paths_ok (co_heap u) orph \<Longrightarrow> paths_ok (co_heap u) d \<Longrightarrow> locked_inv (snd (k d u))"
    for t m and k :: "(path, nat) dict \<Rightarrow> unit handler"
  proof -
    obtain x u where m: "m = (x, u)" by (cases m)
    show ?thesis
    proof (cases x)
      case (Inl e)
      with m that(1) show ?thesis by (simp add: sync_result_def)
    next
      case (Inr d)
      with m that(1) have "locked_inv u" "heap_ext (co_heap t) (co_heap u)" "paths_ok (co_heap u) d"
        by (simp_all add: sync_result_def)
      with that(2,3) paths_ok_ext m Inr show ?thesis by simp
    qed
  qed
  show "locked_inv (snd (synchronize_resources o1 o2 o3 s))"
    unfolding synchronize_resources_def Let_def acq_def [symmetric] orph_def [symmetric]
    by (rule mid [OF sync_release_ok [OF inv ok(1)] ok(2)], rule mid [OF sync_acquire_ok], assumption+, rule last)
qed



section \<open>Every step keeps the invariant\<close>

lemma locked_inv_reservations: "locked_inv s \<Longrightarrow> locked_inv (s\<lparr>co_reservations := rs\<rparr>)"
  by (simp add: locked_inv_def coord_inv_def sessions_ok_def)

lemma schedule_inv: "locked_inv s \<Longrightarrow> locked_inv (snd (schedule_reservations o1 o2 s))"
  by (rule locked_inv_schedule [OF _ schedule_reservations_frame])

lemma response_same: "snd (reservation_response token s) = s"
  by (simp add: reservation_response_def split: option.split sum.split)

lemma reservation_handlers_inv:
  "keeps_inv (ignore_result (create_reservation o1 o2 token peer fs prio))"
  "keeps_inv (cancel_reservation o1 o2 token)"
  "keeps_inv (ignore_result (poll_reservation token))"
proof -
  have ignore: "snd (ignore_result h s) = snd (h s)" for h :: "'a handler" and s
    by (simp add: ignore_result_def split: prod.split sum.split)
  have create: "locked_inv (snd (create_reservation o1 o2 token peer fs prio s))" if inv: "locked_inv s" for s
  proof -
    have "locked_inv (snd (and_then (schedule_reservations o1 o2 (s\<lparr>co_reservations := rs\<rparr>))
        (\<lambda>_. reservation_response token)))" for rs
    proof -
      obtain x t where m: "schedule_reservations o1 o2 (s\<lparr>co_reservations := rs\<rparr>) = (x, t)"
        by (cases "schedule_reservations o1 o2 (s\<lparr>co_reservations := rs\<rparr>)")
      have "locked_inv t" using schedule_inv [OF locked_inv_reservations [OF inv], of o1 o2 rs] m by simp
      with m show ?thesis by (cases x) (simp_all add: response_same)
    qed
    with inv show ?thesis by (simp add: create_reservation_def Let_def split: sum.split option.split)
  qed
  show "keeps_inv (ignore_result (create_reservation o1 o2 token peer fs prio))"
    unfolding keeps_inv_def ignore_result_def
    using create by (auto split: prod.split sum.split) (metis snd_conv)+
  show "keeps_inv (cancel_reservation o1 o2 token)"
    by (simp add: keeps_inv_def cancel_reservation_def abort_def schedule_inv locked_inv_reservations)
  show "keeps_inv (ignore_result (poll_reservation token))"
    unfolding keeps_inv_def ignore_result_def poll_reservation_def
    by (auto simp: abort_def locked_inv_reservations split: prod.split sum.split option.split
        dest!: arg_cong [of _ _ snd] simp: response_same)
qed

lemma call_body_inv: "set_order o3 \<Longrightarrow> keeps_inv (call_body o1 o2 o3 req)"
  by (cases req)
    (simp_all add: add_place_inv delete_place_inv place_handlers_inv acquire_place_inv
      release_place_inv allow_place_inv reservation_handlers_inv synchronize_inv,
     simp add: keeps_inv_def schedule_inv)

lemma coord_inv_fields:
  "coord_inv (s\<lparr>co_locked := b\<rparr>) = coord_inv s" "coord_inv (s\<lparr>co_script := ws\<rparr>) = coord_inv s"
  by (simp_all add: coord_inv_def sessions_ok_def)

lemma handle_inv:
  assumes "coord_inv s" and "set_order o3"
  shows "coord_inv (snd (handle o1 o2 o3 script req s))"
proof -
  let ?s = "s\<lparr>co_script := script, co_locked := True\<rparr>"
  have "locked_inv ?s" using assms(1) by (simp add: locked_inv_def coord_inv_fields)
  then have "locked_inv (snd (call_body o1 o2 o3 req ?s))" by (rule keeps_invD [OF call_body_inv [OF assms(2)]])
  then show ?thesis
    by (simp add: handle_def locked_def locked_inv_def coord_inv_fields split: prod.split) auto
qed

text \<open>A coordinator that has just loaded its places, from a file with distinct names.\<close>

definition coord_start :: "coord \<Rightarrow> bool" where
  "coord_start s \<longleftrightarrow>
     (\<exists>fl now clk. s = start_coordinator fl now clk \<and> (\<forall>d. fl = Some d \<longrightarrow> dict_wf d))"

lemma map_of_load: "map_of (load fl) n =
   (case fl of None \<Rightarrow> None | Some d \<Rightarrow> map_option (load_place n) (map_of d n))"
proof (cases fl)
  case None
  then show ?thesis by (simp add: load_def)
next
  case (Some d)
  have "map_of (map (\<lambda>(name, c). (name, load_place name c)) d) n = map_option (load_place n) (map_of d n)"
    by (induction d) auto
  with Some show ?thesis by (simp add: load_def)
qed

lemma load_wf: "(\<And>d. fl = Some d \<Longrightarrow> dict_wf d) \<Longrightarrow> dict_wf (load fl)"
  by (cases fl) (simp_all add: load_def comp_def case_prod_beta')

lemma start_inv:
  assumes "coord_start s"
  shows "coord_inv s"
proof -
  from assms obtain fl now clk where s: "s = start_coordinator fl now clk"
    and wf: "\<And>d. fl = Some d \<Longrightarrow> dict_wf d" unfolding coord_start_def by blast
  have p: "pl_name p = n \<and> pl_acquired_resources p = []" if "map_of (load fl) n = Some p" for n p
    using that by (auto simp: map_of_load load_place_def split: option.splits)
  then have "exclusive_paths [] (load fl)"
    unfolding exclusive_paths_def dict.every_def by (simp add: held_ok_def held_paths_def)
  with p load_wf [OF wf] show ?thesis
    by (simp add: coord_inv_def sessions_ok_def places_ok_def start_coordinator_def s names_distinct_def
        dict.every_def)
qed

interpretation coordinator: transition_system coord_start coord_step coord_inv
proof
  show "coord_start s \<Longrightarrow> coord_inv s" for s by (rule start_inv)
  show "coord_step s t \<Longrightarrow> coord_inv s \<Longrightarrow> coord_inv t" for s t
    by (induction rule: coord_step.induct) (simp_all add: deliver_inv handle_inv)
qed


section \<open>Exclusive use of resources\<close>

text \<open>No resource path is held twice, by two places or by one.\<close>

definition resources_exclusive :: "coord \<Rightarrow> bool" where
  "resources_exclusive s \<longleftrightarrow>
     (\<forall>n n' p p' i j. map_of (co_places s) n = Some p \<longrightarrow> map_of (co_places s) n' = Some p' \<longrightarrow>
        i < length (pl_acquired_resources p) \<longrightarrow> j < length (pl_acquired_resources p') \<longrightarrow>
        res_path s (pl_acquired_resources p ! i) = res_path s (pl_acquired_resources p' ! j) \<longrightarrow>
        n = n' \<and> i = j)"

lemma inv_exclusive: "coord_inv s \<Longrightarrow> resources_exclusive s"
  unfolding resources_exclusive_def
proof (intro allI impI)
  fix n n' p p' i j
  assume inv: "coord_inv s" and p: "map_of (co_places s) n = Some p" "map_of (co_places s) n' = Some p'"
    and ij: "i < length (pl_acquired_resources p)" "j < length (pl_acquired_resources p')"
    and eq: "res_path s (pl_acquired_resources p ! i) = res_path s (pl_acquired_resources p' ! j)"
  have ex: "exclusive_paths (co_heap s) (co_places s)" using inv by (simp add: coord_inv_def)
  have "res_path s (pl_acquired_resources p ! i) \<in> held_paths (co_heap s) p"
    "res_path s (pl_acquired_resources p' ! j) \<in> held_paths (co_heap s) p'"
    using ij by (auto simp: held_paths_def)
  with eq have n: "n = n'" using exclusive_paths_disjoint [OF ex _ p] by auto
  with p have "p' = p" by simp
  with eq ij exclusive_pathsD [OF ex p(1)] have "i = j"
    by (simp add: held_ok_def distinct_conv_nth) (metis nth_map length_map)
  with n show "n = n' \<and> i = j" by simp
qed

end
