(* ===== verification/CoordProps.thy ===== *)
theory CoordProps
  imports CoordInv
begin

text \<open>
  What the coordinator's calls promise to their callers: acquiring a place, failing to, releasing
  it, allowing another user, what the synchronisation may change, and what survives a restart; and
  the ways in which the code falls short of what it is meant to do.
\<close>

section \<open>A sample coordinator\<close>

text \<open>One exporter with one resource, one client, one place that matches the resource.\<close>

definition demo_coord :: coord where
  "demo_coord =
     \<lparr>co_places = [(''p1'', (new_place 0 ''p1'')\<lparr>pl_matches :=
          [\<lparr>rm_exporter = ''ex'', rm_group = ''g'', rm_cls = ''*'', rm_name = None, rm_rename = None\<rparr>]\<rparr>)],
      co_reservations = [],
      co_exporters = [(''x1'', \<lparr>es_name = ''ex'', es_groups = [(''g'', [(''r'', 0)])], es_queue = [],
                                es_pending = [], es_rx = RxRunning\<rparr>)],
      co_clients = [(''c1'', \<lparr>cs_name = ''host/user'', cs_queue = []\<rparr>)],
      co_heap = [\<lparr>ri_data = \<lparr>re_cls = ''USB'', re_params = [], re_acquired = None, re_avail = True\<rparr>,
                   ri_path = (''ex'', ''g'', ''USB'', ''r''), ri_orphaned = False\<rparr>],
      co_commands = [], co_save_scheduled = False, co_locked = True, co_now = 1, co_mono = 1,
      co_script = [WEvent (EvExporterSend ''x1''), WEvent (EvExporterResponse ''x1'' True [])]\<rparr>"

abbreviation plain_order :: "nat \<Rightarrow> nat list" where
  "plain_order \<equiv> \<lambda>n. [0..<n]"

lemma demo_inv: "locked_inv demo_coord"
  unfolding locked_inv_def coord_inv_def sessions_ok_def places_ok_def exclusive_paths_def
    names_distinct_def dict.every_def
  by (simp add: demo_coord_def new_place_def session_ok_def group_ok_def entry_ok_def held_ok_def
      held_paths_def dict.every_def)

lemma demo_inv_script: "locked_inv (demo_coord\<lparr>co_script := ws\<rparr>)"
  using demo_inv by (simp add: locked_inv_def coord_inv_fields)


section \<open>Acquiring\<close>

lemma schedule_error: "fst (schedule_reservations o1 o2 s) = Inl e \<Longrightarrow> \<exists>x. e = Builtin x"
proof -
  have pub: "fst (for_each (publish_changed old new) ns s) = Inl e \<Longrightarrow> \<exists>x. e = Builtin x" for old new ns s
  proof (induction ns arbitrary: s)
    case (Cons n ns)
    then show ?case
      by (cases "fst (publish_changed old new n s)"; cases "publish_changed old new n s")
        (auto simp: publish_changed_def split: if_splits option.splits)
  qed simp
  have up: "fst (update_places o2 s) = Inl e \<Longrightarrow> \<exists>x. e = Builtin x" for s
    by (auto simp: update_places_def Let_def lift_stage_def dest: pub split: prod.splits sum.splits)
  show "fst (schedule_reservations o1 o2 s) = Inl e \<Longrightarrow> \<exists>x. e = Builtin x"
    by (auto simp: schedule_reservations_def Let_def lift_stage_def dest: up
        split: prod.splits sum.splits if_splits)
qed

lemma acquire_all_subset:
  "acquire_all n rs acq s = (r, acq', t) \<Longrightarrow> set acq' \<subseteq> set acq \<union> set rs"
proof (induction n rs acq s rule: acquire_all.induct)
  case (2 name r0 rs acquired s)
  obtain x u where m: "acquire_resource name r0 s = (x, u)" by (cases "acquire_resource name r0 s")
  show ?case
  proof (cases x)
    case (Inl e)
    with m "2.prems" show ?thesis by auto
  next
    case (Inr y)
    with m "2.prems" "2.IH" [OF m [symmetric] Inr] show ?thesis by auto
  qed
qed simp

lemma fold_remove1_absent: "set xs \<inter> set ys = {} \<Longrightarrow> fold remove1 xs ys = ys"
  by (induction xs arbitrary: ys) (auto simp: remove1_idem)

lemma fold_remove1_self: "fold remove1 xs xs = []"
  by (induction xs) simp_all

lemma update_resources_lookup:
  "map_of (co_places (update_resources n f s)) m =
   (if m = n then map_option (\<lambda>p. p\<lparr>pl_acquired_resources := f (pl_acquired_resources p)\<rparr>)
      (map_of (co_places s) n) else map_of (co_places s) m)"
  by (simp add: update_resources_def set_place_def split: option.split)

lemma set_acquired_lookup:
  "map_of (co_places (set_acquired n u s)) m =
   (if m = n then map_option (\<lambda>p. p\<lparr>pl_acquired := u\<rparr>) (map_of (co_places s) n)
    else map_of (co_places s) m)"
  by (simp add: set_acquired_def set_place_def split: option.split)

lemma set_acquired_heap [simp]: "co_heap (set_acquired n u s) = co_heap s"
  by (simp add: set_acquired_def set_place_def split: option.split)

text \<open>What is known of a call of \<open>_acquire_resources\<close> that returns.\<close>

lemma acquire_resources_True:
  assumes "acquire_resources n rs s = (Inr True, t)" and "locked_inv s"
  shows "\<not> list_ex (in_conflict s) rs \<and>
    (\<forall>m. map_of (co_places t) m = map_of (co_places (update_resources n (\<lambda>held. held @ rs) s)) m)"
proof -
  obtain r acq u where m: "acquire_all n rs [] s = (r, acq, u)" by (metis prod.exhaust)
  have "\<not> list_ex (in_conflict s) rs" using assms(1) by (auto simp: acquire_resources_def split: if_splits)
  moreover have "r = None"
    using assms(1) m calculation
    by (auto simp: acquire_resources_def and_then_def split: option.splits if_splits prod.splits sum.splits)
  moreover have "held_step s u" using acquire_all_held [of s n rs "[]"] m by simp
  then have "co_places u = co_places s" using held_step_frame assms(2) by blast
  ultimately show ?thesis
    using assms(1) m by (auto simp: acquire_resources_def update_resources_lookup)
qed

lemma acquire_resources_False:
  assumes "acquire_resources n rs s = (Inr False, t)" and "locked_inv s"
  shows "map_of (co_places t) m = map_of (co_places s) m"
proof (cases "list_ex (in_conflict s) rs")
  case True
  with assms(1) show ?thesis by (simp add: acquire_resources_def)
next
  case False
  obtain r acq u where a: "acquire_all n rs [] s = (r, acq, u)" by (metis prod.exhaust)
  obtain e where r: "r = Some e" "e \<noteq> Cancelled"
    using assms(1) a False by (cases r) (auto simp: acquire_resources_def split: if_splits)
  have st: "held_step s u" using acquire_all_held [of s n rs "[]"] a by simp
  have inv: "locked_inv u" by (rule locked_inv_held [OF assms(2) st])
  have pu: "co_places u = co_places s" using held_step_frame [OF st assms(2)] by simp
  let ?v = "update_resources n (\<lambda>held. fold remove1 acq held) u"
  obtain y w where loop: "for_each (release_one True) acq ?v = (y, w)"
    by (cases "for_each (release_one True) acq ?v")
  have t: "t = w" using assms(1) a False r loop
    by (cases y) (auto simp: acquire_resources_def release_resources_def)
  have "held_step ?v w" using release_loop_held [of ?v True acq] loop by simp
  moreover have "locked_inv ?v"
  proof (rule update_resources_shrink [OF inv])
    fix held assume "set held \<subseteq> {..<length (co_heap u)}" "distinct (map (res_path u) held)"
    with fold_remove1_map fold_remove1_subset [of acq held]
    show "set (fold remove1 acq held) \<subseteq> {..<length (co_heap u)} \<and>
      distinct (map (res_path u) (fold remove1 acq held)) \<and>
      res_path u ` set (fold remove1 acq held) \<subseteq> res_path u ` set held" by blast
  qed
  ultimately have pw: "co_places w = co_places ?v" using held_step_frame by blast
  have "fold remove1 acq (pl_acquired_resources p) = pl_acquired_resources p"
    if p: "map_of (co_places s) n = Some p" for p
  proof (rule fold_remove1_absent)
    have "places_ok (co_places s)" using assms(2) by (simp add: locked_inv_def coord_inv_def)
    from no_conflict_disjoint [OF False this p] acquire_all_subset [OF a]
    show "set acq \<inter> set (pl_acquired_resources p) = {}" by (auto simp: held_paths_def)
  qed
  then show ?thesis
    using t pw pu by (cases "map_of (co_places s) n") (simp_all add: update_resources_lookup)
qed


lemma wait_command_no_abort: "fst (wait_command c ws s) \<noteq> Inl (Abort st)"
  by (induction c ws s rule: wait_command.induct) (auto split: wait_event.split)

lemma run_command_no_abort: "fst (run_command r pn s) \<noteq> Inl (Abort st)"
proof -
  have "fst (and_then (wait_command c ws u) k) \<noteq> Inl (Abort st)"
    if "\<And>t. fst (k () t) \<noteq> Inl (Abort st)" for c ws u and k :: "unit \<Rightarrow> unit handler"
    using wait_command_no_abort [of c ws u st] that
    by (cases "wait_command c ws u"; cases "fst (wait_command c ws u)") auto
  then show ?thesis
    by (auto simp: run_command_def Let_def split: prod.split option.split bool.split)
qed

lemma release_loop_no_abort: "fst (for_each (release_one cb) rs s) \<noteq> Inl (Abort st)"
proof (induction rs arbitrary: s)
  case (Cons r rs)
  obtain x t where m: "release_one cb r s = (x, t)" by (cases "release_one cb r s")
  have "x \<noteq> Inl (Abort st)"
    using m run_command_no_abort [of r None s st]
    by (auto simp: release_one_def split: if_splits prod.splits sum.splits)
  with m Cons [of t] show ?case by (cases x) auto
qed simp

lemma acquire_all_no_abort: "fst (acquire_all n rs acq s) \<noteq> Some (Abort st)"
proof (induction n rs acq s rule: acquire_all.induct)
  case (2 name r rs acquired s)
  obtain x t where m: "acquire_resource name r s = (x, t)" by (cases "acquire_resource name r s")
  show ?case
  proof (cases x)
    case (Inl e)
    with m run_command_no_abort [of r "Some name" s st] show ?thesis by (auto simp: acquire_resource_def)
  next
    case (Inr y)
    with m 2 [OF m [symmetric] Inr] show ?thesis by simp
  qed
qed simp

lemma acquire_resources_no_abort: "acquire_resources n rs s \<noteq> (Inl (Abort st), t)"
proof -
  obtain r acq u where a: "acquire_all n rs [] s = (r, acq, u)" by (metis prod.exhaust)
  have "r \<noteq> Some (Abort st)" using acquire_all_no_abort [of n rs "[]" s st] a by simp
  moreover have "fst (release_resources (Some n) acq True u) \<noteq> Inl (Abort st)"
    by (simp add: release_resources_def release_loop_no_abort)
  ultimately show ?thesis
    using a
    by (cases "release_resources (Some n) acq True u"; cases "fst (release_resources (Some n) acq True u)")
      (auto simp: acquire_resources_def split: option.splits)
qed

lemma acquire_place_cases:
  assumes "acquire_place o1 o2 peer n s = (res, t)" and "map_of (co_clients s) peer = Some client"
    and "map_of (co_places s) n = Some p" and "\<not> truthy (pl_acquired p)"
    and "reservation_allows (cs_name client) p s = Inr ()"
    and "acquire_resources n (matching_resources p s) (set_acquired n (Some (cs_name client)) s) = (r, u)"
  shows "(case r of
      Inl e \<Rightarrow> res = Inl e \<and> t = u
    | Inr False \<Rightarrow> res = Inl (Abort FAILED_PRECONDITION) \<and> t = set_acquired n None u
    | Inr True \<Rightarrow> finish_and_schedule o1 o2 n u = (res, t))"
  using assms by (cases r) (auto simp: acquire_place_def abort_def split: bool.splits)

lemma finish_and_schedule_places:
  assumes "finish_and_schedule o1 o2 n s = (res, t)"
  shows "\<exists>ps. same_held ps (co_places t) \<and>
    (\<forall>m. map_of ps m = (if m = n then map_option (touch (co_now s)) (map_of (co_places s) n)
       else map_of (co_places s) m))"
proof (cases "map_of (co_places s) n")
  case None
  with assms show ?thesis
    by (intro exI [of _ "co_places s"]) (simp add: finish_and_schedule_def)
next
  case (Some p)
  let ?s = "finish_place n p s"
  have "same_held (co_places ?s) (co_places t)"
    using schedule_reservations_frame [of ?s o1 o2] assms Some
    by (simp add: finish_and_schedule_def schedule_frame_def)
  with Some show ?thesis
    by (intro exI [of _ "co_places ?s"])
      (simp add: finish_place_def Let_def save_later_def publish_place_def broadcast_def set_place_def)
qed

lemma finish_and_schedule_error:
  "finish_and_schedule o1 o2 n s = (Inl e, t) \<Longrightarrow> \<exists>x. e = Builtin x"
proof -
  assume a: "finish_and_schedule o1 o2 n s = (Inl e, t)"
  then obtain p where "schedule_reservations o1 o2 (finish_place n p s) = (Inl e, t)"
    by (auto simp: finish_and_schedule_def split: option.splits)
  then have "fst (schedule_reservations o1 o2 (finish_place n p s)) = Inl e" by simp
  then show ?thesis by (rule schedule_error)
qed

text \<open>
  The state of the places before a successful acquire, seen from the place after it: the place
  was free, its reservation, if any, belongs to the user, every matching resource was free, and
  the place now belongs to the user and holds them in addition.
\<close>

definition acquired_by :: "coord \<Rightarrow> string \<Rightarrow> string \<Rightarrow> coord \<Rightarrow> bool" where
  "acquired_by s peer n t \<longleftrightarrow>
     (\<exists>client p q. map_of (co_clients s) peer = Some client \<and> map_of (co_places s) n = Some p \<and>
        \<not> truthy (pl_acquired p) \<and> reservation_allows (cs_name client) p s = Inr () \<and>
        (\<forall>r \<in> set (matching_resources p s). \<not> in_conflict s r) \<and>
        map_of (co_places t) n = Some q \<and> pl_acquired q = Some (cs_name client) \<and>
        pl_acquired_resources q = pl_acquired_resources p @ matching_resources p s)"

text \<open>Another place keeps its owner, its users and its resources.\<close>

definition others_kept :: "coord \<Rightarrow> string \<Rightarrow> coord \<Rightarrow> bool" where
  "others_kept s n t \<longleftrightarrow>
     (\<forall>m p. m \<noteq> n \<longrightarrow> map_of (co_places s) m = Some p \<longrightarrow>
        (\<exists>x. map_of (co_places t) m = Some (p\<lparr>pl_reservation := x\<rparr>)))"

lemma in_conflict_set_acquired: "in_conflict (set_acquired n u s) r \<Longrightarrow> places_ok (co_places s) \<Longrightarrow> in_conflict s r"
proof -
  let ?s = "set_acquired n u s"
  assume c: "in_conflict ?s r" and ok: "places_ok (co_places s)"
  have wf: "dict_wf (co_places s)" "dict_wf (co_places ?s)"
    using ok by (auto simp: places_ok_def set_acquired_def set_place_def split: option.split)
  show ?thesis
  proof (cases "truthy (res_acquired s r)")
    case True
    then show ?thesis by (simp add: in_conflict_def)
  next
    case False
    with c obtain m q old where q: "(m, q) \<in> set (co_places ?s)" "old \<in> set (pl_acquired_resources q)"
      "res_path s r = res_path s old" by (auto simp: in_conflict_def list_ex_iff)
    then have "map_of (co_places ?s) m = Some q" using wf(2) by simp
    then obtain q' where "map_of (co_places s) m = Some q'"
      "pl_acquired_resources q' = pl_acquired_resources q"
      by (auto simp: set_acquired_lookup split: if_splits)
    with q show ?thesis by (force simp: in_conflict_def list_ex_iff dest: map_of_SomeD)
  qed
qed

lemma conflict_set_acquired_iff:
  assumes "places_ok (co_places s)"
  shows "in_conflict (set_acquired n u s) r \<longleftrightarrow> in_conflict s r"
proof
  assume "in_conflict s r"
  show "in_conflict (set_acquired n u s) r"
  proof (cases "truthy (res_acquired s r)")
    case True
    then show ?thesis by (simp add: in_conflict_def)
  next
    case False
    with \<open>in_conflict s r\<close> obtain m q old where q: "(m, q) \<in> set (co_places s)"
      "old \<in> set (pl_acquired_resources q)" "res_path s r = res_path s old"
      by (auto simp: in_conflict_def list_ex_iff)
    then have "map_of (co_places s) m = Some q" using assms by (simp add: places_ok_def)
    then obtain q' where "map_of (co_places (set_acquired n u s)) m = Some q'"
      "pl_acquired_resources q' = pl_acquired_resources q"
      by (cases "m = n") (auto simp: set_acquired_lookup)
    with q show ?thesis by (force simp: in_conflict_def list_ex_iff dest: map_of_SomeD)
  qed
qed (use assms in_conflict_set_acquired in blast)

text \<open>
  C7. When \<open>AcquirePlace\<close> succeeds, the caller has a session, the place was free and not reserved
  for anybody else, every resource that the place matches was free and is now held by the place,
  the place belongs to the caller, and no other place is changed but for its reservation.
\<close>

theorem acquire_place_succeeds:
  assumes "locked_inv s" and "fst (acquire_place o1 o2 peer n s) = Inr ()"
  shows "acquired_by s peer n (snd (acquire_place o1 o2 peer n s)) \<and>
    others_kept s n (snd (acquire_place o1 o2 peer n s))"
proof -
  obtain t where run: "acquire_place o1 o2 peer n s = (Inr (), t)"
    using assms(2) by (cases "acquire_place o1 o2 peer n s") simp
  then obtain client p where cp: "map_of (co_clients s) peer = Some client"
    "map_of (co_places s) n = Some p" "\<not> truthy (pl_acquired p)"
    "reservation_allows (cs_name client) p s = Inr ()"
    by (auto simp: acquire_place_def abort_def split: option.splits if_splits sum.splits)
  let ?s = "set_acquired n (Some (cs_name client)) s" and ?rs = "matching_resources p s"
  obtain r u where a: "acquire_resources n ?rs ?s = (r, u)" by (cases "acquire_resources n ?rs ?s")
  from acquire_place_cases [OF run cp a] have r: "r = Inr True" and fin: "finish_and_schedule o1 o2 n u = (Inr (), t)"
    by (auto split: sum.splits bool.splits)
  have ok: "places_ok (co_places s)" using assms(1) by (simp add: locked_inv_def coord_inv_def)
  from acquire_resources_True [OF a [unfolded r] set_acquired_inv [OF assms(1)]]
  have free: "\<forall>r \<in> set ?rs. \<not> in_conflict s r"
    and look: "\<And>m. map_of (co_places u) m = map_of (co_places (update_resources n (\<lambda>held. held @ ?rs) ?s)) m"
    using conflict_set_acquired_iff [OF ok] by (auto simp: list_ex_iff)
  from finish_and_schedule_places [OF fin] obtain ps where
    ps: "same_held ps (co_places t)"
    "\<forall>m. map_of ps m = (if m = n then map_option (touch (co_now u)) (map_of (co_places u) n)
       else map_of (co_places u) m)" by blast
  let ?p = "touch (co_now u) (p\<lparr>pl_acquired := Some (cs_name client),
      pl_acquired_resources := pl_acquired_resources p @ ?rs\<rparr>)"
  have "map_of ps n = Some ?p"
    using ps(2) look cp(2) by (simp add: update_resources_lookup set_acquired_lookup)
  from same_held_fwd [OF ps(1) this] obtain x where x: "map_of (co_places t) n = Some (?p\<lparr>pl_reservation := x\<rparr>)" by blast
  have "acquired_by s peer n t"
    unfolding acquired_by_def
    using cp free x by (intro exI [of _ client] exI [of _ p] exI [of _ "?p\<lparr>pl_reservation := x\<rparr>"]) (simp add: touch_def)
  moreover have "others_kept s n t"
    unfolding others_kept_def
  proof (intro allI impI)
    fix m q assume "m \<noteq> n" "map_of (co_places s) m = Some q"
    then have "map_of ps m = Some q" using ps(2) look by (simp add: update_resources_lookup set_acquired_lookup)
    with same_held_fwd [OF ps(1)] show "\<exists>x. map_of (co_places t) m = Some (q\<lparr>pl_reservation := x\<rparr>)" by blast
  qed
  ultimately show ?thesis by (simp add: run)
qed

lemma demo_acquire: "fst (acquire_place plain_order plain_order ''c1'' ''p1'' demo_coord) = Inr ()"
  by code_simp

theorem acquire_place_succeeds_witness:
  "acquired_by demo_coord ''c1'' ''p1'' (snd (acquire_place plain_order plain_order ''c1'' ''p1'' demo_coord)) \<and>
   others_kept demo_coord ''p1'' (snd (acquire_place plain_order plain_order ''c1'' ''p1'' demo_coord))"
  by (rule acquire_place_succeeds [OF demo_inv demo_acquire])



lemma demo_acquire_refused:
  "fst (acquire_place plain_order plain_order ''c1'' ''p1''
     (demo_coord\<lparr>co_script := [WEvent (EvExporterSend ''x1''), WEvent (EvExporterResponse ''x1'' False [])]\<rparr>))
   = Inl (Abort FAILED_PRECONDITION)"
  by code_simp



section \<open>Releasing\<close>

text \<open>
  When \<open>ReleasePlace\<close> returns for an acquired place, asked by anybody or for the user that has
  it, the place is free, holds no resource and allows nobody, whatever the exporters answered,
  and no other place is changed but for its reservation. Asked for a user that does not have the
  place it changes nothing.
\<close>

lemma release_place_frees:
  assumes "locked_inv s" and "map_of (co_places s) n = Some p" and "truthy (pl_acquired p)"
    and "fst (release_place o1 o2 n fromuser s) = Inr ()"
  shows "if truthy fromuser \<and> pl_acquired p \<noteq> fromuser
    then snd (release_place o1 o2 n fromuser s) = s
    else (\<exists>q. map_of (co_places (snd (release_place o1 o2 n fromuser s))) n = Some q \<and>
        pl_acquired q = None \<and> pl_acquired_resources q = [] \<and> pl_allowed q = []) \<and>
      others_kept s n (snd (release_place o1 o2 n fromuser s))"
proof (cases "truthy fromuser \<and> pl_acquired p \<noteq> fromuser")
  case True
  with assms(2,3) show ?thesis by (simp add: release_place_def with_place_def)
next
  case False
  obtain t where run: "release_place o1 o2 n fromuser s = (Inr (), t)"
    using assms(4) by (cases "release_place o1 o2 n fromuser s") simp
  let ?held = "pl_acquired_resources p"
  let ?v = "update_resources n (\<lambda>held. fold remove1 ?held held) s"
  obtain y w where loop: "for_each (release_one True) ?held ?v = (y, w)"
    by (cases "for_each (release_one True) ?held ?v")
  have rel: "release_resources (Some n) ?held True s = (y, w)"
    using loop by (simp add: release_resources_def)
  have fin: "finish_and_schedule o1 o2 n (clear_place n w) = (Inr (), t)"
    using run assms(2,3) False rel by (cases y) (auto simp: release_place_def with_place_def)
  have "held_step ?v w" using release_loop_held [of ?v True ?held] loop by simp
  moreover have "locked_inv ?v"
  proof (rule update_resources_shrink [OF assms(1)])
    fix held assume "set held \<subseteq> {..<length (co_heap s)}" "distinct (map (res_path s) held)"
    with fold_remove1_map fold_remove1_subset [of ?held held]
    show "set (fold remove1 ?held held) \<subseteq> {..<length (co_heap s)} \<and>
      distinct (map (res_path s) (fold remove1 ?held held)) \<and>
      res_path s ` set (fold remove1 ?held held) \<subseteq> res_path s ` set held" by blast
  qed
  ultimately have pw: "co_places w = co_places ?v" using held_step_frame by blast
  let ?q = "p\<lparr>pl_acquired_resources := [], pl_acquired := None, pl_allowed := []\<rparr>"
  have look: "map_of (co_places (clear_place n w)) m =
      (if m = n then Some ?q else map_of (co_places s) m)" for m
    using assms(2) pw
    by (simp add: clear_place_def set_place_def update_resources_lookup fold_remove1_self)
  from finish_and_schedule_places [OF fin] obtain ps where ps: "same_held ps (co_places t)"
    "\<forall>m. map_of ps m = (if m = n then map_option (touch (co_now (clear_place n w))) (Some ?q)
       else map_of (co_places s) m)" using look by auto
  then have "map_of ps n = Some (touch (co_now (clear_place n w)) ?q)" by simp
  from same_held_fwd [OF ps(1) this] obtain x where
    x: "map_of (co_places t) n = Some ((touch (co_now (clear_place n w)) ?q)\<lparr>pl_reservation := x\<rparr>)" by blast
  have "others_kept s n t"
    unfolding others_kept_def
  proof (intro allI impI)
    fix m q assume "m \<noteq> n" "map_of (co_places s) m = Some q"
    with ps(2) have "map_of ps m = Some q" by simp
    with same_held_fwd [OF ps(1)] show "\<exists>x. map_of (co_places t) m = Some (q\<lparr>pl_reservation := x\<rparr>)" by blast
  qed
  with x False run show ?thesis by (auto simp: touch_def)
qed

definition demo_held :: coord where
  "demo_held = demo_coord\<lparr>co_places := [(''p1'', (new_place 0 ''p1'')
      \<lparr>pl_acquired := Some ''host/user'', pl_acquired_resources := [0], pl_allowed := [''a/b'']\<rparr>)],
     co_script := [WTimeout]\<rparr>"

lemma demo_held_inv: "locked_inv demo_held"
  unfolding locked_inv_def coord_inv_def sessions_ok_def places_ok_def exclusive_paths_def
    names_distinct_def dict.every_def
  by (simp add: demo_held_def demo_coord_def new_place_def session_ok_def group_ok_def entry_ok_def
      held_ok_def held_paths_def dict.every_def)

lemma demo_release: "fst (release_place plain_order plain_order ''p1'' None demo_held) = Inr ()"
  by code_simp

theorem release_place_frees_witness:
  "(\<exists>q. map_of (co_places (snd (release_place plain_order plain_order ''p1'' None demo_held))) ''p1'' = Some q \<and>
      pl_acquired q = None \<and> pl_acquired_resources q = [] \<and> pl_allowed q = []) \<and>
    others_kept demo_held ''p1'' (snd (release_place plain_order plain_order ''p1'' None demo_held))"
  using release_place_frees [OF demo_held_inv _ _ demo_release, of "(new_place 0 ''p1'')
      \<lparr>pl_acquired := Some ''host/user'', pl_acquired_resources := [0], pl_allowed := [''a/b'']\<rparr>"]
  by (simp add: demo_held_def new_place_def)



section \<open>A reader that waits for the lock\<close>

text \<open>
  Command \<open>c\<close> has no response and only the session of \<open>peer\<close> can still give it one, but the
  reading task of that session does not run.
\<close>

definition stuck :: "nat \<Rightarrow> string \<Rightarrow> coord \<Rightarrow> bool" where
  "stuck c peer s \<longleftrightarrow>
     co_locked s \<and> c < length (co_commands s) \<and> ec_response (co_commands s ! c) = None \<and>
     (\<exists>e. map_of (co_exporters s) peer = Some e \<and> es_rx e \<noteq> RxRunning) \<and>
     (\<forall>p e. p \<noteq> peer \<longrightarrow> map_of (co_exporters s) p = Some e \<longrightarrow>
        c \<notin> set (es_queue e) \<and> c \<notin> set (es_pending e))"

lemma set_resource_commands:
  "set_resource grp name m e s = (r, t) \<Longrightarrow> co_commands t = co_commands s \<and>
   co_exporters t = co_exporters s \<and> co_locked t = co_locked s"
  by (auto simp: set_resource_def Let_def set_data_def broadcast_def mark_orphaned_def
      split: option.splits if_splits)

lemma set_resource_session:
  "set_resource grp name m e s = (Inr (a, e'), t) \<Longrightarrow>
   es_queue e' = es_queue e \<and> es_pending e' = es_pending e \<and> es_rx e' = es_rx e"
  by (auto simp: set_resource_def Let_def set_group_def split: option.splits)

lemma stuck_quiet: "stuck c peer s \<Longrightarrow> quiet s t \<Longrightarrow> co_commands t = co_commands s \<Longrightarrow> stuck c peer t"
  by (simp add: stuck_def quiet_def)

text \<open>Another session is put back, without taking up the command.\<close>

lemma stuck_put:
  assumes "stuck c peer s" and "p \<noteq> peer" and "c \<notin> set (es_queue e)" and "c \<notin> set (es_pending e)"
    and "co_exporters t = co_exporters s" and "co_locked t = co_locked s" and "co_commands t = co_commands s"
  shows "stuck c peer (put_exporter p e t)"
  using assms by (auto simp: stuck_def put_exporter_def)

lemma stuck_other: "stuck c peer s \<Longrightarrow> map_of (co_exporters s) p = Some e \<Longrightarrow> es_rx e = RxRunning \<Longrightarrow>
   p \<noteq> peer \<and> c \<notin> set (es_queue e) \<and> c \<notin> set (es_pending e)"
proof -
  assume s: "stuck c peer s" and e: "map_of (co_exporters s) p = Some e" "es_rx e = RxRunning"
  then have "p \<noteq> peer" by (auto simp: stuck_def)
  with s e show ?thesis by (simp add: stuck_def)
qed

lemma stuck_resource:
  assumes "stuck c peer s" and "map_of (co_exporters s) p = Some e" and "es_rx e = RxRunning"
  shows "stuck c peer (exporter_resource p grp name m e s)"
proof -
  note o = stuck_other [OF assms]
  obtain r t where m: "set_resource grp name (Some m) e s = (r, t)"
    by (cases "set_resource grp name (Some m) e s")
  note fr = set_resource_commands [OF m]
  have put: "stuck c peer (put_exporter p e' t)"
    if "es_queue e' = es_queue e" "es_pending e' = es_pending e" for e'
    using that o fr by (intro stuck_put [OF assms(1)]) simp_all
  have lk: "co_locked s" using assms(1) by (simp add: stuck_def)
  show ?thesis
  proof (cases r)
    case (Inl err)
    with m put show ?thesis by (simp add: exporter_resource_def)
  next
    case (Inr ae)
    obtain a e1 where ae: "ae = (a, e1)" by (cases ae)
    with Inr m have "es_queue e1 = es_queue e" "es_pending e1 = es_pending e"
      using set_resource_session [of grp name "Some m" e s a e1 t] by simp_all
    with put have "stuck c peer (put_exporter p (e1\<lparr>es_rx := RxWaiting grp\<rparr>) t)"
      "stuck c peer (save_later (put_exporter p e1 t))"
      using stuck_quiet [OF _ quiet_ops(2)] by (simp_all add: save_later_def)
    with Inr ae m lk show ?thesis by (simp add: exporter_resource_def)
  qed
qed

lemma stuck_response:
  assumes "stuck c peer s" and "map_of (co_exporters s) p = Some e" and "es_rx e = RxRunning"
  shows "stuck c peer (exporter_response p ok reason e s)"
proof (cases "es_pending e")
  case Nil
  with stuck_other [OF assms] show ?thesis
    by (simp add: exporter_response_def stuck_put [OF assms(1)])
next
  case (Cons d ds)
  have "stuck c peer (put_exporter p (e\<lparr>es_pending := ds\<rparr>) s)" "d \<noteq> c"
    using stuck_other [OF assms] Cons by (auto intro!: stuck_put [OF assms(1)])
  with Cons show ?thesis
    by (auto simp: exporter_response_def complete_command_def stuck_def)
qed

lemma stuck_send:
  assumes "stuck c peer s" and "map_of (co_exporters s) p = Some e"
  shows "stuck c peer (exporter_send p e s)"
proof (cases "p = peer")
  case True
  with assms show ?thesis
    by (auto simp: exporter_send_def stuck_def put_exporter_def split: list.split)
next
  case False
  with assms show ?thesis
    by (auto simp: exporter_send_def stuck_def put_exporter_def split: list.split)
qed

lemma stuck_startup:
  assumes "stuck c peer s" and "\<And>e. map_of (co_exporters s) p = Some e \<Longrightarrow> es_rx e = RxRunning"
  shows "stuck c peer (exporter_startup p name s)"
proof -
  have p: "p \<noteq> peer" using assms by (auto simp: stuck_def)
  have o: "c \<notin> set (es_queue e) \<and> c \<notin> set (es_pending e)" if "map_of (co_exporters s) p = Some e" for e
    using that assms(1) p by (simp add: stuck_def)
  show ?thesis
    using stuck_put [OF assms(1) p] o assms(1) by (auto simp: exporter_startup_def split: option.split)
qed

lemma drop_resources_frame:
  "fold drop_resource xs (e, s) = (e', t) \<Longrightarrow> co_commands t = co_commands s \<and>
   co_exporters t = co_exporters s \<and> co_locked t = co_locked s"
proof (induction xs arbitrary: e s)
  case (Cons x xs)
  obtain e1 s1 where d: "drop_resource x (e, s) = (e1, s1)" by (cases "drop_resource x (e, s)")
  obtain r u where m: "set_resource (fst x) (snd x) None e s = (r, u)"
    by (cases "set_resource (fst x) (snd x) None e s")
  have "s1 = u" using d m by (cases r) (auto simp: drop_resource_def)
  with set_resource_commands [OF m] Cons d show ?case by auto
qed simp

lemma stuck_disconnect:
  assumes "stuck c peer s" and "map_of (co_exporters s) p = Some e"
  shows "stuck c peer (exporter_disconnect p e s)"
proof (cases "es_rx e")
  case RxRunning
  let ?s = "s\<lparr>co_exporters := AList.delete p (co_exporters s)\<rparr>"
  obtain e' t where d: "fold drop_resource (session_resources e) (e, ?s) = (e', t)"
    by (cases "fold drop_resource (session_resources e) (e, ?s)")
  have "p \<noteq> peer" using stuck_other [OF assms RxRunning] by simp
  with assms(1) drop_resources_frame [OF d] have "stuck c peer t" by (auto simp: stuck_def)
  with RxRunning d show ?thesis by (simp add: exporter_disconnect_def)
next
  case (RxWaiting grp)
  with assms show ?thesis
    by (cases "p = peer") (auto simp: exporter_disconnect_def stuck_def put_exporter_def)
next
  case RxDead
  with assms(1) show ?thesis by (simp add: exporter_disconnect_def)
qed

lemma stuck_resume: "stuck c peer s \<Longrightarrow> stuck c peer (resume_reader p e s)"
  by (auto simp: resume_reader_def stuck_def split: rx_state.split)

lemma commands_same:
  "co_commands (client_startup p n s) = co_commands s" "co_commands (send_client p m s) = co_commands s"
  "co_commands (client_disconnect p s) = co_commands s" "co_commands (snd (save s)) = co_commands s"
  "co_commands (fold (\<lambda>b. send_client p (OutUpdates b)) bs s) = co_commands s"
proof -
  show one: "co_commands (send_client p m s) = co_commands s" for m s
    by (simp add: send_client_def split: option.split)
  show "co_commands (fold (\<lambda>b. send_client p (OutUpdates b)) bs s) = co_commands s"
    by (induction bs arbitrary: s) (simp_all add: one)
qed (simp_all add: client_startup_def client_disconnect_def save_def split: option.split)

lemma subscribe_commands: "co_commands (client_subscribe p a b s) = co_commands s"
  by (simp add: client_subscribe_def subscribe_places_def subscribe_resources_def Let_def commands_same)

lemma stuck_startup_event: "stuck c peer s \<Longrightarrow> stuck c peer (deliver (EvExporterStartup p name) s)"
  by (cases "map_of (co_exporters s) p") (auto intro: stuck_startup)

lemma stuck_deliver: "stuck c peer s \<Longrightarrow> stuck c peer (deliver ev s)"
  by (cases ev)
    (use stuck_startup_event in \<open>auto simp: on_exporter_def reading_def stuck_resource stuck_response stuck_send
      stuck_disconnect stuck_resume commands_same subscribe_commands
      intro: stuck_quiet quiet_subscribe split: option.split\<close>)

lemma stuck_wait: "stuck c peer s \<Longrightarrow> fst (wait_command c ws s) \<in> {Inl TimeoutErr, Inl Cancelled}"
proof (induction c ws s rule: wait_command.induct)
  case (1 c s)
  then show ?case by (simp add: stuck_def)
next
  case (2 c w ws s)
  then have none: "ec_response (co_commands s ! c) = None" by (simp add: stuck_def)
  with 2 show ?case by (cases w) (simp_all add: stuck_deliver)
qed

text \<open>The identifiers in the sessions are those of commands.\<close>

definition commands_known :: "coord \<Rightarrow> bool" where
  "commands_known s \<longleftrightarrow>
     dict.every (\<lambda>_ e. set (es_queue e) \<union> set (es_pending e) \<subseteq> {..<length (co_commands s)}) (co_exporters s)"

text \<open>
  C9. An exporter that announces a new resource before it answers a command cannot answer it in
  time: its messages are read no further, because the reading task waits for the lock that the
  caller holds while it waits for the answer. Whatever else happens, the command ends with a
  timeout (or the call is cancelled), never with the exporter's response.
\<close>

theorem new_resource_blocks_command:
  assumes "co_locked s" and "commands_known s" and "sessions_ok s"
    and "res_path s r = (exporter, g, cls, n)"
    and "get_exporter_by_name exporter s = Some (peer, e)" and "es_rx e = RxRunning"
    and "\<And>grps. map_of (es_groups e) grp = Some grps \<Longrightarrow> map_of grps name = None"
    and "co_script s = WEvent (EvExporterResource peer grp name m) # ws"
  shows "fst (run_command r place_name s) \<in> {Inl TimeoutErr, Inl Cancelled}"
proof -
  let ?c = "length (co_commands s)"
  let ?cmd = "\<lparr>ec_group = g, ec_resource = n, ec_place = place_name, ec_response = None, ec_expired = False\<rparr>"
  let ?e = "e\<lparr>es_queue := es_queue e @ [?c]\<rparr>"
  let ?s1 = "put_exporter peer ?e (s\<lparr>co_commands := co_commands s @ [?cmd]\<rparr>)"
  let ?s2 = "deliver (EvExporterResource peer grp name m) ?s1"
  have look: "map_of (co_exporters ?s1) peer = Some ?e" by (simp add: put_exporter_def)
  obtain a e1 t where sr: "set_resource grp name (Some m) ?e ?s1 = (Inr (a, e1), t)" and add: "a = ActionADD"
    using assms(7) by (cases "map_of (es_groups e) grp") (auto simp: set_resource_def Let_def)
  note fr = set_resource_commands [OF sr]
  have s2: "?s2 = put_exporter peer (e1\<lparr>es_rx := RxWaiting grp\<rparr>) t"
    using look assms(1,6) by (simp add: on_exporter_def reading_def exporter_resource_def sr add)
  have others: "?c \<notin> set (es_queue e') \<and> ?c \<notin> set (es_pending e')"
    if "map_of (co_exporters s) p = Some e'" for p e'
    using assms(2) that unfolding commands_known_def by (auto dest: dict.every_get)
  have "stuck ?c peer ?s2"
    unfolding s2 using fr assms(1) others by (auto simp: stuck_def put_exporter_def)
  then have "fst (wait_command ?c ws ?s2) \<in> {Inl TimeoutErr, Inl Cancelled}" by (rule stuck_wait)
  moreover have "wait_command ?c (co_script ?s1) ?s1 = wait_command ?c ws ?s2"
    using assms(8) by (simp add: put_exporter_def)
  moreover obtain x u where w: "wait_command ?c (co_script ?s1) ?s1 = (x, u)" by (cases "wait_command ?c (co_script ?s1) ?s1")
  ultimately have x: "x \<in> {Inl TimeoutErr, Inl Cancelled}" by (metis fst_conv)
  have "run_command r place_name s = and_then (wait_command ?c (co_script ?s1) ?s1)
      (\<lambda>_ t. case ec_response (co_commands t ! ?c) of Some (True, _) \<Rightarrow> (Inr (), t) | _ \<Rightarrow> (Inl ExporterErr, t))"
    using assms(4,5) by (simp add: run_command_def Let_def)
  with w x show ?thesis by auto
qed

theorem new_resource_blocks_command_witness:
  "fst (run_command 0 (Some ''p1'') (demo_coord\<lparr>co_script :=
      [WEvent (EvExporterResource ''x1'' ''g'' ''r2''
         \<lparr>pbr_cls = ''USB'', pbr_params = [], pbr_extra = [], pbr_acquired = [], pbr_avail = True\<rparr>),
       WEvent (EvExporterSend ''x1''), WEvent (EvExporterResponse ''x1'' True [])]\<rparr>))
   \<in> {Inl TimeoutErr, Inl Cancelled}"
proof (rule new_resource_blocks_command [where e = "\<lparr>es_name = ''ex'',
    es_groups = [(''g'', [(''r'', 0)])], es_queue = [], es_pending = [], es_rx = RxRunning\<rparr>"])
  fix ws
  show "sessions_ok (demo_coord\<lparr>co_script := ws\<rparr>)"
    using demo_inv_script [of ws] by (simp add: locked_inv_def coord_inv_def)
  show "commands_known (demo_coord\<lparr>co_script := ws\<rparr>)"
    by (simp add: commands_known_def demo_coord_def dict.every_def)
qed (simp_all add: demo_coord_def get_exporter_by_name_def)



section \<open>Allowing users, tags and aliases\<close>

text \<open>
  Only the user that has a place can allow another user on it: \<open>AllowPlace\<close> succeeds exactly
  when the caller has a session and the place is acquired under the name of that session, and
  then the user is allowed and the place is otherwise the same.
\<close>

lemma allow_place_owner_only:
  "(case allow_place peer n user s of
      (Inr _, t) \<Rightarrow> \<exists>client p. map_of (co_clients s) peer = Some client \<and> map_of (co_places s) n = Some p \<and>
        pl_acquired p = Some (cs_name client) \<and> cs_name client \<noteq> [] \<and>
        map_of (co_places t) n =
          Some (touch (co_now s) (p\<lparr>pl_allowed := List.insert user (pl_allowed p)\<rparr>))
    | (Inl e, t) \<Rightarrow> t = s \<and> e \<in> {Abort FAILED_PRECONDITION, Abort INVALID_ARGUMENT} \<and>
        (\<nexists>client p. map_of (co_clients s) peer = Some client \<and> map_of (co_places s) n = Some p \<and>
           pl_acquired p = Some (cs_name client) \<and> cs_name client \<noteq> []))"
proof (cases "map_of (co_clients s) peer")
  case None
  then show ?thesis by (simp add: allow_place_def abort_def)
next
  case client: (Some client)
  show ?thesis
  proof (cases "map_of (co_places s) n")
    case None
    with client show ?thesis by (simp add: allow_place_def with_place_def abort_def)
  next
    case (Some p)
    with client show ?thesis
      by (cases "pl_acquired p")
        (auto simp: allow_place_def with_place_def abort_def finish_with_def finish_place_def Let_def
          save_later_def publish_place_def broadcast_def set_place_def)
  qed
qed

text \<open>
  No tag value is ever rejected, and of a tag key only the first two characters are looked at:
  \<open>SetPlaceTags\<close> succeeds exactly when the place exists and every key starts with a lower case letter
  and one more tag character, although the patterns describe complete keys and values of at most
  one character.
\<close>

lemma tag_values_never_rejected:
  "(\<exists>t. set_place_tags n tags s = (Inr (), t)) \<longleftrightarrow>
   map_of (co_places s) n \<noteq> None \<and> list_all (\<lambda>(k, _). tag_key_match k) tags"
  by (auto simp: set_place_tags_def with_place_def abort_def finish_with_def tags_valid_def
      list_all_iff split: option.splits if_splits)

text \<open>
  Removing an alias that a place does not have does not abort with \<open>INVALID_ARGUMENT\<close>, as the
  handler intends: the exception of \<open>set.remove\<close> is a \<open>KeyError\<close> and escapes.
\<close>

lemma missing_alias_raises_key_error:
  assumes "map_of (co_places s) n = Some p" and "alias \<notin> set (pl_aliases p)"
  shows "delete_place_alias n alias s = (Inl (Builtin KeyError), s)"
  using assms by (simp add: delete_place_alias_def with_place_def raise_error_def)

theorem missing_alias_raises_key_error_witness:
  "delete_place_alias ''p1'' ''x'' demo_coord = (Inl (Builtin KeyError), demo_coord)"
  by (rule missing_alias_raises_key_error
      [where p = "(new_place 0 ''p1'')\<lparr>pl_matches := [\<lparr>rm_exporter = ''ex'', rm_group = ''g'',
         rm_cls = ''*'', rm_name = None, rm_rename = None\<rparr>]\<rparr>"])
    (simp_all add: demo_coord_def new_place_def)


section \<open>Batches\<close>

lemma batches_concat: "concat (batches xs) = xs"
proof (induction xs rule: batches.induct)
  case (1 xs)
  then show ?case by (subst batches.simps) simp
qed



section \<open>Saving and loading\<close>

text \<open>
  C11. What survives a restart: a coordinator that loads the places another one saved has the same
  places with their aliases, comments, tags, matches and times, all of them free, without
  reservation and without allowed users.
\<close>

theorem load_restores_saved_places:
  assumes "map_of (co_places s) n = Some p" and "pl_name p = n" and "place_ok p"
  shows "map_of (load (Some (snd (fst (save s))))) n =
    Some (p\<lparr>pl_acquired := None, pl_acquired_resources := [], pl_allowed := [], pl_reservation := None\<rparr>)"
proof -
  have "map_of (snd (fst (save s))) n = Some (place_asdict (res_path s) p)"
    using assms(1) by (simp add: save_def map_of_map)
  then show ?thesis
    using assms(2,3)
    by (simp add: map_of_load load_place_def place_asdict_def place_ok_def distinct_remdups_id)
qed

theorem load_restores_saved_places_witness:
  "map_of (load (Some (snd (fst (save demo_held))))) ''p1'' = Some (new_place 0 ''p1'')"
  by (subst load_restores_saved_places [where p = "(new_place 0 ''p1'')
      \<lparr>pl_acquired := Some ''host/user'', pl_acquired_resources := [0], pl_allowed := [''a/b'']\<rparr>"])
    (simp_all add: demo_held_def new_place_def place_ok_def)


section \<open>What the synchronisation may change\<close>

text \<open>Every place holds the same paths, in the same order, and is otherwise the same.\<close>

definition paths_kept :: "coord \<Rightarrow> coord \<Rightarrow> bool" where
  "paths_kept s t \<longleftrightarrow>
     (\<forall>n p. map_of (co_places s) n = Some p \<longrightarrow>
        (\<exists>rs. map_of (co_places t) n = Some (p\<lparr>pl_acquired_resources := rs\<rparr>) \<and>
           map (res_path t) rs = map (res_path s) (pl_acquired_resources p)))"

lemma paths_keptD:
  "paths_kept s t \<Longrightarrow> map_of (co_places s) n = Some p \<Longrightarrow>
   \<exists>rs. map_of (co_places t) n = Some (p\<lparr>pl_acquired_resources := rs\<rparr>) \<and>
     map (res_path t) rs = map (res_path s) (pl_acquired_resources p)"
  unfolding paths_kept_def by blast

lemma paths_kept_trans:
  assumes "paths_kept s t" and "paths_kept t u"
  shows "paths_kept s u"
  unfolding paths_kept_def
proof (intro allI impI)
  fix n p assume "map_of (co_places s) n = Some p"
  from paths_keptD [OF assms(1) this] obtain rs where rs:
    "map_of (co_places t) n = Some (p\<lparr>pl_acquired_resources := rs\<rparr>)"
    "map (res_path t) rs = map (res_path s) (pl_acquired_resources p)" by blast
  from paths_keptD [OF assms(2) rs(1)] rs(2)
  show "\<exists>rs. map_of (co_places u) n = Some (p\<lparr>pl_acquired_resources := rs\<rparr>) \<and>
     map (res_path u) rs = map (res_path s) (pl_acquired_resources p)" by auto
qed

text \<open>The places are untouched and the paths of resources are stable.\<close>

definition places_same :: "coord \<Rightarrow> coord \<Rightarrow> bool" where
  "places_same s t \<longleftrightarrow> (\<forall>n. map_of (co_places t) n = map_of (co_places s) n) \<and>
     heap_ext (co_heap s) (co_heap t)"

lemma places_same_trans: "places_same s t \<Longrightarrow> places_same t u \<Longrightarrow> places_same s u"
  unfolding places_same_def by (auto intro: heap_ext_trans)

lemma places_same_refl [simp]: "places_same s s"
  by (simp add: places_same_def)

lemma places_same_kept:
  assumes "places_same s t" and "locked_inv s"
  shows "paths_kept s t"
  unfolding paths_kept_def
proof (intro allI impI)
  fix n p assume p: "map_of (co_places s) n = Some p"
  have "set (pl_acquired_resources p) \<subseteq> {..<length (co_heap s)}"
    using place_held_ok [OF assms(2) p] by (simp add: held_ok_def)
  then have "map (res_path t) (pl_acquired_resources p) = map (res_path s) (pl_acquired_resources p)"
    using assms(1) by (auto simp: places_same_def heap_ext_def)
  moreover have "p\<lparr>pl_acquired_resources := pl_acquired_resources p\<rparr> = p" by simp
  ultimately show "\<exists>rs. map_of (co_places t) n = Some (p\<lparr>pl_acquired_resources := rs\<rparr>) \<and>
     map (res_path t) rs = map (res_path s) (pl_acquired_resources p)"
    using assms(1) p unfolding places_same_def by metis
qed

lemma held_step_same: "held_step s t \<Longrightarrow> locked_inv s \<Longrightarrow> places_same s t"
  using held_step_frame by (simp add: places_same_def)

lemma release_unheld_same:
  assumes "release_resources pn [r] True s = (x, t)" and "locked_inv s"
    and "\<And>n p. map_of (co_places s) n = Some p \<Longrightarrow> r \<notin> set (pl_acquired_resources p)"
  shows "places_same s t"
proof (cases pn)
  case None
  with assms(1) show ?thesis by (simp add: release_resources_def)
next
  case (Some n)
  let ?s = "update_resources n (\<lambda>held. fold remove1 [r] held) s"
  have look: "map_of (co_places ?s) m = map_of (co_places s) m" for m
  proof (cases "map_of (co_places s) n")
    case (Some p)
    with assms(3) [OF Some] show ?thesis by (simp add: update_resources_lookup remove1_idem)
  qed (simp add: update_resources_lookup)
  have heap: "co_heap ?s = co_heap s" by (simp add: update_resources_def set_place_def split: option.split)
  have st: "held_step ?s t" using release_loop_held [of ?s True "[r]"] assms(1) Some by (simp add: release_resources_def)
  have "locked_inv ?s"
    using assms(2) assms(3)
    by (intro update_resources_shrink) (auto simp: distinct_map dest: inj_on_subset notin_set_remove1
        intro: inj_on_subset set_remove1_subset [THEN subsetD])
  from held_step_frame [OF st this] look heap show ?thesis by (simp add: places_same_def)
qed

lemma sync_release_same:
  "locked_inv s \<Longrightarrow> paths_ok (co_heap s) d \<Longrightarrow> distinct paths \<Longrightarrow> set paths \<subseteq> set (keys d) \<Longrightarrow>
   (\<And>path n p. path \<in> set paths \<Longrightarrow> map_of (co_places s) n = Some p \<Longrightarrow> path \<notin> held_paths (co_heap s) p) \<Longrightarrow>
   places_same s (snd (sync_release deadline paths d s))"
proof (induction paths arbitrary: d s)
  case Nil
  then show ?case by simp
next
  case (Cons path paths)
  let ?r = "the (map_of d path)"
  have rest: "distinct paths" "set paths \<subseteq> set (keys d)" "path \<in> set (keys d)" "path \<notin> set paths"
    using Cons.prems(3,4) by auto
  obtain r where r: "map_of d path = Some r" using rest(3) unfolding in_keys_iff by blast
  with Cons.prems(2) have rp: "res_path s r = path"
    unfolding paths_ok_def by (auto dest: dict.every_get)
  have unheld: "?r \<notin> set (pl_acquired_resources p)" if "map_of (co_places s) n = Some p" for n p
    using Cons.prems(5) [OF _ that, of path] r rp by (auto simp: held_paths_def)
  have skip: "places_same s (snd (sync_release deadline paths d s))"
    using Cons.IH [OF Cons.prems(1,2) rest(1,2)] Cons.prems(5) by simp
  have rel: "places_same s (snd (case release_resources pn [?r] True s of
      (Inr _, t) \<Rightarrow> sync_release deadline paths (AList.delete path d) t
    | (Inl e, t) \<Rightarrow> if e = Cancelled then (Inl e, t) else (Inr d, t)))" for pn
  proof -
    obtain x t where m: "release_resources pn [?r] True s = (x, t)"
      by (cases "release_resources pn [?r] True s")
    have same: "places_same s t" by (rule release_unheld_same [OF m Cons.prems(1) unheld])
    from release_result_ext [OF m Cons.prems(1)] have t: "locked_inv t" "heap_ext (co_heap s) (co_heap t)"
      by simp_all
    have "paths_ok (co_heap t) (AList.delete path d)"
      using paths_ok_delete paths_ok_ext [OF Cons.prems(2) t(2)] by blast
    moreover have "set paths \<subseteq> set (keys (AList.delete path d))" using rest by auto
    moreover have "q \<notin> held_paths (co_heap t) p" if "q \<in> set paths" "map_of (co_places t) n = Some p" for q n p
    proof -
      have p: "map_of (co_places s) n = Some p" using that(2) same by (simp add: places_same_def)
      have "held_paths (co_heap t) p = held_paths (co_heap s) p"
        by (rule held_ext(2) [OF t(2) place_held_ok [OF Cons.prems(1) p]])
      with Cons.prems(5) [OF _ p, of q] that(1) show ?thesis by simp
    qed
    ultimately have "places_same t (snd (sync_release deadline paths (AList.delete path d) t))"
      using Cons.IH [OF t(1) _ rest(1)] by blast
    with m same show ?thesis by (cases x) (auto intro: places_same_trans)
  qed
  show ?case
    using skip rel by (simp add: Let_def split: option.split prod.split)
qed

lemma sync_acquire_same: "locked_inv s \<Longrightarrow> places_same s (snd (sync_acquire deadline orphaned paths d s))"
proof (induction paths arbitrary: d s)
  case Nil
  then show ?case by simp
next
  case (Cons path paths)
  have acq: "places_same s (snd (case acquire_resource name new s of
      (Inr _, t) \<Rightarrow> sync_acquire deadline orphaned paths (AList.update (res_path t new) new d) t
    | (Inl e, t) \<Rightarrow> if e = Cancelled then (Inl e, t) else (Inr d, t)))" for name new
  proof -
    obtain x t where m: "acquire_resource name new s = (x, t)" by (cases "acquire_resource name new s")
    then have st: "held_step s t" by (simp add: acquire_resource_def run_result_held)
    have t: "locked_inv t" by (rule locked_inv_held [OF Cons.prems st])
    have same: "places_same s t" by (rule held_step_same [OF st Cons.prems])
    from Cons.IH [OF t] same m show ?thesis by (cases x) (auto intro: places_same_trans)
  qed
  show ?case
    using Cons acq by (simp add: Let_def split: option.split prod.split)
qed

lemma sync_replace_kept:
  assumes "locked_inv s" and "paths_ok (co_heap s) orphaned" and "paths_ok (co_heap s) acquired"
    and "map_of orphaned path = Some old" and "map_of acquired path = Some new"
  shows "paths_kept s (snd (sync_replace orphaned acquired path s))"
proof -
  have eq: "res_path s old = res_path s new"
    using assms(2-5) unfolding paths_ok_def by (auto dest!: dict.every_get)
  have "paths_kept s (update_resources n (replace_first old new) s)" for n
    unfolding paths_kept_def
  proof (intro allI impI)
    let ?t = "update_resources n (replace_first old new) s"
    fix m p assume p: "map_of (co_places s) m = Some p"
    have heap: "co_heap ?t = co_heap s" by (simp add: update_resources_def set_place_def split: option.split)
    let ?rs = "if m = n then replace_first old new (pl_acquired_resources p) else pl_acquired_resources p"
    have "map_of (co_places ?t) m = Some (p\<lparr>pl_acquired_resources := ?rs\<rparr>)"
      using p by (cases "m = n") (simp_all add: update_resources_lookup)
    moreover have "map (res_path ?t) ?rs = map (res_path s) (pl_acquired_resources p)"
      using replace_first_map [of "res_path s" new old "pl_acquired_resources p"] eq by (simp add: heap)
    ultimately show "\<exists>rs. map_of (co_places ?t) m = Some (p\<lparr>pl_acquired_resources := rs\<rparr>) \<and>
       map (res_path ?t) rs = map (res_path s) (pl_acquired_resources p)" by blast
  qed
  moreover have "paths_kept s s" by (rule places_same_kept [OF _ assms(1)]) simp
  ultimately show ?thesis
    using assms(4,5) by (auto simp: sync_replace_def Let_def split: option.split prod.split)
qed

lemma by_path_keys: "set (keys (by_path s rs)) = res_path s ` set rs \<and> dict_wf (by_path s rs)"
proof -
  have "fst ` set (fold (\<lambda>r. AList.update (res_path s r) r) rs d) = fst ` set d \<union> res_path s ` set rs \<and>
      (dict_wf d \<longrightarrow> dict_wf (fold (\<lambda>r. AList.update (res_path s r) r) rs d))" for d
    by (induction rs arbitrary: d) auto
  from this [of "[]"] show ?thesis by (simp add: by_path_def)
qed

lemma held_path_listed:
  assumes "map_of (co_places s) n = Some p" and "path \<in> held_paths (co_heap s) p"
  shows "path \<in> res_path s ` set (held_resources s)"
proof -
  have "(n, p) \<in> set (co_places s)" using assms(1) by (rule map_of_SomeD)
  then have "set (pl_acquired_resources p) \<subseteq> set (held_resources s)"
    by (fastforce simp: held_resources_def)
  with assms(2) show ?thesis by (auto simp: held_paths_def)
qed

text \<open>The second and the third loop, from the state the first one left.\<close>

lemma sync_tail_kept:
  assumes "locked_inv s" and "paths_ok (co_heap s) orph" and "paths_ok (co_heap s) d" and "set_order o3"
  shows "paths_kept s (snd (and_then (sync_acquire deadline orph paths d s) (\<lambda>d2 s2.
    for_each (sync_replace orph d2) (reorder o3 (filter (\<lambda>p. p \<in> set (keys d2)) (keys orph))) s2)))"
proof -
  obtain x t where m: "sync_acquire deadline orph paths d s = (x, t)" by (cases "sync_acquire deadline orph paths d s")
  have res: "sync_result s (x, t)" using sync_acquire_ok [OF assms(1,3), of deadline orph paths] m by simp
  have inv: "locked_inv t" and ext: "heap_ext (co_heap s) (co_heap t)" using res by (simp_all add: sync_result_def)
  have kept: "paths_kept s t"
    using places_same_kept [OF sync_acquire_same [OF assms(1), of deadline orph paths d] assms(1)] m by simp
  show ?thesis
  proof (cases x)
    case (Inl e)
    with m kept show ?thesis by simp
  next
    case (Inr d2)
    have ok2: "paths_ok (co_heap t) d2" using res Inr by (simp add: sync_result_def)
    have oo: "paths_ok (co_heap t) orph" by (rule paths_ok_ext [OF assms(2) ext])
    let ?P = "\<lambda>u. locked_inv u \<and> co_heap u = co_heap t \<and> paths_kept s u"
    have "?P (snd (for_each (sync_replace orph d2) (reorder o3 (filter (\<lambda>p. p \<in> set (keys d2)) (keys orph))) t))"
    proof (rule for_each_keeps [of ?P])
      fix path u assume "path \<in> set (reorder o3 (filter (\<lambda>p. p \<in> set (keys d2)) (keys orph)))" and u: "?P u"
      then have "path \<in> set (keys d2)" "path \<in> set (keys orph)" using assms(4) by auto
      then obtain old new where on: "map_of orph path = Some old" "map_of d2 path = Some new"
        unfolding in_keys_iff by blast
      have pu: "paths_ok (co_heap u) orph" "paths_ok (co_heap u) d2" using u oo ok2 by simp_all
      from u have iu: "locked_inv u" by simp
      from sync_replace_ok [OF iu pu on] paths_kept_trans [OF _ sync_replace_kept [OF iu pu on]] u
      show "?P (snd (sync_replace orph d2 path u))" by simp
    qed (simp add: inv kept)
    with m Inr show ?thesis by simp
  qed
qed

text \<open>
  The periodic synchronisation never changes what the places hold: it may exchange a resource
  object for another with the same path, but every place keeps the same list of paths, its owner
  and everything else, whether the synchronisation returns or fails on the way.
\<close>

lemma synchronize_keeps_held_paths:
  assumes "locked_inv s" and "set_order o1" and "set_order o2" and "set_order o3"
  shows "paths_kept s (snd (synchronize_resources o1 o2 o3 s))"
proof -
  let ?acq = "by_path s (filter (\<lambda>r. truthy (res_acquired s r)) (all_resources s))"
    and ?used = "by_path s (filter (\<lambda>r. \<not> ri_orphaned (co_heap s ! r)) (held_resources s))"
    and ?orph = "by_path s (filter (\<lambda>r. ri_orphaned (co_heap s ! r)) (held_resources s))"
  let ?rel = "filter (\<lambda>p. p \<notin> set (keys ?used) \<and> p \<notin> set (keys ?orph)) (keys ?acq)"
  let ?first = "sync_release (co_mono s + 5) (reorder o1 ?rel) ?acq s"
  have held: "set (held_resources s) \<subseteq> {..<length (co_heap s)}" by (rule held_resources_ok [OF assms(1)])
  have all: "set (all_resources s) \<subseteq> {..<length (co_heap s)}"
    using assms(1) by (intro all_resources_ok) (simp add: locked_inv_def coord_inv_def)
  have ok: "paths_ok (co_heap s) ?acq" "paths_ok (co_heap s) ?orph"
    by (rule by_path_ok, use all held in auto)+
  have "path \<notin> held_paths (co_heap s) p"
    if "path \<in> set (reorder o1 ?rel)" "map_of (co_places s) n = Some p" for path n p
  proof
    assume "path \<in> held_paths (co_heap s) p"
    from held_path_listed [OF that(2) this] have "path \<in> set (keys ?used) \<union> set (keys ?orph)"
      unfolding by_path_keys [THEN conjunct1] by auto
    with that(1) assms(2) show False by (auto simp del: set_map)
  qed
  moreover have "distinct (reorder o1 ?rel)" "set (reorder o1 ?rel) \<subseteq> set (keys ?acq)"
    using assms(2) by_path_keys by (auto intro: distinct_reorder simp del: set_map)
  ultimately have same: "places_same s (snd ?first)" by (intro sync_release_same [OF assms(1) ok(1)]) blast+
  obtain x t where m: "?first = (x, t)" by (cases ?first)
  have res: "sync_result s (x, t)"
    using sync_release_ok [OF assms(1) ok(1), of "co_mono s + 5" "reorder o1 ?rel"] m by simp
  have kept: "paths_kept s t" using places_same_kept [OF same assms(1)] m by simp
  show ?thesis
  proof (cases x)
    case (Inl e)
    with m kept show ?thesis by (simp add: synchronize_resources_def Let_def)
  next
    case (Inr d)
    have t: "locked_inv t" "heap_ext (co_heap s) (co_heap t)" "paths_ok (co_heap t) d"
      using res Inr by (simp_all add: sync_result_def)
    have "paths_ok (co_heap t) ?orph" by (rule paths_ok_ext [OF ok(2) t(2)])
    from paths_kept_trans [OF kept sync_tail_kept [OF t(1) this t(3) assms(4)]] m Inr
    show ?thesis by (simp add: synchronize_resources_def Let_def)
  qed
qed

theorem synchronize_keeps_held_paths_witness:
  "paths_kept demo_held (snd (synchronize_resources plain_order plain_order plain_order demo_held))"
  by (rule synchronize_keeps_held_paths [OF demo_held_inv set_order_upt set_order_upt set_order_upt])


section \<open>A reachable state with a place in use\<close>

lemma reach_event: "coord_step\<^sup>*\<^sup>* s t \<Longrightarrow> coord_step\<^sup>*\<^sup>* s (deliver e t)"
  by (erule rtranclp.rtrancl_into_rtrancl) (rule event_step)

lemma reach_request:
  "set_order o1 \<Longrightarrow> set_order o2 \<Longrightarrow> set_order o3 \<Longrightarrow> coord_step\<^sup>*\<^sup>* s t \<Longrightarrow>
   coord_step\<^sup>*\<^sup>* s (snd (handle o1 o2 o3 script req t))"
  by (erule rtranclp.rtrancl_into_rtrancl) (rule request_step)

definition demo_run :: coord where
  "demo_run = snd (handle plain_order plain_order plain_order
     [WEvent (EvExporterSend ''x1''), WEvent (EvExporterResponse ''x1'' True [])] (AcquirePlace ''c1'' ''7'')
     (deliver (EvExporterResource ''x1'' ''7'' ''r''
         \<lparr>pbr_cls = ''USB'', pbr_params = [], pbr_extra = [], pbr_acquired = [], pbr_avail = True\<rparr>)
     (deliver (EvClientStartup ''c1'' ''host/user'')
     (deliver (EvExporterStartup ''x1'' ''ex'') (start_coordinator None 0 0)))))"

lemma demo_run_holds: "map_of (co_places demo_run) ''7'' \<noteq> None \<and>
    map_option pl_acquired_resources (map_of (co_places demo_run) ''7'') = Some [0]"
  by code_simp


text \<open>
  C5. In every state that the coordinator can reach, through any interleaving of calls, messages
  from exporters and clients, timeouts, cancellations and lost connections, no resource path is
  held by two places, nor twice by the same place.
\<close>

theorem reachable_resources_exclusive:
  assumes "coord_start s" and "coord_step\<^sup>*\<^sup>* s t"
  shows "resources_exclusive t"
  using coordinator.reachable_implies [OF assms inv_exclusive] .

theorem reachable_resources_exclusive_witness:
  "resources_exclusive demo_run \<and>
   map_option pl_acquired_resources (map_of (co_places demo_run) ''7'') = Some [0]"
proof
  have "coord_start (start_coordinator None 0 0)" unfolding coord_start_def by blast
  moreover have "coord_step\<^sup>*\<^sup>* (start_coordinator None 0 0) demo_run"
    unfolding demo_run_def
    by (intro reach_request reach_event rtranclp.rtrancl_refl set_order_upt)
  ultimately show "resources_exclusive demo_run" by (rule reachable_resources_exclusive)
qed (simp add: demo_run_holds)

end
