(* ===== verification/ClientMirror.thy ===== *)
theory ClientMirror
  imports Client CoordProps
begin

text \<open>
  Client and coordinator together: what a client that has started knows is what the coordinator
  holds. The messages that the coordinator queues for a client are encoded and received by the pump.
\<close>

section \<open>From the coordinator's queue to the pump\<close>

fun as_wire :: "client_update \<Rightarrow> py_error + wire_update" where
  "as_wire (UpdResource exporter grp name r) =
     and_result (resource_as_pb2 r) (\<lambda>m. Inr (WireResource exporter grp name m))"
| "as_wire (UpdDelResource exporter grp name) = Inr (WireDelResource exporter grp name)"
| "as_wire (UpdPlace m) = Inr (WirePlace m)"
| "as_wire (UpdDelPlace name) = Inr (WireDelPlace name)"

text \<open>An update that cannot be encoded ends the call.\<close>

fun received_of :: "client_out \<Rightarrow> received" where
  "received_of (OutSync n) = Message [] (Some n)"
| "received_of (OutUpdates us) =
     (case map_result as_wire us of Inl e \<Rightarrow> RpcError | Inr ws \<Rightarrow> Message ws None)"

definition queue_of :: "string \<Rightarrow> coord \<Rightarrow> client_out list" where
  "queue_of peer s = (case map_of (co_clients s) peer of None \<Rightarrow> [] | Some c \<Rightarrow> cs_queue c)"

text \<open>What the coordinator does with the messages that \<open>start\<close> queues after the startup.\<close>

definition serve_start :: "string \<Rightarrow> coord \<Rightarrow> coord" where
  "serve_start peer s =
     deliver (EvClientSync peer 1)
       (deliver (EvClientSubscribe peer False True) (deliver (EvClientSubscribe peer True False) s))"


section \<open>Receiving places\<close>

lemma places_received:
  assumes "distinct (map fst ps)" and "fst ` set ps \<inter> fst ` set (se_places s) = {}"
    and "\<And>n p. (n, p) \<in> set ps \<Longrightarrow> pbp_name (f p) = n \<and> place_from_pb2 (f p) = Inr (v p)"
  shows "for_each on_update (map (\<lambda>(n, p). WirePlace (f p)) ps) s =
    (Inr (), s\<lparr>se_places := se_places s @ map (\<lambda>(n, p). (n, v p)) ps\<rparr>)"
  using assms
proof (induction ps arbitrary: s)
  case Nil
  then show ?case by simp
next
  case (Cons np ps)
  obtain n p where np: "np = (n, p)" by (cases np)
  with Cons.prems(3) [of n p] have fp: "pbp_name (f p) = n" "place_from_pb2 (f p) = Inr (v p)" by simp_all
  have n: "n \<notin> fst ` set (se_places s)" using Cons.prems(2) np by auto
  then have "map_of (se_places s) n = None" by (simp add: map_of_eq_None_iff)
  with fp n have "on_update (WirePlace (f p)) s = (Inr (), s\<lparr>se_places := se_places s @ [(n, v p)]\<rparr>)"
    by (simp add: on_place_changed_def update_absent)
  moreover have "for_each on_update (map (\<lambda>(n, p). WirePlace (f p)) ps) (s\<lparr>se_places := se_places s @ [(n, v p)]\<rparr>) =
    (Inr (), s\<lparr>se_places := (se_places s @ [(n, v p)]) @ map (\<lambda>(n, p). (n, v p)) ps\<rparr>)"
    using Cons.prems np by (subst Cons.IH) auto
  ultimately show ?case by (simp add: np)
qed


section \<open>Receiving resources\<close>

definition resource_at :: "resource_map \<Rightarrow> string \<times> string \<times> string \<Rightarrow> entry_data option" where
  "resource_at m k = (case k of (exporter, grp, name) \<Rightarrow> map_of (lookup_group m exporter grp) name)"

lemma lookup_put_group:
  "lookup_group (put_group e g d m) e' g' = (if e' = e \<and> g' = g then d else lookup_group m e' g')"
  by (auto simp: lookup_group_def put_group_def split: option.splits)

lemma resource_at_changed:
  "resource_at (se_resources (on_resource_changed e g n d s)) k =
     (if k = (e, g, n) then Some (if resource_at (se_resources s) k = None then new_entry d else d)
      else resource_at (se_resources s) k)"
  by (cases k) (auto simp: resource_at_def on_resource_changed_def Let_def lookup_put_group map_of_eq_None_iff)

lemma new_entry_data_of: "new_entry (data_of (resource_data_from_pb2 m)) = data_of (resource_data_from_pb2 m)"
  by (simp add: new_entry_def data_of_def resource_data_from_pb2_def)

abbreviation entry_of :: "pb_resource \<Rightarrow> entry_data" where
  "entry_of m \<equiv> data_of (resource_data_from_pb2 m)"

lemma resources_received:
  "\<exists>t. for_each on_update (map (\<lambda>((e, g, n), m). WireResource e g n m) us) s = (Inr (), t) \<and>
     se_places t = se_places s \<and>
     (\<forall>k. resource_at (se_resources t) k =
        (case map_of (rev us) k of Some m \<Rightarrow> Some (entry_of m) | None \<Rightarrow> resource_at (se_resources s) k))"
proof (induction us arbitrary: s)
  case Nil
  then show ?case by simp
next
  case (Cons u us)
  obtain e g n m where u: "u = ((e, g, n), m)" by (metis prod.exhaust)
  let ?s = "on_resource_changed e g n (entry_of m) s"
  obtain t where t: "for_each on_update (map (\<lambda>((e, g, n), m). WireResource e g n m) us) ?s = (Inr (), t)"
    "se_places t = se_places ?s"
    "\<And>k. resource_at (se_resources t) k =
        (case map_of (rev us) k of Some m \<Rightarrow> Some (entry_of m) | None \<Rightarrow> resource_at (se_resources ?s) k)"
    using Cons.IH [of ?s] by blast
  have "se_places ?s = se_places s" by (simp add: on_resource_changed_def Let_def)
  moreover have "resource_at (se_resources t) k =
      (case map_of (rev (u # us)) k of Some m \<Rightarrow> Some (entry_of m) | None \<Rightarrow> resource_at (se_resources s) k)" for k
    unfolding t(3) resource_at_changed new_entry_data_of u
    by (auto simp: map_add_def split: option.split)
  ultimately show ?case using t(1,2) u by simp
qed


section \<open>Messages of updates\<close>

lemma pump_updates:
  assumes "se_running s" and "for_each on_update (concat wss) s = (Inr (), t)"
  shows "pump (map (\<lambda>ws. Message ws None) wss) s = t"
  using assms
proof (induction wss arbitrary: s)
  case Nil
  then show ?case by (simp add: pump_def)
next
  case (Cons ws wss)
  obtain r u where u: "for_each on_update ws s = (r, u)" by force
  with Cons.prems(2) have r: "r = Inr ()" and rest: "for_each on_update (concat wss) u = (Inr (), t)"
    by (cases r; simp add: for_each_append)+
  have run: "se_running u"
    using updates_same_sync [of s ws] u Cons.prems(1) by (simp add: same_sync_def)
  have "pump_one (Message ws None) s = u"
    using u r Cons.prems(1) by (simp add: pump_one_def on_sync_def)
  then show ?case using Cons.IH [OF run rest] by (simp add: pump_def)
qed

lemma pump_append: "pump (rs @ qs) s = pump qs (pump rs s)"
  by (simp add: pump_def)

text \<open>Batches that can be encoded.\<close>

lemma map_result_concat:
  assumes "map_result f (concat xss) = Inr ys"
  shows "\<exists>yss. map_result (map_result f) xss = Inr yss \<and> concat yss = ys"
  using assms
proof (induction xss arbitrary: ys)
  case Nil
  then show ?case by simp
next
  case (Cons xs xss)
  then have l: "list_all2 (\<lambda>x y. f x = Inr y) (xs @ concat xss) ys" by (simp add: map_result_Inr)
  then obtain us vs where uv: "ys = us @ vs" "list_all2 (\<lambda>x y. f x = Inr y) xs us"
    "list_all2 (\<lambda>x y. f x = Inr y) (concat xss) vs"
    by (auto simp: list_all2_append1)
  with Cons.IH [of vs] obtain yss where "map_result (map_result f) xss = Inr yss" "concat yss = vs"
    by (auto simp: map_result_Inr)
  moreover have "map_result f xs = Inr us" using uv(2) by (simp add: map_result_Inr)
  ultimately show ?case using uv(1) by (auto intro!: exI [of _ "us # yss"])
qed

lemma received_batches:
  assumes "map_result as_wire us = Inr ws"
  shows "\<exists>wss. map (received_of \<circ> OutUpdates) (batches us) = map (\<lambda>ws. Message ws None) wss \<and> concat wss = ws"
proof -
  from assms have "map_result as_wire (concat (batches us)) = Inr ws" by (simp add: batches_concat)
  from map_result_concat [OF this] obtain wss where
    w: "map_result (map_result as_wire) (batches us) = Inr wss" "concat wss = ws" by blast
  from w(1) have "list_all2 (\<lambda>us ws. map_result as_wire us = Inr ws) (batches us) wss"
    by (simp add: map_result_Inr)
  then have "map (received_of \<circ> OutUpdates) (batches us) = map (\<lambda>ws. Message ws None) wss"
    by (induction rule: list_all2_induct) simp_all
  with w(2) show ?thesis by blast
qed


section \<open>What the coordinator sends\<close>

lemma send_client_fields [simp]:
  "co_places (send_client peer m s) = co_places s" "co_heap (send_client peer m s) = co_heap s"
  "co_exporters (send_client peer m s) = co_exporters s"
  by (simp_all add: send_client_def split: option.split)

lemma send_client_known [simp]:
  "map_of (co_clients (send_client peer m s)) peer \<noteq> None \<longleftrightarrow> map_of (co_clients s) peer \<noteq> None"
  by (simp add: send_client_def split: option.split)

lemma queue_send:
  "map_of (co_clients s) peer \<noteq> None \<Longrightarrow> queue_of peer (send_client peer m s) = queue_of peer s @ [m]"
  by (auto simp: send_client_def queue_of_def)

lemma queue_send_all:
  assumes "map_of (co_clients s) peer \<noteq> None"
  shows "queue_of peer (fold (\<lambda>b. send_client peer (OutUpdates b)) bs s) = queue_of peer s @ map OutUpdates bs \<and>
    map_of (co_clients (fold (\<lambda>b. send_client peer (OutUpdates b)) bs s)) peer \<noteq> None"
  using assms by (induction bs arbitrary: s) (simp_all add: queue_send del: not_None_eq)

lemma collect_send [simp]: "collect_resources (send_client peer m s) = collect_resources s"
  by (simp add: collect_resources_def)

definition place_updates :: "coord \<Rightarrow> client_update list" where
  "place_updates s = map (\<lambda>(_, p). UpdPlace (place_pb s p)) (co_places s)"

lemma serve_start_queue:
  assumes "map_of (co_clients s) peer \<noteq> None" and "queue_of peer s = []"
  shows "queue_of peer (serve_start peer s) =
    OutUpdates (place_updates s) # map OutUpdates (batches (collect_resources s)) @ [OutSync 1]"
proof -
  let ?s1 = "send_client peer (OutUpdates (place_updates s)) s"
  let ?s2 = "fold (\<lambda>b. send_client peer (OutUpdates b)) (batches (collect_resources s)) ?s1"
  have "serve_start peer s = send_client peer (OutSync 1) ?s2"
    by (simp add: serve_start_def client_subscribe_def subscribe_places_def subscribe_resources_def
        place_updates_def Let_def)
  moreover have "queue_of peer ?s2 = OutUpdates (place_updates s) # map OutUpdates (batches (collect_resources s))"
    "map_of (co_clients ?s2) peer \<noteq> None"
    using queue_send_all [of ?s1 peer "batches (collect_resources s)"] assms
    by (simp_all add: queue_send del: not_None_eq)
  ultimately show ?thesis by (simp add: queue_send del: not_None_eq)
qed

text \<open>The resources of the coordinator by exporter, group and name.\<close>

definition coord_resource :: "coord \<Rightarrow> string \<times> string \<times> string \<Rightarrow> nat option" where
  "coord_resource s k =
     (case k of (exporter, grp, name) \<Rightarrow>
        case get_exporter_by_name exporter s of
          None \<Rightarrow> None
        | Some (_, e) \<Rightarrow> (case map_of (es_groups e) grp of None \<Rightarrow> None | Some g \<Rightarrow> map_of g name))"

definition entries :: "coord \<Rightarrow> ((string \<times> string \<times> string) \<times> nat) list" where
  "entries s =
     concat (map (\<lambda>(_, e).
       concat (map (\<lambda>(grp, g). map (\<lambda>(name, r). ((es_name e, grp, name), r)) g) (es_groups e)))
       (co_exporters s))"

lemma collect_entries:
  "collect_resources s = map (\<lambda>((e, g, n), r). UpdResource e g n (ri_data (co_heap s ! r))) (entries s)"
  by (simp add: collect_resources_def entries_def map_concat comp_def case_prod_unfold)

lemma in_concat_pairs:
  "y \<in> set (concat (map (\<lambda>(a, b). f a b) xs)) \<longleftrightarrow> (\<exists>a b. (a, b) \<in> set xs \<and> y \<in> set (f a b))"
  by (induction xs) auto

lemma in_map_pairs: "y \<in> set (map (\<lambda>(a, b). f a b) xs) \<longleftrightarrow> (\<exists>a b. (a, b) \<in> set xs \<and> y = f a b)"
  by (induction xs) auto

lemma in_entries:
  "((e, g, n), r) \<in> set (entries s) \<longleftrightarrow>
     (\<exists>peer x. (peer, x) \<in> set (co_exporters s) \<and> es_name x = e \<and>
        (\<exists>grp. (g, grp) \<in> set (es_groups x) \<and> (n, r) \<in> set grp))"
  unfolding entries_def in_concat_pairs in_map_pairs by blast

lemma names_distinctD:
  "sessions_ok s \<Longrightarrow> (p, x) \<in> set (co_exporters s) \<Longrightarrow> (q, y) \<in> set (co_exporters s) \<Longrightarrow>
   es_name x = es_name y \<Longrightarrow> p = q \<and> x = y"
proof -
  assume s: "sessions_ok s" and x: "(p, x) \<in> set (co_exporters s)" and y: "(q, y) \<in> set (co_exporters s)"
    and n: "es_name x = es_name y"
  have wf: "dict_wf (co_exporters s)" and names: "names_distinct (co_exporters s)"
    using s by (simp_all add: sessions_ok_def)
  have m: "map_of (co_exporters s) p = Some x" "map_of (co_exporters s) q = Some y"
    using x y dict_in_iff [OF wf] by simp_all
  with names n have "p = q" by (simp add: names_distinct_def)
  with m show ?thesis by simp
qed

lemma get_exporter_in:
  "get_exporter_by_name e s = Some (peer, x) \<Longrightarrow> (peer, x) \<in> set (co_exporters s) \<and> es_name x = e"
  unfolding get_exporter_by_name_def by (drule find_SomeD) simp

lemma get_exporter_iff:
  assumes "sessions_ok s"
  shows "get_exporter_by_name e s = Some (peer, x) \<longleftrightarrow> (peer, x) \<in> set (co_exporters s) \<and> es_name x = e"
proof (rule iffI [OF get_exporter_in], assumption)
  assume a: "(peer, x) \<in> set (co_exporters s) \<and> es_name x = e"
  then have "get_exporter_by_name e s \<noteq> None"
    unfolding get_exporter_by_name_def find_None_iff by blast
  then obtain q z where qz: "get_exporter_by_name e s = Some (q, z)" by auto
  with get_exporter_in [OF qz] a names_distinctD [OF assms, of peer x q z]
  show "get_exporter_by_name e s = Some (peer, x)" by simp
qed

lemma entries_iff:
  assumes "sessions_ok s"
  shows "(k, r) \<in> set (entries s) \<longleftrightarrow> coord_resource s k = Some r"
proof -
  obtain e g n where k: "k = (e, g, n)" by (cases k)
  have wf: "dict_wf (es_groups x)" "\<And>grp. (g, grp) \<in> set (es_groups x) \<Longrightarrow> dict_wf grp"
    if "(peer, x) \<in> set (co_exporters s)" for peer x
  proof -
    have e: "dict_wf (co_exporters s)" "dict.every (\<lambda>_. session_ok (co_heap s)) (co_exporters s)"
      using assms by (simp_all add: sessions_ok_def)
    from that have "map_of (co_exporters s) peer = Some x" by (simp add: dict_in_iff [OF e(1)])
    with e(2) have x: "session_ok (co_heap s) x" by (rule dict.every_get)
    then show "dict_wf (es_groups x)" by (simp add: session_ok_def)
    show "dict_wf grp" if "(g, grp) \<in> set (es_groups x)" for grp
    proof -
      have g: "dict_wf (es_groups x)" "dict.every (group_ok (co_heap s) (es_name x)) (es_groups x)"
        using x by (simp_all add: session_ok_def)
      from that have "map_of (es_groups x) g = Some grp" by (simp add: dict_in_iff [OF g(1)])
      with g(2) have "group_ok (co_heap s) (es_name x) g grp" by (rule dict.every_get)
      then show ?thesis by (simp add: group_ok_def)
    qed
  qed
  show ?thesis
  proof
    assume "(k, r) \<in> set (entries s)"
    then obtain peer x grp where x: "(peer, x) \<in> set (co_exporters s)" "es_name x = e"
      "(g, grp) \<in> set (es_groups x)" "(n, r) \<in> set grp"
      unfolding k in_entries by blast
    have "get_exporter_by_name e s = Some (peer, x)"
      using x(1,2) by (intro iffD2 [OF get_exporter_iff [OF assms]] conjI)
    moreover have "map_of (es_groups x) g = Some grp"
      using x(3) by (rule iffD1 [OF dict_in_iff [OF wf(1) [OF x(1)]]])
    moreover have "map_of grp n = Some r"
      using x(4) by (rule iffD1 [OF dict_in_iff [OF wf(2) [OF x(1,3)]]])
    ultimately show "coord_resource s k = Some r" by (simp add: coord_resource_def k)
  next
    assume r: "coord_resource s k = Some r"
    then obtain peer x where x: "get_exporter_by_name e s = Some (peer, x)"
      unfolding coord_resource_def k by (auto split: option.splits)
    with r obtain grp where "map_of (es_groups x) g = Some grp" "map_of grp n = Some r"
      unfolding coord_resource_def k by (auto split: option.splits)
    then have "(g, grp) \<in> set (es_groups x)" "(n, r) \<in> set grp" by (simp_all add: map_of_SomeD)
    moreover note get_exporter_in [OF x]
    ultimately show "(k, r) \<in> set (entries s)" unfolding k in_entries by blast
  qed
qed


section \<open>A started client knows what the coordinator knows\<close>

text \<open>
  What the coordinator holds can be sent: no path has a slash in a component, and every resource
  can be encoded.
\<close>

definition can_be_sent :: "coord \<Rightarrow> bool" where
  "can_be_sent s \<longleftrightarrow>
     list_all (\<lambda>i. path_ok (ri_path i) \<and> \<not> isl (resource_as_pb2 (ri_data i))) (co_heap s)"

definition encoded :: "coord \<Rightarrow> nat \<Rightarrow> pb_resource" where
  "encoded s r = (case resource_as_pb2 (ri_data (co_heap s ! r)) of Inr m \<Rightarrow> m | Inl _ \<Rightarrow> undefined)"

definition decoded :: "coord \<Rightarrow> nat place \<Rightarrow> path place" where
  "decoded s p = (case place_from_pb2 (place_pb s p) of Inr q \<Rightarrow> q | Inl _ \<Rightarrow> undefined)"

lemma place_can_be_read:
  assumes "can_be_sent s" and "set (pl_acquired_resources p) \<subseteq> {..<length (co_heap s)}"
  shows "place_from_pb2 (place_pb s p) = Inr (decoded s p)"
proof -
  have "\<forall>q \<in> set (map (res_path s) (pl_acquired_resources p)). path_ok q"
    using assms by (auto simp: can_be_sent_def list_all_length)
  from split_paths_join [OF this]
  have "split_paths (map (\<lambda>r. join_path (res_path s r)) (pl_acquired_resources p)) =
      Inr (map (res_path s) (pl_acquired_resources p))" by (simp add: comp_def)
  then have "\<exists>q. place_from_pb2 (place_pb s p) = Inr q"
    by (simp add: place_from_pb2_def place_pb_def place_as_pb2_def)
  then show ?thesis by (auto simp: decoded_def)
qed

lemma resource_below:
  assumes "sessions_ok s" and "coord_resource s k = Some r"
  shows "r < length (co_heap s)"
proof -
  obtain e g n where k: "k = (e, g, n)" by (cases k)
  have "((e, g, n), r) \<in> set (entries s)" using entries_iff [OF assms(1)] assms(2) k by blast
  then obtain peer x grp where x: "(peer, x) \<in> set (co_exporters s)" "(g, grp) \<in> set (es_groups x)" "(n, r) \<in> set grp"
    unfolding in_entries by blast
  have e: "dict_wf (co_exporters s)" "dict.every (\<lambda>_. session_ok (co_heap s)) (co_exporters s)"
    using assms(1) by (simp_all add: sessions_ok_def)
  have "session_ok (co_heap s) x"
    by (rule dict.every_get [OF e(2)]) (rule iffD1 [OF dict_in_iff [OF e(1)] x(1)])
  then have g: "dict_wf (es_groups x)" "dict.every (group_ok (co_heap s) (es_name x)) (es_groups x)"
    by (simp_all add: session_ok_def)
  have "group_ok (co_heap s) (es_name x) g grp"
    by (rule dict.every_get [OF g(2)]) (rule iffD1 [OF dict_in_iff [OF g(1)] x(2)])
  then have n: "dict_wf grp" "dict.every (entry_ok (co_heap s) (es_name x) g) grp"
    by (simp_all add: group_ok_def)
  have "entry_ok (co_heap s) (es_name x) g n r"
    by (rule dict.every_get [OF n(2)]) (rule iffD1 [OF dict_in_iff [OF n(1)] x(3)])
  then show ?thesis by (simp add: entry_ok_def)
qed

text \<open>The two parts of the subscription, as received.\<close>

lemma places_encoded: "map_result as_wire (place_updates s) = Inr (map (\<lambda>(n, p). WirePlace (place_pb s p)) (co_places s))"
  by (simp add: place_updates_def map_result_Inr list_all2_conv_all_nth case_prod_unfold)

lemma resources_encoded:
  assumes "sessions_ok s" and "can_be_sent s"
  shows "map_result as_wire (collect_resources s) =
    Inr (map (\<lambda>((e, g, n), m). WireResource e g n m) (map (\<lambda>(k, r). (k, encoded s r)) (entries s)))"
proof -
  have "resource_as_pb2 (ri_data (co_heap s ! r)) = Inr (encoded s r)" if kr: "(k, r) \<in> set (entries s)" for k r
  proof -
    have "r < length (co_heap s)" using resource_below [OF assms(1)] entries_iff [OF assms(1)] kr by blast
    then have "\<not> isl (resource_as_pb2 (ri_data (co_heap s ! r)))"
      using assms(2) by (simp add: can_be_sent_def list_all_length)
    then obtain m where "resource_as_pb2 (ri_data (co_heap s ! r)) = Inr m"
      by (cases "resource_as_pb2 (ri_data (co_heap s ! r))") simp_all
    then show ?thesis by (simp add: encoded_def)
  qed
  then have "map_result as_wire (map (\<lambda>((e, g, n), r). UpdResource e g n (ri_data (co_heap s ! r))) xs) =
      Inr (map (\<lambda>((e, g, n), m). WireResource e g n m) (map (\<lambda>(k, r). (k, encoded s r)) xs))"
    if "set xs \<subseteq> set (entries s)" for xs
    using that by (induction xs) auto
  then show ?thesis unfolding collect_entries by simp
qed

lemma map_of_functional:
  assumes "\<And>k a b. (k, a) \<in> set xs \<Longrightarrow> (k, b) \<in> set xs \<Longrightarrow> a = b"
  shows "map_of xs k = Some a \<longleftrightarrow> (k, a) \<in> set xs"
  using assms by (metis map_of_SomeD weak_map_of_SomeI)

lemma entries_received:
  assumes "sessions_ok s"
  shows "map_of (rev (map (\<lambda>(k, r). (k, encoded s r)) (entries s))) k = map_option (encoded s) (coord_resource s k)"
proof -
  let ?us = "rev (map (\<lambda>(k, r). (k, encoded s r)) (entries s))"
  have iff: "(k, m) \<in> set ?us \<longleftrightarrow> (\<exists>r. coord_resource s k = Some r \<and> m = encoded s r)" for k m
  proof -
    have "(k, m) \<in> set ?us \<longleftrightarrow> (\<exists>r. (k, r) \<in> set (entries s) \<and> m = encoded s r)" by force
    then show ?thesis by (simp only: entries_iff [OF assms])
  qed
  have "map_of ?us k = Some m \<longleftrightarrow> map_option (encoded s) (coord_resource s k) = Some m" for m
    by (subst map_of_functional) (auto simp: iff simp del: set_rev set_map)
  then show ?thesis by (cases "map_option (encoded s) (coord_resource s k)") (metis not_None_eq, metis)
qed

lemma client_after_start:
  assumes inv: "coord_inv s" and sent: "can_be_sent s"
    and peer: "map_of (co_clients s) peer \<noteq> None" and queue: "queue_of peer s = []"
    and c_def: "c = pump (map received_of (queue_of peer (serve_start peer s))) (snd (start_session name new_session))"
  shows "started c \<and> se_set c = [1] \<and>
    (\<forall>n. map_of (se_places c) n = map_option (decoded s) (map_of (co_places s) n)) \<and>
    (\<forall>k. resource_at (se_resources c) k =
       map_option (\<lambda>r. entry_of (encoded s r)) (coord_resource s k))"
proof -
  have ses: "sessions_ok s" and pls: "places_ok (co_places s)" and held: "dict.every (\<lambda>_. held_ok (co_heap s)) (co_places s)"
    using inv by (simp_all add: coord_inv_def exclusive_paths_def)
  define s0 where "s0 = snd (start_session name new_session)"
  have s0: "se_running s0" "se_places s0 = []" "se_resources s0 = []" "se_sync s0 = [1]" "se_set s0 = []"
    "\<not> se_stopping s0"
    by (simp_all add: s0_def start_session_def begin_sync_def new_session_def)
  have wf: "dict_wf (co_places s)" using pls by (simp add: places_ok_def)
  have pl: "pbp_name (place_pb s p) = n \<and> place_from_pb2 (place_pb s p) = Inr (decoded s p)"
    if np: "(n, p) \<in> set (co_places s)" for n p
  proof -
    have m: "map_of (co_places s) n = Some p" by (rule iffD1 [OF dict_in_iff [OF wf] np])
    have "pl_name p = n" using pls dict.every_get [OF _ m] by (auto simp: places_ok_def)
    moreover have "held_ok (co_heap s) p" by (rule dict.every_get [OF held m])
    then have "place_from_pb2 (place_pb s p) = Inr (decoded s p)"
      by (intro place_can_be_read [OF sent]) (simp add: held_ok_def)
    ultimately show ?thesis by (simp add: place_pb_def place_as_pb2_def)
  qed
  define s1 where "s1 = s0\<lparr>se_places := map (\<lambda>(n, p). (n, decoded s p)) (co_places s)\<rparr>"
  have places: "for_each on_update (map (\<lambda>(n, p). WirePlace (place_pb s p)) (co_places s)) s0 = (Inr (), s1)"
    using places_received [of "co_places s" s0 "place_pb s" "decoded s"] wf s0 pl by (simp add: s1_def)
  let ?us = "map (\<lambda>(k, r). (k, encoded s r)) (entries s)"
  let ?ws = "map (\<lambda>((e, g, n), m). WireResource e g n m) ?us"
  obtain s2 where s2: "for_each on_update ?ws s1 = (Inr (), s2)" "se_places s2 = se_places s1"
    "\<And>k. resource_at (se_resources s2) k =
        (case map_of (rev ?us) k of Some m \<Rightarrow> Some (entry_of m) | None \<Rightarrow> resource_at (se_resources s1) k)"
    using resources_received [of ?us s1] by blast
  have all: "for_each on_update (map (\<lambda>(n, p). WirePlace (place_pb s p)) (co_places s) @ ?ws) s0 = (Inr (), s2)"
    by (simp only: for_each_append places s2(1) and_then_simps)
  obtain wss where wss: "map (received_of \<circ> OutUpdates) (batches (collect_resources s)) = map (\<lambda>ws. Message ws None) wss"
    "concat wss = ?ws"
    using received_batches [OF resources_encoded [OF ses sent]] by blast
  have "map received_of (queue_of peer (serve_start peer s)) =
      map (\<lambda>ws. Message ws None) (map (\<lambda>(n, p). WirePlace (place_pb s p)) (co_places s) # wss) @ [Message [] (Some 1)]"
    using wss(1) by (simp add: serve_start_queue [OF peer queue] places_encoded)
  moreover have "pump (map (\<lambda>ws. Message ws None) (map (\<lambda>(n, p). WirePlace (place_pb s p)) (co_places s) # wss)) s0 = s2"
    by (rule pump_updates [OF s0(1)]) (simp only: concat.simps(2) wss(2) all)
  ultimately have c: "c = pump [Message [] (Some 1)] s2"
    by (simp only: c_def pump_append s0_def)
  have "same_sync s0 s2"
    using updates_same_sync [of s0 "map (\<lambda>(n, p). WirePlace (place_pb s p)) (co_places s) @ ?ws"] all by simp
  then have sync: "se_running s2" "se_sync s2 = [1]" "se_set s2 = []" "\<not> se_stopping s2"
    using s0 by (simp_all add: same_sync_def)
  have c': "c = s2\<lparr>se_sync := [], se_set := [1]\<rparr>"
    unfolding c using sync by (simp add: pump_def pump_one_def on_sync_def)
  have "map_of (se_places c) n = map_option (decoded s) (map_of (co_places s) n)" for n
    by (simp add: c' s2(2) s1_def map_of_map)
  moreover have "resource_at (se_resources s1) k = None" for k
    by (simp add: s1_def s0 resource_at_def lookup_group_def split: prod.split)
  then have "resource_at (se_resources c) k = map_option (\<lambda>r. entry_of (encoded s r)) (coord_resource s k)" for k
    using s2(3) [of k] entries_received [OF ses, of k]
    by (cases "coord_resource s k") (simp_all add: c')
  ultimately show ?thesis using sync by (simp add: c' started_def)
qed




definition late_start :: coord where
  "late_start = deliver (EvClientStartup ''c2'' ''host/other'') demo_run"

definition late_client :: session where
  "late_client = pump (map received_of (queue_of ''c2'' (serve_start ''c2'' late_start)))
     (snd (start_session ''host/other'' new_session))"

lemma late_start_sends: "can_be_sent late_start" "queue_of ''c2'' late_start = []"
  "map_of (co_clients late_start) ''c2'' \<noteq> None"
  by code_simp+

lemma late_start_holds:
  "coord_resource late_start (''ex'', ''7'', ''r'') = Some 0" "ed_cls (entry_of (encoded late_start 0)) = Some ''USB''"
  by code_simp+


end
