(* ===== verification/Config.thy ===== *)
theory Config
  imports PyPath
begin

text \<open>
  \<^verbatim>\<open>labgrid/config.py\<close>, \<open>resolve_templates\<close> of \<^verbatim>\<open>labgrid/util/yaml.py\<close> and
  \<^verbatim>\<open>labgrid/util/dict.py\<close>: the configuration of an environment, its templates, paths and options.
  A document that the YAML library has read is a tree with \<open>!template\<close> nodes; block scalars are
  strings like the others, and the keys of mappings are strings.
\<close>

section \<open>Templates\<close>

datatype yaml =
    YValue pyval
  | YTemplate string
  | YList "yaml list"
  | YDict "(string \<times> yaml) list"

fun resolve_value :: "(string, string) dict \<Rightarrow> yaml \<Rightarrow> template_error + pyval"
and resolve_list :: "(string, string) dict \<Rightarrow> yaml list \<Rightarrow> template_error + pyval list"
and resolve_items ::
  "(string, string) dict \<Rightarrow> (string \<times> yaml) list \<Rightarrow> template_error + (string \<times> pyval) list" where
  "resolve_value m (YValue v) = Inr v"
| "resolve_value m (YTemplate s) = and_result (substitute m s) (\<lambda>r. Inr (VStr r))"
| "resolve_value m (YList ys) = and_result (resolve_list m ys) (\<lambda>vs. Inr (VList vs))"
| "resolve_value m (YDict d) = and_result (resolve_items m d) (\<lambda>e. Inr (VDict e))"
| "resolve_list m [] = Inr []"
| "resolve_list m (y # ys) =
     and_result (resolve_value m y) (\<lambda>v. and_result (resolve_list m ys) (\<lambda>vs. Inr (v # vs)))"
| "resolve_items m [] = Inr []"
| "resolve_items m ((k, y) # d) =
     and_result (resolve_value m y) (\<lambda>v. and_result (resolve_items m d) (\<lambda>e. Inr ((k, v) # e)))"

datatype config_error = NoConfigFound | InvalidConfig | Raised py_error

text \<open>\<open>resolve_templates\<close>, with what the configuration makes of the errors it raises.\<close>

fun resolve_templates :: "(string, string) dict \<Rightarrow> yaml \<Rightarrow> config_error + pyval" where
  "resolve_templates m (YValue v) = Inl (Raised TypeError)"
| "resolve_templates m (YTemplate s) = Inl (Raised TypeError)"
| "resolve_templates m y =
     (case resolve_value m y of Inl e \<Rightarrow> Inl InvalidConfig | Inr v \<Rightarrow> Inr v)"


section \<open>The configuration\<close>

record config =
  cf_base :: string
  cf_data :: pyval

text \<open>\<open>try\<close> with a handler for some exceptions.\<close>

definition on_error :: "py_error list \<Rightarrow> py_error + 'a \<Rightarrow> py_error + 'a \<Rightarrow> py_error + 'a" where
  "on_error es h m = (case m of Inl e \<Rightarrow> (if e \<in> set es then h else Inl e) | Inr a \<Rightarrow> Inr a)"

lemma on_error_simps [simp]:
  "on_error es h (Inr a) = Inr a"
  "e \<in> set es \<Longrightarrow> on_error es h (Inl e) = h"
  "e \<notin> set es \<Longrightarrow> on_error es h (Inl e) = Inl e"
  by (simp_all add: on_error_def)

text \<open>\<open>None\<close> for the default means that there is none.\<close>

definition or_default :: "pyval \<Rightarrow> py_error + pyval" where
  "or_default d = (if d = VNone then Inl KeyError else Inr d)"

definition get_option :: "config \<Rightarrow> string \<Rightarrow> pyval \<Rightarrow> py_error + pyval" where
  "get_option c name d =
     on_error [KeyError] (or_default d)
       (and_result (subscript (cf_data c) ''options'') (\<lambda>opts. subscript opts name))"

datatype load_error = FileMissing | YamlError

definition substitutions :: "os \<Rightarrow> string \<Rightarrow> (string, string) dict" where
  "substitutions os base =
     dict_update [(''BASE'', base)] (filter (\<lambda>(x, _). take 3 x = ''LG_'') (os_env os))"

definition new_config :: "os \<Rightarrow> string \<Rightarrow> load_error + yaml \<Rightarrow> config_error + config" where
  "new_config os filename loaded =
     (let base = dirname (abspath os filename) in
      case loaded of
        Inl FileMissing \<Rightarrow> Inl NoConfigFound
      | Inl YamlError \<Rightarrow> Inl InvalidConfig
      | Inr (YValue VNone) \<Rightarrow> Inl InvalidConfig
      | Inr y \<Rightarrow>
          and_result (resolve_templates (substitutions os base) y)
            (\<lambda>data. let c = \<lparr>cf_base = base, cf_data = data\<rparr> in
               case get_option c ''crossbar_url'' (VStr []) of
                 Inl e \<Rightarrow> Inl (Raised e)
               | Inr _ \<Rightarrow> Inr c))"

definition resolve_path :: "os \<Rightarrow> config \<Rightarrow> string \<Rightarrow> string" where
  "resolve_path os c path =
     (let p = expandvars (os_env os) (expanduser os path) in
      if isabs p then p else path_join (cf_base c) p)"

text \<open>A path that is no string is refused by \<open>expanduser\<close>.\<close>

fun resolve_path_value :: "os \<Rightarrow> config \<Rightarrow> pyval \<Rightarrow> py_error + string" where
  "resolve_path_value os c (VStr s) = Inr (resolve_path os c s)"
| "resolve_path_value os c _ = Inl TypeError"

fun resolve_path_str_or_list :: "os \<Rightarrow> config \<Rightarrow> pyval \<Rightarrow> py_error + string list" where
  "resolve_path_str_or_list os c (VStr s) = Inr [resolve_path os c s]"
| "resolve_path_str_or_list os c (VList ps) = map_result (resolve_path_value os c) ps"
| "resolve_path_str_or_list os c _ = Inl TypeError"

definition get_tool :: "os \<Rightarrow> config \<Rightarrow> string \<Rightarrow> py_error + string" where
  "get_tool os c tool =
     (case and_result (subscript (cf_data c) ''tools'') (\<lambda>t. subscript t tool) of
        Inl KeyError \<Rightarrow> Inr tool
      | Inl e \<Rightarrow> Inl e
      | Inr v \<Rightarrow>
          (let path = str_of os v; resolved = resolve_path os c path in
           Inr (if os_exists os resolved then resolved else path)))"

definition get_image_path :: "os \<Rightarrow> config \<Rightarrow> string \<Rightarrow> py_error + string" where
  "get_image_path os c kind =
     and_result (and_result (subscript (cf_data c) ''images'') (\<lambda>t. subscript t kind))
       (\<lambda>v. Inr (resolve_path os c (str_of os v)))"

definition get_path :: "os \<Rightarrow> config \<Rightarrow> string \<Rightarrow> py_error + string" where
  "get_path os c kind =
     and_result (and_result (subscript (cf_data c) ''paths'') (\<lambda>t. subscript t kind))
       (\<lambda>v. Inr (resolve_path os c (str_of os v)))"

text \<open>\<open>v.setdefault('options', {})[name] = value\<close>.\<close>

definition put_option :: "string \<Rightarrow> pyval \<Rightarrow> pyval \<Rightarrow> py_error + pyval" where
  "put_option name value v =
     and_result (setdefault v ''options'' (VDict []))
       (\<lambda>w. and_result (subscript w ''options'')
         (\<lambda>opts. and_result (assign opts name value) (\<lambda>opts'. assign w ''options'' opts')))"

definition set_option :: "string \<Rightarrow> pyval \<Rightarrow> config \<Rightarrow> py_error + config" where
  "set_option name value c =
     and_result (put_option name value (cf_data c)) (\<lambda>data. Inr (c\<lparr>cf_data := data\<rparr>))"

definition get_target_option :: "config \<Rightarrow> string \<Rightarrow> string \<Rightarrow> pyval \<Rightarrow> py_error + pyval" where
  "get_target_option c target name d =
     and_result (subscript (cf_data c) ''targets'')
       (\<lambda>ts. and_result (contains ts target)
         (\<lambda>found.
           if \<not> found then Inl KeyError
           else on_error [KeyError, TypeError] (or_default d)
             (and_result (subscript ts target)
               (\<lambda>t. and_result (subscript t ''options'') (\<lambda>opts. subscript opts name)))))"

text \<open>\<open>del v[k]\<close> for a key that is there.\<close>

fun del_key :: "pyval \<Rightarrow> string \<Rightarrow> pyval" where
  "del_key (VDict d) k = VDict (AList.delete k d)"
| "del_key v k = v"

definition put_target_option :: "string \<Rightarrow> string \<Rightarrow> pyval \<Rightarrow> pyval \<Rightarrow> py_error + pyval" where
  "put_target_option target name value ts =
     and_result (subscript ts target)
       (\<lambda>now. and_result (setdefault (if now = VNone then del_key ts target else ts) target (VDict []))
         (\<lambda>ts'. and_result (subscript ts' target)
           (\<lambda>trg. and_result (put_option name value trg) (\<lambda>trg'. assign ts' target trg'))))"

definition set_target_option :: "string \<Rightarrow> string \<Rightarrow> pyval \<Rightarrow> config \<Rightarrow> py_error + config" where
  "set_target_option target name value c =
     and_result (subscript (cf_data c) ''targets'')
       (\<lambda>ts. and_result (contains ts target)
         (\<lambda>found.
           if \<not> found then Inl KeyError
           else and_result (put_target_option target name value ts)
             (\<lambda>ts'. and_result (assign (cf_data c) ''targets'' ts')
               (\<lambda>data. Inr (c\<lparr>cf_data := data\<rparr>)))))"

definition get_targets :: "config \<Rightarrow> py_error + pyval" where
  "get_targets c = get_default (cf_data c) ''targets'' (VDict [])"

definition ends_py :: "string \<Rightarrow> bool" where
  "ends_py s \<longleftrightarrow> 3 \<le> length s \<and> drop (length s - 3) s = ''.py''"

definition import_of :: "os \<Rightarrow> config \<Rightarrow> pyval \<Rightarrow> py_error + pyval" where
  "import_of os c v =
     and_result (resolve_path_value os c v) (\<lambda>p. Inr (if ends_py p then VStr p else v))"

definition get_imports :: "os \<Rightarrow> config \<Rightarrow> py_error + pyval list" where
  "get_imports os c =
     and_result (get_default (cf_data c) ''imports'' (VList []))
       (\<lambda>v. case v of
          VStr _ \<Rightarrow> Inl KeyError
        | _ \<Rightarrow> and_result (elements v) (map_result (import_of os c)))"

definition resolved_section :: "os \<Rightarrow> config \<Rightarrow> string \<Rightarrow> py_error + (string, string) dict" where
  "resolved_section os c name =
     and_result (get_default (cf_data c) name (VDict []))
       (\<lambda>v. and_result (item_pairs v)
         (map_result (\<lambda>(k, p). and_result (resolve_path_value os c p) (\<lambda>r. Inr (k, r)))))"

definition get_paths :: "os \<Rightarrow> config \<Rightarrow> py_error + (string, string) dict" where
  "get_paths os c = resolved_section os c ''paths''"

definition get_images :: "os \<Rightarrow> config \<Rightarrow> py_error + (string, string) dict" where
  "get_images os c = resolved_section os c ''images''"

definition get_features :: "config \<Rightarrow> py_error + pyval list" where
  "get_features c = and_result (get_default (cf_data c) ''features'' (VDict [])) as_set"


section \<open>Dictionaries\<close>

text \<open>
  \<open>diff_dict\<close> goes through the keys of both in order; a key that is missing counts as
  \<open>None\<close>.
\<close>

definition value_or_none :: "(string \<times> pyval) list \<Rightarrow> string \<Rightarrow> pyval" where
  "value_or_none d k = (case map_of d k of Some v \<Rightarrow> v | None \<Rightarrow> VNone)"

definition diff_dict ::
  "(string \<times> pyval) list \<Rightarrow> (string \<times> pyval) list \<Rightarrow> (string \<times> pyval \<times> pyval) list" where
  "diff_dict old new =
     map (\<lambda>k. (k, value_or_none old k, value_or_none new k))
       (filter (\<lambda>k. \<not> py_eq (value_or_none old k) (value_or_none new k))
         (sorted_list_of_set (set (keys old) \<union> set (keys new))))"

text \<open>The pairs that \<open>flatten\<close> yields; an empty dictionary yields nothing.\<close>

fun flatten :: "string list \<Rightarrow> pyval \<Rightarrow> (string \<times> pyval) list"
and flatten_items :: "string list \<Rightarrow> (string \<times> pyval) list \<Rightarrow> (string \<times> pyval) list" where
  "flatten prefix (VDict d) = flatten_items prefix d"
| "flatten prefix v = [(join_with ''.'' prefix, v)]"
| "flatten_items prefix [] = []"
| "flatten_items prefix ((k, v) # d) = flatten (prefix @ [k]) v @ flatten_items prefix d"

definition flat_dict :: "(string \<times> pyval) list \<Rightarrow> (string \<times> pyval) list" where
  "flat_dict d = dict_update [] (flatten_items [] d)"

text \<open>\<open>find_dict\<close>: a value that is found but is \<open>None\<close> does not end the search in a sibling.\<close>

fun find_dict :: "string \<Rightarrow> pyval \<Rightarrow> pyval"
and find_items :: "string \<Rightarrow> (string \<times> pyval) list \<Rightarrow> pyval" where
  "find_dict key (VDict d) =
     (case map_of d key of Some v \<Rightarrow> v | None \<Rightarrow> find_items key d)"
| "find_dict key _ = VNone"
| "find_items key [] = VNone"
| "find_items key ((k, v) # d) =
     (case find_dict key v of VNone \<Rightarrow> find_items key d | w \<Rightarrow> w)"


section \<open>Paths are absolute\<close>

lemma resolve_path_absolute: "isabs (cf_base c) \<Longrightarrow> isabs (resolve_path os c p)"
  by (simp add: resolve_path_def Let_def isabs_path_join)

lemma new_config_base:
  assumes "new_config os filename loaded = Inr c"
  shows "cf_base c = dirname (abspath os filename)"
  using assms unfolding new_config_def Let_def
  by (auto simp: and_result_Inr split: sum.splits load_error.splits yaml.splits pyval.splits)

lemma resolve_path_value_absolute:
  "isabs (cf_base c) \<Longrightarrow> resolve_path_value os c v = Inr p \<Longrightarrow> isabs p"
  by (cases v) (auto simp: resolve_path_absolute)

lemma resolved_section_absolute:
  assumes "isabs (cf_base c)" and "resolved_section os c name = Inr d" and "(k, p) \<in> set d"
  shows "isabs p"
proof -
  from assms(2) obtain e where
    "list_all2 (\<lambda>x y. (case x of (k, p) \<Rightarrow> and_result (resolve_path_value os c p) (\<lambda>r. Inr (k, r))) = Inr y) e d"
    unfolding resolved_section_def by (auto simp: and_result_Inr map_result_Inr)
  with assms(3) obtain x where
    "(case x of (k, p) \<Rightarrow> and_result (resolve_path_value os c p) (\<lambda>r. Inr (k, r))) = Inr (k, p)"
    unfolding list_all2_conv_all_nth in_set_conv_nth by metis
  then obtain v where "resolve_path_value os c v = Inr p"
    by (auto simp: and_result_Inr split: prod.splits)
  with assms(1) show ?thesis by (rule resolve_path_value_absolute)
qed

text \<open>
  Every path that a loaded configuration resolves is absolute, whatever it is written with:
  \<open>resolve_path\<close>, the images and paths by name, and all of them at once.
\<close>

lemma config_paths_absolute:
  assumes "new_config os filename loaded = Inr c" and "isabs (os_cwd os)"
  shows "isabs (resolve_path os c p) \<and>
    (get_image_path os c kind = Inr q \<longrightarrow> isabs q) \<and> (get_path os c kind = Inr q \<longrightarrow> isabs q) \<and>
    (\<forall>d k r. get_paths os c = Inr d \<or> get_images os c = Inr d \<longrightarrow> (k, r) \<in> set d \<longrightarrow> isabs r)"
proof -
  have b: "isabs (cf_base c)"
    using new_config_base [OF assms(1)] assms(2) by (simp add: isabs_dirname isabs_abspath)
  then have "isabs (resolve_path os c p)" for p by (rule resolve_path_absolute)
  moreover have "isabs r" if "get_paths os c = Inr d \<or> get_images os c = Inr d" "(k, r) \<in> set d" for d k r
    using that unfolding get_paths_def get_images_def
    by (auto intro: resolved_section_absolute [OF b])
  ultimately show ?thesis
    by (auto simp: get_image_path_def get_path_def and_result_Inr)
qed


section \<open>Options\<close>

lemma subscript_Inr: "subscript v k = Inr w \<longleftrightarrow> (\<exists>d. v = VDict d \<and> map_of d k = Some w)"
  by (cases v) (auto split: option.splits)

lemma setdefault_Inr: "setdefault v k w = Inr u \<longleftrightarrow> (\<exists>d. v = VDict d \<and> u = VDict (dict_setdefault k w d))"
  by (cases v) auto

lemma assign_Inr: "assign v k w = Inr u \<longleftrightarrow> (\<exists>d. v = VDict d \<and> u = VDict (AList.update k w d))"
  by (cases v) auto

lemmas value_Inr = and_result_Inr subscript_Inr setdefault_Inr assign_Inr

text \<open>The options that a section holds, when it may hold options at all.\<close>

fun section_options :: "pyval \<Rightarrow> (string \<times> pyval) list option" where
  "section_options (VDict d) =
     (case map_of d ''options'' of None \<Rightarrow> Some [] | Some (VDict opts) \<Rightarrow> Some opts | Some _ \<Rightarrow> None)"
| "section_options VNone = Some []"
| "section_options _ = None"

lemma put_option_cases:
  assumes "put_option name value v = Inr w"
  obtains d e opts where "v = VDict d" "w = VDict e" "section_options v = Some opts"
    "map_of e = (map_of d)(''options'' \<mapsto> VDict (AList.update name value opts))"
proof -
  from assms obtain d opts where d: "v = VDict d"
    "map_of (dict_setdefault ''options'' (VDict []) d) ''options'' = Some (VDict opts)"
    "w = VDict (AList.update ''options'' (VDict (AList.update name value opts))
       (dict_setdefault ''options'' (VDict []) d))"
    unfolding put_option_def by (auto simp: value_Inr)
  show ?thesis
  proof (rule that [OF d(1) d(3)])
    show "section_options v = Some opts" using d(1,2) by (auto split: option.splits if_splits)
    show "map_of (AList.update ''options'' (VDict (AList.update name value opts))
       (dict_setdefault ''options'' (VDict []) d)) =
      (map_of d)(''options'' \<mapsto> VDict (AList.update name value opts))" by auto
  qed
qed

lemma put_option_Inr:
  "put_option name value (VDict d) = Inr w \<Longrightarrow> \<exists>opts. section_options (VDict d) = Some opts \<and>
     section_options w = Some (AList.update name value opts)"
  by (erule put_option_cases) simp

lemma put_option_succeeds: "section_options (VDict d) = Some opts \<Longrightarrow> \<exists>w. put_option name value (VDict d) = Inr w"
  by (auto simp: put_option_def split: option.splits pyval.splits)

text \<open>What setting an option of a target makes of the targets.\<close>

lemma put_target_option_cases:
  assumes "put_target_option target name value (VDict ts) = Inr w"
  obtains ts' now trg opts where "w = VDict ts'" "map_of ts target = Some now"
    "section_options now = Some opts" "section_options trg = Some (AList.update name value opts)"
    "map_of ts' = (map_of ts)(target \<mapsto> trg)"
proof -
  from assms obtain now ts1 trg1 trg ts' where
    now: "map_of ts target = Some now" and
    ts1: "ts1 = dict_setdefault target (VDict []) (if now = VNone then AList.delete target ts else ts)" and
    trg1: "map_of ts1 target = Some trg1" and trg: "put_option name value trg1 = Inr trg" and
    w: "w = VDict ts'" and ts': "ts' = AList.update target trg ts1"
    unfolding put_target_option_def by (auto simp: value_Inr split: if_splits)
  have trg1': "trg1 = (if now = VNone then VDict [] else now)"
    using ts1 trg1 now by auto
  from trg obtain d opts where d: "trg1 = VDict d" "section_options trg1 = Some opts"
    by (rule put_option_cases)
  with put_option_Inr trg have "section_options trg = Some (AList.update name value opts)"
    by fastforce
  moreover have "section_options now = Some opts" using trg1' d(2) by (auto split: if_splits)
  moreover have "map_of ts' = (map_of ts)(target \<mapsto> trg)" unfolding ts' ts1 by auto
  ultimately show ?thesis using that w now by blast
qed

text \<open>Reading an option of a section, whatever the section is.\<close>

lemma section_lookup:
  assumes "section_options t = Some opts"
  shows "on_error [KeyError, TypeError] (or_default d)
      (and_result (subscript t ''options'') (\<lambda>os. subscript os name)) =
    (case map_of opts name of Some v \<Rightarrow> Inr v | None \<Rightarrow> or_default d)"
  using assms by (cases t) (auto split: option.splits pyval.splits)

text \<open>
  An option that is set for a target is read back, whatever the default; every other option
  of the target, every option of another target and every global option is what it was.
\<close>

lemma target_option_roundtrip:
  assumes "set_target_option target name value c = Inr c'"
  shows "get_target_option c' target name d = Inr value \<and>
    (\<forall>m. m \<noteq> name \<longrightarrow> get_target_option c' target m d = get_target_option c target m d) \<and>
    (\<forall>t m. t \<noteq> target \<longrightarrow> get_target_option c' t m d = get_target_option c t m d) \<and>
    get_option c' m d = get_option c m d"
proof -
  from assms obtain data ts w where data: "cf_data c = VDict data" "map_of data ''targets'' = Some ts"
    and found: "contains ts target = Inr True" and w: "put_target_option target name value ts = Inr w"
    and c': "c' = c\<lparr>cf_data := VDict (AList.update ''targets'' w data)\<rparr>"
    unfolding set_target_option_def by (auto simp: value_Inr split: if_splits)
  from w obtain tsd where ts: "ts = VDict tsd" unfolding put_target_option_def by (auto simp: value_Inr)
  from w [unfolded ts] obtain ts' now trg opts where p: "w = VDict ts'" "map_of tsd target = Some now"
    "section_options now = Some opts" "section_options trg = Some (AList.update name value opts)"
    "map_of ts' = (map_of tsd)(target \<mapsto> trg)"
    by (rule put_target_option_cases)
  have dom: "t \<in> fst ` set ts' \<longleftrightarrow> t = target \<or> t \<in> fst ` set tsd" for t
    using p(5) by (metis domIff dom_map_of_conv_image_fst fun_upd_apply option.distinct(1))
  have mem: "target \<in> fst ` set tsd" using found ts by simp
  have new: "get_target_option c' target m d =
      (case map_of (AList.update name value opts) m of Some v \<Rightarrow> Inr v | None \<Rightarrow> or_default d)" for m
    using p dom section_lookup [OF p(4), of d m]
    by (simp add: get_target_option_def c')
  have old: "get_target_option c target m d =
      (case map_of opts m of Some v \<Rightarrow> Inr v | None \<Rightarrow> or_default d)" for m
    using p mem data ts section_lookup [OF p(3), of d m]
    by (simp add: get_target_option_def)
  have "get_target_option c' t m d = get_target_option c t m d" if "t \<noteq> target" for t m
    using that p dom data ts by (simp add: get_target_option_def c')
  moreover have "get_option c' m d = get_option c m d"
    using data by (simp add: get_option_def c')
  ultimately show ?thesis using new old by simp
qed

lemma set_option_roundtrip:
  assumes "set_option name value c = Inr c'"
  shows "get_option c' name d = Inr value"
proof -
  from assms obtain w where w: "put_option name value (cf_data c) = Inr w" "c' = c\<lparr>cf_data := w\<rparr>"
    unfolding set_option_def by (auto simp: value_Inr)
  from w(1) obtain e opts where "w = VDict e" "map_of e ''options'' = Some (VDict (AList.update name value opts))"
    by (rule put_option_cases) simp
  with w(2) show ?thesis by (simp add: get_option_def)
qed

text \<open>
  A target that is declared empty takes options and has none; an empty section of global options
  is refused with a \<open>TypeError\<close> when the configuration is read.
\<close>

lemma empty_target_has_no_option:
  "get_target_option \<lparr>cf_base = b, cf_data = VDict [(''targets'', VDict [(''main'', VNone)])]\<rparr> ''main'' name d =
     or_default d"
  by (simp add: get_target_option_def)

lemma empty_options_refused:
  "new_config os filename (Inr (YDict [(''options'', YValue VNone)])) = Inl (Raised TypeError)"
  by (simp add: new_config_def get_option_def)

lemma scalar_document_refused:
  "v \<noteq> VNone \<Longrightarrow> new_config os filename (Inr (YValue v)) = Inl (Raised TypeError)"
  by (cases v) (simp_all add: new_config_def)

text \<open>A small configuration, for the witnesses.\<close>

definition sample_os :: os where
  "sample_os = \<lparr>os_env = [(''LG_X'', ''img'')], os_home = None, os_homes = [], os_cwd = ''/w'',
     os_exists = (\<lambda>_. False), os_str = (\<lambda>_. [])\<rparr>"

definition sample_document :: yaml where
  "sample_document = YDict [(''images'', YDict [(''k'', YTemplate ''$LG_X/a'')]),
     (''targets'', YDict [(''main'', YValue VNone)])]"

definition sample_config :: config where
  "sample_config = \<lparr>cf_base = ''/w'', cf_data = VDict [(''images'', VDict [(''k'', VStr ''img/a'')]),
     (''targets'', VDict [(''main'', VNone)])]\<rparr>"

lemma sample_loads: "new_config sample_os ''c.yaml'' (Inr sample_document) = Inr sample_config"
  by code_simp

theorem config_paths_absolute_witness:
  "get_image_path sample_os sample_config ''k'' = Inr ''/w/img/a'' \<and>
   (\<forall>p. isabs (resolve_path sample_os sample_config p))"
proof -
  have "isabs (os_cwd sample_os)" by code_simp
  note config_paths_absolute [OF sample_loads this]
  moreover have "get_image_path sample_os sample_config ''k'' = Inr ''/w/img/a''" by code_simp
  ultimately show ?thesis by blast
qed

theorem target_option_roundtrip_witness:
  "\<exists>c'. set_target_option ''main'' ''o'' (VInt 1) sample_config = Inr c' \<and>
     get_target_option c' ''main'' ''o'' VNone = Inr (VInt 1) \<and>
     get_target_option sample_config ''main'' ''o'' VNone = Inl KeyError"
proof -
  define c' where "c' = sample_config\<lparr>cf_data := VDict [(''images'', VDict [(''k'', VStr ''img/a'')]),
     (''targets'', VDict [(''main'', VDict [(''options'', VDict [(''o'', VInt 1)])])])]\<rparr>"
  have "set_target_option ''main'' ''o'' (VInt 1) sample_config = Inr c'"
    unfolding c'_def by code_simp
  moreover from target_option_roundtrip [OF this, of VNone]
  have "get_target_option c' ''main'' ''o'' VNone = Inr (VInt 1)" by blast
  moreover have "get_target_option sample_config ''main'' ''o'' VNone = Inl KeyError" by code_simp
  ultimately show ?thesis by blast
qed


section \<open>Flat dictionaries\<close>

text \<open>The value at a path of keys, and the paths to the values that are no dictionaries.\<close>

fun value_at :: "pyval \<Rightarrow> string list \<Rightarrow> pyval option" where
  "value_at v [] = Some v"
| "value_at (VDict d) (k # ks) = (case map_of d k of None \<Rightarrow> None | Some w \<Rightarrow> value_at w ks)"
| "value_at _ (k # ks) = None"

fun is_dict :: "pyval \<Rightarrow> bool" where
  "is_dict (VDict _) = True"
| "is_dict _ = False"

fun dotless :: "pyval \<Rightarrow> bool" where
  "dotless (VDict d) = (\<forall>x \<in> set d. CHR ''.'' \<notin> set (fst x) \<and> dotless (snd x))"
| "dotless _ = True"

fun paths :: "pyval \<Rightarrow> (string list \<times> pyval) list"
and paths_items :: "(string \<times> pyval) list \<Rightarrow> (string list \<times> pyval) list" where
  "paths (VDict d) = paths_items d"
| "paths v = [([], v)]"
| "paths_items [] = []"
| "paths_items ((k, v) # d) = map (\<lambda>(p, w). (k # p, w)) (paths v) @ paths_items d"

lemma flatten_paths:
  "flatten prefix v = map (\<lambda>(p, w). (join_with ''.'' (prefix @ p), w)) (paths v)"
  "flatten_items prefix d = map (\<lambda>(p, w). (join_with ''.'' (prefix @ p), w)) (paths_items d)"
proof (induction prefix v and prefix d rule: flatten_flatten_items.induct)
qed (auto simp: case_prod_unfold)

lemma map_of_map_Cons:
  "map_of (map (\<lambda>(p, w). (k # p, w)) xs) q =
     (case q of [] \<Rightarrow> None | j # p \<Rightarrow> if j = k then map_of xs p else None)"
  by (induction xs) (auto split: list.splits)

lemma keys_paths_items: "q \<in> fst ` set (paths_items d) \<Longrightarrow> \<exists>k p. q = k # p \<and> k \<in> fst ` set d"
proof (induction d)
  case Nil
  then show ?case by simp
next
  case (Cons a d)
  obtain k v where a: "a = (k, v)" by (cases a)
  then have "q \<in> (#) k ` fst ` set (paths v) \<or> q \<in> fst ` set (paths_items d)"
    using Cons.prems by (auto simp: image_Un image_image case_prod_unfold)
  with Cons.IH a show ?case by auto
qed

lemma map_of_paths:
  "value_wf v \<Longrightarrow> map_of (paths v) q =
     (case value_at v q of Some w \<Rightarrow> (if is_dict w then None else Some w) | None \<Rightarrow> None)"
  "value_wf (VDict d) \<Longrightarrow> map_of (paths_items d) q =
     (case value_at (VDict d) q of Some w \<Rightarrow> (if is_dict w then None else Some w) | None \<Rightarrow> None)"
proof (induction v and d arbitrary: q and q rule: paths_paths_items.induct)
  case (4 k v d)
  show ?case
  proof (cases q)
    case Nil
    then have "map_of (paths_items ((k, v) # d)) q = None"
      using keys_paths_items [of q "(k, v) # d"] by (auto simp only: map_of_eq_None_iff list.distinct)
    with Nil show ?thesis by simp
  next
    case (Cons j p)
    have v: "value_wf v" and d: "value_wf (VDict d)" and k: "k \<notin> fst ` set d" using 4(3) by auto
    show ?thesis
    proof (cases "j = k")
      case True
      have "map_of (paths_items d) q = None"
        using keys_paths_items [of q d] k Cons True by (auto simp: map_of_eq_None_iff)
      with Cons True 4(1) [OF v, of p] show ?thesis
        by (auto simp: map_of_map_Cons map_add_def split: option.splits)
    next
      case False
      with Cons 4(2) [OF d, of q] show ?thesis by (auto simp: map_of_map_Cons map_add_def)
    qed
  qed
next
  case 3
  then show ?case by (cases q) simp_all
qed (auto split: list.splits simp: neq_Nil_conv)

lemma fst_paths_Cons:
  "map fst (paths_items ((k, v) # d)) = map ((#) k) (map fst (paths v)) @ map fst (paths_items d)"
  by (simp add: case_prod_unfold)

lemma distinct_paths:
  "value_wf v \<Longrightarrow> distinct (map fst (paths v))"
  "value_wf (VDict d) \<Longrightarrow> distinct (map fst (paths_items d))"
proof (induction v and d rule: paths_paths_items.induct)
  case (4 k v d)
  then have wf: "value_wf v" "value_wf (VDict d)" and k: "k \<notin> fst ` set d" by auto
  have "q \<notin> fst ` set (paths_items d)" if "q \<in> (#) k ` fst ` set (paths v)" for q
    using keys_paths_items [of q d] k that by auto
  then have "set (map ((#) k) (map fst (paths v))) \<inter> set (map fst (paths_items d)) = {}"
    by (metis disjoint_iff list.set_map)
  moreover have "distinct (map ((#) k) (map fst (paths v)))"
    unfolding distinct_map [of "(#) k"] using 4(1) [OF wf(1)] by simp
  moreover have "distinct (map fst (paths_items d))" by (rule 4(2) [OF wf(2)])
  ultimately show ?case unfolding fst_paths_Cons distinct_append by blast
qed simp_all

lemma dotless_paths:
  "dotless v \<Longrightarrow> (p, w) \<in> set (paths v) \<Longrightarrow> \<forall>k \<in> set p. CHR ''.'' \<notin> set k"
  "dotless (VDict d) \<Longrightarrow> (p, w) \<in> set (paths_items d) \<Longrightarrow> \<forall>k \<in> set p. CHR ''.'' \<notin> set k"
  by (induction v and d arbitrary: p and p rule: paths_paths_items.induct) auto

lemma map_of_map_inj:
  "inj_on f (insert q (fst ` set xs)) \<Longrightarrow> map_of (map (\<lambda>(p, w). (f p, w)) xs) (f q) = map_of xs q"
  by (induction xs) (auto simp: inj_on_def)

text \<open>
  \<open>flat_dict\<close> of a tree of dictionaries whose keys hold no dots: under a dotted name stands what
  the tree holds at the path that the name spells, when that is no dictionary, and nothing else.
\<close>

lemma flat_dict_values:
  assumes "value_wf (VDict d)" and "dotless (VDict d)"
  shows "map_of (flat_dict d) s =
    (case value_at (VDict d) (split_on (CHR ''.'') s) of
       Some v \<Rightarrow> (if is_dict v then None else Some v) | None \<Rightarrow> None)"
proof -
  let ?join = "join_with ''.''" and ?q = "split_on (CHR ''.'') s"
  let ?ok = "{p. p \<noteq> [] \<and> (\<forall>k \<in> set p. CHR ''.'' \<notin> set k)}"
  have "inj_on ?join ?ok"
    by (rule inj_on_inverseI [where g = "split_on (CHR ''.'')"]) (simp add: split_join)
  moreover have "?q \<in> ?ok" by (simp add: split_on_no_sep)
  moreover have "fst ` set (paths_items d) \<subseteq> ?ok"
    using keys_paths_items [of _ d] dotless_paths(2) [OF assms(2)] by fastforce
  ultimately have inj: "inj_on ?join (insert ?q (fst ` set (paths_items d)))"
    by (meson inj_on_subset insert_subset)
  have flat: "flatten_items [] d = map (\<lambda>(p, w). (?join p, w)) (paths_items d)"
    by (simp add: flatten_paths)
  have "map fst (flatten_items [] d) = map ?join (map fst (paths_items d))"
    by (simp add: flat case_prod_unfold)
  moreover have "inj_on ?join (set (map fst (paths_items d)))"
    using inj by (auto intro: inj_on_subset)
  ultimately have "dict_wf (flatten_items [] d)"
    using distinct_paths(2) [OF assms(1)] by (simp only: distinct_map simp_thms)
  then have "map_of (flat_dict d) s = map_of (flatten_items [] d) s"
    by (auto simp: flat_dict_def map_of_dict_update split: option.splits)
  also have "\<dots> = map_of (flatten_items [] d) (?join ?q)" by simp
  also have "\<dots> = map_of (paths_items d) ?q" unfolding flat by (rule map_of_map_inj [OF inj])
  finally show ?thesis using map_of_paths(2) [OF assms(1)] by simp
qed

theorem flat_dict_values_witness:
  "map_of (flat_dict [(''a'', VDict [(''b'', VInt 1), (''c'', VDict [])])]) ''a.b'' = Some (VInt 1)"
proof -
  have "value_at (VDict [(''a'', VDict [(''b'', VInt 1), (''c'', VDict [])])]) (split_on (CHR ''.'') ''a.b'') =
    Some (VInt 1)" by code_simp
  moreover have "value_wf (VDict [(''a'', VDict [(''b'', VInt 1), (''c'', VDict [])])])"
    "dotless (VDict [(''a'', VDict [(''b'', VInt 1), (''c'', VDict [])])])" by simp_all
  note flat_dict_values [OF this, of "''a.b''"]
  ultimately show ?thesis by simp
qed

text \<open>What \<open>diff_dict\<close> reports: the keys whose values differ, \<open>None\<close> being as good as missing.\<close>

lemma diff_dict_iff:
  "(k, v, w) \<in> set (diff_dict d e) \<longleftrightarrow>
     k \<in> set (keys d) \<union> set (keys e) \<and> v = value_or_none d k \<and> w = value_or_none e k \<and> \<not> py_eq v w"
  unfolding diff_dict_def by auto

lemma diff_dict_Nil: "diff_dict d e = [] \<longleftrightarrow> (\<forall>k. py_eq (value_or_none d k) (value_or_none e k))"
proof -
  have "py_eq (value_or_none d k) (value_or_none e k)" if "k \<notin> set (keys d) \<union> set (keys e)" for k
  proof -
    have "map_of d k = None" "map_of e k = None" using that by (simp_all add: map_of_eq_None)
    then show ?thesis by (simp add: value_or_none_def)
  qed
  then show ?thesis unfolding diff_dict_def by (auto simp: filter_empty_conv)
qed

end
