(* ===== verification/Target.thy ===== *)
theory Target
  imports Prelude
begin

text \<open>
  \<^verbatim>\<open>labgrid/target.py\<close> with \<^verbatim>\<open>labgrid/binding.py\<close>, \<^verbatim>\<open>labgrid/driver/common.py\<close> (\<open>get_priority\<close>,
  \<open>get_bound_resources\<close>), \<^verbatim>\<open>labgrid/driver/consoleexpectmixin.py\<close> (\<open>resolve_conflicts\<close>) and
  \<^verbatim>\<open>labgrid/factory.py\<close> (\<open>class_from_string\<close>): the objects of a target, how drivers are bound to
  their suppliers, found, activated and deactivated. Classes are names with their method
  resolution order. The hooks of drivers, the managers of resources and the time are a world that
  answers each question in turn.
\<close>

section \<open>Classes and objects\<close>

text \<open>
  A binding of a driver class: whether it needs an explicit name, and the set of classes it
  accepts, where \<open>None\<close> makes it optional. A set is the list of its elements in the order in which
  Python iterates over it.
\<close>

record requirement =
  rq_explicit :: bool
  rq_classes :: "string option list"

record classes =
  cl_mro :: "string \<Rightarrow> string list"
  cl_known :: "string \<Rightarrow> bool"
  cl_priorities :: "string \<Rightarrow> (string, int) dict"
  cl_bindings :: "string \<Rightarrow> (string, requirement) dict"

definition is_subclass :: "classes \<Rightarrow> string \<Rightarrow> string \<Rightarrow> bool" where
  "is_subclass cl c d \<longleftrightarrow> d \<in> set (cl_mro cl c)"

datatype binding_state = ErrorState | Idle | Bound | Active

type_synonym obj = nat

record bindable =
  bd_class :: string
  bd_name :: "string option"
  bd_state :: binding_state
  bd_suppliers :: "obj list"
  bd_clients :: "obj list"
  bd_target :: bool
  bd_attrs :: "(string, obj option) dict"
  bd_avail :: bool
  bd_managed :: bool

record target =
  tg_heap :: "obj \<Rightarrow> bindable"
  tg_resources :: "obj list"
  tg_drivers :: "obj list"
  tg_map :: "(string, string) dict"
  tg_tick :: nat

text \<open>
  The world: at each question (counted by \<open>tg_tick\<close>) whether 0.1 s have passed since the last
  update, what is available after a poll, how many rounds a wait makes until its timeout has
  expired, and whether the hook of an object raises.
\<close>

record world =
  w_due :: "nat \<Rightarrow> bool"
  w_avail :: "nat \<Rightarrow> obj \<Rightarrow> bool"
  w_rounds :: "nat \<Rightarrow> nat"
  w_activate_fails :: "nat \<Rightarrow> obj \<Rightarrow> bool"
  w_deactivate_fails :: "nat \<Rightarrow> obj \<Rightarrow> bool"

datatype target_error =
    BindingErr
  | NoSupplierFound
  | NoResourceFound
  | NoDriverFound
  | NoStrategyFound
  | UnknownClass
  | HookErr
  | AssertErr
  | NotImplementedError
  | UnboundLocal
  | RecursionErr

type_synonym 'a targeting = "target \<Rightarrow> (target_error, 'a, target) outcome"

fun is_supplier_error :: "target_error \<Rightarrow> bool" where
  "is_supplier_error NoSupplierFound = True"
| "is_supplier_error NoResourceFound = True"
| "is_supplier_error NoDriverFound = True"
| "is_supplier_error NoStrategyFound = True"
| "is_supplier_error _ = False"

definition obj :: "target \<Rightarrow> obj \<Rightarrow> bindable" where
  "obj s c = tg_heap s c"

definition state_of :: "target \<Rightarrow> obj \<Rightarrow> binding_state" where
  "state_of s c = bd_state (obj s c)"

definition modify :: "obj \<Rightarrow> (bindable \<Rightarrow> bindable) \<Rightarrow> target \<Rightarrow> target" where
  "modify c f s = s\<lparr>tg_heap := (tg_heap s)(c := f (tg_heap s c))\<rparr>"

definition set_state :: "obj \<Rightarrow> binding_state \<Rightarrow> target \<Rightarrow> target" where
  "set_state c b = modify c (\<lambda>x. x\<lparr>bd_state := b\<rparr>)"

definition tick :: "target \<Rightarrow> target" where
  "tick s = s\<lparr>tg_tick := Suc (tg_tick s)\<rparr>"

definition is_instance :: "classes \<Rightarrow> target \<Rightarrow> obj \<Rightarrow> string \<Rightarrow> bool" where
  "is_instance cl s c cls = is_subclass cl (bd_class (obj s c)) cls"

abbreviation is_resource :: "classes \<Rightarrow> target \<Rightarrow> obj \<Rightarrow> bool" where
  "is_resource cl s c \<equiv> is_instance cl s c ''Resource''"

abbreviation is_strategy :: "classes \<Rightarrow> target \<Rightarrow> obj \<Rightarrow> bool" where
  "is_strategy cl s c \<equiv> is_instance cl s c ''Strategy''"

definition member :: "target \<Rightarrow> obj \<Rightarrow> bool" where
  "member s c \<longleftrightarrow> c \<in> set (tg_resources s) \<or> c \<in> set (tg_drivers s)"

definition class_from_string :: "classes \<Rightarrow> string \<Rightarrow> target_error + string" where
  "class_from_string cl c = (if cl_known cl c then Inr c else Inl UnknownClass)"

text \<open>\<open>get_priority\<close>: the first class that names the protocol among its priorities, or is it.\<close>

fun mro_priority :: "classes \<Rightarrow> string \<Rightarrow> string list \<Rightarrow> int" where
  "mro_priority cl protocol [] = 0"
| "mro_priority cl protocol (c # cs) =
     (case map_of (cl_priorities cl c) protocol of
        Some p \<Rightarrow> p
      | None \<Rightarrow> (if c = protocol then 0 else mro_priority cl protocol cs))"

definition get_priority :: "classes \<Rightarrow> target \<Rightarrow> obj \<Rightarrow> string \<Rightarrow> int" where
  "get_priority cl s c protocol = mro_priority cl protocol (cl_mro cl (bd_class (obj s c)))"


section \<open>Deactivation\<close>

text \<open>A loop that collects the lists its body returns.\<close>

fun collect_each :: "('a \<Rightarrow> 's \<Rightarrow> ('e, 'b list, 's) outcome) \<Rightarrow> 'a list \<Rightarrow> 's \<Rightarrow> ('e, 'b list, 's) outcome"
where
  "collect_each f [] s = (Inr [], s)"
| "collect_each f (x # xs) s =
     and_then (f x s) (\<lambda>ys t. and_then (collect_each f xs t) (\<lambda>zs u. (Inr (ys @ zs), u)))"

text \<open>\<open>on_activate\<close> and \<open>on_deactivate\<close> of an object.\<close>

definition on_activate :: "world \<Rightarrow> obj \<Rightarrow> unit targeting" where
  "on_activate w c s =
     (if w_activate_fails w (tg_tick s) c then (Inl HookErr, tick s) else (Inr (), tick s))"

definition on_deactivate :: "world \<Rightarrow> obj \<Rightarrow> unit targeting" where
  "on_deactivate w c s =
     (if w_deactivate_fails w (tg_tick s) c then (Inl HookErr, tick s) else (Inr (), tick s))"

text \<open>
  The recursion over the clients is bounded by the depth \<open>n\<close> that Python still allows;
  \<open>RecursionErr\<close> is what exceeding it raises.
\<close>

fun deactivate :: "world \<Rightarrow> nat \<Rightarrow> obj \<Rightarrow> obj list targeting" where
  "deactivate w 0 c s = (Inl RecursionErr, s)"
| "deactivate w (Suc n) c s =
     (case state_of s c of
        Bound \<Rightarrow> (Inr [], s)
      | Active \<Rightarrow>
          (if \<not> member s c then (Inl AssertErr, s)
           else and_then (collect_each (deactivate w n) (bd_clients (obj s c)) s)
             (\<lambda>ds t. and_then (on_deactivate w c t)
                (\<lambda>_ u. (Inr (c # ds), set_state c Bound u))))
      | _ \<Rightarrow> (Inl BindingErr, s))"

definition deactivate_one :: "world \<Rightarrow> nat \<Rightarrow> obj \<Rightarrow> unit targeting" where
  "deactivate_one w n c s = and_then (deactivate w n c s) (\<lambda>_ t. (Inr (), t))"

definition deactivate_all_drivers :: "world \<Rightarrow> nat \<Rightarrow> unit targeting" where
  "deactivate_all_drivers w n s = for_each (deactivate_one w n) (rev (tg_drivers s)) s"

definition cleanup :: "world \<Rightarrow> nat \<Rightarrow> unit targeting" where
  "cleanup w n s =
     and_then (deactivate_all_drivers w n s)
       (\<lambda>_ t. for_each (deactivate_one w n) (rev (tg_resources t)) t)"


section \<open>Availability of resources\<close>

text \<open>A poll updates the availability of the managed resources.\<close>

definition poll :: "world \<Rightarrow> target \<Rightarrow> target" where
  "poll w s =
     tick (s\<lparr>tg_heap := (\<lambda>c. let x = tg_heap s c in
       if bd_managed x then x\<lparr>bd_avail := w_avail w (tg_tick s) c\<rparr> else x)\<rparr>)"

definition poll_if_managed :: "world \<Rightarrow> obj \<Rightarrow> target \<Rightarrow> target" where
  "poll_if_managed w c s = (if bd_managed (obj s c) then poll w s else s)"

text \<open>
  \<open>deactivated.remove(resource)\<close> cannot fail: the list of the deactivated objects starts with the
  resource.
\<close>

definition update_one :: "world \<Rightarrow> nat \<Rightarrow> obj \<Rightarrow> unit targeting" where
  "update_one w n r s =
     (let t = poll_if_managed w r s in
      if \<not> bd_avail (obj t r) \<and> state_of t r = Active then deactivate_one w n r t
      else (Inr (), t))"

definition update_target_resources :: "world \<Rightarrow> nat \<Rightarrow> unit targeting" where
  "update_target_resources w n s =
     (if \<not> w_due w (tg_tick s) then (Inr (), tick s)
      else for_each (update_one w n) (tg_resources s) (tick s))"

definition missing :: "bool \<Rightarrow> target \<Rightarrow> obj list \<Rightarrow> obj list" where
  "missing avail s rs = filter (\<lambda>r. bd_avail (obj s r) \<noteq> avail) rs"

text \<open>
  The waiting loop, as often as the timeout allows: what is missing is looked up before the poll,
  so that what a poll finds is seen in the next round only. The loop returns what it still waits
  for.
\<close>

fun wait_loop :: "world \<Rightarrow> bool \<Rightarrow> nat \<Rightarrow> obj list \<Rightarrow> target \<Rightarrow> obj list \<times> target" where
  "wait_loop w avail 0 waiting s = (waiting, s)"
| "wait_loop w avail (Suc k) waiting s =
     (if waiting = [] then ([], s)
      else let ws = missing avail s waiting in
        wait_loop w avail k ws (fold (poll_if_managed w) ws s))"

definition await_resources :: "world \<Rightarrow> nat \<Rightarrow> obj list \<Rightarrow> bool \<Rightarrow> unit targeting" where
  "await_resources w n rs avail s =
     and_then (update_target_resources w n s)
       (\<lambda>_ t.
          let waiting = missing avail t rs in
          if list_ex (\<lambda>r. \<not> bd_managed (obj t r)) waiting then (Inl NoResourceFound, t)
          else if waiting = [] then (Inr (), t)
          else case wait_loop w avail (w_rounds w (tg_tick t)) waiting (tick t) of
            (left, u) \<Rightarrow>
              if left \<noteq> [] then (Inl NoResourceFound, u) else update_target_resources w n u)"


section \<open>Activation\<close>

text \<open>
  A supplier that is a console makes its other clients leave; strategies have no clients, and
  other objects do nothing.
\<close>

definition resolve_conflicts :: "classes \<Rightarrow> world \<Rightarrow> nat \<Rightarrow> obj \<Rightarrow> obj \<Rightarrow> unit targeting" where
  "resolve_conflicts cl w n supplier client s =
     (if is_strategy cl s supplier then (Inl NotImplementedError, s)
      else if is_instance cl s supplier ''ConsoleExpectMixin''
      then for_each (deactivate_one w n)
             (filter (\<lambda>other. other \<noteq> client) (bd_clients (obj s supplier))) s
      else (Inr (), s))"

fun activate :: "classes \<Rightarrow> world \<Rightarrow> nat \<Rightarrow> obj \<Rightarrow> unit targeting" where
  "activate cl w 0 c s = (Inl RecursionErr, s)"
| "activate cl w (Suc n) c s =
     (if is_strategy cl s c then (Inr (), s)
      else case state_of s c of
        Active \<Rightarrow> (Inr (), s)
      | Bound \<Rightarrow>
          (if \<not> member s c then (Inl AssertErr, s)
           else and_then (await_resources w n (filter (is_resource cl s) (bd_suppliers (obj s c))) True s)
             (\<lambda>_ t. and_then
                (for_each
                  (\<lambda>p u. and_then
                     (if state_of u p \<noteq> Active then activate cl w n p u else (Inr (), u))
                     (\<lambda>_ v. resolve_conflicts cl w n p c v))
                  (bd_suppliers (obj t c)) t)
                (\<lambda>_ u. and_then (on_activate w c u) (\<lambda>_ v. (Inr (), set_state c Active v)))))
      | _ \<Rightarrow> (Inl BindingErr, s))"


section \<open>Finding resources, drivers and the strategy\<close>

definition named :: "string option \<Rightarrow> target \<Rightarrow> obj \<Rightarrow> bool" where
  "named name s c \<longleftrightarrow> \<not> truthy name \<or> bd_name (obj s c) = name"

text \<open>The default is the last instance of the class with that name.\<close>

definition default_resource :: "classes \<Rightarrow> string \<Rightarrow> target \<Rightarrow> obj option" where
  "default_resource cl cls s =
     find (\<lambda>r. bd_name (obj s r) = Some ''default'')
       (rev (filter (\<lambda>r. is_instance cl s r cls) (tg_resources s)))"

definition find_resources :: "classes \<Rightarrow> string \<Rightarrow> string option \<Rightarrow> target \<Rightarrow> obj list" where
  "find_resources cl cls name s =
     (let found = filter (\<lambda>r. is_instance cl s r cls \<and> named name s r) (tg_resources s) in
      case default_resource cl cls s of
        Some d \<Rightarrow> (if \<not> truthy name \<and> length found \<noteq> 1 then [d] else found)
      | None \<Rightarrow> found)"

definition get_resource ::
  "classes \<Rightarrow> world \<Rightarrow> nat \<Rightarrow> string \<Rightarrow> string option \<Rightarrow> bool \<Rightarrow> obj targeting" where
  "get_resource cl w n cls name wait_avail s =
     (case class_from_string cl cls of
        Inl e \<Rightarrow> (Inl e, s)
      | Inr cls \<Rightarrow>
          (case find_resources cl cls name s of
             [r] \<Rightarrow>
               (if wait_avail then and_then (await_resources w n [r] True s) (\<lambda>_ t. (Inr r, t))
                else (Inr r, s))
           | _ \<Rightarrow> (Inl NoResourceFound, s)))"

text \<open>\<open>get_bound_resources\<close>, with the depth of the recursion.\<close>

fun get_bound_resources :: "classes \<Rightarrow> nat \<Rightarrow> target \<Rightarrow> obj \<Rightarrow> target_error + obj list" where
  "get_bound_resources cl 0 s c = Inl RecursionErr"
| "get_bound_resources cl (Suc n) s c =
     (if is_resource cl s c then Inr [c]
      else foldr (\<lambda>p acc. case get_bound_resources cl n s p of
             Inl e \<Rightarrow> Inl e
           | Inr rs \<Rightarrow> (case acc of Inl e \<Rightarrow> Inl e | Inr qs \<Rightarrow> Inr (List.union rs qs)))
           (bd_suppliers (obj s c)) (Inr []))"

definition uses_resource :: "classes \<Rightarrow> nat \<Rightarrow> target \<Rightarrow> obj option \<Rightarrow> obj \<Rightarrow> target_error + bool" where
  "uses_resource cl n s resource c =
     (case resource of
        None \<Rightarrow> Inr True
      | Some r \<Rightarrow> (case get_bound_resources cl n s c of Inl e \<Rightarrow> Inl e | Inr rs \<Rightarrow> Inr (r \<in> set rs)))"

fun select_drivers ::
  "classes \<Rightarrow> nat \<Rightarrow> string \<Rightarrow> string option \<Rightarrow> obj option \<Rightarrow> bool \<Rightarrow> target \<Rightarrow> obj list \<Rightarrow>
   target_error + obj list" where
  "select_drivers cl n cls name resource active s [] = Inr []"
| "select_drivers cl n cls name resource active s (d # ds) =
     (if \<not> is_instance cl s d cls then select_drivers cl n cls name resource active s ds
      else case uses_resource cl n s resource d of
        Inl e \<Rightarrow> Inl e
      | Inr used \<Rightarrow>
          (case select_drivers cl n cls name resource active s ds of
             Inl e \<Rightarrow> Inl e
           | Inr found \<Rightarrow>
               Inr (if used \<and> named name s d \<and> (active \<longrightarrow> state_of s d = Active)
                    then d # found else found)))"

text \<open>The loop over the priorities: the best one so far and the drivers that have it.\<close>

fun best_drivers :: "(obj \<Rightarrow> int) \<Rightarrow> int \<Rightarrow> obj list \<Rightarrow> obj list \<Rightarrow> obj list" where
  "best_drivers prio peak best [] = best"
| "best_drivers prio peak best (d # ds) =
     (if peak < prio d then best_drivers prio (prio d) [d] ds
      else if prio d = peak then best_drivers prio peak (best @ [d]) ds
      else best_drivers prio peak best ds)"

definition choose_driver :: "classes \<Rightarrow> string \<Rightarrow> target \<Rightarrow> obj list \<Rightarrow> obj option" where
  "choose_driver cl cls s found =
     (case found of
        [] \<Rightarrow> None
      | [d] \<Rightarrow> Some d
      | _ \<Rightarrow> (case best_drivers (\<lambda>d. get_priority cl s d cls) (- 255) [] found of
               [d] \<Rightarrow> Some d | _ \<Rightarrow> None))"

definition get_driver_full ::
  "classes \<Rightarrow> world \<Rightarrow> nat \<Rightarrow> string \<Rightarrow> string option \<Rightarrow> obj option \<Rightarrow> bool \<Rightarrow> bool \<Rightarrow> obj targeting" where
  "get_driver_full cl w n cls name resource activated active s =
     (if activated \<and> active then (Inl AssertErr, s)
      else case class_from_string cl cls of
        Inl e \<Rightarrow> (Inl e, s)
      | Inr cls \<Rightarrow>
          (case select_drivers cl n cls name resource active s (tg_drivers s) of
             Inl e \<Rightarrow> (Inl e, s)
           | Inr found \<Rightarrow>
               (case choose_driver cl cls s found of
                  None \<Rightarrow> (Inl NoDriverFound, s)
                | Some d \<Rightarrow>
                    (if activated then and_then (activate cl w n d s) (\<lambda>_ t. (Inr d, t))
                     else (Inr d, s)))))"

definition get_active_driver ::
  "classes \<Rightarrow> world \<Rightarrow> nat \<Rightarrow> string \<Rightarrow> string option \<Rightarrow> obj option \<Rightarrow> obj targeting" where
  "get_active_driver cl w n cls name resource = get_driver_full cl w n cls name resource False True"

definition get_driver ::
  "classes \<Rightarrow> world \<Rightarrow> nat \<Rightarrow> string \<Rightarrow> string option \<Rightarrow> obj option \<Rightarrow> bool \<Rightarrow> obj targeting" where
  "get_driver cl w n cls name resource activated =
     get_driver_full cl w n cls name resource activated False"

definition get_strategy :: "classes \<Rightarrow> target \<Rightarrow> target_error + obj" where
  "get_strategy cl s =
     (case filter (is_strategy cl s) (tg_drivers s) of [d] \<Rightarrow> Inr d | _ \<Rightarrow> Inl NoStrategyFound)"

text \<open>\<open>target[cls]\<close> and \<open>target[cls, name]\<close>.\<close>

definition get_item :: "classes \<Rightarrow> world \<Rightarrow> nat \<Rightarrow> string \<Rightarrow> string option \<Rightarrow> obj targeting" where
  "get_item cl w n cls name s =
     (case class_from_string cl cls of
        Inl e \<Rightarrow> (Inl e, s)
      | Inr cls \<Rightarrow>
          (if \<not> is_subclass cl cls ''Driver'' \<and> \<not> is_subclass cl cls ''ABC'' then (Inl NoDriverFound, s)
           else get_active_driver cl w n cls name None s))"

definition activate_named :: "classes \<Rightarrow> world \<Rightarrow> nat \<Rightarrow> string \<Rightarrow> string option \<Rightarrow> unit targeting" where
  "activate_named cl w n cls name s =
     and_then (get_driver_full cl w n cls name None False False s) (\<lambda>d. activate cl w n d)"

definition deactivate_named ::
  "classes \<Rightarrow> world \<Rightarrow> nat \<Rightarrow> string \<Rightarrow> string option \<Rightarrow> obj list targeting" where
  "deactivate_named cl w n cls name s =
     and_then (get_driver_full cl w n cls name None False True s) (\<lambda>d. deactivate w n d)"


section \<open>New objects\<close>

text \<open>
  A new object belongs to no target and has neither suppliers nor clients; a managed resource
  is unavailable until its manager has found it.
\<close>

definition new_object :: "string \<Rightarrow> string option \<Rightarrow> bool \<Rightarrow> bindable" where
  "new_object cls name managed =
     \<lparr>bd_class = cls, bd_name = name, bd_state = Idle, bd_suppliers = [], bd_clients = [],
      bd_target = False, bd_attrs = [], bd_avail = (\<not> managed), bd_managed = managed\<rparr>"

definition create :: "obj \<Rightarrow> bindable \<Rightarrow> target \<Rightarrow> target" where
  "create c x s = s\<lparr>tg_heap := (tg_heap s)(c := x)\<rparr>"

definition new_target :: target where
  "new_target = \<lparr>tg_heap = (\<lambda>_. new_object [] None False), tg_resources = [], tg_drivers = [],
     tg_map = [], tg_tick = 0\<rparr>"


section \<open>Binding\<close>

definition set_binding_map :: "(string, string) dict \<Rightarrow> target \<Rightarrow> target" where
  "set_binding_map m s = s\<lparr>tg_map := m\<rparr>"

definition bind_resource :: "classes \<Rightarrow> obj \<Rightarrow> unit targeting" where
  "bind_resource cl r s =
     (if state_of s r \<noteq> Idle then (Inl BindingErr, s)
      else if \<not> is_resource cl s r \<or> cl_bindings cl (bd_class (obj s r)) \<noteq> [] \<or>
              r \<in> set (tg_resources s) \<or> bd_target (obj s r)
      then (Inl AssertErr, s)
      else (Inr (), modify r (\<lambda>x. x\<lparr>bd_target := True, bd_state := Bound\<rparr>)
                      (s\<lparr>tg_resources := tg_resources s @ [r]\<rparr>)))"

text \<open>
  The suppliers for the classes of one binding, the errors of those that have none, and the class
  that the loop looked at last.
\<close>

fun find_suppliers ::
  "classes \<Rightarrow> world \<Rightarrow> nat \<Rightarrow> string option \<Rightarrow> string option \<Rightarrow> string list \<Rightarrow> target \<Rightarrow>
   target_error + obj list \<times> target_error list \<times> string option" where
  "find_suppliers cl w n name last_cls [] s = Inr ([], [], last_cls)"
| "find_suppliers cl w n name last_cls (c # cs) s =
     (case class_from_string cl c of
        Inl e \<Rightarrow> Inl e
      | Inr c \<Rightarrow>
          (let found =
             (if is_subclass cl c ''Resource'' then fst (get_resource cl w n c name False s)
              else if is_subclass cl c ''Driver'' \<or> is_subclass cl c ''ABC''
              then fst (get_driver cl w n c name None False s)
              else Inl NoSupplierFound) in
           case found of
             Inl e \<Rightarrow>
               (if is_supplier_error e
                then (case find_suppliers cl w n name (Some c) cs s of
                        Inl e' \<Rightarrow> Inl e' | Inr (ps, es, l) \<Rightarrow> Inr (ps, e # es, l))
                else Inl e)
           | Inr p \<Rightarrow>
               (case find_suppliers cl w n name (Some c) cs s of
                  Inl e' \<Rightarrow> Inl e' | Inr (ps, es, l) \<Rightarrow> Inr (p # ps, es, l))))"

text \<open>Which supplier one binding gets.\<close>

definition pick_supplier :: "bool \<Rightarrow> obj list \<Rightarrow> target_error list \<Rightarrow> target_error + obj option" where
  "pick_supplier optional ps es =
     (case ps of
        [] \<Rightarrow> (if optional then Inr None
               else case es of [e] \<Rightarrow> Inl e | _ \<Rightarrow> Inl NoSupplierFound)
      | [p] \<Rightarrow> Inr (Some p)
      | _ \<Rightarrow> Inl NoSupplierFound)"

text \<open>
  The loop over the bindings of a class. The variable that names the class of a pair keeps the
  last class looked at, also from an earlier binding; it is unbound when there was none.
\<close>

record binding_loop =
  bl_suppliers :: "obj list"
  bl_pairs :: "(string \<times> obj option) list"
  bl_map :: "(string, string) dict"
  bl_class :: "string option"

definition start_loop :: "(string, string) dict \<Rightarrow> binding_loop" where
  "start_loop m = \<lparr>bl_suppliers = [], bl_pairs = [], bl_map = m, bl_class = None\<rparr>"

definition bind_one ::
  "classes \<Rightarrow> world \<Rightarrow> nat \<Rightarrow> obj \<Rightarrow> string \<times> requirement \<Rightarrow> binding_loop \<Rightarrow> binding_loop targeting" where
  "bind_one cl w n client nr b s =
     (case nr of (name, rq) \<Rightarrow>
        let supplier_name = map_of (bl_map b) name; m = AList.delete name (bl_map b) in
        if rq_explicit rq \<and> supplier_name = None then (Inl BindingErr, s)
        else case find_suppliers cl w n supplier_name (bl_class b)
               (map the (filter (\<lambda>c. c \<noteq> None) (rq_classes rq))) s of
          Inl e \<Rightarrow> (Inl e, s)
        | Inr (ps, es, last_cls) \<Rightarrow>
            (case pick_supplier (None \<in> set (rq_classes rq)) ps es of
               Inl e \<Rightarrow> (Inl e, s)
             | Inr p \<Rightarrow>
                 (case last_cls of
                    None \<Rightarrow> (Inl UnboundLocal, s)
                  | Some c \<Rightarrow>
                      (if p \<noteq> None \<and> (c, p) \<in> set (bl_pairs b) then (Inl BindingErr, s)
                       else (Inr \<lparr>bl_suppliers = bl_suppliers b @ (case p of None \<Rightarrow> [] | Some q \<Rightarrow> [q]),
                                  bl_pairs = (c, p) # bl_pairs b, bl_map = m, bl_class = last_cls\<rparr>,
                             modify client (\<lambda>x. x\<lparr>bd_attrs := AList.update name p (bd_attrs x)\<rparr>) s)))))"

fun bind_all ::
  "classes \<Rightarrow> world \<Rightarrow> nat \<Rightarrow> obj \<Rightarrow> (string \<times> requirement) list \<Rightarrow> binding_loop \<Rightarrow>
   binding_loop targeting" where
  "bind_all cl w n client [] b s = (Inr b, s)"
| "bind_all cl w n client (nr # nrs) b s =
     and_then (bind_one cl w n client nr b s) (\<lambda>b'. bind_all cl w n client nrs b')"

text \<open>
  Both directions of one relationship; only a strategy raises in \<open>on_client_bound\<close>, and no
  driver overrides \<open>on_supplier_bound\<close>.
\<close>

definition link :: "classes \<Rightarrow> obj \<Rightarrow> obj \<Rightarrow> unit targeting" where
  "link cl client p s =
     (let t = modify client (\<lambda>x. x\<lparr>bd_suppliers := List.insert p (bd_suppliers x)\<rparr>)
                (modify p (\<lambda>x. x\<lparr>bd_clients := List.insert client (bd_clients x)\<rparr>) s) in
      if is_strategy cl t p then (Inl NotImplementedError, t) else (Inr (), t))"

definition bind_driver :: "classes \<Rightarrow> world \<Rightarrow> nat \<Rightarrow> obj \<Rightarrow> unit targeting" where
  "bind_driver cl w n client s =
     (if state_of s client \<noteq> Idle then (Inl BindingErr, s)
      else if \<not> is_instance cl s client ''Driver'' \<or> client \<in> set (tg_drivers s) \<or>
              bd_target (obj s client)
      then (Inl AssertErr, s)
      else and_then
        (bind_all cl w n client (cl_bindings cl (bd_class (obj s client))) (start_loop (tg_map s))
           (s\<lparr>tg_map := []\<rparr>))
        (\<lambda>b t.
          if list_ex (\<lambda>p. \<not> bd_target (obj t p) \<or> client \<in> set (bd_clients (obj t p)) \<or>
                p \<in> set (bd_suppliers (obj t client))) (bl_suppliers b)
          then (Inl AssertErr, t)
          else if bl_map b \<noteq> [] \<and> \<not> is_strategy cl t client then (Inl BindingErr, t)
          else and_then
            (for_each (link cl client) (bl_suppliers b)
               (modify client (\<lambda>x. x\<lparr>bd_target := True\<rparr>)
                  (t\<lparr>tg_drivers := tg_drivers t @ [client]\<rparr>)))
            (\<lambda>_ u. (Inr (), set_state client Bound u))))"

definition bind :: "classes \<Rightarrow> world \<Rightarrow> nat \<Rightarrow> obj \<Rightarrow> unit targeting" where
  "bind cl w n c s =
     (if is_resource cl s c then bind_resource cl c s
      else if is_instance cl s c ''Driver'' then bind_driver cl w n c s
      else (Inl BindingErr, s))"

end
