(* ===== verification/TargetProps.thy ===== *)
theory TargetProps
  imports Target
begin

text \<open>
  What holds of targets: the relation between clients and suppliers and the order in which drivers
  are bound, what a deactivation reaches, that the recursions end, when activation keeps every
  active object on active suppliers, which driver is found, and what a wait for resources reports.
\<close>

section \<open>Relations between objects\<close>

definition supplier :: "target \<Rightarrow> obj \<Rightarrow> obj \<Rightarrow> bool" where
  "supplier s c p \<longleftrightarrow> p \<in> set (bd_suppliers (obj s c))"

definition client :: "target \<Rightarrow> obj \<Rightarrow> obj \<Rightarrow> bool" where
  "client s p c \<longleftrightarrow> c \<in> set (bd_clients (obj s p))"

definition depends :: "target \<Rightarrow> obj \<Rightarrow> obj \<Rightarrow> bool" where
  "depends s = (supplier s)\<^sup>*\<^sup>*"

definition symmetric :: "target \<Rightarrow> bool" where
  "symmetric s \<longleftrightarrow> (\<forall>c p. supplier s c p \<longleftrightarrow> client s p c)"

definition active :: "target \<Rightarrow> obj \<Rightarrow> bool" where
  "active s c \<longleftrightarrow> state_of s c = Active"

text \<open>No active object has an inactive supplier.\<close>

definition closed :: "target \<Rightarrow> bool" where
  "closed s \<longleftrightarrow> (\<forall>c p. active s c \<longrightarrow> supplier s c p \<longrightarrow> active s p)"

definition same_links :: "target \<Rightarrow> target \<Rightarrow> bool" where
  "same_links s t \<longleftrightarrow> tg_resources t = tg_resources s \<and> tg_drivers t = tg_drivers s \<and>
     (\<forall>c. bd_class (obj t c) = bd_class (obj s c) \<and> bd_suppliers (obj t c) = bd_suppliers (obj s c) \<and>
       bd_clients (obj t c) = bd_clients (obj s c) \<and> bd_target (obj t c) = bd_target (obj s c) \<and>
       bd_managed (obj t c) = bd_managed (obj s c))"

text \<open>Nothing but the state of active objects has changed, and they are bound now.\<close>

definition only_deactivated :: "target \<Rightarrow> target \<Rightarrow> bool" where
  "only_deactivated s t \<longleftrightarrow> same_links s t \<and>
     (\<forall>c. state_of t c = state_of s c \<or> state_of s c = Active \<and> state_of t c = Bound)"

lemma same_links_refl [simp]: "same_links s s"
  by (simp add: same_links_def)

lemma same_links_trans: "same_links s t \<Longrightarrow> same_links t u \<Longrightarrow> same_links s u"
  by (simp add: same_links_def)

lemma same_links_tick [simp]: "same_links s (tick t) = same_links s t"
  by (simp add: same_links_def tick_def obj_def)

lemma obj_set_state: "obj (set_state c b t) d = (if d = c then (obj t c)\<lparr>bd_state := b\<rparr> else obj t d)"
  by (simp add: set_state_def modify_def obj_def)

lemma set_state_lists [simp]:
  "tg_resources (set_state c b t) = tg_resources t" "tg_drivers (set_state c b t) = tg_drivers t"
  "tg_tick (set_state c b t) = tg_tick t"
  by (simp_all add: set_state_def modify_def)

lemma same_links_set_state [simp]: "same_links s (set_state c b t) = same_links s t"
proof -
  have "bd_class (obj (set_state c b t) d) = bd_class (obj t d)"
    "bd_suppliers (obj (set_state c b t) d) = bd_suppliers (obj t d)"
    "bd_clients (obj (set_state c b t) d) = bd_clients (obj t d)"
    "bd_target (obj (set_state c b t) d) = bd_target (obj t d)"
    "bd_managed (obj (set_state c b t) d) = bd_managed (obj t d)" for d
    by (simp_all add: obj_set_state)
  then show ?thesis by (simp add: same_links_def)
qed

lemma same_links_supplier: "same_links s t \<Longrightarrow> supplier t = supplier s"
  by (simp add: same_links_def supplier_def fun_eq_iff)

lemma same_links_client: "same_links s t \<Longrightarrow> client t = client s"
  by (simp add: same_links_def client_def fun_eq_iff)

lemma same_links_depends: "same_links s t \<Longrightarrow> depends t = depends s"
  by (simp add: depends_def same_links_supplier)

lemma same_links_symmetric: "same_links s t \<Longrightarrow> symmetric t = symmetric s"
  by (simp add: symmetric_def same_links_supplier same_links_client)

lemma same_links_instance: "same_links s t \<Longrightarrow> is_instance cl t = is_instance cl s"
  by (simp add: same_links_def is_instance_def fun_eq_iff)

lemma same_links_member: "same_links s t \<Longrightarrow> member t = member s"
  by (simp add: same_links_def member_def fun_eq_iff)

lemma state_of_tick [simp]: "state_of (tick s) c = state_of s c"
  by (simp add: state_of_def obj_def tick_def)

lemma state_of_set_state [simp]: "state_of (set_state c b s) d = (if d = c then b else state_of s d)"
  by (simp add: state_of_def obj_def set_state_def modify_def)

lemma active_set_state: "active (set_state c b s) d = (if d = c then b = Active else active s d)"
  by (simp add: active_def)

lemma only_deactivated_refl [simp]: "only_deactivated s s"
  by (simp add: only_deactivated_def)

lemma only_deactivated_links: "only_deactivated s t \<Longrightarrow> same_links s t"
  by (simp add: only_deactivated_def)

lemma only_deactivated_trans: "only_deactivated s t \<Longrightarrow> only_deactivated t u \<Longrightarrow> only_deactivated s u"
  unfolding only_deactivated_def by (metis same_links_trans)

lemma only_deactivated_active: "only_deactivated s t \<Longrightarrow> active t c \<Longrightarrow> active s c"
  unfolding only_deactivated_def active_def by (metis binding_state.distinct(11))

lemma depends_refl [simp]: "depends s c c"
  by (simp add: depends_def)

lemma depends_step: "supplier s c p \<Longrightarrow> depends s p q \<Longrightarrow> depends s c q"
  unfolding depends_def by (rule converse_rtranclp_into_rtranclp)

lemma depends_trans: "depends s c p \<Longrightarrow> depends s p q \<Longrightarrow> depends s c q"
  unfolding depends_def by (rule rtranclp_trans)


section \<open>What a deactivation reaches\<close>

text \<open>The objects that a run has deactivated.\<close>

definition stopped :: "target \<Rightarrow> target \<Rightarrow> obj set" where
  "stopped s t = {d. active s d \<and> \<not> active t d}"

text \<open>
  What one deactivation of any object does, for the loops: it deactivates, keeps the closure, and
  reaches only what depends on the object.
\<close>

definition deactivation :: "obj \<Rightarrow> target \<Rightarrow> target \<Rightarrow> bool" where
  "deactivation c s t \<longleftrightarrow> only_deactivated s t \<and> (\<forall>d \<in> stopped s t. depends s d c) \<and>
     (symmetric s \<longrightarrow> closed s \<longrightarrow> closed t)"

lemma deactivation_refl [simp]: "deactivation c s s"
  by (simp add: deactivation_def stopped_def)

lemma stopped_trans: "stopped s u \<subseteq> stopped s t \<union> stopped t u"
  by (auto simp: stopped_def)

lemma deactivation_trans:
  assumes "deactivation c s t" and "deactivation d t u" and "depends s d c"
  shows "deactivation c s u"
proof -
  from assms(1,2) have od: "only_deactivated s t" "only_deactivated t u"
    by (simp_all add: deactivation_def)
  then have dep: "depends t = depends s" "symmetric t = symmetric s"
    by (simp_all add: only_deactivated_links same_links_depends same_links_symmetric)
  have "depends s x c" if "x \<in> stopped s u" for x
    using that stopped_trans [of s u t] assms dep
    by (auto simp: deactivation_def intro: depends_trans)
  with assms od dep show ?thesis
    by (auto simp: deactivation_def intro: only_deactivated_trans)
qed

text \<open>A loop over clients, each of which is deactivated.\<close>

definition good_deactivation :: "obj \<Rightarrow> target \<Rightarrow> target_error + obj list \<Rightarrow> target \<Rightarrow> bool" where
  "good_deactivation c s r t \<longleftrightarrow> deactivation c s t \<and>
     (case r of Inl _ \<Rightarrow> True
      | Inr ds \<Rightarrow> \<not> active t c \<and> set ds = stopped s t)"

lemma collect_each_deactivation:
  assumes "symmetric s"
    and body: "\<And>x s. x \<in> set xs \<Longrightarrow> symmetric s \<Longrightarrow> good_deactivation x s (fst (f x s)) (snd (f x s))"
    and dep: "\<And>x. x \<in> set xs \<Longrightarrow> depends s x c"
  shows "deactivation c s (snd (collect_each f xs s)) \<and>
    (case fst (collect_each f xs s) of Inl _ \<Rightarrow> True
     | Inr ds \<Rightarrow> (\<forall>x \<in> set xs. \<not> active (snd (collect_each f xs s)) x) \<and>
         set ds = stopped s (snd (collect_each f xs s)))"
  using assms
proof (induction xs arbitrary: s)
  case Nil
  then show ?case by (simp add: stopped_def)
next
  case (Cons x xs)
  obtain r t where fx: "f x s = (r, t)" by force
  have g: "good_deactivation x s r t" using Cons.prems(1) Cons.prems(2) [of x s] fx by simp
  have dx: "depends s x c" using Cons.prems(3) by simp
  have st: "deactivation c s t"
    using g dx deactivation_trans [OF deactivation_refl [of c s], of x t] by (simp add: good_deactivation_def)
  show ?case
  proof (cases r)
    case (Inl e)
    with fx st show ?thesis by simp
  next
    case (Inr ys)
    from st have od: "only_deactivated s t" by (simp add: deactivation_def)
    then have deps: "depends t = depends s" and sym: "symmetric t"
      using Cons.prems(1) same_links_depends same_links_symmetric only_deactivated_links [OF od]
      by blast+
    obtain q u where rest: "collect_each f xs t = (q, u)" by force
    have "\<And>y. y \<in> set xs \<Longrightarrow> depends t y c" using Cons.prems(3) deps by simp
    then have IH: "deactivation c t u \<and> (case q of Inl _ \<Rightarrow> True
        | Inr ds \<Rightarrow> (\<forall>x \<in> set xs. \<not> active u x) \<and> set ds = stopped t u)"
      using Cons.IH [OF sym Cons.prems(2)] unfolding rest fst_conv snd_conv by simp
    have su: "deactivation c s u" using st IH by (auto intro: deactivation_trans)
    show ?thesis
    proof (cases q)
      case (Inl e)
      with fx Inr rest su show ?thesis by simp
    next
      case zs: (Inr zs)
      from IH zs have tu: "only_deactivated t u" by (simp add: deactivation_def)
      have "stopped s u = stopped s t \<union> stopped t u"
        using only_deactivated_active [OF tu] only_deactivated_active [OF od] by (auto simp: stopped_def)
      moreover have "\<not> active u x"
        using g Inr only_deactivated_active [OF tu, of x] by (auto simp: good_deactivation_def)
      ultimately show ?thesis
        using fx Inr rest zs su IH g by (simp add: good_deactivation_def)
    qed
  qed
qed

lemma on_deactivate_snd [simp]: "snd (on_deactivate w c s) = tick s"
  by (simp add: on_deactivate_def)

lemma on_activate_snd [simp]: "snd (on_activate w c s) = tick s"
  by (simp add: on_activate_def)

lemma active_tick [simp]: "active (tick s) = active s"
  by (simp add: active_def fun_eq_iff)

lemma only_deactivated_tick [simp]: "only_deactivated s (tick t) = only_deactivated s t"
  by (simp add: only_deactivated_def)

lemma supplier_simps [simp]:
  "supplier (tick s) = supplier s" "supplier (set_state c b s) = supplier s"
  by (simp_all add: supplier_def tick_def obj_def set_state_def modify_def fun_eq_iff)

lemma closed_tick [simp]: "closed (tick s) = closed s"
  by (simp add: closed_def)

lemma deactivation_tick [simp]: "deactivation c s (tick t) = deactivation c s t"
  by (simp add: deactivation_def stopped_def)

lemma deactivation_last:
  assumes "deactivation c s t" and "active s c" and "\<forall>d. client s c d \<longrightarrow> \<not> active t d"
  shows "deactivation c s (set_state c Bound t)"
proof -
  from assms(1) have od: "only_deactivated s t" by (simp add: deactivation_def)
  then have sup: "supplier t = supplier s" by (simp add: only_deactivated_links same_links_supplier)
  have "only_deactivated s (set_state c Bound t)"
    using od assms(2) by (auto simp: only_deactivated_def active_def)
  moreover have "depends s d c" if "d \<in> stopped s (set_state c Bound t)" for d
    using that assms(1) by (cases "d = c") (auto simp: stopped_def active_set_state deactivation_def)
  moreover have "closed (set_state c Bound t)" if "symmetric s" "closed s"
    using that assms sup by (auto simp: closed_def deactivation_def active_set_state symmetric_def)
  ultimately show ?thesis by (simp add: deactivation_def)
qed

lemma deactivate_good:
  "symmetric s \<Longrightarrow> good_deactivation c s (fst (deactivate w n c s)) (snd (deactivate w n c s))"
proof (induction n arbitrary: c s)
  case 0
  then show ?case by (simp add: good_deactivation_def)
next
  case (Suc n)
  show ?case
  proof (cases "active s c \<and> member s c")
    case False
    then show ?thesis
      by (cases "state_of s c") (auto simp: good_deactivation_def active_def stopped_def)
  next
    case True
    have dep: "depends s x c" if "x \<in> set (bd_clients (obj s c))" for x
      using that Suc.prems depends_step [of s x c c] by (simp add: symmetric_def client_def)
    obtain r t where loop: "collect_each (deactivate w n) (bd_clients (obj s c)) s = (r, t)" by force
    have L: "deactivation c s t \<and> (case r of Inl _ \<Rightarrow> True
      | Inr ds \<Rightarrow> (\<forall>x \<in> set (bd_clients (obj s c)). \<not> active t x) \<and> set ds = stopped s t)"
      using collect_each_deactivation [OF Suc.prems Suc.IH dep, of "bd_clients (obj s c)"]
      unfolding loop fst_conv snd_conv by simp
    have run: "deactivate w (Suc n) c s = and_then (r, t)
        (\<lambda>ds t. and_then (on_deactivate w c t) (\<lambda>_ u. (Inr (c # ds), set_state c Bound u)))"
      using True loop by (simp add: active_def)
    show ?thesis
    proof (cases r)
      case (Inl e)
      with run L show ?thesis by (simp add: good_deactivation_def)
    next
      case (Inr ds)
      have stop: "stopped s (set_state c Bound (tick t)) = insert c (stopped s t)"
        using True by (auto simp: stopped_def active_set_state)
      have "\<forall>d. client s c d \<longrightarrow> \<not> active t d" using L Inr by (simp add: client_def)
      then have last: "deactivation c s (set_state c Bound (tick t))"
        using L True by (intro deactivation_last) simp_all
      show ?thesis
      proof (cases "fst (on_deactivate w c t)")
        case (Inl e)
        then have "on_deactivate w c t = (Inl e, tick t)" by (metis on_deactivate_snd prod.collapse)
        with run Inr L show ?thesis by (simp add: good_deactivation_def)
      next
        case hook: (Inr u)
        then have "on_deactivate w c t = (Inr u, tick t)" by (metis on_deactivate_snd prod.collapse)
        with run Inr L last stop show ?thesis by (simp add: good_deactivation_def active_set_state)
      qed
    qed
  qed
qed

text \<open>
  C15. Deactivating an object deactivates nothing but objects that depend on it, and keeps every
  active object on active suppliers, even when a hook raises half way. When it returns, the
  object and everything that depends on it is inactive, and the list it returns holds exactly
  the objects that were deactivated.
\<close>

theorem deactivate_stops_dependents:
  assumes "symmetric s" and "closed s" and "deactivate w n c s = (r, t)"
  shows "only_deactivated s t \<and> closed t \<and> stopped s t \<subseteq> {d. depends s d c} \<and>
    (case r of Inl _ \<Rightarrow> True
     | Inr ds \<Rightarrow> set ds = stopped s t \<and> {d. depends s d c} \<inter> {d. active t d} = {})"
proof -
  have good: "good_deactivation c s r t" using deactivate_good [OF assms(1), of c w n] assms(3) by simp
  then have od: "only_deactivated s t" and cl: "closed t"
    using assms(1,2) by (simp_all add: good_deactivation_def deactivation_def)
  have dep: "depends t = depends s" using od by (simp add: only_deactivated_links same_links_depends)
  have up: "active t p" if "depends t d p" "active t d" for d p
    using that(1) that(2) unfolding depends_def
    by (induction rule: rtranclp_induct) (use cl in \<open>auto simp: closed_def\<close>)
  have "{d. depends s d c} \<inter> {d. active t d} = {}" if "\<not> active t c"
    using up that dep by auto
  with good od cl show ?thesis
    by (auto simp: good_deactivation_def deactivation_def split: sum.splits)
qed


section \<open>The recursions end\<close>

definition ranked :: "(obj \<Rightarrow> nat) \<Rightarrow> nat \<Rightarrow> target \<Rightarrow> bool" where
  "ranked rk m s \<longleftrightarrow> (\<forall>c p. supplier s c p \<longrightarrow> rk p < rk c) \<and> (\<forall>c. rk c < m)"

lemma same_links_ranked: "same_links s t \<Longrightarrow> ranked rk m t = ranked rk m s"
  by (simp add: ranked_def same_links_supplier)

lemma collect_each_keeps:
  assumes "P s" and "\<And>x t. P t \<Longrightarrow> P (snd (f x t))"
  shows "P (snd (collect_each f xs s))"
  using assms(1)
proof (induction xs arbitrary: s)
  case Nil
  then show ?case by simp
next
  case (Cons x xs)
  show ?case unfolding collect_each.simps
  proof (rule and_then_keeps)
    from Cons.prems show "P (snd (f x s))" by (rule assms(2))
  next
    fix a t assume "P t"
    then show "P (snd (and_then (collect_each f xs t) (\<lambda>zs u. (Inr (a @ zs), u))))"
      by (rule and_then_keeps [where P = P, OF Cons.IH]) simp_all
  qed
qed

lemma deactivate_links: "same_links s (snd (deactivate w n c s))"
proof (induction n arbitrary: c s)
  case 0
  then show ?case by simp
next
  case (Suc n)
  have loop: "same_links s (snd (collect_each (deactivate w n) (bd_clients (obj s c)) s))"
    by (rule collect_each_keeps [where P = "same_links s"]) (simp, rule same_links_trans [OF _ Suc.IH])
  have "same_links s (snd (and_then (collect_each (deactivate w n) (bd_clients (obj s c)) s)
      (\<lambda>ds t. and_then (on_deactivate w c t) (\<lambda>_ u. (Inr (c # ds), set_state c Bound u)))))"
  proof (rule and_then_keeps [where P = "same_links s"])
    show "same_links s (snd (collect_each (deactivate w n) (bd_clients (obj s c)) s))" by (rule loop)
  next
    fix ds t assume "same_links s t"
    then show "same_links s (snd (and_then (on_deactivate w c t) (\<lambda>_ u. (Inr (c # ds), set_state c Bound u))))"
      by (intro and_then_keeps [where P = "same_links s"]) simp_all
  qed
  then show ?case by (cases "state_of s c") simp_all
qed

lemma collect_each_not_raises:
  assumes "P s" and "\<And>x t. x \<in> set xs \<Longrightarrow> P t \<Longrightarrow> fst (f x t) \<noteq> Inl e \<and> P (snd (f x t))"
  shows "fst (collect_each f xs s) \<noteq> Inl e"
  using assms
proof (induction xs arbitrary: s)
  case Nil
  then show ?case by simp
next
  case (Cons x xs)
  obtain r t where fx: "f x s = (r, t)" by (cases "f x s")
  with Cons.prems(1) Cons.prems(2) [of x s] have r: "r \<noteq> Inl e" and "P t" by simp_all
  with Cons.IH [of t] Cons.prems(2) have rest: "fst (collect_each f xs t) \<noteq> Inl e" by simp
  show ?case
  proof (cases r)
    case (Inl e')
    with r fx show ?thesis by simp
  next
    case (Inr a)
    have "fst (and_then (collect_each f xs t) (\<lambda>zs u. (Inr (a @ zs), u))) \<noteq> Inl e"
      by (rule and_then_not_raises [OF rest]) simp
    with fx Inr show ?thesis by simp
  qed
qed

lemma on_deactivate_not: "fst (on_deactivate w c s) \<noteq> Inl RecursionErr"
  by (simp add: on_deactivate_def)

lemma on_activate_not: "fst (on_activate w c s) \<noteq> Inl RecursionErr"
  by (simp add: on_activate_def)

lemma deactivate_ends:
  "symmetric s \<Longrightarrow> ranked rk m s \<Longrightarrow> m \<le> n + rk c \<Longrightarrow> fst (deactivate w n c s) \<noteq> Inl RecursionErr"
proof (induction n arbitrary: c s)
  case 0
  then have "rk c < m" by (simp add: ranked_def)
  with 0 show ?case by simp
next
  case (Suc n)
  have loop: "fst (collect_each (deactivate w n) (bd_clients (obj s c)) s) \<noteq> Inl RecursionErr"
  proof (rule collect_each_not_raises [where P = "same_links s"])
    fix x t assume x: "x \<in> set (bd_clients (obj s c))" and links: "same_links s t"
    from x Suc.prems(1) have "supplier s x c" by (simp add: symmetric_def client_def)
    with Suc.prems(2) have "rk c < rk x" by (simp add: ranked_def)
    with Suc.prems Suc.IH [of t x] links
    have "fst (deactivate w n x t) \<noteq> Inl RecursionErr"
      by (simp add: same_links_symmetric [OF links] same_links_ranked [OF links])
    with links deactivate_links [of t w n x]
    show "fst (deactivate w n x t) \<noteq> Inl RecursionErr \<and> same_links s (snd (deactivate w n x t))"
      by (blast intro: same_links_trans)
  qed simp
  have "fst (and_then (collect_each (deactivate w n) (bd_clients (obj s c)) s)
      (\<lambda>ds t. and_then (on_deactivate w c t) (\<lambda>_ u. (Inr (c # ds), set_state c Bound u)))) \<noteq> Inl RecursionErr"
    by (intro and_then_not_raises loop on_deactivate_not) simp
  then show ?case by (cases "state_of s c") simp_all
qed

text \<open>No operation but binding changes who is related to whom.\<close>

lemma deactivate_one_links: "same_links s (snd (deactivate_one w n c s))"
  unfolding deactivate_one_def
  by (rule and_then_keeps [where P = "same_links s", OF deactivate_links]) simp

lemma obj_poll: "obj (poll w t) d =
   (if bd_managed (obj t d) then (obj t d)\<lparr>bd_avail := w_avail w (tg_tick t) d\<rparr> else obj t d)"
  by (simp add: poll_def obj_def tick_def Let_def)

lemma poll_lists [simp]:
  "tg_resources (poll w t) = tg_resources t" "tg_drivers (poll w t) = tg_drivers t"
  by (simp_all add: poll_def tick_def)

lemma poll_links [simp]: "same_links s (poll w t) = same_links s t"
proof -
  have "bd_class (obj (poll w t) d) = bd_class (obj t d)"
    "bd_suppliers (obj (poll w t) d) = bd_suppliers (obj t d)"
    "bd_clients (obj (poll w t) d) = bd_clients (obj t d)"
    "bd_target (obj (poll w t) d) = bd_target (obj t d)"
    "bd_managed (obj (poll w t) d) = bd_managed (obj t d)" for d
    by (simp_all add: obj_poll)
  then show ?thesis by (simp add: same_links_def)
qed

lemma poll_if_managed_links [simp]: "same_links s (poll_if_managed w c t) = same_links s t"
  by (simp add: poll_if_managed_def)

lemma update_one_links: "same_links s (snd (update_one w n r s))"
  using deactivate_one_links [of "poll_if_managed w r s" w n r]
  by (auto simp: update_one_def Let_def dest: same_links_trans [rotated, OF _ _] intro: same_links_trans [of s "poll_if_managed w r s"])

lemma for_each_links:
  assumes "\<And>x t. same_links t (snd (f x t))"
  shows "same_links s (snd (for_each f xs s))"
  by (rule for_each_keeps [where P = "same_links s"]) (simp, rule same_links_trans [OF _ assms])

lemma update_target_resources_links: "same_links s (snd (update_target_resources w n s))"
proof -
  have "same_links (tick s) (snd (for_each (update_one w n) (tg_resources s) (tick s)))"
    by (rule for_each_links [OF update_one_links])
  moreover have "same_links s (tick s)" by simp
  ultimately have "same_links s (snd (for_each (update_one w n) (tg_resources s) (tick s)))"
    by (blast intro: same_links_trans)
  then show ?thesis by (simp add: update_target_resources_def)
qed

lemma fold_poll_links: "same_links s t \<Longrightarrow> same_links s (fold (poll_if_managed w) ws t)"
  by (induction ws arbitrary: t) simp_all

lemma wait_loop_links: "same_links s t \<Longrightarrow> same_links s (snd (wait_loop w avail k ws t))"
proof (induction w avail k ws t rule: wait_loop.induct)
  case (2 w avail k ws t)
  then show ?case using fold_poll_links [OF "2.prems"] by (simp add: Let_def)
qed simp

lemma await_resources_links: "same_links s (snd (await_resources w n rs avail s))"
  unfolding await_resources_def
proof (rule and_then_keeps [where P = "same_links s", OF update_target_resources_links])
  fix a t assume t: "same_links s t"
  obtain left u where loop: "wait_loop w avail (w_rounds w (tg_tick t)) (missing avail t rs) (tick t) = (left, u)"
    by force
  have "same_links s u" using wait_loop_links [of s "tick t"] t loop by (metis same_links_tick snd_conv)
  then have "same_links s (snd (update_target_resources w n u))"
    using update_target_resources_links by (rule same_links_trans)
  with t loop \<open>same_links s u\<close>
  show "same_links s (snd (let waiting = missing avail t rs in
      if list_ex (\<lambda>r. \<not> bd_managed (obj t r)) waiting then (Inl NoResourceFound, t)
      else if waiting = [] then (Inr (), t)
      else case wait_loop w avail (w_rounds w (tg_tick t)) waiting (tick t) of
        (left, u) \<Rightarrow> if left \<noteq> [] then (Inl NoResourceFound, u) else update_target_resources w n u))"
    by (simp add: Let_def)
qed

lemma resolve_conflicts_links: "same_links s (snd (resolve_conflicts cl w n p c s))"
proof -
  have "same_links s (snd (for_each (deactivate_one w n) xs s))" for xs
    by (rule for_each_links) (rule deactivate_one_links)
  then show ?thesis by (simp add: resolve_conflicts_def)
qed

lemma activate_links: "same_links s (snd (activate cl w n c s))"
proof (induction n arbitrary: c s)
  case 0
  then show ?case by simp
next
  case (Suc n)
  let ?step = "\<lambda>p u. and_then (if state_of u p \<noteq> Active then activate cl w n p u else (Inr (), u))
    (\<lambda>_ v. resolve_conflicts cl w n p c v)"
  have one: "same_links u (snd (?step p u))" for p u
    by (rule and_then_keeps [where P = "same_links u"])
      (simp add: Suc.IH, rule same_links_trans [OF _ resolve_conflicts_links])
  have "same_links s (snd (and_then (await_resources w n (filter (is_resource cl s) (bd_suppliers (obj s c))) True s)
     (\<lambda>_ t. and_then (for_each ?step (bd_suppliers (obj t c)) t)
        (\<lambda>_ u. and_then (on_activate w c u) (\<lambda>_ v. (Inr (), set_state c Active v))))))"
  proof (rule and_then_keeps [where P = "same_links s", OF await_resources_links])
    fix a t assume t: "same_links s t"
    show "same_links s (snd (and_then (for_each ?step (bd_suppliers (obj t c)) t)
        (\<lambda>_ u. and_then (on_activate w c u) (\<lambda>_ v. (Inr (), set_state c Active v)))))"
    proof (rule and_then_keeps [where P = "same_links s"])
      show "same_links s (snd (for_each ?step (bd_suppliers (obj t c)) t))"
        using t for_each_links [OF one] by (rule same_links_trans)
    next
      fix b u assume "same_links s u"
      then show "same_links s (snd (and_then (on_activate w c u) (\<lambda>_ v. (Inr (), set_state c Active v))))"
        by (intro and_then_keeps [where P = "same_links s"]) simp_all
    qed
  qed
  then show ?case by (cases "state_of s c") simp_all
qed

text \<open>
  What a recursion that is deep enough does not raise: over the clients for any object, over the
  suppliers in addition for an activation.
\<close>

definition tame :: "target \<Rightarrow> (target_error, 'a, target) outcome \<Rightarrow> bool" where
  "tame s m \<longleftrightarrow> same_links s (snd m) \<and> fst m \<noteq> Inl RecursionErr"

lemma tame_and_then:
  assumes "tame s m" and "\<And>a t. same_links s t \<Longrightarrow> tame s (k a t)"
  shows "tame s (and_then m k)"
proof -
  obtain r t where m: "m = (r, t)" by (cases m)
  with assms(1) have t: "same_links s t" "r \<noteq> Inl RecursionErr" by (simp_all add: tame_def)
  show ?thesis
  proof (cases r)
    case (Inl e)
    with m t show ?thesis by (simp add: tame_def)
  next
    case (Inr a)
    with m t assms(2) show ?thesis by simp
  qed
qed

lemma tame_for_each:
  assumes "same_links s t" and "\<And>x t. x \<in> set xs \<Longrightarrow> same_links s t \<Longrightarrow> tame s (f x t)"
  shows "tame s (for_each f xs t)"
  using assms
proof (induction xs arbitrary: t)
  case Nil
  then show ?case by (simp add: tame_def)
next
  case (Cons x xs)
  show ?case unfolding for_each.simps
    by (rule tame_and_then) (use Cons in simp_all)
qed

lemma tame_simps [simp]:
  "tame s (Inr a, t) = same_links s t"
  "tame s (Inl e, t) = (same_links s t \<and> e \<noteq> RecursionErr)"
  by (auto simp: tame_def)

lemma deactivate_one_tame:
  assumes "symmetric s" "ranked rk m s" "m \<le> n + rk c" "same_links s t"
  shows "tame s (deactivate_one w n c t)"
  unfolding deactivate_one_def
proof (rule tame_and_then)
  have "fst (deactivate w n c t) \<noteq> Inl RecursionErr"
    using assms by (intro deactivate_ends [of t rk m]) (simp_all add: same_links_symmetric same_links_ranked)
  with assms(4) deactivate_links [of t w n c] show "tame s (deactivate w n c t)"
    unfolding tame_def by (blast intro: same_links_trans)
qed simp

lemma update_target_resources_tame:
  assumes "symmetric s" "ranked rk m s" "m \<le> n" "same_links s t"
  shows "tame s (update_target_resources w n t)"
proof -
  have "tame s (update_one w n r u)" if "same_links s u" for r u
    using that deactivate_one_tame [OF assms(1,2), of n r "poll_if_managed w r u" w] assms(3)
    by (simp add: update_one_def Let_def)
  with assms(4) show ?thesis
    by (simp add: update_target_resources_def tame_for_each)
qed

lemma await_resources_tame:
  assumes "symmetric s" "ranked rk m s" "m \<le> n" "same_links s t"
  shows "tame s (await_resources w n rs avail t)"
  unfolding await_resources_def
proof (rule tame_and_then [OF update_target_resources_tame [OF assms]])
  fix a u assume u: "same_links s u"
  obtain left v where loop: "wait_loop w avail (w_rounds w (tg_tick u)) (missing avail u rs) (tick u) = (left, v)"
    by force
  have v: "same_links s v" using wait_loop_links [of s "tick u"] u loop by (metis same_links_tick snd_conv)
  from update_target_resources_tame [OF assms(1-3) v, of w] u v loop
  show "tame s (let waiting = missing avail u rs in
      if list_ex (\<lambda>r. \<not> bd_managed (obj u r)) waiting then (Inl NoResourceFound, u)
      else if waiting = [] then (Inr (), u)
      else case wait_loop w avail (w_rounds w (tg_tick u)) waiting (tick u) of
        (left, u) \<Rightarrow> if left \<noteq> [] then (Inl NoResourceFound, u) else update_target_resources w n u)"
    by (simp add: Let_def)
qed

lemma resolve_conflicts_tame:
  assumes "symmetric s" "ranked rk m s" "m \<le> n" "same_links s t"
  shows "tame s (resolve_conflicts cl w n p c t)"
proof -
  have "tame s (for_each (deactivate_one w n) xs t)" for xs
    by (rule tame_for_each [OF assms(4)], rule deactivate_one_tame [OF assms(1,2)]) (use assms(3) in simp_all)
  with assms(4) show ?thesis by (simp add: resolve_conflicts_def)
qed

lemma activate_tame:
  assumes "symmetric s" "ranked rk m s"
  shows "rk c + m < n \<Longrightarrow> same_links s t \<Longrightarrow> tame s (activate cl w n c t)"
proof (induction n arbitrary: c t)
  case 0
  then show ?case by simp
next
  case (Suc n)
  then have mn: "m \<le> n" by simp
  let ?step = "\<lambda>p u. and_then (if state_of u p \<noteq> Active then activate cl w n p u else (Inr (), u))
    (\<lambda>_ v. resolve_conflicts cl w n p c v)"
  have "tame s (and_then (await_resources w n (filter (is_resource cl t) (bd_suppliers (obj t c))) True t)
     (\<lambda>_ t. and_then (for_each ?step (bd_suppliers (obj t c)) t)
        (\<lambda>_ u. and_then (on_activate w c u) (\<lambda>_ v. (Inr (), set_state c Active v)))))"
  proof (rule tame_and_then [OF await_resources_tame [OF assms mn Suc.prems(2)]])
    fix a u assume u: "same_links s u"
    have "tame s (for_each ?step (bd_suppliers (obj u c)) u)"
    proof (rule tame_for_each [OF u])
      fix p v assume p: "p \<in> set (bd_suppliers (obj u c))" and v: "same_links s v"
      from p u have "supplier s c p" by (simp add: same_links_def supplier_def)
      with assms(2) have "rk p < rk c" by (simp add: ranked_def)
      with Suc.prems(1) have "rk p + m < n" by simp
      from Suc.IH [OF this v] v
      have "tame s (if state_of v p \<noteq> Active then activate cl w n p v else (Inr (), v))" by simp
      then show "tame s (?step p v)"
        by (rule tame_and_then) (rule resolve_conflicts_tame [OF assms mn])
    qed
    then show "tame s (and_then (for_each ?step (bd_suppliers (obj u c)) u)
        (\<lambda>_ u. and_then (on_activate w c u) (\<lambda>_ v. (Inr (), set_state c Active v))))"
      by (rule tame_and_then, intro tame_and_then) (simp_all add: tame_def on_activate_not)
  qed
  with Suc.prems(2) show ?case by (cases "state_of t c") simp_all
qed

lemma get_bound_resources_ends:
  assumes "ranked rk m s"
  shows "rk c < n \<Longrightarrow> get_bound_resources cl n s c \<noteq> Inl RecursionErr"
proof (induction n arbitrary: c)
  case 0
  then show ?case by simp
next
  case (Suc n)
  have "foldr (\<lambda>p acc. case get_bound_resources cl n s p of
       Inl e \<Rightarrow> Inl e
     | Inr rs \<Rightarrow> (case acc of Inl e \<Rightarrow> Inl e | Inr qs \<Rightarrow> Inr (List.union rs qs))) ps (Inr []) \<noteq> Inl RecursionErr"
    if "\<forall>p \<in> set ps. supplier s c p" for ps
    using that
  proof (induction ps)
    case Nil
    then show ?case by simp
  next
    case (Cons p ps)
    then have "rk p < n" using assms Suc.prems by (force simp: ranked_def)
    from Suc.IH [OF this] Cons show ?case by (auto split: sum.splits)
  qed
  then show ?case by (simp add: supplier_def)
qed


section \<open>Binding keeps the order\<close>

text \<open>
  Whatever is related to another object is part of the target, relations go both ways, and the
  suppliers of an object were bound before it: its rank is the number of objects bound by then.
\<close>

definition bound_count :: "target \<Rightarrow> nat" where
  "bound_count s = Suc (length (tg_resources s) + length (tg_drivers s))"

definition target_ok :: "target \<Rightarrow> bool" where
  "target_ok s \<longleftrightarrow> symmetric s \<and> (\<exists>rk. ranked rk (bound_count s) s) \<and>
     (\<forall>c p. supplier s c p \<longrightarrow> bd_target (obj s c) \<and> bd_target (obj s p))"

lemma target_ok_links:
  assumes "same_links s t" and "target_ok s"
  shows "target_ok t"
proof -
  have count: "bound_count t = bound_count s" and tg: "\<And>c. bd_target (obj t c) = bd_target (obj s c)"
    using assms(1) by (simp_all add: same_links_def bound_count_def)
  show ?thesis using assms(2)
    unfolding target_ok_def same_links_symmetric [OF assms(1)] same_links_ranked [OF assms(1)]
      same_links_supplier [OF assms(1)] count tg .
qed

text \<open>Neither does the search for suppliers change any relation.\<close>

lemma modify_attrs_links: "same_links s t \<Longrightarrow> same_links s (modify c (\<lambda>x. x\<lparr>bd_attrs := f x\<rparr>) t)"
proof -
  assume st: "same_links s t"
  let ?u = "modify c (\<lambda>x. x\<lparr>bd_attrs := f x\<rparr>) t"
  have "bd_class (obj ?u d) = bd_class (obj t d)" "bd_suppliers (obj ?u d) = bd_suppliers (obj t d)"
    "bd_clients (obj ?u d) = bd_clients (obj t d)" "bd_target (obj ?u d) = bd_target (obj t d)"
    "bd_managed (obj ?u d) = bd_managed (obj t d)" for d
    by (simp_all add: modify_def obj_def)
  moreover have "tg_resources ?u = tg_resources t" "tg_drivers ?u = tg_drivers t"
    by (simp_all add: modify_def)
  ultimately show ?thesis using st by (simp add: same_links_def)
qed

lemma bind_one_links: "same_links s (snd (bind_one cl w n c nr b s))"
  by (simp add: bind_one_def Let_def modify_attrs_links split: prod.split sum.split option.split)

lemma bind_all_links: "same_links s (snd (bind_all cl w n c nrs b s))"
proof (induction nrs arbitrary: b s)
  case Nil
  then show ?case by simp
next
  case (Cons nr nrs)
  show ?case unfolding bind_all.simps
    by (rule and_then_keeps [where P = "same_links s", OF bind_one_links]) (rule same_links_trans [OF _ Cons.IH])
qed

text \<open>The loop that links a new driver to its suppliers.\<close>

definition linking :: "obj \<Rightarrow> obj set \<Rightarrow> target \<Rightarrow> target \<Rightarrow> bool" where
  "linking c ps s t \<longleftrightarrow> tg_resources t = tg_resources s \<and> tg_drivers t = tg_drivers s \<and>
     (\<forall>d. bd_target (obj t d) = bd_target (obj s d)) \<and> symmetric t \<and>
     (\<forall>d p. supplier t d p \<longrightarrow> supplier s d p \<or> d = c \<and> p \<in> ps)"

lemma obj_modify: "obj (modify c f s) d = (if d = c then f (obj s c) else obj s d)"
  by (simp add: obj_def modify_def)

lemma modify_lists [simp]:
  "tg_resources (modify c f s) = tg_resources s" "tg_drivers (modify c f s) = tg_drivers s"
  by (simp_all add: modify_def)

lemma link_linking:
  assumes "linking c ps s t" and "p \<in> ps"
  shows "linking c ps s (snd (link cl c p t))"
proof -
  define u where "u = modify c (\<lambda>x. x\<lparr>bd_suppliers := List.insert p (bd_suppliers x)\<rparr>)
    (modify p (\<lambda>x. x\<lparr>bd_clients := List.insert c (bd_clients x)\<rparr>) t)"
  have sup: "supplier u d q \<longleftrightarrow> supplier t d q \<or> d = c \<and> q = p" for d q
    by (auto simp: supplier_def u_def obj_modify)
  have cli: "client u q d \<longleftrightarrow> client t q d \<or> d = c \<and> q = p" for d q
    by (auto simp: client_def u_def obj_modify)
  have "symmetric u" using assms(1) sup cli by (simp add: symmetric_def linking_def)
  moreover have "bd_target (obj u d) = bd_target (obj t d)" for d by (simp add: u_def obj_modify)
  moreover have "tg_resources u = tg_resources t" "tg_drivers u = tg_drivers t" by (simp_all add: u_def)
  ultimately have "linking c ps s u" using assms sup by (auto simp: linking_def)
  moreover have "snd (link cl c p t) = u" by (simp add: link_def Let_def u_def)
  ultimately show ?thesis by simp
qed

lemma links_linking:
  assumes "linking c (set ps) s t"
  shows "linking c (set ps) s (snd (for_each (link cl c) ps t))"
  by (rule for_each_keeps [where P = "linking c (set ps) s"]) (simp_all only: assms link_linking)

text \<open>A driver that was part of no relation gets the highest rank.\<close>

lemma linked_ok:
  assumes ok: "target_ok s" and new: "\<not> bd_target (obj s c)"
    and lists: "tg_resources t = tg_resources s" "tg_drivers t = tg_drivers s @ [c]"
    and targets: "\<And>d. bd_target (obj t d) \<longleftrightarrow> bd_target (obj s d) \<or> d = c"
    and sym: "symmetric t"
    and sup: "\<And>d p. supplier t d p \<Longrightarrow> supplier s d p \<or> d = c \<and> bd_target (obj s p)"
  shows "target_ok t"
proof -
  from ok obtain rk where rk: "ranked rk (bound_count s) s" by (auto simp: target_ok_def)
  have old: "supplier s d p \<Longrightarrow> d \<noteq> c \<and> p \<noteq> c" for d p
    using ok new by (auto simp: target_ok_def)
  let ?rk = "rk(c := bound_count s)"
  have "?rk p < ?rk d" if "supplier t d p" for d p
  proof (cases "supplier s d p")
    case True
    with old [OF True] rk show ?thesis by (simp add: ranked_def)
  next
    case False
    with sup [OF that] new have "d = c" "p \<noteq> c" by auto
    with rk show ?thesis by (simp add: ranked_def)
  qed
  moreover have "?rk d < bound_count t" for d
    using rk lists by (auto simp: ranked_def bound_count_def less_Suc_eq)
  ultimately have "ranked ?rk (bound_count t) t" by (simp add: ranked_def)
  moreover have "bd_target (obj t d) \<and> bd_target (obj t p)" if "supplier t d p" for d p
    using sup [OF that] ok targets by (auto simp: target_ok_def)
  ultimately show ?thesis using sym by (auto simp: target_ok_def)
qed

lemma bind_driver_ok:
  assumes ok: "target_ok s"
  shows "target_ok (snd (bind_driver cl w n c s))"
proof (cases "state_of s c \<noteq> Idle \<or> \<not> is_instance cl s c ''Driver'' \<or> c \<in> set (tg_drivers s) \<or> bd_target (obj s c)")
  case True
  with ok show ?thesis by (auto simp: bind_driver_def)
next
  case False
  then have new: "\<not> bd_target (obj s c)" by simp
  obtain q t where all: "bind_all cl w n c (cl_bindings cl (bd_class (obj s c))) (start_loop (tg_map s))
      (s\<lparr>tg_map := []\<rparr>) = (q, t)" by force
  have "same_links s (s\<lparr>tg_map := []\<rparr>)" by (simp add: same_links_def obj_def)
  with bind_all_links [of "s\<lparr>tg_map := []\<rparr>" cl w n c "cl_bindings cl (bd_class (obj s c))" "start_loop (tg_map s)"] all
  have st: "same_links s t" by (auto intro: same_links_trans)
  then have t: "target_ok t" "\<not> bd_target (obj t c)" using ok new target_ok_links by (auto simp: same_links_def)
  show ?thesis
  proof (cases q)
    case (Inl e)
    with False all t show ?thesis by (simp add: bind_driver_def)
  next
    case (Inr b)
    let ?bad = "list_ex (\<lambda>p. \<not> bd_target (obj t p) \<or> c \<in> set (bd_clients (obj t p)) \<or>
                p \<in> set (bd_suppliers (obj t c))) (bl_suppliers b)"
    let ?u = "modify c (\<lambda>x. x\<lparr>bd_target := True\<rparr>) (t\<lparr>tg_drivers := tg_drivers t @ [c]\<rparr>)"
    show ?thesis
    proof (cases "?bad \<or> bl_map b \<noteq> [] \<and> \<not> is_strategy cl t c")
      case True
      with False all t Inr show ?thesis by (auto simp: bind_driver_def)
    next
      case good: False
      define v where "v = snd (for_each (link cl c) (bl_suppliers b) ?u)"
      have u: "obj ?u d = (if d = c then (obj t c)\<lparr>bd_target := True\<rparr> else obj t d)" for d
        by (simp add: obj_def modify_def)
      have rel: "supplier ?u = supplier t" "client ?u = client t"
        by (simp_all add: fun_eq_iff supplier_def client_def u)
      have "linking c (set (bl_suppliers b)) ?u ?u"
        using t(1) rel by (simp add: linking_def target_ok_def symmetric_def)
      then have lv: "linking c (set (bl_suppliers b)) ?u v" unfolding v_def by (rule links_linking)
      have "target_ok v"
      proof (rule linked_ok [OF t])
        show "tg_resources v = tg_resources t" "tg_drivers v = tg_drivers t @ [c]" "symmetric v"
          using lv by (simp_all add: linking_def)
        show "bd_target (obj v d) = (bd_target (obj t d) \<or> d = c)" for d
          using lv by (simp add: linking_def u)
        show "supplier t d p \<or> d = c \<and> bd_target (obj t p)" if "supplier v d p" for d p
          using lv that good rel by (auto simp: linking_def list_ex_iff)
      qed
      then have "target_ok (set_state c Bound v)" by (rule target_ok_links [rotated]) simp
      moreover have "snd (bind_driver cl w n c s) =
          snd (and_then (for_each (link cl c) (bl_suppliers b) ?u) (\<lambda>_ u. (Inr (), set_state c Bound u)))"
        using False all Inr good by (simp add: bind_driver_def del: not_all) blast
      ultimately show ?thesis using \<open>target_ok v\<close>
        by (cases "for_each (link cl c) (bl_suppliers b) ?u"; cases "fst (for_each (link cl c) (bl_suppliers b) ?u)")
          (simp_all add: v_def)
    qed
  qed
qed

lemma bind_resource_ok:
  assumes ok: "target_ok s"
  shows "target_ok (snd (bind_resource cl r s))"
proof -
  let ?t = "modify r (\<lambda>x. x\<lparr>bd_target := True, bd_state := Bound\<rparr>) (s\<lparr>tg_resources := tg_resources s @ [r]\<rparr>)"
  have o: "obj ?t d = (if d = r then (obj s r)\<lparr>bd_target := True, bd_state := Bound\<rparr> else obj s d)" for d
    by (simp add: obj_def modify_def)
  have rel: "supplier ?t = supplier s" "client ?t = client s"
    by (simp_all add: fun_eq_iff supplier_def client_def o)
  have "bound_count ?t = Suc (bound_count s)" by (simp add: bound_count_def)
  moreover from ok obtain rk where "ranked rk (bound_count s) s" by (auto simp: target_ok_def)
  ultimately have "ranked rk (bound_count ?t) ?t" by (simp add: ranked_def rel less_Suc_eq)
  moreover have "symmetric ?t" "\<forall>c p. supplier ?t c p \<longrightarrow> bd_target (obj ?t c) \<and> bd_target (obj ?t p)"
    using ok rel by (auto simp: target_ok_def symmetric_def o)
  ultimately have "target_ok ?t" by (auto simp: target_ok_def)
  with ok show ?thesis by (auto simp: bind_resource_def)
qed

text \<open>The operations of a target, one after the other and whatever the world answers.\<close>

definition target_start :: "target \<Rightarrow> bool" where
  "target_start s \<longleftrightarrow> tg_resources s = [] \<and> tg_drivers s = [] \<and>
     (\<forall>c. bd_suppliers (obj s c) = [] \<and> bd_clients (obj s c) = [] \<and> \<not> bd_target (obj s c) \<and>
        state_of s c = Idle)"

inductive target_step :: "classes \<Rightarrow> target \<Rightarrow> target \<Rightarrow> bool" for cl where
  bound: "target_step cl s (snd (bind cl w n c s))"
| mapped: "target_step cl s (set_binding_map m s)"
| activated: "target_step cl s (snd (activate cl w n c s))"
| deactivated: "target_step cl s (snd (deactivate w n c s))"
| updated: "target_step cl s (snd (update_target_resources w n s))"
| awaited: "target_step cl s (snd (await_resources w n rs avail s))"
| created: "\<not> bd_target (obj s c) \<Longrightarrow> target_step cl s (create c (new_object cls name managed) s)"

lemma create_ok:
  assumes ok: "target_ok s" and new: "\<not> bd_target (obj s c)"
  shows "target_ok (create c (new_object cls name managed) s)"
proof -
  let ?t = "create c (new_object cls name managed) s"
  have o: "obj ?t d = (if d = c then new_object cls name managed else obj s d)" for d
    by (simp add: obj_def create_def)
  have none: "\<not> supplier s c p" "\<not> client s c p" for p
    using ok new unfolding target_ok_def symmetric_def by blast+
  have "supplier ?t d p = supplier s d p" "client ?t d p = client s d p" for d p
    using none unfolding supplier_def client_def o by (auto simp: new_object_def)
  then have rel: "supplier ?t = supplier s" "client ?t = client s" by (simp_all add: fun_eq_iff)
  have tg: "bd_target (obj ?t d) = bd_target (obj s d)" for d
    using new unfolding o by (simp add: new_object_def)
  have count: "bound_count ?t = bound_count s" by (simp add: bound_count_def create_def)
  show ?thesis using ok unfolding target_ok_def symmetric_def ranked_def rel tg count .
qed

lemma target_start_ok: "target_start s \<Longrightarrow> target_ok s"
proof -
  assume s: "target_start s"
  then have "\<not> supplier s c p" "\<not> client s p c" for c p
    by (simp_all add: target_start_def supplier_def client_def)
  then have "symmetric s" "ranked (\<lambda>_. 0) (bound_count s) s"
    by (simp_all add: symmetric_def ranked_def bound_count_def)
  with \<open>\<And>c p. \<not> supplier s c p\<close> show ?thesis by (auto simp: target_ok_def)
qed

lemma target_step_ok: "target_step cl s t \<Longrightarrow> target_ok s \<Longrightarrow> target_ok t"
proof (induction rule: target_step.induct)
  case (bound s w n c)
  then show ?case by (simp add: bind_def bind_resource_ok bind_driver_ok)
next
  case (mapped s m)
  have "same_links s (set_binding_map m s)" by (simp add: same_links_def set_binding_map_def obj_def)
  with mapped show ?case by (rule target_ok_links [rotated])
next
  case (activated s w n c)
  show ?case by (rule target_ok_links [OF activate_links activated])
next
  case (deactivated s w n c)
  show ?case by (rule target_ok_links [OF deactivate_links deactivated])
next
  case (updated s w n)
  show ?case by (rule target_ok_links [OF update_target_resources_links updated])
next
  case (awaited s w n rs avail)
  show ?case by (rule target_ok_links [OF await_resources_links awaited])
next
  case (created s c cls name managed)
  then show ?case by (intro create_ok)
qed

interpretation targets: transition_system target_start "target_step cl" target_ok for cl
  by unfold_locales (rule target_start_ok, assumption, rule target_step_ok)

text \<open>
  C16. Whatever is bound, activated and deactivated, in any order: the relation between clients and
  suppliers goes both ways, no object depends on itself, and a recursion depth of twice the
  number of bound objects (and two) is enough for every activation, deactivation and search for
  resources.
\<close>

theorem reachable_recursions_end:
  assumes "target_start s" and "(target_step cl)\<^sup>*\<^sup>* s t"
    and "2 * (length (tg_resources t) + length (tg_drivers t)) + 2 \<le> n"
  shows "symmetric t \<and> (\<exists>rk. ranked rk (bound_count t) t) \<and>
    fst (activate cl w n c t) \<noteq> Inl RecursionErr \<and> fst (deactivate w n c t) \<noteq> Inl RecursionErr \<and>
    get_bound_resources cl n t c \<noteq> Inl RecursionErr"
proof -
  have ok: "target_ok t" by (rule targets.reachable_inv [OF assms(1,2)])
  then obtain rk where sym: "symmetric t" and rk: "ranked rk (bound_count t) t"
    by (auto simp: target_ok_def)
  have n: "2 * bound_count t \<le> n" using assms(3) by (simp add: bound_count_def)
  have c: "rk c < bound_count t" using rk by (simp add: ranked_def)
  have "tame t (activate cl w n c t)" using c n by (intro activate_tame [OF sym rk]) simp_all
  moreover have "fst (deactivate w n c t) \<noteq> Inl RecursionErr"
    using n by (intro deactivate_ends [OF sym rk]) simp
  moreover have "get_bound_resources cl n t c \<noteq> Inl RecursionErr"
    using c n by (intro get_bound_resources_ends [OF rk]) simp
  ultimately show ?thesis using sym rk by (auto simp: tame_def)
qed

section \<open>When activation leaves no inactive supplier behind\<close>

text \<open>While no update of the resources is due, waiting changes no state.\<close>

definition no_update_due :: "world \<Rightarrow> bool" where
  "no_update_due w \<longleftrightarrow> (\<forall>k. \<not> w_due w k)"

definition same_states :: "target \<Rightarrow> target \<Rightarrow> bool" where
  "same_states s t \<longleftrightarrow> active t = active s"

lemma active_poll [simp]: "active (poll w s) = active s"
  by (simp add: fun_eq_iff active_def state_of_def obj_poll)

lemma active_poll_if [simp]: "active (poll_if_managed w c s) = active s"
  by (simp add: poll_if_managed_def)

lemma active_fold_poll: "active (fold (poll_if_managed w) ws s) = active s"
  by (induction ws arbitrary: s) simp_all

lemma active_wait_loop: "active (snd (wait_loop w avail k ws s)) = active s"
  by (induction w avail k ws s rule: wait_loop.induct) (simp_all add: Let_def active_fold_poll)

lemma quiet_update: "no_update_due w \<Longrightarrow> update_target_resources w n s = (Inr (), tick s)"
  by (simp add: no_update_due_def update_target_resources_def)

lemma quiet_await: "no_update_due w \<Longrightarrow> active (snd (await_resources w n rs avail s)) = active s"
proof -
  assume q: "no_update_due w"
  obtain left u where loop: "wait_loop w avail (w_rounds w (tg_tick (tick s)))
      (missing avail (tick s) rs) (tick (tick s)) = (left, u)" by force
  then have "active u = active s"
    using active_wait_loop [of w avail "w_rounds w (tg_tick (tick s))" "missing avail (tick s) rs" "tick (tick s)"]
    by simp
  with loop show ?thesis by (simp add: await_resources_def quiet_update [OF q] Let_def)
qed

text \<open>A console has at most one client among what an object depends on.\<close>

definition console :: "classes \<Rightarrow> target \<Rightarrow> obj \<Rightarrow> bool" where
  "console cl s p \<longleftrightarrow> is_instance cl s p ''ConsoleExpectMixin''"

definition one_client :: "classes \<Rightarrow> target \<Rightarrow> obj \<Rightarrow> bool" where
  "one_client cl s c \<longleftrightarrow> (\<forall>x y q. depends s c x \<longrightarrow> depends s c y \<longrightarrow> console cl s q \<longrightarrow>
     supplier s x q \<longrightarrow> supplier s y q \<longrightarrow> x = y)"

text \<open>What every step of the activation of \<open>c\<close> keeps: \<open>s\<close> is the target at its start.\<close>

definition activating :: "target \<Rightarrow> obj \<Rightarrow> target \<Rightarrow> target \<Rightarrow> bool" where
  "activating s c t u \<longleftrightarrow> same_links s u \<and> closed u \<and> (\<forall>y. depends s c y \<longrightarrow> active t y \<longrightarrow> active u y)"

lemma activating_refl: "same_links s t \<Longrightarrow> closed t \<Longrightarrow> activating s c t t"
  by (simp add: activating_def)

lemma activating_trans: "activating s c t u \<Longrightarrow> activating s c u v \<Longrightarrow> activating s c t v"
  by (simp add: activating_def)

lemma activating_same:
  "same_links s u \<Longrightarrow> closed t \<Longrightarrow> same_links s t \<Longrightarrow> active u = active t \<Longrightarrow> activating s c t u"
  by (simp add: activating_def closed_def same_links_supplier)

lemma deactivate_activating:
  assumes "symmetric s" and "same_links s t" and "closed t" and out: "\<not> depends s c other"
  shows "activating s c t (snd (deactivate_one w n other t))"
proof -
  obtain r u where run: "deactivate w n other t = (r, u)" by force
  have sym: "symmetric t" using assms(1,2) by (simp add: same_links_symmetric)
  have dep: "depends t = depends s" using assms(2) by (rule same_links_depends)
  have g: "deactivation other t u"
    using deactivate_good [OF sym, of other w n] run by (simp add: good_deactivation_def)
  then have "activating s c t u"
    using assms sym dep out
    by (auto simp: activating_def deactivation_def stopped_def
        intro: same_links_trans only_deactivated_links dest: depends_trans)
  then show ?thesis by (cases r) (simp_all add: deactivate_one_def run)
qed

lemma resolve_activating:
  assumes "symmetric s" and "one_client cl s c" and x: "depends s c x" and p: "supplier s x p"
    and "same_links s t" and "closed t"
  shows "activating s c t (snd (resolve_conflicts cl w n p x t))"
proof (cases "console cl s p")
  case False
  with assms show ?thesis
    by (simp add: resolve_conflicts_def console_def same_links_instance [OF assms(5)] activating_refl)
next
  case True
  have out: "\<not> depends s c other" if "other \<in> set (bd_clients (obj t p))" "other \<noteq> x" for other
  proof
    assume "depends s c other"
    moreover have "supplier s other p"
      using that(1) assms(1,5) by (simp add: symmetric_def client_def same_links_def)
    ultimately show False using assms(2) x p True that(2) unfolding one_client_def by blast
  qed
  have loop: "activating s c t (snd (for_each (deactivate_one w n) xs u))"
    if "activating s c t u" and "\<forall>o' \<in> set xs. \<not> depends s c o'" for xs u
  proof (rule for_each_keeps [where P = "activating s c t", OF that(1)])
    fix o' v assume o': "o' \<in> set xs" and v: "activating s c t v"
    from v have "same_links s v" "closed v" by (simp_all add: activating_def)
    with deactivate_activating [OF assms(1)] o' that(2) v
    show "activating s c t (snd (deactivate_one w n o' v))" by (blast intro: activating_trans)
  qed
  have "activating s c t (snd (for_each (deactivate_one w n)
      (filter (\<lambda>other. other \<noteq> x) (bd_clients (obj t p))) t))"
    by (rule loop [OF activating_refl [OF assms(5,6)]]) (use out in auto)
  with assms(5,6) show ?thesis by (simp add: resolve_conflicts_def activating_refl)
qed

text \<open>The loop over the suppliers: each one is active when the loop has returned.\<close>

lemma suppliers_activating:
  assumes one: "\<And>p u. p \<in> set ps \<Longrightarrow> same_links s u \<Longrightarrow> closed u \<Longrightarrow>
      activating s c u (snd (f p u)) \<and> (fst (f p u) = Inr () \<longrightarrow> active (snd (f p u)) p)"
    and dep: "\<And>p. p \<in> set ps \<Longrightarrow> depends s c p"
    and "same_links s t" and "closed t"
  shows "activating s c t (snd (for_each f ps t)) \<and>
    (fst (for_each f ps t) = Inr () \<longrightarrow> (\<forall>p \<in> set ps. active (snd (for_each f ps t)) p))"
  using assms
proof (induction ps arbitrary: t)
  case Nil
  then show ?case by (simp add: activating_refl)
next
  case (Cons p ps)
  obtain r u where fp: "f p t = (r, u)" by force
  have u: "activating s c t u" "r = Inr () \<longrightarrow> active u p"
    using Cons.prems(1) [of p t] Cons.prems(3,4) fp by simp_all
  then have links: "same_links s u" "closed u" by (simp_all add: activating_def)
  show ?case
  proof (cases r)
    case (Inl e)
    with fp u show ?thesis by simp
  next
    case (Inr a)
    obtain q v where rest: "for_each f ps u = (q, v)" by force
    have "activating s c u (snd (for_each f ps u)) \<and> (fst (for_each f ps u) = Inr () \<longrightarrow>
        (\<forall>p \<in> set ps. active (snd (for_each f ps u)) p))"
      by (rule Cons.IH [OF _ _ links]) (use Cons.prems in auto)
    with rest have v: "activating s c u v" "q = Inr () \<longrightarrow> (\<forall>p \<in> set ps. active v p)" by simp_all
    have "active v p" using v(1) u(2) Inr Cons.prems(2) [of p] by (simp add: activating_def)
    moreover have "activating s c t v" using u(1) v(1) by (rule activating_trans)
    ultimately show ?thesis using fp Inr rest v(2) by simp
  qed
qed

lemma on_activate_activating:
  "same_links s t \<Longrightarrow> closed t \<Longrightarrow> activating s c t (snd (on_activate w x t))"
  by (intro activating_same) simp_all

lemma set_active_closed:
  assumes "closed t" and "\<forall>p. supplier t c p \<longrightarrow> active t p"
  shows "closed (set_state c Active t)"
  using assms by (auto simp: closed_def active_set_state)

text \<open>What \<open>activate\<close> does to an object that is bound and a member: waiting, suppliers, itself.\<close>

lemma activate_bound:
  assumes "\<not> is_strategy cl t x" and "state_of t x = Bound" and "member t x"
  shows "activate cl w (Suc n) x t =
    and_then (await_resources w n (filter (is_resource cl t) (bd_suppliers (obj t x))) True t)
     (\<lambda>_ u. and_then
        (for_each
          (\<lambda>p v. and_then (if state_of v p \<noteq> Active then activate cl w n p v else (Inr (), v))
             (\<lambda>_ v'. resolve_conflicts cl w n p x v'))
          (bd_suppliers (obj u x)) u)
        (\<lambda>_ v. and_then (on_activate w x v) (\<lambda>_ v'. (Inr (), set_state x Active v'))))"
  using assms by simp

lemma strategy_resolve: "is_strategy cl t p \<Longrightarrow> fst (resolve_conflicts cl w n p x t) \<noteq> Inr u"
  by (simp add: resolve_conflicts_def)

lemma activate_activating:
  assumes sym: "symmetric s" and one: "one_client cl s c" and q: "no_update_due w"
  shows "same_links s t \<Longrightarrow> closed t \<Longrightarrow> depends s c x \<Longrightarrow>
    activating s c t (snd (activate cl w n x t)) \<and>
    (fst (activate cl w n x t) = Inr () \<longrightarrow> is_strategy cl s x \<or> active (snd (activate cl w n x t)) x)"
proof (induction n arbitrary: t x)
  case 0
  then show ?case by (simp add: activating_refl)
next
  case (Suc n)
  note links = Suc.prems(1) and cl = Suc.prems(2) and dx = Suc.prems(3)
  have inst: "is_strategy cl t y = is_strategy cl s y" for y by (simp add: same_links_instance [OF links])
  show ?case
  proof (cases "\<not> is_strategy cl t x \<and> state_of t x = Bound \<and> member t x")
    case False
    then show ?thesis
      by (cases "state_of t x") (auto simp: activating_refl links cl active_def inst)
  next
    case True
    obtain ra u where wait: "await_resources w n (filter (is_resource cl t) (bd_suppliers (obj t x))) True t = (ra, u)"
      by force
    have au: "active u = active t"
      using quiet_await [OF q, of n "filter (is_resource cl t) (bd_suppliers (obj t x))" True t] wait by simp
    have lu: "same_links s u"
      using await_resources_links [of t w n "filter (is_resource cl t) (bd_suppliers (obj t x))" True] wait links
      by (auto intro: same_links_trans)
    have u: "activating s c t u" by (rule activating_same [OF lu cl links au])
    then have clu: "closed u" by (simp add: activating_def)
    let ?f = "\<lambda>p v. and_then (if state_of v p \<noteq> Active then activate cl w n p v else (Inr (), v))
             (\<lambda>_ v'. resolve_conflicts cl w n p x v')"
    have sup: "set (bd_suppliers (obj u x)) = {p. supplier s x p}"
      using lu by (auto simp: same_links_def supplier_def)
    have step: "activating s c v (snd (?f p v)) \<and> (fst (?f p v) = Inr () \<longrightarrow> active (snd (?f p v)) p)"
      if p: "p \<in> set (bd_suppliers (obj u x))" and v: "same_links s v" "closed v" for p v
    proof -
      from p sup have xp: "supplier s x p" by simp
      then have dp: "depends s c p" by (intro depends_trans [OF dx depends_step [OF _ depends_refl]])
      obtain r v' where first: "(if state_of v p \<noteq> Active then activate cl w n p v else (Inr (), v)) = (r, v')"
        by force
      have v': "activating s c v v'" "r = Inr () \<longrightarrow> is_strategy cl s p \<or> active v' p"
        using Suc.IH [OF v dp] first v by (auto simp: activating_refl active_def split: if_splits)
      then have lv': "same_links s v'" "closed v'" by (simp_all add: activating_def)
      obtain r2 v2 where second: "resolve_conflicts cl w n p x v' = (r2, v2)" by force
      have v2: "activating s c v' v2" using resolve_activating [OF sym one dx xp lv', of w n] second by simp
      show ?thesis
      proof (cases r)
        case (Inl e)
        with first v' show ?thesis by simp
      next
        case (Inr a)
        have "active v2 p" if "r2 = Inr ()"
        proof -
          have "\<not> is_strategy cl s p"
            using strategy_resolve [of cl v' p w n x "()"] second that
            by (auto simp: same_links_instance [OF lv'(1)])
          with v' Inr v2 dp show ?thesis by (auto simp: activating_def)
        qed
        then show ?thesis using first Inr second v'(1) v2 by (auto intro: activating_trans)
      qed
    qed
    have loop: "activating s c u (snd (for_each ?f (bd_suppliers (obj u x)) u)) \<and>
        (fst (for_each ?f (bd_suppliers (obj u x)) u) = Inr () \<longrightarrow>
          (\<forall>p \<in> set (bd_suppliers (obj u x)). active (snd (for_each ?f (bd_suppliers (obj u x)) u)) p))"
      by (rule suppliers_activating [OF step _ lu clu]) (use sup in \<open>auto intro: depends_trans [OF dx depends_step [OF _ depends_refl]]\<close>)
    obtain rl v where fe: "for_each ?f (bd_suppliers (obj u x)) u = (rl, v)" by force
    with loop have v: "activating s c u v" "rl = Inr () \<longrightarrow> (\<forall>p. supplier s x p \<longrightarrow> active v p)"
      using sup by auto
    then have lv: "same_links s v" "closed v" by (simp_all add: activating_def)
    have tv: "activating s c t v" using u v(1) by (rule activating_trans)
    note run = activate_bound [of cl t x w n, unfolded wait]
    show ?thesis
    proof (cases ra)
      case (Inl e)
      with True run u show ?thesis by simp
    next
      case ra: (Inr a)
      show ?thesis
      proof (cases "rl = Inr () \<and> fst (on_activate w x v) = Inr ()")
        case False
        have "activating s c t (tick v)" using tv by (simp add: activating_def)
        with False True run ra fe tv show ?thesis
          by (cases rl; cases "on_activate w x v") (auto simp: on_activate_def split: if_splits)
      next
        case ok: True
        have "closed (set_state x Active (tick v))"
          by (rule set_active_closed) (use lv v(2) ok same_links_supplier [OF lv(1)] in simp_all)
        then have "activating s c t (set_state x Active (tick v))"
          using tv by (simp add: activating_def active_set_state)
        moreover have "on_activate w x v = (Inr (), tick v)" using ok by (simp add: on_activate_def split: if_splits)
        ultimately show ?thesis using True run ra fe ok by (simp add: active_set_state)
      qed
    qed
  qed
qed

text \<open>
  C17. While no resource update interferes, activating an object that never reaches one console
  through two different clients keeps every active object on active suppliers, also when it
  fails; and when it returns, the object and everything it depends on is active.
\<close>

theorem activate_keeps_suppliers_active:
  assumes "symmetric s" and "closed s" and "no_update_due w" and "one_client cl s c"
    and "activate cl w n c s = (r, t)" and "\<not> is_strategy cl s c"
  shows "closed t \<and> (r = Inr () \<longrightarrow> (\<forall>p. depends s c p \<longrightarrow> active t p))"
proof -
  have act: "activating s c s t" "r = Inr () \<longrightarrow> active t c"
    using activate_activating [OF assms(1,4,3), of s c n] assms by simp_all
  then have cl: "closed t" and sup: "supplier t = supplier s"
    by (simp_all add: activating_def same_links_supplier)
  have "active t p" if "depends s c p" "active t c" for p
    using that unfolding depends_def
    by (induction rule: rtranclp_induct) (use cl sup in \<open>auto simp: closed_def\<close>)
  with act cl show ?thesis by blast
qed

end
