(* ===== verification/TargetFind.thy ===== *)
theory TargetFind
  imports TargetProps
begin

text \<open>
  Which driver is found, what a wait for resources misses, and small targets on which the
  properties of \<^verbatim>\<open>Target\<close> are applied.
\<close>

section \<open>Drivers by priority\<close>

text \<open>The result \<open>res\<close> of a search over \<open>all\<close>: some drivers of the highest priority.\<close>

definition best_of :: "(obj \<Rightarrow> int) \<Rightarrow> obj set \<Rightarrow> obj list \<Rightarrow> int \<Rightarrow> bool" where
  "best_of prio all res m \<longleftrightarrow> (\<forall>x \<in> set res. prio x = m) \<and>
     (\<forall>e \<in> all. prio e < m \<or> e \<in> set res) \<and> set res \<subseteq> all"

lemma best_of_insert: "best_of prio all res m \<Longrightarrow> prio e < m \<Longrightarrow> best_of prio (insert e all) res m"
  by (auto simp: best_of_def)

lemma best_of_union: "best_of prio all res m \<Longrightarrow> \<forall>e \<in> xs. prio e < m \<Longrightarrow> best_of prio (xs \<union> all) res m"
  by (auto simp: best_of_def)

lemma best_drivers_best:
  "\<forall>b \<in> set best. prio b = peak \<Longrightarrow>
   \<exists>m \<ge> peak. best_of prio (set best \<union> set ds) (best_drivers prio peak best ds) m"
proof (induction ds arbitrary: peak best)
  case Nil
  then show ?case by (intro exI [of _ peak]) (auto simp: best_of_def)
next
  case (Cons d ds)
  consider (higher) "peak < prio d" | (equal) "prio d = peak" | (lower) "prio d < peak" by force
  then show ?case
  proof cases
    case higher
    obtain m where m: "prio d \<le> m" "best_of prio (set [d] \<union> set ds) (best_drivers prio (prio d) [d] ds) m"
      using Cons.IH [of "[d]" "prio d"] by auto
    have "best_of prio (set best \<union> (set [d] \<union> set ds)) (best_drivers prio (prio d) [d] ds) m"
      by (rule best_of_union [OF m(2)]) (use Cons.prems higher m(1) in auto)
    with higher m(1) show ?thesis by (intro exI [of _ m]) (simp add: insert_commute)
  next
    case equal
    obtain m where "peak \<le> m" "best_of prio (set (best @ [d]) \<union> set ds) (best_drivers prio peak (best @ [d]) ds) m"
      using Cons.IH [of "best @ [d]" peak] Cons.prems equal by auto
    with equal show ?thesis by (intro exI [of _ m]) simp
  next
    case lower
    obtain m where m: "peak \<le> m" "best_of prio (set best \<union> set ds) (best_drivers prio peak best ds) m"
      using Cons.IH [of best peak] Cons.prems by auto
    from best_of_insert [OF m(2), of d] lower m(1) show ?thesis by (intro exI [of _ m]) simp
  qed
qed

definition candidate :: "classes \<Rightarrow> string \<Rightarrow> string option \<Rightarrow> bool \<Rightarrow> target \<Rightarrow> obj \<Rightarrow> bool" where
  "candidate cl cls name act s d \<longleftrightarrow> d \<in> set (tg_drivers s) \<and> is_instance cl s d cls \<and>
     named name s d \<and> (act \<longrightarrow> state_of s d = Active)"

lemma select_drivers_candidates:
  "select_drivers cl n cls name None act s ds =
     Inr (filter (\<lambda>d. is_instance cl s d cls \<and> named name s d \<and> (act \<longrightarrow> state_of s d = Active)) ds)"
  by (induction ds) (simp_all add: uses_resource_def)

lemma choose_driver_best:
  assumes "choose_driver cl cls s found = Some d"
  shows "d \<in> set found \<and> (\<forall>e \<in> set found. e = d \<or> get_priority cl s e cls < get_priority cl s d cls)"
proof (cases "length found \<le> 1")
  case True
  with assms show ?thesis by (cases found) (auto simp: choose_driver_def)
next
  case False
  then obtain a b cs where found: "found = a # b # cs" by (cases found; cases "tl found") auto
  let ?prio = "\<lambda>d. get_priority cl s d cls"
  have "best_drivers ?prio (- 255) [] found = [d]"
    using assms unfolding choose_driver_def found list.case
    by (cases "best_drivers ?prio (- 255) [] (a # b # cs)";
        cases "tl (best_drivers ?prio (- 255) [] (a # b # cs))") (simp_all del: best_drivers.simps)
  with best_drivers_best [of "[]" ?prio "- 255" found] show ?thesis by (auto simp: best_of_def)
qed

text \<open>
  A driver that is found by class and name is a driver of the target of that class with that
  name (and active, if asked for), and every other such driver has a lower priority for the
  class. The search does not change the target.
\<close>

lemma get_driver_finds_best:
  assumes "get_driver_full cl w n cls name None False act s = (Inr d, t)"
  shows "t = s \<and> candidate cl cls name act s d \<and>
    (\<forall>e. candidate cl cls name act s e \<longrightarrow>
       e = d \<or> get_priority cl s e cls < get_priority cl s d cls)"
proof -
  let ?found = "filter (\<lambda>d. is_instance cl s d cls \<and> named name s d \<and> (act \<longrightarrow> state_of s d = Active))
    (tg_drivers s)"
  from assms have ts: "t = s" and "choose_driver cl cls s ?found = Some d"
    by (auto simp: get_driver_full_def class_from_string_def select_drivers_candidates
        split: if_splits option.splits)
  from choose_driver_best [OF this(2)] ts show ?thesis by (auto simp: candidate_def)
qed


section \<open>A wait misses what its last poll finds\<close>

lemma wait_misses_last_poll:
  assumes "no_update_due w" and "bd_managed (obj s r)" and "\<not> bd_avail (obj s r)"
    and "w_rounds w (Suc (tg_tick s)) = 1" and "\<forall>k. w_avail w k r"
  shows "\<exists>t. await_resources w n [r] True s = (Inl NoResourceFound, t) \<and> bd_avail (obj t r)"
proof -
  have o: "obj (tick u) d = obj u d" for u d by (simp add: obj_def tick_def)
  have m: "missing True (tick s) [r] = [r]" "missing True (tick (tick s)) [r] = [r]"
    using assms(3) by (simp_all add: missing_def o)
  have "w_rounds w (tg_tick (tick s)) = Suc 0" using assms(4) by (simp add: tick_def)
  then have "wait_loop w True (w_rounds w (tg_tick (tick s))) [r] (tick (tick s)) =
      ([r], poll_if_managed w r (tick (tick s)))"
    by (simp add: m)
  with assms m have "await_resources w n [r] True s = (Inl NoResourceFound, poll_if_managed w r (tick (tick s)))"
    by (simp add: await_resources_def quiet_update Let_def o)
  moreover have "bd_avail (obj (poll_if_managed w r (tick (tick s))) r)"
    using assms(2,5) by (simp add: poll_if_managed_def obj_poll o)
  ultimately show ?thesis by blast
qed


section \<open>Small targets\<close>

text \<open>
  A serial port (0), its console (1), a shell on the console (2), and a driver (3) that is bound to
  the shell and to the console.
\<close>

definition demo_classes :: classes where
  "demo_classes =
     \<lparr>cl_mro = (\<lambda>c.
        if c = ''SerialPort'' then [c, ''Resource'']
        else if c = ''SerialDriver'' then [c, ''ConsoleExpectMixin'', ''Driver'', ''ConsoleProtocol'', ''ABC'']
        else [c, ''Driver'']),
      cl_known = (\<lambda>_. True), cl_priorities = (\<lambda>_. []),
      cl_bindings = (\<lambda>c.
        if c = ''SerialDriver'' then [(''port'', \<lparr>rq_explicit = False, rq_classes = [Some ''SerialPort'']\<rparr>)]
        else if c = ''ShellDriver''
        then [(''console'', \<lparr>rq_explicit = False, rq_classes = [Some ''ConsoleProtocol'']\<rparr>)]
        else [])\<rparr>"

definition demo_object :: "string \<Rightarrow> binding_state \<Rightarrow> obj list \<Rightarrow> obj list \<Rightarrow> bindable" where
  "demo_object cls st sups clis =
     \<lparr>bd_class = cls, bd_name = None, bd_state = st, bd_suppliers = sups, bd_clients = clis,
      bd_target = True, bd_attrs = [], bd_avail = True, bd_managed = False\<rparr>"

definition demo_target :: target where
  "demo_target =
     \<lparr>tg_heap = (\<lambda>c. if c = 0 then demo_object ''SerialPort'' Bound [] [1]
                     else if c = 1 then demo_object ''SerialDriver'' Bound [0] [2]
                     else if c = 2 then demo_object ''ShellDriver'' Bound [1] []
                     else (demo_object ''XDriver'' Idle [] [])\<lparr>bd_target := False\<rparr>),
      tg_resources = [0], tg_drivers = [1, 2], tg_map = [], tg_tick = 0\<rparr>"

definition demo_world :: world where
  "demo_world = \<lparr>w_due = (\<lambda>_. False), w_avail = (\<lambda>_ _. True), w_rounds = (\<lambda>_. 3),
     w_activate_fails = (\<lambda>_ _. False), w_deactivate_fails = (\<lambda>_ _. False)\<rparr>"

lemma demo_supplier: "supplier demo_target c p \<longleftrightarrow> (c = 1 \<and> p = 0) \<or> (c = 2 \<and> p = 1)"
  by (simp add: supplier_def demo_target_def obj_def demo_object_def)

lemma demo_client: "client demo_target p c \<longleftrightarrow> (c = 1 \<and> p = 0) \<or> (c = 2 \<and> p = 1)"
  by (simp add: client_def demo_target_def obj_def demo_object_def)

lemma demo_symmetric: "symmetric demo_target"
  by (simp add: symmetric_def demo_supplier demo_client)

lemma demo_inactive: "\<not> active demo_target c"
  by (simp add: active_def state_of_def demo_target_def obj_def demo_object_def)

lemma demo_closed: "closed demo_target"
  by (simp add: closed_def demo_inactive)

lemma demo_quiet: "no_update_due demo_world"
  by (simp add: no_update_due_def demo_world_def)

lemma demo_one_client: "one_client demo_classes demo_target 2"
  by (auto simp: one_client_def demo_supplier)

lemma demo_activate:
  "fst (activate demo_classes demo_world 6 2 demo_target) = Inr () \<and>
   state_of (snd (activate demo_classes demo_world 6 2 demo_target)) 0 = Active"
  by code_simp

theorem activate_keeps_suppliers_active_witness:
  "fst (activate demo_classes demo_world 6 2 demo_target) = Inr () \<and>
   closed (snd (activate demo_classes demo_world 6 2 demo_target)) \<and>
   active (snd (activate demo_classes demo_world 6 2 demo_target)) 0"
proof -
  have "activate demo_classes demo_world 6 2 demo_target =
      (Inr (), snd (activate demo_classes demo_world 6 2 demo_target))"
    using demo_activate by (metis prod.collapse)
  moreover have "\<not> is_strategy demo_classes demo_target 2"
    by (simp add: is_instance_def is_subclass_def demo_classes_def demo_target_def obj_def demo_object_def)
  moreover have "depends demo_target 2 0"
    by (intro depends_step [of _ 2 1] depends_step [of _ 1 0] depends_refl) (simp_all add: demo_supplier)
  ultimately show ?thesis
    using activate_keeps_suppliers_active [OF demo_symmetric demo_closed demo_quiet demo_one_client]
      demo_activate by blast
qed

definition demo_running :: target where
  "demo_running = demo_target\<lparr>tg_heap := (\<lambda>c. (tg_heap demo_target c)\<lparr>bd_state :=
     (if c < 3 then Active else Idle)\<rparr>)\<rparr>"

lemma demo_running_links: "same_links demo_target demo_running"
  by (simp add: same_links_def demo_running_def obj_def)

lemma demo_running_closed: "closed demo_running"
  unfolding closed_def same_links_supplier [OF demo_running_links]
  by (auto simp: demo_supplier active_def state_of_def demo_running_def obj_def)

theorem deactivate_stops_dependents_witness:
  "\<exists>t. deactivate demo_world 4 0 demo_running = (Inr [0, 1, 2], t) \<and> stopped demo_running t = {0, 1, 2}"
proof -
  have fst: "fst (deactivate demo_world 4 0 demo_running) = Inr [0, 1, 2]" by code_simp
  then have run: "deactivate demo_world 4 0 demo_running =
      (Inr [0, 1, 2], snd (deactivate demo_world 4 0 demo_running))" by (metis prod.collapse)
  have "symmetric demo_running"
    using demo_symmetric by (simp add: same_links_symmetric [OF demo_running_links])
  from deactivate_stops_dependents [OF this demo_running_closed run] run show ?thesis by auto
qed

definition demo_empty :: target where
  "demo_empty = \<lparr>tg_heap = (\<lambda>c. (demo_object (if c = 0 then ''SerialPort'' else ''SerialDriver'') Idle [] [])
       \<lparr>bd_target := False\<rparr>), tg_resources = [], tg_drivers = [], tg_map = [], tg_tick = 0\<rparr>"

theorem reachable_recursions_end_witness:
  "fst (activate demo_classes demo_world 4 0 (snd (bind demo_classes demo_world 4 0 demo_empty))) \<noteq>
   Inl RecursionErr"
proof -
  have start: "target_start demo_empty"
    by (simp add: target_start_def demo_empty_def obj_def state_of_def demo_object_def)
  have step: "(target_step demo_classes)\<^sup>*\<^sup>* demo_empty (snd (bind demo_classes demo_world 4 0 demo_empty))"
    by (rule r_into_rtranclp [where r = "target_step demo_classes"]) (rule bound)
  have "tg_resources (snd (bind demo_classes demo_world 4 0 demo_empty)) = [0]"
    "tg_drivers (snd (bind demo_classes demo_world 4 0 demo_empty)) = []"
    by code_simp+
  with reachable_recursions_end [OF start step, where n = 4 and c = 0 and w = demo_world]
  show ?thesis by simp
qed

theorem get_driver_finds_best_witness:
  "candidate demo_classes ''ConsoleProtocol'' None False demo_target 1"
proof -
  have "fst (get_driver_full demo_classes demo_world 4 ''ConsoleProtocol'' None None False False demo_target) = Inr 1"
    by code_simp
  then have "get_driver_full demo_classes demo_world 4 ''ConsoleProtocol'' None None False False demo_target =
      (Inr 1, snd (get_driver_full demo_classes demo_world 4 ''ConsoleProtocol'' None None False False demo_target))"
    by (metis prod.collapse)
  from get_driver_finds_best [OF this] show ?thesis by simp
qed

text \<open>
  A driver on the shell and on its console: the console makes the shell leave after the shell was
  activated, and the driver becomes active on an inactive shell.
\<close>

definition demo_conflict :: target where
  "demo_conflict = demo_target\<lparr>tg_heap := (\<lambda>c.
     if c = 1 then demo_object ''SerialDriver'' Bound [0] [2, 3]
     else if c = 2 then demo_object ''ShellDriver'' Bound [1] [3]
     else if c = 3 then demo_object ''XDriver'' Bound [2, 1] []
     else tg_heap demo_target c), tg_drivers := [1, 2, 3]\<rparr>"

lemma console_conflict:
  "fst (activate demo_classes demo_world 8 3 demo_conflict) = Inr () \<and>
   state_of (snd (activate demo_classes demo_world 8 3 demo_conflict)) 3 = Active \<and>
   state_of (snd (activate demo_classes demo_world 8 3 demo_conflict)) 2 = Bound"
  by code_simp

end
