(* ===== verification/Factory.thy ===== *)
theory Factory
  imports Config TargetFind
begin

text \<open>
  \<^verbatim>\<open>labgrid/factory.py\<close> with \<open>filter_dict\<close> of \<^verbatim>\<open>labgrid/util/dict.py\<close>: the registry of classes, the
  two ways to write resources and drivers in a configuration, and how a target is built from
  them. What the constructor of a particular class accepts is a parameter.
\<close>

section \<open>The registry\<close>

record factory =
  fa_resources :: "string list"
  fa_drivers :: "string list"
  fa_all :: "string list"

definition new_factory :: factory where
  "new_factory = \<lparr>fa_resources = [], fa_drivers = [], fa_all = []\<rparr>"

datatype factory_error =
    InvalidConf
  | RegistrationErr
  | BindFailed target_error
  | Failed py_error
  | OutsideModel

text \<open>\<open>_insert_into_all\<close>: the class with its method resolution order, without duplicates.\<close>

definition insert_into_all :: "string list \<Rightarrow> factory \<Rightarrow> factory" where
  "insert_into_all mro f =
     f\<lparr>fa_all := fold (\<lambda>c all. if c \<in> set all then all else all @ [c]) mro (fa_all f)\<rparr>"

definition reg_resource :: "(string \<Rightarrow> string list) \<Rightarrow> string \<Rightarrow> factory \<Rightarrow> factory_error + factory" where
  "reg_resource mro c f =
     (if c \<in> set (fa_all f) then Inl RegistrationErr
      else Inr (insert_into_all (mro c) (f\<lparr>fa_resources := fa_resources f @ [c]\<rparr>)))"

definition reg_driver :: "(string \<Rightarrow> string list) \<Rightarrow> string \<Rightarrow> factory \<Rightarrow> factory_error + factory" where
  "reg_driver mro c f =
     (if c \<in> set (fa_all f) then Inl RegistrationErr
      else Inr (insert_into_all (mro c) (f\<lparr>fa_drivers := fa_drivers f @ [c]\<rparr>)))"

text \<open>The classes that a target sees.\<close>

definition classes_of ::
  "factory \<Rightarrow> (string \<Rightarrow> string list) \<Rightarrow> (string \<Rightarrow> (string, int) dict) \<Rightarrow>
   (string \<Rightarrow> (string, requirement) dict) \<Rightarrow> classes" where
  "classes_of f mro priorities bindings =
     \<lparr>cl_mro = mro, cl_known = (\<lambda>c. c \<in> set (fa_all f)), cl_priorities = priorities,
      cl_bindings = bindings\<rparr>"


section \<open>Named lists\<close>

text \<open>
  \<open>dict.update\<close> with a value: a dictionary, or what yields pairs. Keys that are hashable but no
  strings are outside the model.
\<close>

definition pair_of :: "pyval \<Rightarrow> factory_error + string \<times> pyval" where
  "pair_of v =
     (case elements v of
        Inl e \<Rightarrow> Inl (Failed e)
      | Inr [VStr k, w] \<Rightarrow> Inr (k, w)
      | Inr [k, w] \<Rightarrow> Inl (if hashable k then OutsideModel else Failed TypeError)
      | Inr _ \<Rightarrow> Inl (Failed ValueError))"

fun update_with :: "(string \<times> pyval) list \<Rightarrow> pyval \<Rightarrow> factory_error + (string \<times> pyval) list" where
  "update_with d (VDict e) = Inr (dict_update d e)"
| "update_with d v =
     (case elements v of
        Inl e \<Rightarrow> Inl (Failed e)
      | Inr xs \<Rightarrow> and_result (map_result pair_of xs) (\<lambda>e. Inr (dict_update d e)))"

fun list_item :: "pyval \<Rightarrow> factory_error + (string \<times> pyval) list" where
  "list_item (VDict []) = Inl InvalidConf"
| "list_item (VDict [(key, v)]) =
     (if key = ''cls'' then Inr [(key, v)]
      else if v = VNone then Inl InvalidConf
      else update_with [(''cls'', VStr key)] v)"
| "list_item (VDict d) = (if ''cls'' \<in> set (keys d) then Inr d else Inl InvalidConf)"
| "list_item _ = Inl InvalidConf"

fun dict_item :: "string \<times> pyval \<Rightarrow> factory_error + (string \<times> pyval) list" where
  "dict_item (c, VDict d) = Inr (dict_setdefault ''cls'' (VStr c) d)"
| "dict_item (c, _) = Inl (Failed AttributeError)"

definition name_item :: "(string \<times> pyval) list \<Rightarrow> factory_error + (string \<times> pyval) list" where
  "name_item d =
     (if ''cls'' \<in> set (keys d) then Inr (dict_setdefault ''name'' VNone d)
      else Inl (Failed AssertionError))"

definition convert_to_named_list :: "pyval \<Rightarrow> factory_error + (string \<times> pyval) list list" where
  "convert_to_named_list data =
     and_result
       (case data of
          VList xs \<Rightarrow> map_result list_item xs
        | VDict d \<Rightarrow> map_result dict_item d
        | _ \<Rightarrow> Inl InvalidConf)
       (map_result name_item)"

text \<open>\<open>config.get(section, {})\<close> as a named list.\<close>

definition section_items :: "pyval \<Rightarrow> string \<Rightarrow> factory_error + (string \<times> pyval) list list" where
  "section_items config name =
     (case get_default config name (VDict []) of
        Inl e \<Rightarrow> Inl (Failed e)
      | Inr v \<Rightarrow> convert_to_named_list v)"

text \<open>\<open>d.pop(k, default)\<close>: the value, and what is left.\<close>

definition pop :: "string \<Rightarrow> pyval \<Rightarrow> (string \<times> pyval) list \<Rightarrow> pyval \<times> (string \<times> pyval) list" where
  "pop k v d = ((case map_of d k of Some w \<Rightarrow> w | None \<Rightarrow> v), AList.delete k d)"

text \<open>
  \<open>normalize_config\<close>: by class and name the arguments and, for a driver, the bindings. A class or
  name that cannot be a key raises \<open>TypeError\<close>.
\<close>

type_synonym 'a by_name = "(pyval, (pyval, 'a) dict) dict"

definition put_named :: "pyval \<Rightarrow> pyval \<Rightarrow> 'a \<Rightarrow> 'a by_name \<Rightarrow> factory_error + 'a by_name" where
  "put_named c name x m =
     (if \<not> hashable c \<or> \<not> hashable name then Inl (Failed TypeError)
      else Inr (AList.update c (AList.update name x (case map_of m c of Some n \<Rightarrow> n | None \<Rightarrow> [])) m))"

fun fold_result :: "('a \<Rightarrow> 'b \<Rightarrow> 'e + 'b) \<Rightarrow> 'a list \<Rightarrow> 'b \<Rightarrow> 'e + 'b" where
  "fold_result f [] b = Inr b"
| "fold_result f (x # xs) b = and_result (f x b) (fold_result f xs)"

definition normalize_resource ::
  "(string \<times> pyval) list \<Rightarrow> (string \<times> pyval) list by_name \<Rightarrow>
   factory_error + (string \<times> pyval) list by_name" where
  "normalize_resource item m =
     (case pop ''cls'' VNone item of (c, item) \<Rightarrow>
      case pop ''name'' VNone item of (name, args) \<Rightarrow> put_named c name args m)"

definition normalize_driver ::
  "(string \<times> pyval) list \<Rightarrow> ((string \<times> pyval) list \<times> pyval) by_name \<Rightarrow>
   factory_error + ((string \<times> pyval) list \<times> pyval) by_name" where
  "normalize_driver item m =
     (case pop ''cls'' VNone item of (c, item) \<Rightarrow>
      case pop ''name'' VNone item of (name, item) \<Rightarrow>
      case pop ''bindings'' (VDict []) item of (b, args) \<Rightarrow> put_named c name (args, b) m)"

definition normalize_config ::
  "pyval \<Rightarrow> factory_error +
     (string \<times> pyval) list by_name \<times> ((string \<times> pyval) list \<times> pyval) by_name" where
  "normalize_config config =
     and_result (section_items config ''resources'')
       (\<lambda>rs. and_result (fold_result normalize_resource rs [])
         (\<lambda>resources. and_result (section_items config ''drivers'')
           (\<lambda>ds. and_result (fold_result normalize_driver ds [])
             (\<lambda>drivers. Inr (resources, drivers)))))"


section \<open>Building a target\<close>

text \<open>
  The constructor of a class: its attributes with those that are arguments, the arguments it
  requires, what its validators and converters refuse, what it raises after it was bound, and
  whether it is a managed resource.
\<close>

record constructor =
  co_fields :: "(string \<times> bool) list"
  co_required :: "string list"
  co_check :: "(string \<times> pyval) list \<Rightarrow> py_error option"
  co_finish :: "(string \<times> pyval) list \<Rightarrow> py_error option"
  co_managed :: bool

definition filter_dict :: "(string \<times> pyval) list \<Rightarrow> constructor \<Rightarrow> (string \<times> pyval) list" where
  "filter_dict d co = filter (\<lambda>(k, _). k \<in> set (map fst (co_fields co))) d"

text \<open>What is raised before the object is bound; every class takes a target and a name.\<close>

definition refused :: "constructor \<Rightarrow> pyval \<Rightarrow> (string \<times> pyval) list \<Rightarrow> py_error option" where
  "refused co name args =
     (if list_ex (\<lambda>k. k \<in> {''target'', ''name''} \<or> (k, True) \<notin> set (co_fields co)) (keys args) then Some TypeError
      else if list_ex (\<lambda>k. k \<notin> set (keys args)) (co_required co) then Some TypeError
      else case name of
        VNone \<Rightarrow> co_check co args
      | VStr _ \<Rightarrow> co_check co args
      | _ \<Rightarrow> Some TypeError)"

fun object_name :: "pyval \<Rightarrow> string option" where
  "object_name (VStr s) = Some s"
| "object_name _ = None"

type_synonym building = "target \<Rightarrow> (factory_error, unit, target) outcome"

definition raised :: "py_error \<Rightarrow> factory_error" where
  "raised e = (if e = TypeError then InvalidConf else Failed e)"

definition construct ::
  "classes \<Rightarrow> world \<Rightarrow> nat \<Rightarrow> constructor \<Rightarrow> obj \<Rightarrow> string \<Rightarrow> pyval \<Rightarrow> (string \<times> pyval) list \<Rightarrow> building" where
  "construct cl w n co k cls name args s =
     (case refused co name args of
        Some e \<Rightarrow> (Inl (raised e), s)
      | None \<Rightarrow>
          (case bind cl w n k (create k (new_object cls (object_name name) (co_managed co)) s) of
             (Inl e, t) \<Rightarrow> (Inl (BindFailed e), t)
           | (Inr _, t) \<Rightarrow>
               (case co_finish co args of
                  Some e \<Rightarrow> (Inl (raised e), t)
                | None \<Rightarrow> (Inr (), t))))"

text \<open>The class of an item is looked up by a value that need not be a string.\<close>

fun look_up :: "string list \<Rightarrow> pyval \<Rightarrow> factory_error + string" where
  "look_up known (VStr c) = (if c \<in> set known then Inr c else Inl InvalidConf)"
| "look_up known v = Inl (if hashable v then InvalidConf else Failed TypeError)"

record builder =
  bu_factory :: factory
  bu_classes :: classes
  bu_constructor :: "string \<Rightarrow> constructor"

definition make_resource ::
  "builder \<Rightarrow> world \<Rightarrow> nat \<Rightarrow> obj \<Rightarrow> pyval \<Rightarrow> pyval \<Rightarrow> (string \<times> pyval) list \<Rightarrow> building" where
  "make_resource b w n k cls name args s =
     (case look_up (fa_resources (bu_factory b)) cls of
        Inl e \<Rightarrow> (Inl e, s)
      | Inr c \<Rightarrow>
          (let co = bu_constructor b c in
           construct (bu_classes b) w n co k c name (filter_dict args co) s))"

definition make_driver ::
  "builder \<Rightarrow> world \<Rightarrow> nat \<Rightarrow> obj \<Rightarrow> pyval \<Rightarrow> pyval \<Rightarrow> (string \<times> pyval) list \<Rightarrow> building" where
  "make_driver b w n k cls name args s =
     (case look_up (fa_drivers (bu_factory b)) cls of
        Inl e \<Rightarrow> (Inl e, s)
      | Inr c \<Rightarrow>
          (let co = bu_constructor b c in
           construct (bu_classes b) w n co k c name (filter_dict args co) s))"

text \<open>Bindings are names of suppliers; other values are outside the model.\<close>

fun supplier_names :: "(string \<times> pyval) list \<Rightarrow> (string, string) dict option" where
  "supplier_names [] = Some []"
| "supplier_names ((k, VStr s) # d) = map_option ((#) (k, s)) (supplier_names d)"
| "supplier_names (_ # d) = None"

fun binding_names :: "pyval \<Rightarrow> (string, string) dict option" where
  "binding_names (VDict d) = supplier_names d"
| "binding_names _ = None"

definition resource_item :: "builder \<Rightarrow> world \<Rightarrow> nat \<Rightarrow> nat \<times> (string \<times> pyval) list \<Rightarrow> building" where
  "resource_item b w n ki s =
     (case pop ''cls'' VNone (snd ki) of (c, item) \<Rightarrow>
      case pop ''name'' VNone item of (name, args) \<Rightarrow> make_resource b w n (fst ki) c name args s)"

definition driver_item :: "builder \<Rightarrow> world \<Rightarrow> nat \<Rightarrow> nat \<times> (string \<times> pyval) list \<Rightarrow> building" where
  "driver_item b w n ki s =
     (case pop ''cls'' VNone (snd ki) of (c, item) \<Rightarrow>
      case pop ''name'' VNone item of (name, item) \<Rightarrow>
      case pop ''bindings'' (VDict []) item of (bs, args) \<Rightarrow>
      case binding_names bs of
        None \<Rightarrow> (Inl OutsideModel, s)
      | Some m \<Rightarrow> make_driver b w n (fst ki) c name args (set_binding_map m s))"

text \<open>Objects are numbered in the order in which they are made.\<close>

definition make_target :: "builder \<Rightarrow> world \<Rightarrow> nat \<Rightarrow> pyval \<Rightarrow> (factory_error, unit, target) outcome" where
  "make_target b w n config =
     (case section_items config ''resources'' of
        Inl e \<Rightarrow> (Inl e, new_target)
      | Inr rs \<Rightarrow>
          and_then (for_each (resource_item b w n) (enumerate 0 rs) new_target)
            (\<lambda>_ t. case section_items config ''drivers'' of
               Inl e \<Rightarrow> (Inl e, t)
             | Inr ds \<Rightarrow> for_each (driver_item b w n) (enumerate (length rs) ds) t))"


section \<open>The registry keeps its classes apart\<close>

definition registry_ok :: "factory \<Rightarrow> bool" where
  "registry_ok f \<longleftrightarrow> distinct (fa_resources f @ fa_drivers f) \<and>
     set (fa_resources f) \<union> set (fa_drivers f) \<subseteq> set (fa_all f) \<and> distinct (fa_all f)"

lemma set_insert_into_all [simp]:
  "set (fa_all (insert_into_all mro f)) = set (fa_all f) \<union> set mro"
  "fa_resources (insert_into_all mro f) = fa_resources f"
  "fa_drivers (insert_into_all mro f) = fa_drivers f"
  "distinct (fa_all (insert_into_all mro f)) = distinct (fa_all f)"
proof -
  let ?g = "\<lambda>c all. if c \<in> set all then all else all @ [c]"
  have "set (fold ?g mro all) = set all \<union> set mro \<and> distinct (fold ?g mro all) = distinct all" for all
    by (induction mro arbitrary: all) auto
  then show "set (fa_all (insert_into_all mro f)) = set (fa_all f) \<union> set mro"
    "distinct (fa_all (insert_into_all mro f)) = distinct (fa_all f)"
    by (simp_all add: insert_into_all_def)
qed (simp_all add: insert_into_all_def)

text \<open>A class comes first in its own method resolution order.\<close>

inductive registering :: "(string \<Rightarrow> string list) \<Rightarrow> factory \<Rightarrow> factory \<Rightarrow> bool" for mro where
  resource: "c \<in> set (mro c) \<Longrightarrow> reg_resource mro c f = Inr g \<Longrightarrow> registering mro f g"
| driver: "c \<in> set (mro c) \<Longrightarrow> reg_driver mro c f = Inr g \<Longrightarrow> registering mro f g"

lemma registering_ok: "registering mro f g \<Longrightarrow> registry_ok f \<Longrightarrow> registry_ok g"
  by (induction rule: registering.induct)
    (auto simp: reg_resource_def reg_driver_def registry_ok_def split: if_splits)

interpretation registry: transition_system "\<lambda>f. f = new_factory" "registering mro" registry_ok for mro
  by unfold_locales (simp add: new_factory_def registry_ok_def, rule registering_ok)

lemma registered_class_found:
  assumes "(registering mro)\<^sup>*\<^sup>* new_factory f" and "c \<in> set (fa_resources f) \<union> set (fa_drivers f)"
  shows "class_from_string (classes_of f mro priorities bindings) c = Inr c"
  using registry.reachable_inv [OF refl assms(1)] assms(2)
  by (auto simp: registry_ok_def class_from_string_def classes_of_def)


section \<open>Named lists are a normal form\<close>

lemma list_item_of_two:
  assumes "''cls'' \<in> set (keys d)" and "''name'' \<in> set (keys d)"
  shows "list_item (VDict d) = Inr d"
proof (cases d)
  case Nil
  with assms show ?thesis by simp
next
  case (Cons x d')
  with assms show ?thesis by (cases x; cases d') auto
qed

lemma name_item_done:
  assumes "''cls'' \<in> set (keys d)" and "''name'' \<in> set (keys d)"
  shows "name_item d = Inr d"
proof -
  from assms(2) obtain v where "map_of d ''name'' = Some v" by (metis map_of_eq_None not_Some_eq)
  with assms(1) show ?thesis by (simp add: name_item_def dict_setdefault_def)
qed

lemma set_keys_setdefault: "set (keys (dict_setdefault k v d)) = insert k (set (keys d))"
  by (auto simp: dict_setdefault_def map_of_eq_None split: option.splits dest!: map_of_SomeD)
    (metis fst_conv imageI)

lemma convert_items:
  assumes "convert_to_named_list v = Inr items" and "d \<in> set items"
  shows "''cls'' \<in> set (keys d) \<and> ''name'' \<in> set (keys d)"
proof -
  from assms(1) obtain ds where "list_all2 (\<lambda>d e. name_item d = Inr e) ds items"
    unfolding convert_to_named_list_def by (auto simp: and_result_Inr map_result_Inr)
  with assms(2) obtain e where "name_item e = Inr d"
    unfolding list_all2_conv_all_nth in_set_conv_nth by metis
  then show ?thesis by (auto simp: name_item_def set_keys_setdefault simp del: set_map split: if_splits)
qed

text \<open>
  C21. What \<open>_convert_to_named_list\<close> returns is a list of dictionaries with a class and a name, and
  it is left as it is when it is converted again.
\<close>

theorem named_list_stable:
  assumes "convert_to_named_list v = Inr items"
  shows "(\<forall>d \<in> set items. ''cls'' \<in> set (keys d) \<and> ''name'' \<in> set (keys d)) \<and>
    convert_to_named_list (VList (map VDict items)) = Inr items"
proof -
  have items: "\<forall>d \<in> set items. ''cls'' \<in> set (keys d) \<and> ''name'' \<in> set (keys d)"
    using convert_items [OF assms] by blast
  then have "map_result list_item (map VDict items) = Inr items"
    by (induction items) (simp_all add: list_item_of_two)
  moreover have "map_result name_item items = Inr items"
    using items by (induction items) (simp_all add: name_item_done)
  ultimately show ?thesis using items by (simp add: convert_to_named_list_def)
qed

theorem named_list_stable_witness:
  "\<exists>items. convert_to_named_list (VDict [(''FooPort'', VDict []), (''BarPort'', VDict [(''name'', VStr ''bar'')])]) =
     Inr items \<and> convert_to_named_list (VList (map VDict items)) = Inr items \<and> length items = 2"
proof -
  have "convert_to_named_list (VDict [(''FooPort'', VDict []), (''BarPort'', VDict [(''name'', VStr ''bar'')])]) =
    Inr [[(''cls'', VStr ''FooPort''), (''name'', VNone)], [(''name'', VStr ''bar''), (''cls'', VStr ''BarPort'')]]"
    by code_simp
  from named_list_stable [OF this] this show ?thesis by auto
qed

text \<open>
  Both ways to write objects mean the same: nested dictionaries and a list of dictionaries with
  one entry are converted to items that hold the same values.
\<close>

lemma dict_and_list_forms:
  assumes "\<forall>(c, d) \<in> set xs. c \<noteq> ''cls'' \<and> dict_wf d"
  shows "\<exists>is js. convert_to_named_list (VDict (map (\<lambda>(c, d). (c, VDict d)) xs)) = Inr is \<and>
    convert_to_named_list (VList (map (\<lambda>(c, d). VDict [(c, VDict d)]) xs)) = Inr js \<and>
    list_all2 (\<lambda>i j. map_of i = map_of j) is js"
proof -
  let ?i = "\<lambda>(c, d). dict_setdefault ''cls'' (VStr c) d"
  let ?j = "\<lambda>(c, d). dict_update [(''cls'', VStr c)] d"
  let ?n = "dict_setdefault ''name'' VNone"
  have same: "map_of (?i x) = map_of (?j x)" if "x \<in> set xs" for x
    using assms that by (cases x) (auto simp: fun_eq_iff map_of_dict_update split: option.splits)
  have cls: "map_of (?i x) ''cls'' \<noteq> None" for x by (cases x) simp
  have "''cls'' \<in> set (keys (?i x))" "''cls'' \<in> set (keys (?j x))" if "x \<in> set xs" for x
    using cls [of x] same [OF that] by (metis map_of_eq_None)+
  moreover have named: "map_result name_item ds = Inr (map ?n ds)" if "\<forall>d \<in> set ds. ''cls'' \<in> set (keys d)" for ds
    using that by (intro map_result_pure) (simp add: name_item_def del: set_map)
  ultimately have i: "map_result name_item (map ?i xs) = Inr (map ?n (map ?i xs))"
    and j: "map_result name_item (map ?j xs) = Inr (map ?n (map ?j xs))"
    by (intro named; fastforce)+
  have "map_result dict_item (map (\<lambda>(c, d). (c, VDict d)) xs) = Inr (map ?i xs)"
    by (induction xs) (simp_all add: case_prod_unfold)
  moreover have "map_result list_item (map (\<lambda>(c, d). VDict [(c, VDict d)]) xs) = Inr (map ?j xs)"
    using assms by (induction xs) (auto simp: case_prod_unfold)
  moreover have "list_all2 (\<lambda>i j. map_of i = map_of j) (map ?n (map ?i xs)) (map ?n (map ?j xs))"
    using same by (auto simp: list_all2_conv_all_nth fun_eq_iff)
  ultimately show ?thesis using i j by (simp add: convert_to_named_list_def)
qed

text \<open>An entry without arguments is refused in a list, but crashes in a dictionary.\<close>

lemma missing_arguments:
  "convert_to_named_list (VList [VDict [(''FooPort'', VNone)]]) = Inl InvalidConf"
  "convert_to_named_list (VDict [(''FooPort'', VNone)]) = Inl (Failed AttributeError)"
  by (simp_all add: convert_to_named_list_def)

text \<open>
  Of two unnamed resources of one class, which \<open>make_target\<close> makes both, \<open>normalize_config\<close> keeps
  the second only.
\<close>

lemma normalize_loses_unnamed:
  "normalize_config (VDict [(''resources'', VList [VDict [(''R'', VDict [(''a'', VInt 1)])],
     VDict [(''R'', VDict [(''a'', VInt 2)])]])]) =
   Inr ([(VStr ''R'', [(VNone, [(''a'', VInt 2)])])], [])"
  by code_simp


section \<open>Targets are built in steps\<close>

abbreviation builds :: "classes \<Rightarrow> target \<Rightarrow> target \<Rightarrow> bool" where
  "builds cl \<equiv> (target_step cl)\<^sup>*\<^sup>*"

lemma builds_step: "builds cl s t \<Longrightarrow> target_step cl t u \<Longrightarrow> builds cl s u"
  by (rule rtranclp.rtrancl_into_rtrancl)

text \<open>Binding an object puts no other object on the target.\<close>

lemma link_target: "bd_target (obj (snd (link cl c p s)) d) = bd_target (obj s d)"
  by (simp add: link_def Let_def obj_modify)

lemma bind_elsewhere:
  assumes "d \<noteq> c"
  shows "bd_target (obj (snd (bind cl w n c s)) d) = bd_target (obj s d)"
proof -
  define P where "P t \<longleftrightarrow> bd_target (obj t d) = bd_target (obj s d)" for t
  have all: "P (snd (bind_all cl w n c bs l (s\<lparr>tg_map := []\<rparr>)))" for bs l
    using bind_all_links [of "s\<lparr>tg_map := []\<rparr>" cl w n c bs l] by (simp add: P_def same_links_def obj_def)
  have links: "P (snd (for_each (link cl c) ps
      (modify c (\<lambda>x. x\<lparr>bd_target := True\<rparr>) (t\<lparr>tg_drivers := ds\<rparr>))))" if "P t" for ps ds t
  proof (rule for_each_keeps [where P = P])
    show "P (modify c (\<lambda>x. x\<lparr>bd_target := True\<rparr>) (t\<lparr>tg_drivers := ds\<rparr>))"
      using that assms by (simp add: P_def obj_modify obj_def modify_def)
  qed (simp add: P_def link_target)
  have last_step: "P t \<Longrightarrow> P (set_state c Bound t)" for t
    using assms by (simp add: P_def set_state_def obj_modify)
  have "P s" by (simp add: P_def)
  then have "P (snd (bind_driver cl w n c s))"
    unfolding bind_driver_def
    by (auto intro!: and_then_keeps [where P = P] all links last_step simp del: not_all)
  moreover have "P (snd (bind_resource cl c s))"
    using assms by (simp add: P_def bind_resource_def modify_def obj_def)
  ultimately show ?thesis using \<open>P s\<close> by (simp add: bind_def P_def)
qed

definition unused_from :: "obj \<Rightarrow> target \<Rightarrow> bool" where
  "unused_from k s \<longleftrightarrow> (\<forall>d \<ge> k. \<not> bd_target (obj s d))"

text \<open>What the construction of the object \<open>k\<close> keeps, whether it succeeds or not.\<close>

definition built :: "classes \<Rightarrow> obj \<Rightarrow> target \<Rightarrow> bool" where
  "built cl k s \<longleftrightarrow> builds cl new_target s \<and> unused_from k s"

lemma construct_built:
  assumes "built cl k s"
  shows "built cl (Suc k) (snd (construct cl w n co k cls name args s))"
proof -
  define u where "u = create k (new_object cls (object_name name) (co_managed co)) s"
  define t where "t = snd (bind cl w n k u)"
  have s: "builds cl new_target s" "unused_from k s" using assms by (simp_all add: built_def)
  then have "builds cl new_target u" unfolding u_def
    by (intro builds_step [OF s(1) created]) (simp add: unused_from_def)
  then have "builds cl new_target t" unfolding t_def by (rule builds_step) (rule bound)
  moreover have "bd_target (obj t d) = bd_target (obj s d)" if "d \<ge> Suc k" for d
    using that bind_elsewhere [of d k cl w n u] unfolding t_def
    by (simp add: u_def create_def obj_def)
  with s(2) have "unused_from (Suc k) t" by (simp add: unused_from_def)
  ultimately have "built cl (Suc k) t" by (simp add: built_def)
  moreover have "built cl (Suc k) s" using s by (simp add: built_def unused_from_def)
  moreover have "snd (construct cl w n co k cls name args s) \<in> {s, t}"
    unfolding construct_def t_def u_def by (auto split: option.split prod.split sum.split)
  ultimately show ?thesis by auto
qed

lemma built_Suc: "built cl k s \<Longrightarrow> built cl (Suc k) s"
  by (simp add: built_def unused_from_def)

lemma built_map: "built cl k s \<Longrightarrow> built cl k (set_binding_map m s)"
  using builds_step [OF _ mapped] by (auto simp: built_def unused_from_def set_binding_map_def obj_def)

lemma resource_item_built:
  "built (bu_classes b) k s \<Longrightarrow> built (bu_classes b) (Suc k) (snd (resource_item b w n (k, d) s))"
  by (auto simp: resource_item_def pop_def make_resource_def Let_def construct_built built_Suc split: sum.split)

lemma driver_item_built:
  "built (bu_classes b) k s \<Longrightarrow> built (bu_classes b) (Suc k) (snd (driver_item b w n (k, d) s))"
  by (auto simp: driver_item_def pop_def make_driver_def Let_def construct_built built_Suc built_map
      split: sum.split option.split)

lemma built_le: "built cl k s \<Longrightarrow> k \<le> l \<Longrightarrow> built cl l s"
  by (simp add: built_def unused_from_def)

lemma items_built:
  assumes "\<And>k d s. built cl k s \<Longrightarrow> built cl (Suc k) (snd (f (k, d) s))" and "built cl k s"
  shows "built cl (k + length ds) (snd (for_each f (enumerate k ds) s))"
  using assms(2)
proof (induction ds arbitrary: k s)
  case Nil
  then show ?case by simp
next
  case (Cons d ds)
  obtain r t where step: "f (k, d) s = (r, t)" by (cases "f (k, d) s")
  with assms(1) [OF Cons.prems, of d] have t: "built cl (Suc k) t" by simp
  with Cons.IH [OF t] step show ?case by (cases r) (auto intro: built_le)
qed

lemma make_target_reachable: "builds (bu_classes b) new_target (snd (make_target b w n config))"
proof -
  let ?cl = "bu_classes b"
  have start: "built ?cl 0 new_target"
    by (simp add: built_def unused_from_def new_target_def obj_def new_object_def)
  have rs: "built ?cl (length rs) (snd (for_each (resource_item b w n) (enumerate 0 rs) new_target))" for rs
    using items_built [where k = 0 and ds = rs, OF resource_item_built start] by simp
  have ds: "built ?cl (length rs + length ds)
      (snd (for_each (driver_item b w n) (enumerate (length rs) ds) t))" if "built ?cl (length rs) t" for rs ds t
    using items_built [where ds = ds, OF driver_item_built that] by simp
  have "\<exists>k. built ?cl k (snd (make_target b w n config))"
  proof (cases "section_items config ''resources''")
    case (Inl e)
    with start show ?thesis by (auto simp: make_target_def)
  next
    case (Inr rs)
    obtain r t where m: "for_each (resource_item b w n) (enumerate 0 rs) new_target = (r, t)" by force
    with rs [of rs] have t: "built ?cl (length rs) t" by simp
    show ?thesis
    proof (cases r)
      case Inl
      with Inr m t show ?thesis by (auto simp: make_target_def)
    next
      case r: Inr
      show ?thesis
      proof (cases "section_items config ''drivers''")
        case Inl
        with Inr r m t show ?thesis by (auto simp: make_target_def)
      next
        case (Inr ds')
        with \<open>section_items config ''resources'' = Inr rs\<close> r m ds [OF t, of ds']
        show ?thesis by (auto simp: make_target_def)
      qed
    qed
  qed
  then show ?thesis by (auto simp: built_def)
qed

lemma built_target_ok: "builds cl new_target t \<Longrightarrow> target_ok t"
proof (rule targets.reachable_inv)
  show "target_start new_target"
    by (simp add: target_start_def new_target_def obj_def new_object_def state_of_def)
qed


end
