(* ===== verification/ClientCommands.thy ===== *)
theory ClientCommands
  imports ClientMirror Factory
begin

text \<open>
  The commands of \<^verbatim>\<open>labgrid/remote/client.py\<close> that manage places and reservations: how a place is found
  by a pattern, what a command checks before it calls the coordinator, the call and the
  synchronisation after it. The coordinator is a parameter: a function that answers calls and one that
  says what the pump receives until a synchronisation is answered. Printing is left out; what
  would be listed is returned.
\<close>

section \<open>Finding places\<close>

record person =
  me_host :: string
  me_user :: string
  me_token :: "string option"

datatype client_error = UserError | ServerError | Uncaught py_error | ErrorGroup "client_error list"

definition my_name :: "person \<Rightarrow> string" where
  "my_name me = me_host me @ ''/'' @ me_user me"

text \<open>
  The aliases of a place: \<open>Inl ()\<close> when an alias in the user's namespace is the pattern itself,
  otherwise whether the pattern occurs in one that counts.
\<close>

fun scan_aliases :: "string \<Rightarrow> string \<Rightarrow> string list \<Rightarrow> bool \<Rightarrow> unit + bool" where
  "scan_aliases user pattern [] found = Inr found"
| "scan_aliases user pattern (a # as) found =
     (if CHR '':'' \<in> set a then
        (let namespace = takeWhile (\<lambda>c. c \<noteq> CHR '':'') a; alias = tl (dropWhile (\<lambda>c. c \<noteq> CHR '':'') a) in
         if namespace \<noteq> user then scan_aliases user pattern as found
         else if alias = pattern then Inl ()
         else scan_aliases user pattern as (found \<or> substring pattern alias))
      else scan_aliases user pattern as (found \<or> substring pattern a))"

fun scan_places :: "string \<Rightarrow> string \<Rightarrow> (string, path place) dict \<Rightarrow> string list \<Rightarrow> string list" where
  "scan_places user pattern [] result = result"
| "scan_places user pattern ((name, p) # ps) result =
     (case scan_aliases user pattern (pl_aliases p) (substring pattern name) of
        Inl _ \<Rightarrow> [name]
      | Inr found \<Rightarrow> scan_places user pattern ps (if found then result @ [name] else result))"

definition reserved_places :: "string \<Rightarrow> (string, path place) dict \<Rightarrow> string list" where
  "reserved_places token ps = map fst (filter (\<lambda>(_, p). pl_reservation p = Some token) ps)"

definition match_places :: "person \<Rightarrow> string \<Rightarrow> (string, path place) dict \<Rightarrow> client_error + string list" where
  "match_places me pattern ps =
     (if pattern \<noteq> [] \<and> hd pattern = CHR ''+'' then
        (let token = (if tl pattern \<noteq> [] then Some (tl pattern) else me_token me) in
         if \<not> truthy token then Inr []
         else case reserved_places (the token) ps of
           [] \<Rightarrow> Inl UserError
         | names \<Rightarrow> Inr names)
      else Inr (scan_places (me_user me) pattern ps []))"

text \<open>\<open>place or self.args.place\<close>.\<close>

definition get_place ::
  "person \<Rightarrow> string option \<Rightarrow> string option \<Rightarrow> (string, path place) dict \<Rightarrow> client_error + path place" where
  "get_place me arg fallback ps =
     (case (if truthy arg then arg else fallback) of
        None \<Rightarrow> Inl UserError
      | Some pattern \<Rightarrow>
          and_result (match_places me pattern ps)
            (\<lambda>names.
              if names = [] then Inl UserError
              else if pattern \<in> set names then Inr (the (map_of ps pattern))
              else if 1 < length names then Inl UserError
              else Inr (the (map_of ps (hd names)))))"

text \<open>\<open>host, user = place.acquired.split("/")\<close>.\<close>

definition owner_of :: "string \<Rightarrow> client_error + string \<times> string" where
  "owner_of acquired =
     (case split_on (CHR ''/'') acquired of [h, u] \<Rightarrow> Inr (h, u) | _ \<Rightarrow> Inl (Uncaught ValueError))"

definition check_allowed :: "person \<Rightarrow> path place \<Rightarrow> client_error + unit" where
  "check_allowed me p =
     (case pl_acquired p of
        None \<Rightarrow> Inl UserError
      | Some [] \<Rightarrow> Inl UserError
      | Some acquired \<Rightarrow>
          (if my_name me \<in> set (pl_allowed p) then Inr ()
           else and_result (owner_of acquired)
             (\<lambda>(host, user).
               if user \<noteq> me_user me then Inl UserError
               else if host \<noteq> me_host me then Inl UserError
               else Inr ())))"

definition get_idle_place ::
  "person \<Rightarrow> string option \<Rightarrow> string option \<Rightarrow> (string, path place) dict \<Rightarrow> client_error + path place" where
  "get_idle_place me arg fallback ps =
     and_result (get_place me arg fallback ps)
       (\<lambda>p. if truthy (pl_acquired p) then Inl UserError else Inr p)"

definition get_acquired_place ::
  "person \<Rightarrow> string option \<Rightarrow> string option \<Rightarrow> (string, path place) dict \<Rightarrow> client_error + path place" where
  "get_acquired_place me arg fallback ps =
     and_result (get_place me arg fallback ps) (\<lambda>p. and_result (check_allowed me p) (\<lambda>_. Inr p))"


section \<open>Resources of a place\<close>

text \<open>The entries with their class, in the order of the dictionaries; a deleted entry has no class.\<close>

definition all_entries :: "resource_map \<Rightarrow> (string \<times> string \<times> string \<times> entry_data) list" where
  "all_entries m =
     concat (map (\<lambda>(e, gs). concat (map (\<lambda>(g, rs). map (\<lambda>(n, d). (e, g, n, d)) rs) gs)) m)"

definition entry_path :: "string \<times> string \<times> string \<times> entry_data \<Rightarrow> client_error + path" where
  "entry_path x =
     (case x of (e, g, n, d) \<Rightarrow>
        (case key_of (ed_cls d) of Inl err \<Rightarrow> Inl (Uncaught err) | Inr c \<Rightarrow> Inr (e, g, c, n)))"

definition check_matches :: "resource_map \<Rightarrow> path place \<Rightarrow> client_error + unit" where
  "check_matches m p =
     and_result (map_result entry_path (all_entries m))
       (\<lambda>paths. if unmatched p paths \<noteq> None then Inl UserError else Inr ())"

text \<open>
  The resources of an acquired place, by the name they have for the place and their class.
\<close>

definition target_resource ::
  "resource_map \<Rightarrow> path place \<Rightarrow> path \<Rightarrow> client_error + (string \<times> string) \<times> entry_data" where
  "target_resource m p path =
     (case path of (e, g, c, n) \<Rightarrow>
        (case getmatch p path of
           None \<Rightarrow> Inl (Uncaught AttributeError)
         | Some match \<Rightarrow>
             (let name = (if truthy (rm_rename match) then the (rm_rename match) else n) in
              case resource_at m (e, g, n) of
                None \<Rightarrow> Inl ServerError
              | Some d \<Rightarrow> Inr ((name, c), d))))"

definition get_target_resources ::
  "person \<Rightarrow> resource_map \<Rightarrow> path place \<Rightarrow> client_error + (string \<times> string, entry_data) dict" where
  "get_target_resources me m p =
     and_result (check_allowed me p)
       (\<lambda>_. and_result (map_result (target_resource m p) (pl_acquired_resources p))
         (\<lambda>rs. Inr (dict_update [] rs)))"

definition target_item :: "(string \<times> string) \<times> entry_data \<Rightarrow> client_error + string \<times> (string \<times> pyval) list" where
  "target_item x =
     (case x of ((name, _), d) \<Rightarrow>
        (case key_of (ed_cls d) of
           Inl e \<Rightarrow> Inl (Uncaught e)
         | Inr c \<Rightarrow>
             (case key_of (ed_params d) of
                Inl e \<Rightarrow> Inl (Uncaught e)
              | Inr ps \<Rightarrow>
                  Inr (c, dict_update (if name \<noteq> c then [(''name'', VStr name)] else [])
                         (AList.delete ''extra'' ps)))))"

definition get_target_config ::
  "person \<Rightarrow> resource_map \<Rightarrow> path place \<Rightarrow> client_error + (string \<times> (string \<times> pyval) list) list" where
  "get_target_config me m p =
     and_result (get_target_resources me m p) (map_result target_item)"

text \<open>\<open>_get_places_by_resource\<close>.\<close>

definition places_by_resource :: "(string, path place) dict \<Rightarrow> path \<Rightarrow> path place list" where
  "places_by_resource ps path = filter (\<lambda>p. getmatch p path \<noteq> None) (map snd ps)"

text \<open>What \<open>print_places\<close> lists: all places, the acquired or the free ones.\<close>

definition listed_places :: "bool \<Rightarrow> bool \<Rightarrow> bool \<Rightarrow> (string, path place) dict \<Rightarrow> (string \<times> path place) list" where
  "listed_places by_change acquired released ps =
     filter (\<lambda>(_, p). \<not> (acquired \<and> pl_acquired p = None) \<and> \<not> (released \<and> truthy (pl_acquired p)))
       (if by_change then sort_key (\<lambda>x. pl_changed (snd x)) ps else sort_key fst ps)"


section \<open>Places in the configuration\<close>

definition remote_places :: "pyval \<Rightarrow> factory_error + pyval list" where
  "remote_places role_config =
     and_result (normalize_config role_config)
       (\<lambda>(resources, _). Inr (case map_of resources (VStr ''RemotePlace'') of
          None \<Rightarrow> [] | Some ps \<Rightarrow> map fst ps))"

fun place_names :: "(string \<times> pyval) list \<Rightarrow> factory_error + pyval list" where
  "place_names [] = Inr []"
| "place_names ((role, config) # ts) =
     and_result (remote_places config) (\<lambda>ps. and_result (place_names ts) (\<lambda>qs. Inr (ps @ qs)))"

fun find_role_by_place :: "(string \<times> pyval) list \<Rightarrow> string \<Rightarrow> factory_error + string option" where
  "find_role_by_place [] place = Inr None"
| "find_role_by_place ((role, config) # ts) place =
     and_result (remote_places config)
       (\<lambda>ps. if VStr place \<in> set ps then Inr (Some role) else find_role_by_place ts place)"

fun find_any_role_with_place :: "(string \<times> pyval) list \<Rightarrow> factory_error + (string \<times> pyval) option" where
  "find_any_role_with_place [] = Inr None"
| "find_any_role_with_place ((role, config) # ts) =
     and_result (remote_places config)
       (\<lambda>ps. case ps of p # _ \<Rightarrow> Inr (Some (role, p)) | [] \<Rightarrow> find_any_role_with_place ts)"


section \<open>Calls\<close>

datatype client_request =
    ReqAddPlace string
  | ReqDeletePlace string
  | ReqAddPlaceAlias string string
  | ReqDeletePlaceAlias string string
  | ReqSetPlaceComment string string
  | ReqSetPlaceTags string "(string, string) dict"
  | ReqAddPlaceMatch string string "string option"
  | ReqDeletePlaceMatch string string
  | ReqAcquirePlace string
  | ReqReleasePlace string "string option"
  | ReqAllowPlace string string
  | ReqCreateReservation "(string, string) dict" real
  | ReqCancelReservation string
  | ReqPollReservation string
  | ReqGetReservations

datatype answer = Done | OneReservation pb_reservation | Reservations "pb_reservation list"

text \<open>
  \<open>sv_call\<close> answers a call, with \<open>None\<close> for an \<open>AioRpcError\<close>; \<open>sv_sync\<close> says what the stream
  delivers until the given synchronisation is answered.
\<close>

record 's server =
  sv_call :: "client_request \<Rightarrow> 's \<Rightarrow> answer option \<times> 's"
  sv_sync :: "int \<Rightarrow> 's \<Rightarrow> received list \<times> 's"

record 's client =
  cl_me :: person
  cl_session :: session
  cl_server :: 's

type_synonym ('s, 'a) command = "'s client \<Rightarrow> (client_error, 'a, 's client) outcome"

definition call_coordinator :: "'s server \<Rightarrow> client_request \<Rightarrow> ('s, answer) command" where
  "call_coordinator sv req c =
     (case sv_call sv req (cl_server c) of
        (None, w) \<Rightarrow> (Inl ServerError, c\<lparr>cl_server := w\<rparr>)
      | (Some a, w) \<Rightarrow> (Inr a, c\<lparr>cl_server := w\<rparr>))"

definition sync :: "'s server \<Rightarrow> 's client \<Rightarrow> 's client" where
  "sync sv c =
     (let (n, s) = begin_sync (cl_session c); (rs, w) = sv_sync sv n (cl_server c)
      in c\<lparr>cl_session := pump rs s, cl_server := w\<rparr>)"

text \<open>A call and the synchronisation, whose result no command looks at.\<close>

definition call_and_sync :: "'s server \<Rightarrow> client_request \<Rightarrow> ('s, unit) command" where
  "call_and_sync sv req c = and_then (call_coordinator sv req c) (\<lambda>_ d. (Inr (), sync sv d))"

text \<open>What is computed from the copy before a call.\<close>

definition checked :: "client_error + 'a \<Rightarrow> ('a \<Rightarrow> ('s, 'b) command) \<Rightarrow> ('s, 'b) command" where
  "checked r k c = (case r of Inl e \<Rightarrow> (Inl e, c) | Inr a \<Rightarrow> k a c)"

definition refuse_command :: "client_error \<Rightarrow> ('s, 'a) command" where
  "refuse_command e c = (Inl e, c)"

lemma checked_simps [simp]: "checked (Inl e) k c = (Inl e, c)" "checked (Inr a) k c = k a c"
  by (simp_all add: checked_def)

abbreviation copies :: "'s client \<Rightarrow> (string, path place) dict" where
  "copies c \<equiv> se_places (cl_session c)"

text \<open>The place object of the session, which later messages change.\<close>

definition current :: "'s client \<Rightarrow> path place \<Rightarrow> path place" where
  "current c p = (case map_of (copies c) (pl_name p) of Some q \<Rightarrow> q | None \<Rightarrow> p)"


section \<open>Commands on one place\<close>

definition cmd_add_place :: "'s server \<Rightarrow> string option \<Rightarrow> ('s, unit) command" where
  "cmd_add_place sv arg c =
     (if \<not> truthy arg then (Inl UserError, c) else call_and_sync sv (ReqAddPlace (the arg)) c)"

definition cmd_del_place :: "'s server \<Rightarrow> string option \<Rightarrow> ('s, unit) command" where
  "cmd_del_place sv arg c =
     checked (get_idle_place (cl_me c) None arg (copies c))
       (\<lambda>p. call_and_sync sv (ReqDeletePlace (pl_name p))) c"

definition cmd_add_alias :: "'s server \<Rightarrow> string option \<Rightarrow> string \<Rightarrow> ('s, unit) command" where
  "cmd_add_alias sv arg alias c =
     checked (get_idle_place (cl_me c) None arg (copies c))
       (\<lambda>p. call_and_sync sv (ReqAddPlaceAlias (pl_name p) alias)) c"

definition cmd_del_alias :: "'s server \<Rightarrow> string option \<Rightarrow> string \<Rightarrow> ('s, unit) command" where
  "cmd_del_alias sv arg alias c =
     checked (get_idle_place (cl_me c) None arg (copies c))
       (\<lambda>p. call_and_sync sv (ReqDeletePlaceAlias (pl_name p) alias)) c"

definition cmd_set_comment :: "'s server \<Rightarrow> string option \<Rightarrow> string list \<Rightarrow> ('s, unit) command" where
  "cmd_set_comment sv arg words c =
     checked (get_place (cl_me c) None arg (copies c))
       (\<lambda>p. call_and_sync sv (ReqSetPlaceComment (pl_name p) (join_with '' '' words))) c"

definition parse_pair :: "string \<Rightarrow> client_error + string \<times> string" where
  "parse_pair pair =
     (case split_on (CHR ''='') pair of
        [k, v] \<Rightarrow> (if \<not> tag_key_match k \<or> \<not> tag_val_match v then Inl UserError else Inr (k, v))
      | _ \<Rightarrow> Inl UserError)"

definition parse_tags :: "string list \<Rightarrow> client_error + (string, string) dict" where
  "parse_tags pairs = and_result (map_result parse_pair pairs) (\<lambda>kvs. Inr (dict_update [] kvs))"

definition cmd_set_tags :: "'s server \<Rightarrow> string option \<Rightarrow> string list \<Rightarrow> ('s, unit) command" where
  "cmd_set_tags sv arg pairs c =
     checked (get_place (cl_me c) None arg (copies c))
       (\<lambda>p. checked (parse_tags pairs)
         (\<lambda>tags. call_and_sync sv (ReqSetPlaceTags (pl_name p) tags))) c"

definition valid_pattern :: "string \<Rightarrow> bool" where
  "valid_pattern pattern \<longleftrightarrow> 2 \<le> count_list pattern (CHR ''/'') \<and> count_list pattern (CHR ''/'') \<le> 3"

text \<open>\<open>place.hasmatch(pattern.split("/"))\<close>.\<close>

definition has_pattern :: "path place \<Rightarrow> string \<Rightarrow> bool" where
  "has_pattern p pattern \<longleftrightarrow>
     list_ex (\<lambda>m. rm_ismatch m (split_on (CHR ''/'') pattern) = Inr True) (pl_matches p)"

definition add_pattern :: "'s server \<Rightarrow> path place \<Rightarrow> string \<Rightarrow> ('s, unit) command" where
  "add_pattern sv p pattern c =
     (if \<not> valid_pattern pattern then (Inl UserError, c)
      else if has_pattern (current c p) pattern then (Inr (), c)
      else call_and_sync sv (ReqAddPlaceMatch (pl_name p) pattern None) c)"

definition cmd_add_match :: "'s server \<Rightarrow> string option \<Rightarrow> string list \<Rightarrow> ('s, unit) command" where
  "cmd_add_match sv arg patterns c =
     checked (get_idle_place (cl_me c) None arg (copies c)) (\<lambda>p. for_each (add_pattern sv p) patterns) c"

text \<open>A pattern that is not found is reported as skipped, but the call is made nevertheless.\<close>

definition del_pattern :: "'s server \<Rightarrow> path place \<Rightarrow> string \<Rightarrow> ('s, unit) command" where
  "del_pattern sv p pattern c =
     (if \<not> valid_pattern pattern then (Inl UserError, c)
      else call_and_sync sv (ReqDeletePlaceMatch (pl_name p) pattern) c)"

definition cmd_del_match :: "'s server \<Rightarrow> string option \<Rightarrow> string list \<Rightarrow> ('s, unit) command" where
  "cmd_del_match sv arg patterns c =
     checked (get_idle_place (cl_me c) None arg (copies c)) (\<lambda>p. for_each (del_pattern sv p) patterns) c"

definition cmd_add_named_match :: "'s server \<Rightarrow> string option \<Rightarrow> string \<Rightarrow> string \<Rightarrow> ('s, unit) command" where
  "cmd_add_named_match sv arg pattern name c =
     checked (get_idle_place (cl_me c) None arg (copies c))
       (\<lambda>p. if \<not> valid_pattern pattern \<or> CHR ''*'' \<in> set pattern then refuse_command UserError
            else call_and_sync sv (ReqAddPlaceMatch (pl_name p) pattern (Some name))) c"

text \<open>
  When the coordinator refuses to acquire a place, the entries are searched for the cause, which
  fails for a deleted one.
\<close>

fun blame :: "path place \<Rightarrow> (string \<times> string \<times> string \<times> entry_data) list \<Rightarrow> client_error" where
  "blame p [] = ServerError"
| "blame p (x # xs) =
     (case entry_path x of
        Inl e \<Rightarrow> e
      | Inr _ \<Rightarrow> (case key_of (ed_acquired (snd (snd (snd x)))) of Inl e \<Rightarrow> Uncaught e | Inr _ \<Rightarrow> blame p xs))"

definition cmd_acquire_one :: "'s server \<Rightarrow> bool \<Rightarrow> string option \<Rightarrow> string option \<Rightarrow> ('s, unit) command" where
  "cmd_acquire_one sv allow_unmatched arg name c =
     checked (get_place (cl_me c) name arg (copies c))
       (\<lambda>p. if truthy (pl_acquired p)
            then (case owner_of (the (pl_acquired p)) of Inl e \<Rightarrow> refuse_command e | Inr _ \<Rightarrow> refuse_command UserError)
            else checked (if allow_unmatched then Inr () else check_matches (se_resources (cl_session c)) p)
              (\<lambda>_ c. case call_and_sync sv (ReqAcquirePlace (pl_name p)) c of
                 (Inl e, d) \<Rightarrow> (Inl (blame p (all_entries (se_resources (cl_session d)))), d)
               | (Inr _, d) \<Rightarrow> (Inr (), d))) c"

definition cmd_release_one :: "'s server \<Rightarrow> bool \<Rightarrow> string option \<Rightarrow> string option \<Rightarrow> ('s, unit) command" where
  "cmd_release_one sv kick arg name c =
     checked (get_place (cl_me c) name arg (copies c))
       (\<lambda>p. if \<not> truthy (pl_acquired p) then refuse_command UserError
            else checked (owner_of (the (pl_acquired p)))
              (\<lambda>(_, user). if user \<noteq> me_user (cl_me c) \<and> \<not> kick then refuse_command UserError
                 else call_and_sync sv (ReqReleasePlace (pl_name p) None))) c"

definition cmd_release_from :: "'s server \<Rightarrow> string option \<Rightarrow> string \<Rightarrow> ('s, unit) command" where
  "cmd_release_from sv arg user c =
     checked (get_place (cl_me c) None arg (copies c))
       (\<lambda>p. if \<not> truthy (pl_acquired p) then refuse_command UserError
            else call_and_sync sv (ReqReleasePlace (pl_name p) (Some user))) c"

definition cmd_allow :: "'s server \<Rightarrow> string option \<Rightarrow> string \<Rightarrow> ('s, unit) command" where
  "cmd_allow sv arg user c =
     checked (get_acquired_place (cl_me c) None arg (copies c))
       (\<lambda>p. if CHR ''/'' \<notin> set user then refuse_command UserError
            else call_and_sync sv (ReqAllowPlace (pl_name p) user)) c"


section \<open>Several places\<close>

text \<open>
  \<open>acquire\<close> and \<open>release\<close> go on after an error of their own kind and report all of them.
\<close>

fun own_error :: "client_error \<Rightarrow> bool" where
  "own_error (Uncaught _) = False"
| "own_error (ErrorGroup _) = False"
| "own_error _ = True"

fun each_place ::
  "(string option \<Rightarrow> ('s, unit) command) \<Rightarrow> string option list \<Rightarrow> client_error list \<Rightarrow> ('s, unit) command" where
  "each_place f [] errors c =
     (case errors of
        [] \<Rightarrow> (Inr (), c)
      | [e] \<Rightarrow> (Inl e, c)
      | _ \<Rightarrow> (Inl (ErrorGroup errors), c))"
| "each_place f (p # ps) errors c =
     (case f p c of
        (Inr _, d) \<Rightarrow> each_place f ps errors d
      | (Inl e, d) \<Rightarrow> (if own_error e then each_place f ps (errors @ [e]) d else (Inl e, d)))"

definition cmd_acquire :: "'s server \<Rightarrow> bool \<Rightarrow> string option \<Rightarrow> string option list \<Rightarrow> ('s, unit) command" where
  "cmd_acquire sv allow_unmatched arg places = each_place (cmd_acquire_one sv allow_unmatched arg) places []"

definition cmd_release :: "'s server \<Rightarrow> bool \<Rightarrow> string option \<Rightarrow> string option list \<Rightarrow> ('s, unit) command" where
  "cmd_release sv kick arg places = each_place (cmd_release_one sv kick arg) places []"


section \<open>Reservations\<close>

definition read_reservation :: "answer \<Rightarrow> client_error + reservation" where
  "read_reservation a =
     (case a of
        OneReservation m \<Rightarrow> (case reservation_from_pb2 m of Inl e \<Rightarrow> Inl (Uncaught e) | Inr r \<Rightarrow> Inr r)
      | _ \<Rightarrow> Inl (Uncaught AttributeError))"

text \<open>Polling until the reservation no longer waits, at most \<open>n\<close> times.\<close>

fun wait_reservation :: "'s server \<Rightarrow> nat \<Rightarrow> string \<Rightarrow> 's client \<Rightarrow> (client_error, reservation, 's client) outcome option"
where
  "wait_reservation sv 0 token c = None"
| "wait_reservation sv (Suc n) token c =
     (case and_then (call_coordinator sv (ReqPollReservation token) c) (\<lambda>a. checked (read_reservation a) (\<lambda>r d. (Inr r, d))) of
        (Inl e, d) \<Rightarrow> Some (Inl e, d)
      | (Inr r, d) \<Rightarrow> (if rs_state r = RWaiting then wait_reservation sv n token d else Some (Inr r, d)))"

definition cmd_create_reservation :: "'s server \<Rightarrow> string list \<Rightarrow> real \<Rightarrow> ('s, reservation) command" where
  "cmd_create_reservation sv pairs prio c =
     checked (parse_tags pairs)
       (\<lambda>fltr c. and_then (call_coordinator sv (ReqCreateReservation fltr prio) c)
         (\<lambda>a. checked (read_reservation a) (\<lambda>r d. (Inr r, d)))) c"

definition cmd_cancel_reservation :: "'s server \<Rightarrow> string \<Rightarrow> ('s, unit) command" where
  "cmd_cancel_reservation sv token c = and_then (call_coordinator sv (ReqCancelReservation token) c) (\<lambda>_ d. (Inr (), d))"

definition read_reservations :: "answer \<Rightarrow> client_error + reservation list" where
  "read_reservations a =
     (case a of
        Reservations ms \<Rightarrow>
          (case map_result reservation_from_pb2 ms of Inl e \<Rightarrow> Inl (Uncaught e) | Inr rs \<Rightarrow> Inr rs)
      | _ \<Rightarrow> Inl (Uncaught AttributeError))"

definition cmd_reservations :: "'s server \<Rightarrow> ('s, reservation list) command" where
  "cmd_reservations sv c =
     and_then (call_coordinator sv ReqGetReservations c)
       (\<lambda>a. checked (read_reservations a)
         (\<lambda>rs d. (Inr (sort_key (\<lambda>r. (- rs_prio r, rs_created r)) rs), d)))"


section \<open>Which place a pattern finds\<close>

text \<open>An alias that the user may use, and what is compared with the pattern.\<close>

definition usable_alias :: "string \<Rightarrow> string \<Rightarrow> string option" where
  "usable_alias user a =
     (if CHR '':'' \<notin> set a then Some a
      else if takeWhile (\<lambda>c. c \<noteq> CHR '':'') a = user then Some (tl (dropWhile (\<lambda>c. c \<noteq> CHR '':'') a))
      else None)"

definition own_alias :: "string \<Rightarrow> string \<Rightarrow> path place \<Rightarrow> bool" where
  "own_alias user pattern p \<longleftrightarrow> user @ '':'' @ pattern \<in> set (pl_aliases p)"

definition found_by :: "string \<Rightarrow> string \<Rightarrow> string \<times> path place \<Rightarrow> bool" where
  "found_by user pattern np \<longleftrightarrow> substring pattern (fst np) \<or>
     (\<exists>a \<in> set (pl_aliases (snd np)). \<exists>b. usable_alias user a = Some b \<and> substring pattern b)"

lemma split_colon:
  "CHR '':'' \<in> set a \<Longrightarrow>
   a = takeWhile (\<lambda>c. c \<noteq> CHR '':'') a @ CHR '':'' # tl (dropWhile (\<lambda>c. c \<noteq> CHR '':'') a)"
  by (induction a) auto

lemma colon_split:
  "CHR '':'' \<notin> set u \<Longrightarrow> takeWhile (\<lambda>c. c \<noteq> CHR '':'') (u @ CHR '':'' # b) = u \<and>
   tl (dropWhile (\<lambda>c. c \<noteq> CHR '':'') (u @ CHR '':'' # b)) = b"
  by (induction u) auto

lemma scan_aliases_result:
  assumes "CHR '':'' \<notin> set user"
  shows "scan_aliases user pattern as found =
    (if user @ '':'' @ pattern \<in> set as then Inl ()
     else Inr (found \<or> (\<exists>a \<in> set as. \<exists>b. usable_alias user a = Some b \<and> substring pattern b)))"
proof (induction as arbitrary: found)
  case Nil
  then show ?case by simp
next
  case (Cons a as)
  show ?case
  proof (cases "CHR '':'' \<in> set a")
    case False
    then have "a \<noteq> user @ '':'' @ pattern" by auto
    with False Cons show ?thesis by (simp add: usable_alias_def disj_assoc disj_commute disj_left_commute)
  next
    case True
    let ?u = "takeWhile (\<lambda>c. c \<noteq> CHR '':'') a" and ?b = "tl (dropWhile (\<lambda>c. c \<noteq> CHR '':'') a)"
    have a: "user @ '':'' @ pattern = a \<longleftrightarrow> ?u = user \<and> ?b = pattern"
      using split_colon [OF True] colon_split [OF assms, of pattern] by auto
    consider "?u \<noteq> user" | "?u = user" "?b = pattern" | "?u = user" "?b \<noteq> pattern" by blast
    then show ?thesis
    proof cases
      case 1
      with True have "usable_alias user a = None" by (simp add: usable_alias_def)
      with 1 True Cons a show ?thesis by simp
    next
      case 2
      with True a show ?thesis by (simp add: Let_def)
    next
      case 3
      with True have "usable_alias user a = Some ?b" by (simp add: usable_alias_def)
      with 3 True Cons a show ?thesis by (simp add: Let_def)
    qed
  qed
qed


lemma scan_places_result:
  assumes "CHR '':'' \<notin> set user"
  shows "scan_places user pattern ps result =
    (case find (\<lambda>(_, p). own_alias user pattern p) ps of
       Some (n, _) \<Rightarrow> [n]
     | None \<Rightarrow> result @ map fst (filter (found_by user pattern) ps))"
proof (induction ps arbitrary: result)
  case Nil
  then show ?case by simp
next
  case (Cons np ps)
  obtain n p where np: "np = (n, p)" by (cases np)
  show ?case
  proof (cases "own_alias user pattern p")
    case True
    then show ?thesis using np by (simp add: scan_aliases_result [OF assms] own_alias_def)
  next
    case False
    then have "scan_aliases user pattern (pl_aliases p) (substring pattern n) = Inr (found_by user pattern (n, p))"
      by (simp add: scan_aliases_result [OF assms] own_alias_def found_by_def)
    with False Cons show ?thesis unfolding np
      by (cases "found_by user pattern (n, p)") (simp_all split: option.split)
  qed
qed

lemma substring_refl: "substring s s"
  by (cases s) simp_all

text \<open>
  Looking for a place by a pattern that is no reservation token: a place with the pattern as an
  alias in the user's own namespace comes first, then the place of that name, then the only
  place in whose name or in one of whose usable aliases the pattern occurs; nothing else is found.
\<close>

lemma get_place_finds:
  assumes "dict_wf ps" and "CHR '':'' \<notin> set (me_user me)" and "take 1 pattern \<noteq> ''+''"
  shows "get_place me None (Some pattern) ps =
    (case find (\<lambda>(_, p). own_alias (me_user me) pattern p) ps of
       Some (_, p) \<Rightarrow> Inr p
     | None \<Rightarrow>
         (case map_of ps pattern of
            Some p \<Rightarrow> Inr p
          | None \<Rightarrow>
              (case filter (found_by (me_user me) pattern) ps of
                 [(_, p)] \<Rightarrow> Inr p
               | _ \<Rightarrow> Inl UserError)))"
proof -
  let ?names = "scan_places (me_user me) pattern ps []"
  have m: "match_places me pattern ps = Inr ?names"
    using assms(3) by (cases pattern) (simp_all add: match_places_def)
  have at: "(n, p) \<in> set ps \<Longrightarrow> map_of ps n = Some p" for n p
    using assms(1) by simp
  show ?thesis
  proof (cases "find (\<lambda>(_, p). own_alias (me_user me) pattern p) ps")
    case (Some np)
    obtain n p where np: "np = (n, p)" by (cases np)
    with Some have "(n, p) \<in> set ps" using find_SomeD by fastforce
    with at Some np m show ?thesis
      by (auto simp: get_place_def scan_places_result [OF assms(2)])
  next
    case None
    then have names: "?names = map fst (filter (found_by (me_user me) pattern) ps)"
      by (simp add: scan_places_result [OF assms(2)])
    show ?thesis
    proof (cases "map_of ps pattern")
      case (Some p)
      then have "(pattern, p) \<in> set (filter (found_by (me_user me) pattern) ps)"
        by (simp add: map_of_SomeD found_by_def substring_refl)
      then have "pattern \<in> set ?names" unfolding names by force
      with None Some m show ?thesis by (auto simp: get_place_def)
    next
      case no: None
      then have p: "pattern \<notin> set ?names" unfolding names by (auto simp: map_of_eq_None_iff)
      show ?thesis
      proof (cases "filter (found_by (me_user me) pattern) ps")
        case Nil
        with None no m names show ?thesis by (simp add: get_place_def)
      next
        case (Cons np nps)
        obtain n q where np: "np = (n, q)" by (cases np)
        have "np \<in> set (filter (found_by (me_user me) pattern) ps)" unfolding Cons by simp
        then have "map_of ps n = Some q" using at np by simp
        with None no m p names Cons np show ?thesis by (cases nps) (simp_all add: get_place_def)
      qed
    qed
  qed
qed


definition lab :: "(string, path place) dict" where
  "lab = [(''board-a'', (new_place 0 ''board-a'')\<lparr>pl_aliases := [''me:board'', ''x'']\<rparr>),
     (''board-b'', (new_place 0 ''board-b'')\<lparr>pl_aliases := [''you:x'', ''you:me:board'']\<rparr>)]"

theorem get_place_finds_witness:
  "get_place \<lparr>me_host = ''h'', me_user = ''me'', me_token = None\<rparr> None (Some ''board'') lab = Inr (snd (lab ! 0)) \<and>
   get_place \<lparr>me_host = ''h'', me_user = ''you'', me_token = None\<rparr> None (Some ''board'') lab = Inl UserError"
proof -
  have l: "dict_wf lab" by code_simp
  have "find (\<lambda>(_, p). own_alias ''me'' ''board'' p) lab = Some (''board-a'', snd (lab ! 0))"
    "find (\<lambda>(_, p). own_alias ''you'' ''board'' p) lab = None" "map_of lab ''board'' = None"
    by (simp_all add: lab_def own_alias_def new_place_def)
  moreover have "length (filter (found_by ''you'' ''board'') lab) = 2"
    by (simp add: lab_def found_by_def)
  then obtain x y where "filter (found_by ''you'' ''board'') lab = [x, y]"
    by (auto simp: numeral_2_eq_2 length_Suc_conv)
  ultimately show ?thesis
    using get_place_finds [OF l, of "\<lparr>me_host = ''h'', me_user = ''me'', me_token = None\<rparr>" "''board''"]
      get_place_finds [OF l, of "\<lparr>me_host = ''h'', me_user = ''you'', me_token = None\<rparr>" "''board''"]
    by simp
qed


section \<open>What is sent, and when\<close>

text \<open>A coordinator together with the calls that reached it.\<close>

definition recording :: "'s server \<Rightarrow> ('s \<times> client_request list) server" where
  "recording sv =
     \<lparr>sv_call = (\<lambda>req (w, log). case sv_call sv req w of (a, w') \<Rightarrow> (a, (w', log @ [req]))),
      sv_sync = (\<lambda>n (w, log). case sv_sync sv n w of (rs, w') \<Rightarrow> (rs, (w', log)))\<rparr>"

abbreviation sent :: "('s \<times> client_request list) client \<Rightarrow> client_request list" where
  "sent c \<equiv> snd (cl_server c)"

lemma call_coordinator_sent: "sent (snd (call_coordinator (recording sv) req c)) = sent c @ [req]"
  by (cases "cl_server c") (simp add: call_coordinator_def recording_def split: prod.split option.split)

lemma sync_sent: "sent (sync (recording sv) c) = sent c"
  by (cases "cl_server c") (simp add: sync_def recording_def begin_sync_def split: prod.split)

lemma call_and_sync_sent: "sent (snd (call_and_sync (recording sv) req c)) = sent c @ [req]"
proof -
  obtain r d where d: "call_coordinator (recording sv) req c = (r, d)" by force
  with call_coordinator_sent [of sv req c] have "sent d = sent c @ [req]" by simp
  with d show ?thesis by (cases r) (simp_all add: call_and_sync_def sync_sent)
qed

lemma owner_of_Inr: "owner_of a = Inr (h, u) \<Longrightarrow> a = h @ ''/'' @ u"
proof -
  assume "owner_of a = Inr (h, u)"
  then have "split_on (CHR ''/'') a = [h, u]" by (auto simp: owner_of_def split: list.splits)
  with join_split [of "CHR ''/''" a] show ?thesis by simp
qed

definition held_by_user :: "path place \<Rightarrow> string \<Rightarrow> string \<Rightarrow> bool" where
  "held_by_user p host user \<longleftrightarrow> pl_acquired p = Some (host @ ''/'' @ user)"

text \<open>Nothing is sent, or one call about a place that satisfies a condition.\<close>

definition sends ::
  "('s \<times> client_request list) client \<Rightarrow> ('s \<times> client_request list) client \<Rightarrow> client_error + path place \<Rightarrow>
   (path place \<Rightarrow> bool) \<Rightarrow> (string \<Rightarrow> client_request) \<Rightarrow> bool" where
  "sends c d found ok req \<longleftrightarrow>
     sent d = sent c \<or> (\<exists>p. found = Inr p \<and> ok p \<and> sent d = sent c @ [req (pl_name p)])"

lemma acquire_sends:
  "sends c (snd (cmd_acquire_one (recording sv) unmatched_ok arg name c)) (get_place (cl_me c) name arg (copies c))
     (\<lambda>p. \<not> truthy (pl_acquired p) \<and>
        (unmatched_ok \<or> check_matches (se_resources (cl_session c)) p = Inr ())) ReqAcquirePlace"
proof (cases "get_place (cl_me c) name arg (copies c)")
  case (Inl e)
  then show ?thesis by (simp add: cmd_acquire_one_def sends_def)
next
  case (Inr p)
  show ?thesis
  proof (cases "truthy (pl_acquired p)")
    case True
    with Inr show ?thesis by (auto simp: cmd_acquire_one_def sends_def refuse_command_def split: sum.split)
  next
    case False
    have "sent (snd (call_and_sync (recording sv) (ReqAcquirePlace (pl_name p)) c)) = sent c @ [ReqAcquirePlace (pl_name p)]"
      by (rule call_and_sync_sent)
    with Inr False show ?thesis
      by (cases "check_matches (se_resources (cl_session c)) p")
        (auto simp: cmd_acquire_one_def sends_def checked_def split: prod.split sum.split)
  qed
qed

lemma release_sends:
  "sends c (snd (cmd_release_one (recording sv) kick arg name c)) (get_place (cl_me c) name arg (copies c))
     (\<lambda>p. \<exists>host user. held_by_user p host user \<and> (kick \<or> user = me_user (cl_me c))) (\<lambda>n. ReqReleasePlace n None)"
proof (cases "get_place (cl_me c) name arg (copies c)")
  case (Inl e)
  then show ?thesis by (simp add: cmd_release_one_def sends_def)
next
  case (Inr p)
  show ?thesis
  proof (cases "truthy (pl_acquired p)")
    case False
    with Inr show ?thesis by (simp add: cmd_release_one_def sends_def refuse_command_def)
  next
    case True
    then obtain a where a: "pl_acquired p = Some a" by (cases "pl_acquired p") simp_all
    show ?thesis
    proof (cases "owner_of a")
      case (Inl e)
      with Inr True a show ?thesis by (simp add: cmd_release_one_def sends_def)
    next
      case (Inr hu)
      obtain h u where hu: "hu = (h, u)" by (cases hu)
      with owner_of_Inr Inr have "held_by_user p h u" by (simp add: held_by_user_def a)
      with \<open>get_place (cl_me c) name arg (copies c) = Inr p\<close> True a Inr hu show ?thesis
        by (auto simp: cmd_release_one_def sends_def refuse_command_def call_and_sync_sent)
    qed
  qed
qed

lemma check_allowed_Inr:
  "check_allowed me p = Inr () \<Longrightarrow> pl_acquired p \<noteq> None \<and>
     (my_name me \<in> set (pl_allowed p) \<or> held_by_user p (me_host me) (me_user me))"
  by (auto simp: check_allowed_def held_by_user_def and_result_Inr split: option.splits list.splits if_splits
      dest!: owner_of_Inr)

lemma allow_sends:
  "sends c (snd (cmd_allow (recording sv) arg user c)) (get_place (cl_me c) None arg (copies c))
     (\<lambda>p. pl_acquired p \<noteq> None \<and>
        (my_name (cl_me c) \<in> set (pl_allowed p) \<or> held_by_user p (me_host (cl_me c)) (me_user (cl_me c))))
     (\<lambda>n. ReqAllowPlace n user)"
proof (cases "get_acquired_place (cl_me c) None arg (copies c)")
  case (Inl e)
  then show ?thesis by (simp add: cmd_allow_def sends_def)
next
  case (Inr p)
  then have p: "get_place (cl_me c) None arg (copies c) = Inr p" "check_allowed (cl_me c) p = Inr ()"
    by (auto simp: get_acquired_place_def and_result_Inr)
  from Inr show ?thesis using p(1) check_allowed_Inr [OF p(2)]
    by (auto simp: cmd_allow_def sends_def refuse_command_def call_and_sync_sent)
qed

lemma delete_sends:
  "sends c (snd (cmd_del_place (recording sv) arg c)) (get_place (cl_me c) None arg (copies c))
     (\<lambda>p. \<not> truthy (pl_acquired p)) ReqDeletePlace"
proof (cases "get_idle_place (cl_me c) None arg (copies c)")
  case (Inl e)
  then show ?thesis by (simp add: cmd_del_place_def sends_def)
next
  case (Inr p)
  then have "get_place (cl_me c) None arg (copies c) = Inr p" "\<not> truthy (pl_acquired p)"
    by (auto simp: get_idle_place_def and_result_Inr split: if_splits)
  with Inr show ?thesis by (simp add: cmd_del_place_def sends_def call_and_sync_sent)
qed

text \<open>
  As far as the client knows: it asks to acquire only a free place all of whose matches have a resource
  (unless told not to check), to release only a place of its own user (unless told to kick), to allow
  others only on a place it holds or shares, and to delete only a free place; every command
  sends at most this one call.
\<close>

lemma commands_check_first:
  "sends c (snd (cmd_acquire_one (recording sv) False arg name c)) (get_place (cl_me c) name arg (copies c))
     (\<lambda>p. \<not> truthy (pl_acquired p) \<and> check_matches (se_resources (cl_session c)) p = Inr ()) ReqAcquirePlace \<and>
   sends c (snd (cmd_release_one (recording sv) False arg name c)) (get_place (cl_me c) name arg (copies c))
     (\<lambda>p. \<exists>host. held_by_user p host (me_user (cl_me c))) (\<lambda>n. ReqReleasePlace n None) \<and>
   sends c (snd (cmd_allow (recording sv) arg user c)) (get_place (cl_me c) None arg (copies c))
     (\<lambda>p. pl_acquired p \<noteq> None \<and>
        (my_name (cl_me c) \<in> set (pl_allowed p) \<or> held_by_user p (me_host (cl_me c)) (me_user (cl_me c))))
     (\<lambda>n. ReqAllowPlace n user) \<and>
   sends c (snd (cmd_del_place (recording sv) arg c)) (get_place (cl_me c) None arg (copies c))
     (\<lambda>p. \<not> truthy (pl_acquired p)) ReqDeletePlace"
  using acquire_sends [of c sv False arg name] release_sends [of c sv False arg name]
    allow_sends [of c sv arg user] delete_sends [of c sv arg]
  by simp


section \<open>Behaviour that surprises\<close>

text \<open>Deleting a pattern that the place does not have is reported as skipped, but sent.\<close>

lemma missing_pattern_deleted:
  "valid_pattern pattern \<Longrightarrow> \<not> has_pattern (current c p) pattern \<Longrightarrow>
   sent (snd (del_pattern (recording sv) p pattern c)) = sent c @ [ReqDeletePlaceMatch (pl_name p) pattern]"
  by (simp add: del_pattern_def call_and_sync_sent)

text \<open>
  A resource that the coordinator has deleted stays in the copy without a class, so that the check of
  the matches of any place raises a \<open>KeyError\<close>.
\<close>

lemma deleted_resource_breaks_check:
  assumes "se_resources s = [(e, [(g, [(n, d)])])]"
  shows "check_matches (se_resources (snd (on_update (WireDelResource e g n) s))) p = Inl (Uncaught KeyError)"
  using assms
  by (simp add: on_resource_changed_def lookup_group_def put_group_def Let_def check_matches_def
      all_entries_def entry_path_def empty_data_def key_of_def)

end
