(* ===== verification/Exporter.thy ===== *)
theory Exporter
  imports Common
begin

text \<open>
  \<^verbatim>\<open>labgrid/remote/exporter.py\<close>: the export classes with their start and stop hooks and parameters,
  the life cycle of an exported resource (poll, acquire, release, broken), and the exporter that
  answers the coordinator's requests. The local resource is outside: an operation is given what it
  reports when it is polled, and how the hooks of that operation end.
\<close>

section \<open>Export classes\<close>

datatype export_class =
    ResourceEntryClass
  | SerialPortExport
  | NetworkInterfaceExport
  | USBGenericExport
  | USBGenericRemoteExport
  | USBSigrokExport
  | USBSDMuxExport
  | USBSDWireExport
  | USBSDWire3Export
  | USBAudioInputExport
  | SiSPMPowerPortExport
  | USBPowerPortExport
  | USBDeditecRelaisExport
  | USBHIDRelayExport
  | USBFTDIGPIOExport
  | USBFlashableExport
  | ProviderGenericExport
  | EthernetPortExport
  | GPIOSysFSExport
  | NetworkServiceExport
  | HTTPVideoStreamExport
  | LXAIOBusNodeExport
  | AndroidNetFastbootExport
  | YKUSHPowerPortExport

text \<open>The table \<open>exports\<close>; \<open>exports.get(cls, ResourceEntry)\<close> for a class without an entry.\<close>

definition exports :: "(string, export_class) dict" where
  "exports =
     [(''USBSerialPort'', SerialPortExport), (''RawSerialPort'', SerialPortExport),
      (''USBNetworkInterface'', NetworkInterfaceExport), (''NetworkInterface'', NetworkInterfaceExport),
      (''AndroidFastboot'', USBGenericExport), (''AndroidUSBFastboot'', USBGenericRemoteExport),
      (''DFUDevice'', USBGenericExport), (''IMXUSBLoader'', USBGenericExport),
      (''MXSUSBLoader'', USBGenericExport), (''RKUSBLoader'', USBGenericExport),
      (''AlteraUSBBlaster'', USBGenericExport), (''SigrokUSBDevice'', USBSigrokExport),
      (''SigrokUSBSerialDevice'', USBSigrokExport), (''USBSDMuxDevice'', USBSDMuxExport),
      (''USBSDWireDevice'', USBSDWireExport), (''USBSDWire3Device'', USBSDWire3Export),
      (''USBDebugger'', USBGenericExport), (''USBHub'', USBGenericRemoteExport),
      (''USBMassStorage'', USBGenericExport), (''USBVideo'', USBGenericExport),
      (''USBAudioInput'', USBAudioInputExport), (''USBTMC'', USBGenericExport),
      (''SiSPMPowerPort'', SiSPMPowerPortExport), (''USBPowerPort'', USBPowerPortExport),
      (''DeditecRelais8'', USBDeditecRelaisExport), (''HIDRelay'', USBHIDRelayExport),
      (''FTDIGPIO'', USBFTDIGPIOExport), (''USBFlashableDevice'', USBFlashableExport),
      (''LXAUSBMux'', USBGenericExport), (''TFTPProvider'', ProviderGenericExport),
      (''NFSProvider'', ProviderGenericExport), (''HTTPProvider'', ProviderGenericExport),
      (''SNMPEthernetPort'', EthernetPortExport), (''SysfsGPIO'', GPIOSysFSExport),
      (''MatchedSysfsGPIO'', GPIOSysFSExport), (''NetworkService'', NetworkServiceExport),
      (''HTTPVideoStream'', HTTPVideoStreamExport), (''LXAIOBusPIO'', LXAIOBusNodeExport),
      (''AndroidNetFastboot'', AndroidNetFastbootExport), (''YKUSHPowerPort'', YKUSHPowerPortExport)]"

definition export_class_of :: "string \<Rightarrow> export_class" where
  "export_class_of cls =
     (case map_of exports cls of None \<Rightarrow> ResourceEntryClass | Some c \<Rightarrow> c)"

text \<open>\<open>s.replace(sub, "")\<close> for a nonempty \<open>sub\<close>.\<close>

function remove_all :: "string \<Rightarrow> string \<Rightarrow> string" where
  "remove_all sub [] = []"
| "remove_all sub (c # cs) =
     (if sub \<noteq> [] \<and> take (length sub) (c # cs) = sub then remove_all sub (drop (length sub) (c # cs))
      else c # remove_all sub cs)"
  by pat_completeness auto
termination
  by (relation "measure (\<lambda>(sub, s). length s)") (auto simp: drop_Cons split: nat.split)

text \<open>The class name that \<open>__attrs_post_init__\<close> writes over \<open>data["cls"]\<close>.\<close>

fun exported_cls :: "export_class \<Rightarrow> string \<Rightarrow> string" where
  "exported_cls SerialPortExport cls = ''NetworkSerialPort''"
| "exported_cls NetworkInterfaceExport cls = ''RemoteNetworkInterface''"
| "exported_cls USBGenericRemoteExport cls =
     remove_all ''Network'' (''Remote'' @ (''Network'' @ cls))"
| "exported_cls ProviderGenericExport cls = ''Remote'' @ cls"
| "exported_cls EthernetPortExport cls = ''EthernetPort''"
| "exported_cls GPIOSysFSExport cls = ''NetworkSysfsGPIO''"
| "exported_cls NetworkServiceExport cls = ''NetworkService''"
| "exported_cls HTTPVideoStreamExport cls = ''HTTPVideoStream''"
| "exported_cls AndroidNetFastbootExport cls = ''Remote'' @ cls"
| "exported_cls ResourceEntryClass cls = cls"
| "exported_cls _ cls = ''Network'' @ cls"


section \<open>State of an export\<close>

text \<open>What the local resource reports: its availability and its attributes.\<close>

record local_state =
  lo_avail :: bool
  lo_attr :: "string \<Rightarrow> pyval"

type_synonym params = "(string \<times> pyval) list"

record export =
  ex_class :: export_class
  ex_entry :: resource_entry
  ex_host :: string
  ex_proxy :: string
  ex_proxy_required :: bool
  ex_local :: local_state
  ex_local_params :: params
  ex_start_params :: "params option"
  ex_broken :: "string option"
  ex_ser2net :: string
  ex_port :: pyval
  ex_child :: "string list option"
  ex_system_exported :: bool
  ex_written :: "(string \<times> pyval) list"

text \<open>
  A running \<^verbatim>\<open>ser2net\<close> is its command line, and \<open>ex_written\<close> lists what was written to the files
  below \<^verbatim>\<open>/sys/class/gpio\<close>. How the outside world answers during one operation: what the local
  resource reports, and for the hooks the free port, the version that \<^verbatim>\<open>ser2net -v\<close> prints (\<open>None\<close>
  when it cannot be run or read) with its return code, whether \<^verbatim>\<open>ser2net\<close> exits within half a
  second, whether the GPIO is there already, and whether writing the export file and ending the
  process (or writing the unexport file) works.
\<close>

record outside =
  ou_local :: local_state
  ou_free_port :: int
  ou_version :: "nat list option"
  ou_returncode :: int
  ou_child_exits :: bool
  ou_path_exists :: bool
  ou_write_ok :: bool
  ou_stop_ok :: bool

datatype export_error =
    BrokenResource string
  | InvalidRequest string
  | UnknownResource string
  | HookFailed
  | Assertion
  | BadValue py_error


section \<open>Parameters\<close>

text \<open>The attributes that the classes for USB devices copy, after \<open>host\<close>.\<close>

definition usb_common :: "string list" where
  "usb_common = [''busnum'', ''devnum'', ''path'', ''vendor_id'', ''model_id'']"

definition sigrok_attrs :: "string list" where
  "sigrok_attrs = usb_common @ [''driver'', ''channels'', ''channel_group'']"

definition sdmux_attrs :: "string list" where
  "sdmux_attrs = usb_common @ [''control_path'']"

definition sdwire_attrs :: "string list" where
  "sdwire_attrs = usb_common @ [''control_serial'']"

definition sdwire3_attrs :: "string list" where
  "sdwire3_attrs = usb_common @ [''control_serial'']"

definition audio_attrs :: "string list" where
  "audio_attrs = usb_common @ [''index'', ''alsa_name'']"

definition sispm_attrs :: "string list" where
  "sispm_attrs = usb_common @ [''index'']"

definition usbpower_attrs :: "string list" where
  "usbpower_attrs = usb_common @ [''index'']"

definition deditec_attrs :: "string list" where
  "deditec_attrs = usb_common @ [''index'', ''invert'']"

definition hidrelay_attrs :: "string list" where
  "hidrelay_attrs = usb_common @ [''index'', ''invert'']"

definition ftdigpio_attrs :: "string list" where
  "ftdigpio_attrs = usb_common @ [''index'', ''interface'', ''invert'']"

definition flashable_attrs :: "string list" where
  "flashable_attrs = usb_common @ [''devnode'']"

lemmas attrs_defs = usb_common_def sigrok_attrs_def sdmux_attrs_def sdwire_attrs_def
  sdwire3_attrs_def audio_attrs_def sispm_attrs_def usbpower_attrs_def deditec_attrs_def
  hidrelay_attrs_def ftdigpio_attrs_def flashable_attrs_def

fun copied_attrs :: "export_class \<Rightarrow> string list" where
  "copied_attrs USBSigrokExport = sigrok_attrs"
| "copied_attrs USBSDMuxExport = sdmux_attrs"
| "copied_attrs USBSDWireExport = sdwire_attrs"
| "copied_attrs USBSDWire3Export = sdwire3_attrs"
| "copied_attrs USBAudioInputExport = audio_attrs"
| "copied_attrs SiSPMPowerPortExport = sispm_attrs"
| "copied_attrs USBPowerPortExport = usbpower_attrs"
| "copied_attrs USBDeditecRelaisExport = deditec_attrs"
| "copied_attrs USBHIDRelayExport = hidrelay_attrs"
| "copied_attrs USBFTDIGPIOExport = ftdigpio_attrs"
| "copied_attrs USBFlashableExport = flashable_attrs"
| "copied_attrs _ = usb_common"

definition attr_items :: "export \<Rightarrow> string list \<Rightarrow> params" where
  "attr_items x names = map (\<lambda>a. (a, lo_attr (ex_local x) a)) names"

text \<open>\<open>_get_params\<close> of the classes; \<open>usb_params\<close> is that of all classes for USB devices.\<close>

definition usb_params :: "export \<Rightarrow> params" where
  "usb_params x = (''host'', VStr (ex_host x)) # attr_items x (copied_attrs (ex_class x))"

definition serial_params :: "export \<Rightarrow> params" where
  "serial_params x =
     [(''host'', VStr (ex_host x)), (''port'', ex_port x),
      (''speed'', lo_attr (ex_local x) ''speed''),
      (''extra'', VDict [(''path'', lo_attr (ex_local x) ''port'')])]"

definition interface_params :: "export \<Rightarrow> params" where
  "interface_params x =
     [(''host'', VStr (ex_host x)), (''ifname'', lo_attr (ex_local x) ''ifname'')] @
     (if re_cls (ex_entry x) = ''USBNetworkInterface''
      then [(''extra'', VDict [(''state'', lo_attr (ex_local x) ''if_state'')])] else [])"

definition provider_params :: "export \<Rightarrow> params" where
  "provider_params x = (''host'', VStr (ex_host x)) # attr_items x [''internal'', ''external'']"

definition ethernet_params :: "export \<Rightarrow> params" where
  "ethernet_params x = attr_items x [''switch'', ''interface'', ''extra'']"

definition gpio_params :: "export \<Rightarrow> params" where
  "gpio_params x = (''host'', VStr (ex_host x)) # attr_items x [''index'', ''invert'']"

definition service_params :: "export \<Rightarrow> params" where
  "service_params x =
     (case map_of (ex_local_params x) ''username'' of
        None \<Rightarrow> AList.update ''username'' (VStr []) (ex_local_params x)
      | Some VNone \<Rightarrow> AList.update ''username'' (VStr []) (ex_local_params x)
      | Some _ \<Rightarrow> ex_local_params x)"

definition video_params :: "export \<Rightarrow> params" where
  "video_params x = ex_local_params x"

definition lxaiobus_params :: "export \<Rightarrow> params" where
  "lxaiobus_params x = ex_local_params x"

definition fastboot_params :: "export \<Rightarrow> params" where
  "fastboot_params x = dict_update [(''host'', VStr (ex_host x))] (ex_local_params x)"

definition ykush_params :: "export \<Rightarrow> params" where
  "ykush_params x = dict_update [(''host'', VStr (ex_host x))] (ex_local_params x)"

lemmas params_defs = usb_params_def serial_params_def interface_params_def provider_params_def
  ethernet_params_def gpio_params_def service_params_def video_params_def lxaiobus_params_def
  fastboot_params_def ykush_params_def attr_items_def

definition get_params :: "export \<Rightarrow> params" where
  "get_params x =
     (case ex_class x of
        SerialPortExport \<Rightarrow> serial_params x
      | NetworkInterfaceExport \<Rightarrow> interface_params x
      | ProviderGenericExport \<Rightarrow> provider_params x
      | EthernetPortExport \<Rightarrow> ethernet_params x
      | GPIOSysFSExport \<Rightarrow> gpio_params x
      | NetworkServiceExport \<Rightarrow> service_params x
      | HTTPVideoStreamExport \<Rightarrow> video_params x
      | LXAIOBusNodeExport \<Rightarrow> lxaiobus_params x
      | AndroidNetFastbootExport \<Rightarrow> fastboot_params x
      | YKUSHPowerPortExport \<Rightarrow> ykush_params x
      | ResourceEntryClass \<Rightarrow> []
      | _ \<Rightarrow> usb_params x)"

definition get_start_params :: "export \<Rightarrow> params" where
  "get_start_params x =
     (case ex_class x of
        SerialPortExport \<Rightarrow> [(''path'', lo_attr (ex_local x) ''port'')]
      | GPIOSysFSExport \<Rightarrow> attr_items x [''index'', ''invert'']
      | _ \<Rightarrow> [])"

section \<open>Creating an export\<close>

text \<open>
  \<open>made\<close> is the local resource, or \<open>None\<close> when its class refuses the parameters. The parameters move
  to \<open>local_params\<close>, and only a network service looks at one of them: an interface suffix in the
  address makes the proxy required.
\<close>

definition needs_proxy :: "export_class \<Rightarrow> params \<Rightarrow> py_error + bool" where
  "needs_proxy c ps =
     (if c \<noteq> NetworkServiceExport then Inr False
      else case map_of ps ''address'' of
             None \<Rightarrow> Inl KeyError
           | Some (VStr a) \<Rightarrow> Inr (CHR ''%'' \<in> set a)
           | Some _ \<Rightarrow> Inl TypeError)"

definition export_init ::
  "local_state option \<Rightarrow> string \<Rightarrow> export_class \<Rightarrow> string \<Rightarrow> params \<Rightarrow> string \<Rightarrow> string \<Rightarrow> bool \<Rightarrow>
   export_error + export" where
  "export_init made ser2net c cls ps host proxy proxy_required =
     (case made of
        None \<Rightarrow> Inl (BadValue TypeError)
      | Some l \<Rightarrow>
          (case needs_proxy c ps of
             Inl e \<Rightarrow> Inl (BadValue e)
           | Inr required \<Rightarrow>
               Inr \<lparr>ex_class = c,
                    ex_entry = \<lparr>re_cls = exported_cls c cls, re_params = [], re_acquired = None,
                                re_avail = False\<rparr>,
                    ex_host = host, ex_proxy = proxy,
                    ex_proxy_required = (proxy_required \<or> required),
                    ex_local = l, ex_local_params = ps, ex_start_params = None, ex_broken = None,
                    ex_ser2net = ser2net, ex_port = VNone, ex_child = None,
                    ex_system_exported = False, ex_written = []\<rparr>))"


section \<open>Starting and stopping\<close>

definition ser2net_quirks :: "nat list list" where
  "ser2net_quirks = [[4, 4, 0], [4, 5, 0], [4, 5, 1], [4, 6, 0], [4, 6, 1]]"

definition ser2net_command :: "string \<Rightarrow> nat list \<Rightarrow> int \<Rightarrow> string \<Rightarrow> int \<Rightarrow> string list" where
  "ser2net_command bin version port path speed =
     (if [4, 2, 0] \<le> version
      then [bin, ''-d'', ''-n'', ''-Y'',
            ''connection: &con01#  accepter: telnet(rfc2217,mode=server),tcp,'' @ show_int port,
            ''-Y'',
            ''  connector: serialdev(nouucplock=true),'' @ path @ '','' @ show_int speed @ ''n81,local'',
            ''-Y'', ''  options:'', ''-Y'', ''    max-connections: 10'']
      else [bin, ''-d'', ''-n'', ''-u'', ''-C'',
            show_int port @ '':telnet:0:'' @ path @ '':'' @ show_int speed @
            '' NONE 8DATABITS 1STOPBIT LOCAL''])"

text \<open>\<open>_start\<close> and \<open>_stop\<close>. The speed of a serial port is an \<open>int\<close> by its validator.\<close>

definition start_serial :: "outside \<Rightarrow> params \<Rightarrow> export \<Rightarrow> (export_error, unit, export) outcome" where
  "start_serial ou sp x =
     (if \<not> lo_avail (ex_local x) then (Inl Assertion, x)
      else if ex_child x \<noteq> None then (Inl Assertion, x)
      else case map_of sp ''path'' of
        Some (VStr path) \<Rightarrow>
          (if take 5 path \<noteq> ''/dev/'' then (Inl Assertion, x)
           else let y = x\<lparr>ex_port := VInt (ou_free_port ou)\<rparr> in
             case ou_version ou of
               None \<Rightarrow> (Inl HookFailed, y)
             | Some version \<Rightarrow>
                 (if version \<notin> set ser2net_quirks \<and> ou_returncode ou = 1 then (Inl HookFailed, y)
                  else case lo_attr (ex_local x) ''speed'' of
                    VInt speed \<Rightarrow>
                      (let z = y\<lparr>ex_child := Some (ser2net_command (ex_ser2net x) version
                                   (ou_free_port ou) path speed)\<rparr> in
                       if ou_child_exits ou then (Inl HookFailed, z) else (Inr (), z))
                  | _ \<Rightarrow> (Inl HookFailed, y)))
      | _ \<Rightarrow> (Inl (BadValue AttributeError), x))"

definition stop_serial :: "outside \<Rightarrow> export \<Rightarrow> (export_error, unit, export) outcome" where
  "stop_serial ou x =
     (if ex_child x = None then (Inl Assertion, x)
      else let y = x\<lparr>ex_child := None, ex_port := VNone\<rparr> in
        if ou_stop_ok ou then (Inr (), y) else (Inl HookFailed, y))"

definition write_gpio ::
  "bool \<Rightarrow> string \<Rightarrow> params \<Rightarrow> export \<Rightarrow> (export_error, unit, export) outcome" where
  "write_gpio ok path sp x =
     (case map_of sp ''index'' of
        None \<Rightarrow> (Inl (BadValue KeyError), x)
      | Some index \<Rightarrow>
          (if ok then (Inr (), x\<lparr>ex_written := ex_written x @ [(path, index)]\<rparr>)
           else (Inl HookFailed, x)))"

definition start_gpio :: "outside \<Rightarrow> params \<Rightarrow> export \<Rightarrow> (export_error, unit, export) outcome" where
  "start_gpio ou sp x =
     (if ou_path_exists ou then (Inr (), x\<lparr>ex_system_exported := True\<rparr>)
      else write_gpio (ou_write_ok ou) ''/sys/class/gpio/export'' sp x)"

definition stop_gpio :: "outside \<Rightarrow> params \<Rightarrow> export \<Rightarrow> (export_error, unit, export) outcome" where
  "stop_gpio ou sp x =
     (if ex_system_exported x then (Inr (), x)
      else write_gpio (ou_stop_ok ou) ''/sys/class/gpio/unexport'' sp x)"

definition start_hook :: "outside \<Rightarrow> params \<Rightarrow> export \<Rightarrow> (export_error, unit, export) outcome" where
  "start_hook ou sp x =
     (case ex_class x of
        SerialPortExport \<Rightarrow> start_serial ou sp x
      | GPIOSysFSExport \<Rightarrow> start_gpio ou sp x
      | _ \<Rightarrow> (Inr (), x))"

definition stop_hook ::
  "outside \<Rightarrow> params option \<Rightarrow> export \<Rightarrow> (export_error, unit, export) outcome" where
  "stop_hook ou sp x =
     (case ex_class x of
        SerialPortExport \<Rightarrow> stop_serial ou x
      | GPIOSysFSExport \<Rightarrow>
          (case sp of None \<Rightarrow> (Inl (BadValue TypeError), x) | Some p \<Rightarrow> stop_gpio ou p x)
      | _ \<Rightarrow> (Inr (), x))"

text \<open>The setter of \<open>broken\<close>, used after a hook failed on an export that was not broken.\<close>

definition mark_broken :: "string \<Rightarrow> export \<Rightarrow> export" where
  "mark_broken reason x =
     x\<lparr>ex_broken := Some reason,
       ex_entry := (ex_entry x)\<lparr>re_acquired := Some ''<broken>''\<rparr>\<rparr>"

definition start_export :: "outside \<Rightarrow> export \<Rightarrow> (export_error, unit, export) outcome" where
  "start_export ou x =
     (if ex_broken x \<noteq> None then (Inl Assertion, x)
      else let sp = get_start_params x in
        case start_hook ou sp x of
          (Inl e, y) \<Rightarrow> (Inl (BrokenResource ''Failed to start resource''), mark_broken ''start failed'' y)
        | (Inr _, y) \<Rightarrow> (Inr (), y\<lparr>ex_start_params := Some sp\<rparr>))"

definition stop_export :: "outside \<Rightarrow> export \<Rightarrow> (export_error, unit, export) outcome" where
  "stop_export ou x =
     (if ex_broken x \<noteq> None then (Inl Assertion, x)
      else case stop_hook ou (ex_start_params x) x of
          (Inl e, y) \<Rightarrow> (Inl e, mark_broken ''stop failed'' y)
        | (Inr _, y) \<Rightarrow> (Inr (), y\<lparr>ex_start_params := None\<rparr>))"


section \<open>Polling\<close>

definition wanted :: "export \<Rightarrow> bool" where
  "wanted x \<longleftrightarrow> lo_avail (ex_local x) \<and> truthy (re_acquired (ex_entry x))"

definition poll_run :: "outside \<Rightarrow> export \<Rightarrow> (export_error, unit, export) outcome" where
  "poll_run ou x =
     (if ex_broken x \<noteq> None then (Inr (), x)
      else if wanted x then
        (case ex_start_params x of
           None \<Rightarrow> start_export ou x
         | Some sp \<Rightarrow>
             (if \<not> params_eq sp (get_start_params x)
              then and_then (stop_export ou x) (\<lambda>_. start_export ou)
              else (Inr (), x)))
      else if ex_start_params x \<noteq> None then stop_export ou x
      else (Inr (), x))"

text \<open>
  The parameters that are published: what the class reports, with the proxy and the reason of a
  broken export among the extra values. An \<open>extra\<close> that is false is replaced.
\<close>

definition extra_of :: "params \<Rightarrow> py_error + params" where
  "extra_of ps =
     (case map_of ps ''extra'' of
        None \<Rightarrow> Inr []
      | Some (VDict d) \<Rightarrow> Inr d
      | Some v \<Rightarrow> (if py_true v then Inl TypeError else Inr []))"

definition add_broken :: "export \<Rightarrow> params \<Rightarrow> params" where
  "add_broken x ps =
     (case ex_broken x of None \<Rightarrow> ps | Some reason \<Rightarrow> AList.update ''broken'' (VStr reason) ps)"

definition poll_params :: "export \<Rightarrow> py_error + params" where
  "poll_params x =
     (case extra_of (get_params x) of
        Inl e \<Rightarrow> Inl e
      | Inr d \<Rightarrow>
          Inr (AList.update ''extra''
             (VDict (add_broken x
                (AList.update ''proxy'' (VStr (ex_proxy x))
                  (AList.update ''proxy_required'' (VBool (ex_proxy_required x)) d))))
             (get_params x)))"

text \<open>
  Two classes hand out \<open>local_params\<close> itself and three a shallow copy of it, so that writing to
  \<open>extra\<close> writes to \<open>local_params\<close> as well: always for the former, for the latter when there was
  an \<open>extra\<close> to write to.
\<close>

definition shared_params :: "params \<Rightarrow> export \<Rightarrow> params" where
  "shared_params ps x =
     (let lp = ex_local_params x; extra = map_of ps ''extra'' in
      if ex_class x \<in> {HTTPVideoStreamExport, LXAIOBusNodeExport} then ps
      else if ex_class x \<in> {NetworkServiceExport, AndroidNetFastbootExport, YKUSHPowerPortExport} \<and>
              (case map_of lp ''extra'' of None \<Rightarrow> False | Some v \<Rightarrow> py_true v)
      then (case extra of None \<Rightarrow> lp | Some v \<Rightarrow> AList.update ''extra'' v lp)
      else lp)"

definition usable :: "export \<Rightarrow> bool" where
  "usable x \<longleftrightarrow> lo_avail (ex_local x) \<and> ex_broken x = None"

definition set_avail :: "export \<Rightarrow> export" where
  "set_avail x = x\<lparr>ex_entry := (ex_entry x)\<lparr>re_avail := usable x\<rparr>\<rparr>"

definition publish_params :: "bool \<Rightarrow> export \<Rightarrow> (export_error, bool, export) outcome" where
  "publish_params dirty x =
     (case poll_params x of
        Inl e \<Rightarrow> (Inl (BadValue e), x)
      | Inr ps \<Rightarrow>
          (let y = x\<lparr>ex_local_params := shared_params ps x\<rparr>; old = re_params (ex_entry x) in
           if params_eq old ps then (Inr dirty, y)
           else (Inr True, y\<lparr>ex_entry := (ex_entry x)\<lparr>re_params := dict_update old ps\<rparr>\<rparr>)))"

definition poll_info :: "export \<Rightarrow> (export_error, bool, export) outcome" where
  "poll_info x = publish_params (re_avail (ex_entry x) \<noteq> usable x) (set_avail x)"

definition poll_export :: "outside \<Rightarrow> export \<Rightarrow> (export_error, bool, export) outcome" where
  "poll_export ou x =
     and_then (poll_run ou (x\<lparr>ex_local := ou_local ou\<rparr>)) (\<lambda>_. poll_info)"

definition discard :: "('e, 'a, 's) outcome \<Rightarrow> ('e, unit, 's) outcome" where
  "discard m = and_then m (\<lambda>_ s. (Inr (), s))"

definition acquire_export ::
  "outside \<Rightarrow> string \<Rightarrow> export \<Rightarrow> (export_error, unit, export) outcome" where
  "acquire_export ou place x =
     (case ex_broken x of
        Some reason \<Rightarrow>
          (Inl (BrokenResource (''cannot acquire broken resource (original reason): '' @ reason)), x)
      | None \<Rightarrow>
          (case re_acquire place (ex_entry x) of
             Inl e \<Rightarrow> (Inl Assertion, x)
           | Inr r \<Rightarrow> discard (poll_export ou (x\<lparr>ex_entry := r\<rparr>))))"

definition release_export :: "outside \<Rightarrow> export \<Rightarrow> (export_error, unit, export) outcome" where
  "release_export ou x =
     (case ex_broken x of
        Some reason \<Rightarrow>
          (Inl (BrokenResource (''cannot release broken resource (original reason): '' @ reason)), x)
      | None \<Rightarrow> discard (poll_export ou (x\<lparr>ex_entry := re_release (ex_entry x)\<rparr>)))"

section \<open>Invariant of an export\<close>

text \<open>
  A \<^verbatim>\<open>ser2net\<close> runs exactly when a serial port is started, and then on the port that is published and
  for the device of the start parameters; a broken export shows as acquired by \<^verbatim>\<open><broken>\<close>.
\<close>

definition serves :: "export \<Rightarrow> string list \<Rightarrow> bool" where
  "serves x cmd \<longleftrightarrow> (\<exists>version port path speed.
     ex_port x = VInt port \<and> ex_start_params x = Some [(''path'', VStr path)] \<and>
     cmd = ser2net_command (ex_ser2net x) version port path speed)"

definition serial_ok :: "export \<Rightarrow> bool" where
  "serial_ok x \<longleftrightarrow>
     (case ex_child x of
        None \<Rightarrow> ex_port x = VNone \<and> (ex_class x = SerialPortExport \<longrightarrow> ex_start_params x = None)
      | Some cmd \<Rightarrow> ex_class x = SerialPortExport \<and> serves x cmd)"

definition export_ok :: "export \<Rightarrow> bool" where
  "export_ok x \<longleftrightarrow> dict_wf (ex_local_params x) \<and> dict_wf (re_params (ex_entry x)) \<and>
     (ex_broken x = None \<longrightarrow> serial_ok x) \<and>
     (ex_broken x \<noteq> None \<longrightarrow> re_acquired (ex_entry x) = Some ''<broken>'')"

lemma export_okI:
  "dict_wf (ex_local_params x) \<Longrightarrow> dict_wf (re_params (ex_entry x)) \<Longrightarrow>
   (ex_broken x = None \<Longrightarrow> serial_ok x) \<Longrightarrow>
   (\<And>r. ex_broken x = Some r \<Longrightarrow> re_acquired (ex_entry x) = Some ''<broken>'') \<Longrightarrow> export_ok x"
  by (auto simp: export_ok_def)

text \<open>What the hooks leave alone.\<close>

definition same_export :: "export \<Rightarrow> export \<Rightarrow> bool" where
  "same_export x y \<longleftrightarrow> ex_class y = ex_class x \<and> ex_entry y = ex_entry x \<and> ex_local y = ex_local x \<and>
     ex_local_params y = ex_local_params x \<and> ex_broken y = ex_broken x \<and>
     ex_start_params y = ex_start_params x \<and> ex_ser2net y = ex_ser2net x"

lemmas hook_defs = start_hook_def stop_hook_def start_serial_def stop_serial_def start_gpio_def
  stop_gpio_def write_gpio_def Let_def

lemma start_hook_same: "same_export x (snd (start_hook ou sp x))"
  by (simp add: hook_defs same_export_def split: export_class.split option.split pyval.split)

lemma stop_hook_same: "same_export x (snd (stop_hook ou sp x))"
  by (simp add: hook_defs same_export_def split: export_class.split option.split)

lemma start_serial_serves:
  assumes "start_serial ou sp x = (Inr u, y)"
  shows "\<exists>version path speed. map_of sp ''path'' = Some (VStr path) \<and> ex_port y = VInt (ou_free_port ou) \<and>
    ex_child y = Some (ser2net_command (ex_ser2net x) version (ou_free_port ou) path speed)"
proof -
  from assms obtain path where path: "map_of sp ''path'' = Some (VStr path)"
    by (simp add: start_serial_def Let_def split: if_splits option.splits pyval.splits)
  from assms path obtain version where version: "ou_version ou = Some version"
    by (simp add: start_serial_def Let_def split: if_splits option.splits)
  from assms path version obtain speed where "lo_attr (ex_local x) ''speed'' = VInt speed"
    by (simp add: start_serial_def Let_def split: if_splits pyval.splits)
  with assms path version have "y = x\<lparr>ex_port := VInt (ou_free_port ou),
      ex_child := Some (ser2net_command (ex_ser2net x) version (ou_free_port ou) path speed)\<rparr>"
    by (simp add: start_serial_def Let_def split: if_splits)
  with path show ?thesis
    by (intro exI [of _ version] exI [of _ path] exI [of _ speed]) simp
qed

lemma start_export_ok:
  assumes "export_ok x" and "ex_broken x = None" and "ex_start_params x = None"
  shows "export_ok (snd (start_export ou x))"
proof -
  obtain r y where hook: "start_hook ou (get_start_params x) x = (r, y)" by force
  have same: "same_export x y" using start_hook_same [of x ou "get_start_params x"] hook by simp
  show ?thesis
  proof (cases r)
    case (Inl e)
    with hook assms same show ?thesis
      by (simp add: start_export_def Let_def mark_broken_def export_ok_def same_export_def)
  next
    case (Inr u)
    let ?z = "y\<lparr>ex_start_params := Some (get_start_params x)\<rparr>"
    have "serial_ok ?z"
    proof (cases "ex_class x = SerialPortExport")
      case True
      with hook Inr have "start_serial ou (get_start_params x) x = (Inr u, y)"
        by (simp add: start_hook_def)
      from start_serial_serves [OF this] obtain version path speed where
        v: "map_of (get_start_params x) ''path'' = Some (VStr path)"
          "ex_port y = VInt (ou_free_port ou)"
          "ex_child y = Some (ser2net_command (ex_ser2net x) version (ou_free_port ou) path speed)"
        by blast
      then have "serves ?z (ser2net_command (ex_ser2net x) version (ou_free_port ou) path speed)"
        using same True unfolding serves_def
        by (intro exI [of _ version] exI [of _ "ou_free_port ou"] exI [of _ path] exI [of _ speed])
          (simp add: get_start_params_def same_export_def)
      with v same True show ?thesis by (simp add: serial_ok_def same_export_def)
    next
      case False
      with hook Inr have "ex_child y = ex_child x \<and> ex_port y = ex_port x"
        by (auto simp: hook_defs split: export_class.splits option.splits if_splits)
      with assms False same show ?thesis
        by (auto simp: export_ok_def serial_ok_def same_export_def split: option.splits)
    qed
    with hook Inr assms same show ?thesis
      by (simp add: start_export_def Let_def export_ok_def same_export_def)
  qed
qed

lemma stop_export_ok:
  assumes "export_ok x" and "ex_broken x = None"
  shows "export_ok (snd (stop_export ou x))"
proof -
  obtain r y where hook: "stop_hook ou (ex_start_params x) x = (r, y)" by force
  have same: "same_export x y" using stop_hook_same [of x ou "ex_start_params x"] hook by simp
  show ?thesis
  proof (cases r)
    case (Inl e)
    with hook assms same show ?thesis
      by (simp add: stop_export_def mark_broken_def export_ok_def same_export_def)
  next
    case (Inr u)
    have "serial_ok (y\<lparr>ex_start_params := None\<rparr>)"
    proof (cases "ex_class x = SerialPortExport")
      case True
      with hook Inr have "ex_child y = None \<and> ex_port y = VNone"
        by (auto simp: stop_hook_def stop_serial_def Let_def split: if_splits)
      then show ?thesis by (simp add: serial_ok_def)
    next
      case False
      with hook Inr have "ex_child y = ex_child x \<and> ex_port y = ex_port x"
        by (auto simp: hook_defs split: export_class.splits option.splits if_splits)
      with assms False same show ?thesis
        by (auto simp: export_ok_def serial_ok_def same_export_def split: option.splits)
    qed
    with hook Inr assms same show ?thesis
      by (simp add: stop_export_def export_ok_def same_export_def)
  qed
qed

lemma poll_run_ok: "export_ok x \<Longrightarrow> export_ok (snd (poll_run ou x))"
proof -
  assume ok: "export_ok x"
  have restart: "export_ok (snd (and_then (stop_export ou x) (\<lambda>_. start_export ou)))"
    if "ex_broken x = None"
  proof (rule and_then_keeps)
    from ok that show "export_ok (snd (stop_export ou x))" by (rule stop_export_ok)
  next
    fix a s assume stopped: "stop_export ou x = (Inr a, s)" and "export_ok s"
    from stopped have "ex_start_params s = None"
      by (auto simp: stop_export_def split: if_splits prod.splits sum.splits)
    moreover from stopped have "ex_broken s = None"
      using stop_hook_same [of x ou "ex_start_params x"]
      by (auto simp: stop_export_def same_export_def split: if_splits prod.splits sum.splits)
    ultimately show "export_ok (snd (start_export ou s))"
      using \<open>export_ok s\<close> by (intro start_export_ok)
  qed
  show ?thesis
    using ok restart by (simp add: poll_run_def start_export_ok stop_export_ok split: option.split)
qed

lemma dict_wf_get_params: "dict_wf (ex_local_params x) \<Longrightarrow> dict_wf (get_params x)"
  by (simp add: get_params_def params_defs attrs_defs dict_wf_dict_update
      split: export_class.split option.split pyval.split)

lemma poll_params_lookup:
  "poll_params x = Inr ps \<Longrightarrow> \<exists>d. map_of ps ''extra'' = Some (VDict d) \<and>
     map_of d ''proxy'' = Some (VStr (ex_proxy x)) \<and>
     map_of d ''proxy_required'' = Some (VBool (ex_proxy_required x)) \<and>
     (\<forall>r. ex_broken x = Some r \<longrightarrow> map_of d ''broken'' = Some (VStr r)) \<and>
     (\<forall>k. k \<noteq> ''extra'' \<longrightarrow> map_of ps k = map_of (get_params x) k)"
  by (auto simp: poll_params_def add_broken_def split: sum.splits option.splits)

lemma dict_wf_poll_params:
  "dict_wf (ex_local_params x) \<Longrightarrow> poll_params x = Inr ps \<Longrightarrow> dict_wf ps"
  using dict_wf_get_params [of x] by (auto simp: poll_params_def split: sum.splits)

lemma dict_wf_shared_params:
  "dict_wf (ex_local_params x) \<Longrightarrow> dict_wf ps \<Longrightarrow> dict_wf (shared_params ps x)"
  by (simp add: shared_params_def Let_def split: option.split)

lemma export_ok_params:
  "export_ok x \<Longrightarrow> dict_wf lp \<Longrightarrow> export_ok (x\<lparr>ex_local_params := lp\<rparr>)"
  by (simp add: export_ok_def serial_ok_def serves_def cong: option.case_cong)

lemma export_ok_publish:
  "export_ok x \<Longrightarrow> dict_wf lp \<Longrightarrow> dict_wf rp \<Longrightarrow>
   export_ok (x\<lparr>ex_local_params := lp, ex_entry := (ex_entry x)\<lparr>re_params := rp\<rparr>\<rparr>)"
  by (simp add: export_ok_def serial_ok_def serves_def cong: option.case_cong)

lemma publish_params_ok:
  assumes "export_ok x"
  shows "export_ok (snd (publish_params dirty x))"
proof (cases "poll_params x")
  case (Inl e)
  with assms show ?thesis by (simp add: publish_params_def)
next
  case (Inr ps)
  from assms have wf: "dict_wf (ex_local_params x)" "dict_wf (re_params (ex_entry x))"
    by (simp_all add: export_ok_def)
  from wf(1) Inr have "dict_wf ps" by (rule dict_wf_poll_params)
  with wf assms Inr show ?thesis
    by (simp add: publish_params_def Let_def export_ok_params export_ok_publish dict_wf_shared_params
        dict_wf_dict_update)
qed

lemma set_avail_ok: "export_ok x \<Longrightarrow> export_ok (set_avail x)"
  by (simp add: set_avail_def export_ok_def serial_ok_def serves_def cong: option.case_cong)

lemma poll_info_ok: "export_ok x \<Longrightarrow> export_ok (snd (poll_info x))"
  by (simp add: poll_info_def publish_params_ok set_avail_ok)

lemma export_ok_local: "export_ok (x\<lparr>ex_local := l\<rparr>) = export_ok x"
  by (simp add: export_ok_def serial_ok_def serves_def cong: option.case_cong)

lemma poll_export_ok: "export_ok x \<Longrightarrow> export_ok (snd (poll_export ou x))"
  unfolding poll_export_def
  by (rule and_then_keeps [where P = export_ok]) (simp_all add: poll_run_ok poll_info_ok export_ok_local)

lemma export_ok_entry:
  "export_ok x \<Longrightarrow> ex_broken x = None \<Longrightarrow> re_params r = re_params (ex_entry x) \<Longrightarrow>
   export_ok (x\<lparr>ex_entry := r\<rparr>)"
  by (simp add: export_ok_def serial_ok_def serves_def cong: option.case_cong)

lemma snd_discard [simp]: "snd (discard m) = snd m"
  by (cases m; cases "fst m") (simp_all add: discard_def)

lemma acquire_export_ok: "export_ok x \<Longrightarrow> export_ok (snd (acquire_export ou place x))"
  by (simp add: acquire_export_def re_acquire_def poll_export_ok export_ok_entry split: option.split)

lemma release_export_ok: "export_ok x \<Longrightarrow> export_ok (snd (release_export ou x))"
  by (simp add: release_export_def re_release_def poll_export_ok export_ok_entry split: option.split)

text \<open>The life of an export: created, then polled, acquired and released in any order.\<close>

definition export_start :: "export \<Rightarrow> bool" where
  "export_start x \<longleftrightarrow> (\<exists>made bin c cls ps host proxy req.
     dict_wf ps \<and> export_init made bin c cls ps host proxy req = Inr x)"

inductive export_step :: "export \<Rightarrow> export \<Rightarrow> bool" where
  polled: "export_step x (snd (poll_export ou x))"
| acquired: "export_step x (snd (acquire_export ou place x))"
| released: "export_step x (snd (release_export ou x))"

lemma export_init_ok:
  "dict_wf ps \<Longrightarrow> export_init made bin c cls ps host proxy req = Inr x \<Longrightarrow> export_ok x"
  by (auto simp: export_init_def export_ok_def serial_ok_def split: option.splits sum.splits)

interpretation export: transition_system export_start export_step export_ok
proof unfold_locales
  fix x assume "export_start x"
  then show "export_ok x" unfolding export_start_def by (elim exE conjE) (rule export_init_ok)
next
  fix x y assume "export_step x y" and "export_ok x"
  then show "export_ok y"
    by (cases rule: export_step.cases) (simp_all add: poll_export_ok acquire_export_ok release_export_ok)
qed

section \<open>What polling and acquiring achieve\<close>

text \<open>A hook that works leaves a started export exactly when one is wanted.\<close>

definition started_right :: "export \<Rightarrow> bool" where
  "started_right x \<longleftrightarrow> ex_broken x \<noteq> None \<or>
     (case ex_start_params x of
        None \<Rightarrow> \<not> wanted x
      | Some sp \<Rightarrow> wanted x \<and>
          (sp = get_start_params x \<or> params_eq sp (get_start_params x)))"

definition publishes :: "export \<Rightarrow> resource_entry \<Rightarrow> bool" where
  "publishes x r \<longleftrightarrow> re_avail r = usable x \<and>
     (\<exists>ps. poll_params x = Inr ps \<and>
       (\<forall>k v. map_of ps k = Some v \<longrightarrow>
          (\<exists>w. map_of (re_params r) k = Some w \<and> (w = v \<or> py_eq w v))))"

text \<open>What decides about starting is not changed by the hooks.\<close>

lemma get_start_params_same:
  "ex_class y = ex_class x \<Longrightarrow> ex_local y = ex_local x \<Longrightarrow> get_start_params y = get_start_params x"
  by (cases "ex_class x") (simp_all add: get_start_params_def attr_items_def)

lemma start_export_Inr:
  assumes "start_export ou x = (Inr u, y)"
  shows "ex_start_params y = Some (get_start_params x) \<and> ex_class y = ex_class x \<and>
    ex_entry y = ex_entry x \<and> ex_local y = ex_local x \<and> ex_local_params y = ex_local_params x \<and>
    ex_broken y = ex_broken x"
proof -
  obtain r z where hook: "start_hook ou (get_start_params x) x = (r, z)" by force
  have "same_export x z" using start_hook_same [of x ou "get_start_params x"] hook by simp
  with assms hook show ?thesis
    by (cases r) (auto simp: start_export_def Let_def same_export_def split: if_splits)
qed

lemma stop_export_Inr:
  assumes "stop_export ou x = (Inr u, y)"
  shows "ex_start_params y = None \<and> ex_class y = ex_class x \<and>
    ex_entry y = ex_entry x \<and> ex_local y = ex_local x \<and> ex_local_params y = ex_local_params x \<and>
    ex_broken y = ex_broken x"
proof -
  obtain r z where hook: "stop_hook ou (ex_start_params x) x = (r, z)" by force
  have "same_export x z" using stop_hook_same [of x ou "ex_start_params x"] hook by simp
  with assms hook show ?thesis
    by (cases r) (auto simp: stop_export_def Let_def same_export_def split: if_splits)
qed

lemma poll_run_Inr:
  assumes "poll_run ou x = (Inr u, y)"
  shows "started_right y \<and> ex_entry y = ex_entry x \<and> ex_local y = ex_local x \<and>
    ex_local_params y = ex_local_params x \<and> ex_broken y = ex_broken x \<and> ex_class y = ex_class x"
proof (cases "ex_broken x")
  case (Some r)
  with assms show ?thesis by (simp add: poll_run_def started_right_def)
next
  case None
  show ?thesis
  proof (cases "wanted x")
    case True
    show ?thesis
    proof (cases "ex_start_params x")
      case sp: None
      with assms None True have "start_export ou x = (Inr u, y)" by (simp add: poll_run_def)
      from start_export_Inr [OF this] True show ?thesis
        by (simp add: started_right_def wanted_def get_start_params_same [of y x])
    next
      case (Some sp)
      show ?thesis
      proof (cases "params_eq sp (get_start_params x)")
        case True
        with assms None Some \<open>wanted x\<close> show ?thesis by (simp add: poll_run_def started_right_def)
      next
        case False
        obtain r z where z: "stop_export ou x = (r, z)" by force
        from assms None Some \<open>wanted x\<close> False z obtain v where r: "r = Inr v"
          by (cases r) (simp_all add: poll_run_def)
        with assms None Some \<open>wanted x\<close> False z have "start_export ou z = (Inr u, y)"
          by (simp add: poll_run_def)
        from start_export_Inr [OF this] stop_export_Inr [OF z [unfolded r]] \<open>wanted x\<close> show ?thesis
          by (simp add: started_right_def wanted_def get_start_params_same [of y x]
              get_start_params_same [of z x])
      qed
    qed
  next
    case False
    show ?thesis
    proof (cases "ex_start_params x")
      case sp: None
      with assms None False show ?thesis by (simp add: poll_run_def started_right_def)
    next
      case (Some sp)
      with assms None False have "stop_export ou x = (Inr u, y)" by (simp add: poll_run_def)
      from stop_export_Inr [OF this] False show ?thesis by (simp add: started_right_def wanted_def)
    qed
  qed
qed

lemma publish_params_Inr:
  assumes "export_ok x" and "publish_params d x = (Inr dirty, y)" and "re_avail (ex_entry x) = usable x"
  shows "publishes (y\<lparr>ex_local_params := ex_local_params x\<rparr>) (ex_entry y) \<and>
    (\<not> dirty \<longrightarrow> \<not> d \<and> ex_entry y = ex_entry x) \<and> ex_start_params y = ex_start_params x \<and>
    re_acquired (ex_entry y) = re_acquired (ex_entry x) \<and>
    ex_class y = ex_class x \<and> ex_local y = ex_local x \<and> ex_broken y = ex_broken x"
proof -
  from assms(2) obtain ps where ps: "poll_params x = Inr ps"
    by (cases "poll_params x") (simp_all add: publish_params_def)
  from assms(1) have wf: "dict_wf (ex_local_params x)" "dict_wf (re_params (ex_entry x))"
    by (simp_all add: export_ok_def)
  from wf(1) ps have wf_ps: "dict_wf ps" by (rule dict_wf_poll_params)
  show ?thesis
  proof (cases "params_eq (re_params (ex_entry x)) ps")
    case True
    with assms(2) ps have y: "y = x\<lparr>ex_local_params := shared_params ps x\<rparr>" "dirty = d"
      by (simp_all add: publish_params_def Let_def)
    from params_eq_lookup [OF wf(2) wf_ps True] ps assms(3) have "publishes x (ex_entry x)"
      by (simp add: publishes_def) blast
    with y show ?thesis by simp
  next
    case False
    let ?e = "(ex_entry x)\<lparr>re_params := dict_update (re_params (ex_entry x)) ps\<rparr>"
    let ?x = "x\<lparr>ex_entry := ?e\<rparr>"
    from False assms(2) ps have y: "y = x\<lparr>ex_local_params := shared_params ps x, ex_entry := ?e\<rparr>" "dirty"
      by (simp_all add: publish_params_def Let_def)
    have "get_params ?x = get_params x"
      by (cases "ex_class x") (simp_all add: get_params_def params_defs split: option.split pyval.split)
    with ps have "poll_params ?x = Inr ps"
      by (cases "extra_of (get_params x)") (simp_all add: poll_params_def add_broken_def)
    moreover have "map_of ps k = Some v \<Longrightarrow> map_of (re_params ?e) k = Some v" for k v
      using map_of_dict_update [OF wf_ps] by simp
    ultimately have "publishes ?x ?e" using assms(3) by (simp add: publishes_def usable_def)
    with y show ?thesis by simp
  qed
qed

lemma started_right_publish:
  assumes "started_right x" and "ex_start_params y = ex_start_params x" and "ex_class y = ex_class x"
    and "ex_local y = ex_local x" and "ex_broken y = ex_broken x"
    and "re_acquired (ex_entry y) = re_acquired (ex_entry x)"
  shows "started_right y"
proof -
  have "wanted y = wanted x" using assms(4,6) by (simp add: wanted_def)
  moreover have "get_start_params y = get_start_params x" using assms(3,4) by (rule get_start_params_same)
  ultimately show ?thesis using assms(1) by (simp only: started_right_def assms(2,5))
qed

lemma poll_export_Inr:
  assumes "export_ok x" and "poll_export ou x = (Inr dirty, y)"
  shows "started_right y \<and> publishes (y\<lparr>ex_local_params := ex_local_params x\<rparr>) (ex_entry y) \<and>
    (dirty \<or> ex_entry y = ex_entry x) \<and> ex_broken y = ex_broken x \<and> ex_local y = ou_local ou \<and>
    re_acquired (ex_entry y) = re_acquired (ex_entry x)"
proof -
  let ?x = "x\<lparr>ex_local := ou_local ou\<rparr>"
  obtain r s where run: "poll_run ou ?x = (r, s)" by force
  with assms(2) obtain u where r: "r = Inr u" by (cases r) (simp_all add: poll_export_def)
  have ok: "export_ok s"
    using poll_run_ok [of ?x ou] assms(1) run by (simp add: export_ok_local)
  note s = poll_run_Inr [OF run [unfolded r]]
  from assms(2) run r have pub:
    "publish_params (re_avail (ex_entry s) \<noteq> usable s) (set_avail s) = (Inr dirty, y)"
    by (simp add: poll_export_def poll_info_def)
  have "re_avail (ex_entry (set_avail s)) = usable (set_avail s)"
    by (simp add: set_avail_def usable_def)
  note q = publish_params_Inr [OF set_avail_ok [OF ok] pub this]
  have entry: "ex_entry (set_avail s) = ex_entry s" if "re_avail (ex_entry s) = usable s"
    using that by (simp add: set_avail_def)
  have rest: "ex_start_params (set_avail s) = ex_start_params s" "ex_class (set_avail s) = ex_class s"
    "ex_local (set_avail s) = ex_local s" "ex_broken (set_avail s) = ex_broken s"
    "ex_local_params (set_avail s) = ex_local_params s"
    "re_acquired (ex_entry (set_avail s)) = re_acquired (ex_entry s)"
    by (simp_all add: set_avail_def)
  have "started_right y"
    by (rule started_right_publish [of s]) (use s q rest in simp_all)
  moreover have "dirty \<or> ex_entry y = ex_entry x"
    using q entry s by (cases dirty) simp_all
  moreover have "ex_local_params s = ex_local_params x" "re_acquired (ex_entry s) = re_acquired (ex_entry x)"
    "ex_broken s = ex_broken x" "ex_local s = ou_local ou"
    using s by simp_all
  ultimately show ?thesis using q rest by simp
qed

text \<open>
  C12. When polling an export returns, the resource is started exactly if it is available and
  acquired (and then with the start parameters of now), unless it is broken; what is published is
  its availability and all its current parameters; and when no change is reported, nothing
  published has changed.
\<close>

theorem poll_export_settles:
  assumes "export_ok x" and "poll_export ou x = (Inr dirty, y)"
  shows "started_right y \<and> publishes (y\<lparr>ex_local_params := ex_local_params x\<rparr>) (ex_entry y) \<and>
    (dirty \<or> ex_entry y = ex_entry x) \<and> ex_broken y = ex_broken x \<and> ex_local y = ou_local ou \<and>
    re_acquired (ex_entry y) = re_acquired (ex_entry x)"
  by (rule poll_export_Inr [OF assms])

text \<open>A serial port that is acquired while its device is there.\<close>

definition demo_local :: local_state where
  "demo_local = \<lparr>lo_avail = True,
     lo_attr = (\<lambda>a. if a = ''port'' then VStr ''/dev/ttyUSB0'' else VInt 115200)\<rparr>"

definition demo_outside :: outside where
  "demo_outside = \<lparr>ou_local = demo_local, ou_free_port = 4000, ou_version = Some [4, 3, 12],
     ou_returncode = 0, ou_child_exits = False, ou_path_exists = False, ou_write_ok = True,
     ou_stop_ok = True\<rparr>"

definition demo_serial :: export where
  "demo_serial =
     \<lparr>ex_class = SerialPortExport,
      ex_entry = \<lparr>re_cls = ''NetworkSerialPort'', re_params = [], re_acquired = None, re_avail = False\<rparr>,
      ex_host = ''lab'', ex_proxy = ''lab.example'', ex_proxy_required = False,
      ex_local = demo_local, ex_local_params = [], ex_start_params = None, ex_broken = None,
      ex_ser2net = ''ser2net'', ex_port = VNone, ex_child = None, ex_system_exported = False,
      ex_written = []\<rparr>"

definition demo_acquired :: export where
  "demo_acquired = demo_serial\<lparr>ex_entry := (ex_entry demo_serial)\<lparr>re_acquired := Some ''place''\<rparr>\<rparr>"

lemma demo_serial_start: "export_start demo_serial"
  unfolding export_start_def
  by (intro exI [of _ "Some demo_local"] exI [of _ "''ser2net''"] exI [of _ SerialPortExport]
      exI [of _ "''USBSerialPort''"] exI [of _ "[]"] exI [of _ "''lab''"] exI [of _ "''lab.example''"]
      exI [of _ False])
    (simp add: export_init_def needs_proxy_def demo_serial_def)

lemma demo_acquired_ok: "export_ok demo_acquired"
  unfolding demo_acquired_def
  by (rule export_ok_entry [OF export.start_inv [OF demo_serial_start]]) (simp_all add: demo_serial_def)

lemma demo_poll:
  "fst (poll_export demo_outside demo_acquired) = Inr True \<and>
   ex_port (snd (poll_export demo_outside demo_acquired)) = VInt 4000"
  by (simp add: poll_export_def poll_run_def wanted_def start_export_def start_hook_def start_serial_def
      get_start_params_def poll_info_def publish_params_def poll_params_def extra_of_def add_broken_def
      get_params_def params_defs set_avail_def usable_def Let_def params_eq_def ser2net_quirks_def demo_outside_def
      demo_acquired_def demo_serial_def demo_local_def)

theorem poll_export_settles_witness:
  "started_right (snd (poll_export demo_outside demo_acquired)) \<and>
   ex_port (snd (poll_export demo_outside demo_acquired)) = VInt 4000"
proof -
  have "poll_export demo_outside demo_acquired =
    (Inr True, snd (poll_export demo_outside demo_acquired))"
    using demo_poll by (metis prod.collapse)
  from poll_export_settles [OF demo_acquired_ok this] demo_poll show ?thesis by simp
qed



text \<open>What polling raises, and what it leaves behind then.\<close>

lemma start_export_Inl:
  "start_export ou x = (Inl e, y) \<Longrightarrow> ex_broken x = None \<Longrightarrow>
   e = BrokenResource ''Failed to start resource'' \<and> ex_broken y = Some ''start failed'' \<and>
   re_acquired (ex_entry y) = Some ''<broken>''"
  by (auto simp: start_export_def Let_def mark_broken_def split: prod.splits sum.splits)

lemma stop_export_Inl:
  "stop_export ou x = (Inl e, y) \<Longrightarrow> ex_broken x = None \<Longrightarrow>
   ex_broken y = Some ''stop failed'' \<and> re_acquired (ex_entry y) = Some ''<broken>''"
  by (auto simp: stop_export_def mark_broken_def split: prod.splits sum.splits)

lemma poll_run_Inl:
  assumes "poll_run ou x = (Inl e, y)"
  shows "ex_broken x = None \<and> re_acquired (ex_entry y) = Some ''<broken>'' \<and>
    (e = BrokenResource ''Failed to start resource'' \<and> ex_broken y = Some ''start failed'' \<or>
     ex_broken y = Some ''stop failed'')"
proof -
  from assms have None: "ex_broken x = None" by (auto simp: poll_run_def split: if_splits)
  obtain r z where z: "stop_export ou x = (r, z)" by force
  from assms None z consider
      "start_export ou x = (Inl e, y)"
    | "stop_export ou x = (Inl e, y)"
    | v where "stop_export ou x = (Inr v, z)" "start_export ou z = (Inl e, y)"
    by (cases r) (auto simp: poll_run_def split: if_splits option.splits)
  then show ?thesis
  proof cases
    case 1
    from start_export_Inl [OF this None] None show ?thesis by simp
  next
    case 2
    from stop_export_Inl [OF this None] None show ?thesis by simp
  next
    case 3
    from stop_export_Inr [OF 3(1)] None have "ex_broken z = None" by simp
    from start_export_Inl [OF 3(2) this] None show ?thesis by simp
  qed
qed

text \<open>
  Polling an export raises only when a hook failed - the export is then broken for the
  reason given and shows as acquired by \<^verbatim>\<open><broken>\<close> - or when the parameters hold an \<open>extra\<close> that is
  not a dictionary. An export that was broken before is left as it is but for what it publishes,
  and can be neither acquired nor released.
\<close>

lemma poll_export_failures:
  "(case poll_export ou x of
      (Inl e, y) \<Rightarrow>
        (if ex_broken y = ex_broken x then e = BadValue TypeError
         else ex_broken x = None \<and> re_acquired (ex_entry y) = Some ''<broken>'' \<and>
           (e = BrokenResource ''Failed to start resource'' \<and> ex_broken y = Some ''start failed'' \<or>
            ex_broken y = Some ''stop failed''))
    | (Inr _, y) \<Rightarrow> ex_broken y = ex_broken x) \<and>
   (case ex_broken x of
      None \<Rightarrow> True
    | Some r \<Rightarrow>
        ex_child (snd (poll_export ou x)) = ex_child x \<and>
        ex_start_params (snd (poll_export ou x)) = ex_start_params x \<and>
        snd (acquire_export ou place x) = x \<and> snd (release_export ou x) = x \<and>
        fst (acquire_export ou place x) =
          Inl (BrokenResource (''cannot acquire broken resource (original reason): '' @ r)) \<and>
        fst (release_export ou x) =
          Inl (BrokenResource (''cannot release broken resource (original reason): '' @ r)))"
proof (intro conjI)
  let ?x = "x\<lparr>ex_local := ou_local ou\<rparr>"
  obtain r s where run: "poll_run ou ?x = (r, s)" by force
  have info: "ex_broken (snd (poll_info s)) = ex_broken s"
    by (simp add: poll_info_def publish_params_def set_avail_def Let_def split: sum.split)
  have type: "fst (poll_info s) = Inl e \<Longrightarrow> e = BadValue TypeError" for e
    by (auto simp: poll_info_def publish_params_def poll_params_def extra_of_def Let_def
        split: sum.splits option.splits pyval.splits if_splits)
  show "case poll_export ou x of
      (Inl e, y) \<Rightarrow>
        (if ex_broken y = ex_broken x then e = BadValue TypeError
         else ex_broken x = None \<and> re_acquired (ex_entry y) = Some ''<broken>'' \<and>
           (e = BrokenResource ''Failed to start resource'' \<and> ex_broken y = Some ''start failed'' \<or>
            ex_broken y = Some ''stop failed''))
    | (Inr _, y) \<Rightarrow> ex_broken y = ex_broken x"
  proof (cases r)
    case (Inl e)
    with poll_run_Inl [of ou ?x e s] run show ?thesis by (auto simp: poll_export_def)
  next
    case (Inr u)
    obtain q y where q: "poll_info s = (q, y)" by force
    from poll_run_Inr [OF run [unfolded Inr]] have "ex_broken s = ex_broken x" by simp
    with run Inr q info type show ?thesis by (cases q) (simp_all add: poll_export_def)
  qed
  show "case ex_broken x of
      None \<Rightarrow> True
    | Some r \<Rightarrow>
        ex_child (snd (poll_export ou x)) = ex_child x \<and>
        ex_start_params (snd (poll_export ou x)) = ex_start_params x \<and>
        snd (acquire_export ou place x) = x \<and> snd (release_export ou x) = x \<and>
        fst (acquire_export ou place x) =
          Inl (BrokenResource (''cannot acquire broken resource (original reason): '' @ r)) \<and>
        fst (release_export ou x) =
          Inl (BrokenResource (''cannot release broken resource (original reason): '' @ r))"
    by (simp add: poll_export_def poll_run_def poll_info_def publish_params_def set_avail_def Let_def
        acquire_export_def release_export_def split: option.split sum.split)
qed

text \<open>The class of an export and the class name it publishes never change.\<close>

definition same_kind :: "export \<Rightarrow> export \<Rightarrow> bool" where
  "same_kind x y \<longleftrightarrow> ex_class y = ex_class x \<and> re_cls (ex_entry y) = re_cls (ex_entry x)"

lemma start_export_kind: "same_kind x (snd (start_export ou x))"
  using start_hook_same [of x ou "get_start_params x"]
  by (cases "start_hook ou (get_start_params x) x"; cases "fst (start_hook ou (get_start_params x) x)")
    (simp_all add: start_export_def Let_def mark_broken_def same_kind_def same_export_def)

lemma stop_export_kind: "same_kind x (snd (stop_export ou x))"
  using stop_hook_same [of x ou "ex_start_params x"]
  by (cases "stop_hook ou (ex_start_params x) x"; cases "fst (stop_hook ou (ex_start_params x) x)")
    (simp_all add: stop_export_def mark_broken_def same_kind_def same_export_def)

lemma poll_run_kind: "same_kind x (snd (poll_run ou x))"
proof -
  have "same_kind x (snd (and_then (stop_export ou x) (\<lambda>_. start_export ou)))"
  proof (rule and_then_keeps)
    fix a s assume "same_kind x s"
    with start_export_kind [of s ou] show "same_kind x (snd (start_export ou s))"
      by (simp add: same_kind_def)
  qed (rule stop_export_kind)
  then show ?thesis
    by (simp add: poll_run_def start_export_kind stop_export_kind split: option.split)
      (simp add: same_kind_def)
qed

lemma poll_info_kind: "same_kind x (snd (poll_info x))"
  by (simp add: poll_info_def publish_params_def set_avail_def Let_def same_kind_def split: sum.split)

lemma poll_export_kind: "same_kind x (snd (poll_export ou x))"
  unfolding poll_export_def
proof (rule and_then_keeps)
  show "same_kind x (snd (poll_run ou (x\<lparr>ex_local := ou_local ou\<rparr>)))"
    using poll_run_kind [of "x\<lparr>ex_local := ou_local ou\<rparr>" ou] by (simp add: same_kind_def)
next
  fix a s assume "same_kind x s"
  with poll_info_kind [of s] show "same_kind x (snd (poll_info s))" by (simp add: same_kind_def)
qed

lemma export_step_kind:
  assumes "export_step x y"
  shows "same_kind x y"
  using assms
proof (cases rule: export_step.cases)
  case polled
  then show ?thesis by (simp add: poll_export_kind)
next
  case (acquired ou place)
  then show ?thesis
    using poll_export_kind [of "x\<lparr>ex_entry := (ex_entry x)\<lparr>re_acquired := Some place\<rparr>\<rparr>" ou]
    by (auto simp: acquire_export_def re_acquire_def same_kind_def split: option.split)
next
  case (released ou)
  then show ?thesis
    using poll_export_kind [of "x\<lparr>ex_entry := (ex_entry x)\<lparr>re_acquired := None\<rparr>\<rparr>" ou]
    by (auto simp: release_export_def re_release_def same_kind_def split: option.split)
qed

lemma export_steps_kind: "export_step\<^sup>*\<^sup>* x y \<Longrightarrow> same_kind x y"
proof (induction rule: rtranclp_induct)
  case base
  show ?case by (simp add: same_kind_def)
next
  case (step y z)
  from export_step_kind [OF step.hyps(2)] step.IH show ?case by (simp add: same_kind_def)
qed

text \<open>
  A network interface never publishes the state of the interface: the class name that
  \<open>_get_params\<close> compares with \<^verbatim>\<open>USBNetworkInterface\<close> was replaced when the export was created, and
  stays as it is.
\<close>

lemma interface_state_never_published:
  assumes "export_init made bin NetworkInterfaceExport cls ps host proxy req = Inr x"
    and "export_step\<^sup>*\<^sup>* x y"
  shows "map_of (get_params y) ''extra'' = None"
proof -
  from assms(1) have "ex_class x = NetworkInterfaceExport" "re_cls (ex_entry x) = ''RemoteNetworkInterface''"
    by (auto simp: export_init_def split: option.splits sum.splits)
  with export_steps_kind [OF assms(2)] show ?thesis by (simp add: get_params_def params_defs same_kind_def)
qed

definition demo_interface :: export where
  "demo_interface =
     (case export_init (Some demo_local) [] (export_class_of ''USBNetworkInterface'')
        ''USBNetworkInterface'' [] ''lab'' ''lab'' False of Inr x \<Rightarrow> x | Inl _ \<Rightarrow> demo_serial)"

theorem interface_state_never_published_witness:
  "map_of (get_params (snd (poll_export demo_outside demo_interface))) ''extra'' = None"
proof -
  have c: "export_class_of ''USBNetworkInterface'' = NetworkInterfaceExport"
    by (simp add: export_class_of_def exports_def)
  have "\<exists>x. export_init (Some demo_local) [] NetworkInterfaceExport
      ''USBNetworkInterface'' [] ''lab'' ''lab'' False = Inr x"
    by (simp add: export_init_def needs_proxy_def)
  then obtain x where x: "export_init (Some demo_local) [] NetworkInterfaceExport
      ''USBNetworkInterface'' [] ''lab'' ''lab'' False = Inr x" ..
  then have "demo_interface = x" by (simp only: demo_interface_def c sum.case)
  with interface_state_never_published
    [OF x r_into_rtranclp [where r = export_step, OF polled [of x demo_outside]]]
  show ?thesis by simp
qed

end
