(* ===== verification/ExporterService.thy ===== *)
theory ExporterService
  imports Exporter
begin

text \<open>
  The rest of \<^verbatim>\<open>labgrid/remote/exporter.py\<close>: the exporter with its groups of resources and its queue of
  messages to the coordinator. A handler never awaits between reading and changing its state, so
  a message, one poll of one resource and one added resource are each one step.
\<close>

section \<open>State\<close>

datatype exported = Plain resource_entry | Exported export

fun entry_of :: "exported \<Rightarrow> resource_entry" where
  "entry_of (Plain r) = r"
| "entry_of (Exported x) = ex_entry x"

text \<open>What the exporter queues; \<open>End\<close> stands for the \<open>None\<close> that ends the sending side.\<close>

datatype exporter_message =
    Startup string string
  | ResourceUpdate string string pb_resource
  | Response bool "string option"
  | End

record exporter =
  xp_name :: string
  xp_hostname :: string
  xp_fqdn :: string
  xp_isolated :: bool
  xp_version :: string
  xp_ser2net :: string
  xp_groups :: "(string, (string, exported) dict) dict"
  xp_queue :: "exporter_message list"
  xp_pump :: bool

type_synonym 'a exporting = "exporter \<Rightarrow> (export_error, 'a, exporter) outcome"

definition queue_message :: "exporter_message \<Rightarrow> exporter \<Rightarrow> exporter" where
  "queue_message m s = s\<lparr>xp_queue := xp_queue s @ [m]\<rparr>"

definition resource_of :: "exporter \<Rightarrow> string \<Rightarrow> string \<Rightarrow> exported option" where
  "resource_of s g n =
     (case map_of (xp_groups s) g of None \<Rightarrow> None | Some d \<Rightarrow> map_of d n)"

definition set_exported :: "string \<Rightarrow> string \<Rightarrow> exported \<Rightarrow> exporter \<Rightarrow> exporter" where
  "set_exported g n r s =
     (let d = (case map_of (xp_groups s) g of None \<Rightarrow> [] | Some d \<Rightarrow> d) in
      s\<lparr>xp_groups := AList.update g (AList.update n r d) (xp_groups s)\<rparr>)"

definition start_exporter ::
  "string \<Rightarrow> string \<Rightarrow> string \<Rightarrow> bool \<Rightarrow> string \<Rightarrow> string \<Rightarrow> exporter" where
  "start_exporter name hostname fqdn isolated version bin =
     \<lparr>xp_name = name, xp_hostname = hostname, xp_fqdn = fqdn, xp_isolated = isolated,
      xp_version = version, xp_ser2net = bin, xp_groups = [], xp_queue = [], xp_pump = True\<rparr>"

definition send_started :: "exporter \<Rightarrow> exporter" where
  "send_started s = queue_message (Startup (xp_version s) (xp_name s)) s"

definition update_resource :: "string \<Rightarrow> string \<Rightarrow> unit exporting" where
  "update_resource g n s =
     (case resource_of s g n of
        None \<Rightarrow> (Inl (BadValue KeyError), s)
      | Some r \<Rightarrow>
          (case resource_as_pb2 (entry_of r) of
             Inl e \<Rightarrow> (Inl (BadValue e), s)
           | Inr m \<Rightarrow> (Inr (), queue_message (ResourceUpdate g n m) s)))"


section \<open>Requests of the coordinator\<close>

text \<open>\<open>try: ... finally: ...\<close>; an exception of the second part replaces the first one.\<close>

definition finally_do :: "('e, 'a, 's) outcome \<Rightarrow> ('s \<Rightarrow> ('e, unit, 's) outcome) \<Rightarrow> ('e, 'a, 's) outcome" where
  "finally_do m f =
     (case m of (r, s) \<Rightarrow> case f s of (Inl e, t) \<Rightarrow> (Inl e, t) | (Inr _, t) \<Rightarrow> (r, t))"

fun acquire_exported ::
  "outside \<Rightarrow> string \<Rightarrow> exported \<Rightarrow> (export_error, unit, exported) outcome" where
  "acquire_exported ou place (Plain r) =
     (case re_acquire place r of Inl e \<Rightarrow> (Inl Assertion, Plain r) | Inr r' \<Rightarrow> (Inr (), Plain r'))"
| "acquire_exported ou place (Exported x) =
     (case acquire_export ou place x of (q, y) \<Rightarrow> (q, Exported y))"

fun release_exported :: "outside \<Rightarrow> exported \<Rightarrow> (export_error, unit, exported) outcome" where
  "release_exported ou (Plain r) = (Inr (), Plain (re_release r))"
| "release_exported ou (Exported x) = (case release_export ou x of (q, y) \<Rightarrow> (q, Exported y))"

definition on_resource ::
  "string \<Rightarrow> string \<Rightarrow> (exported \<Rightarrow> (export_error, 'a, exported) outcome) \<Rightarrow> exported \<Rightarrow> 'a exporting" where
  "on_resource g n f r s = (case f r of (q, r') \<Rightarrow> (q, set_exported g n r' s))"

definition acquire :: "outside \<Rightarrow> string \<Rightarrow> string \<Rightarrow> string \<Rightarrow> unit exporting" where
  "acquire ou g n place s =
     (case resource_of s g n of
        None \<Rightarrow>
          (Inl (UnknownResource (''acquire request for unknown resource '' @ g @ ''/'' @ n @ '' by '' @ place)), s)
      | Some r \<Rightarrow>
          (if truthy (re_acquired (entry_of r))
           then (Inl (InvalidRequest (''Resource '' @ g @ ''/'' @ n @ '' is already acquired by '' @
                   the (re_acquired (entry_of r)))), s)
           else finally_do (on_resource g n (acquire_exported ou place) r s) (update_resource g n)))"

definition release :: "outside \<Rightarrow> string \<Rightarrow> string \<Rightarrow> unit exporting" where
  "release ou g n s =
     (case resource_of s g n of
        None \<Rightarrow>
          (Inl (UnknownResource (''release request for unknown resource '' @ g @ ''/'' @ n)), s)
      | Some r \<Rightarrow>
          (if \<not> truthy (re_acquired (entry_of r))
           then (Inl (InvalidRequest (''Resource '' @ g @ ''/'' @ n @ '' is not acquired'')), s)
           else finally_do (on_resource g n (release_exported ou) r s) (update_resource g n)))"

text \<open>
  One message of the coordinator. The three exceptions of the exporter become a refusal with
  their text; any other one leaves the loop, after the refusal was queued, and ends the pump.
\<close>

datatype coordinator_message = Hello string | SetAcquired string string string | Other

fun reason_of :: "export_error \<Rightarrow> string option" where
  "reason_of (BrokenResource r) = Some r"
| "reason_of (InvalidRequest r) = Some r"
| "reason_of (UnknownResource r) = Some r"
| "reason_of _ = None"

definition nonempty :: "string option \<Rightarrow> string option" where
  "nonempty r = (if truthy r then r else None)"

definition end_pump :: "exporter \<Rightarrow> exporter" where
  "end_pump s = (queue_message End s)\<lparr>xp_pump := False\<rparr>"

fun on_message :: "outside \<Rightarrow> coordinator_message \<Rightarrow> exporter \<Rightarrow> exporter" where
  "on_message ou (Hello v) s = s"
| "on_message ou Other s = s"
| "on_message ou (SetAcquired g n place) s =
     (case (if place \<noteq> [] then acquire ou g n place s else release ou g n s) of
        (Inr _, t) \<Rightarrow> queue_message (Response True None) t
      | (Inl e, t) \<Rightarrow>
          (let u = queue_message (Response False (nonempty (reason_of e))) t in
           if reason_of e = None then end_pump u else u))"

text \<open>The stream from the coordinator ended with an error.\<close>

definition on_stream_error :: "exporter \<Rightarrow> exporter" where
  "on_stream_error s = end_pump s"


section \<open>Polling all resources\<close>

text \<open>
  Polling one resource: an exception of \<open>poll\<close> is printed and the loop goes on, but one of
  \<open>update_resource\<close> leaves the loop. \<open>ou\<close> gives what the outside answers for each resource.
\<close>

definition poll_one ::
  "(string \<Rightarrow> string \<Rightarrow> outside) \<Rightarrow> string \<times> string \<Rightarrow> unit exporting" where
  "poll_one ou k s =
     (case k of (g, n) \<Rightarrow>
        (case resource_of s g n of
           Some (Exported x) \<Rightarrow>
             (case poll_export (ou g n) x of
                (Inl e, y) \<Rightarrow> (Inr (), set_exported g n (Exported y) s)
              | (Inr changed, y) \<Rightarrow>
                  (let t = set_exported g n (Exported y) s in
                   if changed then update_resource g n t else (Inr (), t)))
         | _ \<Rightarrow> (Inr (), s)))"

definition resource_keys :: "exporter \<Rightarrow> (string \<times> string) list" where
  "resource_keys s = concat (map (\<lambda>(g, d). map (\<lambda>(n, r). (g, n)) d) (xp_groups s))"

definition poll_step :: "(string \<Rightarrow> string \<Rightarrow> outside) \<Rightarrow> unit exporting" where
  "poll_step ou s = for_each (poll_one ou) (resource_keys s) s"


section \<open>Adding the configured resources\<close>

text \<open>
  \<open>made\<close> is the local resource that the class of the resource creates from the parameters. A class
  without an export class is announced as it is.
\<close>

definition add_resource ::
  "outside \<Rightarrow> local_state option \<Rightarrow> string \<Rightarrow> string \<Rightarrow> string \<Rightarrow> params \<Rightarrow> unit exporting" where
  "add_resource ou made g n cls ps s0 =
     (let s = s0\<lparr>xp_groups := dict_setdefault g [] (xp_groups s0)\<rparr>; c = export_class_of cls in
      if resource_of s g n \<noteq> None then (Inl Assertion, s)
      else if c = ResourceEntryClass then
        (let extra = VDict [(''proxy'', VStr (xp_fqdn s)), (''proxy_required'', VBool (xp_isolated s))];
             r = resource_entry_init \<lparr>raw_cls = cls, raw_params = AList.update ''extra'' extra ps,
                   raw_acquired = None, raw_avail = Some True\<rparr> in
         update_resource g n (set_exported g n (Plain r) s))
      else
        (case export_init made (xp_ser2net s) c cls ps (xp_hostname s) (xp_fqdn s) (xp_isolated s) of
           Inl e \<Rightarrow> (Inl e, s)
         | Inr x \<Rightarrow>
             (case poll_export ou x of
                (Inl e, y) \<Rightarrow> (Inl e, set_exported g n (Exported y) s)
              | (Inr _, y) \<Rightarrow> update_resource g n (set_exported g n (Exported y) s))))"

text \<open>
  The configuration: groups of resources with their parameters. A location and an empty resource
  are skipped; the class is the entry \<open>cls\<close> or else the name of the resource. A \<open>cls\<close> that is not
  a string fails here, and in the code when the message is filled.
\<close>

type_synonym exporter_config = "(string, (string, params option) dict) dict"

definition configure_one ::
  "(string \<Rightarrow> string \<Rightarrow> outside) \<Rightarrow> (string \<Rightarrow> params \<Rightarrow> local_state option) \<Rightarrow>
   string \<times> string \<times> params option \<Rightarrow> unit exporting" where
  "configure_one ou creates e s =
     (case e of (g, n, ps) \<Rightarrow>
        (if n = ''location'' then (Inr (), s)
         else case ps of
           None \<Rightarrow> (Inr (), s)
         | Some p \<Rightarrow>
             (let p' = AList.delete ''cls'' p in
              case map_of p ''cls'' of
                None \<Rightarrow> add_resource (ou g n) (creates n p') g n n p' s
              | Some (VStr cls) \<Rightarrow> add_resource (ou g n) (creates cls p') g n cls p' s
              | Some _ \<Rightarrow> (Inl (BadValue TypeError), s))))"

definition config_entries :: "exporter_config \<Rightarrow> (string \<times> string \<times> params option) list" where
  "config_entries cfg = concat (map (\<lambda>(g, d). map (\<lambda>(n, ps). (g, n, ps)) d) cfg)"

definition run_config ::
  "(string \<Rightarrow> string \<Rightarrow> outside) \<Rightarrow> (string \<Rightarrow> params \<Rightarrow> local_state option) \<Rightarrow> exporter_config \<Rightarrow>
   unit exporting" where
  "run_config ou creates cfg s =
     for_each (configure_one ou creates) (config_entries cfg) (send_started s)"

section \<open>What an answer means\<close>

lemma poll_info_acquired: "re_acquired (ex_entry (snd (poll_info x))) = re_acquired (ex_entry x)"
  by (simp add: poll_info_def publish_params_def set_avail_def Let_def split: sum.split)

lemma poll_export_acquired:
  assumes "poll_export ou x = (Inr d, y)"
  shows "re_acquired (ex_entry y) = re_acquired (ex_entry x)"
proof -
  obtain r s where run: "poll_run ou (x\<lparr>ex_local := ou_local ou\<rparr>) = (r, s)" by force
  with assms obtain u where r: "r = Inr u" by (cases r) (simp_all add: poll_export_def)
  from poll_run_Inr [OF run [unfolded r]] have "ex_entry s = ex_entry x" by simp
  with assms run r poll_info_acquired [of s] show ?thesis by (simp add: poll_export_def)
qed

lemma discard_Inr: "discard m = (Inr u, s) \<longleftrightarrow> (\<exists>a. m = (Inr a, s))"
  by (cases m; cases "fst m") (auto simp: discard_def)

lemma discard_Inl: "discard m = (Inl e, s) \<longleftrightarrow> m = (Inl e, s)"
  by (cases m; cases "fst m") (auto simp: discard_def)

lemma acquire_exported_Inr:
  "acquire_exported ou place r = (Inr u, r') \<Longrightarrow> re_acquired (entry_of r') = Some place"
proof (cases r)
  case (Plain e)
  then show "acquire_exported ou place r = (Inr u, r') \<Longrightarrow> ?thesis"
    by (auto simp: re_acquire_def split: if_splits)
next
  case (Exported x)
  assume "acquire_exported ou place r = (Inr u, r')"
  with Exported obtain y where y: "acquire_export ou place x = (Inr u, y)" "r' = Exported y"
    by (auto split: prod.splits)
  from y(1) obtain a where
    "poll_export ou (x\<lparr>ex_entry := (ex_entry x)\<lparr>re_acquired := Some place\<rparr>\<rparr>) = (Inr a, y)"
    by (auto simp: acquire_export_def re_acquire_def discard_Inr split: option.splits if_splits)
  from poll_export_acquired [OF this] y(2) show ?thesis by simp
qed

lemma release_exported_Inr:
  "release_exported ou r = (Inr u, r') \<Longrightarrow> re_acquired (entry_of r') = None"
proof (cases r)
  case (Plain e)
  then show "release_exported ou r = (Inr u, r') \<Longrightarrow> ?thesis"
    by (auto simp: re_release_def)
next
  case (Exported x)
  assume "release_exported ou r = (Inr u, r')"
  with Exported obtain y where y: "release_export ou x = (Inr u, y)" "r' = Exported y"
    by (auto split: prod.splits)
  from y(1) obtain a where
    "poll_export ou (x\<lparr>ex_entry := (ex_entry x)\<lparr>re_acquired := None\<rparr>\<rparr>) = (Inr a, y)"
    by (auto simp: release_export_def re_release_def discard_Inr split: option.splits)
  from poll_export_acquired [OF this] y(2) show ?thesis by simp
qed

text \<open>Whatever is raised carries a text exactly when it is one of the exporter's own exceptions.\<close>

definition has_text :: "export_error \<Rightarrow> bool" where
  "has_text e \<longleftrightarrow> nonempty (reason_of e) = reason_of e"

lemma has_text_simps [simp]:
  "has_text (BrokenResource r) = (r \<noteq> [])" "has_text (InvalidRequest r) = (r \<noteq> [])"
  "has_text (UnknownResource r) = (r \<noteq> [])" "has_text HookFailed" "has_text Assertion"
  "has_text (BadValue b)"
  by (simp_all add: has_text_def nonempty_def)

lemma stop_hook_text: "stop_hook ou sp x = (Inl e, y) \<Longrightarrow> has_text e"
  by (auto simp: hook_defs split: export_class.splits option.splits if_splits)

lemma stop_export_text: "stop_export ou x = (Inl e, y) \<Longrightarrow> has_text e"
  by (auto simp: stop_export_def dest: stop_hook_text split: if_splits prod.splits sum.splits)

lemma start_export_text: "start_export ou x = (Inl e, y) \<Longrightarrow> has_text e"
  by (auto simp: start_export_def Let_def split: if_splits prod.splits sum.splits)

lemma and_then_Inl:
  "and_then m k = (Inl e, t) \<Longrightarrow> m = (Inl e, t) \<or> (\<exists>a s. m = (Inr a, s) \<and> k a s = (Inl e, t))"
  by (cases m; cases "fst m") auto

lemma poll_run_text: "poll_run ou x = (Inl e, y) \<Longrightarrow> has_text e"
  by (auto simp: poll_run_def dest: start_export_text stop_export_text dest!: and_then_Inl
      split: if_splits option.splits)

lemma poll_info_text: "poll_info x = (Inl e, y) \<Longrightarrow> has_text e"
  by (cases "poll_params (set_avail x)")
    (auto simp: poll_info_def publish_params_def Let_def split: if_splits)

lemma poll_export_text: "poll_export ou x = (Inl e, y) \<Longrightarrow> has_text e"
  unfolding poll_export_def by (drule and_then_Inl) (auto dest: poll_run_text poll_info_text)

lemma acquire_exported_text: "acquire_exported ou place r = (Inl e, r') \<Longrightarrow> has_text e"
  by (cases r)
    (auto simp: acquire_export_def discard_Inl dest: poll_export_text
      split: prod.splits sum.splits option.splits)

lemma release_exported_text: "release_exported ou r = (Inl e, r') \<Longrightarrow> has_text e"
  by (cases r)
    (auto simp: release_export_def discard_Inl dest: poll_export_text
      split: prod.splits sum.splits option.splits)

lemma set_exported_lookup:
  "resource_of (set_exported g n r s) h k =
     (if h = g \<and> k = n then Some r else resource_of s h k)"
  by (auto simp: resource_of_def set_exported_def Let_def split: option.splits)

lemma resource_of_queue [simp]: "resource_of (queue_message m s) = resource_of s"
  by (simp add: fun_eq_iff resource_of_def queue_message_def)

lemma resource_of_end [simp]: "resource_of (end_pump s) = resource_of s"
  by (simp add: fun_eq_iff resource_of_def queue_message_def end_pump_def)

lemma xp_queue_simps [simp]:
  "xp_queue (queue_message m s) = xp_queue s @ [m]" "xp_pump (queue_message m s) = xp_pump s"
  "xp_queue (set_exported g n r s) = xp_queue s" "xp_pump (set_exported g n r s) = xp_pump s"
  "xp_queue (end_pump s) = xp_queue s @ [End]" "\<not> xp_pump (end_pump s)"
  by (simp_all add: queue_message_def set_exported_def end_pump_def Let_def)

lemma pbr_acquired_as_pb2:
  "resource_as_pb2 r = Inr m \<Longrightarrow> pbr_acquired m = (case re_acquired r of None \<Rightarrow> [] | Some a \<Rightarrow> a)"
  by (auto simp: resource_as_pb2_def split: prod.splits sum.splits pyval.splits)

text \<open>
  What a request may do: at most one update of the resource is queued, nothing but that resource
  changes, and a request that is granted queues exactly one, which shows the new owner.
\<close>

definition siblings_kept :: "string \<Rightarrow> string \<Rightarrow> exporter \<Rightarrow> exporter \<Rightarrow> bool" where
  "siblings_kept g n s t \<longleftrightarrow>
     (\<forall>h k. (h, k) \<noteq> (g, n) \<longrightarrow> resource_of t h k = resource_of s h k)"

definition granted :: "string \<Rightarrow> string \<Rightarrow> string \<Rightarrow> exporter_message list \<Rightarrow> bool" where
  "granted g n place ms \<longleftrightarrow> (\<exists>m. ms = [ResourceUpdate g n m] \<and> pbr_acquired m = place)"

definition served :: "string \<Rightarrow> string \<Rightarrow> string \<Rightarrow> exporter \<Rightarrow> export_error + unit \<Rightarrow> exporter \<Rightarrow> bool" where
  "served g n place s q t \<longleftrightarrow> siblings_kept g n s t \<and> xp_pump t = xp_pump s \<and>
     (\<exists>ms. xp_queue t = xp_queue s @ ms \<and> length ms \<le> 1 \<and>
       (case q of Inl e \<Rightarrow> has_text e | Inr _ \<Rightarrow> granted g n place ms))"

lemma finally_update_served:
  assumes f: "\<And>e r'. f r = (Inl e, r') \<Longrightarrow> has_text e"
    and owner: "\<And>u r'. f r = (Inr u, r') \<Longrightarrow>
      (case re_acquired (entry_of r') of None \<Rightarrow> [] | Some a \<Rightarrow> a) = place"
  shows "case finally_do (on_resource g n f r s) (update_resource g n) of
    (q, t) \<Rightarrow> served g n place s q t"
proof -
  obtain q r' where fr: "f r = (q, r')" by force
  define t where "t = set_exported g n r' s"
  have on: "on_resource g n f r s = (q, t)" by (simp add: on_resource_def fr t_def)
  have look: "resource_of t g n = Some r'" and others: "siblings_kept g n s t"
    by (auto simp: t_def set_exported_lookup siblings_kept_def)
  have queue: "xp_queue t = xp_queue s" "xp_pump t = xp_pump s" by (simp_all add: t_def)
  show ?thesis
  proof (cases "resource_as_pb2 (entry_of r')")
    case (Inl e)
    with on look others queue show ?thesis
      by (simp add: finally_do_def update_resource_def served_def)
  next
    case (Inr m)
    have upd: "update_resource g n t = (Inr (), queue_message (ResourceUpdate g n m) t)"
      using Inr look by (simp add: update_resource_def)
    have "siblings_kept g n s (queue_message (ResourceUpdate g n m) t)"
      using others by (simp add: siblings_kept_def)
    moreover have "case q of Inl e \<Rightarrow> has_text e | Inr _ \<Rightarrow> granted g n place [ResourceUpdate g n m]"
      using fr f owner pbr_acquired_as_pb2 [OF Inr] by (cases q) (simp_all add: granted_def)
    ultimately show ?thesis using on upd queue by (simp add: finally_do_def served_def)
  qed
qed

lemma unserved: "has_text e \<Longrightarrow> served g n place s (Inl e) s"
  by (simp add: served_def siblings_kept_def)

lemma acquire_served: "case acquire ou g n place s of (q, t) \<Rightarrow> served g n place s q t"
proof (cases "resource_of s g n")
  case None
  then show ?thesis by (simp add: acquire_def unserved)
next
  case (Some r)
  show ?thesis
  proof (cases "truthy (re_acquired (entry_of r))")
    case True
    with Some show ?thesis by (simp add: acquire_def unserved)
  next
    case False
    have "case finally_do (on_resource g n (acquire_exported ou place) r s) (update_resource g n) of
        (q, t) \<Rightarrow> served g n place s q t"
      by (rule finally_update_served) (auto dest: acquire_exported_Inr acquire_exported_text)
    with Some False show ?thesis by (simp add: acquire_def)
  qed
qed

lemma release_served: "case release ou g n s of (q, t) \<Rightarrow> served g n [] s q t"
proof (cases "resource_of s g n")
  case None
  then show ?thesis by (simp add: release_def unserved)
next
  case (Some r)
  show ?thesis
  proof (cases "truthy (re_acquired (entry_of r))")
    case False
    with Some show ?thesis by (simp add: release_def unserved)
  next
    case True
    have "case finally_do (on_resource g n (release_exported ou) r s) (update_resource g n) of
        (q, t) \<Rightarrow> served g n [] s q t"
      by (rule finally_update_served) (auto dest: release_exported_Inr release_exported_text)
    with Some True show ?thesis by (simp add: release_def)
  qed
qed


section \<open>Updates that cannot be translated\<close>

lemma to_map_value_Inl: "to_map_value v = Inl e \<Longrightarrow> e = ValueError"
  by (cases v) (auto simp: assign_int_def split: if_splits)

lemma set_map_from_dict_Inl: "set_map_from_dict m d = (Inl e, m') \<Longrightarrow> e = ValueError"
  by (induction m d rule: set_map_from_dict.induct) (auto dest: to_map_value_Inl split: sum.splits)

lemma set_map_from_dict_nested:
  "(k, VDict d) \<in> set ps \<Longrightarrow> \<exists>m'. set_map_from_dict m ps = (Inl ValueError, m')"
proof (induction m ps rule: set_map_from_dict.induct)
  case (2 m j v ps)
  show ?case
  proof (cases "to_map_value v")
    case (Inl e)
    with to_map_value_Inl [of v e] show ?thesis by simp
  next
    case (Inr w)
    with 2 show ?thesis by auto
  qed
qed simp

lemma resource_as_pb2_nested:
  assumes "map_of (re_params r) ''extra'' = Some (VDict d)" and "(k, VDict e) \<in> set d"
  shows "resource_as_pb2 r = Inl ValueError"
proof -
  obtain q m where q: "set_map_from_dict [] (re_args r) = (q, m)" by force
  obtain m' where m': "set_map_from_dict [] d = (Inl ValueError, m')"
    using set_map_from_dict_nested [OF assms(2)] by blast
  have extra: "re_extra r = VDict d" using assms(1) by (simp add: re_extra_def)
  show ?thesis
  proof (cases q)
    case (Inl b)
    with q set_map_from_dict_Inl [of "[]" "re_args r" b m] show ?thesis
      by (simp add: resource_as_pb2_def)
  next
    case (Inr u)
    with q m' extra show ?thesis by (simp add: resource_as_pb2_def)
  qed
qed

text \<open>
  When a poll reports a change of a resource whose \<open>extra\<close> holds a dictionary, the update cannot be
  translated and the exception leaves the polling loop: no resource after it is polled in this
  round, and nothing is sent.
\<close>

lemma nested_extra_ends_poll_step:
  assumes "resource_keys s = (g, n) # ks" and "resource_of s g n = Some (Exported x)"
    and "poll_export (ou g n) x = (Inr True, y)"
    and "map_of (re_params (ex_entry y)) ''extra'' = Some (VDict d)" and "(k, VDict e) \<in> set d"
  shows "poll_step ou s = (Inl (BadValue ValueError), set_exported g n (Exported y) s)"
proof -
  have "resource_of (set_exported g n (Exported y) s) g n = Some (Exported y)"
    by (simp add: set_exported_lookup)
  with resource_as_pb2_nested [OF assms(4,5)] assms(1-3) show ?thesis
    by (simp add: poll_step_def poll_one_def update_resource_def)
qed

text \<open>A switch port that sees a MAC address, before a serial port.\<close>

definition demo_switch_local :: local_state where
  "demo_switch_local = \<lparr>lo_avail = True,
     lo_attr = (\<lambda>a. if a = ''extra'' then VDict [(''macs'', VDict [(''00:11:22:33:44:55'', VDict [])])]
       else VStr a)\<rparr>"

definition demo_switch :: export where
  "demo_switch =
     \<lparr>ex_class = EthernetPortExport,
      ex_entry = \<lparr>re_cls = ''EthernetPort'', re_params = [], re_acquired = None, re_avail = False\<rparr>,
      ex_host = ''lab'', ex_proxy = ''lab.example'', ex_proxy_required = False,
      ex_local = demo_switch_local, ex_local_params = [], ex_start_params = None, ex_broken = None,
      ex_ser2net = ''ser2net'', ex_port = VNone, ex_child = None, ex_system_exported = False,
      ex_written = []\<rparr>"

definition demo_exporter :: exporter where
  "demo_exporter =
     (start_exporter ''lab'' ''lab'' ''lab.example'' False ''24.1'' ''ser2net'')
       \<lparr>xp_groups := [(''g'', [(''port'', Exported demo_switch), (''tty'', Exported demo_serial)])]\<rparr>"

definition demo_outsides :: "string \<Rightarrow> string \<Rightarrow> outside" where
  "demo_outsides g n =
     (if n = ''port'' then demo_outside\<lparr>ou_local := demo_switch_local\<rparr> else demo_outside)"

lemma demo_switch_poll:
  "\<exists>y d. poll_export (demo_outsides ''g'' ''port'') demo_switch = (Inr True, y) \<and>
     map_of (re_params (ex_entry y)) ''extra'' = Some (VDict d) \<and>
     (''macs'', VDict [(''00:11:22:33:44:55'', VDict [])]) \<in> set d"
  by (simp add: poll_export_def poll_run_def wanted_def poll_info_def publish_params_def
      poll_params_def extra_of_def add_broken_def get_params_def params_defs set_avail_def
      usable_def Let_def params_eq_def demo_outside_def demo_outsides_def demo_switch_def
      demo_switch_local_def dict_update_def)

theorem nested_extra_ends_poll_step_witness:
  "\<exists>s. poll_step demo_outsides demo_exporter = (Inl (BadValue ValueError), s) \<and>
     resource_of s ''g'' ''tty'' = Some (Exported demo_serial) \<and> xp_queue s = []"
proof -
  obtain y d where y: "poll_export (demo_outsides ''g'' ''port'') demo_switch = (Inr True, y)"
    "map_of (re_params (ex_entry y)) ''extra'' = Some (VDict d)"
    "(''macs'', VDict [(''00:11:22:33:44:55'', VDict [])]) \<in> set d"
    using demo_switch_poll by blast
  have s: "resource_keys demo_exporter = (''g'', ''port'') # [(''g'', ''tty'')]"
    "resource_of demo_exporter ''g'' ''port'' = Some (Exported demo_switch)"
    "resource_of demo_exporter ''g'' ''tty'' = Some (Exported demo_serial)"
    "xp_queue demo_exporter = []"
    by (simp_all add: demo_exporter_def start_exporter_def resource_keys_def resource_of_def)
  from nested_extra_ends_poll_step [where ou = demo_outsides, OF s(1,2) y] s(3,4) show ?thesis
    by (simp add: set_exported_lookup)
qed

text \<open>
  A release whose \<^verbatim>\<open>ser2net\<close> does not end is answered with a refusal without a reason, and the message
  pump ends: the exporter answers no further request. The resource is broken from then on.
\<close>

lemma failing_stop_ends_pump:
  assumes "resource_of s g n = Some (Exported x)" and "export_ok x" and "ex_broken x = None"
    and "ex_class x = SerialPortExport" and "ex_start_params x \<noteq> None"
    and "truthy (re_acquired (ex_entry x))" and "\<not> ou_stop_ok ou"
  shows "\<not> xp_pump (on_message ou (SetAcquired g n []) s) \<and>
    (\<exists>ms. xp_queue (on_message ou (SetAcquired g n []) s) = ms @ [Response False None, End]) \<and>
    (\<exists>y. resource_of (on_message ou (SetAcquired g n []) s) g n = Some (Exported y) \<and>
       ex_broken y = Some ''stop failed'')"
proof -
  from assms(2-5) obtain cmd where child: "ex_child x = Some cmd"
    by (auto simp: export_ok_def serial_ok_def split: option.splits)
  let ?x = "x\<lparr>ex_entry := (ex_entry x)\<lparr>re_acquired := None\<rparr>, ex_local := ou_local ou\<rparr>"
  obtain y where y: "stop_export ou ?x = (Inl HookFailed, y)" "ex_broken y = Some ''stop failed''"
    using assms(3,4,7) child
    by (simp add: stop_export_def stop_hook_def stop_serial_def Let_def mark_broken_def)
  have "release_export ou x = (Inl HookFailed, y)"
    using assms(3,5) y(1)
    by (simp add: release_export_def re_release_def poll_export_def poll_run_def wanted_def discard_def)
  then have rel: "release ou g n s =
      finally_do (Inl HookFailed, set_exported g n (Exported y) s) (update_resource g n)"
    using assms(1,6) by (simp add: release_def on_resource_def)
  let ?t = "set_exported g n (Exported y) s"
  have look: "resource_of ?t g n = Some (Exported y)" by (simp add: set_exported_lookup)
  show ?thesis
  proof (cases "resource_as_pb2 (ex_entry y)")
    case (Inl e)
    with rel look y(2) show ?thesis
      by (simp add: finally_do_def update_resource_def nonempty_def)
  next
    case (Inr m)
    with rel look y(2) show ?thesis
      by (simp add: finally_do_def update_resource_def nonempty_def)
  qed
qed

definition demo_started :: export where
  "demo_started = demo_acquired\<lparr>ex_start_params := Some [(''path'', VStr ''/dev/ttyUSB0'')],
     ex_port := VInt 4000,
     ex_child := Some (ser2net_command ''ser2net'' [4, 3, 12] 4000 ''/dev/ttyUSB0'' 115200)\<rparr>"

lemma demo_started_ok: "export_ok demo_started"
proof -
  have "serves demo_started (ser2net_command ''ser2net'' [4, 3, 12] 4000 ''/dev/ttyUSB0'' 115200)"
    unfolding serves_def
    by (rule exI [of _ "[4, 3, 12]"], rule exI [of _ 4000], rule exI [of _ "''/dev/ttyUSB0''"],
        rule exI [of _ 115200]) (simp add: demo_started_def demo_acquired_def demo_serial_def)
  then show ?thesis
    by (simp add: export_ok_def serial_ok_def)
      (simp add: demo_started_def demo_acquired_def demo_serial_def)
qed

theorem failing_stop_ends_pump_witness:
  "\<not> xp_pump (on_message (demo_outside\<lparr>ou_stop_ok := False\<rparr>) (SetAcquired ''g'' ''tty'' [])
     (demo_exporter\<lparr>xp_groups := [(''g'', [(''tty'', Exported demo_started)])]\<rparr>))"
proof -
  have "resource_of (demo_exporter\<lparr>xp_groups := [(''g'', [(''tty'', Exported demo_started)])]\<rparr>)
      ''g'' ''tty'' = Some (Exported demo_started)"
    by (simp add: resource_of_def)
  moreover have "ex_broken demo_started = None" "ex_class demo_started = SerialPortExport"
    "ex_start_params demo_started \<noteq> None" "truthy (re_acquired (ex_entry demo_started))"
    "\<not> ou_stop_ok (demo_outside\<lparr>ou_stop_ok := False\<rparr>)"
    by (simp_all add: demo_started_def demo_acquired_def demo_serial_def)
  ultimately show ?thesis using failing_stop_ends_pump demo_started_ok by blast
qed

end
