(* ===== verification/Environment.thy ===== *)
theory Environment
  imports Factory
begin

text \<open>
  \<^verbatim>\<open>labgrid/environment.py\<close>: the targets of a configuration, made when they are asked for. The
  import of user modules is outside; only their names are computed.
\<close>

section \<open>State and operations\<close>

record environment =
  en_config :: config
  en_targets :: "(string, target) dict"

datatype environment_error = ConfigErr config_error | FactoryErr factory_error | TargetErr target_error

type_synonym 'a env_action = "environment \<Rightarrow> (environment_error, 'a, environment) outcome"

text \<open>The name under which a user import is entered in \<open>sys.modules\<close>.\<close>

fun import_name :: "pyval \<Rightarrow> pyval" where
  "import_name (VStr s) = (if ends_py s then VStr (take (length (basename s) - 3) (basename s)) else VStr s)"
| "import_name v = v"

definition new_environment ::
  "os \<Rightarrow> string \<Rightarrow> load_error + yaml \<Rightarrow> environment_error + environment \<times> pyval list" where
  "new_environment os filename loaded =
     (case new_config os filename loaded of
        Inl e \<Rightarrow> Inl (ConfigErr e)
      | Inr c \<Rightarrow>
          (case get_imports os c of
             Inl e \<Rightarrow> Inl (ConfigErr (Raised e))
           | Inr ims \<Rightarrow> Inr (\<lparr>en_config = c, en_targets = []\<rparr>, map import_name ims)))"

definition get_target :: "builder \<Rightarrow> world \<Rightarrow> nat \<Rightarrow> string \<Rightarrow> target option env_action" where
  "get_target b w n role s =
     (case map_of (en_targets s) role of
        Some t \<Rightarrow> (Inr (Some t), s)
      | None \<Rightarrow>
          (case and_result (get_targets (en_config s)) (\<lambda>ts. get_default ts role VNone) of
             Inl e \<Rightarrow> (Inl (ConfigErr (Raised e)), s)
           | Inr config \<Rightarrow>
               (if \<not> py_true config then (Inr None, s)
                else case make_target b w n config of
                  (Inl e, _) \<Rightarrow> (Inl (FactoryErr e), s)
                | (Inr _, t) \<Rightarrow> (Inr (Some t), s\<lparr>en_targets := AList.update role t (en_targets s)\<rparr>))))"

definition env_features :: "environment \<Rightarrow> py_error + pyval list" where
  "env_features s = get_features (en_config s)"

fun join_features :: "pyval list \<Rightarrow> pyval list \<Rightarrow> py_error + pyval list" where
  "join_features flags [] = Inr flags"
| "join_features flags (v # vs) =
     and_result (and_result (get_default v ''features'' (VDict [])) as_set)
       (\<lambda>fs. join_features (List.union fs flags) vs)"

definition get_target_features :: "environment \<Rightarrow> py_error + pyval list" where
  "get_target_features s =
     and_result (get_targets (en_config s))
       (\<lambda>ts. and_result (item_pairs ts) (\<lambda>d. join_features [] (map snd d)))"

definition cleanup_target :: "world \<Rightarrow> nat \<Rightarrow> string \<Rightarrow> unit env_action" where
  "cleanup_target w n role s =
     (case map_of (en_targets s) role of
        None \<Rightarrow> (Inr (), s)
      | Some t \<Rightarrow>
          (case cleanup w n t of
             (Inl e, u) \<Rightarrow> (Inl (TargetErr e), s\<lparr>en_targets := AList.update role u (en_targets s)\<rparr>)
           | (Inr _, u) \<Rightarrow> (Inr (), s\<lparr>en_targets := AList.update role u (en_targets s)\<rparr>)))"

definition env_cleanup :: "world \<Rightarrow> nat \<Rightarrow> unit env_action" where
  "env_cleanup w n s = for_each (cleanup_target w n) (keys (en_targets s)) s"


section \<open>The targets of an environment\<close>

text \<open>
  What happens to an environment: a target is asked for, all are cleaned up, or one of them is
  used.
\<close>

inductive env_step :: "classes \<Rightarrow> environment \<Rightarrow> environment \<Rightarrow> bool" for cl where
  asked: "bu_classes b = cl \<Longrightarrow> env_step cl s (snd (get_target b w n role s))"
| cleaned: "env_step cl s (snd (env_cleanup w n s))"
| used: "map_of (en_targets s) role = Some t \<Longrightarrow> target_step cl t u \<Longrightarrow>
    env_step cl s (s\<lparr>en_targets := AList.update role u (en_targets s)\<rparr>)"

definition env_ok :: "classes \<Rightarrow> environment \<Rightarrow> bool" where
  "env_ok cl s \<longleftrightarrow> dict.every (\<lambda>_ t. builds cl new_target t) (en_targets s)"

text \<open>A deactivation is a step, so a cleanup is a sequence of steps.\<close>

lemma deactivate_one_builds: "builds cl s t \<Longrightarrow> builds cl s (snd (deactivate_one w n c t))"
  unfolding deactivate_one_def
  by (rule and_then_keeps [where P = "builds cl s"]) (auto intro: builds_step deactivated)

lemma cleanup_builds: "builds cl s t \<Longrightarrow> builds cl s (snd (cleanup w n t))"
  unfolding cleanup_def deactivate_all_drivers_def
  by (intro and_then_keeps [where P = "builds cl s"] for_each_keeps [where P = "builds cl s"]
      deactivate_one_builds)

lemma env_ok_update:
  "env_ok cl s \<Longrightarrow> builds cl new_target t \<Longrightarrow> env_ok cl (s\<lparr>en_targets := AList.update role t (en_targets s)\<rparr>)"
  by (simp add: env_ok_def dict.every_put)

lemma env_ok_target: "env_ok cl s \<Longrightarrow> map_of (en_targets s) role = Some t \<Longrightarrow> builds cl new_target t"
  unfolding env_ok_def by (rule dict.every_get)

lemma make_target_builds: "builds (bu_classes b) new_target (snd (make_target b w n config))"
  by (rule make_target_reachable)

lemma get_target_ok:
  assumes "env_ok (bu_classes b) s"
  shows "env_ok (bu_classes b) (snd (get_target b w n role s))"
proof -
  have "env_ok (bu_classes b) (s\<lparr>en_targets := AList.update role t (en_targets s)\<rparr>)"
    if "make_target b w n config = (r, t)" for config r t
    using env_ok_update [OF assms make_target_builds] that by (metis snd_conv)
  with assms show ?thesis unfolding get_target_def
    by (auto split: option.split sum.split prod.split)
qed

lemma cleanup_target_ok: "env_ok cl s \<Longrightarrow> env_ok cl (snd (cleanup_target w n role s))"
proof (cases "map_of (en_targets s) role")
  case None
  moreover assume "env_ok cl s"
  ultimately show ?thesis by (simp add: cleanup_target_def)
next
  case (Some t)
  assume ok: "env_ok cl s"
  obtain r u where c: "cleanup w n t = (r, u)" by force
  with cleanup_builds [OF env_ok_target [OF ok Some], of w n] have "builds cl new_target u" by simp
  with env_ok_update [OF ok] Some c show ?thesis by (cases r) (simp_all add: cleanup_target_def)
qed

lemma env_step_ok: "env_step cl s t \<Longrightarrow> env_ok cl s \<Longrightarrow> env_ok cl t"
proof (induction rule: env_step.induct)
  case (asked b s w n role)
  with get_target_ok show ?case by blast
next
  case (cleaned s w n)
  then show ?case unfolding env_cleanup_def
    by (intro for_each_keeps [where P = "env_ok cl"] cleanup_target_ok)
next
  case (used s role t u)
  then show ?case by (intro env_ok_update builds_step [OF env_ok_target])
qed

definition env_start :: "environment \<Rightarrow> bool" where
  "env_start s \<longleftrightarrow> en_targets s = []"

interpretation env: transition_system env_start "env_step cl" "env_ok cl" for cl
  by unfold_locales (simp add: env_start_def env_ok_def dict.every_def, rule env_step_ok)

text \<open>
  Whatever an environment is asked, every target it holds is one that the operations of a target
  reach, so its relations are in order; and a target that was made is returned again as it is,
  without looking at the configuration.
\<close>

lemma environment_targets_ok:
  assumes "env_start s" and "(env_step cl)\<^sup>*\<^sup>* s t" and "map_of (en_targets t) role = Some g"
  shows "builds cl new_target g \<and> target_ok g \<and> get_target b w n role t = (Inr (Some g), t)"
proof -
  have "env_ok cl t" by (rule env.reachable_inv [OF assms(1,2)])
  then have "builds cl new_target g" using assms(3) by (rule env_ok_target)
  moreover from this have "target_ok g" by (rule built_target_ok)
  ultimately show ?thesis using assms(3) by (simp add: get_target_def)
qed

text \<open>A target that is declared empty is none, and makes the question for features fail.\<close>

lemma empty_target_is_none:
  "get_target b w n ''main'' \<lparr>en_config = \<lparr>cf_base = base, cf_data = VDict [(''targets'', VDict [(''main'', VNone)])]\<rparr>,
     en_targets = []\<rparr> =
   (Inr None, \<lparr>en_config = \<lparr>cf_base = base, cf_data = VDict [(''targets'', VDict [(''main'', VNone)])]\<rparr>,
     en_targets = []\<rparr>)"
  by (simp add: get_target_def get_targets_def)

lemma empty_target_breaks_features:
  "get_target_features \<lparr>en_config = \<lparr>cf_base = base, cf_data = VDict [(''targets'', VDict [(''main'', VNone)])]\<rparr>,
     en_targets = ts\<rparr> = Inl AttributeError"
  by (simp add: get_target_features_def get_targets_def)


section \<open>A configuration with a console\<close>

definition sample_builder :: builder where
  "sample_builder =
     \<lparr>bu_factory = \<lparr>fa_resources = [''SerialPort''], fa_drivers = [''SerialDriver''],
        fa_all = [''SerialPort'', ''Resource'', ''SerialDriver'', ''Driver'']\<rparr>,
      bu_classes = demo_classes,
      bu_constructor = (\<lambda>_. \<lparr>co_fields = [(''target'', True), (''name'', True), (''port'', True)], co_required = [],
        co_check = (\<lambda>_. None), co_finish = (\<lambda>_. None), co_managed = False\<rparr>)\<rparr>"

definition sample_environment :: environment where
  "sample_environment = \<lparr>en_config = \<lparr>cf_base = ''/w'', cf_data = VDict [(''targets'', VDict [(''main'', VDict
     [(''resources'', VDict [(''SerialPort'', VDict [(''port'', VStr ''/dev/ttyS0'')])]),
      (''drivers'', VDict [(''SerialDriver'', VDict [])])])])]\<rparr>, en_targets = []\<rparr>"

definition sample_main :: target where
  "sample_main = snd (make_target sample_builder demo_world 4 (VDict
     [(''resources'', VDict [(''SerialPort'', VDict [(''port'', VStr ''/dev/ttyS0'')])]),
      (''drivers'', VDict [(''SerialDriver'', VDict [])])]))"

lemma sample_main_objects:
  "tg_resources sample_main = [0]" "tg_drivers sample_main = [1]" "bd_suppliers (obj sample_main 1) = [0]"
  by code_simp+

definition sample_running :: environment where
  "sample_running = snd (get_target sample_builder demo_world 4 ''main'' sample_environment)"

lemma sample_running_main: "map_of (en_targets sample_running) ''main'' = Some sample_main"
proof -
  have "fst (make_target sample_builder demo_world 4 (VDict
     [(''resources'', VDict [(''SerialPort'', VDict [(''port'', VStr ''/dev/ttyS0'')])]),
      (''drivers'', VDict [(''SerialDriver'', VDict [])])])) = Inr ()" by code_simp
  then have "make_target sample_builder demo_world 4 (VDict
     [(''resources'', VDict [(''SerialPort'', VDict [(''port'', VStr ''/dev/ttyS0'')])]),
      (''drivers'', VDict [(''SerialDriver'', VDict [])])]) = (Inr (), sample_main)"
    unfolding sample_main_def by (metis prod.collapse)
  then show ?thesis
    by (simp add: sample_running_def sample_environment_def get_target_def get_targets_def)
qed

theorem environment_targets_ok_witness:
  "target_ok sample_main \<and>
   get_target sample_builder demo_world 4 ''main'' sample_running = (Inr (Some sample_main), sample_running)"
proof -
  have "env_start sample_environment" by (simp add: env_start_def sample_environment_def)
  moreover have "(env_step (bu_classes sample_builder))\<^sup>*\<^sup>* sample_environment sample_running"
    unfolding sample_running_def by (intro r_into_rtranclp asked refl)
  ultimately show ?thesis using environment_targets_ok [OF _ _ sample_running_main] by blast
qed

end
