(* ===== verification/Strategies.thy ===== *)
theory Strategies
  imports Prelude
begin

text \<open>
  The strategies \<^verbatim>\<open>labgrid/strategy/{common,bareboxstrategy,ubootstrategy,shellstrategy,dockerstrategy}.py\<close>.
  A strategy calls its target and its drivers; what it called is a log, and which of the calls
  raises is decided by a function of the number of calls made so far.
\<close>

section \<open>Calls and the decorator \<open>never_retry\<close>\<close>

datatype call = Activate string | Deactivate string | Method string string

datatype strategy_error =
    StrategyBroken
  | StrategyRefused
  | UnknownStatus
  | CallFailed nat

record 'st strategy =
  sg_status :: 'st
  sg_broken :: "strategy_error option"
  sg_log :: "call list"
  sg_fails :: "nat \<Rightarrow> bool"

type_synonym 'st stepping = "'st strategy \<Rightarrow> (strategy_error, unit, 'st strategy) outcome"

definition call :: "call \<Rightarrow> 'st stepping" where
  "call c s =
     (let n = length (sg_log s); t = s\<lparr>sg_log := sg_log s @ [c]\<rparr> in
      if sg_fails s n then (Inl (CallFailed n), t) else (Inr (), t))"

definition calls :: "call list \<Rightarrow> 'st stepping" where
  "calls cs = for_each call cs"

definition never_retry :: "'st stepping \<Rightarrow> 'st stepping" where
  "never_retry f s =
     (if sg_broken s \<noteq> None then (Inl StrategyBroken, s)
      else case f s of
        (Inl e, t) \<Rightarrow> (Inl StrategyBroken, t\<lparr>sg_broken := Some e\<rparr>)
      | (Inr _, t) \<Rightarrow> (Inr (), t))"

definition skip :: "'st stepping" where
  "skip s = (Inr (), s)"

definition refuse :: "'st stepping" where
  "refuse s = (Inl StrategyRefused, s)"

text \<open>
  The shape of one branch of a transition: nothing if the status is reached already, otherwise
  an earlier transition, the calls and the new status.
\<close>

definition branch :: "'st \<Rightarrow> 'st stepping \<Rightarrow> call list \<Rightarrow> 'st stepping" where
  "branch st before cs = never_retry (\<lambda>s.
     if st = sg_status s then (Inr (), s)
     else and_then (before s) (\<lambda>_ t. and_then (calls cs t) (\<lambda>_ u. (Inr (), u\<lparr>sg_status := st\<rparr>))))"

text \<open>A status may be given by its name; \<open>Status[name]\<close> raises for any other name.\<close>

datatype 'st status_arg = Status 'st | Named string

definition with_status :: "(string \<Rightarrow> 'st option) \<Rightarrow> ('st \<Rightarrow> 'st stepping) \<Rightarrow> 'st status_arg \<Rightarrow> 'st stepping"
where
  "with_status names f a =
     (case a of
        Status st \<Rightarrow> f st
      | Named n \<Rightarrow>
          (case names n of
             None \<Rightarrow> never_retry (\<lambda>s. (Inl UnknownStatus, s))
           | Some st \<Rightarrow> f st))"


section \<open>\<open>BareboxStrategy\<close>\<close>

datatype barebox_status = BareboxUnknown | BareboxOff | BareboxBarebox | BareboxShell

definition barebox_names :: "string \<Rightarrow> barebox_status option" where
  "barebox_names n =
     (if n = ''unknown'' then Some BareboxUnknown else if n = ''off'' then Some BareboxOff
      else if n = ''barebox'' then Some BareboxBarebox else if n = ''shell'' then Some BareboxShell
      else None)"

definition barebox_off :: "barebox_status stepping" where
  "barebox_off = branch BareboxOff skip
     [Deactivate ''console'', Activate ''power'', Method ''power'' ''off'']"

definition barebox_barebox :: "barebox_status stepping" where
  "barebox_barebox = branch BareboxBarebox barebox_off
     [Activate ''console'', Method ''power'' ''cycle'', Activate ''barebox'']"

definition barebox_shell :: "barebox_status stepping" where
  "barebox_shell = branch BareboxShell barebox_barebox
     [Method ''barebox'' ''boot'', Method ''barebox'' ''await_boot'', Activate ''shell'',
      Method ''shell'' ''run'']"

fun barebox_to :: "barebox_status \<Rightarrow> barebox_status stepping" where
  "barebox_to BareboxUnknown = never_retry refuse"
| "barebox_to BareboxOff = barebox_off"
| "barebox_to BareboxBarebox = barebox_barebox"
| "barebox_to BareboxShell = barebox_shell"

definition barebox_transition :: "barebox_status status_arg \<Rightarrow> barebox_status stepping" where
  "barebox_transition = with_status barebox_names barebox_to"

definition forced :: "'st \<Rightarrow> call list \<Rightarrow> 'st stepping" where
  "forced st cs s = and_then (calls cs s) (\<lambda>_ t. (Inr (), t\<lparr>sg_status := st\<rparr>))"

fun barebox_force_to :: "barebox_status \<Rightarrow> barebox_status stepping" where
  "barebox_force_to BareboxBarebox =
     never_retry (forced BareboxBarebox [Activate ''power'', Activate ''barebox''])"
| "barebox_force_to BareboxShell =
     never_retry (forced BareboxShell [Activate ''power'', Activate ''shell''])"
| "barebox_force_to _ = never_retry (\<lambda>s. and_then (calls [Activate ''power''] s) (\<lambda>_. refuse))"

definition barebox_force :: "barebox_status status_arg \<Rightarrow> barebox_status stepping" where
  "barebox_force = with_status barebox_names barebox_force_to"


section \<open>\<open>UBootStrategy\<close>\<close>

datatype uboot_status = UBootUnknown | UBootOff | UBootUBoot | UBootShell

definition uboot_names :: "string \<Rightarrow> uboot_status option" where
  "uboot_names n =
     (if n = ''unknown'' then Some UBootUnknown else if n = ''off'' then Some UBootOff
      else if n = ''uboot'' then Some UBootUBoot else if n = ''shell'' then Some UBootShell
      else None)"

definition uboot_off :: "uboot_status stepping" where
  "uboot_off = branch UBootOff skip
     [Deactivate ''console'', Activate ''power'', Method ''power'' ''off'']"

definition uboot_uboot :: "uboot_status stepping" where
  "uboot_uboot = branch UBootUBoot uboot_off
     [Activate ''console'', Method ''power'' ''cycle'', Activate ''uboot'']"

definition uboot_shell :: "uboot_status stepping" where
  "uboot_shell = branch UBootShell uboot_uboot
     [Method ''uboot'' ''boot'', Method ''uboot'' ''await_boot'', Activate ''shell'',
      Method ''shell'' ''run'']"

fun uboot_to :: "uboot_status \<Rightarrow> uboot_status stepping" where
  "uboot_to UBootUnknown = never_retry refuse"
| "uboot_to UBootOff = uboot_off"
| "uboot_to UBootUBoot = uboot_uboot"
| "uboot_to UBootShell = uboot_shell"

definition uboot_transition :: "uboot_status status_arg \<Rightarrow> uboot_status stepping" where
  "uboot_transition = with_status uboot_names uboot_to"

fun uboot_force_to :: "uboot_status \<Rightarrow> uboot_status stepping" where
  "uboot_force_to UBootOff = never_retry (forced UBootOff [Activate ''power''])"
| "uboot_force_to UBootUBoot = never_retry (forced UBootUBoot [Activate ''uboot''])"
| "uboot_force_to UBootShell = never_retry (forced UBootShell [Activate ''shell''])"
| "uboot_force_to UBootUnknown = never_retry refuse"

definition uboot_force :: "uboot_status status_arg \<Rightarrow> uboot_status stepping" where
  "uboot_force = with_status uboot_names uboot_force_to"


section \<open>\<open>ShellStrategy\<close>\<close>

datatype shell_status = ShellUnknown | ShellOff | ShellShell

definition shell_names :: "string \<Rightarrow> shell_status option" where
  "shell_names n =
     (if n = ''unknown'' then Some ShellUnknown else if n = ''off'' then Some ShellOff
      else if n = ''shell'' then Some ShellShell else None)"

definition shell_off :: "shell_status stepping" where
  "shell_off = branch ShellOff skip
     [Deactivate ''console'', Activate ''power'', Method ''power'' ''off'']"

definition shell_shell :: "shell_status stepping" where
  "shell_shell = branch ShellShell shell_off
     [Activate ''console'', Method ''power'' ''cycle'', Activate ''shell'', Method ''shell'' ''run'']"

fun shell_to :: "shell_status \<Rightarrow> shell_status stepping" where
  "shell_to ShellUnknown = never_retry refuse"
| "shell_to ShellOff = shell_off"
| "shell_to ShellShell = shell_shell"

definition shell_transition :: "shell_status status_arg \<Rightarrow> shell_status stepping" where
  "shell_transition = with_status shell_names shell_to"

fun shell_force_to :: "shell_status \<Rightarrow> shell_status stepping" where
  "shell_force_to ShellUnknown = never_retry refuse"
| "shell_force_to ShellOff = never_retry (forced ShellOff [Deactivate ''shell'', Activate ''power''])"
| "shell_force_to ShellShell = never_retry (forced ShellShell [Activate ''power'', Activate ''shell''])"

definition shell_force :: "shell_status status_arg \<Rightarrow> shell_status stepping" where
  "shell_force = with_status shell_names shell_force_to"


section \<open>\<open>DockerStrategy\<close>\<close>

datatype docker_status = DockerUnknown | DockerGone | DockerAccessible

definition docker_names :: "string \<Rightarrow> docker_status option" where
  "docker_names n =
     (if n = ''unknown'' then Some DockerUnknown else if n = ''gone'' then Some DockerGone
      else if n = ''accessible'' then Some DockerAccessible else None)"

text \<open>A transition to \<open>unknown\<close> is refused unless the status is unknown still.\<close>

fun docker_to :: "docker_status \<Rightarrow> docker_status stepping" where
  "docker_to DockerUnknown = branch DockerUnknown refuse []"
| "docker_to DockerAccessible = branch DockerAccessible skip
     [Activate ''docker_driver'', Method ''docker_driver'' ''on'']"
| "docker_to DockerGone = branch DockerGone skip
     [Activate ''docker_driver'', Method ''docker_driver'' ''off'', Deactivate ''docker_driver'']"

definition docker_transition :: "docker_status status_arg \<Rightarrow> docker_status stepping" where
  "docker_transition = with_status docker_names docker_to"


section \<open>A transition performs the calls of its plan\<close>

text \<open>The calls that lead from one status to another, as lists.\<close>

definition barebox_plan :: "barebox_status \<Rightarrow> barebox_status \<Rightarrow> call list" where
  "barebox_plan cur st =
     (let off = (if cur = BareboxOff then []
                 else [Deactivate ''console'', Activate ''power'', Method ''power'' ''off'']);
          barebox = (if cur = BareboxBarebox then []
                 else off @ [Activate ''console'', Method ''power'' ''cycle'', Activate ''barebox'']);
          shell = (if cur = BareboxShell then []
                 else barebox @ [Method ''barebox'' ''boot'', Method ''barebox'' ''await_boot'',
                                 Activate ''shell'', Method ''shell'' ''run'']) in
      case st of BareboxUnknown \<Rightarrow> [] | BareboxOff \<Rightarrow> off | BareboxBarebox \<Rightarrow> barebox
      | BareboxShell \<Rightarrow> shell)"

definition uboot_plan :: "uboot_status \<Rightarrow> uboot_status \<Rightarrow> call list" where
  "uboot_plan cur st =
     (let off = (if cur = UBootOff then []
                 else [Deactivate ''console'', Activate ''power'', Method ''power'' ''off'']);
          uboot = (if cur = UBootUBoot then []
                 else off @ [Activate ''console'', Method ''power'' ''cycle'', Activate ''uboot'']);
          shell = (if cur = UBootShell then []
                 else uboot @ [Method ''uboot'' ''boot'', Method ''uboot'' ''await_boot'',
                               Activate ''shell'', Method ''shell'' ''run'']) in
      case st of UBootUnknown \<Rightarrow> [] | UBootOff \<Rightarrow> off | UBootUBoot \<Rightarrow> uboot | UBootShell \<Rightarrow> shell)"

definition shell_plan :: "shell_status \<Rightarrow> shell_status \<Rightarrow> call list" where
  "shell_plan cur st =
     (let off = (if cur = ShellOff then []
                 else [Deactivate ''console'', Activate ''power'', Method ''power'' ''off'']);
          shell = (if cur = ShellShell then []
                 else off @ [Activate ''console'', Method ''power'' ''cycle'', Activate ''shell'',
                             Method ''shell'' ''run'']) in
      case st of ShellUnknown \<Rightarrow> [] | ShellOff \<Rightarrow> off | ShellShell \<Rightarrow> shell)"

text \<open>
  \<open>performs st p s m\<close>: the outcome \<open>m\<close> is that of the calls \<open>p\<close>: the new status when all of them
  returned; a broken strategy, and the log up to the call that raised, otherwise.
\<close>

definition performs ::
  "'st \<Rightarrow> call list \<Rightarrow> 'st strategy \<Rightarrow> (strategy_error, unit, 'st strategy) outcome \<Rightarrow> bool" where
  "performs st p s m \<longleftrightarrow>
     (case calls p s of
        (Inr _, u) \<Rightarrow> m = (Inr (), u\<lparr>sg_status := st\<rparr>)
      | (Inl e, u) \<Rightarrow> fst m = Inl StrategyBroken \<and> sg_log (snd m) = sg_log u \<and>
          sg_broken (snd m) \<noteq> None)"

lemma calls_frame:
  "sg_broken (snd (calls p s)) = sg_broken s \<and> sg_status (snd (calls p s)) = sg_status s \<and>
   sg_fails (snd (calls p s)) = sg_fails s"
  unfolding calls_def
  by (rule for_each_keeps) (simp_all add: call_def Let_def)

text \<open>The calls do not look at the status or at \<open>broken\<close>.\<close>

lemma call_status: "call c (s\<lparr>sg_status := st\<rparr>) = (fst (call c s), (snd (call c s))\<lparr>sg_status := st\<rparr>)"
  by (simp add: call_def Let_def)

lemma calls_status:
  "calls p (s\<lparr>sg_status := st\<rparr>) = (fst (calls p s), (snd (calls p s))\<lparr>sg_status := st\<rparr>)"
  unfolding calls_def
proof (induction p arbitrary: s)
  case Nil
  then show ?case by simp
next
  case (Cons c p)
  obtain r t where "call c s = (r, t)" by force
  with Cons show ?case by (cases r) (simp_all add: call_status)
qed

lemma calls_append: "calls (p @ q) s = and_then (calls p s) (\<lambda>_. calls q)"
  by (simp add: calls_def for_each_append)

lemma calls_Nil [simp]: "calls [] s = (Inr (), s)"
  by (simp add: calls_def)

lemma performs_Nil: "sg_status s = st \<Longrightarrow> performs st [] s (Inr (), s)"
  by (simp add: performs_def)

text \<open>The branch of a status that is not reached yet, after a transition that performs \<open>p\<close>.\<close>

lemma branch_performs:
  assumes "sg_broken s = None" and "sg_status s \<noteq> st" and before: "performs st' p s (before s)"
  shows "performs st (p @ cs) s (branch st before cs s)"
proof -
  obtain r u where p: "calls p s = (r, u)" by force
  have frame: "sg_broken u = None" using calls_frame [of p s] assms(1) p by simp
  show ?thesis
  proof (cases r)
    case (Inl e)
    from before p Inl have "fst (before s) = Inl StrategyBroken" "sg_log (snd (before s)) = sg_log u"
      by (simp_all add: performs_def)
    then obtain v where v: "before s = (Inl StrategyBroken, v)" "sg_log v = sg_log u"
      by (cases "before s") simp
    then have "branch st before cs s = (Inl StrategyBroken, v\<lparr>sg_broken := Some StrategyBroken\<rparr>)"
      using assms(1,2) by (simp add: branch_def never_retry_def)
    then show ?thesis using p Inl v(2) by (simp add: performs_def calls_append)
  next
    case (Inr a)
    from before p Inr have b: "before s = (Inr (), u\<lparr>sg_status := st'\<rparr>)" by (simp add: performs_def)
    obtain q v where q: "calls cs u = (q, v)" by force
    show ?thesis
    proof (cases q)
      case (Inl e)
      with assms(1,2) b p Inr q show ?thesis
        by (simp add: performs_def calls_append branch_def never_retry_def calls_status)
    next
      case (Inr c)
      with assms(1,2) b p \<open>r = Inr a\<close> q show ?thesis
        by (simp add: performs_def calls_append branch_def never_retry_def calls_status)
    qed
  qed
qed

lemma branch_reached: "sg_broken s = None \<Longrightarrow> sg_status s = st \<Longrightarrow> branch st before cs s = (Inr (), s)"
  by (simp add: branch_def never_retry_def)

lemma skip_performs: "performs (sg_status s) [] s (skip s)"
  by (simp add: performs_def skip_def)

lemma first_performs:
  "sg_broken s = None \<Longrightarrow>
   performs st (if sg_status s = st then [] else cs) s (branch st skip cs s)"
  using branch_performs [where s = s and st = st and st' = "sg_status s" and p = "[]" and before = skip and cs = cs]
  by (simp add: branch_reached performs_Nil skip_performs)

lemma next_performs:
  "sg_broken s = None \<Longrightarrow> performs st' p s (before s) \<Longrightarrow>
   performs st (if sg_status s = st then [] else p @ cs) s (branch st before cs s)"
  using branch_performs [where s = s and st = st and st' = st' and p = p and before = before and cs = cs]
  by (simp add: branch_reached performs_Nil)

lemma barebox_performs:
  assumes "sg_broken s = None" and "st \<noteq> BareboxUnknown"
  shows "performs st (barebox_plan (sg_status s) st) s (barebox_to st s)"
proof -
  note off = first_performs [OF assms(1), where st = BareboxOff and cs =
    "[Deactivate ''console'', Activate ''power'', Method ''power'' ''off'']", folded barebox_off_def]
  note barebox = next_performs [where before = barebox_off, OF assms(1) off, where st = BareboxBarebox and cs =
    "[Activate ''console'', Method ''power'' ''cycle'', Activate ''barebox'']", folded barebox_barebox_def]
  note shell = next_performs [where before = barebox_barebox, OF assms(1) barebox, where st = BareboxShell and cs =
    "[Method ''barebox'' ''boot'', Method ''barebox'' ''await_boot'', Activate ''shell'',
      Method ''shell'' ''run'']", folded barebox_shell_def]
  show ?thesis
    using assms(2) off barebox shell
    by (cases st) (simp_all only: barebox_plan_def Let_def barebox_to.simps barebox_status.case simp_thms)
qed

lemma uboot_performs:
  assumes "sg_broken s = None" and "st \<noteq> UBootUnknown"
  shows "performs st (uboot_plan (sg_status s) st) s (uboot_to st s)"
proof -
  note off = first_performs [OF assms(1), where st = UBootOff and cs =
    "[Deactivate ''console'', Activate ''power'', Method ''power'' ''off'']", folded uboot_off_def]
  note uboot = next_performs [where before = uboot_off, OF assms(1) off, where st = UBootUBoot and cs =
    "[Activate ''console'', Method ''power'' ''cycle'', Activate ''uboot'']", folded uboot_uboot_def]
  note shell = next_performs [where before = uboot_uboot, OF assms(1) uboot, where st = UBootShell and cs =
    "[Method ''uboot'' ''boot'', Method ''uboot'' ''await_boot'', Activate ''shell'',
      Method ''shell'' ''run'']", folded uboot_shell_def]
  show ?thesis
    using assms(2) off uboot shell
    by (cases st) (simp_all only: uboot_plan_def Let_def uboot_to.simps uboot_status.case simp_thms)
qed

lemma shell_performs:
  assumes "sg_broken s = None" and "st \<noteq> ShellUnknown"
  shows "performs st (shell_plan (sg_status s) st) s (shell_to st s)"
proof -
  note off = first_performs [OF assms(1), where st = ShellOff and cs =
    "[Deactivate ''console'', Activate ''power'', Method ''power'' ''off'']", folded shell_off_def]
  note shell = next_performs [where before = shell_off, OF assms(1) off, where st = ShellShell and cs =
    "[Activate ''console'', Method ''power'' ''cycle'', Activate ''shell'', Method ''shell'' ''run'']",
    folded shell_shell_def]
  show ?thesis
    using assms(2) off shell
    by (cases st) (simp_all only: shell_plan_def Let_def shell_to.simps shell_status.case simp_thms)
qed

text \<open>
  C19. A transition of the barebox, U-Boot and shell strategies makes exactly the calls of the plan from
  the present status to the requested one, and stops at the first call that raises. It returns
  exactly when all of them return, with the requested status; otherwise the strategy is broken.
\<close>

theorem transitions_follow_plan:
  assumes "sg_broken b = None" and "sg_broken u = None" and "sg_broken h = None"
    and "bst \<noteq> BareboxUnknown" and "ust \<noteq> UBootUnknown" and "hst \<noteq> ShellUnknown"
  shows "performs bst (barebox_plan (sg_status b) bst) b (barebox_transition (Status bst) b) \<and>
    performs ust (uboot_plan (sg_status u) ust) u (uboot_transition (Status ust) u) \<and>
    performs hst (shell_plan (sg_status h) hst) h (shell_transition (Status hst) h)"
  using assms barebox_performs uboot_performs shell_performs
  by (simp add: barebox_transition_def uboot_transition_def shell_transition_def with_status_def)

definition demo_strategy :: "'st \<Rightarrow> 'st strategy" where
  "demo_strategy st = \<lparr>sg_status = st, sg_broken = None, sg_log = [], sg_fails = (\<lambda>n. n = 5)\<rparr>"

theorem transitions_follow_plan_witness:
  "sg_log (snd (barebox_transition (Status BareboxShell) (demo_strategy BareboxUnknown))) =
     [Deactivate ''console'', Activate ''power'', Method ''power'' ''off'', Activate ''console'',
      Method ''power'' ''cycle'', Activate ''barebox'']"
proof -
  have p: "performs BareboxShell (barebox_plan BareboxUnknown BareboxShell) (demo_strategy BareboxUnknown)
      (barebox_transition (Status BareboxShell) (demo_strategy BareboxUnknown))"
    using transitions_follow_plan [where b = "demo_strategy BareboxUnknown" and bst = BareboxShell
        and u = "demo_strategy UBootUnknown" and ust = UBootOff
        and h = "demo_strategy ShellUnknown" and hst = ShellOff]
    by (simp add: demo_strategy_def)
  have "\<exists>u. calls (barebox_plan BareboxUnknown BareboxShell) (demo_strategy BareboxUnknown) =
      (Inl (CallFailed 5), u) \<and> sg_log u =
      [Deactivate ''console'', Activate ''power'', Method ''power'' ''off'', Activate ''console'',
      Method ''power'' ''cycle'', Activate ''barebox'']"
    by (simp add: barebox_plan_def calls_def call_def Let_def demo_strategy_def)
  with p show ?thesis by (auto simp: performs_def)
qed

lemma never_retry_result:
  "(case never_retry f s of
      (Inl e, t) \<Rightarrow> e = StrategyBroken \<and> sg_broken t \<noteq> None
    | (Inr _, t) \<Rightarrow> sg_broken s = None) \<and>
   (sg_broken s = None \<or> never_retry f s = (Inl StrategyBroken, s))"
  by (cases "f s"; cases "fst (f s)") (auto simp: never_retry_def)

lemma barebox_transition_decorated: "\<exists>f. barebox_transition a = never_retry f"
proof (cases a)
  case (Status st)
  then show ?thesis
    by (cases st) (auto simp: barebox_transition_def with_status_def barebox_off_def barebox_barebox_def
        barebox_shell_def branch_def fun_eq_iff)
next
  case (Named n)
  show ?thesis
  proof (cases "barebox_names n")
    case None
    with Named show ?thesis by (auto simp: barebox_transition_def with_status_def)
  next
    case (Some st)
    with Named show ?thesis
      by (cases st) (auto simp: barebox_transition_def with_status_def barebox_off_def
          barebox_barebox_def barebox_shell_def branch_def fun_eq_iff)
  qed
qed

lemma barebox_force_decorated: "\<exists>f. barebox_force a = never_retry f"
proof (cases a)
  case (Status st)
  then show ?thesis by (cases st) (auto simp: barebox_force_def with_status_def)
next
  case (Named n)
  show ?thesis
  proof (cases "barebox_names n")
    case None
    with Named show ?thesis by (auto simp: barebox_force_def with_status_def)
  next
    case (Some st)
    with Named show ?thesis by (cases st) (auto simp: barebox_force_def with_status_def)
  qed
qed

text \<open>
  Whatever a transition of the barebox strategy raises breaks the strategy, a misspelled status
  and a refused one included; a broken strategy makes no further call and raises for ever, and
  no transition and no \<open>force\<close> repairs it.
\<close>

lemma broken_for_good:
  "(case barebox_transition a s of
      (Inl e, t) \<Rightarrow> e = StrategyBroken \<and> sg_broken t \<noteq> None
    | (Inr _, t) \<Rightarrow> sg_broken s = None) \<and>
   (case sg_broken s of
      None \<Rightarrow> True
    | Some e \<Rightarrow> barebox_transition a s = (Inl StrategyBroken, s) \<and>
        barebox_force a s = (Inl StrategyBroken, s)) \<and>
   (case a of
      Named n \<Rightarrow> (if barebox_names n = None then fst (barebox_transition a s) = Inl StrategyBroken else True)
    | Status st \<Rightarrow> (if st = BareboxUnknown then fst (barebox_transition a s) = Inl StrategyBroken else True))"
proof -
  obtain f where f: "barebox_transition a = never_retry f" using barebox_transition_decorated by blast
  obtain g where g: "barebox_force a = never_retry g" using barebox_force_decorated by blast
  have "case a of
      Named n \<Rightarrow> (if barebox_names n = None then fst (barebox_transition a s) = Inl StrategyBroken else True)
    | Status st \<Rightarrow> (if st = BareboxUnknown then fst (barebox_transition a s) = Inl StrategyBroken else True)"
    by (auto simp: barebox_transition_def with_status_def never_retry_def refuse_def
        split: status_arg.split option.split)
  with never_retry_result [where f = f and s = s] never_retry_result [where f = g and s = s] show ?thesis
    by (auto simp: f g split: option.splits)
qed

text \<open>
  The decorator means to keep the original exception, but where one decorated method calls another,
  the outer one replaces it by the \<open>StrategyError\<close> that the inner one raised.
\<close>

lemma nested_failure_hides_cause:
  assumes "sg_broken s = None" and "sg_status s = BareboxUnknown" and "sg_fails s (length (sg_log s))"
  shows "sg_broken (snd (barebox_transition (Status BareboxOff) s)) = Some (CallFailed (length (sg_log s))) \<and>
    sg_broken (snd (barebox_transition (Status BareboxBarebox) s)) = Some StrategyBroken"
  using assms
  by (simp add: barebox_transition_def with_status_def barebox_barebox_def barebox_off_def branch_def
      never_retry_def skip_def calls_def call_def Let_def)

end
