(* ===== verification/GraphStrategy.thy ===== *)
theory GraphStrategy
  imports PyLib
begin

text \<open>
  \<^verbatim>\<open>labgrid/strategy/graphstrategy.py\<close>: the states of a graph strategy with the states they depend on,
  the path from the root to a state, and the transition that runs the methods of a path. A method
  and the deactivation of all drivers are calls in a log; which of them raises is decided by a
  function of the number of calls made so far. The path of the drawing (\<open>graph\<close>) is left out.
\<close>

section \<open>State\<close>

datatype graph_error =
    InvalidStrategy
  | AlreadyRunning
  | UnknownState string
  | NoSuchPath
  | BadVia
  | MissingState
  | StateFailed nat

datatype graph_call = RunState string | DeactivateAll

type_synonym states = "(string, string list) dict"

record graph_strategy =
  gs_states :: states
  gs_root :: string
  gs_path :: "string list"
  gs_running :: bool
  gs_log :: "graph_call list"
  gs_fails :: "nat \<Rightarrow> bool"

definition graph_call :: "graph_call \<Rightarrow> graph_strategy \<Rightarrow> (graph_error, unit, graph_strategy) outcome"
where
  "graph_call c s =
     (let n = length (gs_log s); t = s\<lparr>gs_log := gs_log s @ [c]\<rparr> in
      if gs_fails s n then (Inl (StateFailed n), t) else (Inr (), t))"


section \<open>Finding the states\<close>

text \<open>
  The attributes of the class in the order of \<open>dir\<close>: the name, whether it is callable, and its
  dependencies.
\<close>

definition starts_with :: "string \<Rightarrow> string \<Rightarrow> bool" where
  "starts_with p s \<longleftrightarrow> take (length p) s = p"

definition state_name :: "string \<Rightarrow> string" where
  "state_name a = join_with ''_'' (tl (split_on (CHR ''_'') a))"

fun find_states :: "(string \<times> bool \<times> string list) list \<Rightarrow> states \<Rightarrow> graph_error + states" where
  "find_states [] sts = Inr sts"
| "find_states ((a, callable, deps) # attrs) sts =
     (if \<not> starts_with ''state_'' a then find_states attrs sts
      else if \<not> callable then Inl InvalidStrategy
      else find_states attrs (AList.update (state_name a) deps sts))"

definition known :: "states \<Rightarrow> string \<Rightarrow> bool" where
  "known sts st \<longleftrightarrow> st \<in> set (keys sts)"

definition root_states :: "states \<Rightarrow> string list" where
  "root_states sts = keys (filter (\<lambda>(k, deps). deps = []) sts)"

definition invalidate :: "graph_strategy \<Rightarrow> (graph_error, unit, graph_strategy) outcome" where
  "invalidate s = graph_call DeactivateAll (s\<lparr>gs_path := []\<rparr>)"

definition init_strategy ::
  "(string \<times> bool \<times> string list) list \<Rightarrow> graph_strategy \<Rightarrow> (graph_error, unit, graph_strategy) outcome" where
  "init_strategy attrs s =
     (case find_states attrs [] of
        Inl e \<Rightarrow> (Inl e, s)
      | Inr sts \<Rightarrow>
          (if sts = [] then (Inl InvalidStrategy, s)
           else if list_ex (\<lambda>(k, deps). list_ex (\<lambda>d. \<not> known sts d) deps) sts
           then (Inl InvalidStrategy, s)
           else case root_states sts of
             [r] \<Rightarrow> invalidate (s\<lparr>gs_states := sts, gs_root := r, gs_running := False\<rparr>)
           | _ \<Rightarrow> (Inl InvalidStrategy, s)))"


section \<open>Paths\<close>

text \<open>
  The loop over \<open>via\<close> removes from the list it iterates over: the position goes on by one while what
  follows moves back by one, so that the state after a removed one is not looked at.
\<close>

function scan_via :: "string list \<Rightarrow> nat \<Rightarrow> string list \<Rightarrow> string \<Rightarrow> string list \<times> string" where
  "scan_via deps i via nxt =
     (if i < length via then
        (if via ! i \<in> set deps then scan_via deps (Suc i) (remove1 (via ! i) via) (via ! i)
         else scan_via deps (Suc i) via nxt)
      else (via, nxt))"
  by pat_completeness auto
termination
  by (relation "measure (\<lambda>(deps, i, via, nxt). length via - i)") (auto simp: length_remove1)

declare scan_via.simps [simp del]

text \<open>
  The loop from a state back to the root, \<open>n\<close> rounds of it; \<open>None\<close> when it has not ended by then.
\<close>

fun walk :: "nat \<Rightarrow> states \<Rightarrow> string \<Rightarrow> string list \<Rightarrow> string list \<Rightarrow>
  (graph_error + string list \<times> string list) option" where
  "walk 0 sts cur via path = None"
| "walk (Suc n) sts cur via path =
     (case map_of sts cur of
        None \<Rightarrow> Some (Inl MissingState)
      | Some [] \<Rightarrow> Some (Inr (path, via))
      | Some (d # ds) \<Rightarrow>
          (case scan_via (d # ds) 0 via d of
             (via', nxt) \<Rightarrow> walk n sts nxt via' (nxt # path)))"

definition find_abs_path ::
  "nat \<Rightarrow> states \<Rightarrow> string \<Rightarrow> string list \<Rightarrow> (graph_error + string list) option" where
  "find_abs_path n sts st via =
     (if \<not> known sts st then Some (Inl MissingState)
      else case find (\<lambda>v. \<not> known sts v) (rev via) of
        Some v \<Rightarrow> Some (Inl (UnknownState v))
      | None \<Rightarrow>
          (case walk n sts st (rev via) [st] of
             None \<Rightarrow> None
           | Some (Inl e) \<Rightarrow> Some (Inl e)
           | Some (Inr (path, left)) \<Rightarrow>
               Some (if left \<noteq> [] then Inl NoSuchPath else Inr path)))"

text \<open>
  \<open>path[: -(len(path) - len(self.path))]\<close>: a negative bound counts from the end; for paths of equal
  length it is 0 and the slice is empty, and for a shorter \<open>path\<close> it is positive.
\<close>

definition slice_upto :: "'a list \<Rightarrow> int \<Rightarrow> 'a list" where
  "slice_upto xs k = (if k < 0 then take (nat (int (length xs) + k)) xs else take (nat k) xs)"

definition find_rel_path :: "string list \<Rightarrow> string list \<Rightarrow> string list" where
  "find_rel_path cur path =
     (if slice_upto path (- (int (length path) - int (length cur))) = cur
      then drop (length cur) path else path)"


section \<open>Transitions\<close>

fun run_states :: "string list \<Rightarrow> graph_strategy \<Rightarrow> (graph_error, unit, graph_strategy) outcome" where
  "run_states [] s = (Inr (), s)"
| "run_states (st # sts) s =
     and_then (if st = gs_root s then graph_call DeactivateAll s else (Inr (), s))
       (\<lambda>_ t. case graph_call (RunState st) t of
          (Inl e, u) \<Rightarrow> and_then (invalidate u) (\<lambda>_ v. (Inl e, v))
        | (Inr _, u) \<Rightarrow> run_states sts u)"

text \<open>The part under the lock.\<close>

definition locked_transition ::
  "nat \<Rightarrow> string \<Rightarrow> string list \<Rightarrow> graph_strategy \<Rightarrow>
   (graph_error, string list, graph_strategy) outcome option" where
  "locked_transition n st via s =
     (if gs_running s then Some (Inl AlreadyRunning, s)
      else let s1 = s\<lparr>gs_running := True\<rparr> in
        if \<not> known (gs_states s) st then Some (Inl (UnknownState st), s1)
        else case find_abs_path n (gs_states s) st via of
          None \<Rightarrow> None
        | Some (Inl e) \<Rightarrow> Some (Inl e, s1)
        | Some (Inr abs_path) \<Rightarrow>
            Some (if abs_path = gs_path s then (Inr [], s1)
              else let path = find_rel_path (gs_path s) abs_path in
                and_then (run_states path s1) (\<lambda>_ t. (Inr path, t\<lparr>gs_path := abs_path\<rparr>))))"

definition unlock ::
  "(graph_error, string list, graph_strategy) outcome \<Rightarrow> (graph_error, string list, graph_strategy) outcome"
where
  "unlock m = (case m of (r, s) \<Rightarrow> (r, s\<lparr>gs_running := False\<rparr>))"

text \<open>A state may carry its via states: \<open>state:via1,via2\<close>.\<close>

definition split_state :: "string \<Rightarrow> string list option \<Rightarrow> graph_error + string \<times> string list" where
  "split_state st via =
     (case via of
        Some v \<Rightarrow> Inr (st, v)
      | None \<Rightarrow>
          (if CHR '':'' \<in> set st
           then (case split_on (CHR '':'') st of
                   [a, b] \<Rightarrow> Inr (a, split_on (CHR '','') b) | _ \<Rightarrow> Inl BadVia)
           else Inr (st, [])))"

definition transition ::
  "nat \<Rightarrow> string \<Rightarrow> string list option \<Rightarrow> graph_strategy \<Rightarrow>
   (graph_error, string list, graph_strategy) outcome option" where
  "transition n st via s =
     (case split_state st via of
        Inl e \<Rightarrow> Some (Inl e, s)
      | Inr (st, via) \<Rightarrow> map_option unlock (locked_transition n st via s))"


section \<open>The path that is found\<close>

text \<open>Each state of a path is a dependency of the next one.\<close>

definition edge :: "states \<Rightarrow> string \<Rightarrow> string \<Rightarrow> bool" where
  "edge sts a b \<longleftrightarrow> (\<exists>deps. map_of sts b = Some deps \<and> a \<in> set deps)"

fun is_path :: "states \<Rightarrow> string list \<Rightarrow> bool" where
  "is_path sts (a # b # p) = (edge sts a b \<and> is_path sts (b # p))"
| "is_path sts _ = True"

lemma scan_via_next:
  "nxt \<in> set deps \<Longrightarrow> snd (scan_via deps i via nxt) \<in> set deps"
proof (induction deps i via nxt rule: scan_via.induct)
  case (1 deps i via nxt)
  then show ?case by (subst scan_via.simps) simp
qed

lemma walk_path:
  "walk n sts cur via (cur # p) = Some (Inr (path, left)) \<Longrightarrow> is_path sts (cur # p) \<Longrightarrow>
   is_path sts path \<and> last path = last (cur # p) \<and> path \<noteq> [] \<and> map_of sts (hd path) = Some []"
proof (induction n arbitrary: cur via p)
  case 0
  then show ?case by simp
next
  case (Suc n)
  from Suc.prems(1) obtain deps where deps: "map_of sts cur = Some deps" by (auto split: option.splits)
  show ?case
  proof (cases deps)
    case Nil
    with Suc.prems deps show ?thesis by auto
  next
    case (Cons d ds)
    obtain via' nxt where scan: "scan_via (d # ds) 0 via d = (via', nxt)" by force
    have "nxt \<in> set deps" using scan_via_next [of d "d # ds" 0 via] scan Cons by simp
    with deps have "edge sts nxt cur" by (auto simp: edge_def)
    with Suc.prems(2) have "is_path sts (nxt # cur # p)" by simp
    moreover have "walk n sts nxt via' (nxt # cur # p) = Some (Inr (path, left))"
      using Suc.prems(1) deps Cons scan by simp
    ultimately show ?thesis using Suc.IH by fastforce
  qed
qed

text \<open>
  A path that is found ends in the requested state, begins in a state without dependencies, and
  every state in it depends on the one before.
\<close>

lemma find_abs_path_correct:
  assumes "find_abs_path n sts st via = Some (Inr path)"
  shows "path \<noteq> [] \<and> last path = st \<and> map_of sts (hd path) = Some [] \<and> is_path sts path"
proof -
  from assms obtain left where "walk n sts st (rev via) [st] = Some (Inr (path, left))"
    by (auto simp: find_abs_path_def split: if_splits option.splits sum.splits prod.splits)
  from walk_path [OF this] show ?thesis by simp
qed

text \<open>Enough rounds for a graph whose dependencies have smaller ranks.\<close>

definition dag :: "(string \<Rightarrow> nat) \<Rightarrow> states \<Rightarrow> bool" where
  "dag rk sts \<longleftrightarrow> (\<forall>a b. edge sts a b \<longrightarrow> rk a < rk b)"

lemma walk_ends: "dag rk sts \<Longrightarrow> rk cur < n \<Longrightarrow> walk n sts cur via path \<noteq> None"
proof (induction n arbitrary: cur via path)
  case 0
  then show ?case by simp
next
  case (Suc n)
  show ?case
  proof (cases "map_of sts cur")
    case None
    then show ?thesis by simp
  next
    case (Some deps)
    show ?thesis
    proof (cases deps)
      case Nil
      with Some show ?thesis by simp
    next
      case (Cons d ds)
      obtain via' nxt where scan: "scan_via (d # ds) 0 via d = (via', nxt)" by force
      have "nxt \<in> set deps" using scan_via_next [of d "d # ds" 0 via] scan Cons by simp
      with Some have "edge sts nxt cur" by (auto simp: edge_def)
      with Suc.prems have "rk nxt < n" by (force simp: dag_def)
      from Suc.IH [OF Suc.prems(1) this] Some Cons scan show ?thesis by simp
    qed
  qed
qed

text \<open>From a state whose dependencies never lead to a root the loop does not end.\<close>

lemma walk_cycle:
  assumes "\<And>a. a \<in> c \<Longrightarrow> \<exists>d ds. map_of sts a = Some (d # ds) \<and> set (d # ds) \<subseteq> c"
  shows "cur \<in> c \<Longrightarrow> walk n sts cur via path = None"
proof (induction n arbitrary: cur via path)
  case 0
  then show ?case by simp
next
  case (Suc n)
  from assms [OF Suc.prems] obtain d ds where d: "map_of sts cur = Some (d # ds)" "set (d # ds) \<subseteq> c"
    by blast
  obtain via' nxt where scan: "scan_via (d # ds) 0 via d = (via', nxt)" by force
  have "nxt \<in> c" using scan_via_next [of d "d # ds" 0 via] scan d(2) by auto
  from Suc.IH [OF this] d(1) scan show ?case by simp
qed

lemma find_abs_path_ends: "dag rk sts \<Longrightarrow> rk st < n \<Longrightarrow> find_abs_path n sts st via \<noteq> None"
  using walk_ends [where rk = rk and sts = sts and cur = st and n = n and via = "rev via" and path = "[st]"]
  by (auto simp: find_abs_path_def split: option.splits sum.splits prod.splits)

lemma locked_transition_ends:
  "dag rk (gs_states s) \<Longrightarrow> rk st < n \<Longrightarrow> locked_transition n st via s \<noteq> None"
  using find_abs_path_ends [of rk "gs_states s" st n via]
  by (auto simp: locked_transition_def Let_def split: option.splits sum.splits)

text \<open>
  A strategy whose states lead round in a cycle is accepted when it has a root beside the cycle, and a
  transition to a state of the cycle never returns.
\<close>

lemma cyclic_transition_never_ends:
  assumes "\<not> gs_running s" and "st \<in> c"
    and "\<And>a. a \<in> c \<Longrightarrow> \<exists>d ds. map_of (gs_states s) a = Some (d # ds) \<and> set (d # ds) \<subseteq> c"
  shows "transition n st (Some []) s = None"
proof -
  have "walk n (gs_states s) st [] [st] = None" using assms(3,2) by (rule walk_cycle)
  moreover from assms(3) [OF assms(2)] obtain ds where "map_of (gs_states s) st = Some ds" by blast
  then have "known (gs_states s) st" by (auto simp: known_def dest: map_of_SomeD intro: rev_image_eqI)
  ultimately show ?thesis
    using assms(1) by (simp add: transition_def split_state_def locked_transition_def find_abs_path_def Let_def)
qed

definition cyclic_attrs :: "(string \<times> bool \<times> string list) list" where
  "cyclic_attrs = [(''state_a'', True, [''b'']), (''state_b'', True, [''a'']), (''state_root'', True, [])]"

definition new_strategy :: graph_strategy where
  "new_strategy = \<lparr>gs_states = [], gs_root = [], gs_path = [], gs_running = False, gs_log = [],
     gs_fails = (\<lambda>_. False)\<rparr>"

lemma cyclic_strategy_accepted:
  "fst (init_strategy cyclic_attrs new_strategy) = Inr () \<and>
   transition n ''a'' (Some []) (snd (init_strategy cyclic_attrs new_strategy)) = None"
proof -
  let ?s = "snd (init_strategy cyclic_attrs new_strategy)"
  have init: "fst (init_strategy cyclic_attrs new_strategy) = Inr ()"
    "gs_states ?s = [(''a'', [''b'']), (''b'', [''a'']), (''root'', [])]" "gs_running ?s = False"
    by code_simp+
  have "\<exists>d ds. map_of (gs_states ?s) x = Some (d # ds) \<and> set (d # ds) \<subseteq> {''a'', ''b''}"
    if "x \<in> {''a'', ''b''}" for x
    using that by (auto simp: init(2))
  then have "transition n ''a'' (Some []) ?s = None"
    by (intro cyclic_transition_never_ends [where c = "{''a'', ''b''}"]) (simp_all add: init(3))
  with init(1) show ?thesis by simp
qed

text \<open>
  Where no state depends on itself through other states, every transition returns, and as many
  rounds as the rank of the state and one more are enough to find its path.
\<close>

lemma transition_returns:
  assumes "dag rk (gs_states s)" and "rk st < n"
  shows "transition n st (Some via) s \<noteq> None"
  using locked_transition_ends [OF assms, of via]
  by (simp add: transition_def split_state_def)

definition demo_graph :: graph_strategy where
  "demo_graph = new_strategy\<lparr>gs_states := [(''off'', []), (''on'', [''off'']), (''shell'', [''on''])],
     gs_root := ''off'', gs_path := [''off'', ''on'']\<rparr>"

definition demo_rank :: "string \<Rightarrow> nat" where
  "demo_rank st = (if st = ''off'' then 0 else if st = ''on'' then 1 else 2)"

lemma demo_dag: "dag demo_rank (gs_states demo_graph)"
  by (auto simp: dag_def edge_def demo_rank_def demo_graph_def split: if_splits)

theorem transition_returns_witness: "transition 3 ''shell'' (Some []) demo_graph \<noteq> None"
  by (rule transition_returns [OF demo_dag]) (simp add: demo_rank_def)

theorem find_abs_path_correct_witness:
  "is_path (gs_states demo_graph) [''off'', ''on'', ''shell'']"
proof -
  have "find_abs_path 5 (gs_states demo_graph) ''shell'' [] = Some (Inr [''off'', ''on'', ''shell''])"
    by (simp add: find_abs_path_def known_def demo_graph_def scan_via.simps eval_nat_numeral)
  from find_abs_path_correct [OF this] show ?thesis by simp
qed


section \<open>What a transition runs\<close>

lemma slice_upto_prefix:
  "length cur < length path \<Longrightarrow>
   slice_upto path (- (int (length path) - int (length cur))) = take (length cur) path"
  by (simp add: slice_upto_def)

lemma slice_upto_not_prefix:
  assumes "length path \<le> length cur" and "cur \<noteq> []"
  shows "slice_upto path (- (int (length path) - int (length cur))) \<noteq> cur"
proof
  assume eq: "slice_upto path (- (int (length path) - int (length cur))) = cur"
  have "slice_upto path (- (int (length path) - int (length cur))) =
      take (length cur - length path) path"
    using assms(1) by (simp add: slice_upto_def nat_diff_distrib')
  with eq have "length cur = min (length path) (length cur - length path)" by (metis length_take)
  with assms show False by (cases cur) auto
qed

text \<open>The relative path is the rest of the path behind the present one, or all of it.\<close>

lemma find_rel_path_cases:
  "find_rel_path cur path =
     (if length cur < length path \<and> take (length cur) path = cur then drop (length cur) path else path)"
proof (cases "length cur < length path")
  case True
  then show ?thesis unfolding find_rel_path_def slice_upto_prefix [OF True] by simp
next
  case False
  show ?thesis
  proof (cases "cur = []")
    case True
    with False show ?thesis by (simp add: find_rel_path_def)
  next
    case nonempty: False
    from False have le: "length path \<le> length cur" by simp
    show ?thesis unfolding find_rel_path_def using slice_upto_not_prefix [OF le nonempty] False by simp
  qed
qed

text \<open>The calls for a list of states: the drivers are deactivated before the root.\<close>

definition state_calls :: "string \<Rightarrow> string list \<Rightarrow> graph_call list" where
  "state_calls rt sts =
     concat (map (\<lambda>st. if st = rt then [DeactivateAll, RunState st] else [RunState st]) sts)"

lemma run_states_Inr:
  "run_states sts s = (Inr u, t) \<Longrightarrow> t = s\<lparr>gs_log := gs_log s @ state_calls (gs_root s) sts\<rparr>"
proof (induction sts arbitrary: s)
  case Nil
  then show ?case by (simp add: state_calls_def)
next
  case (Cons st sts)
  obtain s1 where first: "(if st = gs_root s then graph_call DeactivateAll s else (Inr (), s)) = (Inr (), s1)"
    "s1 = s\<lparr>gs_log := gs_log s @ (if st = gs_root s then [DeactivateAll] else [])\<rparr>"
    using Cons.prems by (cases "st = gs_root s") (auto simp: graph_call_def Let_def split: if_splits)
  obtain s2 where second: "graph_call (RunState st) s1 = (Inr (), s2)"
    "s2 = s1\<lparr>gs_log := gs_log s1 @ [RunState st]\<rparr>"
    using Cons.prems first(1)
    by (auto simp: graph_call_def Let_def invalidate_def split: if_splits)
  have "run_states sts s2 = (Inr u, t)" using Cons.prems first(1) second(1) by simp
  from Cons.IH [OF this] first(2) second(2) show ?case by (simp add: state_calls_def)
qed

text \<open>
  C18. A transition that returns leaves the strategy unlocked on the path from the root to the state,
  having called nothing if the strategy was there already, only the states behind the present
  path if that is the beginning of the new one, and all states of the new path otherwise, with all
  drivers deactivated right before the root. It returns the states it done_states.
\<close>

theorem transition_runs_path:
  assumes "transition n st (Some via) s = Some (Inr done_states, t)"
  shows "\<exists>path. find_abs_path n (gs_states s) st via = Some (Inr path) \<and> gs_path t = path \<and>
    \<not> gs_running t \<and> gs_log t = gs_log s @ state_calls (gs_root s) done_states \<and>
    done_states = (if path = gs_path s then []
           else if length (gs_path s) < length path \<and> take (length (gs_path s)) path = gs_path s
           then drop (length (gs_path s)) path else path)"
proof -
  from assms obtain u where lock: "locked_transition n st via s = Some (Inr done_states, u)"
    and t: "t = u\<lparr>gs_running := False\<rparr>"
    by (auto simp: transition_def split_state_def unlock_def split: prod.splits)
  let ?s1 = "s\<lparr>gs_running := True\<rparr>"
  from lock obtain path where path: "find_abs_path n (gs_states s) st via = Some (Inr path)"
    by (auto simp: locked_transition_def Let_def split: if_splits option.splits sum.splits)
  show ?thesis
  proof (cases "path = gs_path s")
    case True
    with lock path t show ?thesis
      by (auto simp: locked_transition_def Let_def state_calls_def split: if_splits)
  next
    case False
    obtain q v where run: "run_states (find_rel_path (gs_path s) path) ?s1 = (q, v)" by force
    with lock path False obtain w where q: "q = Inr w" and done_states: "done_states = find_rel_path (gs_path s) path"
      and u: "u = v\<lparr>gs_path := path\<rparr>"
      by (cases q) (auto simp: locked_transition_def Let_def split: if_splits)
    from run_states_Inr [OF run [unfolded q]] t u done_states path False show ?thesis
      by (simp add: find_rel_path_cases)
  qed
qed

theorem transition_runs_path_witness:
  "\<exists>t. transition 5 ''shell'' (Some []) demo_graph = Some (Inr [''shell''], t) \<and>
     gs_path t = [''off'', ''on'', ''shell'']"
proof -
  have f: "find_abs_path 5 (gs_states demo_graph) ''shell'' [] = Some (Inr [''off'', ''on'', ''shell''])"
    by (simp add: find_abs_path_def known_def demo_graph_def scan_via.simps eval_nat_numeral)
  have "\<exists>t. transition 5 ''shell'' (Some []) demo_graph = Some (Inr [''shell''], t)"
    using f by (simp add: transition_def split_state_def locked_transition_def find_rel_path_cases
        Let_def unlock_def graph_call_def known_def demo_graph_def new_strategy_def)
  then obtain t where t: "transition 5 ''shell'' (Some []) demo_graph = Some (Inr [''shell''], t)" ..
  from transition_runs_path [OF t] f t show ?thesis by auto
qed


section \<open>Behaviour that surprises\<close>

text \<open>
  Two via states among the dependencies of one state are both taken off the list, but the path goes
  through one of them only; so a path may be returned that leaves a via state out.
\<close>

lemma via_state_dropped:
  "find_abs_path 5 [(''a'', [''r'']), (''b'', [''r'']), (''r'', []), (''x'', [''a'', ''b''])] ''x''
     [''b'', ''r'', ''a''] = Some (Inr [''r'', ''b'', ''x''])"
  by (simp add: find_abs_path_def known_def scan_via.simps eval_nat_numeral)

text \<open>A transition that is refused because another one is running unlocks it all the same.\<close>

lemma refused_transition_unlocks:
  "gs_running s \<Longrightarrow> transition n st (Some via) s = Some (Inl AlreadyRunning, s\<lparr>gs_running := False\<rparr>)"
  by (simp add: transition_def split_state_def locked_transition_def unlock_def)

end
