(* ===== verification/PyText.thy ===== *)
theory PyText
  imports PyPath
begin

text \<open>
  More of Python's strings: \<open>str.strip\<close>, \<open>str.startswith\<close>, \<open>str.endswith\<close>, \<open>str.split\<close> with a
  separator of several characters, and \<open>int(s, base)\<close>, with the round trip between writing and
  reading a number.
\<close>

section \<open>Parts of strings\<close>

definition is_space :: "char \<Rightarrow> bool" where
  "is_space c \<longleftrightarrow> (let n = of_char c :: nat in
     n = 32 \<or> (9 \<le> n \<and> n \<le> 13) \<or> (28 \<le> n \<and> n \<le> 31) \<or> n = 133 \<or> n = 160)"

definition strip :: "string \<Rightarrow> string" where
  "strip s = rstrip is_space (dropWhile is_space s)"

text \<open>\<open>bytes.strip\<close> knows only ASCII white space.\<close>

definition bytes_space :: "char \<Rightarrow> bool" where
  "bytes_space c \<longleftrightarrow> (let n = of_char c :: nat in n = 32 \<or> (9 \<le> n \<and> n \<le> 13))"

definition bytes_strip :: "string \<Rightarrow> string" where
  "bytes_strip s = rstrip bytes_space (dropWhile bytes_space s)"

definition startswith :: "string \<Rightarrow> string \<Rightarrow> bool" where
  "startswith s p \<longleftrightarrow> take (length p) s = p"

definition endswith :: "string \<Rightarrow> string \<Rightarrow> bool" where
  "endswith s p \<longleftrightarrow> startswith (rev s) (rev p)"

lemma startswith_iff: "startswith s p \<longleftrightarrow> (\<exists>r. s = p @ r)"
  unfolding startswith_def by (metis append_eq_conv_conj append_take_drop_id)

lemma endswith_iff: "endswith s p \<longleftrightarrow> (\<exists>r. s = r @ p)"
  unfolding endswith_def startswith_iff by (metis rev_append rev_rev_ident)

lemma substring_iff: "substring k s \<longleftrightarrow> (\<exists>a b. s = a @ k @ b)"
proof (induction s)
  case Nil
  then show ?case by auto
next
  case (Cons c s)
  have "take (length k) (c # s) = k \<longleftrightarrow> (\<exists>b. c # s = k @ b)"
    using startswith_iff [of "c # s" k] by (simp add: startswith_def)
  moreover have "(\<exists>a b. c # s = a @ k @ b) \<longleftrightarrow>
      (\<exists>b. c # s = k @ b) \<or> (\<exists>a b. s = a @ k @ b)"
    by (metis append_Cons append_Nil list.exhaust list.inject)
  ultimately show ?case using Cons.IH by simp
qed

lemma strip_id: "s \<noteq> [] \<Longrightarrow> \<not> is_space (hd s) \<Longrightarrow> \<not> is_space (last s) \<Longrightarrow> strip s = s"
proof -
  assume s: "s \<noteq> []" "\<not> is_space (hd s)" "\<not> is_space (last s)"
  then have "rev s \<noteq> []" "\<not> is_space (hd (rev s))" by (simp_all add: hd_rev)
  then have "dropWhile is_space (rev s) = rev s" by (cases "rev s") simp_all
  moreover from s have "dropWhile is_space s = s" by (cases s) simp_all
  ultimately show ?thesis by (simp add: strip_def rstrip_def)
qed


section \<open>Reading numbers\<close>

definition digit_value :: "nat \<Rightarrow> char \<Rightarrow> nat option" where
  "digit_value b c =
     (let n = of_char c :: nat;
          v = (if 48 \<le> n \<and> n \<le> 57 then n - 48
               else if 97 \<le> n \<and> n \<le> 122 then n - 87
               else if 65 \<le> n \<and> n \<le> 90 then n - 55 else b)
      in if v < b then Some v else None)"

text \<open>Digits, where one underscore may stand between two of them.\<close>

fun read_digits :: "nat \<Rightarrow> nat \<Rightarrow> string \<Rightarrow> nat option" where
  "read_digits b n [] = Some n"
| "read_digits b n (c # s) =
     (if c \<noteq> CHR ''_'' then
        (case digit_value b c of None \<Rightarrow> None | Some v \<Rightarrow> read_digits b (n * b + v) s)
      else case s of
        [] \<Rightarrow> None
      | d # r \<Rightarrow> (case digit_value b d of None \<Rightarrow> None | Some v \<Rightarrow> read_digits b (n * b + v) r))"

definition read_nat :: "nat \<Rightarrow> string \<Rightarrow> nat option" where
  "read_nat b s = (if s = [] \<or> digit_value b (hd s) = None then None else read_digits b 0 s)"

definition drop_prefix :: "nat \<Rightarrow> string \<Rightarrow> string" where
  "drop_prefix b s =
     (if b = 16 \<and> (startswith s ''0x'' \<or> startswith s ''0X'') \<or>
         b = 2 \<and> (startswith s ''0b'' \<or> startswith s ''0B'')
      then (if startswith (drop 2 s) ''_'' then drop 3 s else drop 2 s) else s)"

definition py_int :: "nat \<Rightarrow> string \<Rightarrow> py_error + int" where
  "py_int b s =
     (let t = strip s;
          minus = startswith t ''-'';
          u = (if minus \<or> startswith t ''+'' then tl t else t)
      in case read_nat b (drop_prefix b u) of
        None \<Rightarrow> Inl ValueError
      | Some n \<Rightarrow> Inr (if minus then - int n else int n))"

lemma of_char_digit [simp]: "n < 10 \<Longrightarrow> of_char (digit n) = 48 + n"
  by (simp add: of_char_of)

lemma digit_value_digit [simp]: "n < 10 \<Longrightarrow> digit_value 10 (digit n) = Some n"
  by (simp add: digit_value_def del: digit.simps)

lemma digit_not_special [simp]:
  "n < 10 \<Longrightarrow> digit n \<noteq> CHR ''_''"
  "n < 10 \<Longrightarrow> digit n \<noteq> CHR ''-''"
  "n < 10 \<Longrightarrow> digit n \<noteq> CHR ''+''"
  "n < 10 \<Longrightarrow> CHR ''-'' \<noteq> digit n"
  "n < 10 \<Longrightarrow> CHR ''+'' \<noteq> digit n"
  "n < 10 \<Longrightarrow> \<not> is_space (digit n)"
proof -
  assume n: "n < 10"
  have ne: "of_char c < (48 :: nat) \<or> (57 :: nat) < of_char c \<Longrightarrow> digit n \<noteq> c" for c
    using of_char_digit [OF n] n by (auto simp del: digit.simps of_char_digit)
  show "digit n \<noteq> CHR ''_''" by (rule ne) simp
  show "digit n \<noteq> CHR ''-''" by (rule ne) simp
  show "digit n \<noteq> CHR ''+''" by (rule ne) simp
  show "CHR ''-'' \<noteq> digit n" by (rule not_sym, rule ne) simp
  show "CHR ''+'' \<noteq> digit n" by (rule not_sym, rule ne) simp
  show "\<not> is_space (digit n)" using n by (simp add: is_space_def del: digit.simps)
qed

lemma read_digits_digits:
  assumes "\<And>c. c \<in> set s \<Longrightarrow> c \<noteq> CHR ''_''"
  shows "read_digits b n (s @ [d]) =
    (case read_digits b n s of None \<Rightarrow> None
     | Some m \<Rightarrow> if d = CHR ''_'' then None
         else case digit_value b d of None \<Rightarrow> None | Some v \<Rightarrow> Some (m * b + v))"
  using assms by (induction s arbitrary: n) (auto split: option.splits)

lemma show_nat_digits: "c \<in> set (show_nat n) \<Longrightarrow> \<exists>d < 10. c = digit d"
proof (induction n rule: show_nat.induct)
  case (1 n)
  show ?case
  proof (cases "n < 10")
    case True
    with 1(2) show ?thesis by (auto simp: show_nat.simps [of n] simp del: digit.simps)
  next
    case False
    then have "c \<in> set (show_nat (n div 10)) \<or> c = digit (n mod 10)"
      using 1(2) by (auto simp: show_nat.simps [of n] simp del: digit.simps)
    moreover have "n mod 10 < 10" by simp
    ultimately show ?thesis using 1(1) [OF False] by blast
  qed
qed

lemma show_nat_not_Nil [simp]: "show_nat n \<noteq> []"
  by (subst show_nat.simps) simp

lemma read_show_nat: "read_digits 10 0 (show_nat n) = Some n"
proof (induction n rule: show_nat.induct)
  case (1 n)
  show ?case
  proof (cases "n < 10")
    case True
    then show ?thesis by (simp add: show_nat.simps [of n] del: digit.simps)
  next
    case False
    have plain: "c \<noteq> CHR ''_''" if "c \<in> set (show_nat (n div 10))" for c
      using show_nat_digits [OF that] by (auto simp del: digit.simps)
    have "read_digits 10 0 (show_nat (n div 10) @ [digit (n mod 10)]) =
        Some (n div 10 * 10 + n mod 10)"
      using read_digits_digits [where s = "show_nat (n div 10)", OF plain, of 10 0 "digit (n mod 10)"] 1 [OF False]
      by (simp del: digit.simps)
    with False show ?thesis by (simp add: show_nat.simps [of n] del: digit.simps)
  qed
qed

lemma show_nat_ends:
  shows "\<exists>d < 10. hd (show_nat n) = digit d" and "\<exists>d < 10. last (show_nat n) = digit d"
  using show_nat_digits [of _ n] by simp_all

lemma startswith_single: "startswith s [c] \<longleftrightarrow> s \<noteq> [] \<and> hd s = c"
  by (cases s) (auto simp: startswith_def)

lemma py_int_show_int: "py_int 10 (show_int i) = Inr i"
proof -
  have nat: "read_nat 10 (show_nat n) = Some n" for n
    using show_nat_ends(1) [of n] read_show_nat [of n] by (auto simp: read_nat_def simp del: digit.simps)
  have sp: "\<not> is_space (hd (show_nat n))" "\<not> is_space (last (show_nat n))"
    "hd (show_nat n) \<noteq> CHR ''-''" "hd (show_nat n) \<noteq> CHR ''+''" for n
    using show_nat_ends [of n] by (auto simp del: digit.simps)
  have minus: "\<not> is_space (CHR ''-'')" by (simp add: is_space_def)
  show ?thesis
  proof (cases "i < 0")
    case True
    have "strip (CHR ''-'' # show_nat (nat (- i))) = CHR ''-'' # show_nat (nat (- i))"
      by (rule strip_id) (simp_all add: sp minus)
    with True nat show ?thesis
      by (simp add: show_int_def py_int_def startswith_single drop_prefix_def)
  next
    case False
    have "strip (show_nat (nat i)) = show_nat (nat i)"
      by (rule strip_id) (simp_all add: sp)
    with False nat sp show ?thesis
      by (simp add: show_int_def py_int_def startswith_single drop_prefix_def)
  qed
qed

text \<open>Where a number ends in a text.\<close>

definition number_char :: "char \<Rightarrow> bool" where
  "number_char c \<longleftrightarrow> (let n = of_char c :: nat in n = 45 \<or> (48 \<le> n \<and> n \<le> 57))"

lemma show_int_chars: "c \<in> set (show_int i) \<Longrightarrow> number_char c"
proof -
  assume c: "c \<in> set (show_int i)"
  have "c = CHR ''-'' \<or> (\<exists>n. c \<in> set (show_nat n))"
    using c by (auto simp: show_int_def split: if_splits)
  then show ?thesis
  proof
    assume "\<exists>n. c \<in> set (show_nat n)"
    then obtain d where "d < 10" "c = digit d" using show_nat_digits by blast
    then show ?thesis using of_char_digit [of d] by (simp add: number_char_def del: digit.simps)
  qed (simp add: number_char_def)
qed

lemma show_int_eq [simp]: "show_int i = show_int j \<longleftrightarrow> i = j"
  by (metis py_int_show_int sum.inject(2))

lemma append_sep:
  assumes "\<And>c. c \<in> set a \<Longrightarrow> P c" and "\<And>c. c \<in> set b \<Longrightarrow> P c" and "\<not> P c" and "\<not> P d"
  shows "a @ c # x = b @ d # y \<longleftrightarrow> a = b \<and> c = d \<and> x = y"
  using assms
proof (induction a arbitrary: b)
  case Nil
  then show ?case by (cases b) auto
next
  case (Cons e a)
  then show ?case by (cases b) auto
qed

lemma show_int_sep [simp]:
  "\<not> number_char c \<Longrightarrow> \<not> number_char d \<Longrightarrow>
   show_int i @ c # x = show_int j @ d # y \<longleftrightarrow> i = j \<and> c = d \<and> x = y"
  using append_sep [of "show_int i" number_char "show_int j" c d x y] show_int_chars by auto


section \<open>Lines\<close>

text \<open>Splitting at the two characters that end a line of a terminal.\<close>

definition crlf :: string where
  "crlf = [CHR 0x0D, CHR 0x0A]"

fun split_crlf :: "string \<Rightarrow> string \<Rightarrow> string list" where
  "split_crlf acc [] = [acc]"
| "split_crlf acc [c] = [acc @ [c]]"
| "split_crlf acc (c # d # s) =
     (if c = CHR 0x0D \<and> d = CHR 0x0A then acc # split_crlf [] s
      else split_crlf (acc @ [c]) (d # s))"

lemma split_crlf_not_Nil [simp]: "split_crlf acc s \<noteq> []"
  by (induction acc s rule: split_crlf.induct) simp_all

lemma split_crlf_joins:
  "concat (map (\<lambda>p. p @ crlf) (butlast (split_crlf acc s))) @ last (split_crlf acc s) = acc @ s"
  by (induction acc s rule: split_crlf.induct) (simp_all add: crlf_def)

definition line_end :: "string \<Rightarrow> string" where
  "line_end l = l @ crlf"

lemma split_crlf_plain:
  "CHR 0x0D \<notin> set l \<Longrightarrow> split_crlf acc (l @ crlf @ s) = (acc @ l) # split_crlf [] s"
proof (induction l arbitrary: acc)
  case Nil
  then show ?case by (simp add: crlf_def)
next
  case (Cons c l)
  then have "c \<noteq> CHR 0x0D" "CHR 0x0D \<notin> set l" by auto
  moreover have "\<exists>d r. l @ crlf @ s = d # r" by (cases l) (simp_all add: crlf_def)
  ultimately show ?case using Cons.IH [of "acc @ [c]"] by auto
qed

lemma split_crlf_lines:
  "\<forall>l \<in> set ls. CHR 0x0D \<notin> set l \<Longrightarrow> split_crlf [] (concat (map line_end ls)) = ls @ [[]]"
proof (induction ls)
  case Nil
  then show ?case by simp
next
  case (Cons l ls)
  then have "split_crlf [] (l @ crlf @ concat (map line_end ls)) = l # split_crlf [] (concat (map line_end ls))"
    using split_crlf_plain [of l "[]"] by simp
  moreover have "line_end l @ s = l @ crlf @ s" for s by (simp add: line_end_def)
  ultimately show ?case using Cons by simp
qed


section \<open>Terminal codes and shell words\<close>

text \<open>
  \<open>re_vt100.sub('', s)\<close>: a control sequence up to its final character, or an escape with one
  character after it.
\<close>

definition vt100_final :: "char \<Rightarrow> bool" where
  "vt100_final c \<longleftrightarrow> (let n = of_char c :: nat in (64 \<le> n \<and> n \<le> 95) \<or> (97 \<le> n \<and> n \<le> 122))"

lemma drop_shorter: "length u \<le> n \<Longrightarrow> length (dropWhile P u) - Suc 0 \<le> n"
  by (rule le_trans [OF diff_le_self], rule le_trans [OF length_dropWhile_le])

function strip_vt100 :: "string \<Rightarrow> string" where
  "strip_vt100 [] = []"
| "strip_vt100 (c # s) =
     (let t = dropWhile (\<lambda>d. \<not> vt100_final d) (if c = CHR 0x9B then s else tl s);
          sequence = (c = CHR 0x9B \<or> (c = CHR 0x1B \<and> s \<noteq> [] \<and> hd s = CHR ''['')) in
      if sequence \<and> t \<noteq> [] then strip_vt100 (tl t)
      else if c = CHR 0x1B \<and> s \<noteq> [] \<and> vt100_final (hd s) then strip_vt100 (tl s)
      else c # strip_vt100 s)"
  by pat_completeness auto
termination
  by (relation "measure length") (auto simp: less_Suc_eq_le intro!: drop_shorter)

lemma strip_vt100_plain: "CHR 0x1B \<notin> set s \<Longrightarrow> CHR 0x9B \<notin> set s \<Longrightarrow> strip_vt100 s = s"
  by (induction s) (auto simp: Let_def)

text \<open>\<open>shlex.quote\<close>.\<close>

definition shell_safe :: "char \<Rightarrow> bool" where
  "shell_safe c \<longleftrightarrow> is_letter c \<or> is_digit c \<or> c \<in> set ''_@%+=:,./-''"

definition quote :: "string \<Rightarrow> string" where
  "quote s =
     (if s = [] then [CHR 0x27, CHR 0x27]
      else if list_all shell_safe s then s
      else [CHR 0x27] @
        concat (map (\<lambda>c. if c = CHR 0x27 then [CHR 0x27, CHR 0x22, CHR 0x27, CHR 0x22, CHR 0x27] else [c]) s) @
        [CHR 0x27])"

text \<open>What a POSIX shell makes of such a word: quoted parts are taken as they are.\<close>

fun unquote :: "char option \<Rightarrow> string \<Rightarrow> string option" where
  "unquote None [] = Some []"
| "unquote (Some q) [] = None"
| "unquote None (c # s) =
     (if c = CHR 0x27 \<or> c = CHR 0x22 then unquote (Some c) s
      else if shell_safe c then map_option (Cons c) (unquote None s) else None)"
| "unquote (Some q) (c # s) =
     (if c = q then unquote None s else map_option (Cons c) (unquote (Some q) s))"

lemma unquote_safe: "list_all shell_safe s \<Longrightarrow> unquote None s = Some s"
proof (induction s)
  case Nil
  then show ?case by simp
next
  case (Cons c s)
  moreover from Cons.prems have "c \<noteq> CHR 0x27" "c \<noteq> CHR 0x22"
    by (auto simp: shell_safe_def is_letter_def is_lower_def is_digit_def less_eq_char_def)
  ultimately show ?case by simp
qed

lemma unquote_quoted:
  "unquote (Some (CHR 0x27))
     (concat (map (\<lambda>c. if c = CHR 0x27 then [CHR 0x27, CHR 0x22, CHR 0x27, CHR 0x22, CHR 0x27] else [c]) s) @
       [CHR 0x27]) = Some s"
  by (induction s) simp_all

lemma unquote_quote: "unquote None (quote s) = Some s"
  by (simp add: quote_def unquote_safe unquote_quoted)

end
