(* ===== verification/Udev.thy ===== *)
theory Udev
  imports PyText
begin

text \<open>
  \<^verbatim>\<open>labgrid/resource/udev.py\<close>: \<open>UdevManager\<close>, which brings the events of the kernel to the resources,
  and \<open>USBResource\<close> with its subclasses, which take a device that matches, follow it and give it up.
  A device is what pyudev reports of it: names, properties, attributes of sysfs and its ancestors.
  What sysfs answers at the moment of a question (children, fresh attributes) is an argument.
\<close>

section \<open>Devices\<close>

text \<open>The bytes of an attribute either decode to a string or do not.\<close>

datatype attr_data = Text string | Binary string

record node =
  nd_path :: string
  nd_name :: string
  nd_node :: "string option"
  nd_subsystem :: "string option"
  nd_type :: "string option"
  nd_properties :: "(string, string) dict"
  nd_attributes :: "(string, attr_data) dict"
  nd_others :: "(string, pyval) dict"

record device =
  dv_node :: node
  dv_ancestors :: "node list"
  dv_tags :: "string list"
  dv_action :: "string option"

record sysfs =
  sf_children :: "string \<Rightarrow> node list"
  sf_attribute :: "string \<Rightarrow> string \<Rightarrow> attr_data option"

fun opt_val :: "string option \<Rightarrow> pyval" where
  "opt_val None = VNone"
| "opt_val (Some s) = VStr s"

definition get_property :: "node \<Rightarrow> string \<Rightarrow> string option" where
  "get_property d k = map_of (nd_properties d) k"

text \<open>\<open>getattr(dev, key, None)\<close>; attributes of the object that are no strings are in \<open>nd_others\<close>.\<close>

definition get_attribute :: "node \<Rightarrow> string \<Rightarrow> pyval" where
  "get_attribute d k =
     (if k = ''sys_path'' then VStr (nd_path d)
      else if k = ''sys_name'' then VStr (nd_name d)
      else if k = ''device_node'' then opt_val (nd_node d)
      else if k = ''subsystem'' then opt_val (nd_subsystem d)
      else if k = ''device_type'' then opt_val (nd_type d)
      else case map_of (nd_others d) k of None \<Rightarrow> VNone | Some v \<Rightarrow> v)"

fun asstring :: "attr_data \<Rightarrow> py_error + string" where
  "asstring (Text s) = Inr s"
| "asstring (Binary _) = Inl ValueError"

fun attr_true :: "attr_data \<Rightarrow> bool" where
  "attr_true (Text s) = (s \<noteq> [])"
| "attr_true (Binary s) = (s \<noteq> [])"

text \<open>\<open>find_parent\<close>: the nearest ancestor of a subsystem and a type.\<close>

definition find_parent :: "device \<Rightarrow> string \<Rightarrow> string \<Rightarrow> node option" where
  "find_parent d sub typ =
     find (\<lambda>a. nd_subsystem a = Some sub \<and> nd_type a = Some typ) (dv_ancestors d)"


section \<open>Resources\<close>

datatype usb_class =
    USBResource
  | USBSerialPort
  | USBMassStorage
  | IMXUSBLoader
  | RKUSBLoader
  | MXSUSBLoader
  | AndroidUSBFastboot
  | DFUDevice
  | USBNetworkInterface
  | AlteraUSBBlaster
  | SigrokUSBDevice
  | SigrokUSBSerialDevice
  | USBSDWireDevice
  | USBSDWire3Device
  | USBSDMuxDevice
  | USBHub
  | USBPowerPort
  | SiSPMPowerPort
  | USBVideo
  | USBAudioInput
  | USBTMC
  | DeditecRelais8
  | HIDRelay
  | FTDIGPIO
  | USBFlashableDevice
  | LXAUSBMux
  | USBDebugger
  | MatchedSysfsGPIO

type_synonym suggestion = "(string, pyval) dict"

text \<open>
  A resource: the attributes of \<open>USBResource\<close> and those that single subclasses add. \<open>ur_suggested\<close>
  are the calls of the callback \<open>suggest\<close> so far.
\<close>

record usb =
  ur_class :: usb_class
  ur_match :: "(string, pyval) dict"
  ur_device :: "device option"
  ur_suggest :: bool
  ur_suggested :: "((string, string) dict \<times> suggestion list) list"
  ur_flag :: bool
  ur_port :: "string option"
  ur_ifname :: "string option"
  ur_disk_path :: "string option"
  ur_control_path :: "string option"
  ur_control_serial :: "string option"
  ur_vendor :: string
  ur_product :: string
  ur_index :: "int option"
  ur_interface :: int
  ur_pin :: int


section \<open>Which devices a class accepts\<close>

definition device_ids :: "node \<Rightarrow> (string option \<times> string option)" where
  "device_ids d = (get_property d ''ID_VENDOR_ID'', get_property d ''ID_MODEL_ID'')"

definition id_in :: "(string \<times> string) list \<Rightarrow> node \<Rightarrow> bool" where
  "id_in ids d \<longleftrightarrow> device_ids d \<in> set (map (\<lambda>(v, m). (Some v, Some m)) ids)"

definition imx_loader_ids :: "(string \<times> string) list" where
  "imx_loader_ids =
    [(''0483'', ''0afb''), (''0525'', ''a4a5''), (''0525'', ''b4a4''), (''066f'', ''9afe''),
     (''066f'', ''9bff''), (''15a2'', ''003a''), (''15a2'', ''0054''), (''15a2'', ''0061''),
     (''15a2'', ''0063''), (''15a2'', ''0071''), (''15a2'', ''0076''), (''15a2'', ''007d''),
     (''15a2'', ''0080''), (''18d1'', ''0d02''), (''1fc9'', ''0027''), (''1fc9'', ''0126''),
     (''1fc9'', ''0128''), (''1fc9'', ''0129''), (''1fc9'', ''012b''), (''1fc9'', ''012f''),
     (''1fc9'', ''0134''), (''1fc9'', ''0135''), (''1fc9'', ''013e''), (''1fc9'', ''0146''),
     (''1fc9'', ''0147''), (''1fc9'', ''014a''), (''1fc9'', ''014b''), (''1fc9'', ''014e''),
     (''1fc9'', ''0151''), (''1fc9'', ''0152''), (''1fc9'', ''0153''), (''1fc9'', ''0159''),
     (''1fc9'', ''015c''), (''1fc9'', ''015d''), (''3016'', ''0001''), (''3016'', ''1001''),
     (''15a2'', ''004f''), (''1b67'', ''4fff'')]"

definition imx_loader_filter :: "device \<Rightarrow> bool" where
  "imx_loader_filter d \<longleftrightarrow> id_in imx_loader_ids (dv_node d)"

definition rk_loader_ids :: "(string \<times> string) list" where
  "rk_loader_ids =
    [(''2207'', ''110a''), (''2207'', ''110b''), (''2207'', ''110c''), (''2207'', ''110e''),
     (''2207'', ''110f''), (''2207'', ''300a''), (''2207'', ''301a''), (''2207'', ''310b''),
     (''2207'', ''310c''), (''2207'', ''320a''), (''2207'', ''320b''), (''2207'', ''320c''),
     (''2207'', ''330a''), (''2207'', ''330c''), (''2207'', ''330d''), (''2207'', ''330e''),
     (''2207'', ''350a''), (''2207'', ''350b''), (''2207'', ''350c''), (''2207'', ''350d''),
     (''2207'', ''350e''), (''2207'', ''350f'')]"

definition rk_loader_filter :: "device \<Rightarrow> bool" where
  "rk_loader_filter d \<longleftrightarrow> id_in rk_loader_ids (dv_node d)"

definition mxs_loader_ids :: "(string \<times> string) list" where
  "mxs_loader_ids =
    [(''066f'', ''3780''), (''15a2'', ''004f'')]"

definition mxs_loader_filter :: "device \<Rightarrow> bool" where
  "mxs_loader_filter d \<longleftrightarrow> id_in mxs_loader_ids (dv_node d)"

definition sispm_ids :: "(string \<times> string) list" where
  "sispm_ids =
    [(''04b4'', ''fd10''), (''04b4'', ''fd11''), (''04b4'', ''fd12''), (''04b4'', ''fd13''),
     (''04b4'', ''fd15'')]"

definition sispm_filter :: "device \<Rightarrow> bool" where
  "sispm_filter d \<longleftrightarrow> id_in sispm_ids (dv_node d)"

definition hid_relay_ids :: "(string \<times> string) list" where
  "hid_relay_ids =
    [(''16c0'', ''05df''), (''5131'', ''2007'')]"

definition hid_relay_filter :: "device \<Rightarrow> bool" where
  "hid_relay_filter d \<longleftrightarrow> id_in hid_relay_ids (dv_node d)"

definition usb_debugger_ids :: "(string \<times> string) list" where
  "usb_debugger_ids =
    [(''0403'', ''6010''), (''0403'', ''6014''), (''0483'', ''3748''), (''0483'', ''374b''),
     (''0483'', ''374e''), (''0483'', ''374f''), (''0483'', ''3754''), (''04b4'', ''f155''),
     (''15ba'', ''0003''), (''15ba'', ''002b''), (''15ba'', ''0004''), (''15ba'', ''002a''),
     (''1366'', ''0101''), (''1366'', ''0102''), (''1366'', ''0103''), (''1366'', ''0104''),
     (''1366'', ''0105''), (''1366'', ''0107''), (''1366'', ''0108''), (''1366'', ''1001''),
     (''1366'', ''1002''), (''1366'', ''1003''), (''1366'', ''1004''), (''1366'', ''1005''),
     (''1366'', ''1006''), (''1366'', ''1007''), (''1366'', ''1008''), (''1366'', ''1009''),
     (''1366'', ''100a''), (''1366'', ''100b''), (''1366'', ''100c''), (''1366'', ''100d''),
     (''1366'', ''100e''), (''1366'', ''100f''), (''1366'', ''1010''), (''1366'', ''1011''),
     (''1366'', ''1012''), (''1366'', ''1013''), (''1366'', ''1014''), (''1366'', ''1015''),
     (''1366'', ''1016''), (''1366'', ''1017''), (''1366'', ''1018''), (''1366'', ''1019''),
     (''1366'', ''101a''), (''1366'', ''101b''), (''1366'', ''101c''), (''1366'', ''101d''),
     (''1366'', ''101e''), (''1366'', ''101f''), (''1366'', ''1020''), (''1366'', ''1021''),
     (''1366'', ''1022''), (''1366'', ''1023''), (''1366'', ''1024''), (''1366'', ''1025''),
     (''1366'', ''1026''), (''1366'', ''1027''), (''1366'', ''1028''), (''1366'', ''1029''),
     (''1366'', ''102a''), (''1366'', ''102b''), (''1366'', ''102c''), (''1366'', ''102d''),
     (''1366'', ''102e''), (''1366'', ''102f''), (''1366'', ''1050''), (''1366'', ''1051''),
     (''1366'', ''1052''), (''1366'', ''1053''), (''1366'', ''1054''), (''1366'', ''1055''),
     (''1366'', ''1056''), (''1366'', ''1057''), (''1366'', ''1058''), (''1366'', ''1059''),
     (''1366'', ''105a''), (''1366'', ''105b''), (''1366'', ''105c''), (''1366'', ''105d''),
     (''1366'', ''105e''), (''1366'', ''105f''), (''1366'', ''1060''), (''1366'', ''1061''),
     (''1366'', ''1062''), (''1366'', ''1063''), (''1366'', ''1064''), (''1366'', ''1065''),
     (''1366'', ''1066''), (''1366'', ''1067''), (''1366'', ''1068''), (''1366'', ''1069''),
     (''1366'', ''106a''), (''1366'', ''106b''), (''1366'', ''106c''), (''1366'', ''106d''),
     (''1366'', ''106e''), (''1366'', ''106f''), (''064b'', ''0617''), (''064b'', ''2500''),
     (''064b'', ''0283''), (''064b'', ''2503''), (''064b'', ''2504''), (''064b'', ''2507''),
     (''064b'', ''2508''), (''064b'', ''250a''), (''064b'', ''250c''), (''064b'', ''250d'')]"

definition usb_debugger_filter :: "device \<Rightarrow> bool" where
  "usb_debugger_filter d \<longleftrightarrow> id_in usb_debugger_ids (dv_node d)"

definition fastboot_filter :: "usb \<Rightarrow> device \<Rightarrow> bool" where
  "fastboot_filter r d \<longleftrightarrow>
     get_property (dv_node d) ''adb_user'' = Some ''yes'' \<or>
     (get_property (dv_node d) ''ID_VENDOR_ID'' = Some (ur_vendor r) \<and>
      get_property (dv_node d) ''ID_MODEL_ID'' = Some (ur_product r))"

definition dfu_filter :: "device \<Rightarrow> bool" where
  "dfu_filter d \<longleftrightarrow>
     substring '':fe0102:''
       (case get_property (dv_node d) ''ID_USB_INTERFACES'' of None \<Rightarrow> [] | Some s \<Rightarrow> s)"

definition altera_filter :: "device \<Rightarrow> bool" where
  "altera_filter d \<longleftrightarrow>
     get_property (dv_node d) ''ID_VENDOR_ID'' = Some ''09fb'' \<and>
     get_property (dv_node d) ''ID_MODEL_ID'' \<in> {Some ''6010'', Some ''6810''}"

text \<open>A video device without capabilities makes the filter raise.\<close>

definition video_filter :: "device \<Rightarrow> py_error + bool" where
  "video_filter d =
     (case get_property (dv_node d) ''ID_V4L_CAPABILITIES'' of
        None \<Rightarrow> Inl AttributeError
      | Some s \<Rightarrow> Inr (''capture'' \<in> set (split_on (CHR '':'') s)))"

definition audio_filter :: "usb \<Rightarrow> device \<Rightarrow> bool" where
  "audio_filter r d \<longleftrightarrow>
     endswith (nd_name (dv_node d))
       (''D'' @ (case ur_index r of None \<Rightarrow> ''None'' | Some i \<Rightarrow> show_int i) @ ''c'')"

definition ftdi_filter :: "device \<Rightarrow> bool" where
  "ftdi_filter d =
     (case (if nd_type (dv_node d) \<noteq> Some ''usb_device'' then find_parent d ''usb'' ''usb_device''
            else Some (dv_node d)) of
        None \<Rightarrow> False
      | Some u \<Rightarrow> id_in [(''0403'', ''6010''), (''0403'', ''6011''), (''0403'', ''6014'')] u)"

definition gpio_filter :: "device \<Rightarrow> bool" where
  "gpio_filter d \<longleftrightarrow> get_property (dv_node d) ''DEVNAME'' = None"

definition filter_match :: "usb \<Rightarrow> device \<Rightarrow> py_error + bool" where
  "filter_match r d =
     (case ur_class r of
        IMXUSBLoader \<Rightarrow> Inr (imx_loader_filter d)
      | RKUSBLoader \<Rightarrow> Inr (rk_loader_filter d)
      | MXSUSBLoader \<Rightarrow> Inr (mxs_loader_filter d)
      | AndroidUSBFastboot \<Rightarrow> Inr (fastboot_filter r d)
      | DFUDevice \<Rightarrow> Inr (dfu_filter d)
      | AlteraUSBBlaster \<Rightarrow> Inr (altera_filter d)
      | SiSPMPowerPort \<Rightarrow> Inr (sispm_filter d)
      | USBVideo \<Rightarrow> video_filter d
      | USBAudioInput \<Rightarrow> Inr (audio_filter r d)
      | HIDRelay \<Rightarrow> Inr (hid_relay_filter d)
      | FTDIGPIO \<Rightarrow> Inr (ftdi_filter d)
      | USBDebugger \<Rightarrow> Inr (usb_debugger_filter d)
      | MatchedSysfsGPIO \<Rightarrow> Inr (gpio_filter d)
      | _ \<Rightarrow> Inr True)"

section \<open>How a resource is made\<close>

text \<open>What each class writes into its match before the default of \<open>USBResource\<close>.\<close>

definition serial_port_match :: "(string \<times> string) list" where
  "serial_port_match = [(''SUBSYSTEM'', ''tty''), (''@SUBSYSTEM'', ''usb'')]"

definition mass_storage_match :: "(string \<times> string) list" where
  "mass_storage_match = [(''SUBSYSTEM'', ''block''), (''DEVTYPE'', ''disk''), (''@SUBSYSTEM'', ''usb'')]"

definition network_interface_match :: "(string \<times> string) list" where
  "network_interface_match = [(''SUBSYSTEM'', ''net''), (''@SUBSYSTEM'', ''usb'')]"

definition sigrok_match :: "(string \<times> string) list" where
  "sigrok_match = [(''@SUBSYSTEM'', ''usb'')]"

definition sigrok_serial_match :: "(string \<times> string) list" where
  "sigrok_serial_match = [(''SUBSYSTEM'', ''tty''), (''@SUBSYSTEM'', ''usb'')]"

definition sdwire_match :: "(string \<times> string) list" where
  "sdwire_match = [(''ID_VENDOR_ID'', ''04e8''), (''ID_MODEL_ID'', ''6001''),
     (''@ID_VENDOR_ID'', ''0424''), (''@ID_MODEL_ID'', ''2640'')]"

definition sdwire3_match :: "(string \<times> string) list" where
  "sdwire3_match = [(''ID_VENDOR_ID'', ''0bda''), (''ID_MODEL_ID'', ''0316''),
     (''@ID_VENDOR_ID'', ''1d6b''), (''@ID_MODEL_ID'', ''0002'')]"

definition sdmux_match :: "(string \<times> string) list" where
  "sdmux_match = [(''ID_VENDOR_ID'', ''0424''), (''ID_MODEL_ID'', ''4041'')]"

definition hub_match :: "(string \<times> string) list" where
  "hub_match = [(''DEVTYPE'', ''usb_interface''), (''DRIVER'', ''hub'')]"

definition power_port_match :: "(string \<times> string) list" where
  "power_port_match = [(''DEVTYPE'', ''usb_interface''), (''DRIVER'', ''hub'')]"

definition video_match :: "(string \<times> string) list" where
  "video_match = [(''SUBSYSTEM'', ''video4linux''), (''@SUBSYSTEM'', ''usb'')]"

definition audio_match :: "(string \<times> string) list" where
  "audio_match = [(''SUBSYSTEM'', ''sound''), (''@SUBSYSTEM'', ''usb'')]"

definition usbtmc_match :: "(string \<times> string) list" where
  "usbtmc_match = [(''SUBSYSTEM'', ''usbmisc''), (''@DRIVER'', ''usbtmc''), (''@SUBSYSTEM'', ''usb'')]"

definition deditec_match :: "(string \<times> string) list" where
  "deditec_match = [(''ID_VENDOR'', ''DEDITEC''), (''ID_MODEL'', ''DEDITEC_USB-OPT_REL-8'')]"

definition ftdi_match :: "(string \<times> string) list" where
  "ftdi_match = [(''DEVTYPE'', ''usb_device'')]"

definition usbmux_match :: "(string \<times> string) list" where
  "usbmux_match = [(''ID_VENDOR_ID'', ''33f7''), (''ID_MODEL_ID'', ''0001'')]"

definition sysfs_gpio_match :: "(string \<times> string) list" where
  "sysfs_gpio_match = [(''SUBSYSTEM'', ''gpio'')]"

definition class_match :: "usb_class \<Rightarrow> (string \<times> string) list" where
  "class_match c =
     (case c of
        USBSerialPort \<Rightarrow> serial_port_match
      | USBMassStorage \<Rightarrow> mass_storage_match
      | USBNetworkInterface \<Rightarrow> network_interface_match
      | SigrokUSBDevice \<Rightarrow> sigrok_match
      | SigrokUSBSerialDevice \<Rightarrow> sigrok_serial_match
      | USBSDWireDevice \<Rightarrow> sdwire_match
      | USBSDWire3Device \<Rightarrow> sdwire3_match
      | USBSDMuxDevice \<Rightarrow> sdmux_match
      | USBHub \<Rightarrow> hub_match
      | USBPowerPort \<Rightarrow> power_port_match
      | USBVideo \<Rightarrow> video_match
      | USBAudioInput \<Rightarrow> audio_match
      | USBTMC \<Rightarrow> usbtmc_match
      | DeditecRelais8 \<Rightarrow> deditec_match
      | FTDIGPIO \<Rightarrow> ftdi_match
      | LXAUSBMux \<Rightarrow> usbmux_match
      | MatchedSysfsGPIO \<Rightarrow> sysfs_gpio_match
      | _ \<Rightarrow> [])"

text \<open>
  The validators of the attributes. \<open>optional(str)\<close> calls \<open>str\<close> with the object, the attribute and the
  value, which raises \<open>TypeError\<close>, so these attributes only accept \<open>None\<close>.
\<close>

definition optional_str :: "string option \<Rightarrow> (py_error + unit) \<Rightarrow> py_error + unit" where
  "optional_str v k = (if v \<noteq> None then Inl TypeError else k)"

definition sdwire_validate :: "usb \<Rightarrow> py_error + unit" where
  "sdwire_validate r = optional_str (ur_disk_path r) (Inr ())"

definition sdwire3_validate :: "usb \<Rightarrow> py_error + unit" where
  "sdwire3_validate r = optional_str (ur_control_serial r) (optional_str (ur_disk_path r) (Inr ()))"

definition ftdi_validate :: "usb \<Rightarrow> py_error + unit" where
  "ftdi_validate r =
     (case ur_index r of
        None \<Rightarrow> Inl TypeError
      | Some i \<Rightarrow> (if i < 0 \<or> 7 < i \<or> ur_interface r < 1 then Inl ValueError else Inr ()))"

definition validate :: "usb \<Rightarrow> py_error + unit" where
  "validate r =
     (case ur_class r of
        USBSDWireDevice \<Rightarrow> sdwire_validate r
      | USBSDWire3Device \<Rightarrow> sdwire3_validate r
      | FTDIGPIO \<Rightarrow> ftdi_validate r
      | c \<Rightarrow> (if c \<in> {USBPowerPort, SiSPMPowerPort, USBAudioInput, DeditecRelais8, HIDRelay} \<and>
                ur_index r = None then Inl TypeError else Inr ()))"

text \<open>\<open>__attrs_post_init__\<close> up to the registration at the manager.\<close>

definition post_init :: "usb \<Rightarrow> usb" where
  "post_init r =
     r\<lparr>ur_match := dict_setdefault ''SUBSYSTEM'' (VStr ''usb'')
         (dict_update (ur_match r) (map (\<lambda>(k, v). (k, VStr v)) (class_match (ur_class r)))),
       ur_flag := False,
       ur_control_serial := (if ur_class r = USBSDWireDevice then None else ur_control_serial r)\<rparr>"


section \<open>What a resource tells\<close>

text \<open>\<open>_get_usb_device\<close> and the numbers read from it.\<close>

definition usb_device :: "usb \<Rightarrow> node option" where
  "usb_device r =
     (case ur_device r of
        None \<Rightarrow> None
      | Some d \<Rightarrow>
          (if nd_subsystem (dv_node d) \<noteq> Some ''usb'' \<or> nd_type (dv_node d) \<noteq> Some ''usb_device''
           then find_parent d ''usb'' ''usb_device'' else Some (dv_node d)))"

definition usb_number :: "nat \<Rightarrow> string \<Rightarrow> usb \<Rightarrow> py_error + int option" where
  "usb_number base k r =
     (case usb_device r of
        None \<Rightarrow> Inr None
      | Some u \<Rightarrow>
          (case get_property u k of
             None \<Rightarrow> Inl TypeError
           | Some s \<Rightarrow> and_result (py_int base s) (\<lambda>i. Inr (Some i))))"

definition busnum :: "usb \<Rightarrow> py_error + int option" where
  "busnum = usb_number 10 ''BUSNUM''"

definition devnum :: "usb \<Rightarrow> py_error + int option" where
  "devnum = usb_number 10 ''DEVNUM''"

definition vendor_id :: "usb \<Rightarrow> py_error + int option" where
  "vendor_id = usb_number 16 ''ID_VENDOR_ID''"

definition model_id :: "usb \<Rightarrow> py_error + int option" where
  "model_id = usb_number 16 ''ID_MODEL_ID''"

definition device_node :: "usb \<Rightarrow> string option" where
  "device_node r = (case ur_device r of None \<Rightarrow> None | Some d \<Rightarrow> nd_node (dv_node d))"

definition device_name :: "usb \<Rightarrow> string option" where
  "device_name r = (case usb_device r of None \<Rightarrow> None | Some u \<Rightarrow> Some (nd_name u))"

definition usb_path :: "usb \<Rightarrow> string option" where
  "usb_path r =
     (if ur_class r \<in> {USBMassStorage, SigrokUSBSerialDevice, USBVideo, USBAudioInput, USBTMC}
      then device_node r
      else if ur_class r \<in> {USBSDWireDevice, USBSDWire3Device, USBSDMuxDevice} then ur_disk_path r
      else device_name r)"

definition read_attr :: "sysfs \<Rightarrow> string \<Rightarrow> usb \<Rightarrow> attr_data option" where
  "read_attr sys a r =
     (case ur_device r of None \<Rightarrow> None | Some d \<Rightarrow> sf_attribute sys (nd_path (dv_node d)) a)"

text \<open>\<open>if_state\<close> of a network interface and \<open>alsa_name\<close> of an audio input.\<close>

definition if_state :: "sysfs \<Rightarrow> usb \<Rightarrow> py_error + string option" where
  "if_state sys r =
     (case read_attr sys ''operstate'' r of
        None \<Rightarrow> Inr None
      | Some a \<Rightarrow> and_result (asstring a) (\<lambda>s. Inr (Some s)))"

definition alsa_name :: "usb \<Rightarrow> py_error + string option" where
  "alsa_name r =
     (case ur_device r of
        None \<Rightarrow> Inr None
      | Some d \<Rightarrow>
          (case dv_ancestors d of
             [] \<Rightarrow> Inl AttributeError
           | p # _ \<Rightarrow>
               (case map_of (nd_attributes p) ''number'' of
                  None \<Rightarrow> Inl KeyError
                | Some a \<Rightarrow>
                    and_result (asstring a) (\<lambda>s. and_result (py_int 10 s) (\<lambda>n.
                      Inr (Some (''hw:CARD='' @ show_int n @ '',DEV='' @
                        (case ur_index r of None \<Rightarrow> ''None'' | Some i \<Rightarrow> show_int i))))))))"

text \<open>Whether a resource is available; four classes decide it themselves and ignore the setter.\<close>

definition own_avail :: "usb_class \<Rightarrow> bool" where
  "own_avail c \<longleftrightarrow> c \<in> {USBMassStorage, USBSDWireDevice, USBSDWire3Device, USBSDMuxDevice}"

definition mass_storage_avail :: "usb \<Rightarrow> bool" where
  "mass_storage_avail r \<longleftrightarrow> device_node r \<noteq> None"

definition sdwire_avail :: "usb \<Rightarrow> bool" where
  "sdwire_avail r \<longleftrightarrow> truthy (ur_disk_path r) \<and> truthy (ur_control_serial r)"

definition sdwire3_avail :: "usb \<Rightarrow> bool" where
  "sdwire3_avail r \<longleftrightarrow> truthy (ur_control_serial r)"

definition sdmux_avail :: "usb \<Rightarrow> bool" where
  "sdmux_avail r \<longleftrightarrow> truthy (ur_disk_path r) \<and> truthy (ur_control_path r)"

definition usb_avail :: "usb \<Rightarrow> bool" where
  "usb_avail r =
     (case ur_class r of
        USBMassStorage \<Rightarrow> mass_storage_avail r
      | USBSDWireDevice \<Rightarrow> sdwire_avail r
      | USBSDWire3Device \<Rightarrow> sdwire3_avail r
      | USBSDMuxDevice \<Rightarrow> sdmux_avail r
      | _ \<Rightarrow> ur_flag r)"

definition put_avail :: "bool \<Rightarrow> usb \<Rightarrow> usb" where
  "put_avail b r = (if own_avail (ur_class r) then r else r\<lparr>ur_flag := b\<rparr>)"

section \<open>Following a device\<close>

definition serial_port_update :: "usb \<Rightarrow> usb" where
  "serial_port_update r = r\<lparr>ur_port := device_node r\<rparr>"

definition network_interface_update :: "usb \<Rightarrow> usb" where
  "network_interface_update r =
     r\<lparr>ur_ifname := (case ur_device r of
          None \<Rightarrow> None | Some d \<Rightarrow> get_property (dv_node d) ''INTERFACE'')\<rparr>"

definition sdwire_update :: "usb \<Rightarrow> usb" where
  "sdwire_update r =
     (if ur_device r = None then r\<lparr>ur_disk_path := None, ur_control_serial := None\<rparr> else r)"

definition sdwire3_update :: "usb \<Rightarrow> usb" where
  "sdwire3_update r =
     (if ur_device r = None then r\<lparr>ur_disk_path := None, ur_control_serial := None\<rparr> else r)"

definition sdmux_update :: "usb \<Rightarrow> usb" where
  "sdmux_update r =
     (if ur_device r = None then r\<lparr>ur_control_path := None, ur_disk_path := None\<rparr> else r)"

fun int_of_attr :: "attr_data option \<Rightarrow> py_error + int" where
  "int_of_attr None = Inl TypeError"
| "int_of_attr (Some (Text s)) = py_int 10 s"
| "int_of_attr (Some (Binary _)) = Inl ValueError"

definition sysfs_gpio_update :: "sysfs \<Rightarrow> usb \<Rightarrow> (py_error, unit, usb) outcome" where
  "sysfs_gpio_update sys r =
     (case ur_device r of
        None \<Rightarrow> (Inr (), r\<lparr>ur_index := None\<rparr>)
      | Some _ \<Rightarrow>
          (case int_of_attr (read_attr sys ''ngpio'' r) of
             Inl e \<Rightarrow> (Inl e, r)
           | Inr n \<Rightarrow>
               (if n \<le> ur_pin r then (Inl ValueError, r)
                else case int_of_attr (read_attr sys ''base'' r) of
                  Inl e \<Rightarrow> (Inl e, r)
                | Inr b \<Rightarrow> (Inr (), r\<lparr>ur_index := Some (b + ur_pin r)\<rparr>))))"

definition usb_update :: "sysfs \<Rightarrow> usb \<Rightarrow> (py_error, unit, usb) outcome" where
  "usb_update sys r =
     (case ur_class r of
        USBSerialPort \<Rightarrow> (Inr (), serial_port_update r)
      | USBNetworkInterface \<Rightarrow> (Inr (), network_interface_update r)
      | USBSDWireDevice \<Rightarrow> (Inr (), sdwire_update r)
      | USBSDWire3Device \<Rightarrow> (Inr (), sdwire3_update r)
      | USBSDMuxDevice \<Rightarrow> (Inr (), sdmux_update r)
      | MatchedSysfsGPIO \<Rightarrow> sysfs_gpio_update sys r
      | _ \<Rightarrow> (Inr (), r))"

text \<open>
  A key of the match is looked for among the properties, the attributes of sysfs and the
  attributes of the object, and with a leading \<open>@\<close> in the ancestors.
\<close>

definition match_object :: "node \<Rightarrow> string \<Rightarrow> pyval \<Rightarrow> bool" where
  "match_object d k v \<longleftrightarrow> py_eq (get_attribute d k) v"

definition match_single :: "node \<Rightarrow> string \<Rightarrow> pyval \<Rightarrow> py_error + bool" where
  "match_single d k v =
     (if py_eq (opt_val (get_property d k)) v then Inr True
      else case map_of (nd_attributes d) k of
        None \<Rightarrow> Inr (match_object d k v)
      | Some a \<Rightarrow>
          (if attr_true a
           then and_result (asstring a) (\<lambda>s. Inr (py_eq (VStr s) v \<or> match_object d k v))
           else Inr (match_object d k v)))"

fun match_ancestors :: "node list \<Rightarrow> string \<Rightarrow> pyval \<Rightarrow> py_error + bool" where
  "match_ancestors [] k v = Inr False"
| "match_ancestors (a # as) k v =
     and_result (match_single a k v) (\<lambda>b. if b then Inr True else match_ancestors as k v)"

definition match_item :: "device \<Rightarrow> string \<Rightarrow> pyval \<Rightarrow> py_error + bool" where
  "match_item d k v =
     (if startswith k ''@'' then match_ancestors (dv_ancestors d) (tl k) v
      else match_single (dv_node d) k v)"

fun match_all :: "device \<Rightarrow> (string, pyval) dict \<Rightarrow> py_error + bool" where
  "match_all d [] = Inr True"
| "match_all d ((k, v) # m) =
     and_result (match_item d k v) (\<lambda>b. if b then match_all d m else Inr False)"

definition accepts :: "usb \<Rightarrow> device \<Rightarrow> py_error + bool" where
  "accepts r d =
     (case ur_device r of
        None \<Rightarrow>
          and_result (match_all d (ur_match r)) (\<lambda>b. if b then filter_match r d else Inr False)
      | Some old \<Rightarrow> Inr (nd_path (dv_node old) = nd_path (dv_node d)))"

definition follow :: "device \<Rightarrow> usb \<Rightarrow> usb" where
  "follow d r =
     (if dv_action d \<in> {None, Some ''add''} then r\<lparr>ur_device := Some d\<rparr>
      else if dv_action d \<in> {Some ''change'', Some ''move''} then r\<lparr>ur_device := Some d\<rparr>
      else if dv_action d \<in> {Some ''unbind'', Some ''remove''} then r\<lparr>ur_device := None\<rparr>
      else r)"

text \<open>\<open>suggest_match\<close>: what is known of the device, and matches that would find it again.\<close>

definition truthy_entry :: "string \<Rightarrow> string option \<Rightarrow> (string, string) dict" where
  "truthy_entry k v = (case v of None \<Rightarrow> [] | Some s \<Rightarrow> if s = [] then [] else [(k, s)])"

definition suggest_meta :: "device \<Rightarrow> (string, string) dict" where
  "suggest_meta d =
     (let p = get_property (dv_node d) in
      truthy_entry ''device node'' (nd_node (dv_node d)) @
      (if dv_tags d = [] then [] else [(''udev tags'', join_with '', '' (dv_tags d))]) @
      truthy_entry ''vendor'' (p ''ID_VENDOR'') @
      truthy_entry ''vendor (DB)'' (p ''ID_VENDOR_FROM_DATABASE'') @
      truthy_entry ''model'' (p ''ID_MODEL'') @
      truthy_entry ''model (DB)'' (p ''ID_MODEL_FROM_DATABASE'') @
      truthy_entry ''revision'' (p ''ID_REVISION''))"

definition on_usb :: "usb \<Rightarrow> bool" where
  "on_usb r \<longleftrightarrow>
     (case map_of (ur_match r) ''@SUBSYSTEM'' of None \<Rightarrow> False | Some v \<Rightarrow> py_eq v (VStr ''usb''))"

definition suggest_path :: "usb \<Rightarrow> device \<Rightarrow> py_error + suggestion list" where
  "suggest_path r d =
     (case get_property (dv_node d) ''ID_PATH'' of
        Some (c # s) \<Rightarrow> Inr [[(''ID_PATH'', VStr (c # s))]]
      | _ \<Rightarrow>
          (if \<not> on_usb r then Inr []
           else case usb_device r of
             None \<Rightarrow> Inl AttributeError
           | Some u \<Rightarrow>
               (case get_property u ''ID_PATH'' of
                  Some (c # s) \<Rightarrow> Inr [[(''@ID_PATH'', VStr (c # s))]]
                | _ \<Rightarrow> Inr [])))"

definition with_interface :: "string \<Rightarrow> string option \<Rightarrow> suggestion" where
  "with_interface k i = (case i of None \<Rightarrow> [] | Some n \<Rightarrow> [(k, VStr n)])"

definition suggest_serial :: "usb \<Rightarrow> device \<Rightarrow> py_error + suggestion list" where
  "suggest_serial r d =
     (case get_property (dv_node d) ''ID_SERIAL_SHORT'' of
        Some (c # s) \<Rightarrow>
          Inr [(''ID_SERIAL_SHORT'', VStr (c # s)) #
            with_interface ''ID_USB_INTERFACE_NUM'' (get_property (dv_node d) ''ID_USB_INTERFACE_NUM'')]
      | _ \<Rightarrow>
          (if \<not> on_usb r then Inr []
           else case usb_device r of
             None \<Rightarrow> Inl AttributeError
           | Some u \<Rightarrow>
               (case get_property u ''ID_SERIAL_SHORT'' of
                  Some (c # s) \<Rightarrow>
                    Inr [(''@ID_SERIAL_SHORT'', VStr (c # s)) #
                      with_interface ''@ID_USB_INTERFACE_NUM'' (get_property u ''ID_USB_INTERFACE_NUM'')]
                | _ \<Rightarrow> Inr [])))"

fun port_number :: "node list \<Rightarrow> py_error + string option" where
  "port_number [] = Inr None"
| "port_number (a # as) =
     (case map_of (nd_attributes a) ''port_number'' of
        None \<Rightarrow> port_number as
      | Some v \<Rightarrow> and_result (asstring v) (\<lambda>s. Inr (Some s)))"

definition suggest_match :: "usb \<Rightarrow> device \<Rightarrow> py_error + (string, string) dict \<times> suggestion list" where
  "suggest_match r d =
     and_result (suggest_path r d) (\<lambda>ps. and_result (suggest_serial r d) (\<lambda>ss.
       and_result (port_number (dv_ancestors d)) (\<lambda>port. Inr
         (case port of
            None \<Rightarrow> (suggest_meta d, ps @ ss)
          | Some n \<Rightarrow> (suggest_meta d @ [(''port_number'', n)],
              map (AList.update ''@port_number'' (VStr n)) (ps @ ss))))))"

definition try_match :: "sysfs \<Rightarrow> device \<Rightarrow> usb \<Rightarrow> (py_error, bool, usb) outcome" where
  "try_match sys d r =
     (case accepts r d of
        Inl e \<Rightarrow> (Inl e, r)
      | Inr False \<Rightarrow> (Inr False, r)
      | Inr True \<Rightarrow>
          (if ur_suggest r \<and> dv_action d \<in> {None, Some ''add''} then
             (let t = r\<lparr>ur_device := Some d\<rparr> in
              case suggest_match t d of
                Inl e \<Rightarrow> (Inl e, t)
              | Inr x \<Rightarrow> (Inr False, t\<lparr>ur_device := None, ur_suggested := ur_suggested t @ [x]\<rparr>))
           else
             (let t = follow d r in
              and_then (usb_update sys (put_avail (ur_device t \<noteq> None) t)) (\<lambda>_ u. (Inr True, u)))))"


section \<open>The manager\<close>

record udev_manager =
  um_queue :: "device list"
  um_resources :: "usb list"

definition insert_into_queue :: "device \<Rightarrow> udev_manager \<Rightarrow> udev_manager" where
  "insert_into_queue d m = m\<lparr>um_queue := um_queue m @ [d]\<rparr>"

text \<open>
  An event is offered to the resources in turn. An exception leaves the loop, and with it
  \<open>poll\<close>: the event has left the queue and the resources behind it do not see it.
\<close>

fun offer :: "sysfs \<Rightarrow> device \<Rightarrow> usb list \<Rightarrow> (py_error, unit, usb list) outcome" where
  "offer sys d [] = (Inr (), [])"
| "offer sys d (r # rs) =
     (case try_match sys d r of
        (Inl e, t) \<Rightarrow> (Inl e, t # rs)
      | (Inr _, t) \<Rightarrow> (case offer sys d rs of (x, ts) \<Rightarrow> (x, t # ts)))"

text \<open>\<open>poll\<close> takes events until the queue is empty or its time is over, here after some rounds.\<close>

fun udev_poll :: "sysfs \<Rightarrow> nat \<Rightarrow> udev_manager \<Rightarrow> (py_error, unit, udev_manager) outcome" where
  "udev_poll sys 0 m = (Inr (), m)"
| "udev_poll sys (Suc n) m =
     (case um_queue m of
        [] \<Rightarrow> (Inr (), m)
      | d # q \<Rightarrow>
          (case offer sys d (um_resources m) of
             (x, rs) \<Rightarrow>
               and_then (x, m\<lparr>um_queue := q, um_resources := rs\<rparr>) (\<lambda>_. udev_poll sys n)))"

text \<open>A new resource sees the devices that are there, as pyudev lists them for its subsystem.\<close>

fun try_each :: "sysfs \<Rightarrow> device list \<Rightarrow> usb \<Rightarrow> (py_error, unit, usb) outcome" where
  "try_each sys [] r = (Inr (), r)"
| "try_each sys (d # ds) r = and_then (try_match sys d r) (\<lambda>_. try_each sys ds)"

definition on_resource_added ::
  "sysfs \<Rightarrow> (pyval \<Rightarrow> device list) \<Rightarrow> usb \<Rightarrow> (py_error, unit, usb) outcome" where
  "on_resource_added sys list_devices r =
     (case map_of (ur_match r) ''SUBSYSTEM'' of
        None \<Rightarrow> (Inl KeyError, r)
      | Some v \<Rightarrow> try_each sys (list_devices v) r)"

definition add_usb ::
  "sysfs \<Rightarrow> (pyval \<Rightarrow> device list) \<Rightarrow> usb \<Rightarrow> udev_manager \<Rightarrow> (py_error, unit, udev_manager) outcome" where
  "add_usb sys list_devices r m =
     (case validate r of
        Inl e \<Rightarrow> (Inl e, m)
      | Inr _ \<Rightarrow>
          (case on_resource_added sys list_devices (post_init r) of
             (x, t) \<Rightarrow> (x, m\<lparr>um_resources := um_resources m @ [t]\<rparr>)))"

text \<open>The resources that look for further devices below their own when they are polled.\<close>

definition is_disk :: "node \<Rightarrow> bool" where
  "is_disk c \<longleftrightarrow> nd_subsystem c = Some ''block'' \<and> nd_type c = Some ''disk''"

definition last_disk :: "node list \<Rightarrow> usb \<Rightarrow> usb" where
  "last_disk cs r = fold (\<lambda>c t. if is_disk c then t\<lparr>ur_disk_path := nd_node c\<rparr> else t) cs r"

definition sdwire_poll :: "sysfs \<Rightarrow> usb \<Rightarrow> (py_error, unit, usb) outcome" where
  "sdwire_poll sys r =
     (case ur_device r of
        None \<Rightarrow> (Inr (), r)
      | Some d \<Rightarrow>
          (if sdwire_avail r then (Inr (), r)
           else case dv_ancestors d of
             [] \<Rightarrow> (Inl AttributeError, r)
           | p # _ \<Rightarrow>
               (Inr (), (last_disk (sf_children sys (nd_path p)) r)
                 \<lparr>ur_control_serial := get_property (dv_node d) ''ID_SERIAL_SHORT''\<rparr>)))"

definition sdwire3_poll :: "sysfs \<Rightarrow> usb \<Rightarrow> (py_error, unit, usb) outcome" where
  "sdwire3_poll sys r =
     (case ur_device r of
        None \<Rightarrow> (Inr (), r)
      | Some d \<Rightarrow>
          (if sdwire3_avail r then (Inr (), r)
           else case dv_ancestors d of
             [] \<Rightarrow> (Inl AttributeError, r)
           | p # _ \<Rightarrow>
               (Inr (), (last_disk (sf_children sys (nd_path p)) r)
                 \<lparr>ur_control_serial := get_property (dv_node d) ''ID_SERIAL_SHORT''\<rparr>)))"

definition sdmux_child :: "node \<Rightarrow> usb \<Rightarrow> usb" where
  "sdmux_child c r =
     (if is_disk c then r\<lparr>ur_disk_path := nd_node c\<rparr>
      else if nd_subsystem c = Some ''scsi_generic'' then r\<lparr>ur_control_path := nd_node c\<rparr>
      else r)"

definition sdmux_poll :: "sysfs \<Rightarrow> usb \<Rightarrow> usb" where
  "sdmux_poll sys r =
     (case ur_device r of
        None \<Rightarrow> r
      | Some d \<Rightarrow>
          (if sdmux_avail r then r else fold sdmux_child (sf_children sys (nd_path (dv_node d))) r))"

definition own_poll :: "sysfs \<Rightarrow> usb \<Rightarrow> (py_error, unit, usb) outcome" where
  "own_poll sys r =
     (case ur_class r of
        USBSDWireDevice \<Rightarrow> sdwire_poll sys r
      | USBSDWire3Device \<Rightarrow> sdwire3_poll sys r
      | USBSDMuxDevice \<Rightarrow> (Inr (), sdmux_poll sys r)
      | _ \<Rightarrow> (Inr (), r))"

text \<open>\<open>poll\<close> of the resource at a position of the manager's list.\<close>

definition usb_poll :: "sysfs \<Rightarrow> nat \<Rightarrow> nat \<Rightarrow> udev_manager \<Rightarrow> (py_error, unit, udev_manager) outcome" where
  "usb_poll sys n i m =
     and_then (udev_poll sys n m) (\<lambda>_ t.
       case own_poll sys (um_resources t ! i) of
         (x, r) \<Rightarrow> (x, t\<lparr>um_resources := (um_resources t)[i := r]\<rparr>))"

end
