(* ===== verification/UdevProps.thy ===== *)
theory UdevProps
  imports Udev
begin

text \<open>
  What the udev resources promise: the suggested matches find the device again, every event
  reaches every resource in order unless one of them raises, and a resource that is available has
  a device.
\<close>

section \<open>Matching\<close>

definition text_only :: "node \<Rightarrow> bool" where
  "text_only a \<longleftrightarrow> (\<forall>x \<in> set (nd_attributes a). \<exists>s. snd x = Text s)"

definition readable :: "device \<Rightarrow> bool" where
  "readable d \<longleftrightarrow> text_only (dv_node d) \<and> (\<forall>a \<in> set (dv_ancestors d). text_only a)"

lemma and_result_not_isl:
  "\<not> isl m \<Longrightarrow> (\<And>a. m = Inr a \<Longrightarrow> \<not> isl (k a)) \<Longrightarrow> \<not> isl (and_result m k)"
  by (cases m) simp_all

lemma match_all_iff:
  "match_all d m = Inr True \<longleftrightarrow> (\<forall>(k, v) \<in> set m. match_item d k v = Inr True)"
proof (induction m)
  case Nil
  then show ?case by simp
next
  case (Cons kv m)
  obtain k v where kv: "kv = (k, v)" by (cases kv)
  show ?case
  proof (cases "match_item d k v")
    case (Inl e)
    with kv show ?thesis by simp
  next
    case (Inr b)
    with kv Cons.IH show ?thesis by (cases b) simp_all
  qed
qed

lemma match_single_returns: "text_only a \<Longrightarrow> \<not> isl (match_single a k v)"
proof (cases "map_of (nd_attributes a) k")
  case None
  then show ?thesis by (simp add: match_single_def)
next
  case (Some x)
  assume "text_only a"
  with Some obtain s where "x = Text s" by (force simp: text_only_def dest: map_of_SomeD)
  with Some show ?thesis by (simp add: match_single_def)
qed

lemma match_single_property: "get_property a k = Some s \<Longrightarrow> match_single a k (VStr s) = Inr True"
  by (simp add: match_single_def)

lemma match_single_attribute:
  "map_of (nd_attributes a) k = Some (Text s) \<Longrightarrow> s \<noteq> [] \<Longrightarrow> match_single a k (VStr s) = Inr True"
  by (simp add: match_single_def)

lemma match_ancestors_returns: "\<forall>a \<in> set as. text_only a \<Longrightarrow> \<not> isl (match_ancestors as k v)"
  by (induction as) (simp_all add: and_result_not_isl match_single_returns)

lemma match_ancestors_found:
  assumes "\<forall>a \<in> set as. text_only a" and "a \<in> set as" and "match_single a k v = Inr True"
  shows "match_ancestors as k v = Inr True"
  using assms
proof (induction as)
  case Nil
  then show ?case by simp
next
  case (Cons c as)
  from Cons.prems(1) have "\<not> isl (match_single c k v)" by (simp add: match_single_returns)
  then obtain b where b: "match_single c k v = Inr b" by (cases "match_single c k v") simp_all
  show ?case
  proof (cases b)
    case True
    with b show ?thesis by simp
  next
    case False
    with b Cons.prems(2,3) have "a \<in> set as" by auto
    with Cons False b show ?thesis by simp
  qed
qed

lemma match_item_own:
  "\<not> startswith k ''@'' \<Longrightarrow> get_property (dv_node d) k = Some s \<Longrightarrow> match_item d k (VStr s) = Inr True"
  by (simp add: match_item_def match_single_property)

lemma match_item_ancestor:
  assumes "readable d" and "a \<in> set (dv_ancestors d)" and "match_single a k v = Inr True"
  shows "match_item d (CHR ''@'' # k) v = Inr True"
  using assms match_ancestors_found [of "dv_ancestors d" a k v]
  by (simp add: match_item_def startswith_def readable_def)

lemma match_item_ancestor_property:
  "readable d \<Longrightarrow> a \<in> set (dv_ancestors d) \<Longrightarrow> get_property a k = Some s \<Longrightarrow>
   match_item d (CHR ''@'' # k) (VStr s) = Inr True"
  by (rule match_item_ancestor [OF _ _ match_single_property])

lemma match_item_returns: "readable d \<Longrightarrow> \<not> isl (match_item d k v)"
  by (simp add: match_item_def readable_def match_single_returns match_ancestors_returns)

lemma match_all_returns: "readable d \<Longrightarrow> \<not> isl (match_all d m)"
  by (induction m) (auto simp: and_result_not_isl match_item_returns)


section \<open>Suggestions\<close>

definition good_suggestion :: "device \<Rightarrow> suggestion \<Rightarrow> bool" where
  "good_suggestion d s \<longleftrightarrow> (\<forall>(k, v) \<in> set s. match_item d k v = Inr True)"

lemma set_AList_update: "set (AList.update k v d) \<subseteq> insert (k, v) (set d)"
  by (induction d) auto

lemma set_dict_update: "set (dict_update d e) \<subseteq> set d \<union> set e"
  unfolding dict_update_def
proof (induction e arbitrary: d)
  case Nil
  then show ?case by simp
next
  case (Cons kv e)
  obtain k v where kv: "kv = (k, v)" by (cases kv)
  with Cons.IH [of "AList.update k v d"] set_AList_update [of k v d] show ?case by auto
qed

lemma good_suggestion_matches:
  assumes "match_all d m = Inr True" and "good_suggestion d s"
  shows "match_all d (dict_update m s) = Inr True"
  using assms set_dict_update [of m s] by (fastforce simp: match_all_iff good_suggestion_def)

lemma good_suggestion_update:
  "good_suggestion d s \<Longrightarrow> match_item d k v = Inr True \<Longrightarrow> good_suggestion d (AList.update k v s)"
  using set_AList_update [of k v s] by (fastforce simp: good_suggestion_def)

lemma usb_device_ancestor:
  assumes "ur_device r = Some d" and "usb_device r = Some u" and "u \<noteq> dv_node d"
  shows "u \<in> set (dv_ancestors d)"
  using assms find_SomeD [of _ "dv_ancestors d" u]
  by (auto simp: usb_device_def find_parent_def split: if_splits)

lemma suggest_path_good:
  assumes d: "ur_device r = Some d" "readable d" and s: "suggest_path r d = Inr ss" "s \<in> set ss"
  shows "good_suggestion d s"
proof -
  have up: "good_suggestion d [(''@ID_PATH'', VStr (c # t))]"
    if "usb_device r = Some u" "get_property u ''ID_PATH'' = Some (c # t)"
      "get_property (dv_node d) ''ID_PATH'' \<noteq> Some (c # t)" for u c t
  proof -
    from that have "u \<noteq> dv_node d" by auto
    with d(1) that(1) have "u \<in> set (dv_ancestors d)" by (rule usb_device_ancestor)
    with d(2) that(2) show ?thesis
      by (simp add: good_suggestion_def match_item_ancestor_property)
  qed
  have own: "good_suggestion d [(''ID_PATH'', VStr t)]"
    if "get_property (dv_node d) ''ID_PATH'' = Some t" for t
    using that by (simp add: good_suggestion_def match_item_own startswith_def)
  from s show ?thesis
    by (auto simp: suggest_path_def split: option.splits list.splits if_splits
        intro!: up own)
qed

lemma suggest_serial_good:
  assumes d: "ur_device r = Some d" "readable d" and s: "suggest_serial r d = Inr ss" "s \<in> set ss"
  shows "good_suggestion d s"
proof -
  have up: "good_suggestion d ((''@ID_SERIAL_SHORT'', VStr (c # t)) #
      with_interface ''@ID_USB_INTERFACE_NUM'' (get_property u ''ID_USB_INTERFACE_NUM''))"
    if "usb_device r = Some u" "get_property u ''ID_SERIAL_SHORT'' = Some (c # t)"
      "get_property (dv_node d) ''ID_SERIAL_SHORT'' \<noteq> Some (c # t)" for u c t
  proof -
    from that have "u \<noteq> dv_node d" by auto
    with d(1) that(1) have "u \<in> set (dv_ancestors d)" by (rule usb_device_ancestor)
    with d(2) that(2) show ?thesis
      by (cases "get_property u ''ID_USB_INTERFACE_NUM''")
        (simp_all add: good_suggestion_def with_interface_def match_item_ancestor_property)
  qed
  have own: "good_suggestion d ((''ID_SERIAL_SHORT'', VStr t) #
      with_interface ''ID_USB_INTERFACE_NUM'' (get_property (dv_node d) ''ID_USB_INTERFACE_NUM''))"
    if "get_property (dv_node d) ''ID_SERIAL_SHORT'' = Some t" for t
    using that by (auto simp: good_suggestion_def with_interface_def match_item_own startswith_def
        split: option.splits)
  from s show ?thesis
    by (auto simp: suggest_serial_def split: option.splits list.splits if_splits
        intro!: up own)
qed

lemma port_number_found:
  "port_number as = Inr (Some n) \<Longrightarrow> \<exists>a \<in> set as. map_of (nd_attributes a) ''port_number'' = Some (Text n)"
proof (induction as)
  case Nil
  then show ?case by simp
next
  case (Cons a as)
  show ?case
  proof (cases "map_of (nd_attributes a) ''port_number''")
    case None
    with Cons show ?thesis by auto
  next
    case (Some x)
    with Cons.prems show ?thesis by (cases x) auto
  qed
qed

definition ports_named :: "device \<Rightarrow> bool" where
  "ports_named d \<longleftrightarrow>
     (\<forall>a \<in> set (dv_ancestors d). map_of (nd_attributes a) ''port_number'' \<noteq> Some (Text []))"

lemma suggest_match_good:
  assumes d: "ur_device r = Some d" "readable d" "ports_named d"
    and s: "suggest_match r d = Inr (meta, ss)" "s \<in> set ss"
  shows "good_suggestion d s"
proof -
  from s(1) obtain ps qs port where
    ps: "suggest_path r d = Inr ps" and qs: "suggest_serial r d = Inr qs"
    and port: "port_number (dv_ancestors d) = Inr port"
    and ss: "ss = (case port of None \<Rightarrow> ps @ qs
        | Some n \<Rightarrow> map (AList.update ''@port_number'' (VStr n)) (ps @ qs))"
    by (auto simp: suggest_match_def and_result_Inr split: option.splits)
  have good: "good_suggestion d t" if "t \<in> set (ps @ qs)" for t
    using that suggest_path_good [OF d(1,2) ps] suggest_serial_good [OF d(1,2) qs] by auto
  show ?thesis
  proof (cases port)
    case None
    with ss s(2) good show ?thesis by simp
  next
    case (Some n)
    with port obtain a where a: "a \<in> set (dv_ancestors d)"
      "map_of (nd_attributes a) ''port_number'' = Some (Text n)"
      using port_number_found by blast
    with d(3) have "n \<noteq> []" by (auto simp: ports_named_def)
    with a d(2) have "match_item d ''@port_number'' (VStr n) = Inr True"
      by (auto intro: match_item_ancestor match_single_attribute)
    moreover from s(2) ss Some obtain t where "t \<in> set (ps @ qs)"
      "s = AList.update ''@port_number'' (VStr n) t" by auto
    ultimately show ?thesis using good good_suggestion_update by simp
  qed
qed

text \<open>
  C25. Every match that a resource in suggestion mode proposes for a device it has found, put into
  the match of that resource, matches the device again; the resource itself stays free. The
  attributes of the device must be text and its port numbers not empty.
\<close>

theorem suggestions_find_device_again:
  assumes "ur_device r = None" and "ur_suggest r" and "dv_action d \<in> {None, Some ''add''}"
    and "readable d" and "ports_named d"
    and "accepts r d = Inr True" and "try_match sys d r = (Inr b, t)"
  shows "\<not> b \<and> ur_device t = None \<and>
    (\<exists>meta ss. ur_suggested t = ur_suggested r @ [(meta, ss)] \<and>
      (\<forall>s \<in> set ss. match_all d (dict_update (ur_match r) s) = Inr True))"
proof -
  let ?t = "r\<lparr>ur_device := Some d\<rparr>"
  obtain meta ss where ss: "suggest_match ?t d = Inr (meta, ss)"
    using assms(2,3,6,7) by (auto simp: try_match_def Let_def split: sum.splits)
  have "match_all d (ur_match r) = Inr True"
    using assms(1,6) by (auto simp: accepts_def and_result_Inr split: if_splits)
  then have "\<forall>s \<in> set ss. match_all d (dict_update (ur_match r) s) = Inr True"
    using suggest_match_good [of ?t d meta ss] ss assms(4,5) good_suggestion_matches by simp
  with ss assms(2,3,6,7) show ?thesis by (auto simp: try_match_def Let_def)
qed

definition demo_port :: node where
  "demo_port = \<lparr>nd_path = ''/sys/p'', nd_name = ''p'', nd_node = None, nd_subsystem = Some ''usb'',
     nd_type = Some ''usb_device'', nd_properties = [(''SUBSYSTEM'', ''usb''), (''ID_SERIAL_SHORT'', ''s1'')],
     nd_attributes = [(''port_number'', Text ''1'')], nd_others = []\<rparr>"

definition demo_tty :: "string option \<Rightarrow> device" where
  "demo_tty act = \<lparr>dv_node = \<lparr>nd_path = ''/sys/t'', nd_name = ''t'', nd_node = Some ''/dev/t'',
     nd_subsystem = Some ''tty'', nd_type = None,
     nd_properties = [(''SUBSYSTEM'', ''tty''), (''ID_PATH'', ''x'')],
     nd_attributes = [], nd_others = []\<rparr>, dv_ancestors = [demo_port], dv_tags = [], dv_action = act\<rparr>"

definition demo_usb :: "usb_class \<Rightarrow> bool \<Rightarrow> usb" where
  "demo_usb c sug = post_init \<lparr>ur_class = c, ur_match = [], ur_device = None, ur_suggest = sug,
     ur_suggested = [], ur_flag = True, ur_port = None, ur_ifname = None, ur_disk_path = None,
     ur_control_path = None, ur_control_serial = None, ur_vendor = ''1d6b'', ur_product = ''0104'',
     ur_index = Some 0, ur_interface = 1, ur_pin = 0\<rparr>"

definition demo_sysfs :: sysfs where
  "demo_sysfs = \<lparr>sf_children = \<lambda>_. [], sf_attribute = \<lambda>_ _. None\<rparr>"

lemma demo_suggestion:
  "accepts (demo_usb USBSerialPort True) (demo_tty None) = Inr True \<and>
   fst (try_match demo_sysfs (demo_tty None) (demo_usb USBSerialPort True)) = Inr False \<and>
   ur_suggested (snd (try_match demo_sysfs (demo_tty None) (demo_usb USBSerialPort True))) =
     [([(''device node'', ''/dev/t''), (''port_number'', ''1'')],
       [[(''ID_PATH'', VStr ''x''), (''@port_number'', VStr ''1'')],
        [(''@ID_SERIAL_SHORT'', VStr ''s1''), (''@port_number'', VStr ''1'')]])]"
  by code_simp

lemma suggestions_find_device_again_witness:
  "\<exists>meta ss. ur_suggested (snd (try_match demo_sysfs (demo_tty None) (demo_usb USBSerialPort True))) =
       ur_suggested (demo_usb USBSerialPort True) @ [(meta, ss)] \<and>
     (\<forall>s \<in> set ss. match_all (demo_tty None)
       (dict_update (ur_match (demo_usb USBSerialPort True)) s) = Inr True)"
proof -
  let ?r = "demo_usb USBSerialPort True" and ?d = "demo_tty None"
  have "ur_device ?r = None" and "ur_suggest ?r" and "dv_action ?d \<in> {None, Some ''add''}"
    and "readable ?d" and "ports_named ?d"
    by (simp_all add: demo_usb_def post_init_def demo_tty_def demo_port_def readable_def
        text_only_def ports_named_def)
  moreover have "try_match demo_sysfs ?d ?r = (Inr False, snd (try_match demo_sysfs ?d ?r))"
    using demo_suggestion by (metis prod.collapse)
  ultimately show ?thesis
    using suggestions_find_device_again [of ?r ?d demo_sysfs False] demo_suggestion by blast
qed


section \<open>Events\<close>

text \<open>
  The abstract resource is free or holds a device. Free, it reacts to a device that it wants;
  holding one, to the events of the same path.
\<close>

definition wants :: "usb \<Rightarrow> device \<Rightarrow> bool" where
  "wants r d \<longleftrightarrow> match_all d (ur_match r) = Inr True \<and> filter_match r d = Inr True"

fun claim :: "(device \<Rightarrow> bool) \<Rightarrow> device \<Rightarrow> device option \<Rightarrow> device option" where
  "claim w d held =
     (if (case held of None \<Rightarrow> w d | Some old \<Rightarrow> nd_path (dv_node old) = nd_path (dv_node d)) then
        (if dv_action d \<in> {None, Some ''add'', Some ''change'', Some ''move''} then Some d
         else if dv_action d \<in> {Some ''unbind'', Some ''remove''} then None else held)
      else held)"

declare claim.simps [simp del]

text \<open>An event on which a resource neither suggests nor raises.\<close>

definition calm :: "usb \<Rightarrow> device \<Rightarrow> bool" where
  "calm r d \<longleftrightarrow> \<not> ur_suggest r \<and> ur_class r \<noteq> MatchedSysfsGPIO \<and> readable d \<and>
     (ur_class r = USBVideo \<longrightarrow> get_property (dv_node d) ''ID_V4L_CAPABILITIES'' \<noteq> None)"

definition kind_of :: "usb \<Rightarrow> usb_class \<times> (string, pyval) dict \<times> bool \<times> string \<times> string \<times> int option" where
  "kind_of r = (ur_class r, ur_match r, ur_suggest r, ur_vendor r, ur_product r, ur_index r)"

lemma wants_kind: "kind_of r = kind_of t \<Longrightarrow> wants r = wants t"
proof (rule ext)
  fix d
  assume k: "kind_of r = kind_of t"
  then have "fastboot_filter r d = fastboot_filter t d" "audio_filter r d = audio_filter t d"
    by (simp_all add: kind_of_def fastboot_filter_def audio_filter_def)
  with k have "filter_match r d = filter_match t d"
    by (cases "ur_class t") (simp_all add: kind_of_def filter_match_def)
  with k show "wants r d = wants t d" by (simp add: kind_of_def wants_def)
qed

lemma calm_kind: "kind_of r = kind_of t \<Longrightarrow> calm r = calm t"
  by (rule ext) (simp add: kind_of_def calm_def)

lemma kind_put_avail [simp]:
  "kind_of (put_avail b r) = kind_of r" "ur_device (put_avail b r) = ur_device r"
  "ur_class (put_avail b r) = ur_class r"
  by (simp_all add: put_avail_def kind_of_def)

lemma kind_follow [simp]: "kind_of (follow d r) = kind_of r" "ur_class (follow d r) = ur_class r"
  by (simp_all add: follow_def kind_of_def)

lemma usb_update_keeps:
  assumes "ur_class r \<noteq> MatchedSysfsGPIO"
  shows "\<exists>t. usb_update sys r = (Inr (), t) \<and> kind_of t = kind_of r \<and> ur_device t = ur_device r"
  using assms by (cases "ur_class r")
    (simp_all add: usb_update_def kind_of_def serial_port_update_def network_interface_update_def
      sdwire_update_def sdwire3_update_def sdmux_update_def)

lemma filter_match_returns: "calm r d \<Longrightarrow> \<not> isl (filter_match r d)"
  by (cases "ur_class r") (auto simp: filter_match_def calm_def video_filter_def)

lemma not_isl_bool: "\<not> isl m \<Longrightarrow> m = Inr (m = Inr True)"
  by (cases m) auto

lemma accepts_calm:
  assumes "calm r d"
  shows "accepts r d = Inr (case ur_device r of
    None \<Rightarrow> wants r d | Some old \<Rightarrow> nd_path (dv_node old) = nd_path (dv_node d))"
proof (cases "ur_device r")
  case None
  have "\<not> isl (match_all d (ur_match r))" using assms by (simp add: calm_def match_all_returns)
  moreover have "\<not> isl (filter_match r d)" using assms by (rule filter_match_returns)
  ultimately obtain a b where "match_all d (ur_match r) = Inr a" "filter_match r d = Inr b"
    by (metis not_isl_bool)
  with None show ?thesis by (simp add: accepts_def wants_def)
next
  case (Some old)
  then show ?thesis by (simp add: accepts_def)
qed

lemma try_match_claims:
  assumes "calm r d"
  shows "\<exists>b t. try_match sys d r = (Inr b, t) \<and> kind_of t = kind_of r \<and>
    ur_device t = claim (wants r) d (ur_device r)"
proof (cases "accepts r d = Inr True")
  case False
  with accepts_calm [OF assms] have "accepts r d = Inr False" by auto
  moreover from this accepts_calm [OF assms] have "claim (wants r) d (ur_device r) = ur_device r"
    by (simp add: claim.simps)
  ultimately show ?thesis by (intro exI [of _ False]) (simp add: try_match_def)
next
  case True
  let ?t = "put_avail (ur_device (follow d r) \<noteq> None) (follow d r)"
  have "ur_class ?t \<noteq> MatchedSysfsGPIO" using assms by (simp add: calm_def)
  from usb_update_keeps [OF this] obtain u where u: "usb_update sys ?t = (Inr (), u)"
    "kind_of u = kind_of r" "ur_device u = ur_device (follow d r)" by fastforce
  have "ur_device (follow d r) = claim (wants r) d (ur_device r)"
    using True accepts_calm [OF assms] by (auto simp: follow_def claim.simps)
  moreover have "\<not> ur_suggest r" using assms by (simp add: calm_def)
  ultimately show ?thesis using True u
    by (intro exI [of _ True]) (simp add: try_match_def Let_def)
qed

definition held_after :: "device list \<Rightarrow> usb \<Rightarrow> usb \<Rightarrow> bool" where
  "held_after ds r t \<longleftrightarrow> kind_of t = kind_of r \<and> ur_device t = fold (claim (wants r)) ds (ur_device r)"

lemma held_after_Nil [simp]: "list_all2 (held_after []) rs rs"
  by (simp add: list_all2_same held_after_def)

lemma offer_claims:
  "\<forall>r \<in> set rs. calm r d \<Longrightarrow>
   \<exists>ts. offer sys d rs = (Inr (), ts) \<and> list_all2 (held_after [d]) rs ts"
proof (induction rs)
  case Nil
  then show ?case by simp
next
  case (Cons r rs)
  then obtain ts where "offer sys d rs = (Inr (), ts)" "list_all2 (held_after [d]) rs ts" by auto
  moreover obtain b t where "try_match sys d r = (Inr b, t)" "kind_of t = kind_of r"
    "ur_device t = claim (wants r) d (ur_device r)"
    using Cons.prems try_match_claims [of r d sys] by auto
  moreover from this have "held_after [d] r t" by (simp add: held_after_def)
  ultimately show ?case by simp
qed

lemma list_all2_in_right: "list_all2 P xs ys \<Longrightarrow> y \<in> set ys \<Longrightarrow> \<exists>x \<in> set xs. P x y"
  by (induction rule: list_all2_induct) auto

lemma held_after_Cons:
  "held_after [d] r t \<Longrightarrow> held_after ds t u \<Longrightarrow> held_after (d # ds) r u"
  using wants_kind [of t r] by (simp add: held_after_def)

lemma poll_claims:
  assumes "length (um_queue m) \<le> n" and "\<forall>r \<in> set (um_resources m). \<forall>d \<in> set (um_queue m). calm r d"
  shows "\<exists>t. udev_poll sys n m = (Inr (), t) \<and> um_queue t = [] \<and>
    list_all2 (held_after (um_queue m)) (um_resources m) (um_resources t)"
  using assms
proof (induction n arbitrary: m)
  case 0
  then show ?case by simp
next
  case (Suc n)
  show ?case
  proof (cases "um_queue m")
    case Nil
    then show ?thesis by simp
  next
    case (Cons d ds)
    with Suc.prems(2) obtain ts where ts: "offer sys d (um_resources m) = (Inr (), ts)"
      "list_all2 (held_after [d]) (um_resources m) ts"
      using offer_claims [of "um_resources m" d sys] by auto
    let ?m = "m\<lparr>um_queue := ds, um_resources := ts\<rparr>"
    have "\<forall>r \<in> set ts. \<forall>e \<in> set ds. calm r e"
    proof (intro ballI)
      fix r e assume "r \<in> set ts" "e \<in> set ds"
      with list_all2_in_right [OF ts(2)] obtain q
        where "q \<in> set (um_resources m)" "kind_of r = kind_of q"
        by (auto simp: held_after_def)
      with Suc.prems(2) Cons \<open>e \<in> set ds\<close> calm_kind [of r q] show "calm r e" by simp
    qed
    with Suc.IH [of ?m] Suc.prems(1) Cons obtain t where t: "udev_poll sys n ?m = (Inr (), t)"
      "um_queue t = []" "list_all2 (held_after ds) ts (um_resources t)" by auto
    have "list_all2 (held_after (d # ds)) (um_resources m) (um_resources t)"
      using held_after_Cons ts(2) t(3) by (rule list_all2_trans)
    with t Cons ts(1) show ?thesis by simp
  qed
qed

text \<open>
  C23. A poll with enough rounds for the queue empties it, and every resource then holds exactly what
  the abstract resource holds after all these events in their order, whatever the others did,
  when no resource raises or makes suggestions.
\<close>

theorem poll_delivers_events_in_order:
  assumes "length (um_queue m) \<le> n"
    and "\<forall>r \<in> set (um_resources m). \<forall>d \<in> set (um_queue m). calm r d"
  shows "\<exists>t. udev_poll sys n m = (Inr (), t) \<and> um_queue t = [] \<and>
    map ur_device (um_resources t) =
      map (\<lambda>r. fold (claim (wants r)) (um_queue m) (ur_device r)) (um_resources m)"
proof -
  obtain t where t: "udev_poll sys n m = (Inr (), t)" "um_queue t = []"
    "list_all2 (held_after (um_queue m)) (um_resources m) (um_resources t)"
    using poll_claims [OF assms] by blast
  from t(3) have "map ur_device (um_resources t) =
      map (\<lambda>r. fold (claim (wants r)) (um_queue m) (ur_device r)) (um_resources m)"
    by (auto simp: list_eq_iff_nth_eq list_all2_conv_all_nth held_after_def)
  with t show ?thesis by blast
qed

definition demo_manager :: udev_manager where
  "demo_manager = \<lparr>um_queue = [demo_tty (Some ''add''), demo_tty (Some ''remove'')],
     um_resources = [demo_usb USBSerialPort False, demo_usb USBVideo False]\<rparr>"

lemma poll_delivers_events_in_order_witness:
  "\<exists>t. udev_poll demo_sysfs 1 (demo_manager\<lparr>um_queue := [demo_tty (Some ''add'')],
       um_resources := [demo_usb USBSerialPort False]\<rparr>) = (Inr (), t) \<and>
     map ur_device (um_resources t) = [Some (demo_tty (Some ''add''))]"
proof -
  let ?m = "demo_manager\<lparr>um_queue := [demo_tty (Some ''add'')],
    um_resources := [demo_usb USBSerialPort False]\<rparr>"
  have "length (um_queue ?m) \<le> 1" by simp
  moreover have "\<forall>r \<in> set (um_resources ?m). \<forall>d \<in> set (um_queue ?m). calm r d"
    by (simp add: calm_def demo_usb_def post_init_def readable_def text_only_def demo_tty_def demo_port_def)
  ultimately obtain t where "udev_poll demo_sysfs 1 ?m = (Inr (), t)"
    "map ur_device (um_resources t) =
      map (\<lambda>r. fold (claim (wants r)) (um_queue ?m) (ur_device r)) (um_resources ?m)"
    using poll_delivers_events_in_order [of ?m 1 demo_sysfs] by blast
  moreover have "map (\<lambda>r. fold (claim (wants r)) (um_queue ?m) (ur_device r)) (um_resources ?m) =
      [Some (demo_tty (Some ''add''))]" by code_simp
  ultimately show ?thesis by simp
qed

text \<open>What a resource that raises takes away from those behind it.\<close>

lemma raised_event_is_lost:
  assumes "try_match sys d r = (Inl e, t)"
  shows "udev_poll sys (Suc n) (m\<lparr>um_queue := d # q, um_resources := r # rs\<rparr>) =
    (Inl e, m\<lparr>um_queue := q, um_resources := t # rs\<rparr>)"
  using assms by simp

lemma video_without_capabilities_raises:
  assumes "ur_class r = USBVideo" and "ur_device r = None" and "match_all d (ur_match r) = Inr True"
    and "get_property (dv_node d) ''ID_V4L_CAPABILITIES'' = None"
  shows "try_match sys d r = (Inl AttributeError, r)"
  using assms by (simp add: try_match_def accepts_def filter_match_def video_filter_def)


section \<open>Available resources have a device\<close>

definition removed :: "device \<Rightarrow> bool" where
  "removed d \<longleftrightarrow> dv_action d \<in> {Some ''unbind'', Some ''remove''}"

definition sd_class :: "usb_class \<Rightarrow> bool" where
  "sd_class c \<longleftrightarrow> c \<in> {USBSDWireDevice, USBSDWire3Device, USBSDMuxDevice}"

definition usb_ok :: "usb \<Rightarrow> bool" where
  "usb_ok r \<longleftrightarrow> (\<not> ur_suggest r \<longrightarrow>
     (\<forall>d. ur_device r = Some d \<longrightarrow> \<not> removed d) \<and>
     (\<not> own_avail (ur_class r) \<longrightarrow> (ur_flag r \<longleftrightarrow> ur_device r \<noteq> None)) \<and>
     (sd_class (ur_class r) \<longrightarrow> ur_device r = None \<longrightarrow>
       ur_disk_path r = None \<and> (ur_class r = USBSDMuxDevice \<or> ur_control_serial r = None)))"

lemma usb_ok_available:
  assumes "usb_ok r" and "\<not> ur_suggest r" and "usb_avail r"
  shows "\<exists>d. ur_device r = Some d \<and> \<not> removed d"
proof (cases "ur_device r")
  case None
  with assms show ?thesis
    by (cases "ur_class r") (auto simp: usb_ok_def usb_avail_def mass_storage_avail_def device_node_def
        sdwire_avail_def sdwire3_avail_def sdmux_avail_def own_avail_def sd_class_def)
next
  case (Some d)
  with assms show ?thesis by (simp add: usb_ok_def)
qed

lemma usb_ok_update:
  assumes "\<forall>d. ur_device r = Some d \<longrightarrow> \<not> removed d"
    and "\<not> own_avail (ur_class r) \<longrightarrow> (ur_flag r \<longleftrightarrow> ur_device r \<noteq> None)"
  shows "usb_ok (snd (usb_update sys r))"
proof (cases "ur_class r = MatchedSysfsGPIO")
  case True
  with assms show ?thesis
    by (auto simp: usb_update_def sysfs_gpio_update_def usb_ok_def sd_class_def
        split: option.splits sum.splits)
next
  case False
  with assms show ?thesis
    by (cases "ur_class r") (auto simp: usb_update_def usb_ok_def sd_class_def own_avail_def
        serial_port_update_def network_interface_update_def sdwire_update_def sdwire3_update_def
        sdmux_update_def)
qed

lemma usb_update_suggest: "ur_suggest (snd (usb_update sys r)) = ur_suggest r"
proof (cases "ur_class r = MatchedSysfsGPIO")
  case True
  then show ?thesis
    by (auto simp: usb_update_def sysfs_gpio_update_def split: option.splits sum.splits)
next
  case False
  from usb_update_keeps [OF this, of sys] show ?thesis by (auto simp: kind_of_def)
qed

lemma snd_and_then_Inr: "snd (and_then m (\<lambda>_ u. (Inr b, u))) = snd m"
  by (cases m; cases "fst m") simp_all

lemma follow_simps [simp]:
  "ur_suggest (follow d r) = ur_suggest r" "ur_flag (follow d r) = ur_flag r"
  by (simp_all add: follow_def)

lemma put_avail_simps [simp]:
  "ur_suggest (put_avail b r) = ur_suggest r"
  "\<not> own_avail (ur_class r) \<Longrightarrow> ur_flag (put_avail b r) = b"
  by (simp_all add: put_avail_def)

lemma follow_not_removed:
  "\<forall>e. ur_device r = Some e \<longrightarrow> \<not> removed e \<Longrightarrow> ur_device (follow d r) = Some e \<Longrightarrow> \<not> removed e"
  by (auto simp: follow_def removed_def split: if_splits)

lemma try_match_suggest: "ur_suggest (snd (try_match sys d r)) = ur_suggest r"
proof (cases "accepts r d = Inr True")
  case False
  then show ?thesis by (simp add: try_match_def split: sum.split bool.split)
next
  case True
  then show ?thesis
    by (cases "suggest_match (r\<lparr>ur_device := Some d\<rparr>) d")
      (simp_all add: try_match_def Let_def snd_and_then_Inr usb_update_suggest)
qed

lemma usb_ok_try_match:
  assumes "usb_ok r"
  shows "usb_ok (snd (try_match sys d r))"
proof (cases "ur_suggest r \<or> accepts r d \<noteq> Inr True")
  case True
  then show ?thesis
  proof
    assume "ur_suggest r"
    with try_match_suggest [of sys d r] show ?thesis by (simp add: usb_ok_def)
  next
    assume "accepts r d \<noteq> Inr True"
    then have "snd (try_match sys d r) = r" by (simp add: try_match_def split: sum.split bool.split)
    with assms show ?thesis by simp
  qed
next
  case False
  then have "\<forall>e. ur_device r = Some e \<longrightarrow> \<not> removed e" using assms by (simp add: usb_ok_def)
  then have "\<forall>e. ur_device (follow d r) = Some e \<longrightarrow> \<not> removed e"
    using follow_not_removed by blast
  then have "usb_ok (snd (usb_update sys (put_avail (ur_device (follow d r) \<noteq> None) (follow d r))))"
    by (intro usb_ok_update) simp_all
  with False show ?thesis by (simp add: try_match_def Let_def snd_and_then_Inr)
qed

lemma usb_ok_offer: "\<forall>r \<in> set rs. usb_ok r \<Longrightarrow> \<forall>r \<in> set (snd (offer sys d rs)). usb_ok r"
proof (induction rs)
  case Nil
  then show ?case by simp
next
  case (Cons r rs)
  moreover have "usb_ok (snd (try_match sys d r))" using Cons.prems by (simp add: usb_ok_try_match)
  ultimately show ?case by (auto split: prod.splits sum.splits)
qed

definition manager_ok :: "udev_manager \<Rightarrow> bool" where
  "manager_ok m \<longleftrightarrow> (\<forall>r \<in> set (um_resources m). usb_ok r)"

lemma manager_ok_poll: "manager_ok m \<Longrightarrow> manager_ok (snd (udev_poll sys n m))"
proof (induction n arbitrary: m)
  case 0
  then show ?case by simp
next
  case (Suc n)
  show ?case
  proof (cases "um_queue m")
    case Nil
    with Suc.prems show ?thesis by simp
  next
    case (Cons d q)
    obtain x rs where o: "offer sys d (um_resources m) = (x, rs)" by fastforce
    with Suc.prems usb_ok_offer [of "um_resources m" sys d]
    have "manager_ok (m\<lparr>um_queue := q, um_resources := rs\<rparr>)" by (simp add: manager_ok_def)
    with Cons o Suc.IH show ?thesis by (cases x) simp_all
  qed
qed

lemma usb_ok_try_each: "usb_ok r \<Longrightarrow> usb_ok (snd (try_each sys ds r))"
proof (induction ds arbitrary: r)
  case Nil
  then show ?case by simp
next
  case (Cons d ds)
  obtain x t where t: "try_match sys d r = (x, t)" by fastforce
  with Cons.prems usb_ok_try_match [of r sys d] have "usb_ok t" by simp
  with t Cons.IH show ?case by (cases x) simp_all
qed

text \<open>A resource before it is registered: what the constructor sets, without the paths of the SD
  multiplexers.\<close>

definition fresh :: "usb \<Rightarrow> bool" where
  "fresh r \<longleftrightarrow> ur_device r = None \<and> ur_disk_path r = None \<and> ur_control_path r = None"

lemma usb_ok_post_init: "fresh r \<Longrightarrow> validate r = Inr () \<Longrightarrow> usb_ok (post_init r)"
  by (auto simp: usb_ok_def post_init_def fresh_def sd_class_def own_avail_def validate_def
      sdwire3_validate_def optional_str_def split: if_splits)

lemma last_disk_keeps [simp]:
  "ur_suggest (last_disk cs r) = ur_suggest r" "ur_device (last_disk cs r) = ur_device r"
  "ur_class (last_disk cs r) = ur_class r" "ur_flag (last_disk cs r) = ur_flag r"
  unfolding last_disk_def by (induction cs arbitrary: r) simp_all

lemma sdmux_children_keep [simp]:
  "ur_suggest (fold sdmux_child cs r) = ur_suggest r" "ur_device (fold sdmux_child cs r) = ur_device r"
  "ur_class (fold sdmux_child cs r) = ur_class r" "ur_flag (fold sdmux_child cs r) = ur_flag r"
  by (induction cs arbitrary: r) (simp_all add: sdmux_child_def)

lemma usb_ok_own_poll: "usb_ok r \<Longrightarrow> usb_ok (snd (own_poll sys r))"
  by (cases "ur_class r") (auto simp: own_poll_def usb_ok_def sdwire_poll_def sdwire3_poll_def
      sdmux_poll_def own_avail_def sd_class_def split: option.splits list.splits)

inductive udev_step :: "udev_manager \<Rightarrow> udev_manager \<Rightarrow> bool" where
  event: "udev_step m (insert_into_queue d m)"
| polled: "udev_step m (snd (udev_poll sys n m))"
| resource_polled: "i < length (um_resources m) \<Longrightarrow> udev_step m (snd (usb_poll sys n i m))"
| added: "fresh r \<Longrightarrow> udev_step m (snd (add_usb sys list_devices r m))"

inductive_cases udev_stepE: "udev_step m t"

lemma manager_ok_usb_poll: "manager_ok m \<Longrightarrow> manager_ok (snd (usb_poll sys n i m))"
proof -
  assume m: "manager_ok m"
  obtain x t where t: "udev_poll sys n m = (x, t)" by fastforce
  with manager_ok_poll [OF m, of sys n] have ok: "manager_ok t" by simp
  obtain y r where r: "own_poll sys (um_resources t ! i) = (y, r)" by fastforce
  have "manager_ok (t\<lparr>um_resources := (um_resources t)[i := r]\<rparr>)"
  proof (cases "i < length (um_resources t)")
    case True
    with ok have "usb_ok (um_resources t ! i)" by (simp add: manager_ok_def)
    with r usb_ok_own_poll [of "um_resources t ! i" sys] have "usb_ok r" by simp
    with ok show ?thesis using set_update_subset_insert [of "um_resources t" i r]
      by (auto simp: manager_ok_def)
  next
    case False
    with ok show ?thesis by (simp add: manager_ok_def list_update_beyond)
  qed
  with t r ok show ?thesis by (cases x) (simp_all add: usb_poll_def)
qed

lemma manager_ok_add: "manager_ok m \<Longrightarrow> fresh r \<Longrightarrow> manager_ok (snd (add_usb sys ls r m))"
proof (cases "validate r")
  case (Inl e)
  assume "manager_ok m"
  with Inl show ?thesis by (simp add: add_usb_def)
next
  case (Inr u)
  assume "manager_ok m" "fresh r"
  with Inr have "usb_ok (snd (on_resource_added sys ls (post_init r)))"
    by (auto simp: on_resource_added_def usb_ok_post_init usb_ok_try_each split: option.splits)
  with \<open>manager_ok m\<close> Inr show ?thesis by (simp add: add_usb_def manager_ok_def split_beta)
qed

interpretation udev: transition_system "\<lambda>m. um_resources m = []" udev_step manager_ok
proof
  fix m :: udev_manager
  assume "um_resources m = []"
  then show "manager_ok m" by (simp add: manager_ok_def)
next
  fix m t
  assume "udev_step m t" and m: "manager_ok m"
  then show "manager_ok t"
  proof (cases rule: udev_step.cases)
    case (event d)
    with m show ?thesis by (simp add: manager_ok_def insert_into_queue_def)
  qed (simp_all add: m manager_ok_poll manager_ok_usb_poll manager_ok_add)
qed

text \<open>
  C24. In every state that a manager can reach from one without resources, an available resource
  holds a device whose last event did not take it away, and a resource without a rule of its own is
  available exactly as long as it holds one, also when an exception left a poll (resources in
  suggestion mode apart).
\<close>

theorem reachable_available_has_device:
  assumes "um_resources s = []" and "udev_step\<^sup>*\<^sup>* s m" and "r \<in> set (um_resources m)"
    and "\<not> ur_suggest r"
  shows "(usb_avail r \<longrightarrow>
      (\<exists>d. ur_device r = Some d \<and> dv_action d \<notin> {Some ''unbind'', Some ''remove''})) \<and>
    (\<not> own_avail (ur_class r) \<longrightarrow> usb_avail r = (ur_device r \<noteq> None))"
proof -
  have ok: "usb_ok r" using udev.reachable_inv [OF assms(1,2)] assms(3) by (simp add: manager_ok_def)
  have "usb_avail r \<Longrightarrow>
      \<exists>d. ur_device r = Some d \<and> dv_action d \<notin> {Some ''unbind'', Some ''remove''}"
    using usb_ok_available [OF ok assms(4)] by (simp add: removed_def)
  moreover have "\<not> own_avail (ur_class r) \<Longrightarrow> usb_avail r = (ur_device r \<noteq> None)"
    using ok assms(4) by (cases "ur_class r") (simp_all add: usb_ok_def usb_avail_def own_avail_def)
  ultimately show ?thesis by blast
qed

definition demo_added :: udev_manager where
  "demo_added = snd (add_usb demo_sysfs (\<lambda>_. [demo_tty None])
     ((demo_usb USBSerialPort False)\<lparr>ur_match := []\<rparr>) \<lparr>um_queue = [], um_resources = []\<rparr>)"

lemma reachable_available_has_device_witness:
  "usb_avail (hd (um_resources demo_added)) \<and> ur_port (hd (um_resources demo_added)) = Some ''/dev/t'' \<and>
   (\<exists>d. ur_device (hd (um_resources demo_added)) = Some d)"
proof -
  let ?s = "\<lparr>um_queue = [], um_resources = []\<rparr> :: udev_manager"
    and ?r = "hd (um_resources demo_added)"
  have "fresh ((demo_usb USBSerialPort False)\<lparr>ur_match := []\<rparr>)"
    by (simp add: fresh_def demo_usb_def post_init_def)
  then have "udev_step\<^sup>*\<^sup>* ?s demo_added"
    unfolding demo_added_def by (intro r_into_rtranclp udev_step.added)
  moreover have "length (um_resources demo_added) = 1 \<and> \<not> ur_suggest ?r \<and> usb_avail ?r \<and>
      ur_port ?r = Some ''/dev/t''" by code_simp
  moreover from this have "?r \<in> set (um_resources demo_added)"
    by (cases "um_resources demo_added") simp_all
  ultimately show ?thesis using reachable_available_has_device [of ?s demo_added ?r] by simp blast
qed


section \<open>Polls of the SD multiplexers\<close>

text \<open>
  An SDWire3 is available as soon as its serial number is known; a disk that appears after the
  poll that finds the number is never looked for.
\<close>

lemma last_disk_none: "\<forall>c \<in> set cs. \<not> is_disk c \<Longrightarrow> last_disk cs r = r"
  unfolding last_disk_def by (induction cs) simp_all

lemma sdwire3_disk_never_found:
  assumes "ur_class r = USBSDWire3Device" and "ur_device r = Some d" and "dv_ancestors d = p # ps"
    and "get_property (dv_node d) ''ID_SERIAL_SHORT'' = Some (c # s)"
    and "\<forall>x \<in> set (sf_children sys (nd_path p)). \<not> is_disk x"
    and "ur_disk_path r = None" and "\<not> usb_avail r"
  shows "\<exists>t. own_poll sys r = (Inr (), t) \<and> usb_avail t \<and> usb_path t = None \<and>
    (\<forall>later. own_poll later t = (Inr (), t))"
  using assms by (simp add: own_poll_def sdwire3_poll_def usb_avail_def sdwire3_avail_def
      last_disk_none usb_path_def)

text \<open>\<open>disk_path\<close> and \<open>control_serial\<close> are declared as optional strings, and no string is accepted.\<close>

lemma sdwire_disk_path_refused:
  assumes "ur_class r = USBSDWireDevice \<or> ur_class r = USBSDWire3Device" and "ur_disk_path r = Some p"
  shows "add_usb sys ls r m = (Inl TypeError, m)"
  using assms by (auto simp: add_usb_def validate_def sdwire_validate_def sdwire3_validate_def
      optional_str_def)

end
