(* ===== verification/Steps.thy ===== *)
theory Steps
  imports PyText
begin

text \<open>
  \<^verbatim>\<open>labgrid/step.py\<close>: the stack of steps, the events of a step and the decorator \<open>step\<close>. A decorated
  function is one that opens a step, runs its body and closes the step, whatever the body raises.
  Steps are objects and live in a list; the clock is a function of how often it was read. The
  code that calls decorated functions is an arbitrary program of calls, exceptions and handlers.
\<close>

section \<open>Steps and events\<close>

datatype exn = Exn string | BaseExn string

definition assertion_failed :: exn where
  "assertion_failed = Exn ''AssertionError''"

record step_event =
  ev_ts :: real
  ev_step :: nat
  ev_data :: "(string, pyval) dict"
  ev_resource :: "nat option"
  ev_stream :: bool

record step =
  sr_title :: string
  sr_level :: nat
  sr_tag :: "string option"
  sr_source :: "nat option"
  sr_parent :: "nat option"
  sr_args :: pyval
  sr_result :: pyval
  sr_exception :: "exn option"
  sr_start :: "real option"
  sr_stop :: "real option"
  sr_copy :: bool

text \<open>The steps that were made, the stack (its top is last), the events notified so far and the
  number of readings of the clock.\<close>

record steps =
  sp_steps :: "step list"
  sp_stack :: "nat list"
  sp_events :: "step_event list"
  sp_reads :: nat

type_synonym 'a stepping = "steps \<Rightarrow> (exn, 'a, steps) outcome"

definition get_current :: "steps \<Rightarrow> nat option" where
  "get_current s = (if sp_stack s = [] then None else Some (last (sp_stack s)))"

definition get_new :: "string \<Rightarrow> string option \<Rightarrow> nat option \<Rightarrow> steps \<Rightarrow> step" where
  "get_new title tag source s =
     \<lparr>sr_title = title, sr_level = length (sp_stack s) + 1, sr_tag = tag, sr_source = source,
      sr_parent = None, sr_args = VNone, sr_result = VNone, sr_exception = None, sr_start = None,
      sr_stop = None, sr_copy = False\<rparr>"

definition set_step :: "nat \<Rightarrow> (step \<Rightarrow> step) \<Rightarrow> steps \<Rightarrow> steps" where
  "set_step i f s = s\<lparr>sp_steps := (sp_steps s)[i := f (sp_steps s ! i)]\<rparr>"

text \<open>\<open>push\<close> appends the step before it asks for the current one.\<close>

definition push :: "nat \<Rightarrow> unit stepping" where
  "push i s =
     (if i \<in> set (sp_stack s) then (Inl assertion_failed, s)
      else let t = s\<lparr>sp_stack := sp_stack s @ [i]\<rparr> in
        (Inr (), set_step i (\<lambda>x. x\<lparr>sr_parent := get_current t, sr_level := length (sp_stack t)\<rparr>) t))"

definition pop_step :: "nat \<Rightarrow> unit stepping" where
  "pop_step i s =
     (if sp_stack s = [] then (Inl (Exn ''IndexError''), s)
      else if last (sp_stack s) \<noteq> i then (Inl assertion_failed, s)
      else (Inr (), s\<lparr>sp_stack := butlast (sp_stack s)\<rparr>))"

definition monotonic :: "(nat \<Rightarrow> real) \<Rightarrow> steps \<Rightarrow> real \<times> steps" where
  "monotonic clock s = (clock (sp_reads s), s\<lparr>sp_reads := sp_reads s + 1\<rparr>)"

definition notify :: "(nat \<Rightarrow> real) \<Rightarrow> nat \<Rightarrow> (string, pyval) dict \<Rightarrow> steps \<Rightarrow> steps" where
  "notify clock i data s =
     (case monotonic clock s of
        (ts, t) \<Rightarrow> t\<lparr>sp_events := sp_events t @
          [\<lparr>ev_ts = ts, ev_step = i, ev_data = data, ev_resource = None, ev_stream = False\<rparr>]\<rparr>)"

text \<open>
  The subscribers get every event in turn; what one raises becomes a warning and the next is
  called.
\<close>

fun tell_all :: "('a \<Rightarrow> 'w \<Rightarrow> ('e, unit, 'w) outcome) list \<Rightarrow> 'a \<Rightarrow> 'w \<Rightarrow> 'w" where
  "tell_all [] e w = w"
| "tell_all (f # fs) e w = tell_all fs e (snd (f e w))"

definition start_step :: "(nat \<Rightarrow> real) \<Rightarrow> nat \<Rightarrow> unit stepping" where
  "start_step clock i s =
     (if sr_copy (sp_steps s ! i) \<or> sr_start (sp_steps s ! i) \<noteq> None then (Inl assertion_failed, s)
      else case monotonic clock s of
        (ts, t) \<Rightarrow>
          and_then (push i (set_step i (\<lambda>x. x\<lparr>sr_start := Some ts\<rparr>) t)) (\<lambda>_ u.
            (Inr (), notify clock i
              [(''state'', VStr ''start''), (''args'', sr_args (sp_steps u ! i))] u)))"

definition skip_step :: "(nat \<Rightarrow> real) \<Rightarrow> nat \<Rightarrow> string \<Rightarrow> unit stepping" where
  "skip_step clock i reason s =
     (if sr_copy (sp_steps s ! i) \<or> sr_start (sp_steps s ! i) = None then (Inl assertion_failed, s)
      else (Inr (), notify clock i [(''skip'', VStr reason)] s))"

definition exn_value :: "exn \<Rightarrow> pyval" where
  "exn_value e = VStr (case e of Exn n \<Rightarrow> n | BaseExn n \<Rightarrow> n)"

definition outcome_data :: "step \<Rightarrow> (string, pyval) dict" where
  "outcome_data x =
     [(''state'', VStr ''stop''),
      (case sr_exception x of Some e \<Rightarrow> (''exception'', exn_value e) | None \<Rightarrow> (''result'', sr_result x))]"

definition duration :: "real \<Rightarrow> step \<Rightarrow> real" where
  "duration now x =
     (case (sr_start x, sr_stop x) of
        (None, _) \<Rightarrow> 0
      | (Some a, None) \<Rightarrow> (if sr_copy x then 0 else now - a)
      | (Some a, Some b) \<Rightarrow> b - a)"

definition stop_data :: "step \<Rightarrow> (string, pyval) dict" where
  "stop_data x =
     (let d = duration 0 x in outcome_data x @ (if d = 0 then [] else [(''duration'', VFloat d)]))"

definition stop_step :: "(nat \<Rightarrow> real) \<Rightarrow> nat \<Rightarrow> unit stepping" where
  "stop_step clock i s =
     (if sr_copy (sp_steps s ! i) \<or> sr_start (sp_steps s ! i) = None \<or>
         sr_stop (sp_steps s ! i) \<noteq> None then (Inl assertion_failed, s)
      else case monotonic clock s of
        (ts, t) \<Rightarrow>
          (let u = set_step i (\<lambda>x. x\<lparr>sr_stop := Some ts\<rparr>) t in
           pop_step i (notify clock i (stop_data (sp_steps u ! i)) u)))"

definition status :: "step \<Rightarrow> string" where
  "status x =
     (if sr_start x = None then ''new'' else if sr_stop x = None then ''active'' else ''done'')"


section \<open>The decorator\<close>

text \<open>
  What a call of a decorated function binds: the title, tag and arguments of the decorator, the
  bound arguments of the call, and the object the function is a method of.
\<close>

record decoration =
  dc_title :: string
  dc_tag :: "string option"
  dc_args :: "string list"
  dc_result :: bool
  dc_bound :: "(string, pyval) dict"
  dc_source :: "nat option"

definition step_args :: "decoration \<Rightarrow> exn + pyval" where
  "step_args d =
     (if dc_args d = [] then Inr VNone
      else if list_all (\<lambda>k. k \<in> set (keys (dc_bound d))) (dc_args d)
      then Inr (VDict (map (\<lambda>k. (k, the (map_of (dc_bound d) k))) (dc_args d)))
      else Inl (Exn ''KeyError''))"

definition record_outcome :: "bool \<Rightarrow> nat \<Rightarrow> exn + pyval \<Rightarrow> steps \<Rightarrow> steps" where
  "record_outcome keep i r s =
     (case r of
        Inr v \<Rightarrow> (if keep then set_step i (\<lambda>x. x\<lparr>sr_result := v\<rparr>) s else s)
      | Inl (Exn e) \<Rightarrow> set_step i (\<lambda>x. x\<lparr>sr_exception := Some (Exn e)\<rparr>) s
      | Inl (BaseExn e) \<Rightarrow> s)"

definition run_step ::
  "(nat \<Rightarrow> real) \<Rightarrow> decoration \<Rightarrow> (nat \<Rightarrow> pyval stepping) \<Rightarrow> pyval stepping" where
  "run_step clock d body s =
     (let i = length (sp_steps s); x = get_new (dc_title d) (dc_tag d) (dc_source d) s in
      case step_args d of
        Inl e \<Rightarrow> (Inl e, s\<lparr>sp_steps := sp_steps s @ [x]\<rparr>)
      | Inr a \<Rightarrow>
          and_then (start_step clock i (s\<lparr>sp_steps := sp_steps s @ [x\<lparr>sr_args := a\<rparr>]\<rparr>)) (\<lambda>_ t.
            case body i t of
              (r, u) \<Rightarrow>
                (case stop_step clock i (record_outcome (dc_result d) i r u) of
                   (Inl e, v) \<Rightarrow> (Inl e, v)
                 | (Inr _, v) \<Rightarrow> (r, v))))"

text \<open>
  A program over decorated functions: it returns, raises, reports that its step is skipped, runs
  two parts in turn, handles the exceptions of a part, or calls a decorated function.
\<close>

datatype prog =
    Return pyval
  | Raise exn
  | SkipWith string
  | Seq prog prog
  | Handle prog prog
  | Decorated decoration prog

primrec run_prog :: "(nat \<Rightarrow> real) \<Rightarrow> prog \<Rightarrow> nat option \<Rightarrow> pyval stepping" where
  "run_prog clock (Return v) cur s = (Inr v, s)"
| "run_prog clock (Raise e) cur s = (Inl e, s)"
| "run_prog clock (SkipWith reason) cur s =
     (case cur of
        None \<Rightarrow> (Inr VNone, s)
      | Some i \<Rightarrow> and_then (skip_step clock i reason s) (\<lambda>_ t. (Inr VNone, t)))"
| "run_prog clock (Seq p q) cur s = and_then (run_prog clock p cur s) (\<lambda>_. run_prog clock q cur)"
| "run_prog clock (Handle p q) cur s =
     (case run_prog clock p cur s of
        (Inl (Exn e), t) \<Rightarrow> run_prog clock q cur t
      | (r, t) \<Rightarrow> (r, t))"
| "run_prog clock (Decorated d p) cur s = run_step clock d (\<lambda>i. run_prog clock p (Some i)) s"

text \<open>The same program without the decorator.\<close>

primrec plain :: "prog \<Rightarrow> exn + pyval" where
  "plain (Return v) = Inr v"
| "plain (Raise e) = Inl e"
| "plain (SkipWith reason) = Inr VNone"
| "plain (Seq p q) = and_result (plain p) (\<lambda>_. plain q)"
| "plain (Handle p q) = (case plain p of Inl (Exn e) \<Rightarrow> plain q | r \<Rightarrow> r)"
| "plain (Decorated d p) = plain p"

text \<open>The arguments a decorator names are parameters of its function.\<close>

primrec args_bound :: "prog \<Rightarrow> bool" where
  "args_bound (Return v) = True"
| "args_bound (Raise e) = True"
| "args_bound (SkipWith reason) = True"
| "args_bound (Seq p q) = (args_bound p \<and> args_bound q)"
| "args_bound (Handle p q) = (args_bound p \<and> args_bound q)"
| "args_bound (Decorated d p) = (set (dc_args d) \<subseteq> set (keys (dc_bound d)) \<and> args_bound p)"


section \<open>Merging of events\<close>

text \<open>
  The loop of \<open>merge\<close> iterates over the keys of the other event and unpacks each into two names.
\<close>

fun merge_keys :: "string list \<Rightarrow> (string, pyval) dict \<Rightarrow> (exn, unit, (string, pyval) dict) outcome" where
  "merge_keys [] d = (Inr (), d)"
| "merge_keys (k # ks) d =
     (case k of
        [a, b] \<Rightarrow>
          (case map_of d [a] of
             None \<Rightarrow> (Inl (Exn ''KeyError''), d)
           | Some (VStr w) \<Rightarrow> merge_keys ks (AList.update [a] (VStr (w @ [b])) d)
           | Some (VList w) \<Rightarrow> merge_keys ks (AList.update [a] (VList (w @ [VStr [b]])) d)
           | Some _ \<Rightarrow> (Inl (Exn ''TypeError''), d))
      | _ \<Rightarrow> (Inl (Exn ''ValueError''), d))"

definition merge_events :: "step_event \<Rightarrow> step_event \<Rightarrow> exn + bool" where
  "merge_events e f =
     (if \<not> ev_stream e \<and> \<not> ev_stream f then Inr False
      else if ev_ts f < ev_ts e then Inr False
      else if ev_resource e \<noteq> ev_resource f then Inr False
      else if set (keys (ev_data e)) \<noteq> set (keys (ev_data f)) then Inr False
      else case merge_keys (keys (ev_data f)) (ev_data e) of
        (Inl x, _) \<Rightarrow> Inl x
      | (Inr _, _) \<Rightarrow> Inr True)"


section \<open>The trace of a program\<close>

datatype mark = Started | Skipped | Stopped

definition mark_of :: "step_event \<Rightarrow> mark" where
  "mark_of e =
     (case map_of (ev_data e) ''state'' of
        None \<Rightarrow> Skipped
      | Some v \<Rightarrow> if v = VStr ''start'' then Started else Stopped)"

definition view :: "step list \<Rightarrow> step_event \<Rightarrow> nat \<times> nat \<times> mark" where
  "view xs e = (ev_step e, sr_level (xs ! ev_step e), mark_of e)"

text \<open>
  A well nested trace within a step at a level: each step that starts is one level deeper, stops
  after everything that started within it, and only the innermost step is reported as skipped.
\<close>

inductive nested :: "nat option \<Rightarrow> nat \<Rightarrow> (nat \<times> nat \<times> mark) list \<Rightarrow> bool" where
  nested_Nil: "nested cur l []"
| nested_skip: "nested (Some i) l es \<Longrightarrow> nested (Some i) l ((i, l, Skipped) # es)"
| nested_step: "nested (Some i) (Suc l) es \<Longrightarrow> nested cur l fs \<Longrightarrow>
    nested cur l ((i, Suc l, Started) # es @ (i, Suc l, Stopped) # fs)"

lemma nested_append: "nested cur l es \<Longrightarrow> nested cur l fs \<Longrightarrow> nested cur l (es @ fs)"
  by (induction rule: nested.induct) (auto intro: nested.intros)

lemma nested_one: "nested (Some i) (Suc l) es \<Longrightarrow>
    nested cur l ((i, Suc l, Started) # es @ [(i, Suc l, Stopped)])"
  by (rule nested_step [OF _ nested_Nil])

text \<open>The steps that are open after a trace, as a reader of the events finds them.\<close>

fun replay :: "(nat \<times> nat \<times> mark) list \<Rightarrow> nat list \<Rightarrow> nat list option" where
  "replay [] st = Some st"
| "replay ((i, l, m) # es) st =
     (case m of
        Started \<Rightarrow> (if l = Suc (length st) then replay es (st @ [i]) else None)
      | Skipped \<Rightarrow> (if st \<noteq> [] \<and> last st = i \<and> l = length st then replay es st else None)
      | Stopped \<Rightarrow>
          (if st \<noteq> [] \<and> last st = i \<and> l = length st then replay es (butlast st) else None))"

lemma replay_append:
  "replay (es @ fs) st = (case replay es st of None \<Rightarrow> None | Some t \<Rightarrow> replay fs t)"
  by (induction es st rule: replay.induct) (auto split: mark.splits)

lemma nested_replay:
  "nested cur l es \<Longrightarrow> length st = l \<Longrightarrow> (\<And>i. cur = Some i \<Longrightarrow> st \<noteq> [] \<and> last st = i) \<Longrightarrow>
   replay es st = Some st"
proof (induction arbitrary: st rule: nested.induct)
  case (nested_Nil cur l)
  then show ?case by simp
next
  case (nested_skip i l es)
  then show ?case by simp
next
  case (nested_step i l es cur fs)
  have "replay es (st @ [i]) = Some (st @ [i])" using nested_step by simp
  moreover have "replay fs st = Some st" using nested_step by blast
  ultimately show ?case using nested_step.prems by (simp add: replay_append)
qed


section \<open>What the decorator promises\<close>

definition stack_ok :: "steps \<Rightarrow> bool" where
  "stack_ok s \<longleftrightarrow> (\<forall>i \<in> set (sp_stack s). i < length (sp_steps s))"

definition open_step :: "nat \<Rightarrow> steps \<Rightarrow> bool" where
  "open_step i s \<longleftrightarrow> sp_stack s \<noteq> [] \<and> last (sp_stack s) = i \<and> i < length (sp_steps s) \<and>
     sr_start (sp_steps s ! i) \<noteq> None \<and> \<not> sr_copy (sp_steps s ! i) \<and>
     sr_level (sp_steps s ! i) = length (sp_stack s)"

definition traced :: "nat option \<Rightarrow> steps \<Rightarrow> steps \<Rightarrow> bool" where
  "traced cur s t \<longleftrightarrow> sp_stack t = sp_stack s \<and> (\<exists>new. sp_steps t = sp_steps s @ new) \<and>
     (\<exists>es. sp_events t = sp_events s @ es \<and> (\<forall>e \<in> set es. ev_step e < length (sp_steps t)) \<and>
       nested cur (length (sp_stack s)) (map (view (sp_steps t)) es))"

lemma traced_refl: "traced cur s s"
  by (simp add: traced_def nested_Nil)

lemma view_prefix: "ev_step e < length xs \<Longrightarrow> view (xs @ ys) e = view xs e"
  by (simp add: view_def nth_append)

lemma map_view_prefix:
  "\<forall>e \<in> set es. ev_step e < length xs \<Longrightarrow> map (view (xs @ ys)) es = map (view xs) es"
  by (simp add: view_prefix)

lemma traced_trans:
  assumes "traced cur s t" and "traced cur t u"
  shows "traced cur s u"
proof -
  from assms(1) obtain a es where s: "sp_stack t = sp_stack s" "sp_steps t = sp_steps s @ a"
    "sp_events t = sp_events s @ es" "\<forall>e \<in> set es. ev_step e < length (sp_steps t)"
    "nested cur (length (sp_stack s)) (map (view (sp_steps t)) es)" by (auto simp: traced_def)
  from assms(2) obtain b fs where t: "sp_stack u = sp_stack t" "sp_steps u = sp_steps t @ b"
    "sp_events u = sp_events t @ fs" "\<forall>e \<in> set fs. ev_step e < length (sp_steps u)"
    "nested cur (length (sp_stack t)) (map (view (sp_steps u)) fs)" by (auto simp: traced_def)
  have views: "map (view (sp_steps u)) es = map (view (sp_steps t)) es"
    unfolding t(2) by (rule map_view_prefix [OF s(4)])
  have "nested cur (length (sp_stack s)) (map (view (sp_steps u)) es)"
    unfolding views by (rule s(5))
  from nested_append [OF this, of "map (view (sp_steps u)) fs"] t(5) s(1)
  have "nested cur (length (sp_stack s)) (map (view (sp_steps u)) (es @ fs))" by simp
  moreover have "\<forall>e \<in> set (es @ fs). ev_step e < length (sp_steps u)"
    using s(4) t(2,4) by auto
  moreover have "sp_stack u = sp_stack s" "sp_steps u = sp_steps s @ (a @ b)"
    "sp_events u = sp_events s @ (es @ fs)" using s(1-3) t(1-3) by simp_all
  ultimately show ?thesis unfolding traced_def by blast
qed

lemma traced_stack_ok: "traced cur s t \<Longrightarrow> stack_ok s \<Longrightarrow> stack_ok t"
  by (auto simp: traced_def stack_ok_def)

lemma traced_open_step: "traced cur s t \<Longrightarrow> open_step i s \<Longrightarrow> open_step i t"
  by (auto simp: traced_def open_step_def nth_append)

lemma skip_step_traced:
  assumes "open_step i s"
  shows "\<exists>t. skip_step clock i reason s = (Inr (), t) \<and> traced (Some i) s t"
  using assms by (auto simp: skip_step_def open_step_def notify_def monotonic_def traced_def
      view_def mark_of_def intro!: nested_skip nested_Nil)

lemma start_step_new:
  assumes "sp_steps s = xs @ [x]" and "i = length xs" and "\<not> sr_copy x" and "sr_start x = None"
    and "sr_stop x = None" and "i \<notin> set (sp_stack s)"
  shows "\<exists>u n e. start_step clock i s = (Inr (), u) \<and> sp_steps u = xs @ [n] \<and>
    sp_stack u = sp_stack s @ [i] \<and> sp_events u = sp_events s @ [e] \<and> ev_step e = i \<and>
    mark_of e = Started \<and> sr_level n = Suc (length (sp_stack s)) \<and> sr_start n \<noteq> None \<and>
    sr_stop n = None \<and> \<not> sr_copy n \<and> sr_parent n = Some i"
  using assms by (simp add: start_step_def monotonic_def push_def set_step_def notify_def mark_of_def
      get_current_def Let_def)

lemma stop_step_open:
  assumes "sp_steps s = xs @ n # new" and "i = length xs" and "\<not> sr_copy n" and "sr_start n \<noteq> None"
    and "sr_stop n = None" and "sp_stack s = st @ [i]"
  shows "\<exists>u m e. stop_step clock i s = (Inr (), u) \<and> sp_steps u = xs @ m # new \<and>
    sr_level m = sr_level n \<and> sp_stack u = st \<and> sp_events u = sp_events s @ [e] \<and> ev_step e = i \<and>
    mark_of e = Stopped"
  using assms by (simp add: stop_step_def monotonic_def pop_step_def set_step_def notify_def
      mark_of_def Let_def stop_data_def outcome_data_def)

lemma record_outcome_keeps:
  assumes "sp_steps s = xs @ n # new" and "i = length xs"
  shows "\<exists>m. sp_steps (record_outcome keep i r s) = xs @ m # new \<and> sr_level m = sr_level n \<and>
      sr_start m = sr_start n \<and> sr_stop m = sr_stop n \<and> sr_copy m = sr_copy n"
    and "sp_stack (record_outcome keep i r s) = sp_stack s"
    and "sp_events (record_outcome keep i r s) = sp_events s"
  using assms by (auto simp: record_outcome_def set_step_def split: sum.splits exn.splits)

lemma view_levels: "map sr_level xs = map sr_level ys \<Longrightarrow> ev_step e < length xs \<Longrightarrow> view xs e = view ys e"
  by (auto simp: view_def list_eq_iff_nth_eq)

lemma run_step_traced:
  assumes ok: "stack_ok s" and bound: "set (dc_args d) \<subseteq> set (keys (dc_bound d))"
    and body: "\<And>i u. stack_ok u \<Longrightarrow> open_step i u \<Longrightarrow> \<exists>t. body i u = (r, t) \<and> traced (Some i) u t"
  shows "\<exists>t. run_step clock d body s = (r, t) \<and> traced cur s t"
proof -
  let ?xs = "sp_steps s" and ?i = "length (sp_steps s)"
  have "\<exists>a. step_args d = Inr a"
    using bound by (auto simp: step_args_def list_all_iff subset_iff)
  then obtain a where a: "step_args d = Inr a" by blast
  let ?x = "(get_new (dc_title d) (dc_tag d) (dc_source d) s)\<lparr>sr_args := a\<rparr>"
  let ?s = "s\<lparr>sp_steps := ?xs @ [?x]\<rparr>"
  have "?i \<notin> set (sp_stack ?s)" using ok by (auto simp: stack_ok_def)
  then obtain u n e where u: "start_step clock ?i ?s = (Inr (), u)" "sp_steps u = ?xs @ [n]"
    "sp_stack u = sp_stack s @ [?i]" "sp_events u = sp_events s @ [e]" "ev_step e = ?i"
    "mark_of e = Started" "sr_level n = Suc (length (sp_stack s))" "sr_start n \<noteq> None"
    "sr_stop n = None" "\<not> sr_copy n"
    using start_step_new [of ?s ?xs ?x ?i clock] by (auto simp: get_new_def)
  have "stack_ok u" using ok u(2,3) by (auto simp: stack_ok_def)
  moreover have "open_step ?i u" using u by (simp add: open_step_def)
  ultimately obtain t where t: "body ?i u = (r, t)" "traced (Some ?i) u t" using body by blast
  then obtain new es where new: "sp_stack t = sp_stack u" "sp_steps t = ?xs @ n # new"
    "sp_events t = sp_events u @ es" "\<forall>f \<in> set es. ev_step f < length (sp_steps t)"
    "nested (Some ?i) (length (sp_stack u)) (map (view (sp_steps t)) es)"
    using u(2) by (auto simp: traced_def)
  let ?t = "record_outcome (dc_result d) ?i r t"
  obtain m where m: "sp_steps ?t = ?xs @ m # new" "sr_level m = sr_level n" "sr_start m = sr_start n"
    "sr_stop m = sr_stop n" "sr_copy m = sr_copy n"
    using record_outcome_keeps(1) [OF new(2), of ?i "dc_result d" r] by auto
  have keep: "sp_stack ?t = sp_stack s @ [?i]" "sp_events ?t = sp_events s @ e # es"
    using record_outcome_keeps(2,3) [OF new(2), of ?i "dc_result d" r] new(1,3) u(3,4) by simp_all
  obtain v k f where v: "stop_step clock ?i ?t = (Inr (), v)" "sp_steps v = ?xs @ k # new"
    "sr_level k = sr_level m" "sp_stack v = sp_stack s" "sp_events v = sp_events ?t @ [f]"
    "ev_step f = ?i" "mark_of f = Stopped"
    using stop_step_open [OF m(1) refl _ _ _ keep(1), of clock] m(3-5) u(8-10) by auto
  have views: "map (view (sp_steps v)) es = map (view (sp_steps t)) es"
    using new(2,4) v(2,3) m(2) by (auto intro!: view_levels)
  have "nested (Some ?i) (Suc (length (sp_stack s))) (map (view (sp_steps v)) es)"
    unfolding views using new(5) u(3) by simp
  then have "nested cur (length (sp_stack s)) (map (view (sp_steps v)) (e # es @ [f]))"
    using nested_one u(5-7) v(2,3,6,7) m(2) by (simp add: view_def)
  moreover have "\<forall>g \<in> set (e # es @ [f]). ev_step g < length (sp_steps v)"
    using new(2,4) v(2,6) u(5) by auto
  moreover have "sp_events v = sp_events s @ (e # es @ [f])" using keep(2) v(5) by simp
  ultimately have "traced cur s v" using v(2,4) unfolding traced_def by blast
  moreover have "run_step clock d body s = (r, v)"
    using a u(1) t(1) v(1) by (simp add: run_step_def Let_def)
  ultimately show ?thesis by blast
qed

lemma run_prog_traced:
  "args_bound p \<Longrightarrow> stack_ok s \<Longrightarrow> (\<And>i. cur = Some i \<Longrightarrow> open_step i s) \<Longrightarrow>
   \<exists>t. run_prog clock p cur s = (plain p, t) \<and> traced cur s t"
proof (induction p arbitrary: cur s)
  case (SkipWith reason)
  show ?case
  proof (cases cur)
    case None
    then show ?thesis by (simp add: traced_refl)
  next
    case (Some i)
    with SkipWith skip_step_traced [of i s clock reason] show ?thesis by auto
  qed
next
  case (Seq p q)
  then have p: "args_bound p" and q: "args_bound q" by simp_all
  obtain t where t: "run_prog clock p cur s = (plain p, t)" "traced cur s t"
    using Seq.IH(1) [OF p Seq.prems(2,3)] by blast
  show ?case
  proof (cases "plain p")
    case (Inl e)
    with t show ?thesis by simp
  next
    case (Inr v)
    obtain u where "run_prog clock q cur t = (plain q, u)" "traced cur t u"
      using Seq.IH(2) [OF q traced_stack_ok [OF t(2) Seq.prems(2)]]
        traced_open_step [OF t(2) Seq.prems(3)] by blast
    with t Inr traced_trans [OF t(2)] show ?thesis by simp
  qed
next
  case (Handle p q)
  then have p: "args_bound p" and q: "args_bound q" by simp_all
  obtain t where t: "run_prog clock p cur s = (plain p, t)" "traced cur s t"
    using Handle.IH(1) [OF p Handle.prems(2,3)] by blast
  obtain u where u: "run_prog clock q cur t = (plain q, u)" "traced cur t u"
    using Handle.IH(2) [OF q traced_stack_ok [OF t(2) Handle.prems(2)]]
      traced_open_step [OF t(2) Handle.prems(3)] by blast
  show ?case
  proof (cases "\<exists>e. plain p = Inl (Exn e)")
    case True
    with t u traced_trans [OF t(2) u(2)] show ?thesis by auto
  next
    case False
    with t show ?thesis by (simp split: sum.split exn.split)
  qed
next
  case (Decorated d p)
  have "\<exists>t. run_step clock d (\<lambda>i. run_prog clock p (Some i)) s = (plain p, t) \<and> traced cur s t"
    using Decorated.prems by (intro run_step_traced Decorated.IH) auto
  then show ?case by simp
qed (simp_all add: traced_refl)

text \<open>
  C26. The decorator is transparent and balanced: a program with decorated functions gives the result
  or exception of the program without them, leaves the stack of steps as it was, and its events
  replay as properly nested steps, each one level deeper than the one it was started in, also
  when exceptions leave functions.
\<close>

theorem decorated_program_transparent:
  assumes "args_bound p" and "stack_ok s"
  shows "\<exists>t es. run_prog clock p None s = (plain p, t) \<and> sp_stack t = sp_stack s \<and>
    sp_events t = sp_events s @ es \<and>
    replay (map (view (sp_steps t)) es) (sp_stack s) = Some (sp_stack s)"
proof -
  obtain t where t: "run_prog clock p None s = (plain p, t)" "traced None s t"
    using run_prog_traced [OF assms, of None clock] by auto
  then obtain es where "sp_stack t = sp_stack s" "sp_events t = sp_events s @ es"
    "nested None (length (sp_stack s)) (map (view (sp_steps t)) es)" by (auto simp: traced_def)
  with t(1) show ?thesis using nested_replay [of None _ _ "sp_stack s"] by blast
qed

definition no_steps :: steps where
  "no_steps = \<lparr>sp_steps = [], sp_stack = [], sp_events = [], sp_reads = 0\<rparr>"

definition demo_decoration :: "string \<Rightarrow> decoration" where
  "demo_decoration name = \<lparr>dc_title = name, dc_tag = None, dc_args = [''x''], dc_result = True,
     dc_bound = [(''x'', VInt 1)], dc_source = None\<rparr>"

definition demo_prog :: prog where
  "demo_prog = Decorated (demo_decoration ''outer'')
     (Handle (Decorated (demo_decoration ''inner'') (Seq (SkipWith ''later'') (Raise (Exn ''ValueError''))))
       (Return (VInt 2)))"

lemma demo_prog_events:
  "map (view (sp_steps (snd (run_prog real demo_prog None no_steps))))
     (sp_events (snd (run_prog real demo_prog None no_steps))) =
   [(0, 1, Started), (1, 2, Started), (1, 2, Skipped), (1, 2, Stopped), (0, 1, Stopped)]"
  by code_simp

lemma decorated_program_transparent_witness:
  "fst (run_prog real demo_prog None no_steps) = Inr (VInt 2) \<and>
   sp_stack (snd (run_prog real demo_prog None no_steps)) = []"
proof -
  have "args_bound demo_prog" "stack_ok no_steps"
    by (simp_all add: demo_prog_def demo_decoration_def stack_ok_def no_steps_def)
  from decorated_program_transparent [OF this, of real]
  show ?thesis by (auto simp: no_steps_def demo_prog_def)
qed

text \<open>A started step is its own parent, whatever was on the stack before.\<close>

lemma started_step_is_its_own_parent:
  assumes "sp_steps s = xs @ [x]" and "i = length xs" and "\<not> sr_copy x" and "sr_start x = None"
    and "sr_stop x = None" and "i \<notin> set (sp_stack s)"
  shows "sr_parent (sp_steps (snd (start_step clock i s)) ! i) = Some i"
  using start_step_new [OF assms, of clock] assms(2) by auto

text \<open>Two events with data are never merged: the loop over the keys raises.\<close>

lemma merge_keys_raises:
  assumes "k \<in> set ks" and "length k \<noteq> 2"
  shows "\<exists>e d'. merge_keys ks d = (Inl e, d')"
  using assms
proof (induction ks arbitrary: d)
  case Nil
  then show ?case by simp
next
  case (Cons c ks)
  show ?case
  proof (cases "\<exists>a b. c = [a, b]")
    case True
    with Cons.prems have "k \<in> set ks" by auto
    with Cons.IH Cons.prems(2) True show ?thesis by (auto split: option.splits pyval.splits)
  next
    case False
    then show ?thesis by (auto split: list.splits)
  qed
qed

lemma merge_keys_short:
  assumes "merge_keys ks d = (Inr (), d')" and "ks \<noteq> []" and "set ks = set (keys d)"
  shows False
proof -
  have two: "length k = 2" if "k \<in> set ks" for k
    using merge_keys_raises [OF that, of d] assms(1) by fastforce
  obtain c cs where "ks = c # cs" using assms(2) by (cases ks) auto
  with two [of c] obtain a b where c: "ks = [a, b] # cs" by (auto simp: length_Suc_conv numeral_2_eq_2)
  with assms(1) have "map_of d [a] \<noteq> None" by (auto split: option.splits)
  then have "[a] \<in> set ks" using assms(3) by (auto simp: dom_map_of_conv_image_fst [symmetric])
  with two show False by fastforce
qed

lemma events_with_data_never_merge:
  assumes "ev_data f \<noteq> []"
  shows "merge_events e f \<noteq> Inr True"
proof
  assume "merge_events e f = Inr True"
  then have "set (keys (ev_data f)) = set (keys (ev_data e))"
    and "\<exists>d. merge_keys (keys (ev_data f)) (ev_data e) = (Inr (), d)"
    by (auto simp: merge_events_def split: if_splits prod.splits sum.splits)
  with merge_keys_short [of "keys (ev_data f)" "ev_data e"] assms show False by auto
qed

end
