(* ===== verification/Logging.thy ===== *)
theory Logging
  imports Steps
begin

text \<open>
  The subscribers of step events: \<open>SerialLoggingReporter\<close>, \<open>StepLogger\<close> and \<open>StepFormatter\<close> of
  \<^verbatim>\<open>labgrid/logging.py\<close>, \<^verbatim>\<open>labgrid/stepreporter.py\<close> and \<^verbatim>\<open>labgrid/consoleloggingreporter.py\<close>. Bytes are
  characters; what is logged is a list of entries. The step of an event is read when the event
  is notified.
\<close>

section \<open>Bytes\<close>

text \<open>\<open>bytes.decode()\<close> succeeds for well formed UTF-8.\<close>

definition continuation :: "nat \<Rightarrow> bool" where
  "continuation b \<longleftrightarrow> 128 \<le> b \<and> b < 192"

fun utf8 :: "nat list \<Rightarrow> bool" where
  "utf8 [] = True"
| "utf8 (a # s) =
     (if a < 128 then utf8 s
      else if 194 \<le> a \<and> a < 224 then
        (case s of b # t \<Rightarrow> continuation b \<and> utf8 t | [] \<Rightarrow> False)
      else if 224 \<le> a \<and> a < 240 then
        (case s of
           b # c # t \<Rightarrow> continuation b \<and> continuation c \<and> (a = 224 \<longrightarrow> 160 \<le> b) \<and> (a = 237 \<longrightarrow> b < 160) \<and> utf8 t
         | _ \<Rightarrow> False)
      else if 240 \<le> a \<and> a < 245 then
        (case s of
           b # c # d # t \<Rightarrow> continuation b \<and> continuation c \<and> continuation d \<and>
             (a = 240 \<longrightarrow> 144 \<le> b) \<and> (a = 244 \<longrightarrow> b < 144) \<and> utf8 t
         | _ \<Rightarrow> False)
      else False)"

definition decodes :: "string \<Rightarrow> bool" where
  "decodes s \<longleftrightarrow> utf8 (map of_char s)"

definition ascii :: "string \<Rightarrow> bool" where
  "ascii s \<longleftrightarrow> (\<forall>c \<in> set s. of_char c < (128 :: nat))"

lemma utf8_ascii: "\<forall>b \<in> set s. b < 128 \<Longrightarrow> utf8 s"
  by (induction s) simp_all

lemma ascii_decodes: "ascii s \<Longrightarrow> decodes s"
  by (simp add: ascii_def decodes_def utf8_ascii)

lemma ascii_append [simp]: "ascii (s @ t) \<longleftrightarrow> ascii s \<and> ascii t"
  by (auto simp: ascii_def)

section \<open>The serial reporter\<close>

datatype direction = Read | Written

record serial_reporter =
  sl_bufs :: "(nat, string) dict"
  sl_loggers :: "nat list"
  sl_last :: bool
  sl_log :: "(nat \<times> direction \<times> string) list"

type_synonym reporting = "serial_reporter \<Rightarrow> (py_error, unit, serial_reporter) outcome"

definition log_bytes :: "nat \<Rightarrow> direction \<Rightarrow> string \<Rightarrow> reporting" where
  "log_bytes src dir s r =
     (if decodes s then (Inr (), r\<lparr>sl_log := sl_log r @ [(src, dir, s)]\<rparr>) else (Inl ValueError, r))"

definition buffer_of :: "nat \<Rightarrow> serial_reporter \<Rightarrow> string" where
  "buffer_of src r = (case map_of (sl_bufs r) src of None \<Rightarrow> [] | Some b \<Rightarrow> b)"

definition add_logger :: "nat \<Rightarrow> serial_reporter \<Rightarrow> serial_reporter" where
  "add_logger src r = r\<lparr>sl_loggers := (if src \<in> set (sl_loggers r) then sl_loggers r else sl_loggers r @ [src])\<rparr>"

definition console_read :: "nat \<Rightarrow> string \<Rightarrow> reporting" where
  "console_read src data r =
     (let t = add_logger src r in
      if data = [] then (Inr (), t)
      else let ps = split_crlf [] (buffer_of src t @ data) in
        for_each (\<lambda>p. log_bytes src Read (p @ crlf)) (butlast ps)
          (t\<lparr>sl_bufs := AList.update src (last ps) (sl_bufs t), sl_last := True\<rparr>))"

definition console_write :: "nat \<Rightarrow> string \<Rightarrow> reporting" where
  "console_write src data r = log_bytes src Written data (add_logger src r)"

text \<open>\<open>flush\<close> looks for a buffer of every console it knows a logger of.\<close>

definition flush_one :: "nat \<Rightarrow> reporting" where
  "flush_one src r =
     (case map_of (sl_bufs r) src of
        None \<Rightarrow> (Inl KeyError, r)
      | Some b \<Rightarrow>
          and_then (if b = [] then (Inr (), r) else log_bytes src Read b r) (\<lambda>_ t.
            (Inr (), t\<lparr>sl_bufs := AList.update src [] (sl_bufs t)\<rparr>)))"

definition flush :: reporting where
  "flush r = (if sl_last r then for_each flush_one (sl_loggers r) r else (Inr (), r))"

text \<open>\<open>notify\<close> of the serial reporter: the state of the event and the step decide.\<close>

fun step_bytes :: "pyval \<Rightarrow> string" where
  "step_bytes (VStr s) = s"
| "step_bytes _ = []"

definition serial_notify :: "step \<Rightarrow> step_event \<Rightarrow> reporting" where
  "serial_notify x e r =
     (case (sr_tag x = Some ''console'', sr_source x) of
        (True, Some src) \<Rightarrow>
          (if map_of (ev_data e) ''state'' = Some (VStr ''stop'') \<and> sr_title x = ''read''
           then console_read src (step_bytes (sr_result x)) r
           else if map_of (ev_data e) ''state'' = Some (VStr ''start'') then
             (case sr_args x of
                VDict d \<Rightarrow>
                  (case map_of d ''data'' of
                     None \<Rightarrow> (Inr (), add_logger src r)
                   | Some v \<Rightarrow> console_write src (step_bytes v) r)
              | _ \<Rightarrow> (Inr (), add_logger src r))
           else (Inr (), add_logger src r))
      | _ \<Rightarrow> (Inr (), r))"


section \<open>The step logger and its formatter\<close>

definition get_next_indent :: "step \<Rightarrow> step_event \<Rightarrow> nat" where
  "get_next_indent x e =
     (if sr_exception x \<noteq> None then sr_level x
      else if map_of (ev_data e) ''state'' = Some (VStr ''start'') then sr_level x + 1
      else sr_level x)"

datatype prefix = Failing | Begins | Ends | SkipsIt | NoPrefix

definition get_prefix :: "step \<Rightarrow> step_event \<Rightarrow> prefix" where
  "get_prefix x e =
     (if sr_exception x \<noteq> None then Failing
      else if map_of (ev_data e) ''state'' = Some (VStr ''start'') then Begins
      else if map_of (ev_data e) ''state'' = Some (VStr ''stop'') then Ends
      else case map_of (ev_data e) ''skip'' of
        None \<Rightarrow> NoPrefix
      | Some v \<Rightarrow> if py_true v then SkipsIt else NoPrefix)"

text \<open>A log record has the indentation of its step and of what follows, or neither; the formatter
  keeps the level between records.\<close>

definition format_record :: "bool \<Rightarrow> (nat \<times> nat) option \<Rightarrow> nat \<Rightarrow> nat \<times> nat" where
  "format_record indent rec level =
     (if \<not> indent then (0, level)
      else case rec of None \<Rightarrow> (level, level) | Some (now, next) \<Rightarrow> (now, next))"

definition step_record :: "step \<Rightarrow> step_event \<Rightarrow> (nat \<times> nat) option" where
  "step_record x e = Some (sr_level x, get_next_indent x e)"

record step_logger =
  lg_serial :: serial_reporter
  lg_records :: "(prefix \<times> nat) list"
  lg_level :: nat

definition logger_notify :: "step \<Rightarrow> step_event \<Rightarrow> step_logger \<Rightarrow> (py_error, unit, step_logger) outcome" where
  "logger_notify x e g =
     (if sr_tag x = Some ''console'' then (Inr (), g)
      else case flush (lg_serial g) of
        (Inl err, r) \<Rightarrow> (Inl err, g\<lparr>lg_serial := r\<rparr>)
      | (Inr _, r) \<Rightarrow>
          (case format_record True (step_record x e) (lg_level g) of
             (now, next) \<Rightarrow>
               (Inr (), g\<lparr>lg_serial := r, lg_level := next,
                 lg_records := lg_records g @ [(get_prefix x e, now)]\<rparr>)))"

text \<open>\<open>StepReporter.notify\<close> prints an event, indented by its level, unless its step has a tag.\<close>

definition reporter_notify :: "step \<Rightarrow> step_event \<Rightarrow> (nat \<times> step_event) list \<Rightarrow> (nat \<times> step_event) list" where
  "reporter_notify x e out = (if truthy (sr_tag x) then out else out @ [(2 * sr_level x, e)])"

text \<open>Start and stop of a subscriber that must not be started twice.\<close>

definition start_reporter :: "bool \<Rightarrow> exn + bool" where
  "start_reporter on = (if on then Inl assertion_failed else Inr True)"

definition stop_reporter :: "bool \<Rightarrow> exn + bool" where
  "stop_reporter on = (if on then Inr False else Inl assertion_failed)"


section \<open>Console log files\<close>

record console_files =
  cf_cache :: "(nat, string option) dict"
  cf_files :: "(string, string) dict"

record console_source =
  cs_name :: "string option"
  cs_target :: string

definition append_file :: "string \<Rightarrow> string \<Rightarrow> console_files \<Rightarrow> console_files" where
  "append_file p s c =
     c\<lparr>cf_files := AList.update p ((case map_of (cf_files c) p of None \<Rightarrow> [] | Some t \<Rightarrow> t) @ s) (cf_files c)\<rparr>"

definition log_name :: "string \<Rightarrow> console_source \<Rightarrow> string" where
  "log_name logpath x = path_join logpath
     (if truthy (cs_name x) then ''console_'' @ cs_target x @ ''_'' @ the (cs_name x)
      else ''console_'' @ cs_target x)"

definition log_header :: "console_source \<Rightarrow> string \<Rightarrow> string" where
  "log_header x now =
     ''Labgrid Console Logfile for '' @ cs_target x @
     (if truthy (cs_name x) then '' '' @ the (cs_name x) else []) @ [CHR 0x0A] @
     ''Logfile started at '' @ now @ [CHR 0x0A] @ ''=== Log starts here ==='' @ [CHR 0x0A]"

text \<open>A file that cannot be opened is remembered as \<open>None\<close> and not tried again.\<close>

definition get_logfile ::
  "(string \<Rightarrow> bool) \<Rightarrow> string \<Rightarrow> string \<Rightarrow> nat \<Rightarrow> console_source \<Rightarrow> console_files \<Rightarrow> string option \<times> console_files" where
  "get_logfile can_open logpath now src x c =
     (case map_of (cf_cache c) src of
        Some p \<Rightarrow> (p, c)
      | None \<Rightarrow>
          (let p = log_name logpath x in
           if \<not> can_open p then (None, c\<lparr>cf_cache := AList.update src None (cf_cache c)\<rparr>)
           else (Some p, append_file p (log_header x now)
             (c\<lparr>cf_cache := AList.update src (Some p) (cf_cache c)\<rparr>))))"

definition files_notify ::
  "(string \<Rightarrow> bool) \<Rightarrow> string \<Rightarrow> string \<Rightarrow> (nat \<Rightarrow> console_source) \<Rightarrow> step \<Rightarrow> step_event \<Rightarrow> console_files \<Rightarrow>
   console_files" where
  "files_notify can_open logpath now sources x e c =
     (case sr_source x of
        None \<Rightarrow> c
      | Some src \<Rightarrow>
          (if sr_tag x = Some ''console'' \<and> sr_title x = ''read'' \<and>
              map_of (ev_data e) ''state'' = Some (VStr ''stop'') \<and> step_bytes (sr_result x) \<noteq> []
           then (case get_logfile can_open logpath now src (sources src) c of
               (None, d) \<Rightarrow> d
             | (Some p, d) \<Rightarrow> append_file p (step_bytes (sr_result x)) d)
           else c))"


section \<open>Every byte is logged\<close>

definition logged :: "nat \<Rightarrow> serial_reporter \<Rightarrow> string" where
  "logged src r = concat (map (\<lambda>(_, _, s). s) (filter (\<lambda>(k, d, _). k = src \<and> d = Read) (sl_log r)))"

definition seen :: "nat \<Rightarrow> serial_reporter \<Rightarrow> string" where
  "seen src r = logged src r @ buffer_of src r"

datatype traffic = ReadBytes nat string | WriteBytes nat string | Flush

fun report :: "traffic \<Rightarrow> reporting" where
  "report (ReadBytes src s) r = console_read src s r"
| "report (WriteBytes src s) r = console_write src s r"
| "report Flush r = flush r"

fun read_from :: "nat \<Rightarrow> traffic list \<Rightarrow> string" where
  "read_from src [] = []"
| "read_from src (ReadBytes k s # ts) = (if k = src then s @ read_from src ts else read_from src ts)"
| "read_from src (_ # ts) = read_from src ts"

fun report_all :: "traffic list \<Rightarrow> serial_reporter \<Rightarrow> serial_reporter" where
  "report_all [] r = r"
| "report_all (t # ts) r = report_all ts (snd (report t r))"

definition clean :: "serial_reporter \<Rightarrow> bool" where
  "clean r \<longleftrightarrow> (\<forall>src. ascii (buffer_of src r))"

lemma logged_log_bytes:
  "decodes s \<Longrightarrow> logged k (snd (log_bytes src Read s r)) = logged k r @ (if k = src then s else [])"
  by (simp add: log_bytes_def logged_def)

lemma log_bytes_bufs [simp]: "sl_bufs (snd (log_bytes src d s r)) = sl_bufs r"
  by (simp add: log_bytes_def)

lemma log_parts:
  "\<forall>p \<in> set ps. decodes (p @ crlf) \<Longrightarrow>
   \<exists>t. for_each (\<lambda>p. log_bytes src Read (p @ crlf)) ps r = (Inr (), t) \<and> sl_bufs t = sl_bufs r \<and>
     (\<forall>k. logged k t = logged k r @ (if k = src then concat (map (\<lambda>p. p @ crlf) ps) else []))"
proof (induction ps arbitrary: r)
  case Nil
  then show ?case by simp
next
  case (Cons p ps)
  obtain u where u: "log_bytes src Read (p @ crlf) r = (Inr (), u)"
    using Cons.prems by (simp add: log_bytes_def)
  then have "sl_bufs u = sl_bufs r"
    "\<forall>k. logged k u = logged k r @ (if k = src then p @ crlf else [])"
    using log_bytes_bufs [of src Read "p @ crlf" r] logged_log_bytes [of "p @ crlf" _ src r]
      Cons.prems by auto
  moreover obtain t where "for_each (\<lambda>p. log_bytes src Read (p @ crlf)) ps u = (Inr (), t)"
    "sl_bufs t = sl_bufs u"
    "\<forall>k. logged k t = logged k u @ (if k = src then concat (map (\<lambda>p. p @ crlf) ps) else [])"
    using Cons.IH [of u] Cons.prems by auto
  ultimately show ?case using u by auto
qed

lemma ascii_crlf [simp]: "ascii crlf"
  by (simp add: ascii_def crlf_def)

lemma ascii_split: "ascii (acc @ s) \<Longrightarrow> \<forall>p \<in> set (split_crlf acc s). ascii p"
  by (induction acc s rule: split_crlf.induct) (simp_all add: ascii_def)

lemma add_logger_keeps [simp]:
  "sl_bufs (add_logger src r) = sl_bufs r" "logged k (add_logger src r) = logged k r"
  "buffer_of k (add_logger src r) = buffer_of k r"
  by (simp_all add: add_logger_def logged_def buffer_of_def)

lemma console_read_seen:
  assumes "clean r" and "ascii s"
  shows "seen k (snd (console_read src s r)) = seen k r @ (if k = src then s else []) \<and>
    clean (snd (console_read src s r))"
proof (cases "s = []")
  case True
  with assms show ?thesis by (simp add: console_read_def seen_def clean_def)
next
  case False
  let ?ps = "split_crlf [] (buffer_of src r @ s)"
  let ?r = "(add_logger src r)\<lparr>sl_bufs := AList.update src (last ?ps) (sl_bufs r), sl_last := True\<rparr>"
  have asc: "\<forall>p \<in> set ?ps. ascii p" using assms ascii_split [of "[]" "buffer_of src r @ s"]
    by (simp add: clean_def)
  then have dec: "\<forall>p \<in> set (butlast ?ps). decodes (p @ crlf)"
    by (auto dest: in_set_butlastD intro!: ascii_decodes)
  obtain t where t: "for_each (\<lambda>p. log_bytes src Read (p @ crlf)) (butlast ?ps) ?r = (Inr (), t)"
    "sl_bufs t = sl_bufs ?r"
    "\<forall>k. logged k t = logged k ?r @ (if k = src then concat (map (\<lambda>p. p @ crlf) (butlast ?ps)) else [])"
    using log_parts [OF dec, of src ?r] by blast
  have read: "console_read src s r = (Inr (), t)"
    using False t(1) by (simp add: console_read_def Let_def)
  have logged: "logged k ?r = logged k r" for k
    by (simp add: logged_def add_logger_def)
  have buf: "buffer_of k t = (if k = src then last ?ps else buffer_of k r)" for k
    using t(2) by (simp add: buffer_of_def)
  have "seen k t = seen k r @ (if k = src then s else [])"
    using t(3) logged split_crlf_joins [of "[]" "buffer_of src r @ s"] by (simp add: seen_def buf)
  moreover have "clean t" using assms(1) asc by (simp add: clean_def buf)
  ultimately show ?thesis using read by simp
qed

lemma console_write_seen:
  "seen k (snd (console_write src s r)) = seen k r \<and> (clean r \<longrightarrow> clean (snd (console_write src s r)))"
  by (simp add: console_write_def log_bytes_def seen_def clean_def logged_def buffer_of_def
      add_logger_def)

lemma flush_one_seen:
  "clean r \<Longrightarrow> seen k (snd (flush_one src r)) = seen k r \<and> clean (snd (flush_one src r))"
proof (cases "map_of (sl_bufs r) src")
  case None
  assume "clean r"
  with None show ?thesis by (simp add: flush_one_def)
next
  case (Some b)
  assume r: "clean r"
  then have "decodes b" using Some by (auto simp: clean_def buffer_of_def intro!: ascii_decodes split: option.splits)
  with r Some show ?thesis
    by (auto simp: flush_one_def log_bytes_def seen_def logged_def buffer_of_def clean_def ascii_def)
qed

lemma flush_seen: "clean r \<Longrightarrow> seen k (snd (flush r)) = seen k r \<and> clean (snd (flush r))"
proof -
  assume r: "clean r"
  let ?P = "\<lambda>t. clean t \<and> seen k t = seen k r"
  have "?P (snd (for_each flush_one (sl_loggers r) r))"
    by (rule for_each_keeps) (use r flush_one_seen in auto)
  with r show ?thesis by (simp add: flush_def)
qed

lemma report_seen:
  "clean r \<Longrightarrow> (\<And>src s. t = ReadBytes src s \<Longrightarrow> ascii s) \<Longrightarrow>
   seen k (snd (report t r)) = seen k r @ read_from k [t] \<and> clean (snd (report t r))"
  by (cases t) (simp_all add: console_read_seen console_write_seen flush_seen)

definition ascii_traffic :: "traffic list \<Rightarrow> bool" where
  "ascii_traffic ts \<longleftrightarrow> (\<forall>src s. ReadBytes src s \<in> set ts \<longrightarrow> ascii s)"

lemma read_from_Cons: "read_from k (t # ts) = read_from k [t] @ read_from k ts"
  by (cases t) simp_all


definition no_reports :: serial_reporter where
  "no_reports = \<lparr>sl_bufs = [], sl_loggers = [], sl_last = False, sl_log = []\<rparr>"

definition demo_traffic :: "traffic list" where
  "demo_traffic = [ReadBytes 0 (''ab'' @ crlf @ ''c''), WriteBytes 1 ''x'', Flush, ReadBytes 0 ''d'']"


text \<open>
  A console that was only written to has a logger and no buffer: once something was read from
  another, the flush raises \<open>KeyError\<close> and the step logger drops its message.
\<close>

lemma flush_raises_for_written_console:
  assumes "sl_last (lg_serial g)" and "sl_loggers (lg_serial g) = src # more_loggers"
    and "map_of (sl_bufs (lg_serial g)) src = None" and "sr_tag x \<noteq> Some ''console''"
  shows "logger_notify x e g = (Inl KeyError, g)"
  using assms by (simp add: logger_notify_def flush_def flush_one_def)


section \<open>Indentation\<close>

text \<open>
  After events that start and stop steps, what is logged next is indented by one more than the
  number of open steps; the event of a skipped step sets it one too low.
\<close>

definition next_level :: "nat \<times> mark \<Rightarrow> nat" where
  "next_level = (\<lambda>(l, m). if m = Started then l + 1 else l)"

lemma indentation_follows_depth:
  assumes "replay es st = Some t" and "es \<noteq> []" and "snd (snd (last es)) \<noteq> Skipped"
  shows "next_level (snd (last es)) = Suc (length t)"
  using assms
proof (induction es st rule: replay.induct)
  case (1 st)
  then show ?case by simp
next
  case (2 i l m es st)
  show ?case
  proof (cases "es = []")
    case True
    with 2 show ?thesis by (cases m) (auto simp: next_level_def split: if_splits)
  next
    case False
    with 2 show ?thesis by (cases m) (auto split: if_splits)
  qed
qed

lemma next_indent_of_mark:
  assumes "mark_of e = Started \<Longrightarrow> sr_exception x = None"
  shows "get_next_indent x e = next_level (sr_level x, mark_of e)"
  using assms by (auto simp: get_next_indent_def next_level_def mark_of_def split: option.splits if_splits)

lemma skipped_step_loses_indentation:
  assumes "replay (es @ [(i, l, Skipped)]) st = Some t"
  shows "next_level (l, Skipped) = length t"
  using assms by (auto simp: replay_append next_level_def split: option.splits if_splits)


section \<open>Log files\<close>

lemma file_gets_read_bytes:
  assumes "map_of (cf_cache c) src = Some (Some p)" and "sr_source x = Some src"
    and "sr_tag x = Some ''console''" and "sr_title x = ''read''" and "sr_result x = VStr s" and "s \<noteq> []"
    and "map_of (ev_data e) ''state'' = Some (VStr ''stop'')" and "map_of (cf_files c) p = Some t"
  shows "map_of (cf_files (files_notify can_open logpath now sources x e c)) p = Some (t @ s)"
  using assms by (simp add: files_notify_def get_logfile_def append_file_def)

end
