(* ===== verification/Console.thy ===== *)
theory Console
  imports PyText
begin

text \<open>
  What the drivers on a console say and how they read the answer: the hidden marker of
  \<^verbatim>\<open>labgrid/util/marker.py\<close>, the command lines and the parsers of \<open>_run\<close> in
  \<^verbatim>\<open>labgrid/driver/shelldriver.py\<close>, \<^verbatim>\<open>bareboxdriver.py\<close>, \<^verbatim>\<open>ubootdriver.py\<close> and \<^verbatim>\<open>smallubootdriver.py\<close>. A
  prompt is a regular expression and stays a predicate that says whether it matches at the start
  of a string. The regular expressions of the drivers are searched the way \<open>re\<close> does: the leftmost
  start, and \<open>.*\<close> as long as possible.
\<close>

section \<open>Markers and command lines\<close>

definition marker_pool :: "char list" where
  "marker_pool = filter (\<lambda>c. c \<notin> set ''RID'') ''ABCDEFGHIJKLMNOPQRSTUVWXYZ''"

definition is_marker :: "string \<Rightarrow> bool" where
  "is_marker m \<longleftrightarrow> length m = 10 \<and> set m \<subseteq> set marker_pool"

text \<open>\<open>gen_marker\<close>, where the random numbers are arguments.\<close>

definition gen_marker :: "(nat \<Rightarrow> nat) \<Rightarrow> string" where
  "gen_marker random = map (\<lambda>i. marker_pool ! (random i mod length marker_pool)) [0..<10]"

lemma gen_marker_is_marker: "is_marker (gen_marker random)"
proof -
  have "0 < length marker_pool" by (simp add: marker_pool_def)
  then show ?thesis by (auto simp: is_marker_def gen_marker_def)
qed

definition hide :: "char \<Rightarrow> string \<Rightarrow> string" where
  "hide q m = [q] @ take 4 m @ [q, q] @ drop 4 m @ [q]"

definition shell_command :: "string \<Rightarrow> string \<Rightarrow> string" where
  "shell_command m cmd = ''MARKER='' @ hide (CHR 0x27) m @ '' run '' @ quote cmd"

definition shell_prompt_check :: "string \<Rightarrow> string" where
  "shell_prompt_check m = ''echo '' @ hide (CHR 0x27) m"

definition uboot_command :: "string \<Rightarrow> string \<Rightarrow> string" where
  "uboot_command m cmd =
     ''echo '' @ hide (CHR 0x27) m @ ''; '' @ cmd @ ''; echo '' @ [CHR 0x22] @ ''$?'' @ [CHR 0x22] @
     ''; echo '' @ hide (CHR 0x27) m @ '';''"

text \<open>Barebox: the log level is a text that was read, and an empty one leaves it alone.\<close>

definition barebox_command :: "string \<Rightarrow> bool \<Rightarrow> string \<Rightarrow> string \<Rightarrow> string" where
  "barebox_command level adjust m cmd =
     (let h = hide (CHR 0x22) m; set = (level \<noteq> [] \<and> adjust) in
      ''echo -o /cmd '' @ quote cmd @ ''; echo '' @ h @ '';'' @
      (if set then '' global.loglevel='' @ level @ '';'' else []) @
      '' sh /cmd; echo '' @ h @ '' $?;'' @
      (if set then '' global.loglevel=0;'' else []))"

definition small_uboot_command :: "string \<Rightarrow> string \<Rightarrow> string" where
  "small_uboot_command m cmd = ''echo'' @ m @ ''; '' @ cmd @ ''; echo'' @ m"

text \<open>A marker that is not in the command cannot be read off the echo of the command line.\<close>

lemma not_substring_split:
  assumes "c \<notin> set m" and "\<not> substring m a" and "\<not> substring m b"
  shows "\<not> substring m (a @ c # b)"
proof
  assume "substring m (a @ c # b)"
  then obtain x y where xy: "a @ c # b = x @ m @ y" by (auto simp: substring_iff)
  then consider us where "a = x @ us" "us @ c # b = m @ y" | us where "x = a @ us" "c # b = us @ m @ y"
    by (auto simp: append_eq_append_conv2)
  then show False
  proof cases
    case 1
    from 1(2) consider vs where "us = m @ vs" | vs where "m = us @ vs" "c # b = vs @ y"
      by (auto simp: append_eq_append_conv2)
    then show False
    proof cases
      case 1
      with \<open>a = x @ us\<close> assms(2) show False by (auto simp: substring_iff)
    next
      case (2 vs)
      then show False
      proof (cases vs)
        case Nil
        with 2 \<open>a = x @ us\<close> have "a = x @ m @ []" by simp
        with assms(2) show False unfolding substring_iff by blast
      next
        case (Cons d ds)
        with 2 assms(1) show False by auto
      qed
    qed
  next
    case 2
    then show False
    proof (cases us)
      case Nil
      with 2(2) assms(1,3) show False by (cases m) (auto simp: substring_iff)
    next
      case (Cons d ds)
      with 2(2) have "b = ds @ m @ y" by simp
      with assms(3) show False by (auto simp: substring_iff)
    qed
  qed
qed

lemma not_substring_short: "length s < length m \<Longrightarrow> \<not> substring m s"
  by (auto simp: substring_iff)

lemma marker_no_quote:
  assumes "is_marker m"
  shows "CHR 0x27 \<notin> set m" "CHR 0x22 \<notin> set m" "CHR ''='' \<notin> set m" "CHR '' '' \<notin> set m" "m \<noteq> []"
proof -
  have pool: "CHR 0x27 \<notin> set marker_pool" "CHR 0x22 \<notin> set marker_pool" "CHR ''='' \<notin> set marker_pool"
    "CHR '' '' \<notin> set marker_pool" by (simp_all add: marker_pool_def)
  show "CHR 0x27 \<notin> set m" "CHR 0x22 \<notin> set m" "CHR ''='' \<notin> set m" "CHR '' '' \<notin> set m" "m \<noteq> []"
    using assms pool by (auto simp: is_marker_def)
qed

lemma hidden_marker:
  assumes m: "is_marker m" and "\<not> substring m a" and "\<not> substring m b" and q: "q = CHR 0x27 \<or> q = CHR 0x22"
  shows "\<not> substring m (a @ hide q m @ b)"
proof -
  have "q \<notin> set m" and len: "length m = 10"
    using marker_no_quote [OF m] q m by (auto simp: is_marker_def)
  moreover have "\<not> substring m []" "\<not> substring m (take 4 m)" "\<not> substring m (drop 4 m)"
    using len by (auto intro!: not_substring_short)
  ultimately have "\<not> substring m (a @ q # take 4 m @ q # [] @ q # drop 4 m @ q # b)"
    by (intro not_substring_split assms(2,3))
  then show ?thesis by (simp add: hide_def)
qed

lemma shell_command_hides_marker:
  assumes m: "is_marker m" and "\<not> substring m (quote cmd)"
  shows "\<not> substring m (shell_command m cmd)"
proof -
  have short: "\<not> substring m ''MARKER=''" "\<not> substring m []" "\<not> substring m ''run''"
    using m by (auto simp: is_marker_def intro!: not_substring_short)
  have "\<not> substring m ([] @ CHR '' '' # ''run'' @ CHR '' '' # quote cmd)"
    by (intro not_substring_split short assms(2) marker_no_quote [OF m])
  with hidden_marker [OF m short(1)] show ?thesis by (simp add: shell_command_def)
qed


section \<open>The shell\<close>

definition is_white :: "char \<Rightarrow> bool" where
  "is_white c \<longleftrightarrow> (let n = of_char c :: nat in n = 32 \<or> (9 \<le> n \<and> n \<le> 13))"

text \<open>\<open>\s+(\d+)\s+\<close> and the prompt, at the start of a string: the digits. With \<open>slack\<close> anything may
  stand before the prompt.\<close>

definition prompt_within :: "(string \<Rightarrow> bool) \<Rightarrow> nat \<Rightarrow> string \<Rightarrow> bool" where
  "prompt_within prompt n s \<longleftrightarrow> list_ex (\<lambda>j. prompt (drop j s)) [1..<Suc n]"

definition exit_code :: "bool \<Rightarrow> (string \<Rightarrow> bool) \<Rightarrow> string \<Rightarrow> string option" where
  "exit_code slack prompt s =
     (let t = dropWhile is_white s; ds = takeWhile is_digit t; u = dropWhile is_digit t;
          n = length (takeWhile is_white u); top = (if slack then length u else n)
      in if t \<noteq> s \<and> ds \<noteq> [] \<and> n \<noteq> 0 \<and> prompt_within prompt top u
         then Some ds else None)"

text \<open>The longest text before a marker with an exit code after it, then the leftmost marker.\<close>

fun up_to_marker :: "bool \<Rightarrow> (string \<Rightarrow> bool) \<Rightarrow> string \<Rightarrow> string \<Rightarrow> string \<Rightarrow> (string \<times> string) option" where
  "up_to_marker slack prompt m acc s =
     (case (case s of [] \<Rightarrow> None | c # r \<Rightarrow> up_to_marker slack prompt m (acc @ [c]) r) of
        Some x \<Rightarrow> Some x
      | None \<Rightarrow>
          (if startswith s m
           then map_option (\<lambda>ds. (acc, ds)) (exit_code slack prompt (drop (length m) s)) else None))"

declare up_to_marker.simps [simp del]

fun search_output :: "bool \<Rightarrow> (string \<Rightarrow> bool) \<Rightarrow> string \<Rightarrow> string \<Rightarrow> (string \<times> string) option" where
  "search_output slack prompt m s =
     (case (if startswith s m then up_to_marker slack prompt m [] (drop (length m) s) else None) of
        Some x \<Rightarrow> Some x
      | None \<Rightarrow> (case s of [] \<Rightarrow> None | c # r \<Rightarrow> search_output slack prompt m r))"

declare search_output.simps [simp del]

definition drop_last_empty :: "string list \<Rightarrow> string list" where
  "drop_last_empty ls = (if ls \<noteq> [] \<and> last ls = [] then butlast ls else ls)"

text \<open>What \<open>_run\<close> of the shell driver returns for a text in which the pattern was found.\<close>

definition shell_output :: "(string \<Rightarrow> bool) \<Rightarrow> string \<Rightarrow> string \<Rightarrow> (string list \<times> (py_error + int)) option" where
  "shell_output prompt m s =
     map_option (\<lambda>(out, ds). (drop_last_empty (split_crlf [] (strip_vt100 out)), py_int 10 ds))
       (search_output False prompt m s)"

definition barebox_output :: "(string \<Rightarrow> bool) \<Rightarrow> string \<Rightarrow> string \<Rightarrow> (string list \<times> (py_error + int)) option" where
  "barebox_output prompt m s =
     map_option (\<lambda>(out, ds). (butlast (tl (split_crlf [] (strip_vt100 out))), py_int 10 ds))
       (search_output True prompt m s)"

text \<open>What a terminal shows: the echo, the output between the markers, the exit code, the prompt.\<close>

definition shell_transcript :: "string \<Rightarrow> string \<Rightarrow> string list \<Rightarrow> nat \<Rightarrow> string \<Rightarrow> string" where
  "shell_transcript echo m ls code p =
     echo @ m @ concat (map line_end ls) @ m @ '' '' @ show_nat code @ crlf @ p"

definition plain_line :: "string \<Rightarrow> bool" where
  "plain_line l \<longleftrightarrow> CHR 0x0D \<notin> set l \<and> CHR 0x0A \<notin> set l \<and> CHR 0x1B \<notin> set l \<and> CHR 0x9B \<notin> set l"

text \<open>The marker occurs in the transcript only where it was printed.\<close>

definition only_printed :: "string \<Rightarrow> string \<Rightarrow> string \<Rightarrow> string \<Rightarrow> bool" where
  "only_printed m echo out rest \<longleftrightarrow>
     (\<forall>a b. echo @ m @ out @ m @ rest = a @ m @ b \<longrightarrow> a = echo \<or> a = echo @ m @ out)"

lemma show_nat_is_digit: "c \<in> set (show_nat n) \<Longrightarrow> is_digit c \<and> \<not> is_white c"
proof -
  assume "c \<in> set (show_nat n)"
  then obtain d where d: "d < 10" "c = digit d" using show_nat_digits by blast
  then have n: "of_char c = 48 + d" using of_char_digit by blast
  with d(1) have "\<not> is_white c" by (simp add: is_white_def)
  moreover have "is_digit c"
    using n d(1) by (simp add: is_digit_def less_eq_char_def)
  ultimately show ?thesis by simp
qed

lemma white_simps [simp]:
  "is_white (CHR '' '')" "is_white (CHR 0x0D)" "is_white (CHR 0x0A)" "\<not> is_digit (CHR 0x0D)"
  by (simp_all add: is_white_def is_digit_def less_eq_char_def)

lemma exit_code_transcript:
  assumes "prompt p"
  shows "exit_code slack prompt ('' '' @ show_nat code @ crlf @ p) = Some (show_nat code)"
proof -
  let ?u = "crlf @ p"
  have drop: "dropWhile is_white (CHR '' '' # show_nat code @ ?u) = show_nat code @ ?u"
    using show_nat_not_Nil [of code] show_nat_is_digit [of "hd (show_nat code)" code]
    by (cases "show_nat code") simp_all
  have digits: "takeWhile is_digit (show_nat code @ ?u) = show_nat code"
    "dropWhile is_digit (show_nat code @ ?u) = ?u"
    using show_nat_is_digit [of _ code] by (simp_all add: takeWhile_append2 dropWhile_append2 crlf_def)
  let ?n = "length (takeWhile is_white ?u)"
  have n: "2 \<le> ?n" by (simp add: crlf_def)
  have within: "prompt_within prompt k ?u" if "2 \<le> k" for k
  proof -
    have "prompt (drop 2 ?u)" using assms by (simp add: crlf_def)
    moreover have "2 \<in> set [1..<Suc k]" using that by auto
    ultimately show ?thesis unfolding prompt_within_def list_ex_iff by blast
  qed
  have "prompt_within prompt (if slack then length ?u else ?n) ?u"
    using n by (intro within) (simp add: crlf_def)
  moreover have "?n \<noteq> 0" using n by linarith
  ultimately show ?thesis
    unfolding exit_code_def append_Cons append_Nil drop Let_def digits by simp
qed

lemma up_to_marker_last:
  assumes only: "\<forall>a b. out @ m @ rest = a @ m @ b \<longrightarrow> a = out"
    and code: "exit_code slack prompt rest = Some ds"
  shows "up_to_marker slack prompt m acc (out @ m @ rest) = Some (acc @ out, ds)"
  using only
proof (induction out arbitrary: acc)
  case Nil
  have none: "up_to_marker slack prompt m b s = None" if "\<exists>c r. m @ rest = (c # r) @ s" for b s
    using that
  proof (induction s arbitrary: b)
    case Nil
    have "\<not> startswith [] m"
    proof
      assume "startswith [] m"
      then have "m = []" by (simp add: startswith_def)
      with Nil.prems Nil(1) show False
        using \<open>\<forall>a b. [] @ m @ rest = a @ m @ b \<longrightarrow> a = []\<close> by (metis append_Nil append_Nil2 list.distinct(1))
    qed
    then show ?case by (simp add: up_to_marker.simps)
  next
    case (Cons d s)
    then obtain c r where cr: "m @ rest = (c # r) @ d # s" by blast
    have "\<not> startswith (d # s) m"
    proof
      assume "startswith (d # s) m"
      then obtain z where "d # s = m @ z" by (auto simp: startswith_iff)
      with cr have "[] @ m @ rest = (c # r) @ m @ z" by simp
      with \<open>\<forall>a b. [] @ m @ rest = a @ m @ b \<longrightarrow> a = []\<close> show False by blast
    qed
    moreover have "up_to_marker slack prompt m (b @ [d]) s = None"
      using Cons.IH cr by (metis append_Cons append_assoc append_Nil)
    ultimately show ?case by (simp add: up_to_marker.simps [of _ _ _ _ "d # s"])
  qed
  have here: "startswith (m @ rest) m" by (auto simp: startswith_iff)
  show ?case
  proof (cases "m @ rest")
    case (Cons c r)
    then have "up_to_marker slack prompt m (acc @ [c]) r = None" by (intro none) auto
    with here Cons code show ?thesis
      by (simp add: up_to_marker.simps [of _ _ _ _ "c # r"])
         (metis append_eq_conv_conj)
  next
    case Nil
    with code show ?thesis by (simp add: exit_code_def Let_def)
  qed
next
  case (Cons c out)
  have "up_to_marker slack prompt m (acc @ [c]) (out @ m @ rest) = Some ((acc @ [c]) @ out, ds)"
  proof (rule Cons.IH, intro allI impI)
    fix a b
    assume "out @ m @ rest = a @ m @ b"
    then have "(c # out) @ m @ rest = (c # a) @ m @ b" by simp
    with Cons.prems have "c # a = c # out" by blast
    then show "a = out" by simp
  qed
  then show ?case by (simp add: up_to_marker.simps [of _ _ _ _ "c # out @ m @ rest"])
qed

lemma search_output_first:
  assumes only: "\<forall>a b. echo @ s = a @ m @ b \<longrightarrow> length echo \<le> length a"
    and s: "startswith s m" "up_to_marker slack prompt m [] (drop (length m) s) = Some x"
  shows "search_output slack prompt m (echo @ s) = Some x"
  using only
proof (induction echo)
  case Nil
  with s show ?case by (simp add: search_output.simps [of _ _ _ s])
next
  case (Cons c echo)
  have "\<not> startswith (c # echo @ s) m"
  proof
    assume "startswith (c # echo @ s) m"
    then obtain z where "(c # echo) @ s = [] @ m @ z" by (auto simp: startswith_iff)
    with Cons.prems have "length (c # echo) \<le> length ([] :: string)" by blast
    then show False by simp
  qed
  moreover have "search_output slack prompt m (echo @ s) = Some x"
  proof (rule Cons.IH, intro allI impI)
    fix a b
    assume "echo @ s = a @ m @ b"
    then have "(c # echo) @ s = (c # a) @ m @ b" by simp
    with Cons.prems have "length (c # echo) \<le> length (c # a)" by blast
    then show "length echo \<le> length a" by simp
  qed
  ultimately show ?case by (simp add: search_output.simps [of _ _ _ "c # echo @ s"])
qed

lemma search_output_transcript:
  assumes only: "only_printed m echo out rest" and code: "exit_code slack prompt rest = Some ds"
    and m: "m \<noteq> []"
  shows "search_output slack prompt m (echo @ m @ out @ m @ rest) = Some (out, ds)"
proof (rule search_output_first)
  show "startswith (m @ out @ m @ rest) m" by (auto simp: startswith_iff)
  have "up_to_marker slack prompt m [] (out @ m @ rest) = Some ([] @ out, ds)"
  proof (rule up_to_marker_last [OF _ code], intro allI impI)
    fix a b
    assume "out @ m @ rest = a @ m @ b"
    then have "echo @ m @ out @ m @ rest = (echo @ m @ a) @ m @ b" by simp
    with only have "echo @ m @ a = echo \<or> echo @ m @ a = echo @ m @ out"
      unfolding only_printed_def by blast
    with m show "a = out" by auto
  qed
  then show "up_to_marker slack prompt m [] (drop (length m) (m @ out @ m @ rest)) = Some (out, ds)"
    by simp
  show "\<forall>a b. echo @ m @ out @ m @ rest = a @ m @ b \<longrightarrow> length echo \<le> length a"
    using only unfolding only_printed_def by fastforce
qed

lemma py_int_show_nat: "py_int 10 (show_nat n) = Inr (int n)"
  using py_int_show_int [of "int n"] by (simp add: show_int_def)

lemma strip_vt100_lines:
  assumes "\<forall>l \<in> set ls. plain_line l"
  shows "strip_vt100 (concat (map line_end ls)) = concat (map line_end ls)"
proof (rule strip_vt100_plain)
  show "CHR 0x1B \<notin> set (concat (map line_end ls))" "CHR 0x9B \<notin> set (concat (map line_end ls))"
    using assms by (auto simp: plain_line_def line_end_def crlf_def)
qed

text \<open>
  C28. What a command prints and its exit code are read back exactly: when the terminal shows the echo,
  the marker, the lines of the output, the marker with the exit code and the prompt, and the
  marker occurs nowhere else, the shell driver returns these lines and this code.
\<close>

theorem shell_output_of_transcript:
  assumes "\<forall>l \<in> set ls. plain_line l" and "prompt p" and "m \<noteq> []"
    and "only_printed m echo (concat (map line_end ls)) ('' '' @ show_nat code @ crlf @ p)"
  shows "shell_output prompt m (shell_transcript echo m ls code p) = Some (ls, Inr (int code))"
proof -
  have "search_output False prompt m (shell_transcript echo m ls code p) =
      Some (concat (map line_end ls), show_nat code)"
    unfolding shell_transcript_def
    by (rule search_output_transcript [OF assms(4) exit_code_transcript [where prompt = prompt, OF assms(2)] assms(3)])
  moreover have "\<forall>l \<in> set ls. CHR 0x0D \<notin> set l" using assms(1) by (simp add: plain_line_def)
  ultimately show ?thesis
    using assms(1) by (simp add: shell_output_def strip_vt100_lines split_crlf_lines drop_last_empty_def
        py_int_show_nat)
qed

lemma only_printed_check:
  assumes "list_all (\<lambda>n. startswith (drop n (echo @ m @ out @ m @ rest)) m \<longrightarrow>
      n = length echo \<or> n = length (echo @ m @ out)) [0..<Suc (length (echo @ m @ out @ m @ rest))]"
  shows "only_printed m echo out rest"
  unfolding only_printed_def
proof (intro allI impI)
  fix a b
  assume eq: "echo @ m @ out @ m @ rest = a @ m @ b"
  then have "length a \<le> length (echo @ m @ out @ m @ rest)" by simp
  moreover have "startswith (drop (length a) (echo @ m @ out @ m @ rest)) m"
    unfolding eq by (auto simp: startswith_iff)
  ultimately have "length a = length echo \<or> length a = length (echo @ m @ out)"
    using assms unfolding list_all_iff by (metis atLeastLessThan_iff le_imp_less_Suc set_upt zero_le)
  moreover have "a = take (length a) (echo @ m @ out @ m @ rest)" unfolding eq by simp
  ultimately show "a = echo \<or> a = echo @ m @ out" by auto
qed

lemma shell_output_of_transcript_witness:
  "shell_output (\<lambda>s. startswith s ''# '') ''ABCEFGHJKL''
     (shell_transcript (shell_command ''ABCEFGHJKL'' ''ls'' @ crlf) ''ABCEFGHJKL'' [''a'', ''b''] 3 ''# '') =
   Some ([''a'', ''b''], Inr 3)"
proof -
  have three: "show_nat 3 = ''3''" by (simp add: show_nat.simps, code_simp)
  have "only_printed ''ABCEFGHJKL'' (shell_command ''ABCEFGHJKL'' ''ls'' @ crlf)
      (concat (map line_end [''a'', ''b''])) ('' '' @ show_nat 3 @ crlf @ ''# '')"
    unfolding three by (rule only_printed_check) code_simp
  moreover have "\<forall>l \<in> set [''a'', ''b'']. plain_line l" "startswith ''# '' ''# ''" "''ABCEFGHJKL'' \<noteq> []"
    by (simp_all add: plain_line_def startswith_def)
  ultimately show ?thesis
    using shell_output_of_transcript [where prompt = "\<lambda>s. startswith s ''# ''" and p = "''# ''"
        and ls = "[''a'', ''b'']" and code = 3 and m = "''ABCEFGHJKL''"
        and echo = "shell_command ''ABCEFGHJKL'' ''ls'' @ crlf"] by simp
qed

text \<open>Barebox prints the marker on a line of its own before the output.\<close>

lemma barebox_output_of_transcript:
  assumes "\<forall>l \<in> set ls. plain_line l" and "prompt p" and "m \<noteq> []"
    and "only_printed m echo (concat (map line_end ([] # ls))) ('' '' @ show_nat code @ crlf @ p)"
  shows "barebox_output prompt m (shell_transcript echo m ([] # ls) code p) = Some (ls, Inr (int code))"
proof -
  have "search_output True prompt m (shell_transcript echo m ([] # ls) code p) =
      Some (concat (map line_end ([] # ls)), show_nat code)"
    unfolding shell_transcript_def
    by (rule search_output_transcript [OF assms(4) exit_code_transcript [where prompt = prompt, OF assms(2)] assms(3)])
  moreover have plain: "\<forall>l \<in> set ([] # ls). plain_line l" using assms(1) by (simp add: plain_line_def)
  moreover from this have "\<forall>l \<in> set ([] # ls). CHR 0x0D \<notin> set l" by (simp add: plain_line_def)
  then have "split_crlf [] (concat (map line_end ([] # ls))) = ([] # ls) @ [[]]"
    by (rule split_crlf_lines)
  ultimately show ?thesis
    using strip_vt100_lines [OF plain] by (simp add: barebox_output_def py_int_show_nat del: split_crlf.simps)
qed


section \<open>U-Boot\<close>

text \<open>\<open>data.index(x)\<close> followed by a slice on either side of it.\<close>

fun split_at :: "'a \<Rightarrow> 'a list \<Rightarrow> ('a list \<times> 'a list) option" where
  "split_at x [] = None"
| "split_at x (y # ys) =
     (if x = y then Some ([], ys)
      else map_option (\<lambda>(as, bs). (y # as, bs)) (split_at x ys))"

lemma split_at_first: "x \<notin> set xs \<Longrightarrow> split_at x (xs @ x # ys) = Some (xs, ys)"
  by (induction xs) auto

text \<open>The timestamp of U-Boot: \<open>^\[\s+\d+\.\d+\]\s*\<close>.\<close>

definition strip_timestamp :: "string \<Rightarrow> string" where
  "strip_timestamp s =
     (if \<not> startswith s ''['' then s
      else let a = dropWhile is_space (tl s); b = dropWhile is_digit a;
               c = dropWhile is_digit (tl b)
        in if a \<noteq> tl s \<and> b \<noteq> a \<and> startswith b ''.'' \<and> c \<noteq> tl b \<and> startswith c '']''
           then dropWhile is_space (tl c) else s)"

definition uboot_lines :: "bool \<Rightarrow> string \<Rightarrow> string list" where
  "uboot_lines stamps s =
     (let ls = split_on (CHR 0x0A) (filter (\<lambda>c. c \<noteq> CHR 0x0D) (strip_vt100 s))
      in if stamps then map strip_timestamp ls else ls)"

definition uboot_result :: "string \<Rightarrow> string list \<Rightarrow> py_error + string list \<times> int" where
  "uboot_result m ls =
     (case split_at m ls of
        None \<Rightarrow> Inl ValueError
      | Some (_, data) \<Rightarrow>
          (case split_at m data of
             None \<Rightarrow> Inl ValueError
           | Some (out, _) \<Rightarrow>
               (if out = [] then Inl IndexError
                else and_result (py_int 10 (last out)) (\<lambda>code. Inr (butlast out, code)))))"

definition uboot_output :: "bool \<Rightarrow> string \<Rightarrow> string \<Rightarrow> py_error + string list \<times> int" where
  "uboot_output stamps m s = uboot_result m (uboot_lines stamps s)"

lemma uboot_result_of_lines:
  assumes "m \<notin> set before" and "m \<notin> set ls" and "show_nat code \<noteq> m"
  shows "uboot_result m (before @ m # ls @ show_nat code # m # after) = Inr (ls, int code)"
proof -
  have "split_at m (ls @ show_nat code # m # after) = Some (ls @ [show_nat code], after)"
    using split_at_first [of m "ls @ [show_nat code]" after] assms(2,3) by auto
  then show ?thesis
    using assms(1) by (simp add: uboot_result_def split_at_first py_int_show_nat)
qed

text \<open>Output that does not end its last line swallows the exit code.\<close>

lemma uboot_unfinished_line:
  assumes "m \<notin> set before" and "m \<notin> set ls" and "last_line \<noteq> m"
    and "py_int 10 last_line = Inl ValueError"
  shows "uboot_result m (before @ m # ls @ last_line # m # after) = Inl ValueError"
proof -
  have "split_at m (ls @ last_line # m # after) = Some (ls @ [last_line], after)"
    using split_at_first [of m "ls @ [last_line]" after] assms(2,3) by auto
  then show ?thesis using assms(1,4) by (simp add: uboot_result_def split_at_first)
qed

definition unknown_command :: "string \<Rightarrow> string" where
  "unknown_command m =
     ''Unknown command '' @ [CHR 0x27] @ ''echo'' @ m @ [CHR 0x27] @ '' - try '' @ [CHR 0x27] @ ''help'' @ [CHR 0x27]"

definition small_uboot_result :: "string \<Rightarrow> string list \<Rightarrow> py_error + string list \<times> int" where
  "small_uboot_result m ls =
     (case split_at (unknown_command m) (tl ls) of
        None \<Rightarrow> Inl ValueError
      | Some (_, data) \<Rightarrow>
          (case split_at (unknown_command m) data of
             None \<Rightarrow> Inl ValueError
           | Some (out, _) \<Rightarrow>
               Inr (out, if out \<noteq> [] \<and> startswith (hd out) (''Unknown command '' @ [CHR 0x27]) then 1 else 0)))"

definition small_uboot_output :: "string \<Rightarrow> string \<Rightarrow> py_error + string list \<times> int" where
  "small_uboot_output m s = small_uboot_result m (uboot_lines False s)"

end
