(* ===== verification/ConsoleDrivers.thy ===== *)
theory ConsoleDrivers
  imports Console
begin

text \<open>
  The drivers on a console as state machines: how \<open>ShellDriver\<close>, \<open>UBootDriver\<close>, \<open>BareboxDriver\<close> and
  \<open>SmallUBootDriver\<close> reach a prompt, run commands, upload an SSH key and boot, with the loops of
  \<^verbatim>\<open>labgrid/driver/commandmixin.py\<close> and the chunked writes of \<^verbatim>\<open>labgrid/driver/consoleexpectmixin.py\<close>.
  The device on the other side is a script: the answers to the calls of \<open>expect\<close> in turn, each with
  the text before it and whether the timeout of the login has expired by then.
\<close>

section \<open>The console\<close>

datatype keyed = Line string | Raw string

text \<open>\<open>an_index\<close> is the position of the pattern that matched, and \<open>an_lost\<close> that \<open>expect\<close> raised
  \<open>TIMEOUT\<close>, which only happens where it is not among the patterns.\<close>

record reaction =
  an_index :: nat
  an_before :: string
  an_expired :: bool
  an_lost :: bool

datatype console_error =
    TimedOut
  | PasswordMissing
  | PasswordWrong
  | CommandFailed string
  | Unreadable py_error
  | NotInShell
  | UnknownBootEntry
  | WaitExpired
  | Silent

text \<open>\<open>Silent\<close> is no exception: the script has ended and the driver still waits.\<close>

record terminal =
  cn_script :: "reaction list"
  cn_sent :: "keyed list"
  cn_markers :: "string list"
  cn_status :: nat

type_synonym 'a on_console = "terminal \<Rightarrow> (console_error, 'a, terminal) outcome"

definition sendline :: "string \<Rightarrow> terminal \<Rightarrow> terminal" where
  "sendline l c = c\<lparr>cn_sent := cn_sent c @ [Line l]\<rparr>"

definition expect :: "reaction on_console" where
  "expect c =
     (case cn_script c of
        [] \<Rightarrow> (Inl Silent, c)
      | a # as \<Rightarrow> (if an_lost a then Inl TimedOut else Inr a, c\<lparr>cn_script := as\<rparr>))"

definition next_marker :: "terminal \<Rightarrow> string \<times> terminal" where
  "next_marker c =
     (case cn_markers c of [] \<Rightarrow> ([], c) | m # ms \<Rightarrow> (m, c\<lparr>cn_markers := ms\<rparr>))"

definition set_status :: "nat \<Rightarrow> terminal \<Rightarrow> terminal" where
  "set_status n c = c\<lparr>cn_status := n\<rparr>"

text \<open>\<open>ConsoleExpectMixin.write\<close>: all at once, or in chunks with a delay before each.\<close>

function chunks :: "nat \<Rightarrow> 'a list \<Rightarrow> 'a list list" where
  "chunks n xs = (if xs = [] \<or> n = 0 then [] else take n xs # chunks n (drop n xs))"
  by pat_completeness auto
termination
  by (relation "measure (length \<circ> snd)") auto

declare chunks.simps [simp del]

definition write_console :: "bool \<Rightarrow> nat \<Rightarrow> string \<Rightarrow> py_error + string list" where
  "write_console delay chunk data =
     (if delay then (if chunk = 0 then Inl ValueError else Inr (chunks chunk data)) else Inr [data])"

lemma concat_chunks: "0 < n \<Longrightarrow> concat (chunks n xs) = xs"
proof (induction n xs rule: chunks.induct)
  case (1 n xs)
  then show ?case
  proof (cases "xs = []")
    case True
    then show ?thesis by (simp add: chunks.simps [of n "[]"])
  next
    case False
    with 1 show ?thesis by (simp add: chunks.simps [of n xs])
  qed
qed

lemma chunks_bounded: "c \<in> set (chunks n xs) \<Longrightarrow> c \<noteq> [] \<and> length c \<le> n"
proof (induction n xs rule: chunks.induct)
  case (1 n xs)
  show ?case
  proof (cases "xs = [] \<or> n = 0")
    case True
    with 1(2) show ?thesis by (simp add: chunks.simps [of n xs])
  next
    case False
    with 1(2) have "c = take n xs \<or> c \<in> set (chunks n (drop n xs))" by (simp add: chunks.simps [of n xs])
    with 1(1) False show ?thesis by auto
  qed
qed


section \<open>Commands\<close>

record shell_config =
  sh_prompt :: "string \<Rightarrow> bool"
  sh_username :: string
  sh_password :: "string option"

text \<open>\<open>_check_prompt\<close>: a marker is echoed and read back.\<close>

definition shell_check_prompt :: "unit on_console" where
  "shell_check_prompt c =
     (case next_marker c of
        (m, t) \<Rightarrow>
          (case expect (sendline (shell_prompt_check m) t) of
             (Inr _, u) \<Rightarrow> (Inr (), set_status 1 u)
           | (Inl TimedOut, u) \<Rightarrow> (Inl TimedOut, set_status 0 u)
           | (Inl e, u) \<Rightarrow> (Inl e, u)))"

definition parsed :: "(py_error + 'a) \<Rightarrow> 'a on_console" where
  "parsed r c = (case r of Inl e \<Rightarrow> (Inl (Unreadable e), c) | Inr a \<Rightarrow> (Inr a, c))"

text \<open>\<open>_run\<close> of the shell: the text of the answer is the buffer in which the pattern was found.\<close>

definition shell_run :: "shell_config \<Rightarrow> string \<Rightarrow> (string list \<times> int) on_console" where
  "shell_run cfg cmd c =
     and_then (shell_check_prompt c) (\<lambda>_ t.
       case next_marker t of
         (m, u) \<Rightarrow>
           and_then (expect (sendline (shell_command m cmd) u)) (\<lambda>a v.
             case shell_output (sh_prompt cfg) m (an_before a) of
               None \<Rightarrow> (Inl TimedOut, v)
             | Some (out, code) \<Rightarrow> and_then (parsed code v) (\<lambda>n w. (Inr (out, n), w))))"

definition uboot_run :: "bool \<Rightarrow> string \<Rightarrow> (string list \<times> int) option on_console" where
  "uboot_run stamps cmd c =
     (case next_marker c of
        (m, t) \<Rightarrow>
          (if cn_status t \<noteq> 1 then (Inr None, t)
           else and_then (expect (sendline (uboot_command m cmd) t)) (\<lambda>a u.
             and_then (parsed (uboot_output stamps m (an_before a)) u) (\<lambda>r v. (Inr (Some r), v)))))"

definition small_uboot_run :: "string \<Rightarrow> (string list \<times> int) option on_console" where
  "small_uboot_run cmd c =
     (if cn_status c \<noteq> 1 then (Inr None, c)
      else case next_marker c of
        (m, t) \<Rightarrow>
          and_then (expect (sendline (small_uboot_command m cmd) t)) (\<lambda>a u.
            and_then (parsed (small_uboot_output m (an_before a)) u) (\<lambda>r v. (Inr (Some r), v))))"

definition barebox_run ::
  "(string \<Rightarrow> bool) \<Rightarrow> string \<Rightarrow> bool \<Rightarrow> string \<Rightarrow> (string list \<times> int) option on_console" where
  "barebox_run prompt level adjust cmd c =
     (case next_marker c of
        (m, t) \<Rightarrow>
          (if cn_status t \<noteq> 1 then (Inr None, t)
           else and_then (expect (sendline (barebox_command level adjust m cmd) t)) (\<lambda>a u.
             case barebox_output prompt m (an_before a) of
               None \<Rightarrow> (Inl TimedOut, u)
             | Some (out, code) \<Rightarrow> and_then (parsed code u) (\<lambda>n v. (Inr (Some (out, n)), v)))))"

text \<open>\<open>_run_check\<close>: a code other than 0 is an \<open>ExecutionError\<close>; \<open>None\<close> cannot be unpacked.\<close>

definition checked_output :: "string \<Rightarrow> (string list \<times> int) option \<Rightarrow> string list on_console" where
  "checked_output cmd r c =
     (case r of
        None \<Rightarrow> (Inl (Unreadable TypeError), c)
      | Some (out, code) \<Rightarrow> (if code \<noteq> 0 then Inl (CommandFailed cmd) else Inr out, c))"

definition shell_run_check :: "shell_config \<Rightarrow> string \<Rightarrow> string list on_console" where
  "shell_run_check cfg cmd c = and_then (shell_run cfg cmd c) (\<lambda>r. checked_output cmd (Some r))"

definition uboot_run_check :: "bool \<Rightarrow> string \<Rightarrow> string list on_console" where
  "uboot_run_check stamps cmd c = and_then (uboot_run stamps cmd c) (checked_output cmd)"

text \<open>
  \<open>wait_for\<close> and \<open>poll_until_success\<close>: the rounds, each with the answer of the command and whether the
  timeout has expired when the loop asks next, the last one when it asks after the loop.
\<close>

fun wait_for :: "string \<Rightarrow> (string list \<times> bool \<times> bool) list \<Rightarrow> console_error + unit" where
  "wait_for pattern [] = Inl Silent"
| "wait_for pattern ((out, expired, after) # rounds) =
     (if list_ex (substring pattern) out \<or> expired
      then (if after then Inl WaitExpired else Inr ())
      else wait_for pattern rounds)"

fun poll_until_success :: "int \<Rightarrow> int option \<Rightarrow> (bool \<times> int) list \<Rightarrow> console_error + bool" where
  "poll_until_success expected tries [] = Inl Silent"
| "poll_until_success expected tries ((expired, code) # rounds) =
     (if expired then Inr False
      else if code = expected then Inr True
      else case tries of
        None \<Rightarrow> poll_until_success expected None rounds
      | Some n \<Rightarrow>
          (if n - 1 < 1 then Inr False else poll_until_success expected (Some (n - 1)) rounds))"


section \<open>Reaching the prompt\<close>

text \<open>
  The loop of \<open>_await_login\<close>. The patterns are the prompt, the login prompt, the password prompt,
  silence, and the note that a console can be activated.
\<close>

definition login_reply :: "shell_config \<Rightarrow> string \<Rightarrow> reaction \<Rightarrow> keyed list" where
  "login_reply cfg last_before a =
     (if an_index a = 0 then [Line ''dmesg -n 1'']
      else if an_index a = 1 then [Line (sh_username cfg)]
      else if an_index a = 2 then (case sh_password cfg of None \<Rightarrow> [] | Some p \<Rightarrow> [Line p])
      else if an_index a = 3 then (if an_before a = last_before then [Line []] else [])
      else if an_index a = 4 then [Line []]
      else [])"

fun login_loop ::
  "shell_config \<Rightarrow> string \<Rightarrow> bool \<Rightarrow> bool \<Rightarrow> reaction list \<Rightarrow> keyed list \<Rightarrow>
   (console_error + bool) \<times> reaction list \<times> keyed list" where
  "login_loop cfg last_before did sil [] out = (Inl Silent, [], out)"
| "login_loop cfg last_before did sil (a # as) out =
     (if an_index a = 0 \<and> \<not> (did \<and> \<not> sil) then (Inr did, as, out)
      else if an_index a = 2 \<and> sh_password cfg = None then (Inl PasswordMissing, as, out)
      else if an_expired a then (Inl TimedOut, as, out @ login_reply cfg last_before a)
      else login_loop cfg (an_before a) (did \<or> an_index a \<in> {1, 4}) (sil \<or> an_index a = 0) as
        (out @ login_reply cfg last_before a))"

text \<open>\<open>settle\<close> returns whether the console became quiet, and its answer is not used.\<close>

definition await_login :: "shell_config \<Rightarrow> unit on_console" where
  "await_login cfg c =
     (case login_loop cfg [] False False (cn_script c) (cn_sent c) of
        (r, as, out) \<Rightarrow>
          (case r of
             Inl e \<Rightarrow> (Inl e, c\<lparr>cn_script := as, cn_sent := out\<rparr>)
           | Inr did \<Rightarrow>
               (let t = c\<lparr>cn_script := as, cn_sent := out, cn_status := 1\<rparr>
                in if did then shell_check_prompt t else (Inr (), t))))"

definition run_helper :: string where
  "run_helper = ''run() { echo -n '' @ [CHR 0x22] @ ''$MARKER'' @ [CHR 0x22] @ ''; sh -c '' @
     [CHR 0x22] @ ''$@'' @ [CHR 0x22] @ ''; echo '' @ [CHR 0x22] @ ''$MARKER $?'' @ [CHR 0x22] @ ''; }''"

definition inject_run :: "unit on_console" where
  "inject_run c = and_then (expect (sendline run_helper c)) (\<lambda>_ t. (Inr (), t))"

definition shell_activate :: "shell_config \<Rightarrow> unit on_console" where
  "shell_activate cfg c =
     (if cn_status c = 0 then and_then (await_login cfg c) (\<lambda>_. inject_run) else (Inr (), c))"

definition console_deactivate :: "terminal \<Rightarrow> terminal" where
  "console_deactivate = set_status 0"

record uboot_config =
  ub_prompt_given :: bool
  ub_password :: string
  ub_interrupt :: string
  ub_stamps :: bool
  ub_init :: "string list"

text \<open>
  The loop of \<open>_await_prompt\<close> of U-Boot and barebox: the patterns are the prompt, the autoboot
  message, the password prompt and silence. The timeout is looked at after a silence only. With
  \<open>once\<close>, as in barebox, a second password prompt is an error.
\<close>

fun prompt_loop ::
  "bool \<Rightarrow> string \<Rightarrow> string \<Rightarrow> string option \<Rightarrow> bool \<Rightarrow> reaction list \<Rightarrow> keyed list \<Rightarrow>
   (console_error + unit) \<times> reaction list \<times> keyed list" where
  "prompt_loop once password interrupt last_before entered [] out = (Inl Silent, [], out)"
| "prompt_loop once password interrupt last_before entered (a # as) out =
     (if an_index a = 0 then (Inr (), as, out)
      else if an_index a = 1 then
        prompt_loop once password interrupt (Some (an_before a)) entered as (out @ [Raw interrupt])
      else if an_index a = 2 then
        (if password = [] then (Inl PasswordMissing, as, out)
         else if once \<and> entered then (Inl PasswordWrong, as, out)
         else prompt_loop once password interrupt (Some (an_before a)) True as (out @ [Line password]))
      else
        (let out' = out @ (if last_before = Some (an_before a) then [Line []] else [])
         in if an_expired a then (Inl TimedOut, as, out')
            else prompt_loop once password interrupt (Some (an_before a)) entered as out'))"

text \<open>\<open>_check_prompt\<close> of the boot loaders waits for the marker and then for the prompt.\<close>

definition boot_check_prompt :: "char \<Rightarrow> unit on_console" where
  "boot_check_prompt q c =
     (case next_marker c of
        (m, t) \<Rightarrow>
          (case and_then (expect (sendline (''echo '' @ hide q m) t)) (\<lambda>_. expect) of
             (Inr _, u) \<Rightarrow> (Inr (), set_status 1 u)
           | (Inl TimedOut, u) \<Rightarrow> (Inl TimedOut, set_status 0 u)
           | (Inl e, u) \<Rightarrow> (Inl e, u)))"

definition uboot_await_prompt :: "uboot_config \<Rightarrow> unit on_console" where
  "uboot_await_prompt cfg c =
     (case prompt_loop False (ub_password cfg) (ub_interrupt cfg) None False (cn_script c) (cn_sent c) of
        (r, as, out) \<Rightarrow>
          (case r of
             Inl e \<Rightarrow> (Inl e, c\<lparr>cn_script := as, cn_sent := out\<rparr>)
           | Inr _ \<Rightarrow>
               (let t = c\<lparr>cn_script := as, cn_sent := out, cn_status := 1\<rparr>
                in and_then (if ub_prompt_given cfg then boot_check_prompt (CHR 0x27) t else (Inr (), t))
                  (\<lambda>_. for_each (\<lambda>cmd u. and_then (uboot_run_check (ub_stamps cfg) cmd u) (\<lambda>_ v. (Inr (), v)))
                    (ub_init cfg)))))"

definition uboot_activate :: "uboot_config \<Rightarrow> unit on_console" where
  "uboot_activate cfg c = (if cn_status c = 0 then uboot_await_prompt cfg c else (Inr (), c))"

definition uboot_reset :: "uboot_config \<Rightarrow> unit on_console" where
  "uboot_reset cfg c = uboot_await_prompt cfg (sendline ''reset'' (set_status 0 c))"

definition uboot_boot :: "(string, string) dict \<Rightarrow> string \<Rightarrow> string \<Rightarrow> unit on_console" where
  "uboot_boot commands boot_command name c =
     (if name = [] then (Inr (), sendline boot_command c)
      else case map_of commands name of
        None \<Rightarrow> (Inl UnknownBootEntry, c)
      | Some cmd \<Rightarrow> (Inr (), sendline cmd c))"

text \<open>Barebox saves its log level as the text it printed; a number of the driver is the start value.\<close>

record barebox_config =
  bb_prompt :: "string \<Rightarrow> bool"
  bb_password :: string
  bb_interrupt :: string
  bb_boot :: string

definition is_numeric :: "string \<Rightarrow> bool" where
  "is_numeric s \<longleftrightarrow> s \<noteq> [] \<and> list_all (\<lambda>c. is_digit c \<or> of_char c \<in> {178, 179, 185, 188, 189, 190 :: nat}) s"

definition save_log_level :: "string \<Rightarrow> (string list \<times> int) option \<Rightarrow> string on_console" where
  "save_log_level level r c =
     (case r of
        None \<Rightarrow> (Inl (Unreadable TypeError), c)
      | Some (out, code) \<Rightarrow>
          (case out of
             [l] \<Rightarrow> (Inr (if code = 0 \<and> is_numeric l then l else level), c)
           | _ \<Rightarrow> (Inl (Unreadable ValueError), c)))"

definition barebox_await_prompt :: "barebox_config \<Rightarrow> string \<Rightarrow> string on_console" where
  "barebox_await_prompt cfg level c =
     (case prompt_loop True (bb_password cfg) (bb_interrupt cfg) None False (cn_script c) (cn_sent c) of
        (r, as, out) \<Rightarrow>
          (case r of
             Inl e \<Rightarrow> (Inl e, c\<lparr>cn_script := as, cn_sent := out\<rparr>)
           | Inr _ \<Rightarrow>
               and_then (boot_check_prompt (CHR 0x22) (c\<lparr>cn_script := as, cn_sent := out, cn_status := 1\<rparr>)) (\<lambda>_ t.
                 and_then (barebox_run (bb_prompt cfg) level False ''echo $global.loglevel'' t) (\<lambda>r u.
                   and_then (save_log_level level r u) (\<lambda>l v.
                     and_then (barebox_run (bb_prompt cfg) l False ''global.loglevel=0'' v) (\<lambda>_ w.
                       (Inr l, w)))))))"

definition barebox_boot :: "barebox_config \<Rightarrow> string \<Rightarrow> string \<Rightarrow> unit on_console" where
  "barebox_boot cfg level name c =
     and_then (barebox_run (bb_prompt cfg) level False (''global.loglevel='' @ level) c) (\<lambda>_ t.
       (Inr (), sendline (if name \<noteq> [] then ''boot -v '' @ name else bb_boot cfg) t))"

definition small_uboot_await_prompt :: "bool \<Rightarrow> string \<Rightarrow> string list \<Rightarrow> unit on_console" where
  "small_uboot_await_prompt nolf secret init c =
     and_then (expect c) (\<lambda>_ t.
       let u = set_status 1 (if nolf then t\<lparr>cn_sent := cn_sent t @ [Raw secret]\<rparr> else sendline secret t) in
       and_then (expect u) (\<lambda>_.
         for_each (\<lambda>cmd v. and_then (small_uboot_run cmd v) (\<lambda>_ w. (Inr (), w))) init))"

definition small_uboot_boot :: "string \<Rightarrow> terminal \<Rightarrow> terminal" where
  "small_uboot_boot name = sendline (''bootm '' @ name)"


section \<open>Uploading an SSH key\<close>

text \<open>
  The line of a public key: its type, white space, the key, white space and a comment. The key is
  what is compared.
\<close>

definition key_char :: "char \<Rightarrow> bool" where
  "key_char c \<longleftrightarrow> is_letter c \<or> is_digit c \<or> c \<in> set ''/+=''"

definition parse_key :: "string \<Rightarrow> string option" where
  "parse_key l =
     (let r = (if startswith l ''ssh-rsa'' then Some (drop 7 l)
               else if startswith l ''ssh-ed25519'' then Some (drop 11 l) else None)
      in case r of
        None \<Rightarrow> None
      | Some s \<Rightarrow>
          (let t = dropWhile is_space s; k = takeWhile key_char t; u = dropWhile key_char t
           in if t \<noteq> s \<and> k \<noteq> [] \<and> u \<noteq> [] \<and> is_space (hd u) then Some k else None))"

definition ignore_output :: "shell_config \<Rightarrow> string \<Rightarrow> int on_console" where
  "ignore_output cfg cmd c = and_then (shell_run cfg cmd c) (\<lambda>r t. (Inr (snd r), t))"

definition require_command :: "shell_config \<Rightarrow> string \<Rightarrow> unit on_console" where
  "require_command cfg cmd c = and_then (shell_run_check cfg cmd c) (\<lambda>_ t. (Inr (), t))"

definition key_commands :: "string \<Rightarrow> string \<Rightarrow> string list" where
  "key_commands keyline dest =
     map (\<lambda>part. ''echo -n '' @ [CHR 0x22] @ part @ [CHR 0x22] @ '' >> '' @ dest) (chunks 100 keyline) @
     [''echo '' @ [CHR 0x22, CHR 0x22] @ '' >> '' @ dest]"

definition write_key :: "shell_config \<Rightarrow> string \<Rightarrow> string \<Rightarrow> unit on_console" where
  "write_key cfg keyline dest = for_each (require_command cfg) (key_commands keyline dest)"

definition authorized_keys :: string where
  "authorized_keys = ''~/.ssh/authorized_keys''"

definition append_key :: "shell_config \<Rightarrow> string \<Rightarrow> unit on_console" where
  "append_key cfg keyline c =
     and_then (write_key cfg keyline authorized_keys c) (\<lambda>_. require_command cfg ''rm ~/.test'')"

definition create_key_file :: "shell_config \<Rightarrow> string \<Rightarrow> unit on_console" where
  "create_key_file cfg keyline c =
     and_then (ignore_output cfg ''[ -d ~/.ssh/ ]'' c) (\<lambda>dir t.
       and_then (if dir \<noteq> 0 then ignore_output cfg ''mkdir ~/.ssh/'' t else (Inr 0, t)) (\<lambda>_ u.
         and_then (require_command cfg ''chmod 700 ~/.ssh/'' u) (\<lambda>_ v.
           and_then (require_command cfg (''touch '' @ authorized_keys) v) (\<lambda>_.
             append_key cfg keyline))))"

definition mount_key_file :: "shell_config \<Rightarrow> string \<Rightarrow> unit on_console" where
  "mount_key_file cfg keyline c =
     and_then (require_command cfg ''mkdir -p -m 700 /tmp/labgrid-ssh/'' c) (\<lambda>_ t.
       and_then (ignore_output cfg ''cp -aL ~/.ssh/* /tmp/labgrid-ssh/'' t) (\<lambda>_ u.
         and_then (write_key cfg keyline ''/tmp/labgrid-ssh/authorized_keys'' u) (\<lambda>_ v.
           and_then (require_command cfg ''chmod 600 /tmp/labgrid-ssh/authorized_keys'' v) (\<lambda>_ w.
             and_then (ignore_output cfg ''mount --bind /tmp/labgrid-ssh/ ~/.ssh/'' w) (\<lambda>_ x.
               (Inr (), x))))))"

definition put_ssh_key :: "shell_config \<Rightarrow> string \<Rightarrow> unit on_console" where
  "put_ssh_key cfg keyline c =
     (case parse_key keyline of
        None \<Rightarrow> (Inl (CommandFailed ''key''), c)
      | Some key \<Rightarrow>
          and_then (shell_run cfg (''cat '' @ authorized_keys) c) (\<lambda>(old, read) t.
            and_then (ignore_output cfg ''touch ~/.test'' t) (\<lambda>test u.
              if read = 0 \<and> Some key \<in> set (map parse_key old) then (Inr (), u)
              else if test = 0 \<and> read = 0 then append_key cfg keyline u
              else if test = 0 then create_key_file cfg keyline u
              else mount_key_file cfg keyline u)))"

text \<open>What the parts of a key write, put together, is the line.\<close>

definition written_text :: "string \<Rightarrow> string" where
  "written_text keyline = concat (chunks 100 keyline)"

lemma written_text_id: "written_text keyline = keyline"
  by (simp add: written_text_def concat_chunks)


section \<open>The loops end\<close>

text \<open>
  The login of the shell driver does not outlive its timeout: as soon as an answer of the console
  comes after the deadline, the loop has ended, with the prompt or with an exception.
\<close>

lemma login_ends_after_deadline:
  assumes "\<exists>a \<in> set as. an_expired a"
  shows "fst (login_loop cfg last_before did sil as out) \<noteq> Inl Silent"
  using assms
proof (induction as arbitrary: last_before did sil out)
  case Nil
  then show ?case by simp
next
  case (Cons a as)
  show ?case
  proof (cases "\<exists>b \<in> set as. an_expired b")
    case True
    from Cons.IH [OF True] show ?thesis by simp
  next
    case False
    with Cons.prems show ?thesis by simp
  qed
qed

lemma login_ends_after_deadline_witness:
  "fst (login_loop \<lparr>sh_prompt = \<lambda>_. True, sh_username = ''root'', sh_password = None\<rparr>
     [] False False [\<lparr>an_index = 3, an_before = ''x'', an_expired = True, an_lost = False\<rparr>] []) \<noteq> Inl Silent"
  by (rule login_ends_after_deadline) simp

text \<open>U-Boot looks at its deadline after a silence only: a password prompt that comes back, or a
  device that boots over and over, keeps the loop going for ever.\<close>

lemma uboot_never_times_out:
  assumes "\<forall>a \<in> set as. an_index a = 1 \<or> an_index a = 2" and "password \<noteq> []"
  shows "fst (prompt_loop False password interrupt lb entered as out) = Inl Silent"
  using assms by (induction as arbitrary: lb entered out) auto

lemma barebox_autoboot_never_times_out:
  assumes "\<forall>a \<in> set as. an_index a = 1"
  shows "fst (prompt_loop True password interrupt lb entered as out) = Inl Silent"
  using assms by (induction as arbitrary: lb entered out) auto

text \<open>Barebox gives up at the second password prompt.\<close>

lemma barebox_password_once:
  assumes "an_index a = 2" and "an_index b = 2" and "password \<noteq> []"
  shows "prompt_loop True password interrupt lb False (a # b # as) out =
    (Inl PasswordWrong, as, out @ [Line password])"
  using assms by simp

definition login_replies :: "shell_config \<Rightarrow> string \<Rightarrow> reaction list \<Rightarrow> keyed list" where
  "login_replies cfg lb as = concat (map2 (login_reply cfg) (lb # map an_before as) as)"

lemma login_replies_Cons:
  "login_replies cfg lb (a # as) = login_reply cfg lb a @ login_replies cfg (an_before a) as"
  by (simp add: login_replies_def)

lemma login_loop_returns:
  assumes "login_loop cfg lb did sil as out = (Inr d, rest, out')"
  shows "\<exists>used a. as = used @ a # rest \<and> an_index a = 0 \<and> (\<forall>b \<in> set used. \<not> an_expired b) \<and>
    out' = out @ login_replies cfg lb used \<and>
    (d \<longleftrightarrow> did \<or> (\<exists>b \<in> set used. an_index b = 1 \<or> an_index b = 4)) \<and>
    (d \<longrightarrow> sil \<or> (\<exists>b \<in> set used. an_index b = 0))"
  using assms
proof (induction cfg lb did sil as out rule: login_loop.induct)
  case (1 cfg lb did sil out)
  then show ?case by simp
next
  case (2 cfg lb did sil a as out)
  show ?case
  proof (cases "an_index a = 0 \<and> \<not> (did \<and> \<not> sil)")
    case True
    with 2(2) show ?thesis by (intro exI [of _ "[]"] exI [of _ a]) (auto simp: login_replies_def)
  next
    case False
    with 2(2) have go: "\<not> (an_index a = 2 \<and> sh_password cfg = None)" "\<not> an_expired a"
      "login_loop cfg (an_before a) (did \<or> an_index a \<in> {1, 4}) (sil \<or> an_index a = 0) as
        (out @ login_reply cfg lb a) = (Inr d, rest, out')" by (auto split: if_splits)
    from 2(1) [OF False go(1,2,3)] obtain used b where "as = used @ b # rest" "an_index b = 0"
      "\<forall>b \<in> set used. \<not> an_expired b"
      "out' = (out @ login_reply cfg lb a) @ login_replies cfg (an_before a) used"
      "d \<longleftrightarrow> (did \<or> an_index a \<in> {1, 4}) \<or> (\<exists>b \<in> set used. an_index b = 1 \<or> an_index b = 4)"
      "d \<longrightarrow> (sil \<or> an_index a = 0) \<or> (\<exists>b \<in> set used. an_index b = 0)" by blast
    with go(2) show ?thesis
      by (intro exI [of _ "a # used"] exI [of _ b]) (auto simp: login_replies_Cons)
  qed
qed


definition demo_shell :: shell_config where
  "demo_shell = \<lparr>sh_prompt = \<lambda>s. startswith s ''# '', sh_username = ''root'', sh_password = Some ''pw''\<rparr>"

definition seen_pattern :: "nat \<Rightarrow> reaction" where
  "seen_pattern i = \<lparr>an_index = i, an_before = [], an_expired = False, an_lost = False\<rparr>"

definition demo_terminal :: terminal where
  "demo_terminal = \<lparr>cn_script = map seen_pattern [1, 2, 0, 0, 0], cn_sent = [],
     cn_markers = [''ABCEFGHJKL''], cn_status = 0\<rparr>"


text \<open>A command that finds its pattern only after the deadline counts as failed.\<close>

lemma wait_for_late_success_fails:
  "list_ex (substring pattern) out \<Longrightarrow> wait_for pattern [(out, expired, True)] = Inl WaitExpired"
  by simp

end
