(* ===== verification/PyUrl.thy ===== *)
theory PyUrl
  imports PyText
begin

text \<open>
  \<open>urllib.parse\<close> as the program uses it: splitting a URL into its parts, reading user, host and
  port out of the network location, and putting the parts together again. The check of an address
  inside brackets, which newer versions of Python make, is left out.
\<close>

section \<open>Parts before and after a character\<close>

text \<open>\<open>str.partition\<close> and \<open>str.rpartition\<close> with one character, and whether it was found.\<close>

definition before :: "char \<Rightarrow> string \<Rightarrow> string" where
  "before c s = takeWhile (\<lambda>d. d \<noteq> c) s"

definition after :: "char \<Rightarrow> string \<Rightarrow> string" where
  "after c s = tl (dropWhile (\<lambda>d. d \<noteq> c) s)"

definition after_last :: "char \<Rightarrow> string \<Rightarrow> string" where
  "after_last c s = rev (takeWhile (\<lambda>d. d \<noteq> c) (rev s))"

definition before_last :: "char \<Rightarrow> string \<Rightarrow> string" where
  "before_last c s = rev (tl (dropWhile (\<lambda>d. d \<noteq> c) (rev s)))"

lemma not_in_dropWhile: "c \<notin> set s \<Longrightarrow> dropWhile (\<lambda>d. d \<noteq> c) s = []"
  by (induction s) auto

lemma not_in_takeWhile: "c \<notin> set s \<Longrightarrow> takeWhile (\<lambda>d. d \<noteq> c) s = s"
  by (induction s) auto

lemma before_simps [simp]:
  "c \<notin> set s \<Longrightarrow> before c s = s"
  "c \<notin> set s \<Longrightarrow> before c (s @ c # t) = s"
  "c \<notin> set s \<Longrightarrow> after c s = []"
  "c \<notin> set s \<Longrightarrow> after c (s @ c # t) = t"
  by (auto simp: before_def after_def not_in_dropWhile not_in_takeWhile takeWhile_append dropWhile_append)

lemma last_simps [simp]:
  "c \<notin> set s \<Longrightarrow> after_last c s = s"
  "c \<notin> set t \<Longrightarrow> after_last c (s @ c # t) = t"
  "c \<notin> set t \<Longrightarrow> before_last c (s @ c # t) = s"
  by (auto simp: before_last_def after_last_def not_in_takeWhile takeWhile_append dropWhile_append)

definition lower :: "char \<Rightarrow> char" where
  "lower c = (let n = of_char c :: nat in
     if (65 \<le> n \<and> n \<le> 90) \<or> (192 \<le> n \<and> n \<le> 222 \<and> n \<noteq> 215) then char_of (n + 32) else c)"


section \<open>Splitting\<close>

record url_parts =
  url_scheme :: string
  url_netloc :: string
  url_path :: string
  url_query :: string
  url_fragment :: string

definition scheme_char :: "char \<Rightarrow> bool" where
  "scheme_char c \<longleftrightarrow> is_letter c \<or> is_digit c \<or> c \<in> set ''+-.''"

definition control_or_space :: "char \<Rightarrow> bool" where
  "control_or_space c \<longleftrightarrow> (of_char c :: nat) \<le> 32"

definition clean_url :: "string \<Rightarrow> string" where
  "clean_url s = filter (\<lambda>c. c \<notin> {CHR 0x09, CHR 0x0A, CHR 0x0D}) (dropWhile control_or_space s)"

definition scheme_of :: "string \<Rightarrow> string \<times> string" where
  "scheme_of s =
     (let sch = before (CHR '':'') s in
      if CHR '':'' \<in> set s \<and> sch \<noteq> [] \<and> is_letter (hd sch) \<and> list_all scheme_char sch
      then (map lower sch, after (CHR '':'') s) else ([], s))"

definition netloc_char :: "char \<Rightarrow> bool" where
  "netloc_char c \<longleftrightarrow> c \<notin> set ''/?#''"

definition netloc_of :: "string \<Rightarrow> string \<times> string" where
  "netloc_of s =
     (if startswith s ''//'' then (takeWhile netloc_char (drop 2 s), dropWhile netloc_char (drop 2 s))
      else ([], s))"

text \<open>\<open>urlsplit(url)\<close>.\<close>

definition urlsplit :: "string \<Rightarrow> py_error + url_parts" where
  "urlsplit url =
     (let (sch, r) = scheme_of (clean_url url);
          (loc, t) = netloc_of r
      in if (CHR ''['' \<in> set loc) \<noteq> (CHR '']'' \<in> set loc) then Inl ValueError
         else Inr \<lparr>url_scheme = sch, url_netloc = loc,
           url_path = before (CHR ''?'') (before (CHR ''#'') t),
           url_query = after (CHR ''?'') (before (CHR ''#'') t),
           url_fragment = after (CHR ''#'') t\<rparr>)"

text \<open>
  \<open>urlparse(url)\<close>: parameters behind a semicolon in the last part of the path are split off, for
  the schemes that have them.
\<close>

definition uses_params :: "string list" where
  "uses_params =
     [[], ''ftp'', ''hdl'', ''prospero'', ''http'', ''imap'', ''https'', ''shttp'', ''rtsp'', ''rtsps'',
      ''rtspu'', ''sip'', ''sips'', ''mms'', ''sftp'', ''tel'']"

definition without_params :: "string \<Rightarrow> string" where
  "without_params p =
     (if CHR ''/'' \<in> set p
      then before_last (CHR ''/'') p @ ''/'' @ before (CHR '';'') (after_last (CHR ''/'') p)
      else before (CHR '';'') p)"

definition urlparse :: "string \<Rightarrow> py_error + url_parts" where
  "urlparse url =
     and_result (urlsplit url) (\<lambda>u.
       Inr (if url_scheme u \<in> set uses_params \<and> CHR '';'' \<in> set (url_path u)
            then u\<lparr>url_path := without_params (url_path u)\<rparr> else u))"


section \<open>User, host and port\<close>

definition host_info :: "string \<Rightarrow> string" where
  "host_info loc = after_last (CHR ''@'') loc"

definition host_and_port :: "string \<Rightarrow> string \<times> string" where
  "host_and_port loc =
     (let h = host_info loc in
      if CHR ''['' \<in> set h
      then (before (CHR '']'') (after (CHR ''['') h), after (CHR '':'') (after (CHR '']'') (after (CHR ''['') h)))
      else (before (CHR '':'') h, after (CHR '':'') h))"

definition hostname :: "url_parts \<Rightarrow> string option" where
  "hostname u =
     (let h = fst (host_and_port (url_netloc u)) in
      if h = [] then None
      else Some (map lower (takeWhile (\<lambda>c. c \<noteq> CHR ''%'') h) @ dropWhile (\<lambda>c. c \<noteq> CHR ''%'') h))"

definition port_number :: "url_parts \<Rightarrow> py_error + int option" where
  "port_number u =
     (let p = snd (host_and_port (url_netloc u)) in
      if p = [] then Inr None
      else if list_all is_digit p
        then and_result (py_int 10 p) (\<lambda>n. if n \<le> 65535 then Inr (Some n) else Inl ValueError)
        else Inl ValueError)"

definition user_info :: "url_parts \<Rightarrow> (string \<times> string option) option" where
  "user_info u =
     (let loc = url_netloc u; info = before_last (CHR ''@'') loc in
      if CHR ''@'' \<in> set loc
      then Some (before (CHR '':'') info, if CHR '':'' \<in> set info then Some (after (CHR '':'') info) else None)
      else None)"


section \<open>Putting together\<close>

definition uses_netloc :: "string list" where
  "uses_netloc =
     [[], ''ftp'', ''http'', ''gopher'', ''nntp'', ''telnet'', ''imap'', ''wais'', ''file'', ''mms'',
      ''https'', ''shttp'', ''snews'', ''prospero'', ''rtsp'', ''rtsps'', ''rtspu'', ''rsync'', ''svn'',
      ''svn+ssh'', ''sftp'', ''nfs'', ''git'', ''git+ssh'', ''ws'', ''wss'']"

definition urlunsplit :: "url_parts \<Rightarrow> string" where
  "urlunsplit u =
     (let p = url_path u; loc = url_netloc u; sch = url_scheme u;
          q = (if loc \<noteq> [] \<or> (sch \<noteq> [] \<and> sch \<in> set uses_netloc) \<or> startswith p ''//''
               then ''//'' @ loc @ (if p \<noteq> [] \<and> \<not> startswith p ''/'' then ''/'' @ p else p)
               else p);
          r = (if sch \<noteq> [] then sch @ '':'' @ q else q);
          s = (if url_query u \<noteq> [] then r @ ''?'' @ url_query u else r)
      in if url_fragment u \<noteq> [] then s @ ''#'' @ url_fragment u else s)"


section \<open>Round trip\<close>

text \<open>A network location with the parts of a well-formed URL.\<close>

definition plain_netloc :: "string \<Rightarrow> bool" where
  "plain_netloc loc \<longleftrightarrow> loc \<noteq> [] \<and> list_all netloc_char loc \<and>
     ((CHR ''['' \<in> set loc) = (CHR '']'' \<in> set loc))"

definition url_wf :: "url_parts \<Rightarrow> bool" where
  "url_wf u \<longleftrightarrow>
     url_scheme u \<noteq> [] \<and> is_letter (hd (url_scheme u)) \<and>
     list_all (\<lambda>c. scheme_char c \<and> lower c = c) (url_scheme u) \<and>
     plain_netloc (url_netloc u) \<and>
     (url_path u = [] \<or> startswith (url_path u) ''/'') \<and>
     CHR ''?'' \<notin> set (url_path u) \<and> CHR ''#'' \<notin> set (url_path u) \<and> CHR ''#'' \<notin> set (url_query u) \<and>
     list_all (\<lambda>c. c \<notin> {CHR 0x09, CHR 0x0A, CHR 0x0D})
       (url_netloc u @ url_path u @ url_query u @ url_fragment u)"

lemma scheme_char_plain: "scheme_char c \<Longrightarrow> c \<noteq> CHR '':'' \<and> c \<noteq> CHR 0x09 \<and> c \<noteq> CHR 0x0A \<and> c \<noteq> CHR 0x0D"
  by (auto simp: scheme_char_def is_letter_def is_lower_def is_digit_def less_eq_char_def)

lemma letter_not_control: "is_letter c \<Longrightarrow> \<not> control_or_space c"
  by (auto simp: control_or_space_def is_letter_def is_lower_def less_eq_char_def)

lemma netloc_of_plain:
  assumes "list_all netloc_char loc" and "r = [] \<or> \<not> netloc_char (hd r)"
  shows "netloc_of (''//'' @ loc @ r) = (loc, r)"
proof -
  have "takeWhile netloc_char (loc @ r) = loc" "dropWhile netloc_char (loc @ r) = r"
    using assms by (induction loc) (cases r, simp_all)+
  then show ?thesis by (simp add: netloc_of_def startswith_def)
qed

lemma optional_part:
  "c \<notin> set p \<Longrightarrow> before c (p @ (if f \<noteq> [] then c # f else [])) = p"
  "c \<notin> set p \<Longrightarrow> after c (p @ (if f \<noteq> [] then c # f else [])) = f"
  by simp_all

text \<open>\<open>urlsplit\<close> reads back what \<open>urlunsplit\<close> writes.\<close>

lemma urlsplit_urlunsplit:
  assumes u: "url_wf u"
  shows "urlsplit (urlunsplit u) = Inr u"
proof -
  define loc p q f where "loc = url_netloc u" and "p = url_path u" and "q = url_query u" and "f = url_fragment u"
  define t where "t = (p @ (if q \<noteq> [] then CHR ''?'' # q else [])) @ (if f \<noteq> [] then CHR ''#'' # f else [])"
  define sch where "sch = url_scheme u"
  note defs = loc_def p_def q_def f_def sch_def
  from u have wf: "sch \<noteq> []" "is_letter (hd sch)" "list_all scheme_char sch" "map lower sch = sch"
      "loc \<noteq> []" "list_all netloc_char loc" "(CHR ''['' \<in> set loc) = (CHR '']'' \<in> set loc)"
      "p = [] \<or> startswith p ''/''" "CHR ''?'' \<notin> set p" "CHR ''#'' \<notin> set p" "CHR ''#'' \<notin> set q"
    and plain: "list_all (\<lambda>c. c \<notin> {CHR 0x09, CHR 0x0A, CHR 0x0D}) (loc @ p @ q @ f)"
    unfolding url_wf_def plain_netloc_def defs by (auto simp: list_all_iff map_idI)
  have whole: "urlunsplit u = sch @ '':'' @ ''//'' @ loc @ t"
    using wf by (auto simp: urlunsplit_def t_def defs [symmetric])
  have "sch = hd sch # tl sch" using wf by simp
  then have "dropWhile control_or_space (urlunsplit u) = urlunsplit u"
    unfolding whole using letter_not_control [OF wf(2)] by (metis append_Cons dropWhile.simps(2))
  moreover have "list_all (\<lambda>c. c \<notin> {CHR 0x09, CHR 0x0A, CHR 0x0D}) sch"
    using wf(3) scheme_char_plain by (auto simp: list_all_iff)
  ultimately have clean: "clean_url (urlunsplit u) = sch @ CHR '':'' # ''//'' @ loc @ t"
    unfolding clean_url_def whole using plain by (auto simp: t_def list_all_iff intro: filter_True)
  have colon: "CHR '':'' \<notin> set sch" using wf(3) scheme_char_plain by (auto simp: list_all_iff)
  have sch: "scheme_of (sch @ CHR '':'' # ''//'' @ loc @ t) = (sch, ''//'' @ loc @ t)"
    using wf colon by (simp add: scheme_of_def Let_def)
  have "t = [] \<or> \<not> netloc_char (hd t)"
    using wf(8) by (auto simp: t_def netloc_char_def startswith_single)
  then have loc: "netloc_of (''//'' @ loc @ t) = (loc, t)" by (rule netloc_of_plain [OF wf(6)])
  have nf: "CHR ''#'' \<notin> set (p @ (if q \<noteq> [] then CHR ''?'' # q else []))" using wf by simp
  have "before (CHR ''#'') t = p @ (if q \<noteq> [] then CHR ''?'' # q else [])" "after (CHR ''#'') t = f"
    unfolding t_def by (rule optional_part [OF nf])+
  moreover have "before (CHR ''?'') (p @ (if q \<noteq> [] then CHR ''?'' # q else [])) = p"
    "after (CHR ''?'') (p @ (if q \<noteq> [] then CHR ''?'' # q else [])) = q"
    by (rule optional_part [OF wf(9)])+
  ultimately have "urlsplit (urlunsplit u) = Inr \<lparr>url_scheme = sch, url_netloc = loc, url_path = p, url_query = q,
      url_fragment = f\<rparr>"
    using wf(7) by (simp only: urlsplit_def clean sch loc Let_def split_conv simp_thms if_False)
  then show ?thesis by (simp add: defs)
qed

end
