(* ===== verification/Ssh.thy ===== *)
theory Ssh
  imports PyUrl
begin

text \<open>
  \<^verbatim>\<open>labgrid/util/ssh.py\<close>: connections to other hosts behind a control socket, their port
  forwardings, and the manager that shares them. The programs that are started (ssh, scp, rsync)
  are outside: an environment answers each command, given everything that happened before.
\<close>

section \<open>Processes\<close>

datatype reply = Exited int string string | Expired | Unstartable

datatype event = Ran "string list" reply | Polled nat | PortAsked | Spawned "string list" | Slept real

record ssh_env =
  answer :: "event list \<Rightarrow> string list \<Rightarrow> reply"
  spawnable :: "event list \<Rightarrow> string list \<Rightarrow> bool"
  running :: "event list \<Rightarrow> nat \<Rightarrow> bool"
  ends_in_time :: "event list \<Rightarrow> bool"
  port_free :: "event list \<Rightarrow> int"
  path_exists :: "event list \<Rightarrow> string \<Rightarrow> bool"
  temporary :: "event list \<Rightarrow> string"
  connect_timeout_var :: "string option"
  clock :: "event list \<Rightarrow> real"

datatype ssh_error =
    SshPy py_error | SshExecution | SshForward | SshCalled int | SshExpired | SshOs

record conn =
  c_host :: string
  c_connected :: bool
  c_tmpdir :: string
  c_tmp_there :: bool
  c_lforwards :: "(string, int) dict"
  c_rforwards :: "string list"
  c_socket :: "string option"
  c_master :: bool
  c_keepalive :: "nat option"

type_synonym 'a conn_outcome = "(ssh_error, 'a, conn \<times> event list) outcome"

text \<open>\<open>SSHConnection(host)\<close>.\<close>

definition new_conn :: "string \<Rightarrow> string \<Rightarrow> conn" where
  "new_conn host tmpdir = \<lparr>c_host = host, c_connected = False, c_tmpdir = tmpdir, c_tmp_there = True,
     c_lforwards = [], c_rforwards = [], c_socket = None, c_master = False, c_keepalive = None\<rparr>"

text \<open>Running a program to its end; \<open>check_call\<close> also raises for an exit status other than 0.\<close>

definition execute :: "ssh_env \<Rightarrow> string list \<Rightarrow> conn \<times> event list \<Rightarrow> reply conn_outcome" where
  "execute env cmd s = (let a = answer env (snd s) cmd in
     (case a of Unstartable \<Rightarrow> Inl SshOs | _ \<Rightarrow> Inr a, fst s, snd s @ [Ran cmd a]))"

definition check_call :: "ssh_env \<Rightarrow> string list \<Rightarrow> conn \<times> event list \<Rightarrow> unit conn_outcome" where
  "check_call env cmd s = and_then (execute env cmd s) (\<lambda>a s.
     (case a of
        Exited n out err \<Rightarrow> if n = 0 then Inr () else Inl (SshCalled n)
      | Expired \<Rightarrow> Inl SshExpired
      | Unstartable \<Rightarrow> Inl SshOs, s))"

section \<open>Command lines\<close>

definition ssh_base_args :: "string list" where
  "ssh_base_args = [''-x'', ''-o'', ''LogLevel=ERROR'', ''-o'', ''PasswordAuthentication=no'']"

definition ssh_control_args :: "conn \<Rightarrow> string list" where
  "ssh_control_args c =
     (if truthy (c_socket c)
      then [''-o'', ''ControlMaster=no'', ''-o'', ''ControlPath='' @ the (c_socket c)] else [])"

definition ssh_args :: "conn \<Rightarrow> string list" where
  "ssh_args c = ssh_base_args @ ssh_control_args c"

definition socket_line :: "conn \<Rightarrow> string \<Rightarrow> string list \<Rightarrow> string list" where
  "socket_line c command fwd = ''ssh'' # ssh_args c @ [''-O'', command] @ fwd @ [c_host c]"

definition run_socket_command ::
  "ssh_env \<Rightarrow> string \<Rightarrow> string list \<Rightarrow> conn \<times> event list \<Rightarrow> unit conn_outcome" where
  "run_socket_command env command fwd s = check_call env (socket_line (fst s) command fwd) s"

definition local_forward :: "int \<Rightarrow> string \<Rightarrow> string" where
  "local_forward port dest = ''-L'' @ show_int port @ '':'' @ dest"

definition remote_forward :: "string option \<Rightarrow> int \<Rightarrow> int \<Rightarrow> string" where
  "remote_forward bind remote_port local_port =
     ''-R'' @ (case bind of None \<Rightarrow> ''*'' | Some b \<Rightarrow> b) @ '':'' @ show_int remote_port @ '':localhost:'' @
     show_int local_port"

text \<open>The port of a destination is only written down, so it is a text.\<close>

definition destination :: "string \<Rightarrow> string \<Rightarrow> string" where
  "destination host port = host @ '':'' @ port"


section \<open>Connecting\<close>

definition check_keepalive :: "ssh_env \<Rightarrow> conn \<times> event list \<Rightarrow> bool conn_outcome" where
  "check_keepalive env s =
     (case c_keepalive (fst s) of
        None \<Rightarrow> (Inl (SshPy AttributeError), s)
      | Some k \<Rightarrow> (Inr (running env (snd s) k), fst s, snd s @ [Polled k]))"

definition isconnected :: "ssh_env \<Rightarrow> conn \<times> event list \<Rightarrow> bool conn_outcome" where
  "isconnected env s = (if c_connected (fst s) then check_keepalive env s else (Inr False, s))"

text \<open>The decorator \<open>_check_connected\<close>.\<close>

definition check_connected ::
  "ssh_env \<Rightarrow> (conn \<times> event list \<Rightarrow> 'a conn_outcome) \<Rightarrow> conn \<times> event list \<Rightarrow> 'a conn_outcome" where
  "check_connected env f s = and_then (isconnected env s) (\<lambda>b s. if b then f s else (Inl SshExecution, s))"

definition check_external_master :: "ssh_env \<Rightarrow> conn \<times> event list \<Rightarrow> bool conn_outcome" where
  "check_external_master env s = and_then (execute env [''ssh'', ''-O'', ''check'', c_host (fst s)] s) (\<lambda>a s.
     (case a of Exited n _ _ \<Rightarrow> Inr (n = 0) | _ \<Rightarrow> Inl SshExpired, s))"

definition ssh_connect_timeout :: "ssh_env \<Rightarrow> ssh_error + int" where
  "ssh_connect_timeout env =
     (case connect_timeout_var env of
        None \<Rightarrow> Inr 30
      | Some t \<Rightarrow> (case py_int 10 t of Inl e \<Rightarrow> Inl (SshPy e) | Inr n \<Rightarrow> Inr n))"

definition master_line :: "conn \<Rightarrow> string \<Rightarrow> int \<Rightarrow> string list" where
  "master_line c control timeout =
     ''ssh'' # ssh_base_args @
       [''-n'', ''-MN'', ''-o'', ''ConnectTimeout='' @ show_int timeout, ''-o'', ''ControlPersist=300'',
        ''-o'', ''ControlMaster=yes'', ''-o'', ''ControlPath='' @ control, ''-o'', ''StrictHostKeyChecking=yes'',
        c_host c]"

definition start_own_master :: "ssh_env \<Rightarrow> conn \<times> event list \<Rightarrow> unit conn_outcome" where
  "start_own_master env s =
     (let c = fst s; control = path_join (c_tmpdir c) (''control-'' @ c_host c) in
      case ssh_connect_timeout env of
        Inl e \<Rightarrow> (Inl e, s)
      | Inr timeout \<Rightarrow>
          if c_master c then (Inl (SshPy AssertionError), s)
          else and_then (execute env (master_line c control timeout) s) (\<lambda>a (c, h).
            (let c = c\<lparr>c_master := True\<rparr> in
             case a of
               Exited n _ _ \<Rightarrow>
                 if n \<noteq> 0 then (Inl SshExecution, c, h)
                 else if \<not> path_exists env h control then (Inl SshExecution, c, h)
                 else (Inr (), c\<lparr>c_socket := Some control\<rparr>, h)
             | _ \<Rightarrow> (Inl SshExecution, c, h))))"

definition keepalive_line :: "conn \<Rightarrow> string list" where
  "keepalive_line c = ''ssh'' # ssh_args c @ [c_host c, ''cat'']"

definition start_keepalive :: "ssh_env \<Rightarrow> conn \<times> event list \<Rightarrow> unit conn_outcome" where
  "start_keepalive env s =
     (let (c, h) = s in
      if c_keepalive c \<noteq> None then (Inl (SshPy AssertionError), s)
      else if spawnable env h (keepalive_line c)
        then (Inr (), c\<lparr>c_keepalive := Some (length h)\<rparr>, h @ [Spawned (keepalive_line c)])
        else (Inl SshOs, s))"

definition open_connection :: "ssh_env \<Rightarrow> conn \<times> event list \<Rightarrow> unit conn_outcome" where
  "open_connection env s =
     and_then (check_external_master env s) (\<lambda>found s.
     and_then (if found then (Inr (), s) else start_own_master env s) (\<lambda>_ s.
     and_then (start_keepalive env s) (\<lambda>_ (c, h). (Inr (), c\<lparr>c_connected := True\<rparr>, h))))"

definition conn_connect :: "ssh_env \<Rightarrow> conn \<times> event list \<Rightarrow> unit conn_outcome" where
  "conn_connect env s = (if c_connected (fst s) then (Inr (), s) else open_connection env s)"


section \<open>Disconnecting\<close>

definition stop_keepalive :: "conn \<times> event list \<Rightarrow> unit conn_outcome" where
  "stop_keepalive s =
     (if c_keepalive (fst s) = None then (Inl (SshPy AssertionError), s)
      else (Inr (), (fst s)\<lparr>c_keepalive := None\<rparr>, snd s))"

definition forget_master :: "conn \<times> event list \<Rightarrow> conn \<times> event list" where
  "forget_master s = ((fst s)\<lparr>c_socket := None, c_master := False\<rparr>, snd s)"

definition stop_own_master :: "ssh_env \<Rightarrow> conn \<times> event list \<Rightarrow> unit conn_outcome" where
  "stop_own_master env s =
     (if c_socket (fst s) = None \<or> \<not> c_master (fst s) then (Inl (SshPy AssertionError), s)
      else apsnd forget_master
        (and_then (run_socket_command env ''cancel'' [] s) (\<lambda>_ s.
         and_then (run_socket_command env ''exit'' [] s) (\<lambda>_ s.
           (if ends_in_time env (snd s) then Inr () else Inl SshExpired, s)))))"

definition mark_disconnected :: "conn \<times> event list \<Rightarrow> conn \<times> event list" where
  "mark_disconnected s = ((fst s)\<lparr>c_connected := False\<rparr>, snd s)"

definition conn_disconnect :: "ssh_env \<Rightarrow> conn \<times> event list \<Rightarrow> unit conn_outcome" where
  "conn_disconnect env = check_connected env (\<lambda>s.
     if \<not> c_connected (fst s) then (Inl (SshPy AssertionError), s)
     else apsnd mark_disconnected
       (and_then (stop_keepalive s) (\<lambda>_ s.
          if truthy (c_socket (fst s)) then stop_own_master env s else (Inr (), s))))"


section \<open>Commands and files\<close>

definition conn_get_prefix :: "ssh_env \<Rightarrow> conn \<times> event list \<Rightarrow> string list conn_outcome" where
  "conn_get_prefix env = check_connected env (\<lambda>s. (Inr (''ssh'' # ssh_args (fst s) @ [c_host (fst s)]), s))"

text \<open>The lines of a text, where a newline ends a line.\<close>

definition lines_of :: "string \<Rightarrow> string list" where
  "lines_of s = (let p = split_on (CHR 0x0A) s in if last p = [] then butlast p else p)"

definition conn_run ::
  "ssh_env \<Rightarrow> string \<Rightarrow> bool \<Rightarrow> bool \<Rightarrow> conn \<times> event list \<Rightarrow> (string list \<times> string list \<times> int) conn_outcome"
where
  "conn_run env command force_tty stderr_merge = check_connected env (\<lambda>s.
     let cmd = ''ssh'' # ssh_args (fst s) @ (if force_tty then [''-tt''] else []) @ [c_host (fst s), command];
         a = answer env (snd s) cmd in
     (case a of
        Exited n out err \<Rightarrow> Inr (lines_of out, if stderr_merge then [] else lines_of err, n)
      | _ \<Rightarrow> Inl SshExecution, fst s, snd s @ [Ran cmd a]))"

definition conn_run_check ::
  "ssh_env \<Rightarrow> string \<Rightarrow> bool \<Rightarrow> bool \<Rightarrow> conn \<times> event list \<Rightarrow> string list conn_outcome" where
  "conn_run_check env command force_tty stderr_merge s =
     and_then (conn_run env command force_tty stderr_merge s) (\<lambda>(out, err, n) s.
       (if n \<noteq> 0 then Inl SshExecution else Inr out, s))"

definition conn_get_file ::
  "ssh_env \<Rightarrow> string \<Rightarrow> string \<Rightarrow> conn \<times> event list \<Rightarrow> unit conn_outcome" where
  "conn_get_file env remote_file local_file = check_connected env (\<lambda>s.
     check_call env (''scp'' # ssh_control_args (fst s) @ [c_host (fst s) @ '':'' @ remote_file, local_file]) s)"

definition conn_put_file ::
  "ssh_env \<Rightarrow> string \<Rightarrow> string \<Rightarrow> conn \<times> event list \<Rightarrow> unit conn_outcome" where
  "conn_put_file env local_file remote_path = check_connected env (\<lambda>s.
     check_call env ([''rsync'', ''--compress'', ''--sparse'', ''--copy-links'', ''--verbose'', ''--progress'',
         ''--times'', ''-e'', join_with '' '' (''ssh'' # ssh_args (fst s)),
         local_file, c_host (fst s) @ '':'' @ remote_path]) s)"


section \<open>Port forwardings\<close>

definition add_port_forward ::
  "ssh_env \<Rightarrow> string \<Rightarrow> string \<Rightarrow> int option \<Rightarrow> conn \<times> event list \<Rightarrow> int conn_outcome" where
  "add_port_forward env remote_host remote_port local_port = check_connected env (\<lambda>(c, h).
     let (p, h) = (case local_port of None \<Rightarrow> (port_free env h, h @ [PortAsked]) | Some p \<Rightarrow> (p, h));
         dest = destination remote_host remote_port in
     case map_of (c_lforwards c) dest of
       Some q \<Rightarrow> (Inr q, c, h)
     | None \<Rightarrow>
         and_then (run_socket_command env ''forward'' [local_forward p dest] (c, h)) (\<lambda>_ (c, h).
           (Inr p, c\<lparr>c_lforwards := AList.update dest p (c_lforwards c)\<rparr>, h)))"

definition remove_port_forward ::
  "ssh_env \<Rightarrow> string \<Rightarrow> string \<Rightarrow> conn \<times> event list \<Rightarrow> unit conn_outcome" where
  "remove_port_forward env remote_host remote_port = check_connected env (\<lambda>(c, h).
     let dest = destination remote_host remote_port in
     case map_of (c_lforwards c) dest of
       None \<Rightarrow> (Inl SshForward, c, h)
     | Some p \<Rightarrow> run_socket_command env ''cancel'' [local_forward p dest]
         (c\<lparr>c_lforwards := AList.delete dest (c_lforwards c)\<rparr>, h))"

definition add_remote_port_forward ::
  "ssh_env \<Rightarrow> int \<Rightarrow> int \<Rightarrow> string option \<Rightarrow> conn \<times> event list \<Rightarrow> unit conn_outcome" where
  "add_remote_port_forward env remote_port local_port bind = check_connected env (\<lambda>s.
     let f = remote_forward bind remote_port local_port in
     and_then (run_socket_command env ''forward'' [f] s) (\<lambda>_ (c, h).
       (Inr (), c\<lparr>c_rforwards := List.insert f (c_rforwards c)\<rparr>, h)))"

definition remove_remote_port_forward ::
  "ssh_env \<Rightarrow> int \<Rightarrow> int \<Rightarrow> string option \<Rightarrow> conn \<times> event list \<Rightarrow> unit conn_outcome" where
  "remove_remote_port_forward env remote_port local_port bind = check_connected env (\<lambda>(c, h).
     let f = remote_forward bind remote_port local_port in
     if f \<in> set (c_rforwards c)
     then run_socket_command env ''cancel'' [f] (c\<lparr>c_rforwards := remove1 f (c_rforwards c)\<rparr>, h)
     else (Inl (SshPy KeyError), c, h))"

definition conn_cleanup :: "ssh_env \<Rightarrow> conn \<times> event list \<Rightarrow> unit conn_outcome" where
  "conn_cleanup env s =
     and_then (and_then (isconnected env s) (\<lambda>b s.
       if \<not> b then (Inr (), s)
       else
         and_then (for_each (\<lambda>(dest, p). run_socket_command env ''cancel'' [local_forward p dest])
           (c_lforwards (fst s)) s) (\<lambda>_ (c, h).
         and_then (for_each (\<lambda>f. run_socket_command env ''cancel'' [f]) (c_rforwards c)
           (c\<lparr>c_lforwards := []\<rparr>, h)) (\<lambda>_ (c, h).
         conn_disconnect env (c\<lparr>c_rforwards := []\<rparr>, h)))))
       (\<lambda>_ (c, h). if c_tmp_there c then (Inr (), c\<lparr>c_tmp_there := False\<rparr>, h) else (Inl SshOs, c, h))"


section \<open>The manager\<close>

type_synonym manager = "(string, conn) dict \<times> event list"

type_synonym 'a manager_outcome = "(ssh_error, 'a, manager) outcome"

definition manager_get :: "ssh_env \<Rightarrow> string \<Rightarrow> manager \<Rightarrow> unit manager_outcome" where
  "manager_get env host m =
     (case map_of (fst m) host of
        Some c \<Rightarrow> (Inr (), m)
      | None \<Rightarrow> (case conn_connect env (new_conn host (temporary env (snd m)), snd m) of
          (Inl e, c, h) \<Rightarrow> (Inl e, fst m, h)
        | (Inr u, c, h) \<Rightarrow> (Inr u, AList.update host c (fst m), h)))"

text \<open>An operation on the connection that the manager holds for a host.\<close>

definition on_connection ::
  "string \<Rightarrow> (conn \<times> event list \<Rightarrow> 'a conn_outcome) \<Rightarrow> manager \<Rightarrow> 'a manager_outcome" where
  "on_connection host f m =
     (case map_of (fst m) host of
        None \<Rightarrow> (Inl (SshPy KeyError), m)
      | Some c \<Rightarrow> (case f (c, snd m) of (r, c, h) \<Rightarrow> (r, AList.update host c (fst m), h)))"

definition with_connection ::
  "ssh_env \<Rightarrow> string \<Rightarrow> (conn \<times> event list \<Rightarrow> 'a conn_outcome) \<Rightarrow> manager \<Rightarrow> 'a manager_outcome" where
  "with_connection env host f m = and_then (manager_get env host m) (\<lambda>_. on_connection host f)"

definition add_connection :: "conn \<Rightarrow> manager \<Rightarrow> unit manager_outcome" where
  "add_connection c m =
     (Inr (), if map_of (fst m) (c_host c) = None then AList.update (c_host c) c (fst m) else fst m, snd m)"

definition remove_by_name :: "string \<Rightarrow> manager \<Rightarrow> unit manager_outcome" where
  "remove_by_name host m =
     (if map_of (fst m) host = None then (Inl (SshPy KeyError), m)
      else (Inr (), AList.delete host (fst m), snd m))"

definition remove_connection :: "ssh_env \<Rightarrow> string \<Rightarrow> manager \<Rightarrow> unit manager_outcome" where
  "remove_connection env host m =
     and_then (on_connection host (isconnected env) m) (\<lambda>b m.
       if b then (Inl SshExecution, m) else remove_by_name host m)"

definition manager_close :: "ssh_env \<Rightarrow> string \<Rightarrow> manager \<Rightarrow> unit manager_outcome" where
  "manager_close env host m =
     and_then (with_connection env host (conn_disconnect env) m) (\<lambda>_. remove_connection env host)"

definition request_forward :: "ssh_env \<Rightarrow> string \<Rightarrow> string \<Rightarrow> string \<Rightarrow> manager \<Rightarrow> int manager_outcome" where
  "request_forward env host dest port = with_connection env host (add_port_forward env dest port None)"

definition remove_forward :: "ssh_env \<Rightarrow> string \<Rightarrow> string \<Rightarrow> string \<Rightarrow> manager \<Rightarrow> unit manager_outcome" where
  "remove_forward env host dest port = with_connection env host (remove_port_forward env dest port)"

definition manager_put_file ::
  "ssh_env \<Rightarrow> string \<Rightarrow> string \<Rightarrow> string \<Rightarrow> manager \<Rightarrow> unit manager_outcome" where
  "manager_put_file env host local_file remote_file =
     with_connection env host (conn_put_file env local_file remote_file)"

definition manager_get_file ::
  "ssh_env \<Rightarrow> string \<Rightarrow> string \<Rightarrow> string \<Rightarrow> manager \<Rightarrow> unit manager_outcome" where
  "manager_get_file env host remote_file local_file =
     with_connection env host (conn_get_file env remote_file local_file)"

definition close_all :: "ssh_env \<Rightarrow> manager \<Rightarrow> unit manager_outcome" where
  "close_all env m =
     and_then (for_each (\<lambda>host m.
         and_then (on_connection host (isconnected env) m) (\<lambda>b m.
           if b then on_connection host (conn_disconnect env) m else (Inr (), m))) (keys (fst m)) m)
       (\<lambda>_ m. for_each remove_by_name (keys (fst m)) m)"

end
