(* ===== verification/SshProps.thy ===== *)
theory SshProps
  imports Ssh
begin

text \<open>
  What the connections of \<open>Ssh\<close> promise: the forwardings they remember are open at the master,
  asking again for a forwarding gives the port it has, cleaning up closes them all, and a connection
  whose keepalive has died refuses everything.
\<close>

section \<open>The forwardings at the master\<close>

text \<open>
  What the commands sent so far mean for the master of a host: it opens and cancels forwardings
  when asked to, and forgets them when it exits.
\<close>

fun asked :: "string \<Rightarrow> string list \<Rightarrow> string list \<Rightarrow> string list" where
  "asked host [opt, c, f, h] fs =
     (if h \<noteq> host then fs
      else if c = ''forward'' then List.insert f fs
      else if c = ''cancel'' then removeAll f fs else fs)"
| "asked host [opt, c, h] fs = (if h = host \<and> c = ''exit'' then [] else fs)"
| "asked host _ fs = fs"

definition order_of :: "string list \<Rightarrow> string list" where
  "order_of cmd = dropWhile (\<lambda>a. a \<noteq> ''-O'') cmd"

fun effect :: "string \<Rightarrow> event \<Rightarrow> string list \<Rightarrow> string list" where
  "effect host (Ran cmd (Exited n out err)) fs = (if n = 0 then asked host (order_of cmd) fs else fs)"
| "effect host _ fs = fs"

definition open_forwards :: "string \<Rightarrow> event list \<Rightarrow> string list" where
  "open_forwards host h = fold (effect host) h []"

lemma open_forwards_snoc [simp]: "open_forwards host (h @ [e]) = effect host e (open_forwards host h)"
  by (simp add: open_forwards_def)

lemma order_of_ssh: "order_of (''ssh'' # ssh_args c @ r) = order_of r"
  by (simp add: order_of_def ssh_args_def ssh_base_args_def ssh_control_args_def)

lemma order_of_scp: "order_of (''scp'' # ssh_control_args c @ r) = order_of r"
  by (simp add: order_of_def ssh_control_args_def)

lemma asked_short: "length r \<le> 2 \<Longrightarrow> asked host r fs = fs"
  by (induction host r fs rule: asked.induct) simp_all

lemma length_order_of: "length (order_of r) \<le> length r"
  by (simp add: order_of_def length_dropWhile_le)

lemma effect_no_order: "length (order_of cmd) \<le> 2 \<Longrightarrow> effect host (Ran cmd a) fs = fs"
  by (cases a) (simp_all add: asked_short)

lemma order_of_socket_line [simp]:
  "order_of (socket_line c command fwd) = ''-O'' # command # fwd @ [c_host c]"
  unfolding socket_line_def order_of_ssh by (simp add: order_of_def)

lemma local_forward_eq [simp]: "local_forward p d = local_forward q e \<longleftrightarrow> p = q \<and> d = e"
  by (auto simp: local_forward_def number_char_def)

lemma local_not_remote [simp]: "local_forward p d \<noteq> remote_forward b r l"
  by (simp add: local_forward_def remote_forward_def)


section \<open>The invariant of a connection\<close>

definition forwards_open :: "conn \<times> event list \<Rightarrow> bool" where
  "forwards_open s \<longleftrightarrow>
     (case s of (c, h) \<Rightarrow>
        (\<forall>(d, p) \<in> set (c_lforwards c). local_forward p d \<in> set (open_forwards (c_host c) h)) \<and>
        set (c_rforwards c) \<subseteq> set (open_forwards (c_host c) h))"

definition remote_texts :: "conn \<Rightarrow> bool" where
  "remote_texts c \<longleftrightarrow> (\<forall>f \<in> set (c_rforwards c). \<exists>b r l. f = remote_forward b r l)"

definition conn_inv :: "conn \<times> event list \<Rightarrow> bool" where
  "conn_inv s \<longleftrightarrow>
     dict_wf (c_lforwards (fst s)) \<and> distinct (c_rforwards (fst s)) \<and> remote_texts (fst s) \<and>
     (c_connected (fst s) \<longrightarrow> c_keepalive (fst s) \<noteq> None \<and> forwards_open s)"

text \<open>The events in between that do not concern the master.\<close>

lemma forwards_open_event:
  "effect (c_host c) e (open_forwards (c_host c) h) = open_forwards (c_host c) h \<Longrightarrow>
   forwards_open (c, h @ [e]) = forwards_open (c, h)"
  by (simp add: forwards_open_def)

lemma inv_event:
  "effect (c_host c) e (open_forwards (c_host c) h) = open_forwards (c_host c) h \<Longrightarrow>
   conn_inv (c, h @ [e]) = conn_inv (c, h)"
  by (simp add: conn_inv_def forwards_open_event)

lemma inv_polled [simp]: "conn_inv (c, h @ [Polled k]) = conn_inv (c, h)"
  by (rule inv_event) simp

lemma inv_asked [simp]: "conn_inv (c, h @ [PortAsked]) = conn_inv (c, h)"
  by (rule inv_event) simp

lemma isconnected_keeps: "conn_inv s \<Longrightarrow> conn_inv (snd (isconnected env s))"
  by (cases s) (auto simp: isconnected_def check_keepalive_def split: option.splits)

lemma isconnected_True: "isconnected env s = (Inr True, t) \<Longrightarrow> fst t = fst s \<and> c_connected (fst s)"
  by (auto simp: isconnected_def check_keepalive_def split: if_splits option.splits)

text \<open>An operation behind \<open>_check_connected\<close> keeps what it keeps on a live connection.\<close>

lemma check_connected_keeps:
  assumes "conn_inv s" and "\<And>t. c_connected (fst t) \<Longrightarrow> conn_inv t \<Longrightarrow> conn_inv (snd (f t))"
  shows "conn_inv (snd (check_connected env f s))"
  unfolding check_connected_def
proof (rule and_then_keeps)
  show "conn_inv (snd (isconnected env s))" by (rule isconnected_keeps [OF assms(1)])
  fix b t
  assume live: "isconnected env s = (Inr b, t)" and "conn_inv t"
  moreover have "c_connected (fst t)" if b using isconnected_True [of env s t] live that by simp
  ultimately show "conn_inv (snd (if b then f t else (Inl SshExecution, t)))" using assms(2) by simp
qed

text \<open>A command to the master.\<close>

lemma check_call_event:
  obtains a where "snd (check_call env cmd s) = (fst s, snd s @ [Ran cmd a])"
    and "fst (check_call env cmd s) = Inr () \<longleftrightarrow> (\<exists>out err. a = Exited 0 out err)"
    and "a = Unstartable \<or> a = Expired \<or> (\<exists>n out err. a = Exited n out err)"
proof
  show "snd (check_call env cmd s) = (fst s, snd s @ [Ran cmd (answer env (snd s) cmd)])"
    by (auto simp: check_call_def execute_def Let_def split: reply.splits)
  show "fst (check_call env cmd s) = Inr () \<longleftrightarrow> (\<exists>out err. answer env (snd s) cmd = Exited 0 out err)"
    by (auto simp: check_call_def execute_def Let_def split: reply.splits)
  show "answer env (snd s) cmd = Unstartable \<or> answer env (snd s) cmd = Expired \<or>
      (\<exists>n out err. answer env (snd s) cmd = Exited n out err)"
    by (cases "answer env (snd s) cmd") auto
qed

lemma socket_command_effect:
  assumes "run_socket_command env command [f] (c, h) = (r, t)"
  obtains h' where "t = (c, h')"
    and "open_forwards (c_host c) h' =
      (if r = Inr () then
         if command = ''forward'' then List.insert f (open_forwards (c_host c) h)
         else if command = ''cancel'' then removeAll f (open_forwards (c_host c) h)
         else open_forwards (c_host c) h
       else open_forwards (c_host c) h)"
proof -
  obtain a where a: "snd (check_call env (socket_line c command [f]) (c, h)) =
        (c, h @ [Ran (socket_line c command [f]) a])"
      "fst (check_call env (socket_line c command [f]) (c, h)) = Inr () \<longleftrightarrow> (\<exists>out err. a = Exited 0 out err)"
      "a = Unstartable \<or> a = Expired \<or> (\<exists>n out err. a = Exited n out err)"
    using check_call_event [of env "socket_line c command [f]" "(c, h)"] by auto
  from assms have r: "r = fst (check_call env (socket_line c command [f]) (c, h))"
    and t: "t = snd (check_call env (socket_line c command [f]) (c, h))"
    by (simp_all add: run_socket_command_def)
  show ?thesis
  proof
    show "t = (c, h @ [Ran (socket_line c command [f]) a])" using t a(1) by simp
    show "open_forwards (c_host c) (h @ [Ran (socket_line c command [f]) a]) =
      (if r = Inr () then
         if command = ''forward'' then List.insert f (open_forwards (c_host c) h)
         else if command = ''cancel'' then removeAll f (open_forwards (c_host c) h)
         else open_forwards (c_host c) h
       else open_forwards (c_host c) h)"
      using a(2,3) r by auto
  qed
qed


lemma run_socket_command_cases:
  obtains h' where "run_socket_command env command [f] (c, h) = (Inr (), c, h')"
      "open_forwards (c_host c) h' =
        (if command = ''forward'' then List.insert f (open_forwards (c_host c) h)
         else if command = ''cancel'' then removeAll f (open_forwards (c_host c) h)
         else open_forwards (c_host c) h)"
  | h' e where "run_socket_command env command [f] (c, h) = (Inl e, c, h')"
      "open_forwards (c_host c) h' = open_forwards (c_host c) h"
proof -
  obtain r t where rt: "run_socket_command env command [f] (c, h) = (r, t)"
    by (cases "run_socket_command env command [f] (c, h)")
  from socket_command_effect [OF rt] obtain h' where "t = (c, h')"
    "open_forwards (c_host c) h' =
      (if r = Inr () then
         if command = ''forward'' then List.insert f (open_forwards (c_host c) h)
         else if command = ''cancel'' then removeAll f (open_forwards (c_host c) h)
         else open_forwards (c_host c) h
       else open_forwards (c_host c) h)" by blast
  with rt that show ?thesis by (cases r) auto
qed

lemma conn_inv_live:
  "c_connected c \<Longrightarrow> conn_inv (c, h) \<longleftrightarrow>
     dict_wf (c_lforwards c) \<and> distinct (c_rforwards c) \<and> remote_texts c \<and> c_keepalive c \<noteq> None \<and>
     (\<forall>d p. (d, p) \<in> set (c_lforwards c) \<longrightarrow> local_forward p d \<in> set (open_forwards (c_host c) h)) \<and>
     set (c_rforwards c) \<subseteq> set (open_forwards (c_host c) h)"
  by (auto simp: conn_inv_def forwards_open_def)


section \<open>Every operation keeps it\<close>

lemma check_call_keeps:
  assumes "conn_inv s" and "length (order_of cmd) \<le> 2"
  shows "conn_inv (snd (check_call env cmd s))"
proof -
  obtain a where "snd (check_call env cmd s) = (fst s, snd s @ [Ran cmd a])"
    using check_call_event by blast
  with assms show ?thesis by (cases s) (simp add: inv_event effect_no_order)
qed

lemma add_port_forward_keeps:
  assumes "conn_inv s"
  shows "conn_inv (snd (add_port_forward env host port lp s))"
  unfolding add_port_forward_def
proof (rule check_connected_keeps [OF assms], clarify)
  fix c h
  assume c: "c_connected (fst (c, h))" and inv: "conn_inv (c, h)"
  obtain p h1 where p: "(case lp of None \<Rightarrow> (port_free env h, h @ [PortAsked]) | Some p \<Rightarrow> (p, h)) = (p, h1)"
    by fastforce
  have inv1: "conn_inv (c, h1)" using p inv by (auto split: option.splits)
  let ?dest = "destination host port"
  show "conn_inv (snd (let (p, h) = (case lp of None \<Rightarrow> (port_free env h, h @ [PortAsked]) | Some p \<Rightarrow> (p, h));
         dest = ?dest in
     case map_of (c_lforwards c) dest of
       Some q \<Rightarrow> (Inr q, c, h)
     | None \<Rightarrow>
         and_then (run_socket_command env ''forward'' [local_forward p dest] (c, h)) (\<lambda>_ (c, h).
           (Inr p, c\<lparr>c_lforwards := AList.update dest p (c_lforwards c)\<rparr>, h))))"
  proof (cases "map_of (c_lforwards c) ?dest")
    case None
    then have absent: "?dest \<notin> fst ` set (c_lforwards c)" by (simp add: map_of_eq_None_iff)
    show ?thesis
      unfolding p Let_def split_conv None option.case
      by (rule run_socket_command_cases [of env "''forward''" "local_forward p ?dest" c h1])
        (use inv1 c absent in \<open>auto simp: conn_inv_live update_absent remote_texts_def\<close>)
  next
    case (Some q)
    then show ?thesis using inv1 unfolding p Let_def by simp
  qed
qed

lemma remove_port_forward_keeps:
  assumes "conn_inv s"
  shows "conn_inv (snd (remove_port_forward env host port s))"
  unfolding remove_port_forward_def
proof (rule check_connected_keeps [OF assms], clarify)
  fix c h
  assume c: "c_connected (fst (c, h))" and inv: "conn_inv (c, h)"
  let ?dest = "destination host port"
  show "conn_inv (snd (let dest = ?dest in
     case map_of (c_lforwards c) dest of
       None \<Rightarrow> (Inl SshForward, c, h)
     | Some p \<Rightarrow> run_socket_command env ''cancel'' [local_forward p dest]
         (c\<lparr>c_lforwards := AList.delete dest (c_lforwards c)\<rparr>, h)))"
  proof (cases "map_of (c_lforwards c) ?dest")
    case None
    then show ?thesis using inv by simp
  next
    case (Some p)
    let ?c = "c\<lparr>c_lforwards := AList.delete ?dest (c_lforwards c)\<rparr>"
    show ?thesis
      unfolding Let_def Some option.case
      by (rule run_socket_command_cases [of env "''cancel''" "local_forward p ?dest" ?c h])
        (use inv c in \<open>auto simp: conn_inv_live remote_texts_def in_delete_iff distinct_delete\<close>)
  qed
qed

lemma add_remote_keeps:
  assumes "conn_inv s"
  shows "conn_inv (snd (add_remote_port_forward env rp lp b s))"
  unfolding add_remote_port_forward_def
proof (rule check_connected_keeps [OF assms], clarify)
  fix c h
  assume c: "c_connected (fst (c, h))" and inv: "conn_inv (c, h)"
  show "conn_inv (snd (let f = remote_forward b rp lp in
     and_then (run_socket_command env ''forward'' [f] (c, h)) (\<lambda>_ (c, h).
       (Inr (), c\<lparr>c_rforwards := List.insert f (c_rforwards c)\<rparr>, h))))"
    unfolding Let_def
    by (rule run_socket_command_cases [of env "''forward''" "remote_forward b rp lp" c h])
      (use inv c in \<open>auto simp: conn_inv_live remote_texts_def\<close>)
qed

lemma remove_remote_keeps:
  assumes "conn_inv s"
  shows "conn_inv (snd (remove_remote_port_forward env rp lp b s))"
  unfolding remove_remote_port_forward_def
proof (rule check_connected_keeps [OF assms], clarify)
  fix c h
  assume c: "c_connected (fst (c, h))" and inv: "conn_inv (c, h)"
  let ?f = "remote_forward b rp lp"
  let ?c = "c\<lparr>c_rforwards := remove1 ?f (c_rforwards c)\<rparr>"
  show "conn_inv (snd (let f = ?f in
     if f \<in> set (c_rforwards c)
     then run_socket_command env ''cancel'' [f] (c\<lparr>c_rforwards := remove1 f (c_rforwards c)\<rparr>, h)
     else (Inl (SshPy KeyError), c, h)))"
    unfolding Let_def
    by (rule run_socket_command_cases [of env "''cancel''" ?f ?c h])
      (use inv c in \<open>auto simp: conn_inv_live remote_texts_def local_not_remote [THEN not_sym] dest: notin_set_remove1\<close>)
qed


lemma conn_run_keeps:
  assumes "conn_inv s"
  shows "conn_inv (snd (conn_run env command tty merge s))"
  unfolding conn_run_def
proof (rule check_connected_keeps [OF assms])
  fix t
  assume t: "conn_inv t"
  have "length (order_of ((if tty then [''-tt''] else []) @ [c_host (fst t), command])) \<le> 2"
    using length_order_of [of "[c_host (fst t), command]"] by (auto simp: order_of_def)
  with t show "conn_inv (snd (let cmd = ''ssh'' # ssh_args (fst t) @ (if tty then [''-tt''] else []) @
        [c_host (fst t), command]; a = answer env (snd t) cmd in
      (case a of Exited n out err \<Rightarrow> Inr (lines_of out, if merge then [] else lines_of err, n)
        | _ \<Rightarrow> Inl SshExecution, fst t, snd t @ [Ran cmd a])))"
    by (cases t) (simp add: Let_def inv_event effect_no_order order_of_ssh)
qed

lemma conn_get_file_keeps: "conn_inv s \<Longrightarrow> conn_inv (snd (conn_get_file env r l s))"
  unfolding conn_get_file_def
proof (rule check_connected_keeps)
  fix t
  assume "conn_inv t"
  then show "conn_inv (snd (check_call env (''scp'' # ssh_control_args (fst t) @ [c_host (fst t) @ '':'' @ r, l]) t))"
    by (rule check_call_keeps) (metis length_order_of order_of_scp length_Cons list.size(3) numeral_2_eq_2)
qed

lemma order_of_options [simp]:
  "order_of [] = []"
  "order_of (a # r) = (if a = ''-O'' then a # r else order_of r)"
  by (simp_all add: order_of_def)

lemma ssh_words: "join_with '' '' (''ssh'' # ssh_args c) \<noteq> ''-O''"
  by (cases "ssh_args c") (simp_all add: ssh_args_def ssh_base_args_def)

lemma conn_put_file_keeps: "conn_inv s \<Longrightarrow> conn_inv (snd (conn_put_file env l r s))"
  unfolding conn_put_file_def
proof (rule check_connected_keeps)
  fix t
  assume "conn_inv t"
  then show "conn_inv (snd (check_call env ([''rsync'', ''--compress'', ''--sparse'', ''--copy-links'',
         ''--verbose'', ''--progress'', ''--times'', ''-e'', join_with '' '' (''ssh'' # ssh_args (fst t)),
         l, c_host (fst t) @ '':'' @ r]) t))"
    by (rule check_call_keeps) (simp add: ssh_words del: join_with.simps)
qed

lemma stop_own_master_state: "\<exists>h. snd (stop_own_master env (c, h0)) = (c, h) \<or>
    snd (stop_own_master env (c, h0)) = (c\<lparr>c_socket := None, c_master := False\<rparr>, h)"
proof -
  have conn: "\<exists>h'. snd (run_socket_command env w fwd (d, h)) = (d, h')" for w fwd d h
    using check_call_event [of env "socket_line d w fwd" "(d, h)"] unfolding run_socket_command_def
    by (metis fst_conv snd_conv)
  have "\<exists>h'. snd (and_then (run_socket_command env ''cancel'' [] (c, h0)) (\<lambda>_ s.
         and_then (run_socket_command env ''exit'' [] s) (\<lambda>_ s.
           (if ends_in_time env (snd s) then Inr () else Inl SshExpired, s)))) = (c, h')"
  proof (rule and_then_keeps [where P = "\<lambda>s. \<exists>h. s = (c, h)"])
    show "\<exists>h. snd (run_socket_command env ''cancel'' [] (c, h0)) = (c, h)" by (rule conn)
  next
    fix a and s :: "conn \<times> event list"
    assume "\<exists>h. s = (c, h)"
    then obtain h where s: "s = (c, h)" by blast
    show "\<exists>h. snd (and_then (run_socket_command env ''exit'' [] s) (\<lambda>_ s.
           (if ends_in_time env (snd s) then Inr () else Inl SshExpired, s))) = (c, h)"
      by (rule and_then_keeps [where P = "\<lambda>s. \<exists>h. s = (c, h)"]) (use conn s in auto)
  qed
  then show ?thesis by (auto simp: stop_own_master_def forget_master_def apsnd_def map_prod_def split_beta)
qed

lemma disconnect_keeps:
  assumes "conn_inv s"
  shows "conn_inv (snd (conn_disconnect env s))"
  unfolding conn_disconnect_def
proof (rule check_connected_keeps [OF assms])
  fix t
  assume t: "c_connected (fst t)" "conn_inv t"
  obtain c h where ch: "t = (c, h)" by (cases t)
  let ?k = "c\<lparr>c_keepalive := None\<rparr>"
  have "\<exists>h' c'. snd (and_then (stop_keepalive t) (\<lambda>_ s.
        if truthy (c_socket (fst s)) then stop_own_master env s else (Inr (), s))) = (c', h') \<and>
      c_lforwards c' = c_lforwards c \<and> c_rforwards c' = c_rforwards c"
    using stop_own_master_state [of env ?k h] by (auto simp: stop_keepalive_def ch)
  with t ch show "conn_inv (snd (if \<not> c_connected (fst t) then (Inl (SshPy AssertionError), t)
     else apsnd mark_disconnected (and_then (stop_keepalive t) (\<lambda>_ s.
          if truthy (c_socket (fst s)) then stop_own_master env s else (Inr (), s)))))"
    by (auto simp: conn_inv_def mark_disconnected_def remote_texts_def)
qed


section \<open>Reachable connections\<close>

text \<open>What a caller can do with a connection, once it is set up.\<close>

datatype conn_op =
    LocalForward string string "int option"
  | LocalCancel string string
  | RemoteForward int int "string option"
  | RemoteCancel int int "string option"
  | Prefix
  | Command string bool bool
  | GetFile string string
  | PutFile string string
  | Disconnect

fun perform :: "ssh_env \<Rightarrow> conn_op \<Rightarrow> conn \<times> event list \<Rightarrow> conn \<times> event list" where
  "perform env (LocalForward host port lp) s = snd (add_port_forward env host port lp s)"
| "perform env (LocalCancel host port) s = snd (remove_port_forward env host port s)"
| "perform env (RemoteForward rp lp b) s = snd (add_remote_port_forward env rp lp b s)"
| "perform env (RemoteCancel rp lp b) s = snd (remove_remote_port_forward env rp lp b s)"
| "perform env Prefix s = snd (conn_get_prefix env s)"
| "perform env (Command c tty merge) s = snd (conn_run env c tty merge s)"
| "perform env (GetFile r l) s = snd (conn_get_file env r l s)"
| "perform env (PutFile l r) s = snd (conn_put_file env l r s)"
| "perform env Disconnect s = snd (conn_disconnect env s)"

inductive conn_start :: "conn \<times> event list \<Rightarrow> bool" where
  fresh: "conn_start (snd (conn_connect env (new_conn host tmpdir, h)))"

inductive conn_step :: "conn \<times> event list \<Rightarrow> conn \<times> event list \<Rightarrow> bool" where
  one: "conn_step s (perform env op s)"

inductive_cases conn_startE: "conn_start s"
inductive_cases conn_stepE: "conn_step s t"

lemma perform_keeps: "conn_inv s \<Longrightarrow> conn_inv (perform env op s)"
proof (cases op)
  case Prefix
  moreover assume "conn_inv s"
  ultimately show ?thesis unfolding conn_get_prefix_def
    by (auto intro: check_connected_keeps simp: conn_get_prefix_def)
qed (simp_all add: add_port_forward_keeps remove_port_forward_keeps add_remote_keeps remove_remote_keeps
    conn_run_keeps conn_get_file_keeps conn_put_file_keeps disconnect_keeps)

lemma connect_inv: "conn_inv (snd (conn_connect env (new_conn host tmpdir, h)))"
proof -
  let ?P = "\<lambda>s :: conn \<times> event list. c_lforwards (fst s) = [] \<and> c_rforwards (fst s) = [] \<and> \<not> c_connected (fst s)"
  have inv: "?P s \<or> (c_lforwards (fst s) = [] \<and> c_rforwards (fst s) = [] \<and> c_keepalive (fst s) \<noteq> None) \<Longrightarrow>
      conn_inv s" for s
    by (cases s) (auto simp: conn_inv_def forwards_open_def remote_texts_def)
  have master: "?P s \<Longrightarrow> ?P (snd (start_own_master env s))" for s
    by (auto simp: start_own_master_def execute_def Let_def and_then_def split: sum.splits reply.splits)
  have ext: "?P s \<Longrightarrow> ?P (snd (check_external_master env s))" for s
    by (auto simp: check_external_master_def execute_def Let_def and_then_def split: reply.splits)
  have "conn_inv (snd (open_connection env s))" if s: "?P s" for s
  proof -
    obtain r t where e: "check_external_master env s = (r, t)" by (meson surj_pair)
    obtain q u where m: "(case r of Inl x \<Rightarrow> (Inl x, t)
        | Inr found \<Rightarrow> if found then (Inr (), t) else start_own_master env t) = (q, u)"
      by (meson surj_pair)
    have "?P t" using ext [OF s] e by simp
    then have "?P u" using m master [of t] by (auto split: sum.splits if_splits)
    then have "conn_inv (snd (and_then (start_keepalive env u) (\<lambda>_ (c, h). (Inr (), c\<lparr>c_connected := True\<rparr>, h))))"
      by (intro inv) (auto simp: start_keepalive_def split_beta)
    moreover have "snd (open_connection env s) =
        snd (case q of Inl x \<Rightarrow> (Inl x, u)
          | Inr _ \<Rightarrow> and_then (start_keepalive env u) (\<lambda>_ (c, h). (Inr (), c\<lparr>c_connected := True\<rparr>, h)))"
      unfolding open_connection_def e using m by (cases r) (auto simp: and_then_def split: if_splits sum.splits)
    ultimately show ?thesis using \<open>?P u\<close> inv by (cases q) simp_all
  qed
  moreover have "?P (new_conn host tmpdir, h)" by (simp add: new_conn_def)
  ultimately show ?thesis by (simp add: conn_connect_def)
qed

interpretation conns: transition_system conn_start conn_step conn_inv
  by unfold_locales (auto elim!: conn_startE conn_stepE simp: connect_inv perform_keeps)


section \<open>Results\<close>

text \<open>An environment where every program works.\<close>

definition all_works :: ssh_env where
  "all_works = \<lparr>answer = \<lambda>_ _. Exited 0 [] [], spawnable = \<lambda>_ _. True, running = \<lambda>_ _. True,
     ends_in_time = \<lambda>_. True, port_free = \<lambda>h. 40000 + int (length h), path_exists = \<lambda>_ _. True,
     temporary = \<lambda>_. ''/tmp/lg-con-a'', connect_timeout_var = None, clock = \<lambda>_. 0\<rparr>"

text \<open>
  C30. As long as a connection has not been closed, every forwarding it remembers, in either
  direction, is open at the master, whatever was done with the connection and whichever of its
  commands failed.
\<close>

theorem remembered_forwards_open:
  assumes "conn_start s" and "conn_step\<^sup>*\<^sup>* s t" and "c_connected (fst t)"
  shows "(\<forall>d p. map_of (c_lforwards (fst t)) d = Some p \<longrightarrow>
            local_forward p d \<in> set (open_forwards (c_host (fst t)) (snd t))) \<and>
         set (c_rforwards (fst t)) \<subseteq> set (open_forwards (c_host (fst t)) (snd t))"
  using conns.reachable_inv [OF assms(1,2)] assms(3)
  by (cases t) (auto simp: conn_inv_live dest: map_of_SomeD)

lemma live_forward:
  assumes "c_connected c" and "c_keepalive c = Some k" and "running env h k"
    and "map_of (c_lforwards c) (destination dest port) = Some p"
  shows "add_port_forward env dest port None (c, h) = (Inr p, c, h @ [Polled k, PortAsked])"
  using assms by (simp add: add_port_forward_def check_connected_def isconnected_def check_keepalive_def)

lemma update_same: "map_of d k = Some v \<Longrightarrow> AList.update k v d = d"
  by (induction d) auto

lemma with_known_connection:
  assumes "map_of cs host = Some c"
  shows "with_connection env host f (cs, h) =
    (case f (c, h) of (r, c', h') \<Rightarrow> (r, AList.update host c' cs, h'))"
  using assms by (simp add: with_connection_def manager_get_def on_connection_def)

lemma add_port_forward_Inr:
  assumes "add_port_forward env dest port None (c, h) = (Inr p, c', h')"
  shows "c_connected c' \<and> c_keepalive c' \<noteq> None \<and> map_of (c_lforwards c') (destination dest port) = Some p"
  using assms
  by (auto simp: add_port_forward_def check_connected_def isconnected_def check_keepalive_def and_then_def
      run_socket_command_def check_call_def execute_def Let_def split: if_splits option.splits sum.splits
        reply.splits prod.splits)

lemma request_forward_Inr:
  assumes "request_forward env host dest port m = (Inr p, m')"
  shows "\<exists>c. map_of (fst m') host = Some c \<and> c_connected c \<and> c_keepalive c \<noteq> None \<and>
    map_of (c_lforwards c) (destination dest port) = Some p"
proof -
  obtain m1 where m1: "manager_get env host m = (Inr (), m1)"
    and on: "on_connection host (add_port_forward env dest port None) m1 = (Inr p, m')"
    using assms unfolding request_forward_def with_connection_def
    by (auto simp: and_then_def split: sum.splits prod.splits)
  obtain c where c: "map_of (fst m1) host = Some c"
    using on by (cases "map_of (fst m1) host") (auto simp: on_connection_def)
  obtain r c' h' where add: "add_port_forward env dest port None (c, snd m1) = (r, c', h')"
    by (metis prod_cases3)
  from on c add have "r = Inr p" "m' = (AList.update host c' (fst m1), h')" by (auto simp: on_connection_def)
  with add_port_forward_Inr [of env dest port c "snd m1" p c' h'] add show ?thesis by simp
qed

text \<open>
  Once a forwarding to a destination has been given out, asking the manager again gives the same
  local port and sends nothing, unless the keepalive has died.
\<close>

lemma forward_reused:
  assumes "request_forward env host dest port m = (Inr p, m1)"
    and "request_forward env host dest port m1 = (r, m2)" and "r \<noteq> Inl SshExecution"
  shows "r = Inr p \<and> fst m2 = fst m1 \<and> (\<exists>k. snd m2 = snd m1 @ [Polled k, PortAsked])"
proof -
  obtain c k where c: "map_of (fst m1) host = Some c" "c_connected c" "c_keepalive c = Some k"
      "map_of (c_lforwards c) (destination dest port) = Some p"
    using request_forward_Inr [OF assms(1)] by auto
  have known: "request_forward env host dest port m1 =
      (case add_port_forward env dest port None (c, snd m1) of (r, c', h') \<Rightarrow> (r, AList.update host c' (fst m1), h'))"
    unfolding request_forward_def using with_known_connection [OF c(1), of env _ "snd m1"] by simp
  have alive: "running env (snd m1) k"
  proof (rule ccontr)
    assume "\<not> running env (snd m1) k"
    then have "fst (add_port_forward env dest port None (c, snd m1)) = Inl SshExecution"
      using c by (simp add: add_port_forward_def check_connected_def isconnected_def check_keepalive_def)
    with known assms(2,3) show False by (auto split: prod.splits)
  qed
  show ?thesis
    using assms(2) known live_forward [OF c(2,3) alive c(4)] update_same [OF c(1)] by auto
qed

text \<open>A keepalive that has ended stays ended.\<close>

definition stays_dead :: "ssh_env \<Rightarrow> bool" where
  "stays_dead env \<longleftrightarrow> (\<forall>h t k. \<not> running env h k \<longrightarrow> \<not> running env (h @ t) k)"

lemma dead_connection:
  assumes "c_connected c" and "c_keepalive c = Some k" and "\<not> running env h k"
  shows "check_connected env f (c, h) = (Inl SshExecution, c, h @ [Polled k])"
  using assms by (simp add: check_connected_def isconnected_def check_keepalive_def)

lemma dead_with_connection:
  assumes "map_of cs host = Some c" and "c_connected c" and "c_keepalive c = Some k" and "\<not> running env h k"
  shows "with_connection env host (check_connected env f) (cs, h) = (Inl SshExecution, cs, h @ [Polled k])"
  using assms by (simp add: with_known_connection dead_connection update_same)

text \<open>What can be asked of the manager about a host.\<close>

datatype manager_op =
    Request string string | Remove string string | Put string string | Get string string | Close

fun ask :: "ssh_env \<Rightarrow> string \<Rightarrow> manager_op \<Rightarrow> manager \<Rightarrow> ssh_error option \<times> manager" where
  "ask env host (Request dest port) m =
     (case request_forward env host dest port m of (Inl e, m) \<Rightarrow> (Some e, m) | (Inr _, m) \<Rightarrow> (None, m))"
| "ask env host (Remove dest port) m =
     (case remove_forward env host dest port m of (Inl e, m) \<Rightarrow> (Some e, m) | (Inr _, m) \<Rightarrow> (None, m))"
| "ask env host (Put l r) m =
     (case manager_put_file env host l r m of (Inl e, m) \<Rightarrow> (Some e, m) | (Inr _, m) \<Rightarrow> (None, m))"
| "ask env host (Get r l) m =
     (case manager_get_file env host r l m of (Inl e, m) \<Rightarrow> (Some e, m) | (Inr _, m) \<Rightarrow> (None, m))"
| "ask env host Close m =
     (case manager_close env host m of (Inl e, m) \<Rightarrow> (Some e, m) | (Inr _, m) \<Rightarrow> (None, m))"

lemma dead_asked:
  assumes "map_of cs host = Some c" and "c_connected c" and "c_keepalive c = Some k" and "\<not> running env h k"
  shows "ask env host op (cs, h) = (Some SshExecution, cs, h @ [Polled k])"
  using assms
  by (cases op) (simp_all add: request_forward_def remove_forward_def manager_put_file_def manager_get_file_def
      manager_close_def add_port_forward_def remove_port_forward_def conn_put_file_def conn_get_file_def
      conn_disconnect_def dead_with_connection)



section \<open>Cleaning up\<close>

lemma cancel_loop:
  assumes "for_each (\<lambda>x. run_socket_command env ''cancel'' [g x]) xs (c, h) = (Inr (), t)"
  shows "\<exists>h'. t = (c, h') \<and> set (open_forwards (c_host c) h') = set (open_forwards (c_host c) h) - g ` set xs"
  using assms
proof (induction xs arbitrary: h)
  case Nil
  then show ?case by (cases t) auto
next
  case (Cons x xs)
  show ?case
  proof (rule run_socket_command_cases [of env "''cancel''" "g x" c h])
    fix h1
    assume one: "run_socket_command env ''cancel'' [g x] (c, h) = (Inr (), c, h1)"
      "open_forwards (c_host c) h1 = (if ''cancel'' = ''forward'' then List.insert (g x) (open_forwards (c_host c) h)
         else if ''cancel'' = ''cancel'' then removeAll (g x) (open_forwards (c_host c) h)
         else open_forwards (c_host c) h)"
    with Cons.prems have "for_each (\<lambda>x. run_socket_command env ''cancel'' [g x]) xs (c, h1) = (Inr (), t)" by simp
    from Cons.IH [OF this] one(2) show ?case by auto
  next
    fix h1 e
    assume "run_socket_command env ''cancel'' [g x] (c, h) = (Inl e, c, h1)"
    with Cons.prems show ?case by simp
  qed
qed

definition bounded_by :: "string \<Rightarrow> string set \<Rightarrow> conn \<times> event list \<Rightarrow> bool" where
  "bounded_by host X s \<longleftrightarrow> c_host (fst s) = host \<and> set (open_forwards host (snd s)) \<subseteq> X"

lemma plain_command_bounded:
  "bounded_by host X s \<Longrightarrow> w \<in> {''cancel'', ''exit''} \<Longrightarrow> bounded_by host X (snd (run_socket_command env w [] s))"
proof -
  assume s: "bounded_by host X s" and w: "w \<in> {''cancel'', ''exit''}"
  obtain a where "snd (check_call env (socket_line (fst s) w []) s) = (fst s, snd s @ [Ran (socket_line (fst s) w []) a])"
    using check_call_event by blast
  with s w show ?thesis
    by (cases a) (auto simp: run_socket_command_def bounded_by_def split: if_splits)
qed

lemma disconnect_bounded: "bounded_by host X s \<Longrightarrow> bounded_by host X (snd (conn_disconnect env s))"
proof -
  assume s: "bounded_by host X s"
  have conn: "bounded_by host X (c, h) \<Longrightarrow> c_host d = c_host c \<Longrightarrow> bounded_by host X (d, h)" for c d h
    by (simp add: bounded_by_def)
  have polled: "bounded_by host X (c, h) \<Longrightarrow> bounded_by host X (c, h @ [Polled k])" for c h k
    by (simp add: bounded_by_def)
  have stop: "bounded_by host X t \<Longrightarrow> bounded_by host X (snd (stop_own_master env t))" for t
  proof -
    assume t: "bounded_by host X t"
    have "bounded_by host X (snd (and_then (run_socket_command env ''cancel'' [] t) (\<lambda>_ s.
         and_then (run_socket_command env ''exit'' [] s) (\<lambda>_ s.
           (if ends_in_time env (snd s) then Inr () else Inl SshExpired, s)))))"
      by (intro and_then_keeps [where P = "bounded_by host X"]) (auto intro: plain_command_bounded t)
    then show ?thesis using t
      by (auto simp: stop_own_master_def forget_master_def bounded_by_def split_beta apsnd_def map_prod_def)
  qed
  have keep: "bounded_by host X t \<Longrightarrow> bounded_by host X (snd (stop_keepalive t))" for t
    by (auto simp: stop_keepalive_def bounded_by_def)
  have body: "bounded_by host X (snd (if \<not> c_connected (fst t) then (Inl (SshPy AssertionError), t)
     else apsnd mark_disconnected (and_then (stop_keepalive t) (\<lambda>_ s.
          if truthy (c_socket (fst s)) then stop_own_master env s else (Inr (), s)))))"
    if t: "bounded_by host X t" for t
  proof -
    have "bounded_by host X (snd (and_then (stop_keepalive t) (\<lambda>_ s.
          if truthy (c_socket (fst s)) then stop_own_master env s else (Inr (), s))))"
      by (intro and_then_keeps [where P = "bounded_by host X"]) (auto intro: keep stop t)
    with t show ?thesis by (auto simp: mark_disconnected_def bounded_by_def)
  qed
  have "bounded_by host X (snd (isconnected env s))"
    using s polled by (cases s) (auto simp: isconnected_def check_keepalive_def split: option.splits)
  then show ?thesis
    unfolding conn_disconnect_def check_connected_def
    by (intro and_then_keeps [where P = "bounded_by host X"]) (auto simp only: body split: if_splits, auto)
qed

lemma isconnected_effect:
  assumes "isconnected env (c, h) = (Inr True, t)"
  obtains k where "t = (c, h @ [Polled k])"
  using assms by (auto simp: isconnected_def check_keepalive_def split: if_splits option.splits)

text \<open>
  C31. When cleaning up a live connection succeeds, none of the forwardings it remembered is left open
  at the master, also when that master belongs to somebody else and goes on running.
\<close>

theorem cleanup_leaves_nothing_open:
  assumes "isconnected env (c, h) = (Inr True, t)" and "conn_cleanup env (c, h) = (Inr (), c', h')"
    and "map_of (c_lforwards c) d = Some p \<and> f = local_forward p d \<or> f \<in> set (c_rforwards c)"
  shows "f \<notin> set (open_forwards (c_host c) h')"
proof -
  obtain k where t: "t = (c, h @ [Polled k])" using isconnected_effect [OF assms(1)] .
  let ?g = "\<lambda>x. local_forward (snd x) (fst x)"
  have split: "(\<lambda>(dest, p). run_socket_command env ''cancel'' [local_forward p dest]) =
      (\<lambda>x. run_socket_command env ''cancel'' [?g x])" by auto
  obtain t1 where loop1: "for_each (\<lambda>x. run_socket_command env ''cancel'' [?g x]) (c_lforwards c)
      (c, h @ [Polled k]) = (Inr (), t1)"
    using assms(2) unfolding conn_cleanup_def assms(1) t split
    by (cases "for_each (\<lambda>x. run_socket_command env ''cancel'' [?g x]) (c_lforwards c) (c, h @ [Polled k])")
      (auto simp: and_then_def split: sum.splits)
  obtain h1 where h1: "t1 = (c, h1)" "set (open_forwards (c_host c) h1) =
      set (open_forwards (c_host c) (h @ [Polled k])) - ?g ` set (c_lforwards c)"
    using cancel_loop [OF loop1] by blast
  let ?c = "c\<lparr>c_lforwards := []\<rparr>"
  obtain r2 t2 where l2: "for_each (\<lambda>f. run_socket_command env ''cancel'' [f]) (c_rforwards c) (?c, h1) = (r2, t2)"
    by (meson surj_pair)
  have r2: "r2 = Inr ()"
    using assms(2) unfolding conn_cleanup_def assms(1) t split
    by (cases r2) (auto simp: loop1 h1 l2)
  obtain h2 where h2: "t2 = (?c, h2)" "set (open_forwards (c_host c) h2) =
      set (open_forwards (c_host c) h1) - set (c_rforwards c)"
    using cancel_loop [where g = id, of env "c_rforwards c" ?c h1 t2] l2 r2 by auto
  obtain rd cd hd where dis: "conn_disconnect env (?c\<lparr>c_rforwards := []\<rparr>, h2) = (rd, cd, hd)"
    by (metis prod_cases3)
  have "hd = h'"
    using assms(2) unfolding conn_cleanup_def assms(1) t split
    by (cases rd) (auto simp: loop1 h1 l2 r2 h2 dis split: if_splits)
  moreover have "bounded_by (c_host c) (set (open_forwards (c_host c) h2)) (cd, hd)"
    using disconnect_bounded [of "c_host c" "set (open_forwards (c_host c) h2)" "(?c\<lparr>c_rforwards := []\<rparr>, h2)" env] dis
    by (simp add: bounded_by_def)
  ultimately have "set (open_forwards (c_host c) h') \<subseteq> set (open_forwards (c_host c) h2)"
    by (simp add: bounded_by_def)
  moreover have "f \<notin> set (open_forwards (c_host c) h2)"
    using assms(3) h1(2) h2(2) by (auto dest: map_of_SomeD intro: rev_image_eqI)
  ultimately show ?thesis by blast
qed


section \<open>A forwarding that is no longer there\<close>

text \<open>
  Disconnecting ends the connection's own master and with it the forwardings, but not the list of
  them: after connecting again, asking for the forwarding gives the old port and opens nothing.
\<close>

definition external_free :: ssh_env where
  "external_free = all_works\<lparr>answer := \<lambda>_ cmd. Exited (if cmd ! 2 = ''check'' then 255 else 0) [] []\<rparr>"

lemma open_forwards_append: "open_forwards host (h @ es) = fold (effect host) es (open_forwards host h)"
  by (simp add: open_forwards_def)

lemma connect_free:
  "\<not> c_connected c \<Longrightarrow> c_keepalive c = None \<Longrightarrow> \<not> c_master c \<Longrightarrow> c_socket c = None \<Longrightarrow>
   \<exists>e1 e2 e3. conn_connect external_free (c, h) =
     (Inr (), c\<lparr>c_master := True, c_socket := Some (path_join (c_tmpdir c) (''control-'' @ c_host c)),
        c_keepalive := Some (Suc (Suc (length h))), c_connected := True\<rparr>,
      h @ [Ran [''ssh'', ''-O'', ''check'', c_host c] e1, Ran (''ssh'' # ssh_args c @ e2) (Exited 0 [] []), Spawned e3]) \<and>
     e1 = Exited 255 [] [] \<and> length (order_of e2) \<le> 1"
  using length_order_of [of "[c_host c]"]
  by (simp add: conn_connect_def open_connection_def check_external_master_def execute_def external_free_def
      all_works_def start_own_master_def ssh_connect_timeout_def start_keepalive_def master_line_def
      ssh_args_def ssh_control_args_def ssh_base_args_def keepalive_line_def Let_def)

lemma stale_forward_after_reconnect:
  defines "s0 \<equiv> snd (conn_connect external_free (new_conn ''h'' ''/t'', []))"
  defines "s1 \<equiv> snd (add_port_forward external_free ''d'' ''80'' (Some 8080) s0)"
  defines "s2 \<equiv> snd (conn_connect external_free (snd (conn_disconnect external_free s1)))"
  shows "c_connected (fst s2) \<and> fst (add_port_forward external_free ''d'' ''80'' (Some 9090) s2) = Inr 8080 \<and>
    open_forwards ''h'' (snd s1) \<noteq> [] \<and>
    open_forwards ''h'' (snd (snd (add_port_forward external_free ''d'' ''80'' (Some 9090) s2))) = []"
proof -
  note run = check_connected_def isconnected_def check_keepalive_def run_socket_command_def check_call_def
    execute_def external_free_def all_works_def Let_def
  obtain c0 h0 k where s0: "s0 = (c0, h0)" "c_connected c0" "c_keepalive c0 = Some k" "c_lforwards c0 = []"
      "c_host c0 = ''h''" "c_master c0" "c_socket c0 = Some (path_join (c_tmpdir c0) (''control-'' @ c_host c0))"
    using connect_free [of "new_conn ''h'' ''/t''" "[]"] unfolding s0_def by (auto simp: new_conn_def)
  have line: "socket_line c w fwd ! 2 = ''-o''" for c w fwd
    by (simp add: socket_line_def ssh_args_def ssh_base_args_def)
  have join: "path_join a (CHR ''c'' # b) \<noteq> []" for a b by (simp add: path_join_def)
  let ?d = "destination ''d'' ''80''"
  obtain h1 where s1: "s1 = (c0\<lparr>c_lforwards := [(?d, 8080)]\<rparr>, h1)"
      "open_forwards ''h'' h1 = List.insert (local_forward 8080 ?d) (open_forwards ''h'' h0)"
    using s0 unfolding s1_def by (simp add: add_port_forward_def run line open_forwards_append)
  obtain h2 where d: "conn_disconnect external_free s1 = (Inr (), c0\<lparr>c_lforwards := [(?d, 8080)],
      c_keepalive := None, c_socket := None, c_master := False, c_connected := False\<rparr>, h2)"
      "open_forwards ''h'' h2 = []"
    using s0 unfolding s1(1)
    by (simp add: conn_disconnect_def stop_keepalive_def stop_own_master_def forget_master_def
        mark_disconnected_def run line open_forwards_append join)
  let ?c = "c0\<lparr>c_lforwards := [(?d, 8080)], c_keepalive := None, c_socket := None, c_master := False,
      c_connected := False\<rparr>"
  obtain c3 h3 k3 where s2: "s2 = (c3, h3)" "c_connected c3" "c_keepalive c3 = Some k3"
      "c_lforwards c3 = [(?d, 8080)]" "open_forwards ''h'' h3 = []"
    using connect_free [of ?c h2] d(2) s0(5) unfolding s2_def d(1) snd_conv
    by (auto simp: open_forwards_append order_of_ssh asked_short simp del: order_of_options)
  show ?thesis
    unfolding s2(1) s1(1) using s2 s1(2) by (auto simp: add_port_forward_def run open_forwards_append List.insert_def)
qed


section \<open>Witnesses\<close>

lemmas ssh_ops = conn_connect_def open_connection_def check_external_master_def start_keepalive_def
  check_connected_def isconnected_def check_keepalive_def run_socket_command_def check_call_def
  execute_def Let_def

lemma remembered_forwards_open_witness:
  "\<exists>t :: conn \<times> event list. map_of (c_lforwards (fst t)) (destination ''d'' ''80'') = Some 8080 \<and>
     local_forward 8080 (destination ''d'' ''80'') \<in> set (open_forwards (c_host (fst t)) (snd t))"
proof -
  define s where "s = snd (conn_connect all_works (new_conn ''h'' ''/t'', []))"
  define t where "t = perform all_works (LocalForward ''d'' ''80'' (Some 8080)) s"
  have "conn_start s" unfolding s_def by (rule conn_start.fresh)
  moreover have "conn_step\<^sup>*\<^sup>* s t" unfolding t_def by (rule r_into_rtranclp) (rule conn_step.one)
  moreover have t: "c_connected (fst t)" "map_of (c_lforwards (fst t)) (destination ''d'' ''80'') = Some 8080"
    by (simp_all add: s_def t_def ssh_ops all_works_def new_conn_def add_port_forward_def)
  ultimately have "local_forward 8080 (destination ''d'' ''80'') \<in> set (open_forwards (c_host (fst t)) (snd t))"
    using remembered_forwards_open [of s t] by simp
  with t show ?thesis by blast
qed

lemma forward_reused_witness:
  "fst (request_forward all_works ''h'' ''d'' ''80'' (snd (request_forward all_works ''h'' ''d'' ''80'' ([], [])))) =
   Inr 40003"
proof -
  obtain m1 where m1: "request_forward all_works ''h'' ''d'' ''80'' ([], []) = (Inr 40003, m1)"
    by (simp add: request_forward_def with_connection_def manager_get_def on_connection_def ssh_ops
        all_works_def new_conn_def add_port_forward_def)
  obtain r m2 where m2: "request_forward all_works ''h'' ''d'' ''80'' m1 = (r, m2)" by (meson surj_pair)
  obtain c k where c: "map_of (fst m1) ''h'' = Some c" "c_connected c" "c_keepalive c = Some k"
      "map_of (c_lforwards c) (destination ''d'' ''80'') = Some 40003"
    using request_forward_Inr [OF m1] by auto
  have "running all_works (snd m1) k" by (simp add: all_works_def)
  with c have "fst (request_forward all_works ''h'' ''d'' ''80'' m1) = Inr 40003"
    using with_known_connection [OF c(1), of all_works "add_port_forward all_works ''d'' ''80'' None" "snd m1"]
    by (simp add: request_forward_def live_forward)
  with m2 have "r \<noteq> Inl SshExecution" by simp
  with forward_reused [OF m1 m2] m1 m2 show ?thesis by simp
qed


lemma cleanup_leaves_nothing_open_witness:
  "\<exists>h. local_forward 8080 ''d:80'' \<in> set (open_forwards ''h'' h) \<and>
     local_forward 8080 ''d:80'' \<notin> set (open_forwards ''h''
       (snd (snd (conn_cleanup all_works ((new_conn ''h'' ''/t'')\<lparr>c_connected := True, c_keepalive := Some 0,
         c_lforwards := [(''d:80'', 8080)]\<rparr>, h)))))"
proof -
  let ?c = "(new_conn ''h'' ''/t'')\<lparr>c_connected := True, c_keepalive := Some 0, c_lforwards := [(''d:80'', 8080)]\<rparr>"
  let ?h = "[Ran (socket_line ?c ''forward'' [local_forward 8080 ''d:80'']) (Exited 0 [] [])]"
  obtain t where live: "isconnected all_works (?c, ?h) = (Inr True, t)"
    by (simp add: isconnected_def check_keepalive_def all_works_def)
  obtain c' h' where clean: "conn_cleanup all_works (?c, ?h) = (Inr (), c', h')"
    by (simp add: conn_cleanup_def ssh_ops all_works_def new_conn_def conn_disconnect_def stop_keepalive_def mark_disconnected_def)
  have "local_forward 8080 ''d:80'' \<notin> set (open_forwards (c_host ?c) h')"
    by (rule cleanup_leaves_nothing_open [OF live clean, of "''d:80''" 8080]) simp
  moreover have "local_forward 8080 ''d:80'' \<in> set (open_forwards ''h'' ?h)"
    by (simp add: open_forwards_def new_conn_def)
  ultimately show ?thesis using clean by (intro exI [of _ ?h]) (simp add: new_conn_def)
qed

end
