(* ===== verification/Proxy.thy ===== *)
theory Proxy
  imports SshProps
begin

text \<open>
  \<^verbatim>\<open>labgrid/util/proxy.py\<close>: where to connect for a resource or a URL, directly or through a
  port forwarded over SSH, and the command that connects through a proxy.
\<close>

datatype proxy_error = ProxySsh ssh_error | InvalidUrl

type_synonym 'a proxying = "(proxy_error, 'a, manager) outcome"

definition from_ssh :: "'a manager_outcome \<Rightarrow> 'a proxying" where
  "from_ssh r = (case r of (Inl e, m) \<Rightarrow> (Inl (ProxySsh e), m) | (Inr a, m) \<Rightarrow> (Inr a, m))"

definition from_python :: "py_error + 'a \<Rightarrow> manager \<Rightarrow> 'a proxying" where
  "from_python r m = (case r of Inl e \<Rightarrow> (Inl (ProxySsh (SshPy e)), m) | Inr a \<Rightarrow> (Inr a, m))"

text \<open>What the proxy manager reads of a resource.\<close>

record proxied =
  p_host :: string
  p_port :: "int option"
  p_extra :: "(string, pyval) dict"

text \<open>A port that is \<open>None\<close> or 0 gives way to the next.\<close>

definition or_port :: "int option \<Rightarrow> int option \<Rightarrow> int option" where
  "or_port p q = (if p = None \<or> p = Some 0 then q else p)"

definition port_word :: "int option \<Rightarrow> string" where
  "port_word p = (case p of None \<Rightarrow> ''None'' | Some n \<Rightarrow> show_int n)"

definition host_word :: "string option \<Rightarrow> string" where
  "host_word h = (case h of None \<Rightarrow> ''None'' | Some n \<Rightarrow> n)"

definition extra_true :: "proxied \<Rightarrow> string \<Rightarrow> bool" where
  "extra_true res k = (case map_of (p_extra res) k of None \<Rightarrow> False | Some v \<Rightarrow> py_true v)"

text \<open>The name of the proxy must be a string to open a connection to it.\<close>

definition forward_over :: "ssh_env \<Rightarrow> pyval option \<Rightarrow> string \<Rightarrow> string \<Rightarrow> manager \<Rightarrow> int proxying" where
  "forward_over env proxy host port m =
     (case proxy of
        Some (VStr p) \<Rightarrow> from_ssh (request_forward env p host port m)
      | _ \<Rightarrow> (Inl (ProxySsh (SshPy TypeError)), m))"

definition get_host_and_port ::
  "ssh_env \<Rightarrow> string option \<Rightarrow> proxied \<Rightarrow> int option \<Rightarrow> int option \<Rightarrow> manager \<Rightarrow>
   (string option \<times> int option) proxying" where
  "get_host_and_port env force_proxy res default_port force_port m =
     and_then (from_python (urlparse ((if substring ''//'' (p_host res) then [] else ''//'') @ p_host res)) m) (\<lambda>u m.
     and_then (if force_port \<noteq> None \<and> force_port \<noteq> Some 0 then (Inr force_port, m)
               else and_then (from_python (port_number u) m) (\<lambda>q m.
                 (Inr (or_port q (or_port (p_port res) default_port)), m))) (\<lambda>port m.
     if extra_true res ''proxy_required'' then
       and_then (forward_over env (map_of (p_extra res) ''proxy'') (host_word (hostname u)) (port_word port) m)
         (\<lambda>p m. (Inr (Some ''localhost'', Some p), m))
     else if truthy force_proxy then
       and_then (forward_over env (map_option VStr force_proxy) (host_word (hostname u)) (port_word port) m)
         (\<lambda>p m. (Inr (Some ''localhost'', Some p), m))
     else (Inr (hostname u, port), m)))"

text \<open>The network location of a host and a port; an IPv6 address needs brackets.\<close>

definition netloc :: "string \<Rightarrow> int \<Rightarrow> string" where
  "netloc host port =
     (if CHR '':'' \<in> set host then ''['' @ host @ '']:'' @ show_int port else host @ '':'' @ show_int port)"

definition get_url :: "ssh_env \<Rightarrow> string option \<Rightarrow> string \<Rightarrow> int option \<Rightarrow> manager \<Rightarrow> string proxying" where
  "get_url env force_proxy url default_port m =
     and_then (from_python (urlsplit url) m) (\<lambda>u m.
     and_then (from_python (port_number u) m) (\<lambda>q m.
     case (hostname u, or_port q default_port) of
       (Some host, Some port) \<Rightarrow>
         and_then
           (if truthy force_proxy
            then and_then (forward_over env (map_option VStr force_proxy) host (show_int port) m)
              (\<lambda>p m. (Inr (''localhost'', p), m))
            else (Inr (host, port), m))
           (\<lambda>(host, port) m. (Inr (urlunsplit (u\<lparr>url_netloc := netloc host port\<rparr>)), m))
     | _ \<Rightarrow> (Inl InvalidUrl, m)))"

definition get_grpc_address ::
  "ssh_env \<Rightarrow> string option \<Rightarrow> string \<Rightarrow> int option \<Rightarrow> manager \<Rightarrow> string proxying" where
  "get_grpc_address env force_proxy address default_port m =
     and_then (get_url env force_proxy (''//'' @ address) default_port m)
       (\<lambda>url m. (Inr (dropWhile (\<lambda>c. c = CHR ''/'') url), m))"

text \<open>\<open>extra.get("proxy") or proxy\<close> where a proxy is needed, else the forced one.\<close>

definition chosen_proxy :: "string option \<Rightarrow> proxied \<Rightarrow> pyval option" where
  "chosen_proxy force_proxy res =
     (if extra_true res ''proxy_required'' \<or> truthy force_proxy
      then (if extra_true res ''proxy'' then map_of (p_extra res) ''proxy'' else map_option VStr force_proxy)
      else map_option VStr force_proxy)"

definition proxy_command ::
  "ssh_env \<Rightarrow> string option \<Rightarrow> proxied \<Rightarrow> string \<Rightarrow> int \<Rightarrow> string option \<Rightarrow> manager \<Rightarrow> string list option proxying"
where
  "proxy_command env force_proxy res host port ifname m =
     (case chosen_proxy force_proxy res of
        None \<Rightarrow> (Inr None, m)
      | Some v \<Rightarrow>
          if \<not> py_true v then (Inr None, m)
          else (case v of
              VStr p \<Rightarrow>
                and_then (from_ssh (with_connection env p (conn_get_prefix env) m)) (\<lambda>prefix m.
                  (Inr (Some (prefix @
                     (if truthy ifname
                      then [''--'', ''sudo'', ''--non-interactive'', ''labgrid-bound-connect'', the ifname, host,
                        show_int port]
                      else [''-W'', (if CHR '':'' \<in> set host then ''['' @ host @ '']'' else host) @ '':'' @
                        show_int port]))), m))
            | _ \<Rightarrow> (Inl (ProxySsh (SshPy TypeError)), m)))"


section \<open>Hosts and ports survive\<close>

text \<open>A host name as the network location of a URL gives it.\<close>

definition plain_host :: "string \<Rightarrow> bool" where
  "plain_host h \<longleftrightarrow> h \<noteq> [] \<and> list_all (\<lambda>c. netloc_char c \<and> c \<notin> {CHR ''['', CHR '']'', CHR ''@'', CHR 0x09, CHR 0x0A, CHR 0x0D}) h \<and>
     map lower (takeWhile (\<lambda>c. c \<noteq> CHR ''%'') h) = takeWhile (\<lambda>c. c \<noteq> CHR ''%'') h"

lemma not_in_show_int: "\<not> number_char c \<Longrightarrow> c \<notin> set (show_int i)"
  using show_int_chars by blast

lemma show_int_not_Nil [simp]: "show_int i \<noteq> []"
  by (simp add: show_int_def)

lemma host_and_port_netloc:
  assumes "plain_host h"
  shows "host_and_port (netloc h p) = (h, show_int p)"
proof -
  have n: "CHR '':'' \<notin> set (show_int p)" "CHR ''@'' \<notin> set (show_int p)" "CHR ''['' \<notin> set (show_int p)"
      "CHR '']'' \<notin> set (show_int p)"
    by (auto intro!: not_in_show_int simp: number_char_def)
  from assms have h: "CHR ''@'' \<notin> set h" "CHR ''['' \<notin> set h" "CHR '']'' \<notin> set h"
    by (auto simp: plain_host_def list_all_iff)
  have after_br: "after (CHR ''['') (CHR ''['' # t) = t" for t by (simp add: after_def)
  have after_colon: "after (CHR '':'') (CHR '':'' # t) = t" for t by (simp add: after_def)
  show ?thesis
    using n h by (auto simp: host_and_port_def host_info_def netloc_def after_br after_colon Let_def)
qed

lemma hostname_netloc: "plain_host h \<Longrightarrow> url_netloc u = netloc h p \<Longrightarrow> hostname u = Some h"
  by (simp add: hostname_def host_and_port_netloc plain_host_def)

lemma show_int_digits: "0 \<le> i \<Longrightarrow> list_all is_digit (show_int i)"
proof -
  assume "0 \<le> i"
  have "is_digit c" if "c \<in> set (show_nat n)" for c n
    using show_nat_digits [OF that] by (auto simp: is_digit_def less_eq_char_def simp del: digit.simps)
  with \<open>0 \<le> i\<close> show ?thesis by (auto simp: show_int_def list_all_iff)
qed

lemma port_number_netloc:
  "plain_host h \<Longrightarrow> url_netloc u = netloc h p \<Longrightarrow> 0 \<le> p \<Longrightarrow> p \<le> 65535 \<Longrightarrow> port_number u = Inr (Some p)"
  by (simp add: port_number_def host_and_port_netloc show_int_digits py_int_show_int)

lemma number_char_netloc: "number_char c \<Longrightarrow> netloc_char c \<and> c \<notin> {CHR ''['', CHR '']'', CHR 0x09, CHR 0x0A, CHR 0x0D}"
  by (auto simp: number_char_def netloc_char_def)

lemma netloc_chars:
  assumes "plain_host h"
  shows "plain_netloc (netloc h p)" "list_all (\<lambda>c. c \<notin> {CHR 0x09, CHR 0x0A, CHR 0x0D}) (netloc h p)"
proof -
  have d: "c \<in> set (show_int p) \<Longrightarrow> netloc_char c \<and> c \<notin> {CHR ''['', CHR '']'', CHR 0x09, CHR 0x0A, CHR 0x0D}" for c
    using show_int_chars number_char_netloc by blast
  have colon: "netloc_char (CHR '':'')" "netloc_char (CHR ''['')" "netloc_char (CHR '']'')"
    by (simp_all add: netloc_char_def)
  show "plain_netloc (netloc h p)"
    using assms d colon by (auto simp: plain_host_def plain_netloc_def netloc_def list_all_iff)
  show "list_all (\<lambda>c. c \<notin> {CHR 0x09, CHR 0x0A, CHR 0x0D}) (netloc h p)"
    using assms d by (auto simp: plain_host_def netloc_def list_all_iff)
qed

lemma url_wf_netloc: "url_wf u \<Longrightarrow> plain_host h \<Longrightarrow> url_wf (u\<lparr>url_netloc := netloc h p\<rparr>)"
  using netloc_chars [of h p] by (auto simp: url_wf_def)


lemma forward_over_Inr:
  assumes "forward_over env (Some (VStr p)) host port m = (Inr lp, m')"
  shows "request_forward env p host port m = (Inr lp, m')"
  using assms by (auto simp: forward_over_def from_ssh_def split: prod.splits sum.splits)

text \<open>
  C33. The URL that replaces one with a host and a port leads to the same place when no proxy is
  forced: splitting it gives the same host, that port, and the same scheme, path, query and fragment.
  Through a proxy only host and port change, to localhost and the local end of a forwarding that the
  manager holds for the original host and port.
\<close>

theorem get_url_leads_there:
  assumes "url_wf u" and "hostname u = Some h" and "plain_host h" and "port_number u = Inr q"
    and "or_port q default_port = Some p" and "0 \<le> p" and "p \<le> 65535"
    and "get_url env force_proxy (urlunsplit u) default_port m = (Inr url, m')"
  shows "\<exists>v h' p'. urlsplit url = Inr v \<and> hostname v = Some h' \<and>
    (0 \<le> p' \<longrightarrow> p' \<le> 65535 \<longrightarrow> port_number v = Inr (Some p')) \<and>
    url_scheme v = url_scheme u \<and> url_path v = url_path u \<and> url_query v = url_query u \<and>
    url_fragment v = url_fragment u \<and>
    (if truthy force_proxy
     then h' = ''localhost'' \<and> (\<exists>c. map_of (fst m') (the force_proxy) = Some c \<and>
        map_of (c_lforwards c) (destination h (show_int p)) = Some p')
     else h' = h \<and> p' = p \<and> m' = m)"
proof -
  have localhost: "plain_host ''localhost''" by code_simp
  obtain h' p' m1 where w: "(if truthy force_proxy
      then and_then (forward_over env (map_option VStr force_proxy) h (show_int p) m)
        (\<lambda>p m. (Inr (''localhost'', p), m))
      else (Inr (h, p), m)) = (Inr (h', p'), m1)"
    and url: "url = urlunsplit (u\<lparr>url_netloc := netloc h' p'\<rparr>)" "m' = m1"
    using assms(2,4,5,8) urlsplit_urlunsplit [OF assms(1)]
    by (auto simp: get_url_def from_python_def and_then_def split: sum.splits prod.splits if_splits)
  have h': "plain_host h'" using w assms(3) localhost
    by (auto simp: and_then_def split: if_splits sum.splits prod.splits)
  let ?v = "u\<lparr>url_netloc := netloc h' p'\<rparr>"
  have "urlsplit url = Inr ?v" unfolding url(1) by (rule urlsplit_urlunsplit, rule url_wf_netloc) fact+
  moreover have "hostname ?v = Some h'" by (rule hostname_netloc [OF h']) simp
  moreover have "0 \<le> p' \<longrightarrow> p' \<le> 65535 \<longrightarrow> port_number ?v = Inr (Some p')"
    by (intro impI port_number_netloc [OF h']) simp_all
  moreover have "h' = ''localhost'' \<and> (\<exists>c. map_of (fst m') (the force_proxy) = Some c \<and>
        map_of (c_lforwards c) (destination h (show_int p)) = Some p')" if t: "truthy force_proxy"
  proof -
    obtain f where f: "force_proxy = Some f" using t by (cases force_proxy) simp_all
    with w t have "h' = ''localhost''" "forward_over env (Some (VStr f)) h (show_int p) m = (Inr p', m1)"
      by (auto simp: and_then_def split: sum.splits prod.splits)
    with request_forward_Inr [OF forward_over_Inr] f url(2) show ?thesis by fastforce
  qed
  moreover have "h' = h \<and> p' = p \<and> m' = m" if "\<not> truthy force_proxy" using w url(2) that by simp
  ultimately show ?thesis by (intro exI [of _ ?v] exI [of _ h'] exI [of _ p']) simp
qed

definition example_url :: url_parts where
  "example_url = \<lparr>url_scheme = ''http'', url_netloc = ''me@h:8080'', url_path = ''/x'', url_query = ''a=b'',
     url_fragment = []\<rparr>"

lemma get_url_leads_there_witness:
  "\<exists>v. urlsplit (urlunsplit (example_url\<lparr>url_netloc := netloc ''h'' 8080\<rparr>)) = Inr v \<and>
     hostname v = Some ''h'' \<and> port_number v = Inr (Some 8080) \<and> url_query v = ''a=b''"
proof -
  have wf: "url_wf example_url" by code_simp
  have host: "hostname example_url = Some ''h''" by code_simp
  have plain: "plain_host ''h''" by code_simp
  have port: "port_number example_url = Inr (Some 8080)" by code_simp
  have q: "or_port (Some 8080) None = Some 8080" by code_simp
  have "get_url all_works None (urlunsplit example_url) None ([], []) =
      (Inr (urlunsplit (example_url\<lparr>url_netloc := netloc ''h'' 8080\<rparr>)), [], [])"
    by (simp add: get_url_def from_python_def urlsplit_urlunsplit [OF wf] host port q)
  from get_url_leads_there [OF wf host plain port q _ _ this] show ?thesis
    by (auto simp: example_url_def)
qed

end
