(* ===== verification/SshDriver.thy ===== *)
theory SshDriver
  imports Proxy
begin

text \<open>
  \<^verbatim>\<open>labgrid/driver/sshdriver.py\<close>: commands and files over a control master of the driver's own,
  which is started again until it works or time is up. The processes it starts are answered by the
  environment of \<open>Ssh\<close>; the manager of that theory opens the connection to a proxy.
\<close>

section \<open>Service, configuration and state\<close>

record network_service = proxied +
  sv_username :: "string option"
  sv_password :: "string option"

record ssh_config =
  sc_keyfile :: string
  sc_stderr_merge :: bool
  sc_timeout :: real
  sc_sftp_mode :: bool
  sc_scp_mode :: bool
  sc_username :: string
  sc_password :: "string option"
  tool_ssh :: string
  tool_scp :: string
  tool_sshfs :: string
  tool_rsync :: string

record ssh_state =
  sd_prefix :: "string list"
  sd_control :: string
  sd_keepalive :: "nat option"
  sd_tmpdirs :: "string list"
  sd_pass_files :: "string list"
  sd_manager :: manager

text \<open>The last error is a plain \<open>Exception\<close>: time is up, or ssh is too old for the protocol asked for.\<close>

datatype driver_error = DriverSsh proxy_error | DriverException

type_synonym 'a driving = "(driver_error, 'a, ssh_state) outcome"

abbreviation execution_error :: driver_error where
  "execution_error \<equiv> DriverSsh (ProxySsh SshExecution)"

abbreviation python_error :: "py_error \<Rightarrow> driver_error" where
  "python_error e \<equiv> DriverSsh (ProxySsh (SshPy e))"

abbreviation events_of :: "ssh_state \<Rightarrow> event list" where
  "events_of s \<equiv> snd (sd_manager s)"

definition happened :: "event \<Rightarrow> ssh_state \<Rightarrow> ssh_state" where
  "happened e s = s\<lparr>sd_manager := (fst (sd_manager s), events_of s @ [e])\<rparr>"

definition chosen_username :: "ssh_config \<Rightarrow> network_service \<Rightarrow> string option" where
  "chosen_username cfg sv = (if sc_username cfg \<noteq> [] then Some (sc_username cfg) else sv_username sv)"

definition chosen_password :: "ssh_config \<Rightarrow> network_service \<Rightarrow> string option" where
  "chosen_password cfg sv = (if sc_password cfg \<noteq> None then sc_password cfg else sv_password sv)"

text \<open>The options \<open>-l user\<close> and \<open>-p port\<close>, and a path with its percent signs doubled.\<close>

definition login_args :: "ssh_config \<Rightarrow> network_service \<Rightarrow> string list" where
  "login_args cfg sv = (if truthy (chosen_username cfg sv) then [''-l'', the (chosen_username cfg sv)] else [])"

definition sv_port_word :: "network_service \<Rightarrow> string" where
  "sv_port_word sv = port_word (p_port sv)"

definition double_percent :: "string \<Rightarrow> string" where
  "double_percent s = concat (map (\<lambda>c. if c = CHR ''%'' then ''%%'' else [c]) s)"

definition control_path :: "string \<Rightarrow> string" where
  "control_path control = ''ControlPath='' @ double_percent control"


section \<open>Starting the master\<close>

text \<open>The built-in \<open>round\<close>: to the nearest number, to the even one from the middle.\<close>

definition py_round :: "real \<Rightarrow> int" where
  "py_round x =
     (let n = \<lfloor>x\<rfloor>; d = x - of_int n in
      if d < 1 / 2 then n else if d > 1 / 2 then n + 1 else if even n then n else n + 1)"

text \<open>A command is started and ends, is not back in time, or cannot be started.\<close>

definition finish :: "ssh_env \<Rightarrow> string list \<Rightarrow> ssh_state \<Rightarrow> reply \<times> ssh_state" where
  "finish env cmd s = (let a = answer env (events_of s) cmd in (a, happened (Ran cmd a) s))"

definition master_args ::
  "ssh_config \<Rightarrow> network_service \<Rightarrow> string list \<Rightarrow> string \<Rightarrow> int \<Rightarrow> string list" where
  "master_args cfg sv prefix control timeout =
     [tool_ssh cfg, ''-f''] @ prefix @
     [''-x'', ''-o'', ''ConnectTimeout='' @ show_int timeout, ''-o'', ''ControlPersist=300'', ''-o'',
      ''UserKnownHostsFile=/dev/null'', ''-o'', ''StrictHostKeyChecking=no'', ''-o'', ''ServerAliveInterval=15'',
      ''-MN'', ''-S'', double_percent control, ''-p'', sv_port_word sv] @ login_args cfg sv @ [p_host sv]"

definition proxy_args :: "string list option \<Rightarrow> string \<Rightarrow> string list" where
  "proxy_args cmd tmpdir =
     (case cmd of None \<Rightarrow> []
      | Some c \<Rightarrow>
          if c = [] then []
          else [''-o'', ''ProxyCommand='' @ join_with '' '' c @ '' 2>'' @ tmpdir @ ''/proxy-stderr''])"

text \<open>The script that tells ssh the password.\<close>

definition pass_script :: "string \<Rightarrow> string" where
  "pass_script password = ''#!/bin/sh'' @ [CHR 0x0A] @ ''echo '' @ quote password"

definition via_manager :: "(manager \<Rightarrow> 'a proxying) \<Rightarrow> ssh_state \<Rightarrow> 'a driving" where
  "via_manager f s =
     (case f (sd_manager s) of
        (Inl e, m) \<Rightarrow> (Inl (DriverSsh e), s\<lparr>sd_manager := m\<rparr>)
      | (Inr a, m) \<Rightarrow> (Inr a, s\<lparr>sd_manager := m\<rparr>))"

definition run_master ::
  "ssh_env \<Rightarrow> ssh_config \<Rightarrow> network_service \<Rightarrow> string \<Rightarrow> string list \<Rightarrow> ssh_state \<Rightarrow> string driving" where
  "run_master env cfg sv control args s =
     (let password = chosen_password cfg sv;
          pass_file = temporary env (events_of s);
          s = (if password = None then s else s\<lparr>sd_pass_files := pass_file # sd_pass_files s\<rparr>);
          (a, s) = finish env args s in
      if a = Unstartable then (Inl (DriverSsh (ProxySsh SshOs)), s)
      else
        let s = (if password = None then s else s\<lparr>sd_pass_files := removeAll pass_file (sd_pass_files s)\<rparr>) in
        (case a of
           Exited n _ _ \<Rightarrow>
             if n = 0 \<and> path_exists env (events_of s) control then (Inr control, s)
             else (Inl execution_error, s)
         | _ \<Rightarrow> (Inl execution_error, s)))"

definition start_master_once ::
  "ssh_env \<Rightarrow> string option \<Rightarrow> ssh_config \<Rightarrow> network_service \<Rightarrow> int \<Rightarrow> ssh_state \<Rightarrow> string driving" where
  "start_master_once env force_proxy cfg sv timeout s =
     (let tmpdir = temporary env (events_of s);
          s = s\<lparr>sd_tmpdirs := sd_tmpdirs s @ [tmpdir]\<rparr>;
          address = p_host sv;
          control = path_join tmpdir (''control-'' @ address);
          args = master_args cfg sv (sd_prefix s) control timeout in
      if 1 < count_list address (CHR ''%'') then (Inl (python_error ValueError), s)
      else and_then (via_manager (proxy_command env force_proxy (proxied.truncate sv)
             (before (CHR ''%'') address) (the (p_port sv))
             (if CHR ''%'' \<in> set address then Some (after (CHR ''%'') address) else None)) s)
        (\<lambda>cmd. run_master env cfg sv control (args @ proxy_args cmd tmpdir)))"

text \<open>\<open>Timeout.remaining\<close> and \<open>Timeout.expired\<close> for a deadline.\<close>

definition remaining :: "ssh_env \<Rightarrow> real \<Rightarrow> ssh_state \<Rightarrow> real" where
  "remaining env deadline s = max 0 (deadline - clock env (events_of s))"

definition expired :: "ssh_env \<Rightarrow> real \<Rightarrow> ssh_state \<Rightarrow> bool" where
  "expired env deadline s \<longleftrightarrow> deadline \<le> clock env (events_of s)"

text \<open>The loop of \<open>_start_own_master\<close>, with fuel for its rounds.\<close>

fun start_master ::
  "nat \<Rightarrow> ssh_env \<Rightarrow> string option \<Rightarrow> ssh_config \<Rightarrow> network_service \<Rightarrow> real \<Rightarrow> int \<Rightarrow> ssh_state \<Rightarrow>
   string driving option"
where
  "start_master 0 env force_proxy cfg sv deadline t s = None"
| "start_master (Suc n) env force_proxy cfg sv deadline t s =
     (case start_master_once env force_proxy cfg sv t s of
        (Inr control, s) \<Rightarrow> Some (Inr control, s)
      | (Inl e, s) \<Rightarrow>
          if e \<noteq> execution_error then Some (Inl e, s)
          else if expired env deadline s then Some (Inl DriverException, s)
          else let s = happened (Slept (1 / 2)) s in
            start_master n env force_proxy cfg sv deadline (py_round (remaining env deadline s)) s)"

definition start_own_master_loop ::
  "nat \<Rightarrow> ssh_env \<Rightarrow> string option \<Rightarrow> ssh_config \<Rightarrow> network_service \<Rightarrow> ssh_state \<Rightarrow> string driving option" where
  "start_own_master_loop n env force_proxy cfg sv s =
     (let deadline = clock env (events_of s) + sc_timeout cfg in
      if sc_timeout cfg < 0 then Some (Inl (python_error ValueError), s)
      else start_master n env force_proxy cfg sv deadline (py_round (remaining env deadline s)) s)"

definition keepalive_args :: "ssh_config \<Rightarrow> network_service \<Rightarrow> ssh_state \<Rightarrow> string list" where
  "keepalive_args cfg sv s = tool_ssh cfg # sd_prefix s @ login_args cfg sv @ [p_host sv, ''cat'']"

definition spawn_keepalive :: "ssh_env \<Rightarrow> ssh_config \<Rightarrow> network_service \<Rightarrow> ssh_state \<Rightarrow> unit driving" where
  "spawn_keepalive env cfg sv s =
     (let cmd = keepalive_args cfg sv s; k = length (events_of s) in
      if sd_keepalive s \<noteq> None then (Inl (python_error AssertionError), s)
      else if \<not> spawnable env (events_of s) cmd then (Inl (DriverSsh (ProxySsh SshOs)), s)
      else (Inr (), (happened (Spawned cmd) s)\<lparr>sd_keepalive := Some k\<rparr>))"

text \<open>\<open>on_activate\<close>; \<open>resolve\<close> makes the path of the key absolute when there is an environment.\<close>

definition initial_prefix ::
  "(string \<Rightarrow> string) \<Rightarrow> ssh_config \<Rightarrow> network_service \<Rightarrow> string list" where
  "initial_prefix resolve cfg sv =
     [''-o'', ''LogLevel=ERROR''] @
     (if sc_keyfile cfg \<noteq> [] then [''-i'', resolve (sc_keyfile cfg)] else []) @
     (if chosen_password cfg sv = None then [''-o'', ''PasswordAuthentication=no''] else [])"

definition driver_activate ::
  "nat \<Rightarrow> (string \<Rightarrow> string) \<Rightarrow> ssh_env \<Rightarrow> string option \<Rightarrow> ssh_config \<Rightarrow> network_service \<Rightarrow> ssh_state \<Rightarrow>
   unit driving option"
where
  "driver_activate n resolve env force_proxy cfg sv s =
     (let s = s\<lparr>sd_prefix := initial_prefix resolve cfg sv\<rparr> in
      case start_own_master_loop n env force_proxy cfg sv s of
        None \<Rightarrow> None
      | Some (Inl e, s) \<Rightarrow> Some (Inl e, s)
      | Some (Inr control, s) \<Rightarrow>
          Some (spawn_keepalive env cfg sv
            (s\<lparr>sd_control := control, sd_keepalive := None,
               sd_prefix := sd_prefix s @ [''-F'', ''none''] @
                 (if control \<noteq> [] then [''-o'', control_path control] else [])\<rparr>)))"


section \<open>Commands\<close>

definition with_keepalive :: "ssh_env \<Rightarrow> (ssh_state \<Rightarrow> 'a driving) \<Rightarrow> ssh_state \<Rightarrow> 'a driving" where
  "with_keepalive env f s =
     (case sd_keepalive s of
        None \<Rightarrow> (Inl (python_error AttributeError), s)
      | Some k \<Rightarrow>
          let alive = running env (events_of s) k; s = happened (Polled k) s in
          if alive then f s else (Inl execution_error, s))"

definition command_line :: "ssh_config \<Rightarrow> network_service \<Rightarrow> string \<Rightarrow> ssh_state \<Rightarrow> string list" where
  "command_line cfg sv cmd s =
     tool_ssh cfg # ''-x'' # sd_prefix s @ [''-p'', sv_port_word sv] @ login_args cfg sv @ [p_host sv] @
     split_on (CHR '' '') cmd"

text \<open>Of the lines of stderr, the one after the last newline is dropped, whatever it holds.\<close>

definition driver_run ::
  "ssh_env \<Rightarrow> ssh_config \<Rightarrow> network_service \<Rightarrow> string \<Rightarrow> ssh_state \<Rightarrow>
   (string list \<times> string list \<times> int) driving"
where
  "driver_run env cfg sv cmd = with_keepalive env (\<lambda>s.
     let (a, s) = finish env (command_line cfg sv cmd s) s in
     (case a of
        Exited n out err \<Rightarrow>
          Inr (lines_of out, if sc_stderr_merge cfg then [] else butlast (split_on (CHR 0x0A) err), n)
      | Expired \<Rightarrow> Inl (DriverSsh (ProxySsh SshExpired))
      | Unstartable \<Rightarrow> Inl execution_error, s))"

definition driver_interact ::
  "ssh_env \<Rightarrow> ssh_config \<Rightarrow> network_service \<Rightarrow> string list \<Rightarrow> ssh_state \<Rightarrow> int driving" where
  "driver_interact env cfg sv cmd = with_keepalive env (\<lambda>s.
     let (a, s) = finish env (tool_ssh cfg # ''-x'' # sd_prefix s @ [''-t'', p_host sv] @
           (if cmd = [] then [] else ''--'' # cmd)) s in
     (case a of Exited n _ _ \<Rightarrow> Inr n | _ \<Rightarrow> Inl (DriverSsh (ProxySsh SshOs)), s))"


section \<open>Forwardings\<close>

text \<open>\<open>subprocess.run(cmd, check=True)\<close>.\<close>

definition finish_checked :: "ssh_env \<Rightarrow> string list \<Rightarrow> ssh_state \<Rightarrow> unit driving" where
  "finish_checked env cmd s =
     (let (a, s) = finish env cmd s in
      (case a of
         Exited n _ _ \<Rightarrow> if n = 0 then Inr () else Inl (DriverSsh (ProxySsh (SshCalled n)))
       | _ \<Rightarrow> Inl (DriverSsh (ProxySsh SshOs)), s))"

definition forward_line ::
  "ssh_config \<Rightarrow> network_service \<Rightarrow> ssh_state \<Rightarrow> string \<Rightarrow> string \<Rightarrow> string list" where
  "forward_line cfg sv s command forward =
     tool_ssh cfg # sd_prefix s @ [''-O'', command, forward, p_host sv]"

text \<open>
  The context manager \<open>_forward\<close> around a body. Cancelling is not checked, but the program must be
  there to be started; its error would then replace the one of the body.
\<close>

definition with_forward ::
  "ssh_env \<Rightarrow> ssh_config \<Rightarrow> network_service \<Rightarrow> string \<Rightarrow> (ssh_state \<Rightarrow> 'a driving) \<Rightarrow> ssh_state \<Rightarrow> 'a driving"
where
  "with_forward env cfg sv forward body s =
     and_then (finish_checked env (forward_line cfg sv s ''forward'' forward) s) (\<lambda>_ s.
       let (r, s) = body s; (a, s) = finish env (forward_line cfg sv s ''cancel'' forward) s in
       (if a = Unstartable then Inl (DriverSsh (ProxySsh SshOs)) else r, s))"

definition ask_port :: "ssh_env \<Rightarrow> int option \<Rightarrow> ssh_state \<Rightarrow> int \<times> ssh_state" where
  "ask_port env p s =
     (case p of Some n \<Rightarrow> (n, s) | None \<Rightarrow> (port_free env (events_of s), happened PortAsked s))"

definition forward_local_port ::
  "ssh_env \<Rightarrow> ssh_config \<Rightarrow> network_service \<Rightarrow> int \<Rightarrow> int option \<Rightarrow> (int \<Rightarrow> ssh_state \<Rightarrow> 'a driving) \<Rightarrow>
   ssh_state \<Rightarrow> 'a driving"
where
  "forward_local_port env cfg sv remoteport localport body = with_keepalive env (\<lambda>s.
     let (p, s) = ask_port env localport s in
     with_forward env cfg sv (''-L'' @ show_int p @ '':localhost:'' @ show_int remoteport) (body p) s)"

definition forward_remote_port ::
  "ssh_env \<Rightarrow> ssh_config \<Rightarrow> network_service \<Rightarrow> int \<Rightarrow> int \<Rightarrow> (ssh_state \<Rightarrow> 'a driving) \<Rightarrow>
   ssh_state \<Rightarrow> 'a driving"
where
  "forward_remote_port env cfg sv remoteport localport body = with_keepalive env
     (with_forward env cfg sv (''-R'' @ show_int remoteport @ '':localhost:'' @ show_int localport) body)"

definition forward_unix_socket ::
  "ssh_env \<Rightarrow> ssh_config \<Rightarrow> network_service \<Rightarrow> string \<Rightarrow> int option \<Rightarrow> (int \<Rightarrow> ssh_state \<Rightarrow> 'a driving) \<Rightarrow>
   ssh_state \<Rightarrow> 'a driving"
where
  "forward_unix_socket env cfg sv unixsocket localport body = with_keepalive env (\<lambda>s.
     let (p, s) = ask_port env localport s in
     with_forward env cfg sv (''-L'' @ show_int p @ '':'' @ unixsocket) (body p) s)"


section \<open>Files\<close>

text \<open>
  Exactly one side must be remote, that is begin with a colon; scp wants something in front of it.
\<close>

definition copy_sides :: "string \<Rightarrow> string \<Rightarrow> py_error + string \<times> string" where
  "copy_sides src dst =
     (if startswith src '':'' = startswith dst '':'' then Inl ValueError
      else Inr (if startswith src '':'' then ''_'' @ src else src, if startswith dst '':'' then ''_'' @ dst else dst))"

text \<open>\<open>_ssh_version\<close> reads the number from what ssh says about itself.\<close>

fun digits_of :: "string \<Rightarrow> string \<times> string" where
  "digits_of [] = ([], [])"
| "digits_of (c # s) = (if is_digit c then (let (d, r) = digits_of s in (c # d, r)) else ([], c # s))"

definition ssh_version :: "string \<Rightarrow> (int \<times> int) option" where
  "ssh_version text =
     (if \<not> startswith text ''OpenSSH_'' then None
      else let (a, r) = digits_of (drop 8 text); (b, _) = digits_of (tl r) in
        if a \<noteq> [] \<and> r \<noteq> [] \<and> hd r = CHR ''.'' \<and> b \<noteq> []
        then (case (py_int 10 a, py_int 10 b) of (Inr m, Inr n) \<Rightarrow> Some (m, n) | _ \<Rightarrow> None)
        else None)"

definition supports_sftp_mode :: "int \<times> int \<Rightarrow> driver_error + bool" where
  "supports_sftp_mode v =
     (if fst v = 8 \<and> 6 \<le> snd v then Inr True else if 9 \<le> fst v then Inr False else Inl DriverException)"

definition supports_scp_mode :: "int \<times> int \<Rightarrow> driver_error + bool" where
  "supports_scp_mode v = (if 9 \<le> fst v then Inr True else Inl DriverException)"

text \<open>
  The options that choose a protocol, as they stand after the name of the program; \<open>version\<close> is
  what \<open>_ssh_version\<close> has found.
\<close>

definition asked_mode ::
  "bool \<Rightarrow> (int \<times> int \<Rightarrow> driver_error + bool) \<Rightarrow> (int \<times> int) option \<Rightarrow> driver_error + bool" where
  "asked_mode wanted supports version =
     (if \<not> wanted then Inr False
      else case version of None \<Rightarrow> Inl (python_error AttributeError) | Some v \<Rightarrow> supports v)"

definition mode_args :: "ssh_config \<Rightarrow> (int \<times> int) option \<Rightarrow> driver_error + string list" where
  "mode_args cfg version =
     and_result (asked_mode (sc_sftp_mode cfg) supports_sftp_mode version) (\<lambda>sftp.
     and_result (asked_mode (sc_scp_mode cfg) supports_scp_mode version) (\<lambda>scp.
       Inr ((if scp then [''-O''] else []) @ (if sftp then [''-s''] else []))))"

definition exit_status :: "ssh_env \<Rightarrow> string list \<Rightarrow> ssh_state \<Rightarrow> int driving" where
  "exit_status env cmd s =
     (let (a, s) = finish env cmd s in
      (case a of Exited n _ _ \<Rightarrow> Inr n | _ \<Rightarrow> Inl (DriverSsh (ProxySsh SshOs)), s))"

definition driver_scp ::
  "ssh_env \<Rightarrow> ssh_config \<Rightarrow> (int \<times> int) option \<Rightarrow> string \<Rightarrow> string \<Rightarrow> ssh_state \<Rightarrow> int driving" where
  "driver_scp env cfg version src dst = with_keepalive env (\<lambda>s.
     case copy_sides src dst of
       Inl e \<Rightarrow> (Inl (python_error e), s)
     | Inr (src, dst) \<Rightarrow>
         (case mode_args cfg version of
            Inl e \<Rightarrow> (Inl e, s)
          | Inr mode \<Rightarrow>
              exit_status env (tool_scp cfg # mode @ [''-S'', tool_ssh cfg, ''-F'', ''none'', ''-o'',
                control_path (sd_control s), src, dst]) s))"

definition driver_rsync ::
  "ssh_env \<Rightarrow> ssh_config \<Rightarrow> string \<Rightarrow> string \<Rightarrow> string list \<Rightarrow> ssh_state \<Rightarrow> int driving" where
  "driver_rsync env cfg src dst extra = with_keepalive env (\<lambda>s.
     case copy_sides src dst of
       Inl e \<Rightarrow> (Inl (python_error e), s)
     | Inr (src, dst) \<Rightarrow>
         exit_status env ([tool_rsync cfg, ''-v'', ''--rsh='' @ join_with '' '' [tool_ssh cfg, ''-F'', ''none'', ''-o'',
             control_path (sd_control s)], ''-rlpt'', ''--one-file-system'', ''--progress''] @ extra @ [src, dst]) s)"

text \<open>\<open>sshfs\<close> must still run after a second; then it is waited for.\<close>

definition driver_sshfs :: "ssh_env \<Rightarrow> ssh_config \<Rightarrow> string \<Rightarrow> string \<Rightarrow> ssh_state \<Rightarrow> unit driving" where
  "driver_sshfs env cfg path mountpoint = with_keepalive env (\<lambda>s.
     let (a, s) = finish env [tool_sshfs cfg, ''-F'', ''none'', ''-f'', ''-o'', control_path (sd_control s),
           '':'' @ path, mountpoint] s in
     (case a of
        Exited _ _ _ \<Rightarrow> Inl execution_error
      | Expired \<Rightarrow> Inr ()
      | Unstartable \<Rightarrow> Inl (DriverSsh (ProxySsh SshOs)), s))"

definition remote_file :: "ssh_config \<Rightarrow> network_service \<Rightarrow> string \<Rightarrow> string" where
  "remote_file cfg sv path =
     (if truthy (chosen_username cfg sv) then the (chosen_username cfg sv) @ ''@'' else []) @
     p_host sv @ '':'' @ path"

definition transfer ::
  "ssh_env \<Rightarrow> ssh_config \<Rightarrow> network_service \<Rightarrow> (int \<times> int) option \<Rightarrow> string \<Rightarrow> string \<Rightarrow> ssh_state \<Rightarrow> unit driving"
where
  "transfer env cfg sv version src dst s =
     (case mode_args cfg version of
        Inl e \<Rightarrow> (Inl e, s)
      | Inr mode \<Rightarrow>
          let (a, s) = finish env (tool_scp cfg # mode @ [''-S'', tool_ssh cfg] @ sd_prefix s @
                [''-P'', sv_port_word sv, ''-r'', src, dst]) s in
          (case a of Exited n _ _ \<Rightarrow> if n = 0 then Inr () else Inl execution_error | _ \<Rightarrow> Inl execution_error, s))"

definition driver_put ::
  "ssh_env \<Rightarrow> ssh_config \<Rightarrow> network_service \<Rightarrow> (int \<times> int) option \<Rightarrow> string \<Rightarrow> string \<Rightarrow> ssh_state \<Rightarrow> unit driving"
where
  "driver_put env cfg sv version filename remotepath =
     transfer env cfg sv version filename (remote_file cfg sv remotepath)"

definition driver_get ::
  "ssh_env \<Rightarrow> ssh_config \<Rightarrow> network_service \<Rightarrow> (int \<times> int) option \<Rightarrow> string \<Rightarrow> string \<Rightarrow> ssh_state \<Rightarrow> unit driving"
where
  "driver_get env cfg sv version filename dst =
     transfer env cfg sv version (remote_file cfg sv filename) dst"


section \<open>Deactivation\<close>

definition end_keepalive :: "ssh_state \<Rightarrow> unit driving" where
  "end_keepalive s =
     (if sd_keepalive s = None then (Inl (python_error AssertionError), s)
      else (Inr (), s\<lparr>sd_keepalive := None\<rparr>))"

definition cleanup_line :: "ssh_config \<Rightarrow> network_service \<Rightarrow> ssh_state \<Rightarrow> string list" where
  "cleanup_line cfg sv s =
     [tool_ssh cfg, ''-x'', ''-o'', control_path (sd_control s), ''-O'', ''exit'', ''-p'', sv_port_word sv] @
     login_args cfg sv @ [p_host sv]"

text \<open>Only the directory of the last attempt is known and removed.\<close>

definition cleanup_own_master :: "ssh_env \<Rightarrow> ssh_config \<Rightarrow> network_service \<Rightarrow> ssh_state \<Rightarrow> unit driving" where
  "cleanup_own_master env cfg sv s =
     and_then (exit_status env (cleanup_line cfg sv s) s)
       (\<lambda>_ s. (Inr (), s\<lparr>sd_tmpdirs := butlast (sd_tmpdirs s)\<rparr>))"

definition driver_deactivate :: "ssh_env \<Rightarrow> ssh_config \<Rightarrow> network_service \<Rightarrow> ssh_state \<Rightarrow> unit driving" where
  "driver_deactivate env cfg sv s =
     (let (r, s) = end_keepalive s; (q, s) = cleanup_own_master env cfg sv s in
      (case q of Inl e \<Rightarrow> Inl e | Inr _ \<Rightarrow> r, s))"


section \<open>Results\<close>

lemma split_on_end: "split_on c (s @ [c]) = split_on c s @ [[]]"
  by (induction s) (auto split: list.splits)

lemma butlast_lines: "s = [] \<or> last s = CHR 0x0A \<Longrightarrow> butlast (split_on (CHR 0x0A) s) = lines_of s"
proof (cases s rule: rev_cases)
  case (snoc u c)
  moreover assume "s = [] \<or> last s = CHR 0x0A"
  ultimately show ?thesis by (simp add: lines_of_def split_on_end)
qed (simp add: lines_of_def)

text \<open>
  A command run by the driver and the same command run over an SSH connection of the manager give
  the same lines and exit status for the same answer of ssh, provided that what it wrote to stderr is
  empty or ends a line.
\<close>

lemma runs_agree:
  assumes "sd_keepalive s = Some k" and "running env (events_of s) k"
    and "c_connected c" and "c_keepalive c = Some k'" and "running env h k'"
    and "answer env (events_of s @ [Polled k]) (command_line cfg sv cmd s) = Exited n out err"
    and "answer env (h @ [Polled k']) (''ssh'' # ssh_args c @ [c_host c, cmd]) = Exited n out err"
    and "err = [] \<or> last err = CHR 0x0A"
  shows "fst (driver_run env cfg sv cmd s) = Inr x \<longleftrightarrow>
    fst (conn_run env cmd False (sc_stderr_merge cfg) (c, h)) = Inr x"
  using assms butlast_lines [OF assms(8)]
  by (simp add: driver_run_def with_keepalive_def conn_run_def check_connected_def isconnected_def
      check_keepalive_def finish_def happened_def command_line_def Let_def)

text \<open>Without that, the driver loses the end of stderr.\<close>

lemma driver_loses_stderr:
  "butlast (split_on (CHR 0x0A) ''error'') = [] \<and> lines_of ''error'' = [''error'']"
  by code_simp


section \<open>Starting the master ends\<close>

text \<open>Time does not go back, and sleeping takes its time.\<close>

definition clock_runs :: "ssh_env \<Rightarrow> bool" where
  "clock_runs env \<longleftrightarrow>
     (\<forall>h e. clock env h \<le> clock env (h @ [e])) \<and> (\<forall>h d. clock env h + d \<le> clock env (h @ [Slept d]))"

lemma later: "clock_runs env \<Longrightarrow> x \<le> clock env h \<Longrightarrow> x \<le> clock env (h @ [e])"
  unfolding clock_runs_def by (meson order_trans)

lemma execute_later:
  "clock_runs env \<Longrightarrow> x \<le> clock env (snd s) \<Longrightarrow> x \<le> clock env (snd (snd (execute env cmd s)))"
  by (simp add: execute_def Let_def later)

lemma start_own_master_later:
  assumes "clock_runs env" and "x \<le> clock env (snd s)"
  shows "x \<le> clock env (snd (snd (start_own_master env s)))"
proof -
  have "x \<le> clock env (snd (snd (execute env cmd s)))" for cmd
    using execute_later [OF assms] .
  then have "x \<le> clock env (snd (snd (and_then (execute env cmd s) (\<lambda>a (c, h).
      (let c = c\<lparr>c_master := True\<rparr> in
       case a of
         Exited n _ _ \<Rightarrow>
           if n \<noteq> 0 then (Inl SshExecution, c, h)
           else if \<not> path_exists env h control then (Inl SshExecution, c, h)
           else (Inr (), c\<lparr>c_socket := Some control\<rparr>, h)
       | _ \<Rightarrow> (Inl SshExecution, c, h))))))" for cmd control
    by (intro and_then_keeps [where P = "\<lambda>s. x \<le> clock env (snd s)"])
      (auto simp: Let_def split: reply.splits prod.splits)
  with assms(2) show ?thesis
    by (auto simp: start_own_master_def Let_def split: sum.splits)
qed

lemma conn_connect_later:
  assumes "clock_runs env" and "x \<le> clock env (snd s)"
  shows "x \<le> clock env (snd (snd (conn_connect env s)))"
proof -
  let ?P = "\<lambda>s. x \<le> clock env (snd s)"
  have check: "?P t \<Longrightarrow> ?P (snd (check_external_master env t))" for t :: "conn \<times> event list"
    unfolding check_external_master_def
    by (intro and_then_keeps [where P = ?P]) (auto intro: execute_later assms(1))
  have keep: "?P t \<Longrightarrow> ?P (snd (start_keepalive env t))" for t :: "conn \<times> event list"
    by (auto simp: start_keepalive_def Let_def intro: later [OF assms(1)] split: prod.splits)
  have "?P (snd (open_connection env s))"
    unfolding open_connection_def
    by (intro and_then_keeps [where P = ?P])
      (auto intro: check keep start_own_master_later assms split: if_splits prod.splits)
  with assms(2) show ?thesis by (simp add: conn_connect_def)
qed

lemma get_prefix_later:
  assumes "clock_runs env" and "x \<le> clock env (snd m)"
  shows "x \<le> clock env (snd (snd (with_connection env p (conn_get_prefix env) m)))"
proof -
  have get: "x \<le> clock env (snd (snd (manager_get env p m)))"
    using conn_connect_later [OF assms(1), of x "(new_conn p (temporary env (snd m)), snd m)"] assms(2)
    by (auto simp: manager_get_def split: option.splits prod.splits sum.splits)
  have pre: "x \<le> clock env h \<Longrightarrow> x \<le> clock env (snd (snd (conn_get_prefix env (c, h))))" for c h
    unfolding conn_get_prefix_def check_connected_def
    by (intro and_then_keeps [where P = "\<lambda>s. x \<le> clock env (snd s)"])
      (auto simp: isconnected_def check_keepalive_def intro: later [OF assms(1)] split: option.splits)
  show ?thesis
    unfolding with_connection_def
  proof (rule and_then_keeps [where P = "\<lambda>s. x \<le> clock env (snd s)", OF get])
    fix a and m1 :: manager
    assume "x \<le> clock env (snd m1)"
    with pre [of "snd m1"] show "x \<le> clock env (snd (snd (on_connection p (conn_get_prefix env) m1)))"
      by (auto simp: on_connection_def split: option.splits prod.splits) (metis snd_conv)
  qed
qed

lemma proxy_command_later:
  assumes "clock_runs env" and "x \<le> clock env (snd m)"
  shows "x \<le> clock env (snd (snd (proxy_command env fp res host port ifname m)))"
proof -
  have "x \<le> clock env (snd (snd (from_ssh (with_connection env p (conn_get_prefix env) m))))" for p
    using get_prefix_later [OF assms, of p] by (auto simp: from_ssh_def split: prod.splits sum.splits)
  then have "x \<le> clock env (snd (snd (and_then (from_ssh (with_connection env p (conn_get_prefix env) m))
      (\<lambda>a m. (Inr (f a), m)))))" for p and f :: "string list \<Rightarrow> string list option"
    by (intro and_then_keeps [where P = "\<lambda>s. x \<le> clock env (snd s)"]) auto
  with assms(2) show ?thesis by (simp add: proxy_command_def split: option.split pyval.split)
qed

lemma start_master_once_later:
  assumes "clock_runs env" and "x \<le> clock env (events_of s)"
  shows "x \<le> clock env (events_of (snd (start_master_once env fp cfg sv t s)))"
proof -
  let ?P = "\<lambda>s. x \<le> clock env (events_of s)"
  have via: "?P s \<Longrightarrow> ?P (snd (via_manager (proxy_command env fp res h p i) s))" for s res h p i
    using proxy_command_later [OF assms(1), of x "sd_manager s" fp res h p i]
    by (auto simp: via_manager_def split: prod.splits sum.splits)
  have run: "?P s \<Longrightarrow> ?P (snd (run_master env cfg sv control args s))" for control args s
    by (simp add: run_master_def finish_def happened_def Let_def later [OF assms(1)] split: reply.split)
  have "?P (snd (and_then (via_manager f s) k))"
    if "\<And>s. ?P s \<Longrightarrow> ?P (snd (via_manager f s))" "\<And>a s. ?P s \<Longrightarrow> ?P (snd (k a s))" "?P s"
    for f :: "manager \<Rightarrow> string list option proxying" and k :: "string list option \<Rightarrow> ssh_state \<Rightarrow> string driving" and s
    using that by (intro and_then_keeps [where P = ?P]) auto
  from this [OF via run] show ?thesis
    using assms(2) by (simp add: start_master_once_def Let_def)
qed

text \<open>
  C34. Starting the master comes to an end: the attempts are repeated until one works or the timeout
  has passed, at most two for each second of it and one more.
\<close>

theorem start_master_ends:
  assumes "clock_runs env" and "2 * sc_timeout cfg + 1 \<le> real n"
  shows "start_own_master_loop n env fp cfg sv s \<noteq> None"
proof -
  have "start_master n env fp cfg sv deadline t s \<noteq> None"
    if "1 \<le> n" "deadline - clock env (events_of s) \<le> (real n - 1) / 2" for n deadline t s
    using that
  proof (induction n arbitrary: t s)
    case 0
    then show ?case by simp
  next
    case (Suc n)
    obtain r s1 where once: "start_master_once env fp cfg sv t s = (r, s1)" by (meson surj_pair)
    show ?case
    proof (cases r)
      case (Inr c)
      with once show ?thesis by simp
    next
      case (Inl e)
      show ?thesis
      proof (cases "e \<noteq> execution_error \<or> expired env deadline s1")
        case True
        with once Inl show ?thesis by auto
      next
        case False
        let ?s2 = "happened (Slept (1 / 2)) s1"
        have "clock env (events_of s) \<le> clock env (events_of s1)"
          using start_master_once_later [OF assms(1), of "clock env (events_of s)" s fp cfg sv t] once by simp
        moreover have "clock env (events_of s1) + 1 / 2 \<le> clock env (events_of ?s2)"
          using assms(1) by (simp add: clock_runs_def happened_def)
        moreover have "clock env (events_of s1) < deadline" using False by (simp add: expired_def)
        ultimately have "1 \<le> n" and "deadline - clock env (events_of ?s2) \<le> (real n - 1) / 2"
          using Suc.prems by (cases n; simp)+
        from Suc.IH [OF this] show ?thesis using once Inl False by (simp add: Let_def)
      qed
    qed
  qed
  moreover have "1 \<le> n" if "\<not> sc_timeout cfg < 0" using that assms(2) by (cases n) simp_all
  ultimately show ?thesis using assms(2) by (simp add: start_own_master_loop_def Let_def)
qed


section \<open>Witnesses\<close>

definition talkative :: ssh_env where
  "talkative = all_works\<lparr>answer := \<lambda>_ _. Exited 1 ''out'' [CHR ''e'', CHR 0x0A]\<rparr>"

definition example_service :: network_service where
  "example_service = \<lparr>p_host = ''h'', p_port = Some 22, p_extra = [], sv_username = Some ''root'', sv_password = None\<rparr>"

definition example_config :: ssh_config where
  "example_config = \<lparr>sc_keyfile = [], sc_stderr_merge = False, sc_timeout = 1, sc_sftp_mode = False,
     sc_scp_mode = False, sc_username = [], sc_password = None, tool_ssh = ''ssh'', tool_scp = ''scp'',
     tool_sshfs = ''sshfs'', tool_rsync = ''rsync''\<rparr>"

definition example_state :: ssh_state where
  "example_state = \<lparr>sd_prefix = [], sd_control = ''/t/c'', sd_keepalive = Some 0, sd_tmpdirs = [''/t''],
     sd_pass_files = [], sd_manager = ([], [])\<rparr>"

lemma runs_agree_witness:
  "fst (conn_run talkative ''ls'' False False
     ((new_conn ''h'' ''/t'')\<lparr>c_connected := True, c_keepalive := Some 0\<rparr>, [])) = Inr ([''out''], [''e''], 1) \<and>
   fst (driver_run talkative example_config example_service ''ls'' example_state) = Inr ([''out''], [''e''], 1)"
proof -
  let ?c = "(new_conn ''h'' ''/t'')\<lparr>c_connected := True, c_keepalive := Some 0\<rparr>"
  have run: "running talkative h k" "answer talkative h cmd = Exited 1 ''out'' [CHR ''e'', CHR 0x0A]" for h k cmd
    by (simp_all add: talkative_def all_works_def)
  have "fst (conn_run talkative ''ls'' False False (?c, [])) = Inr ([''out''], [''e''], 1)"
    by (simp add: conn_run_def check_connected_def isconnected_def check_keepalive_def run lines_of_def)
  moreover have "fst (driver_run talkative example_config example_service ''ls'' example_state) =
        Inr ([''out''], [''e''], 1) \<longleftrightarrow>
      fst (conn_run talkative ''ls'' False (sc_stderr_merge example_config) (?c, [])) = Inr ([''out''], [''e''], 1)"
    by (rule runs_agree [where k = 0 and k' = 0 and n = 1 and out = "''out''" and err = "[CHR ''e'', CHR 0x0A]"]) (simp_all add: run example_state_def)
  ultimately show ?thesis by (simp add: example_config_def)
qed

definition slow :: ssh_env where
  "slow = all_works\<lparr>answer := \<lambda>_ _. Exited 255 [] [],
     clock := \<lambda>h. sum_list (map (\<lambda>e. case e of Slept d \<Rightarrow> max 0 d | _ \<Rightarrow> 0) h)\<rparr>"

lemma start_master_ends_witness:
  "start_own_master_loop 3 slow None example_config example_service example_state \<noteq> None"
proof (rule start_master_ends)
  show "clock_runs slow" by (simp add: clock_runs_def slow_def split: event.split)
  show "2 * sc_timeout example_config + 1 \<le> real 3" by (simp add: example_config_def)
qed

end
