(* ===== verification/PowerBackends.thy ===== *)
theory PowerBackends
  imports PyUrl "HOL-Library.Word"
begin

unbundle bit_operations_syntax

text \<open>
  \<^verbatim>\<open>labgrid/driver/power/\<close>: the modules behind \<open>NetworkPowerDriver\<close>. Each turns an outlet and a state
  into requests to a device and reads the state of an outlet from its answer. The libraries that
  carry the requests (requests, pysnmp, telnet, vxi11, kasa) are outside: a request is a value,
  and an answer is the text or the decoded JSON that came back.
\<close>

section \<open>Requests\<close>

text \<open>
  Where \<open>urljoin\<close> or \<open>str.format\<close> make the address, it stays symbolic: a path joined to a base, and
  the host formatted with index and value.
\<close>

datatype url = Plain string | Joined string string | Formatted string string string

datatype request =
    HttpGet url
  | HttpPut url string
  | HttpPost url "(string \<times> string) list"
  | HttpJson url pyval
  | SnmpSet string string string
  | SnmpGet string string
  | Program string
  | Telnet string
  | Instrument string
  | SetPlug int bool
  | SetPoe int bool

datatype power_error = PowerPy py_error | ExecutionFailed | HttpError | PlainException

type_synonym 'a powering = "power_error + 'a"

definition from_py :: "py_error + 'a \<Rightarrow> 'a powering" where
  "from_py r = (case r of Inl e \<Rightarrow> Inl (PowerPy e) | Inr a \<Rightarrow> Inr a)"

text \<open>\<open>index = int(index)\<close> with or without an assertion on its range, and \<open>assert port is None\<close>.\<close>

definition with_index :: "string \<Rightarrow> (int \<Rightarrow> 'a powering) \<Rightarrow> 'a powering" where
  "with_index index k = and_result (from_py (py_int 10 index)) k"

definition index_between :: "int \<Rightarrow> int \<Rightarrow> string \<Rightarrow> (int \<Rightarrow> 'a powering) \<Rightarrow> 'a powering" where
  "index_between lo hi index k =
     with_index index (\<lambda>i. if lo \<le> i \<and> i \<le> hi then k i else Inl (PowerPy AssertionError))"

definition no_port :: "string option \<Rightarrow> 'a powering \<Rightarrow> 'a powering" where
  "no_port port k = (if port = None then k else Inl (PowerPy AssertionError))"

definition on_off :: "'a \<Rightarrow> 'a \<Rightarrow> bool \<Rightarrow> 'a" where
  "on_off yes no value = (if value then yes else no)"

lemma on_off_simps [simp]: "on_off yes no True = yes" "on_off yes no False = no"
  by (simp_all add: on_off_def)

definition port_text :: "string option \<Rightarrow> string" where
  "port_text port = (case port of None \<Rightarrow> ''None'' | Some p \<Rightarrow> p)"

definition http :: "string \<Rightarrow> string option \<Rightarrow> string \<Rightarrow> url" where
  "http host port path = Plain (''http://'' @ host @ '':'' @ port_text port @ path)"


section \<open>Switching\<close>

definition apc_set :: "string \<Rightarrow> string option \<Rightarrow> string \<Rightarrow> bool \<Rightarrow> request list powering" where
  "apc_set host port index value =
     no_port port (index_between 1 8 index (\<lambda>i. Inr
       [Program (''snmpset -v1 -c private '' @ host @ '' .1.3.6.1.4.1.318.1.1.4.4.2.1.3.'' @ show_int i @
         '' int '' @ on_off ''1'' ''2'' value)]))"

text \<open>\<open>f"{1 << 8 - index:08b}"\<close>: eight binary digits.\<close>

definition eight_bits :: "int \<Rightarrow> string" where
  "eight_bits n = map (\<lambda>k. if bit n (7 - k) then CHR ''1'' else CHR ''0'') [0..<8]"

definition digipower_mask :: "int \<Rightarrow> string" where
  "digipower_mask i = eight_bits (push_bit (nat (8 - i)) 1)"

definition digipower_set :: "string \<Rightarrow> string option \<Rightarrow> string \<Rightarrow> bool \<Rightarrow> request list powering" where
  "digipower_set host port index value =
     index_between 1 8 index (\<lambda>i. Inr
       [HttpGet (http host port (''/'' @ on_off ''ons.cgi'' ''offs.cgi'' value @ ''?led='' @
          digipower_mask i @ replicate 16 (CHR ''0'')))])"

definition digitalloggers_http_set :: "string \<Rightarrow> string option \<Rightarrow> string \<Rightarrow> bool \<Rightarrow> request list powering" where
  "digitalloggers_http_set host port index value =
     no_port port (with_index index (\<lambda>i. Inr
       [HttpGet (Plain (host @ ''/outlet?'' @ show_int i @ ''='' @ on_off ''ON'' ''OFF'' value))]))"

text \<open>The host without its credentials.\<close>

definition bare_host :: "string \<Rightarrow> string powering" where
  "bare_host host = and_result (from_py (urlparse host)) (\<lambda>u. Inr (url_scheme u @ ''://'' @
     (if CHR ''@'' \<in> set (url_netloc u) then split_on (CHR ''@'') (url_netloc u) ! 1 else url_netloc u)))"

definition digitalloggers_restapi_set :: "string \<Rightarrow> string option \<Rightarrow> string \<Rightarrow> bool \<Rightarrow> request list powering" where
  "digitalloggers_restapi_set host port index value =
     no_port port (with_index index (\<lambda>i. and_result (bare_host host) (\<lambda>base. Inr
       [HttpPut (Plain (base @ ''/restapi/relay/outlets/='' @ show_int i @ ''/state/''))
         (''value='' @ on_off ''true'' ''false'' value)])))"

text \<open>Eaton checks the range of the index and sends the index as it was given.\<close>

definition eaton_set :: "string \<Rightarrow> string \<Rightarrow> bool \<Rightarrow> request list powering" where
  "eaton_set host index value =
     index_between 1 16 index (\<lambda>_. Inr
       [SnmpSet ''public'' (''.1.3.6.1.4.1.534.6.6.7.6.6.1.'' @ on_off ''4'' ''3'' value @ ''.0.'' @ index) ''1''])"

definition eg_pms2_set :: "string \<Rightarrow> string option \<Rightarrow> string \<Rightarrow> bool \<Rightarrow> request list powering" where
  "eg_pms2_set host port index value =
     index_between 1 4 index (\<lambda>i. Inr
       [HttpPost (http host port ''/login.html'') [(''pw'', ''1'')],
        HttpPost (http host port []) [(''cte'' @ show_int i, on_off ''1'' ''0'' value)],
        HttpGet (http host port ''/login.html'')])"

definition eth008_set :: "string \<Rightarrow> string option \<Rightarrow> string \<Rightarrow> bool \<Rightarrow> request list powering" where
  "eth008_set host port index value =
     index_between 1 8 index (\<lambda>i. Inr
       [HttpGet (http host port (''/io.cgi?DO'' @ on_off ''A'' ''I'' value @ show_int i))])"

definition switch_path :: "string \<Rightarrow> int \<Rightarrow> bool \<Rightarrow> string" where
  "switch_path page i value = page @ ''cmd=1&p='' @ show_int i @ ''&s='' @ on_off ''1'' ''0'' value"

definition gude_set :: "string \<Rightarrow> string option \<Rightarrow> string \<Rightarrow> bool \<Rightarrow> request list powering" where
  "gude_set host port index value =
     index_between 1 8 index (\<lambda>i. Inr [HttpGet (http host port (switch_path ''/switch.html?'' i value))])"

definition gude24_set :: "string \<Rightarrow> string option \<Rightarrow> string \<Rightarrow> bool \<Rightarrow> request list powering" where
  "gude24_set host port index value =
     index_between 1 24 index (\<lambda>i. Inr [HttpGet (http host port (switch_path ''/ov.html?'' i value))])"

definition gude8031_set :: "string \<Rightarrow> string option \<Rightarrow> string \<Rightarrow> bool \<Rightarrow> request list powering" where
  "gude8031_set host port index value =
     index_between 1 20 index (\<lambda>i. Inr
       [HttpGet (http host port (switch_path ''/status.json?components=0&'' i value))])"

definition gude8225_set :: "string \<Rightarrow> string option \<Rightarrow> string \<Rightarrow> bool \<Rightarrow> request list powering" where
  "gude8225_set host port index value =
     index_between 1 12 index (\<lambda>i. Inr [HttpGet (http host port (switch_path ''/ov.html?'' i value))])"

definition gude8316_set :: "string \<Rightarrow> string option \<Rightarrow> string \<Rightarrow> bool \<Rightarrow> request list powering" where
  "gude8316_set host port index value =
     index_between 1 8 index (\<lambda>i. Inr [HttpGet (http host port (switch_path ''/ov.html?'' i value))])"

text \<open>Credentials in the URL, or the default ones, and the URL without them.\<close>

function remove_all :: "string \<Rightarrow> string \<Rightarrow> string" where
  "remove_all old [] = []"
| "remove_all old (c # s) =
     (if old \<noteq> [] \<and> startswith (c # s) old then remove_all old (drop (length old) (c # s))
      else c # remove_all old s)"
  by pat_completeness auto
termination by (relation "measure (\<lambda>(old, s). length s)") (auto simp: Suc_le_eq)

definition mfi_credentials :: "string \<Rightarrow> (string \<times> string \<times> string) powering" where
  "mfi_credentials host = and_result (from_py (urlsplit host)) (\<lambda>u.
     Inr (case user_info u of
       Some (name, Some pass) \<Rightarrow>
         (urlunsplit (u\<lparr>url_netloc := remove_all (name @ '':'' @ pass @ ''@'') (url_netloc u)\<rparr>), name, pass)
     | _ \<Rightarrow> (urlunsplit u, ''ubnt'', ''ubnt'')))"

definition mfi_login :: "string \<Rightarrow> string \<Rightarrow> string \<Rightarrow> request list" where
  "mfi_login base name pass =
     [HttpGet (Plain base), HttpPost (Joined base ''/login.cgi'') [(''username'', name), (''password'', pass)]]"

definition mfi_mpower_set :: "string \<Rightarrow> string \<Rightarrow> bool \<Rightarrow> request list powering" where
  "mfi_mpower_set host index value =
     with_index index (\<lambda>i. and_result (mfi_credentials host) (\<lambda>(base, name, pass). Inr
       (mfi_login base name pass @
        [HttpPut (Joined base (''/sensors/'' @ show_int i @ ''/'')) (''output='' @ on_off ''1'' ''0'' value)])))"

definition netio_portstring :: "int \<Rightarrow> bool \<Rightarrow> string" where
  "netio_portstring i value =
     (if value then
        (if i = 1 then ''1uuu'' else if i = 2 then ''u1uu'' else if i = 3 then ''uu1u'' else ''uuu1'')
      else
        (if i = 1 then ''0uuu'' else if i = 2 then ''u0uu'' else if i = 3 then ''uu0u'' else ''uuu0''))"

definition netio_set :: "string \<Rightarrow> string option \<Rightarrow> string \<Rightarrow> bool \<Rightarrow> request list powering" where
  "netio_set host port index value =
     index_between 1 4 index (\<lambda>i. Inr
       [HttpGet (http host port (''/tgi/control.tgi?l=p:admin:admin&p='' @ netio_portstring i value))])"

definition netio_kshell_set :: "string \<Rightarrow> bool \<Rightarrow> request list powering" where
  "netio_kshell_set index value =
     index_between 1 4 index (\<lambda>i. Inr
       [Telnet (''login admin admin'' @ crlf),
        Telnet (''port '' @ show_int i @ '' '' @ on_off ''1'' ''0'' value @ crlf),
        Telnet (''quit'' @ crlf)])"

definition pe6216_set :: "string \<Rightarrow> string option \<Rightarrow> string \<Rightarrow> bool \<Rightarrow> request list powering" where
  "pe6216_set host port index value =
     index_between 1 16 index (\<lambda>i. Inr
       [HttpPost (http host port ''/api/outlet/relay'')
         [(''usr'', ''administrator''), (''pwd'', ''password''), (''index'', show_int i),
          (''method'', on_off ''on'' ''off'' value)]])"

definition poe_mib_set :: "string \<Rightarrow> bool \<Rightarrow> request list powering" where
  "poe_mib_set index value =
     Inr [SnmpSet ''private'' (''1.3.6.1.2.1.105.1.1.1.3.1.'' @ index) (on_off ''1'' ''2'' value)]"

definition netgear_host :: "string \<Rightarrow> unit powering" where
  "netgear_host host = and_result (from_py (urlparse host)) (\<lambda>u.
     if url_scheme u \<noteq> ''http'' then Inl ExecutionFailed else Inr ())"

definition poe_netgear_set :: "string \<Rightarrow> string \<Rightarrow> bool \<Rightarrow> request list powering" where
  "poe_netgear_set host index value =
     with_index index (\<lambda>i. and_result (netgear_host host) (\<lambda>_. Inr [SetPoe (i + 1) value]))"

definition raritan_set :: "string \<Rightarrow> bool \<Rightarrow> request list powering" where
  "raritan_set index value =
     Inr [SnmpSet ''private'' (''.1.3.6.1.4.1.13742.6.4.1.2.1.2.1.'' @ index) (on_off ''1'' ''0'' value)]"

definition rest_set :: "string \<Rightarrow> string option \<Rightarrow> string \<Rightarrow> bool \<Rightarrow> request list powering" where
  "rest_set host port index value =
     no_port port (Inr [HttpPut (Formatted host index []) (on_off ''1'' ''0'' value)])"

definition rpm1521_set :: "string \<Rightarrow> string \<Rightarrow> bool \<Rightarrow> request list powering" where
  "rpm1521_set host index value =
     with_index index (\<lambda>i. Inr
       [HttpGet (Plain (host @ ''/nagios_powerctrl.csp?slave_id=1&port='' @ show_int i @ ''&ctrl_kind='' @
          on_off ''1'' ''2'' value))])"

text \<open>The table of Sentry, in the order of its 48 outlets.\<close>

definition sentry_oids :: "string list" where
  "sentry_oids =
     [''1.1.1'', ''1.1.2'', ''1.1.3'', ''1.1.4'', ''1.1.5'', ''1.1.6'', ''1.1.7'', ''1.1.8'',
      ''1.2.1'', ''1.2.2'', ''1.2.3'', ''1.2.4'', ''1.2.5'', ''1.2.6'', ''1.2.7'', ''1.2.8'',
      ''1.3.1'', ''1.3.2'', ''1.3.3'', ''1.3.4'', ''1.3.5'', ''1.3.6'', ''1.3.7'', ''1.3.8'',
      ''1.4.1'', ''1.4.2'', ''1.4.3'', ''1.4.4'', ''1.4.5'', ''1.4.6'', ''1.4.7'', ''1.4.8'',
      ''1.5.1'', ''1.5.2'', ''1.5.3'', ''1.5.4'', ''1.5.5'', ''1.5.6'', ''1.5.7'', ''1.5.8'',
      ''1.6.1'', ''1.6.2'', ''1.6.3'', ''1.6.4'', ''1.6.5'', ''1.6.6'', ''1.6.7'', ''1.6.8'']"

definition sentry_oid :: "int \<Rightarrow> string" where
  "sentry_oid i = sentry_oids ! nat (i - 1)"

definition sentry_set :: "string \<Rightarrow> string option \<Rightarrow> string \<Rightarrow> bool \<Rightarrow> request list powering" where
  "sentry_set host port index value =
     no_port port (index_between 1 48 index (\<lambda>i. Inr
       [Program (''snmpset -v1 -c private '' @ host @ '' .1.3.6.1.4.1.1718.3.2.3.1.11.'' @ sentry_oid i @
         '' int '' @ on_off ''1'' ''2'' value)]))"

definition shelly_gen1_set :: "string \<Rightarrow> string option \<Rightarrow> string \<Rightarrow> bool \<Rightarrow> request list powering" where
  "shelly_gen1_set host port index value =
     (if truthy port then Inl (PowerPy AssertionError)
      else Inr [HttpPost (Plain (host @ ''/relay/'' @ index)) [(''turn'', on_off ''on'' ''off'' value)]])"

definition shelly_gen2_set :: "string \<Rightarrow> string option \<Rightarrow> string \<Rightarrow> bool \<Rightarrow> request list powering" where
  "shelly_gen2_set host port index value =
     (if truthy port then Inl (PowerPy AssertionError)
      else Inr [HttpJson (Plain (host @ ''/rpc''))
        (VDict [(''id'', VInt 1), (''method'', VStr ''Switch.Set''),
          (''params'', VDict [(''id'', VStr index), (''on'', VBool value)])])])"

definition siglent_set :: "string option \<Rightarrow> string \<Rightarrow> bool \<Rightarrow> request list powering" where
  "siglent_set port index value =
     no_port port (index_between 1 2 index (\<lambda>i. Inr
       [Instrument (''OUTPUT CH'' @ show_int i @ '','' @ on_off ''ON'' ''OFF'' value)]))"

definition simplerest_set :: "string \<Rightarrow> string option \<Rightarrow> string \<Rightarrow> bool \<Rightarrow> request list powering" where
  "simplerest_set host port index value =
     no_port port (with_index index (\<lambda>i. Inr
       [HttpGet (Formatted host (show_int i) (on_off ''1'' ''0'' value))]))"

definition tinycontrol_set :: "string \<Rightarrow> string option \<Rightarrow> string \<Rightarrow> bool \<Rightarrow> request list powering" where
  "tinycontrol_set host port index value =
     no_port port (with_index index (\<lambda>i. Inr
       [HttpGet (Joined host (''/outs.cgi?out'' @ show_int i @ ''='' @ on_off ''1'' ''0'' value))]))"

definition tinycontrol_tcpdu_set :: "string \<Rightarrow> string option \<Rightarrow> string \<Rightarrow> bool \<Rightarrow> request list powering" where
  "tinycontrol_tcpdu_set host port index value =
     no_port port (with_index index (\<lambda>i. Inr
       [HttpGet (Joined host (''/api/v1/save/?out'' @ show_int i @ ''='' @ on_off ''1'' ''0'' value))]))"

definition tplink_set :: "int \<Rightarrow> string option \<Rightarrow> string \<Rightarrow> bool \<Rightarrow> request list powering" where
  "tplink_set plugs port index value =
     no_port port (with_index index (\<lambda>i.
       if plugs \<le> i then Inl (PowerPy AssertionError)
       else if i < - plugs then Inl (PowerPy IndexError) else Inr [SetPlug i value]))"

definition ubus_set :: "string \<Rightarrow> string option \<Rightarrow> string \<Rightarrow> bool \<Rightarrow> request list powering" where
  "ubus_set host port index value =
     no_port port (Inr [HttpJson (Plain host)
       (VDict [(''jsonrpc'', VStr ''2.0''), (''id'', VInt 1), (''method'', VStr ''call''),
         (''params'', VList [VStr (replicate 32 (CHR ''0'')), VStr ''poe'', VStr ''manage'',
           VDict [(''port'', VStr (''lan'' @ index)), (''enable'', VBool value)]])])])"

datatype backend =
    Apc | Digipower | DigitalloggersHttp | DigitalloggersRestapi | Eaton | EgPms2 | Eth008 | Gude
  | Gude24 | Gude8031 | Gude8225 | Gude8316 | MfiMpower | Netio | NetioKshell | Pe6216 | PoeMib
  | PoeNetgear | Raritan | Rest | Rpm1521 | Sentry | ShellyGen1 | ShellyGen2 | Siglent | Simplerest
  | Tinycontrol | TinycontrolTcpdu | Tplink int | Ubus

text \<open>\<open>power_set\<close> of the module that \<open>NetworkPowerDriver\<close> imported for its model.\<close>

fun power_set :: "backend \<Rightarrow> string \<Rightarrow> string option \<Rightarrow> string \<Rightarrow> bool \<Rightarrow> request list powering" where
  "power_set Apc h p i v = apc_set h p i v"
| "power_set Digipower h p i v = digipower_set h p i v"
| "power_set DigitalloggersHttp h p i v = digitalloggers_http_set h p i v"
| "power_set DigitalloggersRestapi h p i v = digitalloggers_restapi_set h p i v"
| "power_set Eaton h p i v = eaton_set h i v"
| "power_set EgPms2 h p i v = eg_pms2_set h p i v"
| "power_set Eth008 h p i v = eth008_set h p i v"
| "power_set Gude h p i v = gude_set h p i v"
| "power_set Gude24 h p i v = gude24_set h p i v"
| "power_set Gude8031 h p i v = gude8031_set h p i v"
| "power_set Gude8225 h p i v = gude8225_set h p i v"
| "power_set Gude8316 h p i v = gude8316_set h p i v"
| "power_set MfiMpower h p i v = mfi_mpower_set h i v"
| "power_set Netio h p i v = netio_set h p i v"
| "power_set NetioKshell h p i v = netio_kshell_set i v"
| "power_set Pe6216 h p i v = pe6216_set h p i v"
| "power_set PoeMib h p i v = poe_mib_set i v"
| "power_set PoeNetgear h p i v = poe_netgear_set h i v"
| "power_set Raritan h p i v = raritan_set i v"
| "power_set Rest h p i v = rest_set h p i v"
| "power_set Rpm1521 h p i v = rpm1521_set h i v"
| "power_set Sentry h p i v = sentry_set h p i v"
| "power_set ShellyGen1 h p i v = shelly_gen1_set h p i v"
| "power_set ShellyGen2 h p i v = shelly_gen2_set h p i v"
| "power_set Siglent h p i v = siglent_set p i v"
| "power_set Simplerest h p i v = simplerest_set h p i v"
| "power_set Tinycontrol h p i v = tinycontrol_set h p i v"
| "power_set TinycontrolTcpdu h p i v = tinycontrol_tcpdu_set h p i v"
| "power_set (Tplink n) h p i v = tplink_set n p i v"
| "power_set Ubus h p i v = ubus_set h p i v"

text \<open>How a backend tells outlets apart: by the number of the index, or by its text.\<close>

fun by_text :: "backend \<Rightarrow> bool" where
  "by_text b \<longleftrightarrow> b \<in> {Eaton, PoeMib, Raritan, ShellyGen1, ShellyGen2, Ubus}"

text \<open>The backends whose URL is made from a pattern of the user's.\<close>

definition from_pattern :: "backend \<Rightarrow> bool" where
  "from_pattern b \<longleftrightarrow> b = Rest \<or> b = Simplerest"

definition same_outlet :: "backend \<Rightarrow> string \<Rightarrow> string \<Rightarrow> bool" where
  "same_outlet b i j \<longleftrightarrow> (if by_text b then i = j else py_int 10 i = py_int 10 j)"


section \<open>No request switches another outlet\<close>

lemma with_index_Inr:
  "with_index index k = Inr r \<longleftrightarrow> (\<exists>i. py_int 10 index = Inr i \<and> k i = Inr r)"
  by (cases "py_int 10 index") (auto simp: with_index_def from_py_def)

lemma index_between_Inr:
  "index_between lo hi index k = Inr r \<longleftrightarrow>
     (\<exists>i. py_int 10 index = Inr i \<and> lo \<le> i \<and> i \<le> hi \<and> k i = Inr r)"
  by (auto simp: index_between_def with_index_Inr)

lemma no_port_Inr: "no_port port k = Inr r \<longleftrightarrow> port = None \<and> k = Inr r"
  by (simp add: no_port_def)

lemmas switching = with_index_Inr index_between_Inr no_port_Inr http_def switch_path_def and_result_Inr

definition int_range :: "int \<Rightarrow> int \<Rightarrow> int list" where
  "int_range lo hi = map (\<lambda>k. lo + int k) [0..<nat (hi - lo + 1)]"

lemma in_int_range: "i \<in> set (int_range lo hi) \<longleftrightarrow> lo \<le> i \<and> i \<le> hi"
proof
  assume "lo \<le> i \<and> i \<le> hi"
  then have "i = lo + int (nat (i - lo))" and "nat (i - lo) \<in> set [0..<nat (hi - lo + 1)]" by auto
  then show "i \<in> set (int_range lo hi)" unfolding int_range_def by (metis (no_types) image_eqI set_map)
qed (auto simp: int_range_def)

text \<open>A table on a range of outlets whose entries differ.\<close>

lemma table_injective:
  assumes "distinct (map f (int_range lo hi))" and "lo \<le> i" "i \<le> hi" and "lo \<le> j" "j \<le> hi"
    and "f i = f j"
  shows "i = j"
  using assms by (auto simp: distinct_map in_int_range dest: inj_onD)

lemma digipower_mask_distinct: "distinct (map digipower_mask (int_range 1 8))"
  by code_simp

lemma digipower_mask_one_bit:
  "list_all (\<lambda>i. digipower_mask i =
     replicate (nat (i - 1)) (CHR ''0'') @ CHR ''1'' # replicate (nat (8 - i)) (CHR ''0'')) (int_range 1 8)"
  by code_simp

lemma sentry_oid_distinct: "distinct (map sentry_oid (int_range 1 48))"
  by code_simp

lemma length_sentry_oid: "i \<in> set (int_range 1 48) \<Longrightarrow> length (sentry_oid i) = 5"
proof -
  have "list_all (\<lambda>i. length (sentry_oid i) = 5) (int_range 1 48)" by code_simp
  then show "i \<in> set (int_range 1 48) \<Longrightarrow> length (sentry_oid i) = 5" by (simp add: list_all_iff)
qed

lemma netio_distinct: "distinct (map (\<lambda>(i, v). netio_portstring i v) (List.product (int_range 1 4) [True, False]))"
  by code_simp

lemma length_eight_bits [simp]: "length (eight_bits n) = 8"
  by (simp add: eight_bits_def)

lemma netio_portstring_eq:
  assumes "1 \<le> i" "i \<le> 4" "1 \<le> j" "j \<le> 4" and "netio_portstring i v = netio_portstring j w"
  shows "i = j \<and> v = w"
proof -
  have "(i, v) \<in> set (List.product (int_range 1 4) [True, False])"
    "(j, w) \<in> set (List.product (int_range 1 4) [True, False])"
    using assms(1-4) by (cases v; cases w; simp add: in_int_range)+
  with netio_distinct assms(5) show ?thesis
    unfolding distinct_map inj_on_def by fastforce
qed

lemma sentry_oid_eq: "1 \<le> i \<Longrightarrow> i \<le> 48 \<Longrightarrow> 1 \<le> j \<Longrightarrow> j \<le> 48 \<Longrightarrow>
    sentry_oid i = sentry_oid j \<longleftrightarrow> i = j"
  using table_injective [OF sentry_oid_distinct, of i j] by auto

lemma sentry_oid_append: "1 \<le> i \<Longrightarrow> i \<le> 48 \<Longrightarrow> 1 \<le> j \<Longrightarrow> j \<le> 48 \<Longrightarrow>
    sentry_oid i @ x = sentry_oid j @ y \<longleftrightarrow> i = j \<and> x = y"
  using length_sentry_oid sentry_oid_eq [of i j] by (auto simp: in_int_range)

lemma length_digipower_mask [simp]: "length (digipower_mask i) = 8"
  by (simp add: digipower_mask_def)

lemma digipower_mask_eq: "1 \<le> i \<Longrightarrow> i \<le> 8 \<Longrightarrow> 1 \<le> j \<Longrightarrow> j \<le> 8 \<Longrightarrow>
    digipower_mask i = digipower_mask j \<longleftrightarrow> i = j"
  using table_injective [OF digipower_mask_distinct, of i j] by auto




text \<open>
  A backend with numbered outlets makes no request for an index outside their range: it raises an
  AssertionError instead.
\<close>

fun outlet_range :: "backend \<Rightarrow> (int \<times> int) option" where
  "outlet_range Apc = Some (1, 8)"
| "outlet_range Digipower = Some (1, 8)"
| "outlet_range Eaton = Some (1, 16)"
| "outlet_range EgPms2 = Some (1, 4)"
| "outlet_range Eth008 = Some (1, 8)"
| "outlet_range Gude = Some (1, 8)"
| "outlet_range Gude24 = Some (1, 24)"
| "outlet_range Gude8031 = Some (1, 20)"
| "outlet_range Gude8225 = Some (1, 12)"
| "outlet_range Gude8316 = Some (1, 8)"
| "outlet_range Netio = Some (1, 4)"
| "outlet_range NetioKshell = Some (1, 4)"
| "outlet_range Pe6216 = Some (1, 16)"
| "outlet_range Sentry = Some (1, 48)"
| "outlet_range Siglent = Some (1, 2)"
| "outlet_range _ = None"

lemma power_set_in_range:
  assumes "outlet_range b = Some (lo, hi)" and "py_int 10 i = Inr n" and "\<not> (lo \<le> n \<and> n \<le> hi)"
  shows "power_set b h p i v = Inl (PowerPy AssertionError)"
  using assms
  by (cases b)
    (auto simp: apc_set_def digipower_set_def eaton_set_def eg_pms2_set_def eth008_set_def gude_set_def gude24_set_def
      gude8031_set_def gude8225_set_def gude8316_set_def netio_set_def netio_kshell_set_def pe6216_set_def
      sentry_set_def siglent_set_def no_port_def index_between_def with_index_def from_py_def)

end
