(* ===== verification/PowerStates.thy ===== *)
theory PowerStates
  imports PowerBackends
begin

text \<open>
  \<open>power_get\<close> of the modules in \<^verbatim>\<open>labgrid/driver/power/\<close>: how each reads the state of an outlet from
  what its device answers, and that it reads what the device's documented answer says.
\<close>

section \<open>Text functions\<close>

text \<open>\<open>str.splitlines\<close>, \<open>str.split()\<close>, \<open>str.find\<close> and the first place where a pattern matches.\<close>

definition line_break :: "char \<Rightarrow> bool" where
  "line_break c \<longleftrightarrow> (let n = of_char c :: nat in (10 \<le> n \<and> n \<le> 13) \<or> (28 \<le> n \<and> n \<le> 30) \<or> n = 133)"

fun splitlines :: "string \<Rightarrow> string \<Rightarrow> string list" where
  "splitlines acc [] = (if acc = [] then [] else [acc])"
| "splitlines acc [c] = (if line_break c then [acc] else [acc @ [c]])"
| "splitlines acc (c # d # s) =
     (if c = CHR 0x0D \<and> d = CHR 0x0A then acc # splitlines [] s
      else if line_break c then acc # splitlines [] (d # s)
      else splitlines (acc @ [c]) (d # s))"

fun words_from :: "string \<Rightarrow> string \<Rightarrow> string list" where
  "words_from acc [] = (if acc = [] then [] else [acc])"
| "words_from acc (c # s) =
     (if is_space c then (if acc = [] then words_from [] s else acc # words_from [] s)
      else words_from (acc @ [c]) s)"

definition words_of :: "string \<Rightarrow> string list" where
  "words_of s = words_from [] s"

text \<open>\<open>line.find(p) > 0\<close>: found, and not at the beginning.\<close>

definition found_inside :: "string \<Rightarrow> string \<Rightarrow> bool" where
  "found_inside line p \<longleftrightarrow> substring p line \<and> \<not> startswith line p"

fun search :: "(string \<Rightarrow> 'a option) \<Rightarrow> string \<Rightarrow> 'a option" where
  "search f [] = f []"
| "search f (c # s) = (case f (c # s) of Some x \<Rightarrow> Some x | None \<Rightarrow> search f s)"

text \<open>The last place on the first line, which is where \<open>.*\<close> in front of a pattern ends.\<close>

fun search_last :: "(string \<Rightarrow> 'a option) \<Rightarrow> string \<Rightarrow> 'a option" where
  "search_last f [] = f []"
| "search_last f (c # s) =
     (if c = CHR 0x0A then f (c # s)
      else case search_last f s of Some x \<Rightarrow> Some x | None \<Rightarrow> f (c # s))"

definition after_prefix :: "string \<Rightarrow> string \<Rightarrow> string option" where
  "after_prefix p s = (if startswith s p then Some (drop (length p) s) else None)"

text \<open>\<open>\w\<close> in a regular expression.\<close>

definition word_char :: "char \<Rightarrow> bool" where
  "word_char c \<longleftrightarrow> is_letter c \<or> is_digit c \<or> c = CHR ''_'' \<or>
     (let n = of_char c :: nat in
      n \<in> {170, 178, 179, 181, 185, 186, 188, 189, 190} \<or> (192 \<le> n \<and> n \<noteq> 215 \<and> n \<noteq> 247))"


section \<open>Answers\<close>

record http_reply =
  status :: int
  content_type :: string
  body_text :: string
  json :: "pyval option"
  xml :: "(string \<times> string option) list"

text \<open>\<open>raise_for_status\<close> and \<open>r.json()\<close>.\<close>

definition ok_status :: "http_reply \<Rightarrow> 'a powering \<Rightarrow> 'a powering" where
  "ok_status r k = (if 400 \<le> status r \<and> status r < 600 then Inl HttpError else k)"

definition json_of :: "http_reply \<Rightarrow> (pyval \<Rightarrow> 'a powering) \<Rightarrow> 'a powering" where
  "json_of r k = (case json r of None \<Rightarrow> Inl (PowerPy ValueError) | Some v \<Rightarrow> k v)"

text \<open>\<open>xs[i]\<close> with an index that may be negative, on a list and on what came as JSON.\<close>

definition nth_of :: "'a list \<Rightarrow> int \<Rightarrow> 'a powering" where
  "nth_of xs i =
     (let k = (if i < 0 then i + int (length xs) else i) in
      if 0 \<le> k \<and> k < int (length xs) then Inr (xs ! nat k) else Inl (PowerPy IndexError))"

fun json_item :: "pyval \<Rightarrow> int \<Rightarrow> pyval powering" where
  "json_item (VList xs) i = nth_of xs i"
| "json_item (VStr s) i = (case nth_of s i of Inl e \<Rightarrow> Inl e | Inr c \<Rightarrow> Inr (VStr [c]))"
| "json_item (VDict d) i = Inl (PowerPy KeyError)"
| "json_item v i = Inl (PowerPy TypeError)"

definition json_key :: "pyval \<Rightarrow> string \<Rightarrow> pyval powering" where
  "json_key v k = from_py (subscript v k)"

text \<open>\<open>int(v)\<close> on a JSON value; a float is cut off.\<close>

fun int_of_json :: "pyval \<Rightarrow> int powering" where
  "int_of_json (VInt i) = Inr i"
| "int_of_json (VBool b) = Inr (if b then 1 else 0)"
| "int_of_json (VFloat x) = Inr (if x < 0 then \<lceil>x\<rceil> else \<lfloor>x\<rfloor>)"
| "int_of_json (VStr s) = from_py (py_int 10 s)"
| "int_of_json v = Inl (PowerPy TypeError)"


section \<open>Reading a state\<close>

text \<open>The line that snmpget prints is the OID and the value.\<close>

definition snmp_answer :: "string \<Rightarrow> string \<Rightarrow> (string \<Rightarrow> 'a powering) \<Rightarrow> 'a powering" where
  "snmp_answer oid out k =
     (let t = strip out in
      if CHR '' '' \<notin> set t then Inl (PowerPy ValueError)
      else if before (CHR '' '') t \<noteq> oid then Inl (PowerPy AssertionError)
      else k (after (CHR '' '') t))"

definition apc_state :: "string \<Rightarrow> string \<Rightarrow> bool powering" where
  "apc_state oid out = snmp_answer oid out (\<lambda>v.
     if v = ''1'' then Inr True else if v = ''2'' then Inr False else Inl ExecutionFailed)"

text \<open>An unknown value of Sentry is no error: the function ends without a result.\<close>

definition sentry_state :: "string \<Rightarrow> string \<Rightarrow> bool option powering" where
  "sentry_state oid out = snmp_answer oid out (\<lambda>v.
     Inr (if v = ''3'' \<or> v = ''5'' then Some True else if v = ''4'' then Some False else None))"

definition digipower_state :: "int \<Rightarrow> http_reply \<Rightarrow> bool powering" where
  "digipower_state i r = ok_status r
     (and_result (nth_of (split_on (CHR '','') (body_text r)) (9 + i)) (\<lambda>s.
      and_result (from_py (py_int 2 s)) (\<lambda>n. Inr (n \<noteq> 0))))"

text \<open>\<open>n & (1 << k)\<close> as a truth value.\<close>

definition test_bit :: "int \<Rightarrow> int \<Rightarrow> bool powering" where
  "test_bit n k = (if k < 0 then Inl (PowerPy ValueError) else Inr (bit n (nat k)))"

definition digitalloggers_match :: "string \<Rightarrow> string option" where
  "digitalloggers_match s = Option.bind (after_prefix ''state\">'' s) (\<lambda>t.
     let w = takeWhile word_char t in
     if w \<noteq> [] \<and> startswith (dropWhile word_char t) ''<'' then Some w else None)"

definition digitalloggers_http_state :: "int \<Rightarrow> http_reply \<Rightarrow> bool powering" where
  "digitalloggers_http_state i r = ok_status r
     (case search digitalloggers_match (body_text r) of
        None \<Rightarrow> Inl (PowerPy IndexError)
      | Some w \<Rightarrow> and_result (from_py (py_int 16 w)) (\<lambda>n. test_bit n (i - 1)))"

definition digitalloggers_restapi_state :: "http_reply \<Rightarrow> pyval powering" where
  "digitalloggers_restapi_state r = ok_status r (json_of r (\<lambda>v. json_item v 0))"

definition eaton_state :: "int \<Rightarrow> bool powering" where
  "eaton_state v =
     (if v = 1 \<or> v = 3 then Inr True else if v = 0 \<or> v = 2 then Inr False else Inl ExecutionFailed)"

definition poe_mib_state :: "int \<Rightarrow> bool powering" where
  "poe_mib_state v = (if v = 1 then Inr True else if v = 2 then Inr False else Inl ExecutionFailed)"

definition raritan_state :: "int \<Rightarrow> bool powering" where
  "raritan_state v = (if v = 7 then Inr True else if v = 8 then Inr False else Inl ExecutionFailed)"

definition login_ok :: "http_reply \<Rightarrow> 'a powering \<Rightarrow> 'a powering" where
  "login_ok r k =
     (if status r \<noteq> 200 \<or>
         \<not> substring ''<div class=\"boxmenuitem\"><a href=\"login.html\">Log Out</a></div>'' (body_text r)
      then Inl ExecutionFailed else k)"

definition logout_ok :: "http_reply \<Rightarrow> 'a powering \<Rightarrow> 'a powering" where
  "logout_ok r k = (if status r \<noteq> 200 then Inl ExecutionFailed else k)"

text \<open>\<open>var\s+sockstates\s+=\s+\[([01]),([01]),([01]),([01])\];\<close>\<close>

definition spaces :: "string \<Rightarrow> string option" where
  "spaces s = (if s \<noteq> [] \<and> is_space (hd s) then Some (dropWhile is_space s) else None)"

fun four_bits :: "string \<Rightarrow> int list option" where
  "four_bits (a # c1 # b # c2 # c # c3 # d # e # f # s) =
     (if {a, b, c, d} \<subseteq> {CHR ''0'', CHR ''1''} \<and> c1 = CHR '','' \<and> c2 = CHR '','' \<and> c3 = CHR '','' \<and>
         e = CHR '']'' \<and> f = CHR '';''
      then Some (map (\<lambda>x. if x = CHR ''1'' then 1 else 0) [a, b, c, d]) else None)"
| "four_bits _ = None"

definition sockstates_match :: "string \<Rightarrow> int list option" where
  "sockstates_match s =
     Option.bind (after_prefix ''var'' s) (\<lambda>s. Option.bind (spaces s) (\<lambda>s.
     Option.bind (after_prefix ''sockstates'' s) (\<lambda>s. Option.bind (spaces s) (\<lambda>s.
     Option.bind (after_prefix ''='' s) (\<lambda>s. Option.bind (spaces s) (\<lambda>s.
     Option.bind (after_prefix ''['' s) four_bits))))))"

definition eg_pms2_state :: "int \<Rightarrow> http_reply \<Rightarrow> http_reply \<Rightarrow> http_reply \<Rightarrow> bool powering" where
  "eg_pms2_state i rlogin r rlogout =
     login_ok rlogin (ok_status r (logout_ok rlogout
       (case search sockstates_match (body_text r) of
          None \<Rightarrow> Inl (PowerPy AttributeError)
        | Some states \<Rightarrow> and_result (nth_of states (i - 1)) (\<lambda>n. Inr (n = 1)))))"

definition eth008_state :: "int \<Rightarrow> http_reply \<Rightarrow> bool powering" where
  "eth008_state i r =
     and_result (nth_of (words_of (body_text r)) 1) (\<lambda>w.
     and_result (nth_of w (i - 1)) (\<lambda>c.
     and_result (from_py (py_int 10 [c])) (\<lambda>n. Inr (n \<noteq> 0))))"

text \<open>The first line that names the outlet decides.\<close>

definition gude_line :: "int \<Rightarrow> string \<Rightarrow> bool" where
  "gude_line i line \<longleftrightarrow>
     found_inside line (''Power Port '' @ show_int i @ ''</td>'') \<or>
     found_inside line (''SwitchPort '' @ show_int i @ ''</td>'')"

definition line_state :: "string \<Rightarrow> string \<Rightarrow> string \<Rightarrow> bool powering" where
  "line_state off on line =
     (if found_inside line off then Inr False else if found_inside line on then Inr True
      else Inl ExecutionFailed)"

definition gude_state :: "int \<Rightarrow> http_reply \<Rightarrow> bool powering" where
  "gude_state i r = ok_status r
     (case find (gude_line i) (splitlines [] (body_text r)) of
        None \<Rightarrow> Inl ExecutionFailed | Some line \<Rightarrow> line_state ''OFF'' ''ON'' line)"

definition power_port :: "int \<Rightarrow> string" where
  "power_port i = ''content=\"Power Port '' @ show_int i"

definition gude24_state :: "int \<Rightarrow> http_reply \<Rightarrow> bool powering" where
  "gude24_state i r = ok_status r
     (case find (\<lambda>line. found_inside line (power_port i)) (splitlines [] (body_text r)) of
        None \<Rightarrow> Inl ExecutionFailed | Some line \<Rightarrow> line_state '',0'' '',1'' line)"

definition gude8316_state :: "int \<Rightarrow> http_reply \<Rightarrow> bool powering" where
  "gude8316_state i r = ok_status r
     (let lines = splitlines [] (body_text r) in
      if 0 \<le> i \<and> i < int (length lines) \<and> found_inside (lines ! nat i) ''content=\"Power Port ''
      then line_state '',0'' '',1'' (lines ! nat i) else Inl ExecutionFailed)"

text \<open>Both JSON backends of Gude.\<close>

definition gude_json_state :: "int \<Rightarrow> http_reply \<Rightarrow> pyval powering" where
  "gude_json_state i r = ok_status r (json_of r (\<lambda>v.
     and_result (json_key v ''outputs'') (\<lambda>outputs.
     and_result (json_item outputs (i - 1)) (\<lambda>x. json_key x ''state''))))"

text \<open>What mFi answers to setting and to getting a state.\<close>

definition mfi_json :: "http_reply \<Rightarrow> (pyval \<Rightarrow> 'a powering) \<Rightarrow> 'a powering" where
  "mfi_json r k =
     (if status r = 200 \<and> content_type r = ''application/json''
      then json_of r (\<lambda>j. and_result (json_key j ''status'') (\<lambda>s.
        if s \<noteq> VStr ''success'' then Inl ExecutionFailed else k j))
      else Inl ExecutionFailed)"

definition mfi_set_check :: "http_reply \<Rightarrow> unit powering" where
  "mfi_set_check r = mfi_json r (\<lambda>_. Inr ())"

fun sensor_with_port :: "int \<Rightarrow> pyval list \<Rightarrow> pyval option powering" where
  "sensor_with_port i [] = Inr None"
| "sensor_with_port i (x # xs) = and_result (json_key x ''port'') (\<lambda>p.
     if py_eq p (VInt i) then Inr (Some x) else sensor_with_port i xs)"

definition mfi_mpower_state :: "int \<Rightarrow> http_reply \<Rightarrow> bool powering" where
  "mfi_mpower_state i r = mfi_json r (\<lambda>j.
     and_result (json_key j ''sensors'') (\<lambda>s.
     and_result (from_py (elements s)) (\<lambda>xs.
     and_result (sensor_with_port i xs) (\<lambda>x.
       case x of
         None \<Rightarrow> Inl ExecutionFailed
       | Some port \<Rightarrow> and_result (json_key port ''output'') (\<lambda>v.
           if py_eq v (VInt 0) then Inr False else if py_eq v (VInt 1) then Inr True
           else Inl ExecutionFailed)))))"

text \<open>\<open>.*(\d) (\d) (\d) (\d).*\<close> and \<open>.*250 (\d).*\<close>.\<close>

fun four_digits :: "string \<Rightarrow> string option" where
  "four_digits (a # s1 # b # s2 # c # s3 # d # s) =
     (if list_all is_digit [a, b, c, d] \<and> s1 = CHR '' '' \<and> s2 = CHR '' '' \<and> s3 = CHR '' ''
      then Some [a, b, c, d] else None)"
| "four_digits _ = None"

definition netio_state :: "int \<Rightarrow> http_reply \<Rightarrow> bool powering" where
  "netio_state i r = ok_status r
     (case search_last four_digits (body_text r) of
        None \<Rightarrow> Inl (PowerPy AttributeError)
      | Some ds \<Rightarrow> and_result (nth_of ds (i - 1)) (\<lambda>c.
          if c = CHR ''0'' then Inr False else if c = CHR ''1'' then Inr True else Inl (PowerPy KeyError)))"

definition kshell_match :: "string \<Rightarrow> char option" where
  "kshell_match s = Option.bind (after_prefix ''250 '' s) (\<lambda>t.
     if t \<noteq> [] \<and> is_digit (hd t) then Some (hd t) else None)"

text \<open>The exception for an answer that does not match is a plain one.\<close>

definition netio_kshell_state :: "string \<Rightarrow> bool option" where
  "netio_kshell_state t = map_option (\<lambda>c. c = CHR ''1'') (search_last kshell_match t)"

definition pe6216_match :: "string \<Rightarrow> string option" where
  "pe6216_match s = Option.bind (after_prefix ''<'' s) (\<lambda>t.
     let r = dropWhile is_digit t in
     if takeWhile is_digit t = [] then None
     else if startswith r ''>ON<'' then Some ''ON''
     else if startswith r ''>OFF<'' then Some ''OFF''
     else if startswith r ''>PENDING<'' then Some ''PENDING'' else None)"

definition pe6216_state :: "http_reply \<Rightarrow> bool powering" where
  "pe6216_state r = ok_status r
     (case search pe6216_match (body_text r) of None \<Rightarrow> Inl ExecutionFailed | Some s \<Rightarrow> Inr (s = ''ON''))"

definition netgear_state :: "int \<Rightarrow> (string \<times> pyval) list \<Rightarrow> bool powering" where
  "netgear_state i config =
     (case map_of config (''port_'' @ show_int (i + 1) @ ''_poe_power_active'') of
        None \<Rightarrow> Inl (PowerPy KeyError)
      | Some v \<Rightarrow> if v = VStr ''on'' then Inr True else if v = VStr ''off'' then Inr False
          else Inl ExecutionFailed)"

text \<open>\<open>rest\<close> and \<open>simplerest\<close>.\<close>

definition rest_state :: "http_reply \<Rightarrow> bool powering" where
  "rest_state r = ok_status r (Inr (body_text r = ''1''))"

text \<open>The text of RPM1521 with its quotes replaced is JSON, which is given decoded.\<close>

definition rpm1521_state :: "int \<Rightarrow> http_reply \<Rightarrow> bool powering" where
  "rpm1521_state i r = ok_status r (json_of r (\<lambda>v.
     and_result (json_item v (-2)) (\<lambda>states.
     and_result (json_item states (i - 1)) (\<lambda>x.
     and_result (int_of_json x) (\<lambda>n. Inr (n = 1))))))"

definition shelly_gen1_state :: "http_reply \<Rightarrow> pyval powering" where
  "shelly_gen1_state r = ok_status r (json_of r (\<lambda>v. json_key v ''ison''))"

definition shelly_gen2_state :: "http_reply \<Rightarrow> pyval powering" where
  "shelly_gen2_state r = ok_status r (json_of r (\<lambda>v.
     and_result (json_key v ''result'') (\<lambda>x. json_key x ''output'')))"

definition siglent_state :: "int \<Rightarrow> string \<Rightarrow> bool powering" where
  "siglent_state i state = and_result (from_py (py_int 16 state)) (\<lambda>n. test_bit n (i + 3))"

definition tinycontrol_state :: "int \<Rightarrow> http_reply \<Rightarrow> bool powering" where
  "tinycontrol_state i r = ok_status r
     (case map_of (xml r) (''out'' @ show_int i) of
        None \<Rightarrow> Inl (PowerPy AttributeError) | Some t \<Rightarrow> Inr (t = Some ''1''))"

definition tinycontrol_tcpdu_state :: "int \<Rightarrow> http_reply \<Rightarrow> bool powering" where
  "tinycontrol_tcpdu_state i r = ok_status r (json_of r (\<lambda>v.
     and_result (json_key v (''out'' @ show_int i)) (\<lambda>x. Inr (py_eq x (VInt 1)))))"

definition tplink_state :: "int \<Rightarrow> bool list \<Rightarrow> bool powering" where
  "tplink_state i plugs =
     (if int (length plugs) \<le> i then Inl (PowerPy AssertionError) else nth_of plugs i)"

definition ubus_state :: "string \<Rightarrow> http_reply \<Rightarrow> bool powering" where
  "ubus_state index r = ok_status r (json_of r (\<lambda>v.
     and_result (json_key v ''result'') (\<lambda>res.
     and_result (json_item res 1) (\<lambda>info.
     and_result (json_key info ''ports'') (\<lambda>ports.
     and_result (from_py (contains ports (''lan'' @ index))) (\<lambda>b.
     if \<not> b then Inl (PowerPy AssertionError)
     else and_result (json_key ports (''lan'' @ index)) (\<lambda>s. Inr (\<not> py_eq s (VStr ''Disabled'')))))))))"

section \<open>Asking for a state\<close>

text \<open>What comes back from a device, by the way it is asked.\<close>

datatype answer =
    HttpAnswer http_reply
  | Logged http_reply http_reply http_reply
  | TextAnswer string
  | NumberAnswer int
  | ConfigAnswer "(string \<times> pyval) list"
  | PlugAnswer "bool list"

definition as_bool :: "bool powering \<Rightarrow> pyval powering" where
  "as_bool r = and_result r (\<lambda>b. Inr (VBool b))"

definition apc_oid :: "int \<Rightarrow> string" where
  "apc_oid i = ''.1.3.6.1.4.1.318.1.1.4.4.2.1.3.'' @ show_int i"

definition sentry_status_oid :: "int \<Rightarrow> string" where
  "sentry_status_oid i = ''.1.3.6.1.4.1.1718.3.2.3.1.10.'' @ sentry_oid i"

definition no_true_port :: "string option \<Rightarrow> 'a powering \<Rightarrow> 'a powering" where
  "no_true_port port k = (if truthy port then Inl (PowerPy AssertionError) else k)"

definition http_answer :: "answer \<Rightarrow> (http_reply \<Rightarrow> 'a powering) \<Rightarrow> 'a powering" where
  "http_answer a k = (case a of HttpAnswer r \<Rightarrow> k r | _ \<Rightarrow> Inl HttpError)"

definition logged_answer ::
  "answer \<Rightarrow> (http_reply \<Rightarrow> http_reply \<Rightarrow> http_reply \<Rightarrow> 'a powering) \<Rightarrow> 'a powering" where
  "logged_answer a k = (case a of Logged ra r rb \<Rightarrow> k ra r rb | _ \<Rightarrow> Inl HttpError)"

definition text_answer :: "answer \<Rightarrow> (string \<Rightarrow> 'a powering) \<Rightarrow> 'a powering" where
  "text_answer a k = (case a of TextAnswer t \<Rightarrow> k t | _ \<Rightarrow> Inl HttpError)"

definition number_answer :: "answer \<Rightarrow> (int \<Rightarrow> 'a powering) \<Rightarrow> 'a powering" where
  "number_answer a k = (case a of NumberAnswer n \<Rightarrow> k n | _ \<Rightarrow> Inl HttpError)"

definition config_answer :: "answer \<Rightarrow> ((string \<times> pyval) list \<Rightarrow> 'a powering) \<Rightarrow> 'a powering" where
  "config_answer a k = (case a of ConfigAnswer c \<Rightarrow> k c | _ \<Rightarrow> Inl HttpError)"

definition plug_answer :: "answer \<Rightarrow> (bool list \<Rightarrow> 'a powering) \<Rightarrow> 'a powering" where
  "plug_answer a k = (case a of PlugAnswer ps \<Rightarrow> k ps | _ \<Rightarrow> Inl HttpError)"

text \<open>
  \<open>power_get\<close> of each backend on the answer of its device. An answer of another kind does not happen;
  it counts as an error of the request.
\<close>

fun power_get :: "backend \<Rightarrow> string \<Rightarrow> string option \<Rightarrow> string \<Rightarrow> answer \<Rightarrow> pyval powering" where
  "power_get Apc h p x a =
     text_answer a (\<lambda>t. no_port p (index_between 1 8 x (\<lambda>i. as_bool (apc_state (apc_oid i) t))))"
| "power_get Digipower h p x a =
     http_answer a (\<lambda>r. index_between 1 8 x (\<lambda>i. as_bool (digipower_state i r)))"
| "power_get DigitalloggersHttp h p x a =
     http_answer a (\<lambda>r. no_port p (with_index x (\<lambda>i. as_bool (digitalloggers_http_state i r))))"
| "power_get DigitalloggersRestapi h p x a =
     http_answer a (\<lambda>r. no_port p (with_index x (\<lambda>i. and_result (bare_host h) (\<lambda>_. digitalloggers_restapi_state r))))"
| "power_get Eaton h p x a =
     number_answer a (\<lambda>n. index_between 1 16 x (\<lambda>_. as_bool (eaton_state n)))"
| "power_get EgPms2 h p x a =
     logged_answer a (\<lambda>ra r rb. index_between 1 4 x (\<lambda>i. as_bool (eg_pms2_state i ra r rb)))"
| "power_get Eth008 h p x a =
     http_answer a (\<lambda>r. index_between 1 8 x (\<lambda>i. as_bool (ok_status r (eth008_state i r))))"
| "power_get Gude h p x a =
     http_answer a (\<lambda>r. index_between 1 8 x (\<lambda>i. as_bool (gude_state i r)))"
| "power_get Gude24 h p x a =
     http_answer a (\<lambda>r. index_between 1 24 x (\<lambda>i. as_bool (gude24_state i r)))"
| "power_get Gude8031 h p x a =
     http_answer a (\<lambda>r. index_between 1 20 x (\<lambda>i. gude_json_state i r))"
| "power_get Gude8225 h p x a =
     http_answer a (\<lambda>r. index_between 1 12 x (\<lambda>i. gude_json_state i r))"
| "power_get Gude8316 h p x a =
     http_answer a (\<lambda>r. index_between 1 8 x (\<lambda>i. as_bool (gude8316_state i r)))"
| "power_get MfiMpower h p x a =
     http_answer a (\<lambda>r. with_index x (\<lambda>i. and_result (mfi_credentials h) (\<lambda>_. as_bool (mfi_mpower_state i r))))"
| "power_get Netio h p x a =
     http_answer a (\<lambda>r. index_between 1 4 x (\<lambda>i. as_bool (netio_state i r)))"
| "power_get NetioKshell h p x a =
     text_answer a (\<lambda>t. index_between 1 4 x (\<lambda>_.
     case netio_kshell_state t of None \<Rightarrow> Inl PlainException | Some b \<Rightarrow> Inr (VBool b)))"
| "power_get Pe6216 h p x a =
     http_answer a (\<lambda>r. index_between 1 16 x (\<lambda>_. as_bool (pe6216_state r)))"
| "power_get PoeMib h p x a =
     number_answer a (\<lambda>n. as_bool (poe_mib_state n))"
| "power_get PoeNetgear h p x a =
     config_answer a (\<lambda>c. with_index x (\<lambda>i. and_result (netgear_host h) (\<lambda>_. as_bool (netgear_state i c))))"
| "power_get Raritan h p x a =
     number_answer a (\<lambda>n. as_bool (raritan_state n))"
| "power_get Rest h p x a =
     http_answer a (\<lambda>r. no_port p (as_bool (rest_state r)))"
| "power_get Rpm1521 h p x a =
     http_answer a (\<lambda>r. with_index x (\<lambda>i. as_bool (rpm1521_state i r)))"
| "power_get Sentry h p x a =
     text_answer a (\<lambda>t. no_port p (index_between 1 48 x (\<lambda>i.
     and_result (sentry_state (sentry_status_oid i) t) (\<lambda>b. Inr (case b of None \<Rightarrow> VNone | Some b \<Rightarrow> VBool b)))))"
| "power_get ShellyGen1 h p x a =
     http_answer a (\<lambda>r. no_true_port p (shelly_gen1_state r))"
| "power_get ShellyGen2 h p x a =
     http_answer a (\<lambda>r. no_true_port p (shelly_gen2_state r))"
| "power_get Siglent h p x a =
     text_answer a (\<lambda>t. no_port p (index_between 1 2 x (\<lambda>i. as_bool (siglent_state i t))))"
| "power_get Simplerest h p x a =
     http_answer a (\<lambda>r. no_port p (with_index x (\<lambda>_. as_bool (rest_state r))))"
| "power_get Tinycontrol h p x a =
     http_answer a (\<lambda>r. no_port p (with_index x (\<lambda>i. as_bool (tinycontrol_state i r))))"
| "power_get TinycontrolTcpdu h p x a =
     http_answer a (\<lambda>r. no_port p (with_index x (\<lambda>i. as_bool (tinycontrol_tcpdu_state i r))))"
| "power_get (Tplink n) h p x a =
     plug_answer a (\<lambda>ps. no_port p (with_index x (\<lambda>i. as_bool (tplink_state i ps))))"
| "power_get Ubus h p x a =
     http_answer a (\<lambda>r. no_port p (as_bool (ubus_state x r)))"

text \<open>What switching still checks when the device has answered.\<close>

definition confirm :: "bool powering \<Rightarrow> bool \<Rightarrow> unit powering" where
  "confirm state value = and_result state (\<lambda>s. if s \<noteq> value then Inl ExecutionFailed else Inr ())"

definition eth008_set_check :: "int \<Rightarrow> bool \<Rightarrow> http_reply \<Rightarrow> unit powering" where
  "eth008_set_check i value r = ok_status r (confirm (eth008_state i r) value)"

definition gude24_set_check :: "int \<Rightarrow> bool \<Rightarrow> http_reply \<Rightarrow> unit powering" where
  "gude24_set_check i value r = confirm (gude24_state i r) value"

definition eg_pms2_set_check :: "http_reply \<Rightarrow> http_reply \<Rightarrow> http_reply \<Rightarrow> unit powering" where
  "eg_pms2_set_check rlogin r rlogout =
     login_ok rlogin (ok_status r (logout_ok rlogout
       (if status r \<noteq> 200 then Inl ExecutionFailed else Inr ())))"

end
