(* ===== verification/PowerPages.thy ===== *)
theory PowerPages
  imports PowerStates
begin

text \<open>
  The documented answers of four kinds of power switches, and that reading such an answer gives the
  state of the outlet asked for, whatever the states of the others are.
\<close>

section \<open>Finding in texts\<close>

lemma substring_Cons_iff: "substring k (c # s) \<longleftrightarrow> startswith (c # s) k \<or> substring k s"
  by (simp add: startswith_def)

lemma startswith_Cons [simp]:
  "startswith (c # s) (d # k) \<longleftrightarrow> c = d \<and> startswith s k"
  "startswith s [] \<longleftrightarrow> True"
  "startswith [] (d # k) \<longleftrightarrow> False"
  by (auto simp: startswith_def)

lemma substring_skip: "c \<notin> set n \<Longrightarrow> substring (c # k) (n @ s) \<longleftrightarrow> substring (c # k) s"
proof (induction n)
  case (Cons d n)
  then show ?case by (auto simp: substring_Cons_iff simp del: substring.simps)
qed simp

lemma splitlines_line:
  "list_all (\<lambda>c. \<not> line_break c) l \<Longrightarrow> splitlines acc (l @ CHR 0x0A # s) = (acc @ l) # splitlines [] s"
proof (induction l arbitrary: acc)
  case Nil
  then show ?case by (cases s) (simp_all add: line_break_def)
next
  case (Cons c l)
  then have "c \<noteq> CHR 0x0D" "\<not> line_break c" by (auto simp: line_break_def)
  moreover have "\<exists>d r. l @ CHR 0x0A # s = d # r" by (cases l) simp_all
  ultimately show ?case using Cons.IH [of "acc @ [c]"] Cons.prems by auto
qed

lemma splitlines_lines:
  "(\<And>l. l \<in> set ls \<Longrightarrow> list_all (\<lambda>c. \<not> line_break c) l) \<Longrightarrow>
   splitlines [] (concat (map (\<lambda>l. l @ [CHR 0x0A]) ls)) = ls"
  by (induction ls) (simp_all add: splitlines_line)

text \<open>A number that begins another is not larger.\<close>

lemma show_nat_prefix: "show_nat m @ t = show_nat n \<Longrightarrow> m \<le> n"
proof (induction n arbitrary: t rule: less_induct)
  case (less n)
  show ?case
  proof (cases t rule: rev_cases)
    case Nil
    then have "show_int (int m) = show_int (int n)" using less.prems by (simp add: show_int_def)
    then show ?thesis by simp
  next
    case (snoc u d)
    show ?thesis
    proof (cases "n < 10")
      case True
      with less.prems have "length (show_nat m @ u @ [d]) = 1" by (simp add: snoc show_nat.simps [of n])
      then show ?thesis using show_nat_not_Nil [of m] by (cases "show_nat m") auto
    next
      case False
      then have "show_nat m @ u = show_nat (n div 10)"
        using less.prems by (simp add: snoc show_nat.simps [of n] append_assoc [symmetric] del: append_assoc digit.simps)
      then have "m \<le> n div 10" using less.IH [of "n div 10" u] False by simp
      then show ?thesis by (meson div_le_dividend le_trans)
    qed
  qed
qed

lemma startswith_number:
  assumes "0 \<le> i" and "0 \<le> j" and "\<not> number_char c"
  shows "startswith (show_int j @ c # r) (show_int i) \<longleftrightarrow> (\<exists>t. show_int j = show_int i @ t)"
proof
  assume "startswith (show_int j @ c # r) (show_int i)"
  then obtain x where x: "show_int j @ c # r = show_int i @ x" by (auto simp: startswith_iff)
  then obtain us where us: "(show_int j = show_int i @ us \<and> us @ x = x) \<or> True" by blast
  show "\<exists>t. show_int j = show_int i @ t"
  proof (rule ccontr)
    assume no: "\<nexists>t. show_int j = show_int i @ t"
    from x have "\<exists>us. show_int j @ us = show_int i \<and> c # r = us @ x"
      using no by (auto simp: append_eq_append_conv2)
    then obtain us where us: "show_int j @ us = show_int i" "c # r = us @ x" by blast
    then have "us \<noteq> []" using no by (metis append_Nil2)
    then have "c \<in> set (show_int i)" using us by (cases us) (auto simp flip: us(1))
    with show_int_chars assms(3) show False by blast
  qed
next
  assume "\<exists>t. show_int j = show_int i @ t"
  then show "startswith (show_int j @ c # r) (show_int i)" by (auto simp: startswith_iff)
qed


section \<open>Gude Expert Power Control 8080\<close>

text \<open>The meta tags of the page, in the order of the outlets.\<close>

definition meta_tag :: "int \<Rightarrow> bool \<Rightarrow> string" where
  "meta_tag i b = ''<meta http-equiv=\"powerstate\" content=\"Power Port '' @ show_int i @ '','' @
     on_off ''1'' ''0'' b @ ''\">''"

definition gude24_page :: "(int \<Rightarrow> bool) \<Rightarrow> string" where
  "gude24_page v = concat (map (\<lambda>l. l @ [CHR 0x0A]) (map (\<lambda>i. meta_tag i (v i)) [1..24]))"

lemma number_no_break: "c \<in> set (show_int i) \<Longrightarrow> \<not> line_break c"
  using show_int_chars [of c i] by (auto simp: number_char_def line_break_def Let_def)

lemma meta_tag_plain: "list_all (\<lambda>c. \<not> line_break c) (meta_tag i b)"
proof -
  have "list_all (\<lambda>c. \<not> line_break c) (show_int i)" using number_no_break by (auto simp: list_all_iff)
  then show ?thesis by (cases b) (simp_all add: meta_tag_def line_break_def)
qed

lemma meta_tag_of:
  assumes "0 \<le> i" and "0 \<le> j"
  shows "found_inside (meta_tag j b) (power_port i) \<longleftrightarrow> (\<exists>t. show_int j = show_int i @ t)"
proof -
  have c: "CHR ''c'' \<notin> set (show_int j)" using show_int_chars [of "CHR ''c''" j] by (auto simp: number_char_def)
  have n: "\<not> number_char (CHR '','')" by (simp add: number_char_def)
  show ?thesis
    by (cases b) (simp_all add: found_inside_def meta_tag_def power_port_def substring_Cons_iff
      substring_skip [OF c] startswith_number [OF assms n] del: substring.simps(2))
qed

lemma meta_tag_state: "line_state '',0'' '',1'' (meta_tag j b) = Inr b"
proof -
  have c: "CHR '','' \<notin> set (show_int j)" using show_int_chars [of "CHR '',''" j] by (auto simp: number_char_def)
  show ?thesis
    by (cases b) (simp_all add: line_state_def found_inside_def meta_tag_def substring_Cons_iff substring_skip [OF c]
      del: substring.simps(2))
qed

lemma find_first:
  assumes "sorted_wrt (<) xs" and "i \<in> set xs" and "P i" and "\<And>j. j \<in> set xs \<Longrightarrow> P j \<Longrightarrow> (i :: int) \<le> j"
  shows "find P xs = Some i"
  using assms by (induction xs) fastforce+

lemma find_map_Some: "find P (map f xs) = map_option f (find (P \<circ> f) xs)"
  by (induction xs) simp_all

lemma gude24_reads:
  assumes "1 \<le> i" and "i \<le> 24" and "body_text r = gude24_page v" and "status r = 200"
  shows "gude24_state i r = Inr (v i)"
proof -
  have lines: "splitlines [] (gude24_page v) = map (\<lambda>j. meta_tag j (v j)) [1..24]"
    unfolding gude24_page_def by (rule splitlines_lines) (auto simp: meta_tag_plain)
  have "find (\<lambda>j. found_inside (meta_tag j (v j)) (power_port i)) [1..24] = Some i"
  proof (rule find_first)
    show "sorted_wrt (<) [1..24::int]" by simp
    show "i \<in> set [1..24]" using assms by simp
    show "found_inside (meta_tag i (v i)) (power_port i)" using assms meta_tag_of [of i i] by auto
    fix j
    assume "j \<in> set [1..24]" and "found_inside (meta_tag j (v j)) (power_port i)"
    then obtain t where "show_int j = show_int i @ t" and "0 \<le> j" using assms meta_tag_of [of i j] by auto
    then have "show_nat (nat i) @ t = show_nat (nat j)" using assms by (simp add: show_int_def)
    from show_nat_prefix [OF this] assms \<open>0 \<le> j\<close> show "i \<le> j" by simp
  qed
  then show ?thesis
    using assms(3,4) by (simp add: gude24_state_def ok_status_def lines find_map_Some comp_def meta_tag_state)
qed


section \<open>Digital Loggers\<close>

text \<open>The states are the bits of a number that is written with two hexadecimal digits.\<close>

definition hex_digit :: "nat \<Rightarrow> char" where
  "hex_digit n = char_of (if n < 10 then 48 + n else 87 + n)"

definition two_digits :: "nat \<Rightarrow> string" where
  "two_digits n = [hex_digit (n div 16), hex_digit (n mod 16)]"

definition state_mask :: "(int \<Rightarrow> bool) \<Rightarrow> int" where
  "state_mask v = horner_sum of_bool 2 (map v [1, 2, 3, 4, 5, 6, 7, 8])"

definition digitalloggers_page :: "(int \<Rightarrow> bool) \<Rightarrow> string" where
  "digitalloggers_page v =
     ''<div id=\"state\">'' @ two_digits (nat (state_mask v)) @ ''</div><div id=\"lock\">00</div><div id=\"perm\">ff</div>''"

definition hex_plain :: "nat \<Rightarrow> char \<Rightarrow> bool" where
  "hex_plain n c \<longleftrightarrow> digit_value 16 c = Some n \<and> word_char c \<and> \<not> is_space c \<and> c \<notin> set ''_-+xX''"

lemma hex_digit_plain: "n < 16 \<Longrightarrow> hex_plain n (hex_digit n)"
proof -
  assume "n < 16"
  then have "n = 0 \<or> n = 1 \<or> n = 2 \<or> n = 3 \<or> n = 4 \<or> n = 5 \<or> n = 6 \<or> n = 7 \<or> n = 8 \<or> n = 9 \<or> n = 10 \<or>
      n = 11 \<or> n = 12 \<or> n = 13 \<or> n = 14 \<or> n = 15" by arith
  then show ?thesis
    by (elim disjE) (simp_all add: hex_plain_def hex_digit_def digit_value_def word_char_def is_letter_def
      is_lower_def is_digit_def is_space_def less_eq_char_def char_of_def bit_0)
qed

lemma py_int_two:
  assumes "hex_plain m a" and "hex_plain n b"
  shows "py_int 16 [a, b] = Inr (int (m * 16 + n))"
proof -
  have "strip [a, b] = [a, b]" using assms by (intro strip_id) (simp_all add: hex_plain_def)
  then show ?thesis
    using assms by (simp add: py_int_def read_nat_def drop_prefix_def startswith_def hex_plain_def)
qed

lemma two_digits_read:
  assumes "n < 256"
  shows "py_int 16 (two_digits n) = Inr (int n)" and "list_all word_char (two_digits n)"
proof -
  have "n div 16 < 16" "n mod 16 < 16" using assms by simp_all
  from this [THEN hex_digit_plain] show "py_int 16 (two_digits n) = Inr (int n)" "list_all word_char (two_digits n)"
    by (simp_all add: two_digits_def py_int_two hex_plain_def)
qed

lemma state_mask_range: "0 \<le> state_mask v" "state_mask v < 256"
proof -
  have "horner_sum of_bool 2 bs < (2 :: int) ^ length bs" and "0 \<le> (horner_sum of_bool 2 bs :: int)" for bs
    by (rule horner_sum_of_bool_2_less, rule horner_sum_nonnegative)
  from this [of "map v [1, 2, 3, 4, 5, 6, 7, 8]"] show "0 \<le> state_mask v" "state_mask v < 256"
    unfolding state_mask_def length_map by simp_all
qed

lemma nth_outlet: "k < 8 \<Longrightarrow> [1, 2, 3, 4, 5, 6, 7, 8 :: int] ! k = int k + 1"
proof -
  have "list_all (\<lambda>k. [1, 2, 3, 4, 5, 6, 7, 8 :: int] ! k = int k + 1) [0..<8]" by code_simp
  then show "k < 8 \<Longrightarrow> [1, 2, 3, 4, 5, 6, 7, 8 :: int] ! k = int k + 1" unfolding list_all_iff by simp
qed

lemma bit_state_mask: "1 \<le> i \<Longrightarrow> i \<le> 8 \<Longrightarrow> bit (state_mask v) (nat (i - 1)) = v i"
proof -
  assume i: "1 \<le> i" "i \<le> 8"
  then have "nat (i - 1) < 8" and "int (nat (i - 1)) + 1 = i" by auto
  with nth_outlet [of "nat (i - 1)"] show ?thesis
    unfolding state_mask_def bit_horner_sum_bit_iff by (simp del: list.map nth.simps add: nth_map)
qed

lemma digitalloggers_reads:
  assumes "1 \<le> i" and "i \<le> 8" and "body_text r = digitalloggers_page v" and "status r = 200"
  shows "digitalloggers_http_state i r = Inr (v i)"
proof -
  obtain a b where ab: "two_digits (nat (state_mask v)) = [a, b]" by (simp add: two_digits_def)
  have n: "py_int 16 [a, b] = Inr (state_mask v)" "word_char a" "word_char b"
    using two_digits_read [of "nat (state_mask v)"] state_mask_range [of v] by (simp_all add: ab)
  have "search digitalloggers_match (digitalloggers_page v) = Some [a, b]"
    using n by (simp add: digitalloggers_page_def ab digitalloggers_match_def after_prefix_def word_char_def
      is_letter_def is_lower_def is_digit_def)
  then show ?thesis
    using assms bit_state_mask [of i v] n(1)
    by (simp add: digitalloggers_http_state_def ok_status_def from_py_def test_bit_def)
qed


section \<open>Four outlets in a row\<close>

definition bit_char :: "bool \<Rightarrow> char" where
  "bit_char b = (if b then CHR ''1'' else CHR ''0'')"

definition netio_page :: "(int \<Rightarrow> bool) \<Rightarrow> string" where
  "netio_page v = [bit_char (v 1), CHR '' '', bit_char (v 2), CHR '' '', bit_char (v 3), CHR '' '', bit_char (v 4)]"

definition energenie_page :: "(int \<Rightarrow> bool) \<Rightarrow> string" where
  "energenie_page v = ''<script>var sockstates = ['' @ [bit_char (v 1), CHR '','', bit_char (v 2), CHR '','',
     bit_char (v 3), CHR '','', bit_char (v 4)] @ ''];</script>''"

lemma one_of_four: "1 \<le> i \<Longrightarrow> i \<le> 4 \<Longrightarrow> (i :: int) = 1 \<or> i = 2 \<or> i = 3 \<or> i = 4"
  by arith

lemma netio_reads:
  assumes "1 \<le> i" and "i \<le> 4" and "body_text r = netio_page v" and "status r = 200"
  shows "netio_state i r = Inr (v i)"
proof -
  have "search_last four_digits (netio_page v) =
      Some [bit_char (v 1), bit_char (v 2), bit_char (v 3), bit_char (v 4)]"
    by (simp add: netio_page_def bit_char_def is_digit_def)
  then show ?thesis
    using one_of_four [OF assms(1,2)] assms(3,4)
    by (elim disjE) (simp_all add: netio_state_def ok_status_def nth_of_def bit_char_def)
qed

lemma energenie_match:
  "search sockstates_match (energenie_page v) =
     Some (map (\<lambda>b. of_bool b) [v 1, v 2, v 3, v 4])"
  by (simp add: energenie_page_def sockstates_match_def after_prefix_def spaces_def is_space_def bit_char_def)

lemma energenie_reads:
  assumes "1 \<le> i" and "i \<le> 4" and "body_text r = energenie_page v" and "status r = 200"
  shows "(case search sockstates_match (body_text r) of
      None \<Rightarrow> Inl (PowerPy AttributeError)
    | Some states \<Rightarrow> and_result (nth_of states (i - 1)) (\<lambda>n. Inr (n = 1))) = Inr (v i)"
  using one_of_four [OF assms(1,2)] assms(3,4)
  by (elim disjE) (simp_all add: energenie_match nth_of_def)


section \<open>Answers of the devices\<close>

definition page_reply :: "string \<Rightarrow> http_reply" where
  "page_reply t = \<lparr>status = 200, content_type = ''text/html'', body_text = t, json = None, xml = []\<rparr>"

definition logged_in :: http_reply where
  "logged_in = page_reply ''<div class=\"boxmenuitem\"><a href=\"login.html\">Log Out</a></div>''"

fun documented_answer :: "backend \<Rightarrow> (int \<Rightarrow> bool) \<Rightarrow> answer option" where
  "documented_answer Gude24 v = Some (HttpAnswer (page_reply (gude24_page v)))"
| "documented_answer DigitalloggersHttp v = Some (HttpAnswer (page_reply (digitalloggers_page v)))"
| "documented_answer Netio v = Some (HttpAnswer (page_reply (netio_page v)))"
| "documented_answer EgPms2 v = Some (Logged logged_in (page_reply (energenie_page v)) (page_reply []))"
| "documented_answer _ v = None"

fun outlet_count :: "backend \<Rightarrow> int" where
  "outlet_count Gude24 = 24"
| "outlet_count DigitalloggersHttp = 8"
| "outlet_count Netio = 4"
| "outlet_count EgPms2 = 4"
| "outlet_count _ = 0"

lemma logged_in_ok: "login_ok logged_in k = k"
proof -
  have "substring (body_text logged_in) (body_text logged_in)" by (metis append_Nil append_Nil2 substring_iff)
  then show ?thesis by (simp add: login_ok_def logged_in_def page_reply_def)
qed

text \<open>
  Reading an outlet from the documented answer of a device that shows the states \<open>v\<close> gives the
  state of that outlet, for every outlet of the device and whatever the other states are.
\<close>

lemma documented_answer_read:
  assumes "documented_answer b v = Some a" and "py_int 10 x = Inr i" and "1 \<le> i" and "i \<le> outlet_count b"
  shows "power_get b h None x a = Inr (VBool (v i))"
proof -
  have page: "status (page_reply t) = 200" "body_text (page_reply t) = t" for t by (simp_all add: page_reply_def)
  have eg: "eg_pms2_state i logged_in (page_reply (energenie_page v)) (page_reply []) = Inr (v i)" if "i \<le> 4"
    using energenie_reads [OF assms(3) that, of "page_reply (energenie_page v)" v]
    by (simp add: eg_pms2_state_def logged_in_ok ok_status_def logout_ok_def page)
  note arrive = http_answer_def logged_answer_def no_port_def index_between_def with_index_def from_py_def as_bool_def
  show ?thesis
  proof (cases b)
    case Gude24
    with assms gude24_reads [of i "page_reply (gude24_page v)" v] show ?thesis by (auto simp: arrive page)
  next
    case DigitalloggersHttp
    with assms digitalloggers_reads [of i "page_reply (digitalloggers_page v)" v] show ?thesis
      by (auto simp: arrive page)
  next
    case Netio
    with assms netio_reads [of i "page_reply (netio_page v)" v] show ?thesis by (auto simp: arrive page)
  next
    case EgPms2
    with assms eg show ?thesis by (auto simp: arrive)
  qed (use assms in simp_all)
qed

lemma documented_answer_read_witness:
  "power_get Gude24 ''h'' None ''12'' (HttpAnswer (page_reply (gude24_page (\<lambda>i. i = 12)))) = Inr (VBool True) \<and>
   power_get Gude24 ''h'' None ''1'' (HttpAnswer (page_reply (gude24_page (\<lambda>i. i = 12)))) = Inr (VBool False)"
proof -
  let ?v = "\<lambda>i :: int. i = 12"
  have twelve: "py_int 10 ''12'' = Inr 12" and one: "py_int 10 ''1'' = Inr 1" by code_simp+
  show ?thesis
    using documented_answer_read [of Gude24 ?v _ "''12''" 12, OF _ twelve]
      documented_answer_read [of Gude24 ?v _ "''1''" 1, OF _ one] by simp
qed

end
