(* ===== verification/Processes.thy ===== *)
theory Processes
  imports PyText
begin

text \<open>
  \<open>ProcessWrapper\<close> of \<^verbatim>\<open>labgrid/util/helper.py\<close>: a program runs behind a terminal, its output is
  cut at carriage returns, given to the registered callbacks as it comes and put together at the
  end. Also \<open>shlex.split\<close> and \<open>shlex.join\<close>, which make commands of configured text.
\<close>

section \<open>Callbacks\<close>

datatype callback = LogCallback | PrintCallback | OtherCallback nat

definition register :: "callback \<Rightarrow> callback list \<Rightarrow> callback list" where
  "register cb cbs = (if cb \<in> set cbs then cbs else cbs @ [cb])"

definition unregister :: "callback \<Rightarrow> callback list \<Rightarrow> callback list" where
  "unregister cb cbs = (if cb \<notin> set cbs then cbs else remove1 cb cbs)"

definition enable_logging :: "callback list \<Rightarrow> callback list" where
  "enable_logging = register LogCallback"

definition disable_logging :: "callback list \<Rightarrow> callback list" where
  "disable_logging = unregister LogCallback"

definition enable_print :: "callback list \<Rightarrow> callback list" where
  "enable_print = register PrintCallback"

definition disable_print :: "callback list \<Rightarrow> callback list" where
  "disable_print = unregister PrintCallback"

text \<open>What the two callbacks of the class itself write for a message.\<close>

definition strip_newlines :: "string \<Rightarrow> string" where
  "strip_newlines s = rstrip (\<lambda>c. c = CHR 0x0A) (dropWhile (\<lambda>c. c = CHR 0x0A) s)"

definition log_message :: "int \<Rightarrow> string \<Rightarrow> string option" where
  "log_message pid message =
     (let m = strip_newlines message in
      if m \<noteq> [] then Some (''['' @ show_int pid @ ''] '' @ m) else None)"

definition print_message :: "string \<Rightarrow> string" where
  "print_message message = CHR 0x0D # message"


section \<open>Reading the output\<close>

record read_state =
  rd_res :: "string list"
  rd_buf :: string
  rd_calls :: "(callback \<times> string) list"

definition call_all :: "callback list \<Rightarrow> string \<Rightarrow> read_state \<Rightarrow> read_state" where
  "call_all cbs part r = r\<lparr>rd_calls := rd_calls r @ map (\<lambda>cb. (cb, part)) cbs\<rparr>"

text \<open>One chunk from the terminal; an empty one changes nothing.\<close>

definition read_chunk :: "callback list \<Rightarrow> string \<Rightarrow> read_state \<Rightarrow> read_state" where
  "read_chunk cbs raw r =
     (if raw = [] then r
      else let ps = split_on (CHR 0x0D) (rd_buf r @ raw); parts = butlast ps in
        fold (call_all cbs) parts (r\<lparr>rd_res := rd_res r @ parts, rd_buf := last ps\<rparr>))"

definition finish_reading :: "callback list \<Rightarrow> read_state \<Rightarrow> read_state" where
  "finish_reading cbs r =
     (if rd_buf r = [] then r
      else call_all cbs
        (if endswith (rd_buf r) [CHR 0x0A] then rd_buf r else rd_buf r @ [CHR 0x0A])
        (r\<lparr>rd_res := rd_res r @ [rd_buf r]\<rparr>))"

definition read_all :: "callback list \<Rightarrow> string list \<Rightarrow> read_state" where
  "read_all cbs chunks =
     finish_reading cbs (fold (read_chunk cbs) chunks \<lparr>rd_res = [], rd_buf = [], rd_calls = []\<rparr>)"

datatype process_error = ProcessTimeout | ProcessFailed int string | StderrUnsupported

text \<open>
  \<open>check_output\<close> for the chunks that came, whether the timeout had expired, and the exit status. The
  printing callback is registered for the call when the caller asks for it, nothing prints yet and
  the logger is silent.
\<close>

definition prints_now :: "callback list \<Rightarrow> bool \<Rightarrow> bool \<Rightarrow> bool" where
  "prints_now cbs print_on_silent_log silent \<longleftrightarrow> print_on_silent_log \<and> silent \<and> PrintCallback \<notin> set cbs"

definition check_output ::
  "bool \<Rightarrow> bool \<Rightarrow> string list \<Rightarrow> bool \<Rightarrow> int \<Rightarrow> callback list \<Rightarrow>
   (process_error + string) \<times> (callback \<times> string) list \<times> callback list"
where
  "check_output print_on_silent_log silent chunks timed_out returncode cbs =
     (let p = prints_now cbs print_on_silent_log silent;
          active = (if p then enable_print cbs else cbs);
          r = read_all active chunks;
          left = (if p then disable_print active else active) in
      (if timed_out then Inl ProcessTimeout
       else if returncode \<noteq> 0 then Inl (ProcessFailed returncode (join_with [CHR 0x0D] (rd_res r)))
       else Inr (join_with [CHR 0x0A] (map strip_newlines (rd_res r))),
       rd_calls r, left))"

text \<open>A terminal writes a newline as carriage return and newline.\<close>

definition through_pty :: "string \<Rightarrow> string" where
  "through_pty s = concat (map (\<lambda>c. if c = CHR 0x0A then [CHR 0x0D, CHR 0x0A] else [c]) s)"


section \<open>However the output is cut\<close>

lemma fold_call_all:
  "fold (call_all cbs) parts r =
     r\<lparr>rd_calls := rd_calls r @ concat (map (\<lambda>part. map (\<lambda>cb. (cb, part)) cbs) parts)\<rparr>"
  by (induction parts arbitrary: r) (simp_all add: call_all_def)

lemma split_on_last_append:
  "split_on c (a @ b) = butlast (split_on c a) @ split_on c (last (split_on c a) @ b)"
proof (induction a)
  case Nil
  then show ?case by simp
next
  case (Cons d a)
  obtain w ws where w: "split_on c a = w # ws" using split_on_not_Nil by (meson neq_Nil_conv)
  show ?case
  proof (cases ws)
    case Nil
    with Cons w show ?thesis by (auto split: list.splits)
  next
    case (Cons v vs)
    with Cons.IH w show ?thesis by (auto split: list.splits)
  qed
qed

definition reading_of :: "callback list \<Rightarrow> string \<Rightarrow> read_state" where
  "reading_of cbs s =
     (let ps = split_on (CHR 0x0D) s in
      \<lparr>rd_res = butlast ps, rd_buf = last ps,
       rd_calls = concat (map (\<lambda>part. map (\<lambda>cb. (cb, part)) cbs) (butlast ps))\<rparr>)"

lemma read_chunk_of: "read_chunk cbs raw (reading_of cbs s) = reading_of cbs (s @ raw)"
proof (cases "raw = []")
  case False
  have "butlast (split_on (CHR 0x0D) (s @ raw)) =
      butlast (split_on (CHR 0x0D) s) @ butlast (split_on (CHR 0x0D) (last (split_on (CHR 0x0D) s) @ raw))"
    by (subst split_on_last_append) (simp add: butlast_append)
  moreover have "last (split_on (CHR 0x0D) (s @ raw)) =
      last (split_on (CHR 0x0D) (last (split_on (CHR 0x0D) s) @ raw))"
    by (subst split_on_last_append) simp
  ultimately show ?thesis using False by (simp add: read_chunk_def reading_of_def fold_call_all Let_def)
qed (simp add: read_chunk_def)

lemma read_chunks_of: "fold (read_chunk cbs) chunks (reading_of cbs s) = reading_of cbs (s @ concat chunks)"
  by (induction chunks arbitrary: s) (simp_all add: read_chunk_of)

lemma read_all_concat: "read_all cbs chunks = read_all cbs [concat chunks]"
proof -
  have "\<lparr>rd_res = [], rd_buf = [], rd_calls = []\<rparr> = reading_of cbs []" by (simp add: reading_of_def)
  then show ?thesis using read_chunks_of [of cbs chunks "[]"] read_chunk_of [of cbs "concat chunks" "[]"]
    by (simp add: read_all_def)
qed

lemma read_all_res:
  "rd_res (read_all cbs chunks) =
     (let ps = split_on (CHR 0x0D) (concat chunks) in if last ps = [] then butlast ps else ps)"
proof -
  have "\<lparr>rd_res = [], rd_buf = [], rd_calls = []\<rparr> = reading_of cbs []" by (simp add: reading_of_def)
  then show ?thesis using read_chunks_of [of cbs _ "[]"]
    by (simp add: read_all_def finish_reading_def reading_of_def call_all_def Let_def)
qed

text \<open>What a program wrote, line by line, behind the terminal.\<close>

lemma split_pty:
  "CHR 0x0D \<notin> set s \<Longrightarrow>
   split_on (CHR 0x0D) (through_pty s) =
     (case split_on (CHR 0x0A) s of [] \<Rightarrow> [[]] | l # ls \<Rightarrow> l # map (\<lambda>x. CHR 0x0A # x) ls)"
proof (induction s)
  case Nil
  then show ?case by (simp add: through_pty_def)
next
  case (Cons c s)
  obtain w ws where w: "split_on (CHR 0x0A) s = w # ws" using split_on_not_Nil by (meson neq_Nil_conv)
  have pty: "through_pty (c # s) = (if c = CHR 0x0A then [CHR 0x0D, CHR 0x0A] else [c]) @ through_pty s"
    by (simp add: through_pty_def)
  from Cons w have "split_on (CHR 0x0D) (through_pty s) = w # map (\<lambda>x. CHR 0x0A # x) ws" by simp
  then show ?case using Cons.prems w unfolding pty by auto
qed

lemma strip_newlines_plain: "CHR 0x0A \<notin> set s \<Longrightarrow> strip_newlines s = s"
proof -
  assume s: "CHR 0x0A \<notin> set s"
  then have "dropWhile (\<lambda>c. c = CHR 0x0A) s = s" by (cases s) auto
  moreover have "dropWhile (\<lambda>c. c = CHR 0x0A) (rev s) = rev s"
    using s by (cases "rev s") (auto simp: dropWhile_eq_self_iff)
  ultimately show ?thesis by (simp add: strip_newlines_def rstrip_def)
qed

lemma strip_newlines_Cons: "CHR 0x0A \<notin> set s \<Longrightarrow> strip_newlines (CHR 0x0A # s) = s"
  using strip_newlines_plain [of s] by (simp add: strip_newlines_def)

text \<open>
  What \<open>check_output\<close> returns is what the program wrote, as long as that has no carriage returns:
  neither the terminal in between nor the way the output is cut into chunks leaves a trace.
\<close>

lemma check_output_returns_output:
  assumes "concat chunks = through_pty s" and "CHR 0x0D \<notin> set s"
  shows "fst (check_output p silent chunks False 0 cbs) = Inr s"
proof -
  obtain l ls where split: "split_on (CHR 0x0A) s = l # ls" using split_on_not_Nil by (meson neq_Nil_conv)
  have plain: "CHR 0x0A \<notin> set w" if "w \<in> set (l # ls)" for w
    using split_on_no_sep [of w "CHR 0x0A" s] that split by simp
  define ps where "ps = l # map (\<lambda>x. CHR 0x0A # x) ls"
  have res: "rd_res (read_all c chunks) = (if last ps = [] then butlast ps else ps)" for c
    using split_pty [OF assms(2)] assms(1) split by (simp add: read_all_res Let_def ps_def)
  have "map (strip_newlines \<circ> (\<lambda>x. CHR 0x0A # x)) ls = ls"
    by (rule map_idI) (simp add: strip_newlines_Cons plain)
  moreover have "strip_newlines l = l" by (rule strip_newlines_plain, rule plain) simp
  ultimately have strip: "map strip_newlines ps = split_on (CHR 0x0A) s" by (simp add: ps_def split)
  have "map strip_newlines (if last ps = [] then butlast ps else ps) \<in> {split_on (CHR 0x0A) s} \<or>
      (s = [] \<and> last ps = [] \<and> butlast ps = [])"
  proof (cases "last ps = []")
    case True
    then have "ls = []" "l = []" unfolding ps_def by (cases ls rule: rev_cases; simp)+
    then show ?thesis using join_split [of "CHR 0x0A" s] split by (simp add: ps_def)
  qed (simp add: strip)
  then have "join_with [CHR 0x0A] (map strip_newlines (rd_res (read_all c chunks))) = s" for c
    unfolding res by (elim disjE) (simp_all only: singleton_iff join_split, simp)
  then show ?thesis by (simp add: check_output_def Let_def)
qed

lemma check_output_returns_output_witness:
  "fst (check_output False False [''a'', [CHR 0x0D], CHR 0x0A # ''b'', [CHR 0x0D, CHR 0x0A]] False 0 [LogCallback]) =
   Inr (''a'' @ CHR 0x0A # ''b'' @ [CHR 0x0A])"
  by (rule check_output_returns_output) (simp_all add: through_pty_def)

text \<open>The callbacks that are registered afterwards are the ones from before.\<close>

lemma check_output_keeps_callbacks: "snd (snd (check_output p silent chunks t n cbs)) = cbs"
  by (simp add: check_output_def Let_def prints_now_def enable_print_def disable_print_def register_def
      unregister_def remove1_append)


section \<open>Words of a command\<close>

text \<open>
  \<open>shlex.split(s)\<close> in POSIX mode: words are separated by white space; within double quotes a
  backslash escapes only a quote and itself, within single quotes nothing. \<open>None\<close> as the word so far
  means that none has begun.
\<close>

datatype quoting = Outside | Single | Double | Escape | DoubleEscape

definition shlex_space :: "char \<Rightarrow> bool" where
  "shlex_space c \<longleftrightarrow> c \<in> {CHR '' '', CHR 0x09, CHR 0x0D, CHR 0x0A}"

definition extend :: "string option \<Rightarrow> string \<Rightarrow> string option" where
  "extend w s = Some ((case w of None \<Rightarrow> [] | Some t \<Rightarrow> t) @ s)"

fun shlex_from :: "quoting \<Rightarrow> string option \<Rightarrow> string \<Rightarrow> py_error + string list" where
  "shlex_from q w [] =
     (if q \<noteq> Outside then Inl ValueError else Inr (case w of None \<Rightarrow> [] | Some t \<Rightarrow> [t]))"
| "shlex_from Outside w (c # s) =
     (if shlex_space c then
        (case w of None \<Rightarrow> shlex_from Outside None s
         | Some t \<Rightarrow> and_result (shlex_from Outside None s) (\<lambda>ts. Inr (t # ts)))
      else if c = CHR 0x27 then shlex_from Single (extend w []) s
      else if c = CHR 0x22 then shlex_from Double (extend w []) s
      else if c = CHR 0x5C then shlex_from Escape (extend w []) s
      else shlex_from Outside (extend w [c]) s)"
| "shlex_from Single w (c # s) =
     (if c = CHR 0x27 then shlex_from Outside w s else shlex_from Single (extend w [c]) s)"
| "shlex_from Double w (c # s) =
     (if c = CHR 0x22 then shlex_from Outside w s
      else if c = CHR 0x5C then shlex_from DoubleEscape w s
      else shlex_from Double (extend w [c]) s)"
| "shlex_from Escape w (c # s) = shlex_from Outside (extend w [c]) s"
| "shlex_from DoubleEscape w (c # s) =
     shlex_from Double (extend w (if c = CHR 0x22 \<or> c = CHR 0x5C then [c] else [CHR 0x5C, c])) s"

definition shlex_split :: "string \<Rightarrow> py_error + string list" where
  "shlex_split s = shlex_from Outside None s"

definition shlex_join :: "string list \<Rightarrow> string" where
  "shlex_join ws = join_with '' '' (map quote ws)"

lemma shell_safe_plain:
  "shell_safe c \<Longrightarrow> \<not> shlex_space c \<and> c \<noteq> CHR 0x27 \<and> c \<noteq> CHR 0x22 \<and> c \<noteq> CHR 0x5C"
  by (auto simp: shell_safe_def shlex_space_def is_letter_def is_lower_def is_digit_def less_eq_char_def)

lemma shlex_safe: "list_all shell_safe s \<Longrightarrow> s \<noteq> [] \<Longrightarrow> shlex_from Outside w (s @ r) = shlex_from Outside (extend w s) r"
proof (induction s arbitrary: w)
  case (Cons c s)
  from Cons.prems have "shell_safe c" by simp
  note plain = shell_safe_plain [OF this]
  show ?case
  proof (cases "s = []")
    case True
    with plain show ?thesis by simp
  next
    case False
    have "extend (extend w [c]) s = extend w (c # s)" by (simp add: extend_def)
    with plain Cons.IH [of "extend w [c]"] Cons.prems False show ?thesis by simp
  qed
qed simp

lemma shlex_quoted:
  "shlex_from Single w (concat (map (\<lambda>c. if c = CHR 0x27 then [CHR 0x27, CHR 0x22, CHR 0x27, CHR 0x22, CHR 0x27]
     else [c]) s) @ CHR 0x27 # r) = shlex_from Outside (if s = [] then w else extend w s) r"
proof (induction s arbitrary: w)
  case (Cons c s)
  have e: "extend (extend w [d]) t = extend w (d # t)" "extend (extend w []) t = extend w t"
      "extend (extend w t) [] = extend w t" for d t
    by (simp_all add: extend_def)
  show ?case using Cons.IH [of "extend w [c]"] by (auto simp: shlex_space_def e)
qed simp

lemma shlex_quote: "shlex_from Outside None (quote s @ r) = shlex_from Outside (Some s) r"
proof (cases "s = [] \<or> \<not> list_all shell_safe s")
  case True
  have "extend (extend None []) s = Some s" by (simp add: extend_def)
  with True show ?thesis
    by (auto simp: quote_def shlex_space_def shlex_quoted extend_def)
next
  case False
  then show ?thesis by (simp add: quote_def shlex_safe extend_def)
qed

text \<open>Splitting reads back what joining wrote.\<close>

lemma shlex_split_join: "shlex_split (shlex_join ws) = Inr ws"
proof -
  have "shlex_from Outside None (join_with '' '' (map quote ws)) = Inr ws"
  proof (induction ws)
    case (Cons w ws)
    show ?case
    proof (cases ws)
      case Nil
      then show ?thesis using shlex_quote [of w "[]"] by simp
    next
      case (Cons v vs)
      then show ?thesis using Cons.IH shlex_quote [of w "'' '' @ join_with '' '' (map quote ws)"]
        by (simp add: shlex_space_def)
    qed
  qed simp
  then show ?thesis by (simp add: shlex_split_def shlex_join_def)
qed

end
