(* ===== verification/PowerDrivers.thy ===== *)
theory PowerDrivers
  imports PowerPages Proxy Processes
begin

text \<open>
  \<^verbatim>\<open>labgrid/driver/powerdriver.py\<close>: the drivers that switch the power of a device by a program, a
  networked power switch or another driver. Programs and devices are outside: a world answers each
  action, given the actions before it.
\<close>

section \<open>Actions and their outcomes\<close>

datatype power_event =
    Executed "string list"
  | Requested "request list"
  | Read
  | Waited real
  | Prompted string
  | OutputSet bool
  | OutputRead

datatype power_failure =
    BackendFailed power_error
  | ProgramFailed process_error
  | OutputFailed
  | NoDevice
  | NotSupported

type_synonym 'a powered = "(power_failure, 'a, power_event list) outcome"

record power_world =
  program_answer :: "power_event list \<Rightarrow> string list \<Rightarrow> process_error + string"
  switch_answer :: "power_event list \<Rightarrow> request list \<Rightarrow> unit powering"
  read_answer :: "power_event list \<Rightarrow> answer"
  output_set :: "power_event list \<Rightarrow> bool \<Rightarrow> bool"
  output_get :: "power_event list \<Rightarrow> bool option"

definition from_backend :: "'a powering \<Rightarrow> power_event list \<Rightarrow> 'a powered" where
  "from_backend r h = (case r of Inl e \<Rightarrow> (Inl (BackendFailed e), h) | Inr a \<Rightarrow> (Inr a, h))"

text \<open>\<open>processwrapper.check_output(cmd)\<close>.\<close>

definition program :: "power_world \<Rightarrow> string list \<Rightarrow> power_event list \<Rightarrow> string powered" where
  "program w cmd h =
     (case program_answer w h cmd of
        Inl e \<Rightarrow> (Inl (ProgramFailed e), h @ [Executed cmd])
      | Inr out \<Rightarrow> (Inr out, h @ [Executed cmd]))"

definition program_only :: "power_world \<Rightarrow> string list \<Rightarrow> power_event list \<Rightarrow> unit powered" where
  "program_only w cmd h = and_then (program w cmd h) (\<lambda>_ h. (Inr (), h))"

text \<open>\<open>target.interact(message)\<close>.\<close>

definition prompt :: "string \<Rightarrow> power_event list \<Rightarrow> unit powered" where
  "prompt message h = (Inr (), h @ [Prompted message])"

text \<open>The requests of a backend, all of them or none.\<close>

definition switch :: "power_world \<Rightarrow> request list powering \<Rightarrow> power_event list \<Rightarrow> unit powered" where
  "switch w requests h =
     (case requests of
        Inl e \<Rightarrow> (Inl (BackendFailed e), h)
      | Inr rs \<Rightarrow> from_backend (switch_answer w h rs) (h @ [Requested rs]))"


section \<open>Drivers\<close>

record sispm_port =
  ss_prefix :: "string list"
  ss_tool :: string
  ss_busnum :: nat
  ss_devnum :: nat
  ss_index :: int

record ykush_port =
  yk_prefix :: "string list"
  yk_tool :: string
  yk_serial :: string
  yk_index :: int

record usb_port =
  up_prefix :: "string list"
  up_tool :: string
  up_path :: string
  up_index :: int

record pdu_port =
  pd_host :: string
  pd_port :: string
  pd_name :: string
  pd_index :: int

datatype power_driver =
    Manual string
  | SiSPM sispm_port real
  | External string string "string option" real
  | Network backend string "string option" string real
  | DigitalOutput real
  | YKUSH ykush_port string real
  | UsbPower usb_port real
  | PDUDaemon pdu_port real

text \<open>Three digits, as \<open>:03d\<close> writes them.\<close>

definition three_digits :: "nat \<Rightarrow> string" where
  "three_digits n = replicate (3 - length (show_nat n)) (CHR ''0'') @ show_nat n"

definition sispm_line :: "sispm_port \<Rightarrow> string list \<Rightarrow> string list" where
  "sispm_line p args =
     ss_prefix p @ [ss_tool p, ''-U'', three_digits (ss_busnum p) @ '':'' @ three_digits (ss_devnum p)] @ args"

definition ykush_line :: "ykush_port \<Rightarrow> string \<Rightarrow> string \<Rightarrow> string list" where
  "ykush_line p model opt =
     yk_prefix p @ [yk_tool p, model, ''-s'', yk_serial p, opt, show_int (yk_index p)]"

definition uhubctl_line :: "usb_port \<Rightarrow> string list" where
  "uhubctl_line p = up_prefix p @ [up_tool p, ''-l'', up_path p, ''-p'', show_int (up_index p)]"

definition usb_switch :: "power_world \<Rightarrow> usb_port \<Rightarrow> string \<Rightarrow> power_event list \<Rightarrow> unit powered" where
  "usb_switch w p cmd = program_only w (uhubctl_line p @ [''-r'', ''100'', ''-a'', cmd])"

text \<open>\<open>_build_url\<close>.\<close>

definition pdu_url :: "pdu_port \<Rightarrow> real \<Rightarrow> string \<Rightarrow> string" where
  "pdu_url p delay cmd =
     ''http://'' @ pd_host p @ '':'' @ pd_port p @ ''/power/control/'' @ cmd @ ''?hostname='' @ pd_name p @
     ''&port='' @ show_int (pd_index p) @
     (if cmd = ''reboot'' then ''&delay='' @ show_int \<lceil>delay\<rceil> else [])"

definition pdu_request :: "power_world \<Rightarrow> pdu_port \<Rightarrow> real \<Rightarrow> string \<Rightarrow> power_event list \<Rightarrow> unit powered" where
  "pdu_request w p delay cmd = switch w (Inr [HttpGet (Plain (pdu_url p delay cmd))])"

text \<open>A configured command is split into words and run.\<close>

definition external :: "power_world \<Rightarrow> string \<Rightarrow> power_event list \<Rightarrow> unit powered" where
  "external w cmd h =
     (case shlex_split cmd of
        Inl e \<Rightarrow> (Inl (BackendFailed (PowerPy e)), h)
      | Inr ws \<Rightarrow> program_only w ws h)"

definition set_output :: "power_world \<Rightarrow> bool \<Rightarrow> power_event list \<Rightarrow> unit powered" where
  "set_output w v h = (if output_set w h v then Inr () else Inl OutputFailed, h @ [OutputSet v])"

fun power_on :: "power_world \<Rightarrow> power_driver \<Rightarrow> power_event list \<Rightarrow> unit powered" where
  "power_on w (Manual name) = prompt (''Turn the target '' @ name @ '' ON and press enter'')"
| "power_on w (SiSPM p d) = program_only w (sispm_line p [''-o'', show_int (ss_index p)])"
| "power_on w (External cmd_on cmd_off cmd_cycle d) = external w cmd_on"
| "power_on w (Network b host port index d) = switch w (power_set b host port index True)"
| "power_on w (DigitalOutput d) = set_output w True"
| "power_on w (YKUSH p model d) = program_only w (ykush_line p model ''-u'')"
| "power_on w (UsbPower p d) = usb_switch w p ''on''"
| "power_on w (PDUDaemon p d) = pdu_request w p d ''on''"

fun power_off :: "power_world \<Rightarrow> power_driver \<Rightarrow> power_event list \<Rightarrow> unit powered" where
  "power_off w (Manual name) = prompt (''Turn the target '' @ name @ '' OFF and press enter'')"
| "power_off w (SiSPM p d) = program_only w (sispm_line p [''-f'', show_int (ss_index p)])"
| "power_off w (External cmd_on cmd_off cmd_cycle d) = external w cmd_off"
| "power_off w (Network b host port index d) = switch w (power_set b host port index False)"
| "power_off w (DigitalOutput d) = set_output w False"
| "power_off w (YKUSH p model d) = program_only w (ykush_line p model ''-d'')"
| "power_off w (UsbPower p d) = usb_switch w p ''off''"
| "power_off w (PDUDaemon p d) = pdu_request w p d ''off''"

text \<open>Off, the delay, and on; stopped by the first exception.\<close>

definition off_and_on :: "power_world \<Rightarrow> power_driver \<Rightarrow> real \<Rightarrow> power_event list \<Rightarrow> unit powered" where
  "off_and_on w d delay h = and_then (power_off w d h) (\<lambda>_ h. power_on w d (h @ [Waited delay]))"

fun power_cycle :: "power_world \<Rightarrow> power_driver \<Rightarrow> power_event list \<Rightarrow> unit powered" where
  "power_cycle w (Manual name) = prompt (''CYCLE the target '' @ name @ '' and press enter'')"
| "power_cycle w (External cmd_on cmd_off cmd_cycle d) =
     (case cmd_cycle of
        Some cmd \<Rightarrow> external w cmd
      | None \<Rightarrow> off_and_on w (External cmd_on cmd_off cmd_cycle d) d)"
| "power_cycle w (PDUDaemon p d) = pdu_request w p d ''reboot''"
| "power_cycle w (SiSPM p d) = off_and_on w (SiSPM p d) d"
| "power_cycle w (Network b host port index d) = off_and_on w (Network b host port index d) d"
| "power_cycle w (DigitalOutput d) = off_and_on w (DigitalOutput d) d"
| "power_cycle w (YKUSH p model d) = off_and_on w (YKUSH p model d) d"
| "power_cycle w (UsbPower p d) = off_and_on w (UsbPower p d) d"

text \<open>\<open>PowerResetMixin.reset\<close>.\<close>

definition power_reset :: "power_world \<Rightarrow> power_driver \<Rightarrow> power_event list \<Rightarrow> unit powered" where
  "power_reset = power_cycle"


section \<open>Reading the state\<close>

text \<open>\<open>bytes.split\<close> without arguments.\<close>

fun bytes_words :: "string \<Rightarrow> string \<Rightarrow> string list" where
  "bytes_words acc [] = (if acc = [] then [] else [acc])"
| "bytes_words acc (c # s) =
     (if bytes_space c then (if acc = [] then bytes_words [] s else acc # bytes_words [] s)
      else bytes_words (acc @ [c]) s)"

definition sispm_state :: "string \<Rightarrow> bool option" where
  "sispm_state out =
     (if bytes_strip out = ''on'' then Some True else if bytes_strip out = ''off'' then Some False else None)"

definition ykush_state :: "int \<Rightarrow> string \<Rightarrow> bool option" where
  "ykush_state index out =
     (let text = (\<lambda>status. ''Downstream port '' @ show_int index @ '' is '' @ status) in
      if substring (text ''ON'') out then Some True
      else if substring (text ''OFF'') out then Some False else None)"

text \<open>
  The lines of uhubctl: those of ports are indented, and a line without a colon among them cannot be
  unpacked.
\<close>

fun bytes_lines :: "string \<Rightarrow> string \<Rightarrow> string list" where
  "bytes_lines acc [] = (if acc = [] then [] else [acc])"
| "bytes_lines acc [c] = (if c = CHR 0x0A \<or> c = CHR 0x0D then [acc] else [acc @ [c]])"
| "bytes_lines acc (c # d # s) =
     (if c = CHR 0x0D \<and> d = CHR 0x0A then acc # bytes_lines [] s
      else if c = CHR 0x0A \<or> c = CHR 0x0D then acc # bytes_lines [] (d # s)
      else bytes_lines (acc @ [c]) (d # s))"

fun uhubctl_state :: "int \<Rightarrow> string list \<Rightarrow> py_error + bool option" where
  "uhubctl_state index [] = Inr None"
| "uhubctl_state index (l # ls) =
     (if l = [] \<or> \<not> startswith l '' '' then uhubctl_state index ls
      else let t = bytes_strip l in
        if CHR '':'' \<notin> set t then Inl ValueError
        else if before (CHR '':'') t \<noteq> ''Port '' @ show_int index then uhubctl_state index ls
        else let ws = bytes_words [] (after (CHR '':'') t) in
          if ''power'' \<in> set ws then Inr (Some True)
          else if ''off'' \<in> set ws then Inr (Some False) else uhubctl_state index ls)"

definition told :: "bool option \<Rightarrow> power_event list \<Rightarrow> pyval powered" where
  "told b h = (case b of None \<Rightarrow> (Inl (BackendFailed ExecutionFailed), h) | Some v \<Rightarrow> (Inr (VBool v), h))"

text \<open>A manual and an external driver have no \<open>get\<close>.\<close>

fun driver_state :: "power_world \<Rightarrow> power_driver \<Rightarrow> power_event list \<Rightarrow> pyval powered" where
  "driver_state w (Manual name) h = (Inl (BackendFailed (PowerPy AttributeError)), h)"
| "driver_state w (External cmd_on cmd_off cmd_cycle d) h = (Inl (BackendFailed (PowerPy AttributeError)), h)"
| "driver_state w (SiSPM p d) h =
     and_then (program w (sispm_line p [''-q'', ''-g'', show_int (ss_index p)]) h) (\<lambda>out. told (sispm_state out))"
| "driver_state w (Network b host port index d) h =
     from_backend (power_get b host port index (read_answer w h)) (h @ [Read])"
| "driver_state w (DigitalOutput d) h =
     (case output_get w h of None \<Rightarrow> Inl OutputFailed | Some v \<Rightarrow> Inr (VBool v), h @ [OutputRead])"
| "driver_state w (YKUSH p model d) h =
     and_then (program w (ykush_line p model ''-g'') h) (\<lambda>out. told (ykush_state (yk_index p) out))"
| "driver_state w (UsbPower p d) h =
     and_then (program w (uhubctl_line p) h) (\<lambda>out h.
       case uhubctl_state (up_index p) (bytes_lines [] out) of
         Inl e \<Rightarrow> (Inl (BackendFailed (PowerPy e)), h)
       | Inr b \<Rightarrow> told b h)"
| "driver_state w (PDUDaemon p d) h = (Inl NotSupported, h)"


section \<open>Activation\<close>

text \<open>The first model whose list of devices mentions the serial number.\<close>

fun find_ykush :: "power_world \<Rightarrow> ykush_port \<Rightarrow> string list \<Rightarrow> power_event list \<Rightarrow> string powered" where
  "find_ykush w p [] h = (Inl NoDevice, h)"
| "find_ykush w p (model # models) h =
     and_then (program w (yk_prefix p @ [yk_tool p, model, ''-l'']) h) (\<lambda>out h.
       if substring (yk_serial p) out then (Inr model, h) else find_ykush w p models h)"

definition ykush_activate :: "power_world \<Rightarrow> ykush_port \<Rightarrow> power_event list \<Rightarrow> string powered" where
  "ykush_activate w p = find_ykush w p [''ykush'', ''ykushxs'', ''ykush3'']"

text \<open>The constant \<open>PORT\<close> of a backend.\<close>

fun backend_port :: "backend \<Rightarrow> int option" where
  "backend_port NetioKshell = Some 1234"
| "backend_port b =
     (if b \<in> {Digipower, EgPms2, Eth008, Gude, Gude24, Gude8031, Gude8225, Gude8316, Netio, Pe6216}
      then Some 80 else None)"

text \<open>\<open>set_proxy_from_url\<close>: \<open>None\<close> when the host is not a URL of a known scheme.\<close>

definition url_port :: "url_parts \<Rightarrow> py_error + int option" where
  "url_port u = and_result (port_number u) (\<lambda>q. Inr
     (if q \<noteq> None \<and> q \<noteq> Some 0 then q
      else if url_scheme u = ''http'' then Some 80 else if url_scheme u = ''https'' then Some 443 else None))"

definition proxied_host :: "url_parts \<Rightarrow> string option \<Rightarrow> int option \<Rightarrow> string" where
  "proxied_host u host port =
     url_scheme u @ ''://'' @
     (if CHR ''@'' \<in> set (url_netloc u) then hd (split_on (CHR ''@'') (url_netloc u)) @ ''@'' else []) @
     host_word host @ '':'' @ port_word port @ url_path u @
     (if url_query u \<noteq> [] then ''?'' @ url_query u else [])"

definition set_proxy_from_url ::
  "ssh_env \<Rightarrow> string option \<Rightarrow> proxied \<Rightarrow> manager \<Rightarrow> string option proxying" where
  "set_proxy_from_url env force_proxy res m =
     and_then (from_python (urlparse (p_host res)) m) (\<lambda>u m.
     if hostname u = None then (Inr None, m)
     else and_then (from_python (url_port u) m) (\<lambda>port m.
       if port = None then (Inr None, m)
       else and_then (get_host_and_port env force_proxy res None port m) (\<lambda>(h, p) m.
         (Inr (Some (proxied_host u h p)), m))))"

text \<open>\<open>NetworkPowerDriver.on_activate\<close> gives the host and the port for the backend.\<close>

definition network_activate ::
  "ssh_env \<Rightarrow> string option \<Rightarrow> backend \<Rightarrow> proxied \<Rightarrow> manager \<Rightarrow> (string \<times> string option) proxying" where
  "network_activate env force_proxy b res m =
     (case backend_port b of
        Some p \<Rightarrow> and_then (get_host_and_port env force_proxy res None (Some p) m)
          (\<lambda>(h, q) m. (Inr (host_word h, map_option show_int q), m))
      | None \<Rightarrow> and_then (set_proxy_from_url env force_proxy res m) (\<lambda>t m.
          (Inr (case t of Some host \<Rightarrow> host | None \<Rightarrow> p_host res, None), m)))"

text \<open>\<open>PDUDaemonDriver.on_activate\<close>.\<close>

definition pdu_activate ::
  "ssh_env \<Rightarrow> string option \<Rightarrow> proxied \<Rightarrow> manager \<Rightarrow> (string \<times> string) proxying" where
  "pdu_activate env force_proxy res m =
     and_then (get_host_and_port env force_proxy res (Some 16421) None m)
       (\<lambda>(h, p) m. (Inr (host_word h, port_word p), m))"


section \<open>Reading what uhubctl prints\<close>

definition uhub_port :: "(int \<Rightarrow> bool) \<Rightarrow> int \<Rightarrow> string" where
  "uhub_port v i = ''  Port '' @ show_int i @ '': '' @ on_off ''0100 power'' ''0000 off'' (v i)"

lemma bytes_strip_line:
  "s \<noteq> [] \<Longrightarrow> \<not> bytes_space (hd s) \<Longrightarrow> \<not> bytes_space (last s) \<Longrightarrow> bytes_strip ('' '' @ '' '' @ s) = s"
proof -
  assume s: "s \<noteq> []" "\<not> bytes_space (hd s)" "\<not> bytes_space (last s)"
  then have "dropWhile bytes_space (rev s) = rev s" by (cases s rule: rev_cases) simp_all
  moreover have "dropWhile bytes_space s = s" using s by (cases s) simp_all
  moreover have "bytes_space (CHR '' '')" by (simp add: bytes_space_def)
  ultimately show ?thesis by (simp add: bytes_strip_def rstrip_def)
qed

lemma uhub_port_stripped:
  "bytes_strip (uhub_port v i) = ''Port '' @ show_int i @ '': '' @ on_off ''0100 power'' ''0000 off'' (v i)"
proof -
  have "bytes_strip ('' '' @ '' '' @ ''Port '' @ show_int i @ '': '' @ on_off ''0100 power'' ''0000 off'' (v i)) =
      ''Port '' @ show_int i @ '': '' @ on_off ''0100 power'' ''0000 off'' (v i)"
    by (rule bytes_strip_line) (cases "v i"; simp add: bytes_space_def)+
  then show ?thesis by (simp add: uhub_port_def)
qed

lemma uhub_port_parts:
  "before (CHR '':'') (bytes_strip (uhub_port v i)) = ''Port '' @ show_int i"
  "after (CHR '':'') (bytes_strip (uhub_port v i)) = '' '' @ on_off ''0100 power'' ''0000 off'' (v i)"
proof -
  have "CHR '':'' \<notin> set (show_int i)" by (rule not_in_show_int) (simp add: number_char_def)
  then have c: "CHR '':'' \<notin> set (''Port '' @ show_int i)" by simp
  have t: "bytes_strip (uhub_port v i) =
      (''Port '' @ show_int i) @ CHR '':'' # '' '' @ on_off ''0100 power'' ''0000 off'' (v i)"
    by (simp add: uhub_port_stripped)
  show "before (CHR '':'') (bytes_strip (uhub_port v i)) = ''Port '' @ show_int i"
    "after (CHR '':'') (bytes_strip (uhub_port v i)) = '' '' @ on_off ''0100 power'' ''0000 off'' (v i)"
    unfolding t using c by (simp_all only: before_simps not_False_eq_True)
qed

text \<open>
  From what uhubctl prints about a hub, the state of the port with the driver's index is read,
  and not of one whose number only begins with it.
\<close>

lemma uhubctl_reads_port:
  assumes "i \<in> set ports" and "header \<noteq> [] \<longrightarrow> \<not> startswith header '' ''"
  shows "uhubctl_state i (header # map (uhub_port v) ports) = Inr (Some (v i))"
proof -
  have line: "uhub_port v j \<noteq> []" "startswith (uhub_port v j) '' ''" for j
    by (simp_all add: uhub_port_def)
  have colon: "CHR '':'' \<in> set (bytes_strip (uhub_port v j))" for j by (simp add: uhub_port_stripped)
  have words: "''power'' \<in> set (bytes_words [] ('' '' @ on_off ''0100 power'' ''0000 off'' b)) \<longleftrightarrow> b"
    "''off'' \<in> set (bytes_words [] ('' '' @ on_off ''0100 power'' ''0000 off'' b)) \<longleftrightarrow> \<not> b" for b
    by (cases b; simp add: bytes_space_def)+
  have step: "uhubctl_state i (uhub_port v j # ls) = (if j = i then Inr (Some (v i)) else uhubctl_state i ls)" for j ls
  proof (cases "j = i")
    case True
    then show ?thesis using line [of i] colon [of i] words [of "v i"]
      by (simp only: uhubctl_state.simps uhub_port_parts Let_def) simp
  next
    case False
    then show ?thesis using line [of j] colon [of j] by (simp add: uhub_port_parts Let_def)
  qed
  have "uhubctl_state i (map (uhub_port v) ports) = Inr (Some (v i))"
    using assms(1) by (induction ports) (auto simp: step simp del: uhubctl_state.simps)
  then show ?thesis using assms(2) by auto
qed

lemma uhubctl_reads_port_witness:
  "uhubctl_state 1 (''hub'' # map (uhub_port (\<lambda>i. i = 1)) [10, 1]) = Inr (Some True)"
  using uhubctl_reads_port [of 1 "[10, 1]" "''hub''" "\<lambda>i. i = 1"] by simp


section \<open>The proxied URL of a power switch\<close>

lemma plain_user_info:
  assumes "url_netloc u = info @ ''@'' @ loc" and "CHR ''@'' \<notin> set loc"
  shows "host_and_port (url_netloc u) = host_and_port loc"
  using assms by (simp add: host_and_port_def host_info_def)

text \<open>
  When a power switch is given as a URL and no proxy is needed, the URL that the backend gets leads
  to the same host and port with the same scheme, credentials, path and query. The credentials must
  have no at-sign of their own, and the host must not be an IPv6 address.
\<close>

lemma proxied_url_leads_there:
  assumes "url_wf u" and "url_fragment u = []" and "CHR '';'' \<notin> set (url_path u)"
    and "url_netloc u = info @ ''@'' @ loc" and "list_all (\<lambda>c. c \<notin> {CHR ''@'', CHR ''['', CHR '']''}) info" and "CHR ''@'' \<notin> set loc"
    and "hostname u = Some h" and "plain_host h" and "CHR '':'' \<notin> set h"
    and "url_port u = Inr (Some p)" and "0 < p" and "p \<le> 65535"
    and "p_host res = urlunsplit u" and "substring ''//'' (p_host res)" and "p_extra res = []"
  shows "\<exists>v. set_proxy_from_url env None res m = (Inr (Some (urlunsplit v)), m) \<and>
    urlsplit (urlunsplit v) = Inr v \<and> hostname v = Some h \<and> port_number v = Inr (Some p) \<and>
    user_info v = user_info u \<and> url_scheme v = url_scheme u \<and> url_path v = url_path u \<and>
    url_query v = url_query u"
proof -
  have info: "CHR ''@'' \<notin> set info" "CHR ''['' \<notin> set info" "CHR '']'' \<notin> set info"
    using assms(5) by (auto simp: list_all_iff)
  define v where "v = u\<lparr>url_netloc := info @ ''@'' @ netloc h p\<rparr>"
  have at: "CHR ''@'' \<notin> set (netloc h p)"
    using assms(8) not_in_show_int [of "CHR ''@''" p] by (auto simp: netloc_def plain_host_def list_all_iff number_char_def)
  have parse: "urlparse (p_host res) = Inr u"
    using urlsplit_urlunsplit [OF assms(1)] assms(3,13) by (simp add: urlparse_def)
  have vn: "url_netloc v = info @ ''@'' @ netloc h p" by (simp add: v_def)
  have hp: "host_and_port (url_netloc v) = host_and_port (netloc h p)" by (rule plain_user_info [OF vn at])
  have host: "hostname v = Some h" "port_number v = Inr (Some p)"
    using hostname_netloc [OF assms(8), of "u\<lparr>url_netloc := netloc h p\<rparr>" p]
      port_number_netloc [OF assms(8), of "u\<lparr>url_netloc := netloc h p\<rparr>" p] assms(11,12)
    by (simp_all add: hostname_def port_number_def hp)
  have user: "user_info v = user_info u"
  proof -
    have "before_last (CHR ''@'') (info @ CHR ''@'' # netloc h p) = info"
      "before_last (CHR ''@'') (info @ CHR ''@'' # loc) = info"
      using at assms(6) by simp_all
    then show ?thesis using assms(4) by (simp add: user_info_def vn)
  qed
  have wf: "url_wf v"
    using assms(1,4) info netloc_chars [OF assms(8), of p] by (auto simp: url_wf_def v_def plain_netloc_def)
  have head: "hd (split_on (CHR ''@'') (info @ CHR ''@'' # loc)) = info"
    using info by (simp add: split_on_append)
  have sch: "url_scheme u \<noteq> []" "url_path u = [] \<or> startswith (url_path u) ''/''"
    using assms(1) by (auto simp: url_wf_def)
  have "proxied_host u (Some h) (Some p) = urlunsplit v"
    using assms(2,4,9) sch head
    by (auto simp: proxied_host_def urlunsplit_def v_def host_word_def port_word_def netloc_def Let_def)
  moreover have "get_host_and_port env None res None (Some p) m = (Inr (Some h, Some p), m)"
    using parse assms(7,11,14,15) by (simp add: get_host_and_port_def from_python_def extra_true_def)
  ultimately have "set_proxy_from_url env None res m = (Inr (Some (urlunsplit v)), m)"
    using parse assms(7,10) by (simp add: set_proxy_from_url_def from_python_def)
  moreover have "url_scheme v = url_scheme u" "url_path v = url_path u" "url_query v = url_query u"
    by (simp_all add: v_def)
  ultimately show ?thesis using urlsplit_urlunsplit [OF wf] host user by blast
qed

lemma proxied_url_leads_there_witness:
  "\<exists>v. set_proxy_from_url all_works None \<lparr>p_host = urlunsplit example_url, p_port = None, p_extra = []\<rparr> ([], []) =
       (Inr (Some (urlunsplit v)), [], []) \<and> hostname v = Some ''h'' \<and> port_number v = Inr (Some 8080)"
proof -
  have facts: "url_wf example_url" "url_fragment example_url = []" "CHR '';'' \<notin> set (url_path example_url)"
    "url_netloc example_url = ''me'' @ ''@'' @ ''h:8080''" "list_all (\<lambda>c. c \<notin> {CHR ''@'', CHR ''['', CHR '']''}) ''me''" "CHR ''@'' \<notin> set ''h:8080''"
    "hostname example_url = Some ''h''" "plain_host ''h''" "CHR '':'' \<notin> set ''h''"
    "url_port example_url = Inr (Some 8080)" "substring ''//'' (urlunsplit example_url)"
    by code_simp+
  show ?thesis
    using proxied_url_leads_there [OF facts(1-10), of "\<lparr>p_host = urlunsplit example_url, p_port = None, p_extra = []\<rparr>"
        all_works "([], [])"] facts(11) by auto
qed


text \<open>
  An IPv6 address loses its brackets on the way, and what the backend gets has no host; a password with
  an at-sign is cut off at it.
\<close>

lemma proxied_ipv6_host_lost:
  "urlsplit ''http://[::1]:80/'' = Inr u \<Longrightarrow>
   proxied_host u (hostname u) (Some 80) = ''http://::1:80/'' \<and>
   map_sum id hostname (urlsplit ''http://::1:80/'') = Inr None"
proof -
  assume "urlsplit ''http://[::1]:80/'' = Inr u"
  moreover have "urlsplit ''http://[::1]:80/'' = Inr \<lparr>url_scheme = ''http'', url_netloc = ''[::1]:80'', url_path = ''/'',
      url_query = [], url_fragment = []\<rparr>" by code_simp
  ultimately have u: "u = \<lparr>url_scheme = ''http'', url_netloc = ''[::1]:80'', url_path = ''/'', url_query = [],
      url_fragment = []\<rparr>" by simp
  have "hostname u = Some ''::1''" unfolding u by code_simp
  moreover have "show_int 80 = ''80''" by (simp add: show_int_def show_nat.simps, code_simp)
  moreover have "map_sum id hostname (urlsplit ''http://::1:80/'') = Inr None" by code_simp
  ultimately show ?thesis by (simp add: proxied_host_def host_word_def port_word_def u)
qed

lemma proxied_password_cut:
  "urlsplit ''http://me:a@b@h/'' = Inr u \<Longrightarrow> user_info u = Some (''me'', Some ''a@b'') \<and>
   hd (split_on (CHR ''@'') (url_netloc u)) = ''me:a''"
proof -
  assume "urlsplit ''http://me:a@b@h/'' = Inr u"
  moreover have "urlsplit ''http://me:a@b@h/'' = Inr \<lparr>url_scheme = ''http'', url_netloc = ''me:a@b@h'', url_path = ''/'',
      url_query = [], url_fragment = []\<rparr>" by code_simp
  ultimately have u: "u = \<lparr>url_scheme = ''http'', url_netloc = ''me:a@b@h'', url_path = ''/'', url_query = [],
      url_fragment = []\<rparr>" by simp
  show ?thesis unfolding u by code_simp
qed

end
