(* ===== verification/Agents.thy ===== *)
theory Agents
  imports PyText
begin

text \<open>
  \<^verbatim>\<open>labgrid/util/agent.py\<close> and \<^verbatim>\<open>labgrid/util/agentwrapper.py\<close>: a process on a host that executes
  methods for another process. Messages are lines of JSON, here the values they hold (\<open>None\<close> for a
  line that is not JSON); tuples become lists. The code of a module is what \<open>exec\<close> makes of its
  source, a parameter. Of a traceback only its place in the message is kept.
\<close>

section \<open>The agent\<close>

text \<open>
  What a method ends with: an object, which JSON can encode or not (then \<open>Inl\<close> with the text of the
  exception), a pair of an object and a file with its descriptor, or an exception with its text.
\<close>

datatype method_result =
    Value "string + pyval"
  | WithFile "string + pyval" nat
  | Raises string

type_synonym 's agent_method = "pyval list \<Rightarrow> (string, pyval) dict \<Rightarrow> 's \<Rightarrow> method_result \<times> 's"

datatype 's entry = LoadEntry | ListEntry | MethodEntry "'s agent_method"

record 's agent =
  ag_methods :: "(string, 's entry) dict"
  ag_fdpass :: bool
  ag_state :: 's

text \<open>
  The interpreter: the methods of a module that is executed, or the text of the exception that this
  raises, and the text of an exception of a class about an argument.
\<close>

record 's interpreter =
  in_exec :: "string \<Rightarrow> string \<Rightarrow> string + (string, 's agent_method) dict"
  in_repr :: "string \<Rightarrow> string \<Rightarrow> string"

definition agent_register :: "'s interpreter \<Rightarrow> string \<Rightarrow> 's entry \<Rightarrow> 's agent \<Rightarrow> (string, unit, 's agent) outcome" where
  "agent_register py name f a =
     (if name \<in> set (keys (ag_methods a)) then (Inl (in_repr py ''AssertionError'' []), a)
      else (Inr (), a\<lparr>ag_methods := AList.update name f (ag_methods a)\<rparr>))"

text \<open>A new agent knows \<open>load\<close> and \<open>list\<close>; \<open>main\<close> registers its own methods after them.\<close>

definition new_agent :: "bool \<Rightarrow> 's \<Rightarrow> 's agent" where
  "new_agent fdpass s = \<lparr>ag_methods = [(''load'', LoadEntry), (''list'', ListEntry)], ag_fdpass = fdpass, ag_state = s\<rparr>"

definition start_agent :: "'s interpreter \<Rightarrow> (string, 's agent_method) dict \<Rightarrow> bool \<Rightarrow> 's \<Rightarrow> (string, unit, 's agent) outcome" where
  "start_agent py own fdpass s =
     for_each (\<lambda>(k, f). agent_register py k (MethodEntry f)) own (new_agent fdpass s)"

definition agent_load :: "'s interpreter \<Rightarrow> string \<Rightarrow> string \<Rightarrow> 's agent \<Rightarrow> (string, unit, 's agent) outcome" where
  "agent_load py name source a =
     (case in_exec py name source of
        Inl e \<Rightarrow> (Inl e, a)
      | Inr ms \<Rightarrow> for_each (\<lambda>(k, f). agent_register py (name @ ''.'' @ k) (MethodEntry f)) ms a)"

definition agent_list :: "'s agent \<Rightarrow> pyval" where
  "agent_list a = VList (map VStr (keys (ag_methods a)))"

text \<open>\<open>self.methods[name](*args, **kwargs)\<close>.\<close>

fun run_entry ::
  "'s interpreter \<Rightarrow> 's entry \<Rightarrow> pyval list \<Rightarrow> (string, pyval) dict \<Rightarrow> 's agent \<Rightarrow> method_result \<times> 's agent" where
  "run_entry py LoadEntry args kwargs a =
     (case (args, kwargs) of
        ([VStr name, VStr source], []) \<Rightarrow>
          (case agent_load py name source a of
             (Inl e, a') \<Rightarrow> (Raises e, a')
           | (Inr _, a') \<Rightarrow> (Value (Inr VNone), a'))
      | _ \<Rightarrow> (Raises (in_repr py ''TypeError'' ''load''), a))"
| "run_entry py ListEntry args kwargs a =
     (if args = [] \<and> kwargs = [] then (Value (Inr (agent_list a)), a)
      else (Raises (in_repr py ''TypeError'' ''list''), a))"
| "run_entry py (MethodEntry f) args kwargs a =
     (let (r, s) = f args kwargs (ag_state a) in (r, a\<lparr>ag_state := s\<rparr>))"

definition agent_dispatch ::
  "'s interpreter \<Rightarrow> pyval \<Rightarrow> pyval \<Rightarrow> pyval \<Rightarrow> 's agent \<Rightarrow> method_result \<times> 's agent" where
  "agent_dispatch py name args kwargs a =
     (case name of
        VStr n \<Rightarrow>
          (case map_of (ag_methods a) n of
             None \<Rightarrow> (Raises (in_repr py ''KeyError'' n), a)
           | Some f \<Rightarrow>
               (case (elements args, kwargs) of
                  (Inr xs, VDict d) \<Rightarrow> run_entry py f xs d a
                | _ \<Rightarrow> (Raises (in_repr py ''TypeError'' n), a)))
      | v \<Rightarrow> (Raises (in_repr py (if hashable v then ''KeyError'' else ''TypeError'') []), a))"

text \<open>
  What one line makes the agent do: it may answer, pass files, and either reads on or ends. A request
  that is not a dictionary or lacks a key ends it with an exception.
\<close>

record agent_reaction =
  re_answer :: "pyval option"
  re_files :: "nat list"
  re_goes_on :: bool

definition exception_answer :: "string \<Rightarrow> pyval" where
  "exception_answer e = VDict [(''exception'', VStr e), (''tb'', VList [])]"

fun agent_answer :: "'s agent \<Rightarrow> method_result \<Rightarrow> agent_reaction" where
  "agent_answer a (Value (Inr v)) = \<lparr>re_answer = Some (VDict [(''result'', v)]), re_files = [], re_goes_on = True\<rparr>"
| "agent_answer a (Value (Inl e)) = \<lparr>re_answer = Some (exception_answer e), re_files = [], re_goes_on = True\<rparr>"
| "agent_answer a (WithFile v fd) =
     (if \<not> ag_fdpass a then
        \<lparr>re_answer = Some (VDict [(''error'', VStr ''cannot pass returned FD without LG_FDPASS'')]),
         re_files = [], re_goes_on = False\<rparr>
      else
        \<lparr>re_answer = Some (case v of Inr w \<Rightarrow> VDict [(''result'', w), (''fdpass'', VBool True)]
                                 | Inl e \<Rightarrow> exception_answer e),
         re_files = [fd], re_goes_on = True\<rparr>)"
| "agent_answer a (Raises e) = \<lparr>re_answer = Some (exception_answer e), re_files = [], re_goes_on = True\<rparr>"

definition agent_line :: "'s interpreter \<Rightarrow> pyval option \<Rightarrow> 's agent \<Rightarrow> agent_reaction \<times> 's agent" where
  "agent_line py line a =
     (case line of
        None \<Rightarrow>
          (\<lparr>re_answer = Some (VDict [(''error'', VStr ''request parsing failed'')]), re_files = [],
            re_goes_on = False\<rparr>, a)
      | Some (VDict d) \<Rightarrow>
          (if (case map_of d ''close'' of Some v \<Rightarrow> py_true v | None \<Rightarrow> False)
           then (\<lparr>re_answer = None, re_files = [], re_goes_on = False\<rparr>, a)
           else case (map_of d ''method'', map_of d ''args'', map_of d ''kwargs'') of
             (Some name, Some args, Some kwargs) \<Rightarrow>
               (let (r, a') = agent_dispatch py name args kwargs a in (agent_answer a' r, a'))
           | _ \<Rightarrow> (\<lparr>re_answer = None, re_files = [], re_goes_on = False\<rparr>, a))
      | Some _ \<Rightarrow> (\<lparr>re_answer = None, re_files = [], re_goes_on = False\<rparr>, a))"


section \<open>The wrapper\<close>

datatype agent_error =
    AgentException string
  | AgentError
  | NoProcess
  | BrokenPipe
  | NoAnswer
  | MalformedAnswer
  | WaitsForFile
  | SourceMissing

text \<open>
  A wrapper has a process, which may have ended, with the files that are on their way to it and
  the modules it has loaded.
\<close>

record 's wrapper =
  wr_process :: "('s agent \<times> bool) option"
  wr_files :: "nat list"
  wr_loaded :: "string list"

definition new_wrapper :: "'s agent \<Rightarrow> 's wrapper" where
  "new_wrapper a = \<lparr>wr_process = Some (a, True), wr_files = [], wr_loaded = []\<rparr>"

text \<open>A trailing comma in the text of an exception is dropped.\<close>

definition without_comma :: "string \<Rightarrow> string" where
  "without_comma e = (if endswith e '',)'' then take (length e - 2) e @ '')'' else e)"

text \<open>
  What the wrapper makes of an answer. For a result with a file it receives the file that is next.
\<close>

definition read_response :: "pyval \<Rightarrow> 's wrapper \<Rightarrow> (agent_error, pyval \<times> nat option, 's wrapper) outcome" where
  "read_response r w =
     (case r of
        VDict d \<Rightarrow>
          (case map_of d ''result'' of
             Some v \<Rightarrow>
               (if (case map_of d ''fdpass'' of Some b \<Rightarrow> py_true b | None \<Rightarrow> False)
                then (case wr_files w of
                        [] \<Rightarrow> (Inl WaitsForFile, w)
                      | fd # fds \<Rightarrow> (Inr (v, Some fd), w\<lparr>wr_files := fds\<rparr>))
                else (Inr (v, None), w))
           | None \<Rightarrow>
               (case map_of d ''exception'' of
                  Some (VStr e) \<Rightarrow> (Inl (AgentException (without_comma e)), w)
                | Some _ \<Rightarrow> (Inl MalformedAnswer, w)
                | None \<Rightarrow>
                    (if ''error'' \<in> set (keys d) then (Inl AgentError, w\<lparr>wr_process := None\<rparr>)
                     else (Inl AgentError, w))))
      | _ \<Rightarrow> (Inl MalformedAnswer, w))"

text \<open>
  A line is written to the process, and what the process answers is read. Writing to one that has
  ended raises, and an end without an answer gives an empty line, which is not JSON.
\<close>

definition agent_call ::
  "'s interpreter \<Rightarrow> string \<Rightarrow> pyval list \<Rightarrow> (string, pyval) dict \<Rightarrow> 's wrapper \<Rightarrow>
   (agent_error, pyval \<times> nat option, 's wrapper) outcome" where
  "agent_call py name args kwargs w =
     (case wr_process w of
        None \<Rightarrow> (Inl NoProcess, w)
      | Some (a, False) \<Rightarrow> (Inl BrokenPipe, w)
      | Some (a, True) \<Rightarrow>
          (let (re, a') = agent_line py
                 (Some (VDict [(''method'', VStr name), (''args'', VList args), (''kwargs'', VDict kwargs)])) a;
               w' = w\<lparr>wr_process := Some (a', re_goes_on re), wr_files := wr_files w @ re_files re\<rparr> in
           case re_answer re of
             None \<Rightarrow> (Inl NoAnswer, w')
           | Some r \<Rightarrow> read_response r w'))"

text \<open>\<open>ModuleProxy\<close> and \<open>MethodProxy\<close>: a method of a loaded module is called by its full name.\<close>

definition module_call ::
  "'s interpreter \<Rightarrow> string \<Rightarrow> string \<Rightarrow> pyval list \<Rightarrow> (string, pyval) dict \<Rightarrow> 's wrapper \<Rightarrow>
   (agent_error, pyval \<times> nat option, 's wrapper) outcome" where
  "module_call py m name = agent_call py (m @ ''.'' @ name)"

text \<open>\<open>load\<close>; a module that was loaded before is not loaded again. The sources are files beside the program.\<close>

definition wrapper_load ::
  "'s interpreter \<Rightarrow> (string \<Rightarrow> string option) \<Rightarrow> string \<Rightarrow> 's wrapper \<Rightarrow> (agent_error, unit, 's wrapper) outcome" where
  "wrapper_load py source name w =
     (if name \<in> set (wr_loaded w) then (Inr (), w)
      else case source name of
        None \<Rightarrow> (Inl SourceMissing, w)
      | Some s \<Rightarrow>
          and_then (agent_call py ''load'' [VStr name, VStr s] [] w) (\<lambda>_ w.
            (Inr (), w\<lparr>wr_loaded := wr_loaded w @ [name]\<rparr>)))"

definition wrapper_close :: "'s interpreter \<Rightarrow> 's wrapper \<Rightarrow> (agent_error, unit, 's wrapper) outcome" where
  "wrapper_close py w =
     (case wr_process w of
        None \<Rightarrow> (Inr (), w)
      | Some (a, False) \<Rightarrow> (Inl BrokenPipe, w)
      | Some (a, True) \<Rightarrow> (Inr (), w\<lparr>wr_process := None\<rparr>))"

text \<open>
  How the process is started on another host: the agent is copied there and run by the interpreter
  of labgrid if there is one. The exit status of a program is given.
\<close>

definition agent_ssh :: "int \<Rightarrow> string list" where
  "agent_ssh timeout =
     [''ssh'', ''-x'', ''-o'', ''ConnectTimeout='' @ show_int timeout, ''-o'', ''PasswordAuthentication=no'']"

definition start_remote_agent ::
  "(string list \<Rightarrow> int) \<Rightarrow> int \<Rightarrow> string \<Rightarrow> string \<Rightarrow> string \<Rightarrow> string \<Rightarrow> string list option" where
  "start_remote_agent status timeout prefix hash path host =
     (let remote = path_join prefix (''.labgrid_agent_'' @ hash @ ''.py''); ssh = agent_ssh timeout in
      if status [''rsync'', ''-e'', join_with '' '' ssh, ''-tq'', path, host @ '':'' @ remote] \<noteq> 0 then None
      else Some (ssh @ [host, ''--'',
        (if status (ssh @ [host, ''--'', ''which'', ''labgrid-python3'']) = 0 then ''labgrid-python3'' else ''python3''),
        remote]))"


section \<open>What is registered stays registered\<close>

lemma agent_register_cases:
  "agent_register py k f a = (Inr (), a') \<longleftrightarrow>
     map_of (ag_methods a) k = None \<and> a' = a\<lparr>ag_methods := AList.update k f (ag_methods a)\<rparr>"
  by (auto simp: agent_register_def map_of_eq_None)

definition extends :: "'s agent \<Rightarrow> 's agent \<Rightarrow> bool" where
  "extends a a' \<longleftrightarrow>
     (\<forall>k f. map_of (ag_methods a) k = Some f \<longrightarrow> map_of (ag_methods a') k = Some f) \<and>
     ag_fdpass a' = ag_fdpass a"

lemma extends_refl [simp]: "extends a a"
  by (simp add: extends_def)

lemma extends_state [simp]: "extends a (a'\<lparr>ag_state := s\<rparr>) = extends a a'"
  by (simp add: extends_def)

lemma extends_trans: "extends a b \<Longrightarrow> extends b c \<Longrightarrow> extends a c"
  by (auto simp: extends_def)

lemma agent_register_extends: "extends a (snd (agent_register py k f a))"
  by (auto simp: extends_def agent_register_def dest: map_of_SomeD intro: rev_image_eqI)

lemma register_all_extends:
  "extends a (snd (for_each (\<lambda>(k, f). agent_register py (g k) (h f)) ms a))"
  by (rule for_each_keeps)
    (auto intro: extends_trans agent_register_extends split: prod.splits simp del: split_paired_All)

lemma register_all_registers:
  "for_each (\<lambda>(k, f). agent_register py (g k) (h f)) ms a = (Inr (), a') \<Longrightarrow> (k, f) \<in> set ms \<Longrightarrow>
   map_of (ag_methods a') (g k) = Some (h f)"
proof (induction ms arbitrary: a)
  case (Cons m ms)
  obtain k' f' where m: "m = (k', f')" by (cases m)
  obtain r b where reg: "agent_register py (g k') (h f') a = (r, b)" by fastforce
  with Cons.prems(1) m have r: "r = Inr ()"
    and rest: "for_each (\<lambda>(k, f). agent_register py (g k) (h f)) ms b = (Inr (), a')"
    by (cases r; simp)+
  show ?case
  proof (cases "(k, f) \<in> set ms")
    case True
    with Cons.IH rest show ?thesis by blast
  next
    case False
    with Cons.prems(2) m have "k = k'" "f = f'" by auto
    moreover from reg r have "map_of (ag_methods b) (g k') = Some (h f')"
      by (auto simp: agent_register_cases)
    moreover have "extends b a'" using register_all_extends [of b py g h ms] rest by simp
    ultimately show ?thesis by (simp add: extends_def)
  qed
qed simp

lemma agent_load_extends: "extends a (snd (agent_load py name source a))"
  by (auto simp: agent_load_def split: sum.splits intro: register_all_extends)

lemma run_entry_extends: "extends a (snd (run_entry py f args kwargs a))"
proof (cases f)
  case LoadEntry
  have "agent_load py n x a = (r, a') \<Longrightarrow> extends a a'" for n x r a'
    using agent_load_extends [of a py n x] by simp
  with LoadEntry show ?thesis by (auto split: list.splits pyval.splits prod.splits sum.splits)
qed (auto split: prod.splits)

lemma agent_dispatch_extends: "extends a (snd (agent_dispatch py name args kwargs a))"
  by (auto simp: agent_dispatch_def run_entry_extends split: pyval.splits option.splits sum.splits)

lemma agent_line_extends: "extends a (snd (agent_line py line a))"
proof -
  have "agent_dispatch py n x d a = (r, a') \<Longrightarrow> extends a a'" for n x d r a'
    using agent_dispatch_extends [of a py n x d] by simp
  then show ?thesis by (auto simp: agent_line_def split: option.splits pyval.splits prod.splits)
qed

lemma read_response_process:
  "wr_process (snd (read_response r w)) = None \<or> wr_process (snd (read_response r w)) = wr_process w"
  "wr_loaded (snd (read_response r w)) = wr_loaded w"
  by (auto simp: read_response_def split: pyval.splits option.splits list.splits)


section \<open>Reachable wrappers\<close>

text \<open>Everything that can be done with a wrapper.\<close>

inductive wrapper_step :: "'s interpreter \<Rightarrow> (string \<Rightarrow> string option) \<Rightarrow> 's wrapper \<Rightarrow> 's wrapper \<Rightarrow> bool"
  for py source where
  Called: "agent_call py name args kwargs w = (r, w') \<Longrightarrow> wrapper_step py source w w'"
| Loaded: "wrapper_load py source name w = (r, w') \<Longrightarrow> wrapper_step py source w w'"
| Closed: "wrapper_close py w = (r, w') \<Longrightarrow> wrapper_step py source w w'"

inductive_cases wrapper_stepE: "wrapper_step py source w w'"

definition fresh_wrapper :: "'s interpreter \<Rightarrow> (string, 's agent_method) dict \<Rightarrow> 's wrapper \<Rightarrow> bool" where
  "fresh_wrapper py own w \<longleftrightarrow> (\<exists>fdpass s a. start_agent py own fdpass s = (Inr (), a) \<and> w = new_wrapper a)"

text \<open>
  The methods of a module that counts as loaded are known to the agent under their full names, and
  the agent can still load modules.
\<close>

definition knows_module :: "'s interpreter \<Rightarrow> (string \<Rightarrow> string option) \<Rightarrow> 's agent \<Rightarrow> string \<Rightarrow> bool" where
  "knows_module py source a m \<longleftrightarrow>
     (\<exists>x ms. source m = Some x \<and> in_exec py m x = Inr ms \<and>
        (\<forall>(k, f) \<in> set ms. map_of (ag_methods a) (m @ ''.'' @ k) = Some (MethodEntry f)))"

definition wrapper_inv :: "'s interpreter \<Rightarrow> (string \<Rightarrow> string option) \<Rightarrow> 's wrapper \<Rightarrow> bool" where
  "wrapper_inv py source w \<longleftrightarrow>
     (\<forall>a on. wr_process w = Some (a, on) \<longrightarrow>
        map_of (ag_methods a) ''load'' = Some LoadEntry \<and>
        (\<forall>m \<in> set (wr_loaded w). knows_module py source a m))"

lemma knows_module_extends: "extends a a' \<Longrightarrow> knows_module py source a m \<Longrightarrow> knows_module py source a' m"
  by (fastforce simp: knows_module_def extends_def)

lemma wrapper_inv_fresh:
  assumes "fresh_wrapper py own w"
  shows "wrapper_inv py source w"
proof -
  from assms obtain fdpass s a where start: "start_agent py own fdpass s = (Inr (), a)"
    and w: "w = new_wrapper a" by (auto simp: fresh_wrapper_def)
  have "extends (new_agent fdpass s) a"
    using register_all_extends [of "new_agent fdpass s" py "\<lambda>k. k" MethodEntry own] start
    by (simp add: start_agent_def)
  then have "map_of (ag_methods a) ''load'' = Some LoadEntry"
    by (simp add: extends_def new_agent_def)
  with w show ?thesis by (simp add: wrapper_inv_def new_wrapper_def)
qed

text \<open>A call keeps the process or loses it; the methods that it knew stay known.\<close>

lemma agent_call_process:
  assumes "agent_call py name args kwargs w = (r, w')" and "wr_process w' = Some (a', on')"
  shows "wr_loaded w' = wr_loaded w \<and> (\<exists>a on. wr_process w = Some (a, on) \<and> extends a a')"
proof (cases "wr_process w")
  case None
  with assms show ?thesis by (simp add: agent_call_def)
next
  case (Some p)
  obtain a on where p: "p = (a, on)" by (cases p)
  show ?thesis
  proof (cases on)
    case False
    with assms Some p show ?thesis by (auto simp: agent_call_def intro: exI [of _ False])
  next
    case True
    define line where "line = Some (VDict [(''method'', VStr name), (''args'', VList args), (''kwargs'', VDict kwargs)])"
    obtain re b where l: "agent_line py line a = (re, b)" by fastforce
    have b: "extends a b" using agent_line_extends [of a py line] l by simp
    define v where "v = w\<lparr>wr_process := Some (b, re_goes_on re), wr_files := wr_files w @ re_files re\<rparr>"
    have call: "agent_call py name args kwargs w =
        (case re_answer re of None \<Rightarrow> (Inl NoAnswer, v) | Some x \<Rightarrow> read_response x v)"
      unfolding v_def using Some p True l by (simp add: agent_call_def line_def Let_def)
    have "wr_loaded w' = wr_loaded v \<and> wr_process w' = wr_process v"
    proof (cases "re_answer re")
      case None
      with assms call show ?thesis by simp
    next
      case (Some x)
      with assms call read_response_process [of x v] show ?thesis by simp
    qed
    with b assms(2) Some p show ?thesis by (auto simp: v_def)
  qed
qed

lemma wrapper_inv_call:
  assumes "wrapper_inv py source w" and "agent_call py name args kwargs w = (r, w')"
  shows "wrapper_inv py source w'"
  unfolding wrapper_inv_def
proof (intro allI impI)
  fix a' on'
  assume "wr_process w' = Some (a', on')"
  from agent_call_process [OF assms(2) this] obtain a on where "wr_loaded w' = wr_loaded w"
    "wr_process w = Some (a, on)" "extends a a'" by blast
  with assms(1) show "map_of (ag_methods a') ''load'' = Some LoadEntry \<and>
      (\<forall>m \<in> set (wr_loaded w'). knows_module py source a' m)"
    by (auto simp: wrapper_inv_def extends_def intro: knows_module_extends [unfolded extends_def])
qed

lemma read_response_Inr:
  "read_response r w = (Inr x, w') \<Longrightarrow> \<exists>d v. r = VDict d \<and> map_of d ''result'' = Some v"
  by (auto simp: read_response_def split: pyval.splits option.splits list.splits if_splits)

lemma load_call_registers:
  assumes "agent_call py ''load'' [VStr m, VStr x] [] w = (Inr y, w')"
    and "wr_process w = Some (a, True)" and load: "map_of (ag_methods a) ''load'' = Some LoadEntry"
  obtains ms a' where "in_exec py m x = Inr ms"
    "\<And>k f. (k, f) \<in> set ms \<Longrightarrow> map_of (ag_methods a') (m @ ''.'' @ k) = Some (MethodEntry f)"
    "wr_process w' = Some (a', True)" "extends a a'"
proof -
  obtain r a' where l: "agent_load py m x a = (r, a')" by fastforce
  have ext: "extends a a'" using agent_load_extends [of a py m x] l by simp
  have call: "agent_call py ''load'' [VStr m, VStr x] [] w =
      (case r of Inl e \<Rightarrow> read_response (exception_answer e) (w\<lparr>wr_process := Some (a', True), wr_files := wr_files w @ []\<rparr>)
       | Inr _ \<Rightarrow> (Inr (VNone, None), w\<lparr>wr_process := Some (a', True), wr_files := wr_files w @ []\<rparr>))"
    using assms(2) load l
    by (cases r) (simp_all add: agent_call_def agent_line_def agent_dispatch_def read_response_def Let_def)
  from call assms(1) have r: "r = Inr ()" and w': "wr_process w' = Some (a', True)"
    by (auto simp: exception_answer_def read_response_def split: sum.splits)
  from l r obtain ms where ms: "in_exec py m x = Inr ms"
    and all: "for_each (\<lambda>(k, f). agent_register py (m @ ''.'' @ k) (MethodEntry f)) ms a = (Inr (), a')"
    by (auto simp: agent_load_def split: sum.splits)
  show thesis by (rule that [OF ms _ w' ext]) (rule register_all_registers [OF all])
qed

lemma wrapper_inv_load:
  assumes inv: "wrapper_inv py source w" and load: "wrapper_load py source m w = (r, w')"
  shows "wrapper_inv py source w'"
proof (cases "m \<in> set (wr_loaded w) \<or> source m = None")
  case True
  with assms show ?thesis by (auto simp: wrapper_load_def split: option.splits if_splits)
next
  case False
  then obtain x where x: "source m = Some x" by auto
  obtain q v where call: "agent_call py ''load'' [VStr m, VStr x] [] w = (q, v)" by fastforce
  have v: "wrapper_inv py source v" by (rule wrapper_inv_call [OF inv call])
  show ?thesis
  proof (cases q)
    case (Inl e)
    with False x call load v show ?thesis by (simp add: wrapper_load_def)
  next
    case (Inr y)
    with call obtain a where "wr_process w = Some (a, True)"
      by (auto simp: agent_call_def split: option.splits bool.splits)
    moreover from this inv have "map_of (ag_methods a) ''load'' = Some LoadEntry" by (auto simp: wrapper_inv_def)
    ultimately obtain ms a' where ms: "in_exec py m x = Inr ms"
      "\<And>k f. (k, f) \<in> set ms \<Longrightarrow> map_of (ag_methods a') (m @ ''.'' @ k) = Some (MethodEntry f)"
      and p: "wr_process v = Some (a', True)"
      using load_call_registers [of py m x w y v a] call Inr by metis
    from ms x have "knows_module py source a' m" unfolding knows_module_def by blast
    with v p have "wrapper_inv py source (v\<lparr>wr_loaded := wr_loaded v @ [m]\<rparr>)"
      by (auto simp: wrapper_inv_def)
    with False x call load Inr show ?thesis by (simp add: wrapper_load_def)
  qed
qed

lemma wrapper_inv_step: "wrapper_step py source w w' \<Longrightarrow> wrapper_inv py source w \<Longrightarrow> wrapper_inv py source w'"
proof (erule wrapper_stepE)
  fix r
  assume "wrapper_close py w = (r, w')" "wrapper_inv py source w"
  then show ?thesis
    by (auto simp: wrapper_close_def wrapper_inv_def split: option.splits bool.splits)
qed (auto intro: wrapper_inv_call wrapper_inv_load)

interpretation wrappers: transition_system "fresh_wrapper py own" "wrapper_step py source" "wrapper_inv py source"
  by unfold_locales (fact wrapper_inv_fresh wrapper_inv_step)+


section \<open>Calling a module from afar\<close>

type_synonym 's module = "(string, 's agent_method) dict"

text \<open>The same calls, through a wrapper and on the module itself.\<close>

fun remote_session ::
  "'s interpreter \<Rightarrow> string \<Rightarrow> (string \<times> pyval list \<times> (string, pyval) dict) list \<Rightarrow> 's wrapper \<Rightarrow>
   (agent_error + pyval \<times> nat option) list \<times> 's wrapper" where
  "remote_session py m [] w = ([], w)"
| "remote_session py m ((name, args, kwargs) # cs) w =
     (let (r, w1) = module_call py m name args kwargs w; (rs, w2) = remote_session py m cs w1 in (r # rs, w2))"

fun local_result :: "method_result \<Rightarrow> agent_error + pyval \<times> nat option" where
  "local_result (Value (Inr v)) = Inr (v, None)"
| "local_result (Value (Inl e)) = Inl (AgentException (without_comma e))"
| "local_result (WithFile (Inr v) fd) = Inr (v, Some fd)"
| "local_result (WithFile (Inl e) fd) = Inl (AgentException (without_comma e))"
| "local_result (Raises e) = Inl (AgentException (without_comma e))"

fun local_session ::
  "'s module \<Rightarrow> (string \<times> pyval list \<times> (string, pyval) dict) list \<Rightarrow> 's \<Rightarrow> method_result list \<times> 's" where
  "local_session ms [] s = ([], s)"
| "local_session ms ((name, args, kwargs) # cs) s =
     (case map_of ms name of
        None \<Rightarrow> ([], s)
      | Some f \<Rightarrow>
          (let (r, s1) = f args kwargs s; (rs, s2) = local_session ms cs s1 in (r # rs, s2)))"

text \<open>A result that the process can pass on: files only with a socket for them, and with an object for JSON.\<close>

fun passable :: "bool \<Rightarrow> method_result \<Rightarrow> bool" where
  "passable fdpass (WithFile v fd) = (fdpass \<and> (\<exists>w. v = Inr w))"
| "passable fdpass _ = True"

lemma module_call_runs:
  assumes "wr_process w = Some (a, True)" and "wr_files w = []"
    and "map_of (ag_methods a) (m @ ''.'' @ name) = Some (MethodEntry f)"
    and "f args kwargs (ag_state a) = (r, s)" and "passable (ag_fdpass a) r"
  shows "module_call py m name args kwargs w =
    (local_result r, w\<lparr>wr_process := Some (a\<lparr>ag_state := s\<rparr>, True), wr_files := []\<rparr>)"
  using assms
proof -
  have "module_call py m name args kwargs w =
     (let re = agent_answer (a\<lparr>ag_state := s\<rparr>) r;
          w' = w\<lparr>wr_process := Some (a\<lparr>ag_state := s\<rparr>, re_goes_on re), wr_files := re_files re\<rparr> in
      case re_answer re of None \<Rightarrow> (Inl NoAnswer, w') | Some x \<Rightarrow> read_response x w')"
    using assms(1-4) by (simp add: module_call_def agent_call_def agent_line_def agent_dispatch_def Let_def)
  also have "\<dots> = (local_result r, w\<lparr>wr_process := Some (a\<lparr>ag_state := s\<rparr>, True), wr_files := []\<rparr>)"
    using assms(5)
    by (cases r rule: local_result.cases) (simp_all add: read_response_def exception_answer_def)
  finally show ?thesis .
qed

lemma remote_session_runs:
  assumes "wr_process w = Some (a, True)" and "wr_files w = []"
    and "\<forall>(k, f) \<in> set ms. map_of (ag_methods a) (m @ ''.'' @ k) = Some (MethodEntry f)"
    and "\<forall>(name, _) \<in> set cs. name \<in> set (keys ms)"
    and "local_session ms cs (ag_state a) = (rs, s)"
    and "list_all (passable (ag_fdpass a)) rs"
  shows "remote_session py m cs w =
    (map local_result rs, w\<lparr>wr_process := Some (a\<lparr>ag_state := s\<rparr>, True), wr_files := []\<rparr>)"
  using assms
proof (induction cs arbitrary: w a rs)
  case Nil
  then show ?case by simp
next
  case (Cons c cs)
  obtain name args kwargs where c: "c = (name, args, kwargs)" by (cases c)
  with Cons.prems(4) obtain f where f: "map_of ms name = Some f"
    by (cases "map_of ms name") (auto simp: map_of_eq_None)
  obtain r s1 where r: "f args kwargs (ag_state a) = (r, s1)" by fastforce
  obtain rs' where rest: "local_session ms cs s1 = (rs', s)" and rs: "rs = r # rs'"
    using Cons.prems(5) c f r by (auto split: prod.splits)
  let ?a = "a\<lparr>ag_state := s1\<rparr>"
  have "module_call py m name args kwargs w = (local_result r, w\<lparr>wr_process := Some (?a, True), wr_files := []\<rparr>)"
    using Cons.prems(1,2,3,6) f r rs by (intro module_call_runs [where f = f]) (auto dest: map_of_SomeD)
  moreover have "remote_session py m cs (w\<lparr>wr_process := Some (?a, True), wr_files := []\<rparr>) =
    (map local_result rs', w\<lparr>wr_process := Some (?a\<lparr>ag_state := s\<rparr>, True), wr_files := []\<rparr>)"
    using Cons.prems(3,4,6) rest rs by (subst Cons.IH [of _ ?a rs']) (auto simp: c)
  ultimately show ?case by (simp add: c rs)
qed

lemma reachable_knows_methods:
  assumes "fresh_wrapper py own w0" and "(wrapper_step py source)\<^sup>*\<^sup>* w0 w"
    and "wr_process w = Some (a, on)" and "m \<in> set (wr_loaded w)"
    and "source m = Some x" and "in_exec py m x = Inr ms"
  shows "\<forall>(k, f) \<in> set ms. map_of (ag_methods a) (m @ ''.'' @ k) = Some (MethodEntry f)"
proof -
  have "wrapper_inv py source w" by (rule wrappers.reachable_inv [OF assms(1,2)])
  with assms(3,4) have "knows_module py source a m" by (auto simp: wrapper_inv_def)
  with assms(5,6) show ?thesis by (simp add: knows_module_def)
qed


text \<open>A module whose state is a number, with a method that adds and one that only raises.\<close>

definition counter_module :: "int module" where
  "counter_module =
     [(''add'', \<lambda>args kwargs n. case args of [VInt i] \<Rightarrow> (Value (Inr (VInt (n + i))), n + i) | _ \<Rightarrow> (Raises ''TypeError()'', n)),
      (''fail'', \<lambda>args kwargs n. (Raises ''ValueError(1,)'', n))]"

definition counter_python :: "int interpreter" where
  "counter_python = \<lparr>in_exec = (\<lambda>name x. Inr counter_module), in_repr = (\<lambda>c x. c)\<rparr>"



section \<open>Where calls go wrong\<close>

text \<open>
  A file whose object JSON cannot encode has been sent when the exception is reported: it stays on the
  way, and the next call that returns a file gets it instead of its own.
\<close>

lemma unsendable_file_left:
  assumes "wr_process w = Some (a, True)" and "wr_files w = []" and "ag_fdpass a"
    and "map_of (ag_methods a) (m @ ''.'' @ bad) = Some (MethodEntry f)"
    and "map_of (ag_methods a) (m @ ''.'' @ good) = Some (MethodEntry g)"
    and "f [] [] (ag_state a) = (WithFile (Inl e) fd, s)" and "g [] [] s = (WithFile (Inr v) fd', t)"
  shows "\<exists>w'. remote_session py m [(bad, [], []), (good, [], [])] w =
    ([Inl (AgentException (without_comma e)), Inr (v, Some fd)], w') \<and> wr_files w' = [fd']"
  using assms
  by (simp add: module_call_def agent_call_def agent_line_def agent_dispatch_def read_response_def
      exception_answer_def Let_def)

text \<open>Closing does not forget the modules: loading one again seems to work, and then its methods do not.\<close>

lemma closed_wrapper_keeps_modules:
  assumes "wrapper_close py w = (Inr (), w')" and "wr_process w \<noteq> None" and "m \<in> set (wr_loaded w)"
  shows "wrapper_load py source m w' = (Inr (), w') \<and> module_call py m name args kwargs w' = (Inl NoProcess, w')"
  using assms
  by (auto simp: wrapper_close_def wrapper_load_def module_call_def agent_call_def split: option.splits bool.splits)

end
