(* ===== verification/AgentModules.thy ===== *)
theory AgentModules
  imports Agents "HOL-Library.Word"
begin

unbundle bit_operations_syntax

text \<open>
  The modules under \<^verbatim>\<open>labgrid/util/agents/\<close> that switch single lines: GPIOs through sysfs, FTDI chips in
  bit-bang mode, Deditec relays and HID relays. The files of the kernel and the devices are outside:
  they answer requests, given their state. Bytes are integers.
\<close>

section \<open>Requests to the devices\<close>

datatype module_error = ValueOutOfRange | OsFailed | AssertFailed | IndexFailed | UsbFailed | TimedOut

fun error_text :: "module_error \<Rightarrow> string" where
  "error_text ValueOutOfRange = ''ValueError()''"
| "error_text OsFailed = ''OSError()''"
| "error_text AssertFailed = ''AssertionError()''"
| "error_text IndexFailed = ''IndexError()''"
| "error_text UsbFailed = ''USBError()''"
| "error_text TimedOut = ''TimeoutError()''"

datatype device_request =
    PathExists string
  | ReadFile string
  | WriteFile string string
  | OpenFile string bool
  | FindUsb "(string \<times> int) list"
  | KernelDriverActive int
  | DetachKernelDriver int
  | ActiveConfiguration
  | SetConfiguration
  | VendorId
  | HasOutEndpoint int
  | Claim int
  | ReleaseUsb int
  | ControlOut int int int int "int list"
  | ControlIn int int int int int
  | BulkOut int "int list"
  | BulkIn int int

text \<open>An answer: a failure, or what was read, or whether something is there.\<close>

datatype device_answer = Fails | Busy | Done | Holds bool | Content string | Bytes "int list"

type_synonym 'd devices = "device_request \<Rightarrow> 'd \<Rightarrow> device_answer \<times> 'd"

type_synonym ('a, 'd) using_device = "(module_error, 'a, 'd) outcome"

definition request_done :: "module_error \<Rightarrow> 'd devices \<Rightarrow> device_request \<Rightarrow> 'd \<Rightarrow> (unit, 'd) using_device" where
  "request_done e ask q d = (case ask q d of (Done, d') \<Rightarrow> (Inr (), d') | (_, d') \<Rightarrow> (Inl e, d'))"

definition request_holds :: "module_error \<Rightarrow> 'd devices \<Rightarrow> device_request \<Rightarrow> 'd \<Rightarrow> (bool, 'd) using_device" where
  "request_holds e ask q d = (case ask q d of (Holds b, d') \<Rightarrow> (Inr b, d') | (_, d') \<Rightarrow> (Inl e, d'))"

definition request_bytes :: "module_error \<Rightarrow> 'd devices \<Rightarrow> device_request \<Rightarrow> 'd \<Rightarrow> (int list, 'd) using_device" where
  "request_bytes e ask q d = (case ask q d of (Bytes bs, d') \<Rightarrow> (Inr bs, d') | (_, d') \<Rightarrow> (Inl e, d'))"

definition request_content :: "module_error \<Rightarrow> 'd devices \<Rightarrow> device_request \<Rightarrow> 'd \<Rightarrow> (string, 'd) using_device" where
  "request_content e ask q d = (case ask q d of (Content c, d') \<Rightarrow> (Inr c, d') | (_, d') \<Rightarrow> (Inl e, d'))"

text \<open>\<open>try: ... finally: ...\<close>, when what is done at the end cannot fail.\<close>

definition finally_do :: "('a, 'd) using_device \<Rightarrow> ('d \<Rightarrow> 'd) \<Rightarrow> ('a, 'd) using_device" where
  "finally_do m f = (fst m, f (snd m))"

text \<open>The bit of an integer at a position, as \<open>n & (1 << i)\<close> tests it.\<close>

abbreviation bit_set :: "int \<Rightarrow> nat \<Rightarrow> bool" where
  "bit_set n i \<equiv> n AND push_bit i 1 \<noteq> 0"

lemma bit_set_iff: "bit_set n i \<longleftrightarrow> bit n i"
  by (simp add: and_exp_eq_0_iff_not_bit push_bit_eq_mult flip: exp_eq_0_imp_not_bit) 


section \<open>GPIO lines of the kernel\<close>

text \<open>
  \<^verbatim>\<open>sysfsgpio.py\<close>. The module keeps a line for each index, inversion and direction, here the list of
  those that exist. A line that is made or found again is configured.
\<close>

type_synonym gpio_key = "int \<times> bool \<times> string"

type_synonym 'd gpios = "gpio_key list \<times> 'd"

definition gpio_path :: "int \<Rightarrow> string" where
  "gpio_path i = path_join ''/sys/class/gpio'' (''gpio'' @ show_int i)"

definition assert_exported :: "'d devices \<Rightarrow> int \<Rightarrow> 'd \<Rightarrow> (unit, 'd) using_device" where
  "assert_exported ask i d =
     and_then (request_holds OsFailed ask (PathExists (gpio_path i)) d) (\<lambda>there d.
     and_then (if there then (Inr (), d)
               else request_done OsFailed ask (WriteFile (path_join ''/sys/class/gpio'' ''export'') (show_int i)) d) (\<lambda>_ d.
     and_then (request_holds OsFailed ask (PathExists (gpio_path i)) d) (\<lambda>there d.
     if there then (Inr (), d) else (Inl ValueOutOfRange, d))))"

text \<open>\<open>str(int(invert))\<close>.\<close>

definition active_low_text :: "bool \<Rightarrow> string" where
  "active_low_text low = show_int (if low then 1 else 0)"

definition gpio_configure :: "'d devices \<Rightarrow> gpio_key \<Rightarrow> 'd \<Rightarrow> (unit, 'd) using_device" where
  "gpio_configure ask k d =
     (let (i, low, dir) = k; direction = path_join (gpio_path i) ''direction'' in
      and_then (request_content OsFailed ask (ReadFile direction) d) (\<lambda>c d.
      and_then (if bytes_strip (take 3 c) \<noteq> dir then request_done OsFailed ask (WriteFile direction dir) d
                else (Inr (), d)) (\<lambda>_.
      request_done OsFailed ask
        (WriteFile (path_join (gpio_path i) ''active_low'') (active_low_text low)))))"

definition new_gpio_line :: "'d devices \<Rightarrow> gpio_key \<Rightarrow> 'd \<Rightarrow> (unit, 'd) using_device" where
  "new_gpio_line ask k d =
     (let (i, low, dir) = k in
      if dir \<notin> {''in'', ''out''} then (Inl ValueOutOfRange, d)
      else and_then (assert_exported ask i d) (\<lambda>_ d.
           and_then (gpio_configure ask k d) (\<lambda>_.
           request_done OsFailed ask (OpenFile (path_join (gpio_path i) ''value'') (dir = ''out'')))))"

definition get_gpio_line :: "'d devices \<Rightarrow> gpio_key \<Rightarrow> 'd gpios \<Rightarrow> (unit, 'd gpios) using_device" where
  "get_gpio_line ask k s =
     (if k \<notin> set (fst s) then
        (case new_gpio_line ask k (snd s) of
           (Inl e, d) \<Rightarrow> (Inl e, (fst s, d))
         | (Inr _, d) \<Rightarrow> (Inr (), (fst s @ [k], d)))
      else (case gpio_configure ask k (snd s) of (r, d) \<Rightarrow> (r, (fst s, d))))"

text \<open>\<open>handle_set\<close> and \<open>handle_get\<close>; a status must be a boolean.\<close>

definition gpio_set :: "'d devices \<Rightarrow> int \<Rightarrow> bool \<Rightarrow> pyval \<Rightarrow> 'd gpios \<Rightarrow> (unit, 'd gpios) using_device" where
  "gpio_set ask i low status s =
     and_then (get_gpio_line ask (i, low, ''out'') s) (\<lambda>_ s.
     case status of
       VBool b \<Rightarrow>
         (case request_done OsFailed ask (WriteFile (path_join (gpio_path i) ''value'') (if b then ''1'' else ''0''))
                 (snd s) of (r, d) \<Rightarrow> (r, (fst s, d)))
     | _ \<Rightarrow> (Inl ValueOutOfRange, s))"

definition gpio_get :: "'d devices \<Rightarrow> int \<Rightarrow> bool \<Rightarrow> string \<Rightarrow> 'd gpios \<Rightarrow> (bool, 'd gpios) using_device" where
  "gpio_get ask i low dir s =
     and_then (get_gpio_line ask (i, low, dir) s) (\<lambda>_ s.
     case request_content OsFailed ask (ReadFile (path_join (gpio_path i) ''value'')) (snd s) of
       (Inl e, d) \<Rightarrow> (Inl e, (fst s, d))
     | (Inr c, d) \<Rightarrow>
         (if take 1 c = ''0'' then (Inr False, (fst s, d))
          else if take 1 c = ''1'' then (Inr True, (fst s, d))
          else (Inl ValueOutOfRange, (fst s, d))))"


section \<open>FTDI chips\<close>

text \<open>\<^verbatim>\<open>ftdigpio.py\<close>: for each request the interface is claimed, used and released.\<close>

definition ftdi_interfaces :: "(int \<times> int) list" where
  "ftdi_interfaces = [(0x6010, 2), (0x6011, 4), (0x6014, 1)]"

record ftdi_line =
  fl_vendor :: int
  fl_model :: int
  fl_bus :: int
  fl_address :: int
  fl_interface :: int

definition ftdi_valid :: "ftdi_line \<Rightarrow> bool" where
  "ftdi_valid l \<longleftrightarrow> fl_vendor l = 0x0403 \<and>
     (case map_of ftdi_interfaces (fl_model l) of
        None \<Rightarrow> False | Some n \<Rightarrow> 1 \<le> fl_interface l \<and> fl_interface l \<le> n)"

definition detach_kernel_driver :: "'d devices \<Rightarrow> int \<Rightarrow> 'd \<Rightarrow> (unit, 'd) using_device" where
  "detach_kernel_driver ask itf d =
     and_then (request_holds UsbFailed ask (KernelDriverActive itf) d) (\<lambda>active d.
       if active then request_done UsbFailed ask (DetachKernelDriver itf) d else (Inr (), d))"

definition ftdi_open :: "'d devices \<Rightarrow> ftdi_line \<Rightarrow> 'd \<Rightarrow> (unit, 'd) using_device" where
  "ftdi_open ask l d =
     (let itf = fl_interface l - 1 in
      if \<not> ftdi_valid l then (Inl ValueOutOfRange, d)
      else and_then (request_holds UsbFailed ask (FindUsb [(''idVendor'', fl_vendor l), (''idProduct'', fl_model l),
                       (''bus'', fl_bus l), (''address'', fl_address l)]) d) (\<lambda>found d.
      if \<not> found then (Inl ValueOutOfRange, d)
      else and_then (detach_kernel_driver ask itf d) (\<lambda>_ d.
      and_then (case request_done UsbFailed ask ActiveConfiguration d of
                  (Inr _, d) \<Rightarrow> (Inr (), d)
                | (Inl _, d) \<Rightarrow> and_then (request_done UsbFailed ask SetConfiguration d) (\<lambda>_ d.
                    and_then (detach_kernel_driver ask itf d) (\<lambda>_.
                    request_done UsbFailed ask ActiveConfiguration))) (\<lambda>_ d.
      and_then (request_done UsbFailed ask (Claim itf) d) (\<lambda>_ d.
      and_then (request_holds UsbFailed ask (HasOutEndpoint itf) d) (\<lambda>found d.
      if found then (Inr (), d) else (Inl ValueOutOfRange, d)))))))"

text \<open>\<open>close\<close> does not mind if the interface cannot be released.\<close>

definition ftdi_close :: "'d devices \<Rightarrow> ftdi_line \<Rightarrow> 'd \<Rightarrow> 'd" where
  "ftdi_close ask l d = snd (ask (ReleaseUsb (fl_interface l - 1)) d)"

definition run_with_device ::
  "'d devices \<Rightarrow> ftdi_line \<Rightarrow> ('d \<Rightarrow> ('a, 'd) using_device) \<Rightarrow> 'd \<Rightarrow> ('a, 'd) using_device" where
  "run_with_device ask l f d = and_then (ftdi_open ask l d) (\<lambda>_ d. finally_do (f d) (ftdi_close ask l))"

definition read_gpio_byte :: "'d devices \<Rightarrow> ftdi_line \<Rightarrow> 'd \<Rightarrow> (int, 'd) using_device" where
  "read_gpio_byte ask l d =
     and_then (request_bytes UsbFailed ask (ControlIn 0xC0 12 0 (fl_interface l) 1) d) (\<lambda>bs d.
       case bs of [] \<Rightarrow> (Inl TimedOut, d) | b # _ \<Rightarrow> (Inr b, d))"

definition ftdi_get :: "'d devices \<Rightarrow> ftdi_line \<Rightarrow> int \<Rightarrow> 'd \<Rightarrow> (bool, 'd) using_device" where
  "ftdi_get ask l i =
     run_with_device ask l (\<lambda>d.
       if \<not> (0 \<le> i \<and> i \<le> 7) then (Inl ValueOutOfRange, d)
       else and_then (read_gpio_byte ask l d) (\<lambda>b d. (Inr (bit_set b (nat (i mod 8))), d)))"

definition with_bit :: "int \<Rightarrow> nat \<Rightarrow> bool \<Rightarrow> int" where
  "with_bit n i b = (if b then n OR push_bit i 1 else n AND NOT (push_bit i 1))"

definition ftdi_set :: "'d devices \<Rightarrow> ftdi_line \<Rightarrow> int \<Rightarrow> bool \<Rightarrow> 'd \<Rightarrow> (unit, 'd) using_device" where
  "ftdi_set ask l i status =
     run_with_device ask l (\<lambda>d.
       if \<not> (0 \<le> i \<and> i \<le> 7) then (Inl ValueOutOfRange, d)
       else and_then (read_gpio_byte ask l d) (\<lambda>b d.
            and_then (request_done UsbFailed ask (ControlOut 0x40 11 (0xFF OR push_bit 8 1) (fl_interface l) []) d) (\<lambda>_.
            request_done UsbFailed ask (BulkOut (fl_interface l - 1) [with_bit b (nat i) status]))))"


section \<open>Deditec relays\<close>

text \<open>\<^verbatim>\<open>deditec_relais8.py\<close>: requests are bytes written in hexadecimal.\<close>

fun hex_digits :: "nat \<Rightarrow> string" where
  "hex_digits n =
     (if n < 16 then [''0123456789ABCDEF'' ! n] else hex_digits (n div 16) @ [''0123456789ABCDEF'' ! (n mod 16)])"

declare hex_digits.simps [simp del]

definition two_hex :: "nat \<Rightarrow> string" where
  "two_hex n = (if n < 16 then ''0'' else []) @ hex_digits n"

fun unhexlify :: "string \<Rightarrow> int list option" where
  "unhexlify [] = Some []"
| "unhexlify [c] = None"
| "unhexlify (c # d # s) =
     (case (digit_value 16 c, digit_value 16 d, unhexlify s) of
        (Some x, Some y, Some bs) \<Rightarrow> Some (int (16 * x + y) # bs)
      | _ \<Rightarrow> None)"

definition relais_padding :: "int list" where
  "relais_padding = replicate 8 0xFE @ [0xFF]"

definition relais_addresses :: "int list" where
  "relais_addresses = [0x30, 0x34, 0xC0, 0x00, 0x02, 0x0C, 0x0E, 0x04, 0x06, 0x08, 0x0A, 0x10, 0x12, 0x14, 0x16,
     0xF4, 0xF5, 0xF6, 0xF7, 0xF0, 0xEC]"

definition config_request :: "int \<Rightarrow> int \<Rightarrow> int list" where
  "config_request n a = relais_padding @ [n] @ [0x34, a, 0xFF] @ [0, 0, 0]"

text \<open>\<open>write\<close> counts the sequence number, which is part of the state of the object, and \<open>read\<close>.\<close>

definition relais_write :: "'d devices \<Rightarrow> int list \<Rightarrow> int \<times> 'd \<Rightarrow> (unit, int \<times> 'd) using_device" where
  "relais_write ask bs s =
     (case request_done UsbFailed ask (BulkOut 0 bs) (snd s) of (r, d) \<Rightarrow> (r, ((fst s + 1) AND 0xFF, d)))"

definition relais_read :: "'d devices \<Rightarrow> int \<times> 'd \<Rightarrow> (int list, int \<times> 'd) using_device" where
  "relais_read ask s =
     (case request_bytes UsbFailed ask (BulkIn 0 255) (snd s) of (r, d) \<Rightarrow> (r, (fst s, d)))"

definition run_configuration_sequence :: "'d devices \<Rightarrow> int \<times> 'd \<Rightarrow> (unit, int \<times> 'd) using_device" where
  "run_configuration_sequence ask =
     for_each (\<lambda>a s. and_then (relais_write ask (config_request (fst s) a) s) (\<lambda>_ s.
       and_then (relais_read ask s) (\<lambda>_ s. (Inr (), s)))) relais_addresses"

definition relais_setup :: "'d devices \<Rightarrow> 'd \<Rightarrow> (unit, int \<times> 'd) using_device" where
  "relais_setup ask d =
     (case and_then (detach_kernel_driver ask 0 d) (\<lambda>_ d.
           and_then (request_done UsbFailed ask ActiveConfiguration d) (\<lambda>_ d.
           and_then (request_done UsbFailed ask SetConfiguration d) (\<lambda>_ d.
           and_then (request_done UsbFailed ask (Claim 0) d) (\<lambda>_ d.
           and_then (request_done UsbFailed ask (ControlOut 64 0 0 0 []) d) (\<lambda>_ d.
           and_then (request_done UsbFailed ask (ControlOut 64 3 20 0 []) d) (\<lambda>_ d.
           request_done UsbFailed ask (ControlOut 64 9 2 0 []) d)))))) of
        (Inl e, d) \<Rightarrow> (Inl e, (0, d))
      | (Inr _, d) \<Rightarrow> run_configuration_sequence ask (0, d))"

text \<open>The bytes that switch an output; a number above eight need not give whole bytes.\<close>

definition output_data :: "int \<Rightarrow> bool \<Rightarrow> module_error + int list" where
  "output_data number status =
     (if number < 1 then Inl ValueOutOfRange
      else case unhexlify ((if status then ''238000000001'' else ''23A000000001'') @
                  two_hex (push_bit (nat (number - 1)) 1) @ ''00000000000000'') of
        None \<Rightarrow> Inl ValueOutOfRange
      | Some bs \<Rightarrow> Inr bs)"

definition relais_set_output :: "'d devices \<Rightarrow> int \<Rightarrow> bool \<Rightarrow> int \<times> 'd \<Rightarrow> (unit, int \<times> 'd) using_device" where
  "relais_set_output ask number status s =
     (case output_data number status of
        Inl e \<Rightarrow> (Inl e, s)
      | Inr bs \<Rightarrow> and_then (relais_write ask (relais_padding @ [fst s] @ bs) s) (\<lambda>_ s.
          and_then (relais_read ask s) (\<lambda>_ s. (Inr (), s))))"

text \<open>The answer holds the byte 1A, the sequence number and the outputs; without 1A it is read from its start.\<close>

definition after_marker :: "int list \<Rightarrow> nat" where
  "after_marker bs = (if 0x1A \<in> set bs then length (takeWhile (\<lambda>b. b \<noteq> 0x1A) bs) + 1 else 0)"

definition relais_get_output :: "'d devices \<Rightarrow> int \<Rightarrow> int \<times> 'd \<Rightarrow> (bool, int \<times> 'd) using_device" where
  "relais_get_output ask number s =
     and_then (relais_write ask (relais_padding @ [fst s] @ [0x34, 0, 0, 0, 0, 0x0F]) s) (\<lambda>_ s.
     and_then (relais_read ask s) (\<lambda>bs s.
     let i = after_marker bs in
     if length bs \<le> i then (Inl IndexFailed, s)
     else if bs ! i \<noteq> fst s - 1 then (Inl OsFailed, s)
     else if length bs \<le> i + 1 then (Inl IndexFailed, s)
     else if number < 1 then (Inl ValueOutOfRange, s)
     else (Inr (0 < bs ! (i + 1) AND push_bit (nat (number - 1)) 1), s)))"

text \<open>Each request makes its own object, whose end releases the interface.\<close>

definition with_relais ::
  "'d devices \<Rightarrow> int \<Rightarrow> int \<Rightarrow> (int \<times> 'd \<Rightarrow> ('a, int \<times> 'd) using_device) \<Rightarrow> 'd \<Rightarrow> ('a, 'd) using_device" where
  "with_relais ask bus address f d =
     and_then (request_holds UsbFailed ask (FindUsb [(''bus'', bus), (''address'', address)]) d) (\<lambda>found d.
     if \<not> found then (Inl ValueOutOfRange, d)
     else case and_then (relais_setup ask d) (\<lambda>_. f) of (r, (_, d)) \<Rightarrow> (r, snd (ask (ReleaseUsb 0) d)))"

definition relais_set :: "'d devices \<Rightarrow> int \<Rightarrow> int \<Rightarrow> int \<Rightarrow> bool \<Rightarrow> 'd \<Rightarrow> (unit, 'd) using_device" where
  "relais_set ask bus address number status = with_relais ask bus address (relais_set_output ask number status)"

definition relais_get :: "'d devices \<Rightarrow> int \<Rightarrow> int \<Rightarrow> int \<Rightarrow> 'd \<Rightarrow> (bool, 'd) using_device" where
  "relais_get ask bus address number = with_relais ask bus address (relais_get_output ask number)"


section \<open>HID relays\<close>

text \<open>
  \<^verbatim>\<open>usb_hid_relay.py\<close>: two protocols, by the vendor. The objects are kept, each with its protocol. The
  number of attempts that fit into a second is given.
\<close>

datatype hid_protocol = Dcttech | Lcus

type_synonym 'd hid_relays = "((int \<times> int) \<times> hid_protocol) list \<times> 'd"

definition new_hid_relay :: "'d devices \<Rightarrow> int \<Rightarrow> int \<Rightarrow> 'd \<Rightarrow> (hid_protocol, 'd) using_device" where
  "new_hid_relay ask bus address d =
     and_then (request_holds UsbFailed ask (FindUsb [(''bus'', bus), (''address'', address)]) d) (\<lambda>found d.
     if \<not> found then (Inl ValueOutOfRange, d)
     else and_then (request_bytes UsbFailed ask VendorId d) (\<lambda>v d.
     and_then (if v = [0x16C0] then (Inr Dcttech, d) else if v = [0x5131] then (Inr Lcus, d)
               else (Inl ValueOutOfRange, d)) (\<lambda>p d.
     and_then (detach_kernel_driver ask 0 d) (\<lambda>_ d. (Inr p, d)))))"

definition get_relay :: "'d devices \<Rightarrow> int \<Rightarrow> int \<Rightarrow> 'd hid_relays \<Rightarrow> (hid_protocol, 'd hid_relays) using_device" where
  "get_relay ask bus address s =
     (case map_of (fst s) (bus, address) of
        Some p \<Rightarrow> (Inr p, s)
      | None \<Rightarrow>
          (case new_hid_relay ask bus address (snd s) of
             (Inl e, d) \<Rightarrow> (Inl e, (fst s, d))
           | (Inr p, d) \<Rightarrow> (Inr p, (AList.update (bus, address) p (fst s), d))))"

fun claim_retrying :: "nat \<Rightarrow> 'd devices \<Rightarrow> 'd \<Rightarrow> (unit, 'd) using_device" where
  "claim_retrying 0 ask d = request_done UsbFailed ask (Claim 0) d"
| "claim_retrying (Suc n) ask d =
     (case ask (Claim 0) d of
        (Done, d) \<Rightarrow> (Inr (), d)
      | (Busy, d) \<Rightarrow> claim_retrying n ask d
      | (_, d) \<Rightarrow> (Inl UsbFailed, d))"

definition claimed :: "nat \<Rightarrow> 'd devices \<Rightarrow> ('d \<Rightarrow> ('a, 'd) using_device) \<Rightarrow> 'd \<Rightarrow> ('a, 'd) using_device" where
  "claimed n ask f d =
     and_then (claim_retrying n ask d) (\<lambda>_ d.
     and_then (f d) (\<lambda>a d.
     and_then (request_done UsbFailed ask (ReleaseUsb 0) d) (\<lambda>_ d. (Inr a, d))))"

text \<open>The last byte of a request of the second protocol is the sum of the others.\<close>

definition lcus_request :: "int \<Rightarrow> bool \<Rightarrow> int list" where
  "lcus_request number status =
     (let req = [0xA0, number, if status then 1 else 0, 0] in req[3 := sum_list req AND 0xFF])"

definition set_output_dcttech :: "'d devices \<Rightarrow> int \<Rightarrow> bool \<Rightarrow> 'd \<Rightarrow> (unit, 'd) using_device" where
  "set_output_dcttech ask number status d =
     (if \<not> (1 \<le> number \<and> number \<le> 8) then (Inl AssertFailed, d)
      else request_done UsbFailed ask
        (ControlOut 0x20 9 (push_bit 8 3) 0 [if status then 0xFF else 0xFD, number]) d)"

definition get_output_dcttech :: "'d devices \<Rightarrow> int \<Rightarrow> 'd \<Rightarrow> (bool, 'd) using_device" where
  "get_output_dcttech ask number d =
     (if \<not> (1 \<le> number \<and> number \<le> 8) then (Inl AssertFailed, d)
      else and_then (request_bytes UsbFailed ask (ControlIn 0xA0 1 (push_bit 8 3) 0 8) d) (\<lambda>bs d.
        if length bs \<le> 7 then (Inl IndexFailed, d) else (Inr (bit_set (bs ! 7) (nat (number - 1))), d)))"

definition set_output_lcus :: "'d devices \<Rightarrow> int \<Rightarrow> bool \<Rightarrow> 'd \<Rightarrow> (unit, 'd) using_device" where
  "set_output_lcus ask number status d =
     (if \<not> (1 \<le> number \<and> number \<le> 8) then (Inl AssertFailed, d)
      else and_then (request_done UsbFailed ask (BulkOut 0 (lcus_request number status)) d) (\<lambda>_ d.
        and_then (request_bytes UsbFailed ask (BulkIn 0 64) d) (\<lambda>_ d. (Inr (), d))))"

text \<open>Nothing is known about how to read the second kind.\<close>

definition get_output_lcus :: "int \<Rightarrow> 'd \<Rightarrow> (bool, 'd) using_device" where
  "get_output_lcus number d =
     (if \<not> (1 \<le> number \<and> number \<le> 8) then (Inl AssertFailed, d) else (Inr False, d))"

fun hid_set_output :: "'d devices \<Rightarrow> hid_protocol \<Rightarrow> int \<Rightarrow> bool \<Rightarrow> 'd \<Rightarrow> (unit, 'd) using_device" where
  "hid_set_output ask Dcttech = set_output_dcttech ask"
| "hid_set_output ask Lcus = set_output_lcus ask"

fun hid_get_output :: "'d devices \<Rightarrow> hid_protocol \<Rightarrow> int \<Rightarrow> 'd \<Rightarrow> (bool, 'd) using_device" where
  "hid_get_output ask Dcttech = get_output_dcttech ask"
| "hid_get_output ask Lcus = get_output_lcus"

definition on_relay ::
  "'d devices \<Rightarrow> int \<Rightarrow> int \<Rightarrow> (hid_protocol \<Rightarrow> 'd \<Rightarrow> ('a, 'd) using_device) \<Rightarrow> 'd hid_relays \<Rightarrow>
   ('a, 'd hid_relays) using_device" where
  "on_relay ask bus address f s =
     and_then (get_relay ask bus address s) (\<lambda>p s. case f p (snd s) of (r, d) \<Rightarrow> (r, (fst s, d)))"

definition hid_set :: "nat \<Rightarrow> 'd devices \<Rightarrow> int \<Rightarrow> int \<Rightarrow> int \<Rightarrow> bool \<Rightarrow> 'd hid_relays \<Rightarrow> (unit, 'd hid_relays) using_device" where
  "hid_set n ask bus address number status =
     on_relay ask bus address (\<lambda>p. claimed n ask (hid_set_output ask p number status))"

definition hid_get :: "nat \<Rightarrow> 'd devices \<Rightarrow> int \<Rightarrow> int \<Rightarrow> int \<Rightarrow> 'd hid_relays \<Rightarrow> (bool, 'd hid_relays) using_device" where
  "hid_get n ask bus address number =
     on_relay ask bus address (\<lambda>p. claimed n ask (hid_get_output ask p number))"


section \<open>The modules for the agent\<close>

text \<open>
  A method with the arguments that the drivers give it; others are answered by a \<open>TypeError\<close>.
\<close>

definition as_method :: "(pyval list \<Rightarrow> ('s \<Rightarrow> (pyval, 's) using_device) option) \<Rightarrow> 's agent_method" where
  "as_method f args kwargs s =
     (case (f args, kwargs) of
        (Some g, []) \<Rightarrow>
          (case g s of (Inl e, s) \<Rightarrow> (Raises (error_text e), s) | (Inr v, s) \<Rightarrow> (Value (Inr v), s))
      | _ \<Rightarrow> (Raises ''TypeError()'', s))"

definition no_value :: "('s \<Rightarrow> (unit, 's) using_device) \<Rightarrow> 's \<Rightarrow> (pyval, 's) using_device" where
  "no_value g s = and_then (g s) (\<lambda>_ s. (Inr VNone, s))"

definition truth_value :: "('s \<Rightarrow> (bool, 's) using_device) \<Rightarrow> 's \<Rightarrow> (pyval, 's) using_device" where
  "truth_value g s = and_then (g s) (\<lambda>b s. (Inr (VBool b), s))"

definition gpio_methods :: "'d devices \<Rightarrow> 'd gpios module" where
  "gpio_methods ask =
     [(''set'', as_method (\<lambda>args. case args of
         [VInt i, VBool low, status] \<Rightarrow> Some (no_value (gpio_set ask i low status)) | _ \<Rightarrow> None)),
      (''get'', as_method (\<lambda>args. case args of
         [VInt i, VBool low] \<Rightarrow> Some (truth_value (gpio_get ask i low ''out''))
       | [VInt i, VBool low, VStr dir] \<Rightarrow> Some (truth_value (gpio_get ask i low dir)) | _ \<Rightarrow> None))]"

definition ftdi_methods :: "'d devices \<Rightarrow> 'd module" where
  "ftdi_methods ask =
     [(''get'', as_method (\<lambda>args. case args of
         [VInt v, VInt m, VInt b, VInt a, VInt itf, VInt i] \<Rightarrow>
           Some (truth_value (ftdi_get ask \<lparr>fl_vendor = v, fl_model = m, fl_bus = b, fl_address = a, fl_interface = itf\<rparr> i))
       | _ \<Rightarrow> None)),
      (''set'', as_method (\<lambda>args. case args of
         [VInt v, VInt m, VInt b, VInt a, VInt itf, VInt i, status] \<Rightarrow>
           Some (\<lambda>d. and_then (ftdi_set ask \<lparr>fl_vendor = v, fl_model = m, fl_bus = b, fl_address = a, fl_interface = itf\<rparr>
             i (py_true status) d) (\<lambda>_ d. (Inr (VBool True), d)))
       | _ \<Rightarrow> None)),
      (''close'', as_method (\<lambda>args. case args of [] \<Rightarrow> Some (\<lambda>d. (Inr (VBool True), d)) | _ \<Rightarrow> None))]"

definition relais_methods :: "'d devices \<Rightarrow> 'd module" where
  "relais_methods ask =
     [(''set'', as_method (\<lambda>args. case args of
         [VInt b, VInt a, VInt n, status] \<Rightarrow> Some (no_value (relais_set ask b a n (py_true status))) | _ \<Rightarrow> None)),
      (''get'', as_method (\<lambda>args. case args of
         [VInt b, VInt a, VInt n] \<Rightarrow> Some (truth_value (relais_get ask b a n)) | _ \<Rightarrow> None))]"

definition hid_methods :: "nat \<Rightarrow> 'd devices \<Rightarrow> 'd hid_relays module" where
  "hid_methods k ask =
     [(''set'', as_method (\<lambda>args. case args of
         [VInt b, VInt a, VInt n, status] \<Rightarrow> Some (no_value (hid_set k ask b a n (py_true status))) | _ \<Rightarrow> None)),
      (''get'', as_method (\<lambda>args. case args of
         [VInt b, VInt a, VInt n] \<Rightarrow> Some (truth_value (hid_get k ask b a n)) | _ \<Rightarrow> None))]"


section \<open>What is read after a line was set\<close>

text \<open>
  Files as sysfs has them: what is written is read back, perhaps with a newline after it; writing
  again what a file holds changes nothing, a write changes no other file than the values of lines,
  and opening changes nothing.
\<close>

abbreviation gpio_value :: "int \<Rightarrow> string" where
  "gpio_value i \<equiv> path_join (gpio_path i) ''value''"

abbreviation with_newline :: "string \<Rightarrow> string set" where
  "with_newline v \<equiv> {v, v @ [CHR 0x0A]}"

definition sysfs_files :: "'d devices \<Rightarrow> ('d \<Rightarrow> string \<Rightarrow> string) \<Rightarrow> bool" where
  "sysfs_files ask content \<longleftrightarrow>
     (\<forall>p d. ask (ReadFile p) d = (Content (content d p), d)) \<and>
     (\<forall>p v d d'. ask (WriteFile p v) d = (Done, d') \<longrightarrow> content d' p \<in> with_newline v \<and>
        (\<forall>q. q \<noteq> p \<longrightarrow> q \<notin> range gpio_value \<longrightarrow> content d' q = content d q)) \<and>
     (\<forall>p v d. content d p \<in> with_newline v \<longrightarrow> ask (WriteFile p v) d = (Done, d)) \<and>
     (\<forall>p w d d'. ask (OpenFile p w) d = (Done, d') \<longrightarrow> d' = d)"

lemma request_done_Inr: "request_done e ask q d = (Inr u, d') \<longleftrightarrow> ask q d = (Done, d')"
  by (auto simp: request_done_def split: prod.splits device_answer.splits)

lemma last_path_join: "b \<noteq> [] \<Longrightarrow> last (path_join a b) = last b"
  by (simp add: path_join_def)

lemma gpio_files_differ:
  "path_join (gpio_path i) ''direction'' \<notin> range gpio_value"
  "path_join (gpio_path i) ''active_low'' \<notin> range gpio_value"
  "path_join (gpio_path i) ''direction'' \<noteq> path_join (gpio_path i) ''active_low''"
proof -
  have last: "last (path_join a ''direction'') = CHR ''n''" "last (path_join a ''active_low'') = CHR ''w''"
    "last (path_join a ''value'') = CHR ''e''" for a
    by (simp_all add: last_path_join)
  then have ends: "x \<in> range gpio_value \<Longrightarrow> last x = CHR ''e''" for x by auto
  show "path_join (gpio_path i) ''direction'' \<notin> range gpio_value"
    using ends last(1) [of "gpio_path i"] by force
  show "path_join (gpio_path i) ''active_low'' \<notin> range gpio_value"
    using ends last(2) [of "gpio_path i"] by force
  show "path_join (gpio_path i) ''direction'' \<noteq> path_join (gpio_path i) ''active_low''"
    using last(1,2) [of "gpio_path i"] by force
qed

lemma sysfs_read: "sysfs_files ask content \<Longrightarrow> ask (ReadFile p) d = (Content (content d p), d)"
  unfolding sysfs_files_def by (elim conjE) (erule allE, erule allE, assumption)

lemma sysfs_written:
  assumes "sysfs_files ask content" and "ask (WriteFile p v) d = (Done, d')"
  shows "content d' p \<in> with_newline v"
    and "q \<noteq> p \<Longrightarrow> q \<notin> range gpio_value \<Longrightarrow> content d' q = content d q"
proof -
  from assms(1) have "\<forall>p v d d'. ask (WriteFile p v) d = (Done, d') \<longrightarrow> content d' p \<in> with_newline v \<and>
        (\<forall>q. q \<noteq> p \<longrightarrow> q \<notin> range gpio_value \<longrightarrow> content d' q = content d q)"
    unfolding sysfs_files_def by (elim conjE)
  with assms(2) have *: "content d' p \<in> with_newline v \<and>
        (\<forall>q. q \<noteq> p \<longrightarrow> q \<notin> range gpio_value \<longrightarrow> content d' q = content d q)" by (elim allE impE)
  from * show "content d' p \<in> with_newline v" by (rule conjunct1)
  from * show "q \<noteq> p \<Longrightarrow> q \<notin> range gpio_value \<Longrightarrow> content d' q = content d q" by (elim conjE allE impE)
qed

lemma sysfs_unchanged:
  assumes "sysfs_files ask content"
  shows "content d p \<in> with_newline v \<Longrightarrow> ask (WriteFile p v) d = (Done, d)"
    and "ask (OpenFile p w) d = (Done, d') \<Longrightarrow> d' = d"
proof -
  from assms have again: "\<forall>p v d. content d p \<in> with_newline v \<longrightarrow> ask (WriteFile p v) d = (Done, d)"
    unfolding sysfs_files_def by (elim conjE)
  from assms have noop: "\<forall>p w d d'. ask (OpenFile p w) d = (Done, d') \<longrightarrow> d' = d"
    unfolding sysfs_files_def by (elim conjE)
  from again show "content d p \<in> with_newline v \<Longrightarrow> ask (WriteFile p v) d = (Done, d)"
    by (elim allE impE)
  from noop show "ask (OpenFile p w) d = (Done, d') \<Longrightarrow> d' = d" by (elim allE impE)
qed

lemma request_content_file:
  "sysfs_files ask content \<Longrightarrow> request_content e ask (ReadFile p) d = (Inr (content d p), d)"
  by (simp add: request_content_def sysfs_read)

text \<open>What configuring a line for output leaves in its files.\<close>

definition configured :: "('d \<Rightarrow> string \<Rightarrow> string) \<Rightarrow> int \<Rightarrow> bool \<Rightarrow> 'd \<Rightarrow> bool" where
  "configured content i low d \<longleftrightarrow>
     bytes_strip (take 3 (content d (path_join (gpio_path i) ''direction''))) = ''out'' \<and>
     content d (path_join (gpio_path i) ''active_low'') \<in> with_newline (active_low_text low)"

lemma out_read_back: "c \<in> with_newline ''out'' \<Longrightarrow> bytes_strip (take 3 c) = ''out''"
proof -
  have "bytes_strip (take 3 ''out'') = ''out''" "bytes_strip (take 3 (''out'' @ [CHR 0x0A])) = ''out''"
    by code_simp+
  then show "c \<in> with_newline ''out'' \<Longrightarrow> bytes_strip (take 3 c) = ''out''" by blast
qed

lemma configured_again:
  assumes "sysfs_files ask content" and "configured content i low d"
  shows "gpio_configure ask (i, low, ''out'') d = (Inr (), d)"
proof -
  have "ask (WriteFile (path_join (gpio_path i) ''active_low'') (active_low_text low)) d = (Done, d)"
    using assms sysfs_unchanged(1) unfolding configured_def by metis
  with assms show ?thesis
    by (simp add: gpio_configure_def request_content_file request_done_Inr configured_def Let_def)
qed

lemma gpio_configure_configures:
  assumes files: "sysfs_files ask content" and conf: "gpio_configure ask (i, low, ''out'') d = (Inr (), d')"
  shows "configured content i low d'"
proof -
  let ?dir = "path_join (gpio_path i) ''direction''" and ?act = "path_join (gpio_path i) ''active_low''"
  from conf obtain d1 where
    one: "d1 = d \<and> bytes_strip (take 3 (content d ?dir)) = ''out'' \<or> ask (WriteFile ?dir ''out'') d = (Done, d1)"
    and two: "ask (WriteFile ?act (active_low_text low)) d1 = (Done, d')"
    by (auto simp only: gpio_configure_def request_content_file [OF files] and_then_Inr request_done_Inr Let_def
        prod.case sum.inject prod.inject split: if_splits)
  from one have "bytes_strip (take 3 (content d1 ?dir)) = ''out''"
  proof
    assume "ask (WriteFile ?dir ''out'') d = (Done, d1)"
    from sysfs_written(1) [OF files this] show ?thesis by (rule out_read_back)
  qed simp
  moreover have "content d' ?dir = content d1 ?dir"
    by (rule sysfs_written(2) [OF files two gpio_files_differ(3,1)])
  moreover from sysfs_written(1) [OF files two] have "content d' ?act \<in> with_newline (active_low_text low)" .
  ultimately show ?thesis by (simp add: configured_def)
qed

lemma get_gpio_line_configures:
  assumes files: "sysfs_files ask content" and line: "get_gpio_line ask (i, low, ''out'') s = (Inr (), s')"
  shows "(i, low, ''out'') \<in> set (fst s') \<and> configured content i low (snd s')"
proof (cases "(i, low, ''out'') \<in> set (fst s)")
  case True
  with line obtain d where "gpio_configure ask (i, low, ''out'') (snd s) = (Inr (), d)" "s' = (fst s, d)"
    by (auto simp: get_gpio_line_def split: prod.splits)
  with True gpio_configure_configures [OF files] show ?thesis by simp
next
  case False
  with line obtain d where new: "new_gpio_line ask (i, low, ''out'') (snd s) = (Inr (), d)"
    and s': "s' = (fst s @ [(i, low, ''out'')], d)"
    by (auto simp: get_gpio_line_def split: prod.splits sum.splits)
  from new obtain d0 d1 where "gpio_configure ask (i, low, ''out'') d0 = (Inr (), d1)"
    and "ask (OpenFile (gpio_value i) True) d1 = (Done, d)"
    by (auto simp: new_gpio_line_def and_then_Inr request_done_Inr Let_def)
  with gpio_configure_configures [OF files] sysfs_unchanged(2) [OF files] have "configured content i low d"
    by metis
  with s' show ?thesis by simp
qed

lemma gpio_read_back:
  assumes files: "sysfs_files ask content" and set: "gpio_set ask i low (VBool b) s = (Inr (), s')"
  shows "gpio_get ask i low ''out'' s' = (Inr b, s')"
proof -
  let ?k = "(i, low, ''out'')" and ?v = "if b then ''1'' else ''0''"
  obtain r d where w: "request_done OsFailed ask (WriteFile (gpio_value i) ?v) (snd (snd (get_gpio_line ask ?k s))) = (r, d)"
    by fastforce
  from set w obtain s1 where line: "get_gpio_line ask ?k s = (Inr (), s1)" and r: "r = Inr ()" and s': "s' = (fst s1, d)"
    by (auto simp: gpio_set_def and_then_Inr)
  from w line r have w: "ask (WriteFile (gpio_value i) ?v) (snd s1) = (Done, d)" by (simp add: request_done_Inr)
  from get_gpio_line_configures [OF files line] have k: "?k \<in> set (fst s')"
    and conf: "configured content i low (snd s1)" using s' by auto
  have same: "content d q = content (snd s1) q" if "q \<notin> range gpio_value" for q
    using sysfs_written(2) [OF files w, of q] that by blast
  from conf have "configured content i low d"
    unfolding configured_def by (simp only: same [OF gpio_files_differ(1)] same [OF gpio_files_differ(2)])
  from configured_again [OF files this] k s' have "get_gpio_line ask ?k s' = (Inr (), s')"
    by (simp add: get_gpio_line_def)
  moreover from sysfs_written(1) [OF files w] have "content d (gpio_value i) \<in> with_newline ?v" .
  then have "take 1 (content d (gpio_value i)) = ?v" by auto
  ultimately show ?thesis
    by (simp add: gpio_get_def request_content_file [OF files] s')
qed

text \<open>
  A chip as its manual describes it: the pins are read as a byte, the byte that is written is on the
  pins, and nothing else changes them.
\<close>

definition ftdi_chip :: "'d devices \<Rightarrow> ('d \<Rightarrow> int) \<Rightarrow> bool" where
  "ftdi_chip ask pins \<longleftrightarrow>
     (\<forall>d itf. ask (ControlIn 0xC0 12 0 itf 1) d = (Bytes [pins d], d)) \<and>
     (\<forall>itf b d d'. ask (BulkOut itf [b]) d = (Done, d') \<longrightarrow> pins d' = b) \<and>
     (\<forall>q d. (\<forall>itf bs. q \<noteq> BulkOut itf bs) \<longrightarrow> pins (snd (ask q d)) = pins d)"

lemma chip_keeps_pins:
  assumes "ftdi_chip ask pins" and "\<forall>itf bs. q \<noteq> BulkOut itf bs"
  shows "pins (snd (request_done e ask q d)) = pins d" and "pins (snd (request_holds e ask q d)) = pins d"
    and "pins (snd (ask q d)) = pins d"
proof -
  from assms show keep: "pins (snd (ask q d)) = pins d" by (simp add: ftdi_chip_def)
  then show "pins (snd (request_done e ask q d)) = pins d" "pins (snd (request_holds e ask q d)) = pins d"
    by (cases "ask q d"; cases "fst (ask q d)"; simp add: request_done_def request_holds_def)+
qed

lemma detach_keeps_pins:
  assumes chip: "ftdi_chip ask pins"
  shows "pins (snd (detach_kernel_driver ask itf d)) = pins d"
  unfolding detach_kernel_driver_def
  by (rule and_then_keeps [where P = "\<lambda>s. pins s = pins d"]) (auto simp: chip_keeps_pins [OF chip])

lemma ftdi_open_keeps_pins:
  assumes chip: "ftdi_chip ask pins"
  shows "pins (snd (ftdi_open ask l d)) = pins d"
proof -
  note keeps = chip_keeps_pins [OF chip] detach_keeps_pins [OF chip]
  have conf: "pins (snd (case request_done UsbFailed ask ActiveConfiguration s of
      (Inr _, d) \<Rightarrow> (Inr (), d)
    | (Inl _, d) \<Rightarrow> and_then (request_done UsbFailed ask SetConfiguration d) (\<lambda>_ d.
        and_then (detach_kernel_driver ask itf d) (\<lambda>_. request_done UsbFailed ask ActiveConfiguration)))) = pins s" for s itf
  proof -
    obtain r t where r: "request_done UsbFailed ask ActiveConfiguration s = (r, t)" by fastforce
    with keeps(1) [of ActiveConfiguration UsbFailed s] have t: "pins t = pins s" by simp
    have "pins (snd (and_then (request_done UsbFailed ask SetConfiguration t) (\<lambda>_ d.
        and_then (detach_kernel_driver ask itf d) (\<lambda>_. request_done UsbFailed ask ActiveConfiguration)))) = pins s"
      by (intro and_then_keeps [where P = "\<lambda>d. pins d = pins s"]) (simp_all add: keeps t)
    with r t show ?thesis by (cases r) simp_all
  qed
  show ?thesis
    by (auto simp: ftdi_open_def Let_def keeps conf intro!: and_then_keeps [where P = "\<lambda>s. pins s = pins d"])
qed

lemma run_with_device_result:
  assumes chip: "ftdi_chip ask pins" and run: "run_with_device ask l f d = (Inr a, d')"
  obtains d1 d2 where "pins d1 = pins d" "f d1 = (Inr a, d2)" "pins d' = pins d2"
proof -
  from run obtain d1 where opened: "ftdi_open ask l d = (Inr (), d1)"
    and fin: "finally_do (f d1) (ftdi_close ask l) = (Inr a, d')"
    by (auto simp: run_with_device_def and_then_Inr)
  have "pins d1 = pins d" using ftdi_open_keeps_pins [OF chip, of l d] opened by simp
  moreover from fin have "f d1 = (Inr a, snd (f d1))" and d': "d' = ftdi_close ask l (snd (f d1))"
    by (auto simp: finally_do_def prod_eq_iff)
  moreover have "pins d' = pins (snd (f d1))"
    using chip_keeps_pins(3) [OF chip] by (simp add: d' ftdi_close_def)
  ultimately show thesis using that by blast
qed

lemma read_gpio_byte_pins:
  "ftdi_chip ask pins \<Longrightarrow> read_gpio_byte ask l d = (Inr (pins d), d)"
  by (simp add: read_gpio_byte_def request_bytes_def ftdi_chip_def)

lemma ftdi_get_result:
  assumes chip: "ftdi_chip ask pins" and get: "ftdi_get ask l i d = (Inr v, d')"
  shows "0 \<le> i \<and> i \<le> 7 \<and> v = bit (pins d) (nat i) \<and> pins d' = pins d"
  using get unfolding ftdi_get_def
  by (elim run_with_device_result [OF chip])
    (auto simp: read_gpio_byte_pins [OF chip] and_exp_eq_0_iff_not_bit split: if_splits)

lemma ftdi_get_keeps_pins:
  assumes chip: "ftdi_chip ask pins"
  shows "pins (snd (ftdi_get ask l i d)) = pins d"
  unfolding ftdi_get_def run_with_device_def
  by (rule and_then_keeps [where P = "\<lambda>s. pins s = pins d"])
    (auto simp: ftdi_open_keeps_pins [OF chip] finally_do_def ftdi_close_def chip_keeps_pins [OF chip]
      read_gpio_byte_pins [OF chip])

lemma ftdi_set_result:
  assumes chip: "ftdi_chip ask pins" and set: "ftdi_set ask l i b d = (Inr (), d')"
  shows "0 \<le> i \<and> i \<le> 7 \<and> pins d' = with_bit (pins d) (nat i) b"
  using set unfolding ftdi_set_def
proof (elim run_with_device_result [OF chip])
  fix d1 d2
  assume "pins d1 = pins d" and "pins d' = pins d2"
    and run: "(if \<not> (0 \<le> i \<and> i \<le> 7) then (Inl ValueOutOfRange, d1)
      else and_then (read_gpio_byte ask l d1) (\<lambda>b' d.
           and_then (request_done UsbFailed ask (ControlOut 0x40 11 (0xFF OR push_bit 8 1) (fl_interface l) []) d)
             (\<lambda>_. request_done UsbFailed ask (BulkOut (fl_interface l - 1) [with_bit b' (nat i) b])))) = (Inr (), d2)"
  from run have i: "0 \<le> i \<and> i \<le> 7" by (auto split: if_splits)
  with run obtain d3 where "ask (BulkOut (fl_interface l - 1) [with_bit (pins d1) (nat i) b]) d3 = (Done, d2)"
    by (auto simp: read_gpio_byte_pins [OF chip] and_then_Inr request_done_Inr simp del: push_bit_numeral)
  with chip have "pins d2 = with_bit (pins d1) (nat i) b" by (auto simp: ftdi_chip_def)
  with i \<open>pins d1 = pins d\<close> \<open>pins d' = pins d2\<close> show ?thesis by simp
qed

lemma bit_with_bit: "bit (with_bit n i b) j = (if j = i then b else bit n j)"
  by (auto simp: with_bit_def bit_simps)

text \<open>The bytes for an output of the Deditec board, and the check sum of an HID relay.\<close>

lemma output_data_bytes:
  assumes "1 \<le> n" and "n \<le> 8"
  shows "output_data n b = Inr ([0x23, if b then 0x80 else 0xA0, 0, 0, 0, 1, 2 ^ nat (n - 1)] @ replicate 7 0)"
proof -
  have "\<forall>n \<in> set [1..8]. \<forall>b. output_data n b =
      Inr ([0x23, if b then 0x80 else 0xA0, 0, 0, 0, 1, 2 ^ nat (n - 1)] @ replicate 7 0)"
    by code_simp
  with assms show ?thesis by simp
qed

lemma and_255: "x AND 0xFF = x mod 256" for x :: int
  using take_bit_eq_mask [of 8 x] by (simp add: take_bit_eq_mod mask_eq_exp_minus_1)

lemma lcus_request_sum:
  "length (lcus_request n b) = 4" "lcus_request n b ! 3 = sum_list (take 3 (lcus_request n b)) mod 256"
  by (auto simp: lcus_request_def Let_def numeral_eq_Suc and_255)

text \<open>An answer with the sequence number of the request is accepted, and the bit of the output is read.\<close>

lemma relais_get_output_reads:
  assumes "ask (BulkOut 0 (relais_padding @ [n] @ [0x34, 0, 0, 0, 0, 0x0F])) d = (Done, d1)"
    and "ask (BulkIn 0 255) d1 = (Bytes (pre @ [0x1A, n, outputs] @ post), d2)"
    and "0 \<le> n" and "n < 255" and "0x1A \<notin> set pre" and "1 \<le> i" and "0 \<le> outputs"
  shows "relais_get_output ask i (n, d) = (Inr (bit outputs (nat (i - 1))), (n + 1, d2))"
proof -
  have seq: "(n + 1) AND 0xFF = n + 1" using assms(3,4) by (simp add: and_255)
  have pre: "takeWhile (\<lambda>b. b \<noteq> 0x1A) (pre @ 0x1A # n # outputs # post) = pre"
    using assms(5) by (subst takeWhile_append2) auto
  have "after_marker (pre @ [0x1A, n, outputs] @ post) = length pre + 1"
    by (simp add: after_marker_def pre)
  moreover have "0 < outputs AND 2 ^ k \<longleftrightarrow> bit outputs k" for k
  proof -
    have "0 \<le> outputs AND 2 ^ k" using assms(7) by simp
    then have "0 < outputs AND 2 ^ k \<longleftrightarrow> outputs AND 2 ^ k \<noteq> 0" by linarith
    then show ?thesis by (simp add: and_exp_eq_0_iff_not_bit)
  qed
  ultimately show ?thesis
    using assms(1,2,6) seq
    by (simp add: relais_get_output_def relais_write_def relais_read_def request_bytes_def
        request_done_def nth_append push_bit_eq_mult)
qed

end
