(* ===== verification/DigitalOutputs.thy ===== *)
theory DigitalOutputs
  imports AgentModules Proxy
begin

text \<open>
  The drivers for single lines that can be set and read (\<^verbatim>\<open>labgrid/driver/\<close>): GPIOs and relays behind an
  agent, Modbus coils, pins of an LXA IO bus, HTTP services, ETH008 boards, 1-Wire, files, the control
  lines of a serial port, and a person at a switch; with the contract of such an output and what is
  built on it.
\<close>

section \<open>Lines behind an agent\<close>

text \<open>\<^verbatim>\<open>gpiodriver.py\<close>, \<^verbatim>\<open>deditecrelaisdriver.py\<close>, \<^verbatim>\<open>usbhidrelay.py\<close> and \<^verbatim>\<open>ftdigpiodriver.py\<close>.\<close>

datatype output_line =
    GpioLine int bool
  | RelaisLine int int int bool
  | HidLine int int int bool
  | FtdiLine ftdi_line int bool

fun line_module :: "output_line \<Rightarrow> string" where
  "line_module (GpioLine i low) = ''sysfsgpio''"
| "line_module (RelaisLine bus address i invert) = ''deditec_relais8''"
| "line_module (HidLine bus address i invert) = ''usb_hid_relay''"
| "line_module (FtdiLine l i invert) = ''ftdigpio''"

text \<open>The arguments that name the line; a GPIO is inverted by the kernel, the others by the driver.\<close>

fun line_args :: "output_line \<Rightarrow> pyval list" where
  "line_args (GpioLine i low) = [VInt i, VBool low]"
| "line_args (RelaisLine bus address i invert) = [VInt bus, VInt address, VInt i]"
| "line_args (HidLine bus address i invert) = [VInt bus, VInt address, VInt i]"
| "line_args (FtdiLine l i invert) =
     [VInt (fl_vendor l), VInt (fl_model l), VInt (fl_bus l), VInt (fl_address l), VInt (fl_interface l), VInt i]"

fun driver_inverts :: "output_line \<Rightarrow> bool" where
  "driver_inverts (GpioLine i low) = False"
| "driver_inverts (RelaisLine bus address i invert) = invert"
| "driver_inverts (HidLine bus address i invert) = invert"
| "driver_inverts (FtdiLine l i invert) = invert"

type_synonym ('a, 's) driving = "(agent_error, 'a, 's wrapper) outcome"

definition agent_line_set :: "'s interpreter \<Rightarrow> output_line \<Rightarrow> bool \<Rightarrow> 's wrapper \<Rightarrow> (unit, 's) driving" where
  "agent_line_set py l status w =
     and_then (module_call py (line_module l) ''set'' (line_args l @ [VBool (status \<noteq> driver_inverts l)]) [] w)
       (\<lambda>_ w. (Inr (), w))"

definition agent_line_get :: "'s interpreter \<Rightarrow> output_line \<Rightarrow> 's wrapper \<Rightarrow> (pyval, 's) driving" where
  "agent_line_get py l w =
     and_then (module_call py (line_module l) ''get'' (line_args l) [] w) (\<lambda>(v, _) w.
       (Inr (case l of
          GpioLine i low \<Rightarrow> v
        | FtdiLine f i invert \<Rightarrow> VBool (py_true v \<noteq> invert)
        | _ \<Rightarrow> if driver_inverts l then VBool (\<not> py_true v) else v), w))"

text \<open>\<open>GpioDigitalInputDriver.get\<close>.\<close>

definition gpio_input_get :: "'s interpreter \<Rightarrow> int \<Rightarrow> bool \<Rightarrow> 's wrapper \<Rightarrow> (pyval, 's) driving" where
  "gpio_input_get py i low w =
     and_then (module_call py ''sysfsgpio'' ''get'' [VInt i, VBool low, VStr ''in''] [] w) (\<lambda>(v, _) w. (Inr v, w))"

text \<open>
  Activation starts an agent, which is given with the new wrapper, and loads the module;
  deactivation closes the agent.
\<close>

definition agent_line_activate ::
  "'s interpreter \<Rightarrow> (string \<Rightarrow> string option) \<Rightarrow> output_line \<Rightarrow> 's agent \<Rightarrow> (unit, 's) driving" where
  "agent_line_activate py source l a = wrapper_load py source (line_module l) (new_wrapper a)"

definition agent_line_deactivate :: "'s interpreter \<Rightarrow> 's wrapper \<Rightarrow> (unit, 's) driving" where
  "agent_line_deactivate = wrapper_close"


section \<open>Shared agents of FTDI chips\<close>

text \<open>
  Drivers for the lines of one interface share an agent: \<open>_shared_agents\<close> holds for each host, device
  and interface the number of its users. What starting and closing an agent does is not followed
  here; starting may fail.
\<close>

type_synonym shared_key = "string option \<times> int \<times> int \<times> int"

definition acquire_agent :: "bool \<Rightarrow> shared_key \<Rightarrow> (shared_key, int) dict \<Rightarrow> bool \<times> (shared_key, int) dict" where
  "acquire_agent starts k t =
     (case map_of t k of
        Some n \<Rightarrow> (True, AList.update k (n + 1) t)
      | None \<Rightarrow> if starts then (True, AList.update k 1 t) else (False, t))"

definition release_agent :: "shared_key \<Rightarrow> (shared_key, int) dict \<Rightarrow> (shared_key, int) dict" where
  "release_agent k t =
     (case map_of t k of
        None \<Rightarrow> t
      | Some n \<Rightarrow> if n - 1 \<le> 0 then AList.delete k t else AList.update k (n - 1) t)"

text \<open>The host of a driver, with the user of a network service at the same address.\<close>

definition ftdi_host :: "string option \<Rightarrow> (string \<times> string) option \<Rightarrow> string option" where
  "ftdi_host host service =
     (case service of
        Some (address, username) \<Rightarrow>
          (if host = Some address then Some (username @ ''@'' @ address) else host)
      | None \<Rightarrow> host)"


section \<open>Lines that are asked directly\<close>

datatype line_request =
    WriteCoil int bool
  | WriteCoils int "bool list"
  | ReadCoils int int
  | PostForm string "(string \<times> string) list"
  | SendBody string string string
  | GetPage string
  | TcpSend "int list"
  | OneWireWrite string string
  | OneWireRead string
  | SetControlLine string bool
  | GetControlLine string
  | AskUser string

text \<open>
  What comes back: nothing (\<open>None\<close>), a truth value, coils, an HTTP error, a page as JSON or as text,
  bytes, a string.
\<close>

datatype line_answer =
    Nothing
  | Answered bool
  | Coils "bool list"
  | HttpFailure
  | JsonPage pyval
  | TextPage string
  | Received "int list"
  | Word string

datatype line_error = LineFailed | LineHttp | LinePy py_error | LineUnreachable | ConfigInvalid

type_synonym 'd lines = "line_request \<Rightarrow> 'd \<Rightarrow> line_answer \<times> 'd"

type_synonym ('a, 'd) on_line = "(line_error, 'a, 'd) outcome"

definition from_json :: "py_error + 'a \<Rightarrow> 'd \<Rightarrow> ('a, 'd) on_line" where
  "from_json r d = (case r of Inl e \<Rightarrow> (Inl (LinePy e), d) | Inr a \<Rightarrow> (Inr a, d))"

text \<open>\<open>xs[i]\<close>, where a negative index counts from the end.\<close>

definition list_item :: "'a list \<Rightarrow> int \<Rightarrow> py_error + 'a" where
  "list_item xs i =
     (let k = (if i < 0 then i + int (length xs) else i) in
      if 0 \<le> k \<and> k < int (length xs) then Inr (xs ! nat k) else Inl IndexError)"

text \<open>Modbus coils: only \<open>None\<close> counts as an error.\<close>

record modbus_coil =
  mc_coil :: int
  mc_invert :: bool
  mc_multiple :: bool

definition modbus_set :: "'d lines \<Rightarrow> modbus_coil \<Rightarrow> bool \<Rightarrow> 'd \<Rightarrow> (unit, 'd) on_line" where
  "modbus_set dev c status d =
     (let v = (status \<noteq> mc_invert c) in
      case dev (if mc_multiple c then WriteCoils (mc_coil c) [v] else WriteCoil (mc_coil c) v) d of
        (Nothing, d) \<Rightarrow> (Inl LineFailed, d)
      | (_, d) \<Rightarrow> (Inr (), d))"

definition read_coil :: "'d lines \<Rightarrow> bool \<Rightarrow> int \<Rightarrow> int \<Rightarrow> int \<Rightarrow> 'd \<Rightarrow> (bool, 'd) on_line" where
  "read_coil dev invert first n i d =
     (case dev (ReadCoils first n) d of
        (Coils bs, d) \<Rightarrow> and_then (from_json (list_item bs i) d) (\<lambda>b d. (Inr (b \<noteq> invert), d))
      | (_, d) \<Rightarrow> (Inl LineFailed, d))"

definition modbus_get :: "'d lines \<Rightarrow> modbus_coil \<Rightarrow> 'd \<Rightarrow> (bool, 'd) on_line" where
  "modbus_get dev c = read_coil dev (mc_invert c) (mc_coil c) 1 0"

definition waveshare_init :: "modbus_coil \<Rightarrow> int \<Rightarrow> py_error + unit" where
  "waveshare_init c count = (if count \<le> mc_coil c then Inl ValueError else Inr ())"

definition waveshare_get :: "'d lines \<Rightarrow> modbus_coil \<Rightarrow> int \<Rightarrow> 'd \<Rightarrow> (bool, 'd) on_line" where
  "waveshare_get dev c count = read_coil dev (mc_invert c) 0 count (mc_coil c)"

text \<open>Pins of an LXA IO bus, over HTTP.\<close>

definition lxa_url :: "string \<Rightarrow> string \<Rightarrow> string \<Rightarrow> string \<Rightarrow> string" where
  "lxa_url host port node pin = ''http://'' @ host @ '':'' @ port @ ''/nodes/'' @ node @ ''/pins/'' @ pin @ ''/''"

definition lxa_result :: "line_answer \<Rightarrow> 'd \<Rightarrow> (pyval, 'd) on_line" where
  "lxa_result a d =
     (case a of
        JsonPage j \<Rightarrow>
          and_then (from_json (subscript j ''code'') d) (\<lambda>c d.
            if \<not> py_eq c (VInt 0)
            then and_then (from_json (subscript j ''error_message'') d) (\<lambda>_ d. (Inl LineFailed, d))
            else (Inr j, d))
      | HttpFailure \<Rightarrow> (Inl LineHttp, d)
      | _ \<Rightarrow> (Inl LineUnreachable, d))"

definition lxa_set :: "'d lines \<Rightarrow> string \<Rightarrow> bool \<Rightarrow> bool \<Rightarrow> 'd \<Rightarrow> (unit, 'd) on_line" where
  "lxa_set dev url invert status d =
     (let (a, d) = dev (PostForm url [(''value'', if status \<noteq> invert then ''1'' else ''0'')]) d in
      and_then (lxa_result a d) (\<lambda>_ d. (Inr (), d)))"

definition lxa_get :: "'d lines \<Rightarrow> string \<Rightarrow> bool \<Rightarrow> 'd \<Rightarrow> (bool, 'd) on_line" where
  "lxa_get dev url invert d =
     (let (a, d) = dev (GetPage url) d in
      and_then (lxa_result a d) (\<lambda>j d.
      and_then (from_json (subscript j ''result'') d) (\<lambda>v d.
      if py_eq v (VInt 0) \<or> py_eq v (VInt 1) then (Inr (py_true v \<noteq> invert), d) else (Inl LineFailed, d))))"

text \<open>
  HTTP services. A page is compared with a text or matched against a regular expression, where one is
  given; \<open>re.fullmatch\<close> is asked.
\<close>

record http_output =
  ho_url :: string
  ho_asserted :: string
  ho_deasserted :: string
  ho_method :: string
  ho_url_get :: string
  ho_get_asserted :: string
  ho_get_deasserted :: string

definition http_port :: "string \<Rightarrow> int" where
  "http_port url = (if startswith url ''https'' then 443 else 80)"

text \<open>\<open>on_activate\<close> gives the URLs for setting and for reading.\<close>

definition http_activate ::
  "ssh_env \<Rightarrow> string option \<Rightarrow> http_output \<Rightarrow> manager \<Rightarrow> (string \<times> string) proxying" where
  "http_activate env force_proxy c m =
     and_then (get_url env force_proxy (ho_url c) (Some (http_port (ho_url c))) m) (\<lambda>set_url m.
     and_then (if ho_url_get c \<noteq> []
               then get_url env force_proxy (ho_url_get c) (Some (http_port (ho_url_get c))) m
               else (Inr set_url, m)) (\<lambda>read_url m. (Inr (set_url, read_url), m)))"

definition http_set :: "'d lines \<Rightarrow> http_output \<Rightarrow> string \<Rightarrow> bool \<Rightarrow> 'd \<Rightarrow> (unit, 'd) on_line" where
  "http_set dev c url status d =
     (case dev (SendBody (if ho_method c = [] then ''PUT'' else ho_method c) url
             (if status then ho_asserted c else ho_deasserted c)) d of
        (HttpFailure, d) \<Rightarrow> (Inl LineHttp, d)
      | (Nothing, d) \<Rightarrow> (Inl LineUnreachable, d)
      | (_, d) \<Rightarrow> (Inr (), d))"

definition page_matches :: "(string \<Rightarrow> string \<Rightarrow> bool) \<Rightarrow> string \<Rightarrow> string \<Rightarrow> string \<Rightarrow> bool" where
  "page_matches fullmatch pattern content t = (if pattern \<noteq> [] then fullmatch pattern t else t = content)"

definition http_get :: "(string \<Rightarrow> string \<Rightarrow> bool) \<Rightarrow> 'd lines \<Rightarrow> http_output \<Rightarrow> string \<Rightarrow> 'd \<Rightarrow> (bool, 'd) on_line" where
  "http_get fullmatch dev c url d =
     (case dev (GetPage url) d of
        (TextPage t, d) \<Rightarrow>
          (if page_matches fullmatch (ho_get_asserted c) (ho_asserted c) t then (Inr True, d)
           else if page_matches fullmatch (ho_get_deasserted c) (ho_deasserted c) t then (Inr False, d)
           else (Inl LineFailed, d))
      | (HttpFailure, d) \<Rightarrow> (Inl LineHttp, d)
      | (_, d) \<Rightarrow> (Inl LineUnreachable, d))"

text \<open>ETH008 boards: a command, the number of the relay and the time; the state of all relays is one byte.\<close>

definition eth008_relay_set :: "'d lines \<Rightarrow> int \<Rightarrow> bool \<Rightarrow> bool \<Rightarrow> 'd \<Rightarrow> (unit, 'd) on_line" where
  "eth008_relay_set dev i invert status d =
     (if \<not> (1 \<le> i \<and> i \<le> 8) then (Inl (LinePy AssertionError), d)
      else case dev (TcpSend [if status \<noteq> invert then 0x20 else 0x21, i, 0]) d of
        (Received bs, d) \<Rightarrow> (if bs = [0] then Inr () else Inl LineFailed, d)
      | (_, d) \<Rightarrow> (Inl LineUnreachable, d))"

definition eth008_relay_get :: "'d lines \<Rightarrow> int \<Rightarrow> bool \<Rightarrow> 'd \<Rightarrow> (bool, 'd) on_line" where
  "eth008_relay_get dev i invert d =
     (if \<not> (1 \<le> i \<and> i \<le> 8) then (Inl (LinePy AssertionError), d)
      else case dev (TcpSend [0x24]) d of
        (Received (b # _), d) \<Rightarrow> (Inr ((drop_bit (nat (i - 1)) b AND 1 \<noteq> 0) \<noteq> invert), d)
      | (Received [], d) \<Rightarrow> (Inl (LinePy IndexError), d)
      | (_, d) \<Rightarrow> (Inl LineUnreachable, d))"

text \<open>1-Wire: the state is read where \<open>PIO\<close> is replaced in the path.\<close>

fun replaced :: "string \<Rightarrow> string \<Rightarrow> nat \<Rightarrow> string \<Rightarrow> string" where
  "replaced k r n [] = []"
| "replaced k r (Suc n) (c # s) = replaced k r n s"
| "replaced k r 0 (c # s) =
     (if take (length k) (c # s) = k then r @ replaced k r (length k - 1) s else c # replaced k r 0 s)"

definition onewire_init :: "string \<Rightarrow> line_error + unit" where
  "onewire_init path = (if substring ''PIO'' path then Inr () else Inl ConfigInvalid)"

definition onewire_set :: "'d lines \<Rightarrow> string \<Rightarrow> bool \<Rightarrow> bool \<Rightarrow> 'd \<Rightarrow> (unit, 'd) on_line" where
  "onewire_set dev path invert status d =
     (case dev (OneWireWrite path (if status \<noteq> invert then ''1'' else ''0'')) d of (_, d) \<Rightarrow> (Inr (), d))"

definition onewire_get :: "'d lines \<Rightarrow> string \<Rightarrow> bool \<Rightarrow> 'd \<Rightarrow> (bool, 'd) on_line" where
  "onewire_get dev path invert d =
     (case dev (OneWireRead (replaced ''PIO'' ''sensed'' 0 path)) d of
        (Word v, d) \<Rightarrow> (if v = ''0'' \<or> v = ''1'' then Inr ((v = ''1'') \<noteq> invert) else Inl LineFailed, d)
      | (_, d) \<Rightarrow> (Inl LineFailed, d))"

text \<open>The control lines of a serial port.\<close>

definition serial_init :: "string \<Rightarrow> line_error + string" where
  "serial_init signal =
     (let s = map lower signal in if s \<in> {''dtr'', ''rts''} then Inr s else Inl ConfigInvalid)"

definition serial_set :: "'d lines \<Rightarrow> string \<Rightarrow> bool \<Rightarrow> bool \<Rightarrow> 'd \<Rightarrow> (unit, 'd) on_line" where
  "serial_set dev signal invert status d =
     (if signal \<in> {''dtr'', ''rts''} then (Inr (), snd (dev (SetControlLine signal (status \<noteq> invert)) d))
      else (Inr (), d))"

definition serial_get :: "'d lines \<Rightarrow> string \<Rightarrow> bool \<Rightarrow> 'd \<Rightarrow> (bool, 'd) on_line" where
  "serial_get dev signal invert d =
     (if signal \<in> {''dtr'', ''rts''}
      then (case dev (GetControlLine signal) d of
              (Answered b, d) \<Rightarrow> (Inr (b \<noteq> invert), d) | (_, d) \<Rightarrow> (Inl LineUnreachable, d))
      else (Inl (LinePy ValueError), d))"

text \<open>Files: a store of their contents. A file that is no longer there is made again by writing.\<close>

record file_output =
  fo_path :: string
  fo_false :: string
  fo_true :: string

definition file_init :: "file_output \<Rightarrow> (string, string) dict \<Rightarrow> line_error + unit" where
  "file_init c fs = (if map_of fs (fo_path c) = None then Inl ConfigInvalid else Inr ())"

definition file_set :: "file_output \<Rightarrow> bool \<Rightarrow> (string, string) dict \<Rightarrow> (unit, (string, string) dict) on_line" where
  "file_set c status fs = (Inr (), AList.update (fo_path c) (if status then fo_true c else fo_false c) fs)"

definition file_get :: "file_output \<Rightarrow> (string, string) dict \<Rightarrow> (bool, (string, string) dict) on_line" where
  "file_get c fs =
     (case map_of fs (fo_path c) of
        None \<Rightarrow> (Inl LineUnreachable, fs) | Some s \<Rightarrow> (Inr (s = fo_true c), fs))"

text \<open>A person sets the switch; the driver remembers what it asked for.\<close>

definition manual_set ::
  "'d lines \<Rightarrow> string option \<Rightarrow> string \<Rightarrow> string \<Rightarrow> bool \<Rightarrow> bool \<times> 'd \<Rightarrow> (unit, bool \<times> 'd) on_line" where
  "manual_set dev description name target status s =
     (Inr (), (status, snd (dev (AskUser (''Set '' @ (case description of Some t \<Rightarrow> t | None \<Rightarrow> name) @
        '' for target '' @ target @ '' to '' @ (if status then ''ON'' else ''OFF'') @ '' and press enter'')) (snd s))))"

definition manual_get :: "bool \<times> 'd \<Rightarrow> (bool, bool \<times> 'd) on_line" where
  "manual_get s = (Inr (fst s), s)"


section \<open>Built on an output\<close>

text \<open>\<open>DigitalOutputResetDriver.reset\<close>; sleeping does not change the output.\<close>

definition output_reset :: "(bool \<Rightarrow> 's \<Rightarrow> ('e, unit, 's) outcome) \<Rightarrow> 's \<Rightarrow> ('e, unit, 's) outcome" where
  "output_reset set_output s = and_then (set_output True s) (\<lambda>_. set_output False)"

text \<open>\<open>cycle\<close> of a power driver over an output.\<close>

definition output_cycle :: "(bool \<Rightarrow> 's \<Rightarrow> ('e, unit, 's) outcome) \<Rightarrow> 's \<Rightarrow> ('e, unit, 's) outcome" where
  "output_cycle set_output s = and_then (set_output False s) (\<lambda>_. set_output True)"

text \<open>Reading several times.\<close>

fun read_times :: "nat \<Rightarrow> ('s \<Rightarrow> ('e, bool, 's) outcome) \<Rightarrow> 's \<Rightarrow> ('e + bool) list \<times> 's" where
  "read_times 0 get_output s = ([], s)"
| "read_times (Suc n) get_output s =
     (let (r, s1) = get_output s; (rs, s2) = read_times n get_output s1 in (r # rs, s2))"


section \<open>The contract of an output\<close>

text \<open>
  What \<open>DigitalOutputProtocol\<close> promises: after setting, the output shows the state, and reading tells
  what it shows and does not change it. Setting and reading may fail.
\<close>

locale digital_output =
  fixes set_output :: "bool \<Rightarrow> 's \<Rightarrow> ('e, unit, 's) outcome"
    and get_output :: "'s \<Rightarrow> ('e, bool, 's) outcome"
    and lawful :: "'s \<Rightarrow> bool"
    and displays :: "'s \<Rightarrow> bool \<Rightarrow> bool"
  assumes set_displays: "lawful s \<Longrightarrow> set_output b s = (Inr (), s') \<Longrightarrow> lawful s' \<and> displays s' b"
    and get_tells: "lawful s \<Longrightarrow> displays s b \<Longrightarrow> get_output s = (r, s') \<Longrightarrow>
      lawful s' \<and> displays s' b \<and> (\<forall>v. r = Inr v \<longrightarrow> v = b)"
begin

lemma read_times_tells:
  "lawful s \<Longrightarrow> displays s b \<Longrightarrow> read_times n get_output s = (rs, s') \<Longrightarrow>
   displays s' b \<and> (\<forall>v. Inr v \<in> set rs \<longrightarrow> v = b)"
proof (induction n arbitrary: s rs)
  case (Suc n)
  obtain r s1 where get: "get_output s = (r, s1)" by fastforce
  with Suc.prems obtain rs' where rest: "read_times n get_output s1 = (rs', s')" and rs: "rs = r # rs'"
    by (auto split: prod.splits)
  from get_tells [OF Suc.prems(1,2) get] have "lawful s1" "displays s1 b" "\<forall>v. r = Inr v \<longrightarrow> v = b" by auto
  with Suc.IH [OF _ _ rest] rs show ?case by auto
qed simp

lemma reads_last_set:
  "lawful s \<Longrightarrow> set_output b s = (Inr (), s') \<Longrightarrow> read_times n get_output s' = (rs, s'') \<Longrightarrow>
   Inr v \<in> set rs \<Longrightarrow> v = b"
  using set_displays read_times_tells by blast

lemma reset_leaves_off:
  assumes "lawful s" and "output_reset set_output s = (Inr (), s')"
  shows "lawful s' \<and> displays s' False"
proof -
  from assms(2) obtain s1 where "set_output True s = (Inr (), s1)" "set_output False s1 = (Inr (), s')"
    unfolding output_reset_def and_then_Inr by (metis (full_types) old.unit.exhaust)
  with assms(1) show ?thesis using set_displays by metis
qed

lemma cycle_leaves_on:
  assumes "lawful s" and "output_cycle set_output s = (Inr (), s')"
  shows "lawful s' \<and> displays s' True"
proof -
  from assms(2) obtain s1 where "set_output False s = (Inr (), s1)" "set_output True s1 = (Inr (), s')"
    unfolding output_cycle_def and_then_Inr by (metis (full_types) old.unit.exhaust)
  with assms(1) show ?thesis using set_displays by metis
qed

end

text \<open>A file with two different representations, and a switch.\<close>

interpretation file_output: digital_output "file_set c" "file_get c" "\<lambda>fs. fo_true c \<noteq> fo_false c"
  "\<lambda>fs b. map_of fs (fo_path c) = Some (if b then fo_true c else fo_false c)"
  by unfold_locales (auto simp: file_set_def file_get_def split: if_splits)

interpretation manual_switch: digital_output "manual_set dev description name target" manual_get
  "\<lambda>s. True" "\<lambda>s b. fst s = b"
  by unfold_locales (auto simp: manual_set_def manual_get_def)

text \<open>A GPIO of the kernel and a line of an FTDI chip.\<close>

interpretation gpio_line: digital_output "\<lambda>b. gpio_set sysfs i low (VBool b)" "gpio_get sysfs i low ''out''"
  "\<lambda>s. sysfs_files sysfs content" "\<lambda>s b. gpio_get sysfs i low ''out'' s = (Inr b, s)"
  by unfold_locales (use gpio_read_back in \<open>auto\<close>)

interpretation ftdi_pin: digital_output "ftdi_set usb l i" "ftdi_get usb l i" "\<lambda>d. ftdi_chip usb pins"
  "\<lambda>d b. bit (pins d) (nat i) = b"
proof unfold_locales
  fix d b d'
  assume "ftdi_chip usb pins" and "ftdi_set usb l i b d = (Inr (), d')"
  with ftdi_set_result show "ftdi_chip usb pins \<and> bit (pins d') (nat i) = b" by (metis bit_with_bit)
next
  fix d b r d'
  assume chip: "ftdi_chip usb pins" and "bit (pins d) (nat i) = b" and get: "ftdi_get usb l i d = (r, d')"
  moreover have "pins d' = pins d" using ftdi_get_keeps_pins [OF chip, of l i d] get by simp
  ultimately show "ftdi_chip usb pins \<and> bit (pins d') (nat i) = b \<and> (\<forall>v. r = Inr v \<longrightarrow> v = b)"
    using ftdi_get_result [OF chip] by auto
qed

text \<open>
  A bank of coils that answers a write with \<open>True\<close> or not at all, and shows what was written; a board
  of relays whose state is one byte.
\<close>

definition coil_bank :: "'d lines \<Rightarrow> ('d \<Rightarrow> int \<Rightarrow> bool) \<Rightarrow> bool" where
  "coil_bank dev coils \<longleftrightarrow>
     (\<forall>a v q d x d'. q \<in> {WriteCoil a v, WriteCoils a [v]} \<longrightarrow> dev q d = (x, d') \<longrightarrow>
        x = Nothing \<or> x = Answered True \<and> coils d' a = v) \<and>
     (\<forall>a n d. dev (ReadCoils a n) d \<in> {(Coils (map (\<lambda>k. coils d (a + int k)) [0..<nat n]), d), (Nothing, d)})"

definition relay_board :: "'d lines \<Rightarrow> ('d \<Rightarrow> int) \<Rightarrow> bool" where
  "relay_board dev relays \<longleftrightarrow>
     (\<forall>i v d d'. dev (TcpSend [if v then 0x20 else 0x21, i, 0]) d = (Received [0], d') \<longrightarrow>
        relays d' = with_bit (relays d) (nat (i - 1)) v) \<and>
     (\<forall>d. dev (TcpSend [0x24]) d \<in> {(Received [relays d], d), (Nothing, d)})"

lemma modbus_set_writes:
  assumes bank: "coil_bank dev coils" and set: "modbus_set dev c b d = (Inr (), d')"
  shows "coils d' (mc_coil c) = (b \<noteq> mc_invert c)"
proof -
  define v where "v = (b \<noteq> mc_invert c)"
  define q where "q = (if mc_multiple c then WriteCoils (mc_coil c) [v] else WriteCoil (mc_coil c) v)"
  obtain x d1 where q: "dev q d = (x, d1)" by fastforce
  then have run: "modbus_set dev c b d = (case x of Nothing \<Rightarrow> (Inl LineFailed, d1) | _ \<Rightarrow> (Inr (), d1))"
    unfolding modbus_set_def Let_def q_def v_def by (simp only: prod.case)
  from run set have "x \<noteq> Nothing" and d1: "d1 = d'" by (cases x; simp)+
  moreover have "q \<in> {WriteCoil (mc_coil c) v, WriteCoils (mc_coil c) [v]}" by (simp add: q_def)
  ultimately have "coils d' (mc_coil c) = v" using bank q unfolding coil_bank_def by blast
  then show ?thesis by (simp add: v_def)
qed

lemma coil_bank_read:
  assumes "coil_bank dev coils"
  shows "dev (ReadCoils a n) d \<in> {(Coils (map (\<lambda>k. coils d (a + int k)) [0..<nat n]), d), (Nothing, d)}"
proof -
  from assms have "\<forall>a n d. dev (ReadCoils a n) d \<in>
      {(Coils (map (\<lambda>k. coils d (a + int k)) [0..<nat n]), d), (Nothing, d)}"
    unfolding coil_bank_def by (elim conjE)
  then show ?thesis by (elim allE)
qed

interpretation modbus_coil: digital_output "modbus_set dev c" "modbus_get dev c" "\<lambda>d. coil_bank dev coils"
  "\<lambda>d b. coils d (mc_coil c) = (b \<noteq> mc_invert c)"
proof unfold_locales
  fix d b d'
  assume bank: "coil_bank dev coils" and set: "modbus_set dev c b d = (Inr (), d')"
  from bank modbus_set_writes [OF this] show "coil_bank dev coils \<and> coils d' (mc_coil c) = (b \<noteq> mc_invert c)"
    by (rule conjI)
next
  fix d b r d'
  assume bank: "coil_bank dev coils" and "coils d (mc_coil c) = (b \<noteq> mc_invert c)"
    and get: "modbus_get dev c d = (r, d')"
  moreover have "dev (ReadCoils (mc_coil c) 1) d \<in> {(Coils [coils d (mc_coil c)], d), (Nothing, d)}"
    using coil_bank_read [OF bank, of "mc_coil c" 1 d] by simp
  ultimately show "coil_bank dev coils \<and> coils d' (mc_coil c) = (b \<noteq> mc_invert c) \<and> (\<forall>v. r = Inr v \<longrightarrow> v = b)"
    by (auto simp: modbus_get_def read_coil_def list_item_def from_json_def)
qed

lemma eth008_bit: "drop_bit n x AND 1 \<noteq> 0 \<longleftrightarrow> bit x n" for x :: int
  using and_exp_eq_0_iff_not_bit [of "drop_bit n x" 0] by (simp add: bit_drop_bit_eq)

interpretation eth008_relay: digital_output "eth008_relay_set dev i invert" "eth008_relay_get dev i invert"
  "\<lambda>d. relay_board dev relays" "\<lambda>d b. bit (relays d) (nat (i - 1)) = (b \<noteq> invert)"
proof unfold_locales
  fix d b d'
  assume board: "relay_board dev relays" and set: "eth008_relay_set dev i invert b d = (Inr (), d')"
  then have "dev (TcpSend [if b \<noteq> invert then 0x20 else 0x21, i, 0]) d = (Received [0], d')"
    by (auto simp: eth008_relay_set_def split: if_splits prod.splits line_answer.splits)
  with board have "relays d' = with_bit (relays d) (nat (i - 1)) (b \<noteq> invert)"
    unfolding relay_board_def by blast
  with board show "relay_board dev relays \<and> bit (relays d') (nat (i - 1)) = (b \<noteq> invert)"
    by (simp add: bit_with_bit)
next
  fix d b r d'
  assume board: "relay_board dev relays" and "bit (relays d) (nat (i - 1)) = (b \<noteq> invert)"
    and "eth008_relay_get dev i invert d = (r, d')"
  moreover from board have "dev (TcpSend [0x24]) d \<in> {(Received [relays d], d), (Nothing, d)}"
    by (simp add: relay_board_def)
  ultimately show "relay_board dev relays \<and> bit (relays d') (nat (i - 1)) = (b \<noteq> invert) \<and>
      (\<forall>v. r = Inr v \<longrightarrow> v = b)"
    by (auto simp: eth008_relay_get_def eth008_bit split: if_splits)
qed

text \<open>A write that is answered with \<open>False\<close> counts as done.\<close>

lemma modbus_failure_ignored:
  "dev (WriteCoil (mc_coil c) (b \<noteq> mc_invert c)) d = (Answered False, d') \<Longrightarrow> \<not> mc_multiple c \<Longrightarrow>
   modbus_set dev c b d = (Inr (), d')"
  by (simp add: modbus_set_def Let_def)


section \<open>Users of shared agents\<close>

text \<open>The table holds for every interface as many users as there are drivers for it that are active.\<close>

definition counts_users :: "(shared_key, int) dict \<Rightarrow> shared_key list \<Rightarrow> bool" where
  "counts_users t users \<longleftrightarrow>
     map_of t = (\<lambda>k. if count_list users k = 0 then None else Some (int (count_list users k)))"

lemma acquire_counts:
  assumes "counts_users t users" and "acquire_agent starts k t = (True, t')"
  shows "counts_users t' (k # users)"
proof -
  from assms(1) have t: "map_of t = (\<lambda>k. if count_list users k = 0 then None else Some (int (count_list users k)))"
    by (simp add: counts_users_def)
  have "map_of t' x = (if count_list (k # users) x = 0 then None else Some (int (count_list (k # users) x)))" for x
    using assms(2) by (auto simp: acquire_agent_def t split: if_splits)
  then show ?thesis by (simp add: counts_users_def fun_eq_iff)
qed

lemma acquire_failed: "acquire_agent starts k t = (False, t') \<Longrightarrow> t' = t"
  by (auto simp: acquire_agent_def split: option.splits if_splits)

lemma count_list_remove1: "k \<in> set xs \<Longrightarrow> count_list (remove1 k xs) k' = count_list xs k' - (if k' = k then 1 else 0)"
proof (induction xs)
  case (Cons x xs)
  then show ?case using count_list_0_iff [of xs k] by (cases "x = k") (auto simp: Suc_diff_le)
qed simp

lemma release_counts:
  assumes "counts_users t users" and "k \<in> set users"
  shows "counts_users (release_agent k t) (remove1 k users)"
proof -
  from assms(2) have "count_list users k \<noteq> 0" by (simp add: count_list_0_iff)
  with assms(1) show ?thesis
    by (auto simp: counts_users_def release_agent_def fun_eq_iff count_list_remove1 [OF assms(2)]
        simp del: split_paired_All)
qed


section \<open>From the driver to the kernel and back\<close>

lemma gpio_methods_run:
  assumes known: "\<forall>(k, f) \<in> set (gpio_methods sysfs). map_of (ag_methods a) (''sysfsgpio'' @ ''.'' @ k) = Some (MethodEntry f)"
    and w: "wr_process w = Some (a, True)" "wr_files w = []"
  shows "gpio_set sysfs i low (VBool b) (ag_state a) = (r, s) \<Longrightarrow>
      agent_line_set py (GpioLine i low) b w =
        (case r of Inl e \<Rightarrow> Inl (AgentException (without_comma (error_text e))) | Inr _ \<Rightarrow> Inr (),
         w\<lparr>wr_process := Some (a\<lparr>ag_state := s\<rparr>, True), wr_files := []\<rparr>)"
    and "gpio_get sysfs i low ''out'' (ag_state a) = (q, t) \<Longrightarrow>
      agent_line_get py (GpioLine i low) w =
        (case q of Inl e \<Rightarrow> Inl (AgentException (without_comma (error_text e))) | Inr v \<Rightarrow> Inr (VBool v),
         w\<lparr>wr_process := Some (a\<lparr>ag_state := t\<rparr>, True), wr_files := []\<rparr>)"
proof -
  note runs = module_call_runs [OF w, of "''sysfsgpio''" _ _ _ _ _ _ py]
  assume set: "gpio_set sysfs i low (VBool b) (ag_state a) = (r, s)"
  from known obtain f where f: "map_of (ag_methods a) (''sysfsgpio'' @ ''.'' @ ''set'') = Some (MethodEntry f)"
    and "f [VInt i, VBool low, VBool b] [] (ag_state a) =
      ((case r of Inl e \<Rightarrow> Raises (error_text e) | Inr _ \<Rightarrow> Value (Inr VNone)), s)"
    using set by (fastforce simp: gpio_methods_def as_method_def no_value_def and_then_def split: sum.splits)
  from module_call_runs [OF w this] show "agent_line_set py (GpioLine i low) b w =
        (case r of Inl e \<Rightarrow> Inl (AgentException (without_comma (error_text e))) | Inr _ \<Rightarrow> Inr (),
         w\<lparr>wr_process := Some (a\<lparr>ag_state := s\<rparr>, True), wr_files := []\<rparr>)"
    by (cases r) (simp_all add: agent_line_set_def)
next
  assume get: "gpio_get sysfs i low ''out'' (ag_state a) = (q, t)"
  from known obtain f where f: "map_of (ag_methods a) (''sysfsgpio'' @ ''.'' @ ''get'') = Some (MethodEntry f)"
    and "f [VInt i, VBool low] [] (ag_state a) =
      ((case q of Inl e \<Rightarrow> Raises (error_text e) | Inr v \<Rightarrow> Value (Inr (VBool v))), t)"
    using get by (fastforce simp: gpio_methods_def as_method_def truth_value_def and_then_def split: sum.splits)
  from module_call_runs [OF w this] show "agent_line_get py (GpioLine i low) w =
        (case q of Inl e \<Rightarrow> Inl (AgentException (without_comma (error_text e))) | Inr v \<Rightarrow> Inr (VBool v),
         w\<lparr>wr_process := Some (a\<lparr>ag_state := t\<rparr>, True), wr_files := []\<rparr>)"
    by (cases q) (simp_all add: agent_line_get_def)
qed


text \<open>Files that hold what is written to them.\<close>

definition file_store :: "(string \<Rightarrow> string) devices" where
  "file_store q d =
     (case q of
        PathExists p \<Rightarrow> (Holds True, d)
      | ReadFile p \<Rightarrow> (Content (d p), d)
      | WriteFile p v \<Rightarrow> (Done, if d p \<in> with_newline v then d else d(p := v))
      | OpenFile p rw \<Rightarrow> (Done, d)
      | _ \<Rightarrow> (Fails, d))"

lemma file_store_files: "sysfs_files file_store (\<lambda>d. d)"
  unfolding sysfs_files_def file_store_def by (auto split: if_splits)

lemma file_store_sets:
  "gpio_set file_store i low (VBool b) ([], d) = (Inr (), snd (gpio_set file_store i low (VBool b) ([], d)))"
proof -
  have stored: "request_done e file_store (WriteFile p v) d = (Inr (), snd (file_store (WriteFile p v) d))" for e p v d
    by (simp add: request_done_def file_store_def)
  have conf: "gpio_configure file_store k d = (Inr (), snd (gpio_configure file_store k d))" for k d
    by (cases k) (simp add: gpio_configure_def Let_def stored request_content_def file_store_def)
  have "new_gpio_line file_store (i, low, ''out'') d = (Inr (), snd (new_gpio_line file_store (i, low, ''out'') d))"
    using conf [of "(i, low, ''out'')" d]
    by (cases "gpio_configure file_store (i, low, ''out'') d")
      (simp add: new_gpio_line_def assert_exported_def request_holds_def request_done_def file_store_def)
  then show ?thesis
    by (cases "new_gpio_line file_store (i, low, ''out'') d")
      (simp add: gpio_set_def get_gpio_line_def stored split_beta)
qed

definition gpio_python :: "(string \<Rightarrow> string) gpios interpreter" where
  "gpio_python = \<lparr>in_exec = (\<lambda>name x. Inr (gpio_methods file_store)), in_repr = (\<lambda>c x. c)\<rparr>"



definition plain_chip :: "int devices" where
  "plain_chip q d =
     (case q of
        ControlIn t r v x n \<Rightarrow> (Bytes [d], d)
      | BulkOut itf bs \<Rightarrow> (case bs of [b] \<Rightarrow> (Done, b) | _ \<Rightarrow> (Fails, d))
      | FindUsb ks \<Rightarrow> (Holds True, d)
      | KernelDriverActive itf \<Rightarrow> (Holds False, d)
      | HasOutEndpoint itf \<Rightarrow> (Holds True, d)
      | _ \<Rightarrow> (Done, d))"

definition example_line :: ftdi_line where
  "example_line = \<lparr>fl_vendor = 0x0403, fl_model = 0x6014, fl_bus = 1, fl_address = 7, fl_interface = 1\<rparr>"


end
