(* ===== verification/ManagedFiles.thy ===== *)
theory ManagedFiles
  imports SshDriver
begin

text \<open>
  \<^verbatim>\<open>labgrid/util/managedfile.py\<close>: a local file is made available on the host of a resource, by a copy in
  a cache there, or by its own path when both hosts see the same file; and how the commands of a
  resource reach its host (\<^verbatim>\<open>labgrid/resource/common.py\<close>).
\<close>

section \<open>Commands on the host of a resource\<close>

datatype resource_at = LocalResource | NetworkResource string "(string, pyval) dict"

text \<open>\<open>command_prefix\<close>: a resource that requires a proxy is reached through it.\<close>

definition command_prefix :: "ssh_env \<Rightarrow> resource_at \<Rightarrow> manager \<Rightarrow> string list manager_outcome" where
  "command_prefix env res m =
     (case res of
        LocalResource \<Rightarrow> (Inr [], m)
      | NetworkResource host extra \<Rightarrow>
          (case (if (case map_of extra ''proxy_required'' of Some v \<Rightarrow> py_true v | None \<Rightarrow> False)
                 then map_of extra ''proxy'' else Some (VStr host)) of
             Some (VStr h) \<Rightarrow>
               and_then (with_connection env h (conn_get_prefix env) m) (\<lambda>prefix m. (Inr (prefix @ [''--'']), m))
           | _ \<Rightarrow> (Inl (SshPy TypeError), m)))"

text \<open>\<open>wrap_command\<close>: for another host the words are quoted for its shell.\<close>

definition wrap_command :: "ssh_env \<Rightarrow> resource_at \<Rightarrow> string list \<Rightarrow> manager \<Rightarrow> string list manager_outcome" where
  "wrap_command env res cmd m =
     (case res of
        LocalResource \<Rightarrow> (Inr cmd, m)
      | NetworkResource host extra \<Rightarrow>
          and_then (command_prefix env res m) (\<lambda>prefix m. (Inr (prefix @ map quote cmd), m)))"


section \<open>Managed files\<close>

text \<open>
  What is asked of the local host: the real path of a path, whether a file is there, its hash, who
  runs the program, whether it is a Mac, and how a program ends and what it prints.
\<close>

record file_world =
  fw_realpath :: "string \<Rightarrow> string"
  fw_isfile :: "string \<Rightarrow> bool"
  fw_hash :: "string \<Rightarrow> string"
  fw_user :: string
  fw_darwin :: bool
  fw_run :: "string list \<Rightarrow> int \<times> string"

record managed_file =
  mf_local :: string
  mf_resource :: resource_at
  mf_detect_nfs :: bool
  mf_hash :: "string option"
  mf_rpath :: "string option"
  mf_on_nfs :: "bool option"

datatype file_error = FileMissing | NotSymlink | NotSynced | FileSsh ssh_error

datatype link_entry = LinkTo string | OtherEntry

text \<open>The state: the file, the local paths where a link is wanted, and the connections.\<close>

type_synonym file_state = "managed_file \<times> (string, link_entry) dict \<times> manager"

type_synonym 'a filing = "(file_error, 'a, file_state) outcome"

definition new_managed_file :: "file_world \<Rightarrow> string \<Rightarrow> resource_at \<Rightarrow> bool \<Rightarrow> file_error + managed_file" where
  "new_managed_file fw path res detect =
     (let p = fw_realpath fw path in
      if \<not> fw_isfile fw p then Inl FileMissing
      else Inr \<lparr>mf_local = p, mf_resource = res, mf_detect_nfs = detect, mf_hash = None, mf_rpath = None,
        mf_on_nfs = None\<rparr>)"

definition over_ssh :: "(manager \<Rightarrow> 'a manager_outcome) \<Rightarrow> file_state \<Rightarrow> 'a filing" where
  "over_ssh f s =
     (case s of (mf, links, m) \<Rightarrow>
        (case f m of
           (Inl e, m) \<Rightarrow> (Inl (FileSsh e), (mf, links, m))
         | (Inr a, m) \<Rightarrow> (Inr a, (mf, links, m))))"

definition local_dir :: "managed_file \<Rightarrow> string" where
  "local_dir f = dirname (mf_local f) @ ''/''"

definition get_hash :: "file_world \<Rightarrow> managed_file \<Rightarrow> string \<times> managed_file" where
  "get_hash fw f =
     (case mf_hash f of
        Some h \<Rightarrow> (h, f)
      | None \<Rightarrow> (let h = fw_hash fw (mf_local f) in (h, f\<lparr>mf_hash := Some h\<rparr>)))"

definition user_cache_path :: "file_world \<Rightarrow> string" where
  "user_cache_path fw = ''/var/cache/labgrid/'' @ fw_user fw"

text \<open>\<open>_on_nfs\<close>: both hosts see the same file when \<open>stat\<close> tells the same of it.\<close>

definition local_stat :: "file_world \<Rightarrow> string \<Rightarrow> string list" where
  "local_stat fw path =
     (if fw_darwin fw then [''stat'', ''-f'', ''inode=%i,size=%z,modified=%m'', path]
      else [''stat'', ''--format'', ''inode=%i,size=%s,modified=%Y'', path])"

definition remote_stat :: "string \<Rightarrow> string" where
  "remote_stat path = ''stat --format '' @ [CHR 0x27] @ ''inode=%i,size=%s,modified=%Y'' @ [CHR 0x27] @ '' '' @ path"

definition on_nfs :: "file_world \<Rightarrow> ssh_env \<Rightarrow> string \<Rightarrow> file_state \<Rightarrow> bool filing" where
  "on_nfs fw env host s =
     (case s of (f, links, m) \<Rightarrow>
      case mf_on_nfs f of
        Some b \<Rightarrow> (Inr b, s)
      | None \<Rightarrow>
          (if \<not> mf_detect_nfs f then (Inr False, s)
           else (let (n, out) = fw_run fw (local_stat fw (mf_local f)); s = (f\<lparr>mf_on_nfs := Some False\<rparr>, links, m) in
             if n \<noteq> 0 then (Inr False, s)
             else and_then (over_ssh (on_connection host (conn_run env (remote_stat (mf_local f)) False False)) s)
               (\<lambda>(lines, err, n) (f, links, m).
                 if n \<noteq> 0 \<or> lines \<noteq> butlast (split_on (CHR 0x0A) out) then (Inr False, (f, links, m))
                 else (Inr True, (f\<lparr>mf_rpath := Some (local_dir f), mf_on_nfs := Some True\<rparr>, links, m))))))"

definition remote_file_name :: "managed_file \<Rightarrow> string" where
  "remote_file_name f = (case mf_rpath f of Some p \<Rightarrow> p | None \<Rightarrow> ''None'') @ basename (mf_local f)"

definition check_remote :: "ssh_env \<Rightarrow> string \<Rightarrow> string \<Rightarrow> file_state \<Rightarrow> unit filing" where
  "check_remote env host command s =
     and_then (over_ssh (on_connection host (conn_run_check env command False False)) s) (\<lambda>_ s. (Inr (), s))"

text \<open>\<open>sync_to_resource\<close>, first the file and then the link to it.\<close>

definition sync_file :: "file_world \<Rightarrow> ssh_env \<Rightarrow> file_state \<Rightarrow> unit filing" where
  "sync_file fw env s =
     (case mf_resource (fst s) of
        LocalResource \<Rightarrow> (Inr (), ((fst s)\<lparr>mf_rpath := Some (local_dir (fst s))\<rparr>, snd s))
      | NetworkResource host extra \<Rightarrow>
          and_then (over_ssh (manager_get env host) s) (\<lambda>_ s.
          and_then (on_nfs fw env host s) (\<lambda>b (f, links, m).
          if b then (Inr (), (f\<lparr>mf_rpath := Some (local_dir f)\<rparr>, links, m))
          else (let (h, f) = get_hash fw f; dir = user_cache_path fw @ ''/'' @ h @ ''/'';
                    f = f\<lparr>mf_rpath := Some dir\<rparr> in
            and_then (check_remote env host (''mkdir -p '' @ dir) (f, links, m)) (\<lambda>_ s.
            over_ssh (on_connection host (conn_put_file env (mf_local f) (remote_file_name f))) s)))))"

definition link_local :: "string \<Rightarrow> file_state \<Rightarrow> unit filing" where
  "link_local l s =
     (case s of (f, links, m) \<Rightarrow>
      case map_of links l of
        Some OtherEntry \<Rightarrow> (Inl NotSymlink, s)
      | _ \<Rightarrow> (Inr (), (f, AList.update l (LinkTo (remote_file_name f)) links, m)))"

definition link_remote :: "ssh_env \<Rightarrow> string \<Rightarrow> string \<Rightarrow> file_state \<Rightarrow> unit filing" where
  "link_remote env host l s =
     (case check_remote env host (''test ! -e '' @ l @ '' -o -L '' @ l) s of
        (Inl (FileSsh SshExecution), s) \<Rightarrow> (Inl NotSymlink, s)
      | (Inl e, s) \<Rightarrow> (Inl e, s)
      | (Inr _, s) \<Rightarrow> check_remote env host (''ln -sfn '' @ remote_file_name (fst s) @ '' '' @ l) s)"

definition sync_to_resource :: "file_world \<Rightarrow> ssh_env \<Rightarrow> string option \<Rightarrow> file_state \<Rightarrow> unit filing" where
  "sync_to_resource fw env symlink s =
     and_then (sync_file fw env s) (\<lambda>_ s.
     case symlink of
       None \<Rightarrow> (Inr (), s)
     | Some l \<Rightarrow>
         (case mf_resource (fst s) of
            NetworkResource host extra \<Rightarrow> link_remote env host l s
          | LocalResource \<Rightarrow> link_local l s))"

definition get_remote_path :: "managed_file \<Rightarrow> file_error + string" where
  "get_remote_path f =
     (case mf_resource f of
        LocalResource \<Rightarrow> Inr (mf_local f)
      | NetworkResource host extra \<Rightarrow> if mf_rpath f = None then Inl NotSynced else Inr (remote_file_name f))"


section \<open>Where the file is after it was synchronised\<close>

text \<open>An event that has copied a file to a host, and one that has shown that a host has the same file.\<close>

definition copied :: "string \<Rightarrow> string \<Rightarrow> string \<Rightarrow> event \<Rightarrow> bool" where
  "copied local_path host remote_path e \<longleftrightarrow>
     (\<exists>opts out err. e = Ran (opts @ [local_path, host @ '':'' @ remote_path]) (Exited 0 out err))"

definition same_file :: "file_world \<Rightarrow> string \<Rightarrow> event \<Rightarrow> bool" where
  "same_file fw local_path e \<longleftrightarrow>
     (\<exists>opts out err here. e = Ran (opts @ [remote_stat local_path]) (Exited 0 out err) \<and>
        fw_run fw (local_stat fw local_path) = (0, here) \<and> lines_of out = butlast (split_on (CHR 0x0A) here))"

lemma check_connected_Inr:
  "check_connected env g s = (Inr a, s') \<Longrightarrow> \<exists>h. g (fst s, h) = (Inr a, s')"
  by (auto simp: check_connected_def isconnected_def check_keepalive_def and_then_def
      split: if_splits option.splits sum.splits prod.splits)

lemma check_call_Inr:
  "check_call env cmd s = (Inr u, s') \<Longrightarrow>
   fst s' = fst s \<and> (\<exists>out err. snd s' = snd s @ [Ran cmd (Exited 0 out err)])"
  by (auto simp: check_call_def execute_def and_then_def Let_def split: reply.splits if_splits)

lemma conn_put_file_Inr:
  assumes "conn_put_file env l p s = (Inr (), s')"
  shows "fst s' = fst s \<and> (\<exists>h e. snd s' = h @ [e] \<and> copied l (c_host (fst s)) p e)"
proof -
  from assms obtain h where
    "check_call env ([''rsync'', ''--compress'', ''--sparse'', ''--copy-links'', ''--verbose'', ''--progress'',
         ''--times'', ''-e'', join_with '' '' (''ssh'' # ssh_args (fst s)),
         l, c_host (fst s) @ '':'' @ p]) (fst s, h) = (Inr (), s')"
    unfolding conn_put_file_def by (auto dest: check_connected_Inr)
  from check_call_Inr [OF this] show ?thesis
    by (fastforce simp: copied_def intro: exI [of _ "[''rsync'', ''--compress'', ''--sparse'', ''--copy-links'', ''--verbose'', ''--progress'', ''--times'', ''-e'', join_with '' '' (''ssh'' # ssh_args (fst s))]"])
qed

lemma conn_run_Inr:
  assumes "conn_run env cmd tty merge s = (Inr (lines, err, n), s')"
  shows "fst s' = fst s \<and> (\<exists>h opts out e. snd s' = h @ [Ran (opts @ [cmd]) (Exited n out e)] \<and> lines = lines_of out)"
proof -
  from assms obtain h where run: "(let c = ''ssh'' # ssh_args (fst s) @ (if tty then [''-tt''] else []) @ [c_host (fst s), cmd];
         a = answer env h c in
     (case a of
        Exited n out err \<Rightarrow> Inr (lines_of out, if merge then [] else lines_of err, n)
      | _ \<Rightarrow> Inl SshExecution, fst s, h @ [Ran c a])) = (Inr (lines, err, n), s')"
    unfolding conn_run_def by (auto dest!: check_connected_Inr)
  let ?opts = "''ssh'' # ssh_args (fst s) @ (if tty then [''-tt''] else []) @ [c_host (fst s)]"
  from run obtain out e where "answer env h (?opts @ [cmd]) = Exited n out e" "lines = lines_of out"
    "s' = (fst s, h @ [Ran (?opts @ [cmd]) (Exited n out e)])"
    by (auto simp: Let_def split: reply.splits)
  then show ?thesis by (intro conjI exI [of _ h] exI [of _ ?opts] exI [of _ out] exI [of _ e]) simp_all
qed

lemma on_connection_Inr:
  assumes "over_ssh (on_connection host g) (f, links, m) = (Inr a, s')"
  obtains c c' h where "map_of (fst m) host = Some c" "g (c, snd m) = (Inr a, c', h)"
    "s' = (f, links, AList.update host c' (fst m), h)"
  using assms by (auto simp: over_ssh_def on_connection_def split: option.splits prod.splits sum.splits)

lemma on_nfs_Inr:
  assumes "on_nfs fw env host (f, links, m) = (Inr b, s')" and "mf_on_nfs f = None"
  obtains g m' where "\<not> b" "s' = (g, links, m')" "g \<in> {f, f\<lparr>mf_on_nfs := Some False\<rparr>}"
  | c e h where "b" "s' = (f\<lparr>mf_rpath := Some (local_dir f), mf_on_nfs := Some True\<rparr>, links,
      AList.update host c (fst m), h @ [e])" "same_file fw (mf_local f) e"
proof (cases "mf_detect_nfs f \<and> fst (fw_run fw (local_stat fw (mf_local f))) = 0")
  case False
  with assms have "\<not> b" and "s' \<in> {(f, links, m), (f\<lparr>mf_on_nfs := Some False\<rparr>, links, m)}"
    by (auto simp: on_nfs_def Let_def split: if_splits prod.splits)
  with that(1) show thesis by blast
next
  case True
  then obtain here where run: "fw_run fw (local_stat fw (mf_local f)) = (0, here)" by (metis prod.collapse)
  let ?f = "f\<lparr>mf_on_nfs := Some False\<rparr>"
  let ?ask = "over_ssh (on_connection host (conn_run env (remote_stat (mf_local f)) False False)) (?f, links, m)"
  have nfs: "on_nfs fw env host (f, links, m) = and_then ?ask (\<lambda>(lines, err, n) (f, links, m).
      if n \<noteq> 0 \<or> lines \<noteq> butlast (split_on (CHR 0x0A) here) then (Inr False, (f, links, m))
      else (Inr True, (f\<lparr>mf_rpath := Some (local_dir f), mf_on_nfs := Some True\<rparr>, links, m)))"
    using True run assms(2) by (simp add: on_nfs_def)
  obtain x where "?ask = x" by blast
  with nfs assms(1) obtain lines err n f1 links1 m1 where stat: "?ask = (Inr (lines, err, n), (f1, links1, m1))"
    by (cases x; cases "fst x") auto
  with nfs assms(1) have res: "(if n \<noteq> 0 \<or> lines \<noteq> butlast (split_on (CHR 0x0A) here) then (Inr False, (f1, links1, m1))
      else (Inr True, (f1\<lparr>mf_rpath := Some (local_dir f1), mf_on_nfs := Some True\<rparr>, links1, m1))) = (Inr b :: file_error + bool, s')"
    by (simp only: and_then_simps prod.case)
  from stat obtain c c' h where conn: "conn_run env (remote_stat (mf_local f)) False False (c, snd m) = (Inr (lines, err, n), c', h)"
    and s1: "(f1, links1, m1) = (?f, links, AList.update host c' (fst m), h)"
    by (rule on_connection_Inr)
  show thesis
  proof (cases "n \<noteq> 0 \<or> lines \<noteq> butlast (split_on (CHR 0x0A) here)")
    case True
    with res s1 have "\<not> b" "s' = (?f, links, AList.update host c' (fst m), h)" by simp_all
    from that(1) [OF this] show thesis by simp
  next
    case False
    from conn_run_Inr [OF conn] obtain h0 opts out e where
      "h = h0 @ [Ran (opts @ [remote_stat (mf_local f)]) (Exited n out e)]" "lines = lines_of out" by auto
    with False run have "h = h0 @ [Ran (opts @ [remote_stat (mf_local f)]) (Exited n out e)]"
      "same_file fw (mf_local f) (Ran (opts @ [remote_stat (mf_local f)]) (Exited n out e))"
      by (simp_all add: same_file_def)
    moreover from False res s1 have b "s' = (f\<lparr>mf_rpath := Some (local_dir f), mf_on_nfs := Some True\<rparr>, links,
        AList.update host c' (fst m), h)"
      by (simp_all add: local_dir_def)
    ultimately show thesis by (metis that(2))
  qed
qed


definition example_world :: file_world where
  "example_world = \<lparr>fw_realpath = (\<lambda>p. p), fw_isfile = (\<lambda>p. True), fw_hash = (\<lambda>p. ''abc''), fw_user = ''me'',
     fw_darwin = False, fw_run = (\<lambda>c. (1, []))\<rparr>"

definition quiet_env :: ssh_env where
  "quiet_env = \<lparr>answer = (\<lambda>h c. Exited 0 [] []), spawnable = (\<lambda>h c. True), running = (\<lambda>h k. True),
     ends_in_time = (\<lambda>h. True), port_free = (\<lambda>h. 5000), path_exists = (\<lambda>h p. True), temporary = (\<lambda>h. ''/tmp/x''),
     connect_timeout_var = None, clock = (\<lambda>h. real (length h))\<rparr>"


end
