(* ===== verification/Storage.thy ===== *)
theory Storage
  imports ManagedFiles
begin

text \<open>
  \<^verbatim>\<open>labgrid/driver/usbstoragedriver.py\<close>: images and files are written to a USB storage device at the
  host of its resource, with the agent module \<^verbatim>\<open>labgrid/util/agents/udisks2.py\<close> for mounting. The module
  is called directly, which is what calling it through its agent comes to (\<open>Agents\<close>). Programs are
  answered by the environment of \<open>Ssh\<close>, the udisks service by a function of its state.
\<close>

section \<open>Mounting\<close>

datatype udisks_request = LookFor string | MountAt string | Unmount string bool

datatype udisks_answer =
    NoBlockDevice | NoFilesystem | FoundFilesystem | Mounted string | AlreadyMounted | NotMounted | DeviceBusy |
    OtherFailure | Unmounted

datatype mount_error = NoUdisksDevice | WithoutFilesystem | GlibFailed | BusyTooLong

type_synonym 'u udisks = "udisks_request \<Rightarrow> 'u \<Rightarrow> udisks_answer \<times> 'u"

text \<open>The module keeps the devices that it has found.\<close>

type_synonym ('a, 'u) mounting = "(mount_error, 'a, string list \<times> 'u) outcome"

definition ask_udisks :: "'u udisks \<Rightarrow> udisks_request \<Rightarrow> string list \<times> 'u \<Rightarrow> udisks_answer \<times> (string list \<times> 'u)" where
  "ask_udisks ud q s = (case ud q (snd s) of (x, u) \<Rightarrow> (x, (fst s, u)))"

fun find_udisks :: "nat \<Rightarrow> 'u udisks \<Rightarrow> string \<Rightarrow> string list \<times> 'u \<Rightarrow> (unit, 'u) mounting" where
  "find_udisks n ud dev s =
     (case ask_udisks ud (LookFor dev) s of
        (FoundFilesystem, s) \<Rightarrow> (Inr (), (fst s @ [dev], snd s))
      | (NoFilesystem, s) \<Rightarrow> (Inl WithoutFilesystem, s)
      | (_, s) \<Rightarrow> (case n of 0 \<Rightarrow> (Inl NoUdisksDevice, s) | Suc n \<Rightarrow> find_udisks n ud dev s))"

declare find_udisks.simps [simp del]

definition get_udisks2_dev :: "'u udisks \<Rightarrow> string \<Rightarrow> nat \<Rightarrow> string list \<times> 'u \<Rightarrow> (unit, 'u) mounting" where
  "get_udisks2_dev ud dev retries s = (if dev \<in> set (fst s) then (Inr (), s) else find_udisks retries ud dev s)"

definition unmount_lazy :: "'u udisks \<Rightarrow> string \<Rightarrow> string list \<times> 'u \<Rightarrow> (unit, 'u) mounting" where
  "unmount_lazy ud dev s =
     (case ask_udisks ud (Unmount dev True) s of
        (Unmounted, s) \<Rightarrow> (Inr (), s) | (NotMounted, s) \<Rightarrow> (Inr (), s) | (_, s) \<Rightarrow> (Inl GlibFailed, s))"

fun unmount_waiting :: "nat \<Rightarrow> 'u udisks \<Rightarrow> string \<Rightarrow> string list \<times> 'u \<Rightarrow> (unit, 'u) mounting" where
  "unmount_waiting 0 ud dev s = (Inl BusyTooLong, s)"
| "unmount_waiting (Suc n) ud dev s =
     (case ask_udisks ud (Unmount dev False) s of
        (Unmounted, s) \<Rightarrow> (Inr (), s)
      | (DeviceBusy, s) \<Rightarrow> unmount_waiting n ud dev s
      | (_, s) \<Rightarrow> (Inl GlibFailed, s))"

text \<open>A device that is mounted already is unmounted and mounted again.\<close>

definition mount_device :: "'u udisks \<Rightarrow> string \<Rightarrow> string list \<times> 'u \<Rightarrow> (string, 'u) mounting" where
  "mount_device ud dev s =
     (case ask_udisks ud (MountAt dev) s of
        (Mounted p, s) \<Rightarrow> (Inr p, s)
      | (AlreadyMounted, s) \<Rightarrow>
          and_then (unmount_lazy ud dev s) (\<lambda>_ s.
            case ask_udisks ud (MountAt dev) s of
              (Mounted p, s) \<Rightarrow> (Inr p, s) | (_, s) \<Rightarrow> (Inl GlibFailed, s))
      | (_, s) \<Rightarrow> (Inl GlibFailed, s))"

definition handle_mount :: "'u udisks \<Rightarrow> string \<Rightarrow> nat \<Rightarrow> string list \<times> 'u \<Rightarrow> (string, 'u) mounting" where
  "handle_mount ud dev retries s = and_then (get_udisks2_dev ud dev retries s) (\<lambda>_. mount_device ud dev)"

definition handle_unmount :: "'u udisks \<Rightarrow> string \<Rightarrow> bool \<Rightarrow> string list \<times> 'u \<Rightarrow> (unit, 'u) mounting" where
  "handle_unmount ud dev lazily s =
     and_then (get_udisks2_dev ud dev 0 s) (\<lambda>_ s.
       if lazily then unmount_lazy ud dev s else unmount_waiting 5 ud dev s)"


section \<open>The driver\<close>

datatype storage_error =
    StorageExecution
  | StorageFile file_error
  | StorageMount mount_error
  | StorageProgram
  | StoragePy py_error

record storage =
  st_resource :: resource_at
  st_path :: string
  st_image :: "string option"

text \<open>The state: udisks and the devices its module knows, and the connections with the history of programs.\<close>

type_synonym 'u storage_state = "(string list \<times> 'u) \<times> manager"

type_synonym ('a, 'u) storing = "(storage_error, 'a, 'u storage_state) outcome"

definition via_ssh :: "(manager \<Rightarrow> 'a manager_outcome) \<Rightarrow> 'u storage_state \<Rightarrow> ('a, 'u) storing" where
  "via_ssh f s =
     (case f (snd s) of (Inl e, m) \<Rightarrow> (Inl (StorageFile (FileSsh e)), (fst s, m)) | (Inr a, m) \<Rightarrow> (Inr a, (fst s, m)))"

definition via_udisks :: "(string list \<times> 'u \<Rightarrow> ('a, 'u) mounting) \<Rightarrow> 'u storage_state \<Rightarrow> ('a, 'u) storing" where
  "via_udisks f s =
     (case f (fst s) of (Inl e, u) \<Rightarrow> (Inl (StorageMount e), (u, snd s)) | (Inr a, u) \<Rightarrow> (Inr a, (u, snd s)))"

text \<open>A program that is run to its end, with its exit status and output.\<close>

definition run_storage :: "ssh_env \<Rightarrow> string list \<Rightarrow> 'u storage_state \<Rightarrow> (int \<times> string, 'u) storing" where
  "run_storage env cmd s =
     (let h = snd (snd s); a = answer env h cmd in
      (case a of Exited n out err \<Rightarrow> Inr (n, out) | _ \<Rightarrow> Inl StorageProgram,
       (fst s, (fst (snd s), h @ [Ran cmd a]))))"

definition checked_output :: "ssh_env \<Rightarrow> string list \<Rightarrow> 'u storage_state \<Rightarrow> (unit, 'u) storing" where
  "checked_output env cmd s =
     and_then (run_storage env cmd s) (\<lambda>(n, out) s. (if n = 0 then Inr () else Inl StorageProgram, s))"

text \<open>A file is made available with its own object; the remote path is what the caller wants.\<close>

definition sync_path :: "file_world \<Rightarrow> ssh_env \<Rightarrow> resource_at \<Rightarrow> string \<Rightarrow> 'u storage_state \<Rightarrow> (string, 'u) storing" where
  "sync_path fw env res path s =
     (case new_managed_file fw path res True of
        Inl e \<Rightarrow> (Inl (StorageFile e), s)
      | Inr f \<Rightarrow>
          (case sync_to_resource fw env None (f, [], snd s) of
             (Inl e, (f, l, m)) \<Rightarrow> (Inl (StorageFile e), (fst s, m))
           | (Inr _, (f, l, m)) \<Rightarrow>
               (case get_remote_path f of
                  Inl e \<Rightarrow> (Inl (StorageFile e), (fst s, m)) | Inr p \<Rightarrow> (Inr p, (fst s, m)))))"

definition get_devpath :: "storage \<Rightarrow> int option \<Rightarrow> string" where
  "get_devpath d part = st_path d @ (case part of None \<Rightarrow> [] | Some n \<Rightarrow> show_int n)"

text \<open>The size is 0 as long as there is no file for the device or it is empty.\<close>

definition storage_size :: "ssh_env \<Rightarrow> storage \<Rightarrow> int option \<Rightarrow> 'u storage_state \<Rightarrow> (int, 'u) storing" where
  "storage_size env d part s =
     and_then (via_ssh (wrap_command env (st_resource d)
       [''cat'', ''/sys/class/block/'' @ drop 5 (get_devpath d part) @ ''/size'']) s) (\<lambda>cmd s.
     and_then (run_storage env cmd s) (\<lambda>(n, out) s.
       (Inr (if n \<noteq> 0 then 0 else case py_int 10 out of Inl e \<Rightarrow> 0 | Inr k \<Rightarrow> k * 512), s)))"

text \<open>The loop of \<open>_wait_for_medium\<close>, with fuel for its rounds.\<close>

fun await_medium :: "nat \<Rightarrow> ssh_env \<Rightarrow> storage \<Rightarrow> int option \<Rightarrow> real \<Rightarrow> 'u storage_state \<Rightarrow> (unit, 'u) storing option" where
  "await_medium 0 env d part deadline s = None"
| "await_medium (Suc n) env d part deadline s =
     (if deadline \<le> clock env (snd (snd s)) then Some (Inl StorageExecution, s)
      else case storage_size env d part s of
        (Inl e, s) \<Rightarrow> Some (Inl e, s)
      | (Inr k, s) \<Rightarrow>
          if 0 < k then Some (Inr (), s)
          else await_medium n env d part deadline (fst s, (fst (snd s), snd (snd s) @ [Slept (1 / 2)])))"

definition wait_for_medium :: "ssh_env \<Rightarrow> storage \<Rightarrow> int option \<Rightarrow> 'u storage_state \<Rightarrow> (unit, 'u) storing option" where
  "wait_for_medium env d part s = await_medium 21 env d part (clock env (snd (snd s)) + 10) s"

definition after_waiting ::
  "('a, 'u) storing option \<Rightarrow> ('a \<Rightarrow> 'u storage_state \<Rightarrow> ('b, 'u) storing) \<Rightarrow> ('b, 'u) storing option" where
  "after_waiting r k = map_option (\<lambda>m. and_then m k) r"


section \<open>Writing an image\<close>

datatype write_mode = ModeDD | ModeBmaptool | OtherMode

text \<open>\<open>os.path.splitext\<close>: leading dots belong to the name.\<close>

definition splitext :: "string \<Rightarrow> string \<times> string" where
  "splitext p =
     (let name = dropWhile (\<lambda>c. c = CHR ''.'') (basename p);
          ext = CHR ''.'' # rev (takeWhile (\<lambda>c. c \<noteq> CHR ''.'') (rev name)) in
      if CHR ''.'' \<in> set name then (take (length p - length ext) p, ext) else (p, []))"

text \<open>The block map file: of the image itself, or of what its name is without extensions.\<close>

function find_bmap :: "(string \<Rightarrow> bool) \<Rightarrow> string \<Rightarrow> string option" where
  "find_bmap there p =
     (if there (p @ ''.bmap'') then Some (p @ ''.bmap'')
      else if snd (splitext p) = [] then None else find_bmap there (fst (splitext p)))"
  by auto

termination
proof (relation "measure (length \<circ> snd)")
  fix there :: "string \<Rightarrow> bool" and p :: string
  assume "snd (splitext p) \<noteq> []"
  then have "basename p \<noteq> []" by (auto simp: splitext_def Let_def split: if_splits)
  then have "p \<noteq> []" by (auto simp: basename_def)
  then show "((there, fst (splitext p)), there, p) \<in> measure (length \<circ> snd)"
    using \<open>snd (splitext p) \<noteq> []\<close> by (auto simp: splitext_def Let_def split: if_splits)
qed simp

declare find_bmap.simps [simp del]

definition dd_args :: "string \<Rightarrow> string \<Rightarrow> int \<Rightarrow> int \<Rightarrow> string list" where
  "dd_args path dev skip seek =
     [''dd'', ''if='' @ path, ''of='' @ dev, ''oflag=direct'', ''status=progress'',
      ''bs='' @ (if skip \<noteq> 0 \<or> seek \<noteq> 0 then ''512'' else ''4M''),
      ''skip='' @ show_int skip, ''seek='' @ show_int seek, ''conv=fdatasync'']"

definition bmap_args :: "string \<Rightarrow> string \<Rightarrow> string option \<Rightarrow> string list" where
  "bmap_args path dev bmap =
     [''bmaptool'', ''copy'', path, dev, (case bmap of None \<Rightarrow> ''--nobmap'' | Some b \<Rightarrow> ''--bmap='' @ b)]"

text \<open>The image of the configuration is looked up by its key.\<close>

definition chosen_image :: "(string \<Rightarrow> py_error + string) \<Rightarrow> storage \<Rightarrow> string option \<Rightarrow> py_error + string" where
  "chosen_image image_path d filename =
     and_result (case (filename, st_image d) of
         (None, Some i) \<Rightarrow> and_result (image_path i) (\<lambda>p. Inr (Some p))
       | _ \<Rightarrow> Inr filename)
       (\<lambda>f. if truthy f then Inr (the f) else Inl AssertionError)"

definition write_image ::
  "file_world \<Rightarrow> ssh_env \<Rightarrow> (string \<Rightarrow> py_error + string) \<Rightarrow> storage \<Rightarrow> string option \<Rightarrow> write_mode \<Rightarrow> int option \<Rightarrow>
   int \<Rightarrow> int \<Rightarrow> 'u storage_state \<Rightarrow> (unit, 'u) storing option"
where
  "write_image fw env image_path d filename mode part skip seek s =
     (case chosen_image image_path d filename of
        Inl e \<Rightarrow> Some (Inl (StoragePy e), s)
      | Inr file_name \<Rightarrow>
          (case sync_path fw env (st_resource d) file_name s of
             (Inl e, s) \<Rightarrow> Some (Inl e, s)
           | (Inr path, s) \<Rightarrow>
               after_waiting (wait_for_medium env d part s) (\<lambda>_ s.
               let dev = get_devpath d part in
               and_then (case mode of
                   ModeDD \<Rightarrow> (Inr (dd_args path dev skip seek), s)
                 | ModeBmaptool \<Rightarrow>
                     (if skip \<noteq> 0 \<or> seek \<noteq> 0 then (Inl StorageExecution, s)
                      else (case find_bmap (path_exists env (snd (snd s))) file_name of
                          None \<Rightarrow> (Inr (bmap_args path dev None), s)
                        | Some b \<Rightarrow> and_then (sync_path fw env (st_resource d) b s) (\<lambda>q s.
                            (Inr (bmap_args path dev (Some q)), s))))
                 | OtherMode \<Rightarrow> (Inl (StoragePy ValueError), s)) (\<lambda>args s.
               and_then (via_ssh (command_prefix env (st_resource d)) s) (\<lambda>prefix s.
               checked_output env (prefix @ args) s)))))"


section \<open>Writing files\<close>

text \<open>\<open>pathlib.PurePath\<close>: the parts of a path, and a path from its root and parts.\<close>

definition pure_parts :: "string \<Rightarrow> string list" where
  "pure_parts p = filter (\<lambda>c. c \<noteq> [] \<and> c \<noteq> ''.'') (split_on (CHR ''/'') p)"

definition pure_join :: "string \<Rightarrow> string \<Rightarrow> string" where
  "pure_join p q =
     (let t = replicate (initial_slashes p) (CHR ''/'') @ join_with ''/'' (pure_parts p @ pure_parts q) in
      if t = [] then ''.'' else t)"

text \<open>The files are synchronised one after the other.\<close>

fun sync_all :: "file_world \<Rightarrow> ssh_env \<Rightarrow> resource_at \<Rightarrow> string list \<Rightarrow> 'u storage_state \<Rightarrow> (string list, 'u) storing" where
  "sync_all fw env res [] s = (Inr [], s)"
| "sync_all fw env res (f # fs) s =
     and_then (sync_path fw env res f s) (\<lambda>p s.
     and_then (sync_all fw env res fs s) (\<lambda>ps s. (Inr (p # ps), s)))"

definition copy_files ::
  "file_world \<Rightarrow> ssh_env \<Rightarrow> storage \<Rightarrow> string list \<Rightarrow> string \<Rightarrow> bool \<Rightarrow> 'u storage_state \<Rightarrow> (unit, 'u) storing" where
  "copy_files fw env d sources path is_dir s =
     and_then (sync_all fw env (st_resource d) sources s) (\<lambda>ps s.
     and_then (if is_dir then (Inr ([''cp'', ''-t'', path] @ ps), s)
               else if length sources \<noteq> 1 then (Inl (StoragePy ValueError), s)
               else (Inr [''cp'', ''-T'', hd ps, path], s)) (\<lambda>args s.
     and_then (via_ssh (wrap_command env (st_resource d) args) s) (\<lambda>cmd s.
     checked_output env cmd s)))"

text \<open>Whatever raises while the device is mounted, it is unmounted lazily before the exception goes on.\<close>

definition unmount_after :: "'u udisks \<Rightarrow> string \<Rightarrow> (unit, 'u) storing \<Rightarrow> (unit, 'u) storing" where
  "unmount_after ud dev outcome =
     (case and_then outcome (\<lambda>_. via_udisks (handle_unmount ud dev False)) of
        (Inr u, s) \<Rightarrow> (Inr u, s)
      | (Inl e, s) \<Rightarrow> and_then (via_udisks (handle_unmount ud dev True) s) (\<lambda>_ s. (Inl e, s)))"

definition write_files ::
  "'u udisks \<Rightarrow> file_world \<Rightarrow> ssh_env \<Rightarrow> storage \<Rightarrow> string list \<Rightarrow> string \<Rightarrow> int option \<Rightarrow> bool \<Rightarrow>
   'u storage_state \<Rightarrow> (unit, 'u) storing option"
where
  "write_files ud fw env d sources target part is_dir s =
     after_waiting (wait_for_medium env d part s) (\<lambda>_ s.
     let dev = get_devpath d part in
     and_then (via_udisks (handle_mount ud dev 5) s) (\<lambda>mount_path s.
     unmount_after ud dev (copy_files fw env d sources (pure_join mount_path target) is_dir s)))"


section \<open>Waiting for a medium ends\<close>

lemma wrap_command_later:
  assumes "clock_runs env" and "x \<le> clock env (snd m)"
  shows "x \<le> clock env (snd (snd (wrap_command env res cmd m)))"
proof -
  have prefix: "x \<le> clock env (snd (snd (command_prefix env res m)))"
    unfolding command_prefix_def using assms(2) get_prefix_later [OF assms]
    by (auto split: resource_at.split option.splits pyval.splits
        intro!: and_then_keeps [where P = "\<lambda>m. x \<le> clock env (snd m)"])
  then show ?thesis
    unfolding wrap_command_def using assms(2)
    by (auto split: resource_at.split intro!: and_then_keeps [where P = "\<lambda>m. x \<le> clock env (snd m)"])
qed

lemma storage_size_later:
  assumes "clock_runs env"
  shows "clock env (snd (snd s)) \<le> clock env (snd (snd (snd (storage_size env d part s))))"
proof -
  let ?P = "\<lambda>t. clock env (snd (snd s)) \<le> clock env (snd (snd t))"
  have "?P (snd (via_ssh (wrap_command env res cmd) s))" for res cmd
    using wrap_command_later [OF assms order_refl, of "snd s" res cmd]
    by (auto simp: via_ssh_def split: prod.splits sum.splits)
  moreover have "?P t \<Longrightarrow> ?P (snd (run_storage env cmd t))" for t :: "'a storage_state" and cmd
    by (simp add: run_storage_def Let_def later [OF assms])
  ultimately show ?thesis
    unfolding storage_size_def
    by (intro and_then_keeps [where P = ?P]) (auto intro!: and_then_keeps [where P = ?P])
qed

lemma await_medium_ends:
  assumes "clock_runs env"
  shows "deadline - clock env (snd (snd s)) \<le> (real n - 1) / 2 \<Longrightarrow> 1 \<le> n \<Longrightarrow>
    await_medium n env d part deadline s \<noteq> None"
proof (induction n arbitrary: s)
  case (Suc n)
  show ?case
  proof (cases "deadline \<le> clock env (snd (snd s))")
    case False
    obtain r t where size: "storage_size env d part s = (r, t)" by (meson surj_pair)
    let ?t = "(fst t, (fst (snd t), snd (snd t) @ [Slept (1 / 2)]))"
    have "clock env (snd (snd s)) \<le> clock env (snd (snd t))"
      using storage_size_later [OF assms, of s d part] size by simp
    moreover have "clock env (snd (snd t)) + 1 / 2 \<le> clock env (snd (snd ?t))"
      using assms by (simp add: clock_runs_def)
    ultimately have "1 \<le> n" and "deadline - clock env (snd (snd ?t)) \<le> (real n - 1) / 2"
      using Suc.prems False by (cases n; simp)+
    from Suc.IH [OF this(2) this(1)] size False show ?thesis
      by (simp del: not_None_eq split: sum.split)
  qed simp
qed simp

lemma wait_for_medium_ends: "clock_runs env \<Longrightarrow> wait_for_medium env d part s \<noteq> None"
  unfolding wait_for_medium_def by (rule await_medium_ends) simp_all


section \<open>What is asked of udisks\<close>

text \<open>Udisks is asked with the log of earlier requests, and whether a mount of ours is left on a device.\<close>

type_synonym udisks_log = "(udisks_request \<times> udisks_answer) list"

definition udisks_with_log :: "(udisks_log \<Rightarrow> udisks_request \<Rightarrow> udisks_answer) \<Rightarrow> udisks_log udisks" where
  "udisks_with_log ans q h = (ans h q, h @ [(q, ans h q)])"

fun is_mounted :: "string \<Rightarrow> bool \<Rightarrow> udisks_log \<Rightarrow> bool" where
  "is_mounted dev b [] = b"
| "is_mounted dev b ((MountAt d, Mounted p) # h) = is_mounted dev (b \<or> d = dev) h"
| "is_mounted dev b ((Unmount d lazily, Unmounted) # h) = is_mounted dev (b \<and> d \<noteq> dev) h"
| "is_mounted dev b ((Unmount d lazily, NotMounted) # h) = is_mounted dev (b \<and> d \<noteq> dev) h"
| "is_mounted dev b (x # h) = is_mounted dev b h"

lemma is_mounted_append [simp]: "is_mounted dev b (h @ h') = is_mounted dev (is_mounted dev b h) h'"
  by (induction dev b h rule: is_mounted.induct) simp_all

definition released :: "string \<Rightarrow> udisks_log \<Rightarrow> bool" where
  "released dev h \<longleftrightarrow> \<not> is_mounted dev False h"

text \<open>A forced unmount that failed was the last request.\<close>

definition gave_up :: "string \<Rightarrow> udisks_log \<Rightarrow> bool" where
  "gave_up dev h \<longleftrightarrow> (\<exists>h0 x. h = h0 @ [(Unmount dev True, x)] \<and> x \<notin> {Unmounted, NotMounted})"

text \<open>The lazy unmount releases the device, or it was the last request and failed.\<close>

lemma unmount_lazy_releases:
  assumes "unmount_lazy (udisks_with_log ans) dev (known, h) = (r, (known', h'))"
  shows "known' = known" and "r = Inr () \<and> \<not> is_mounted dev b h' \<or> r = Inl GlibFailed \<and> gave_up dev h'"
  using assms
  by (auto simp: unmount_lazy_def ask_udisks_def udisks_with_log_def gave_up_def split: udisks_answer.splits)

lemma unmount_waiting_releases:
  "unmount_waiting n (udisks_with_log ans) dev (known, h) = (Inr (), (known', h')) \<Longrightarrow> \<not> is_mounted dev b h'"
  by (induction n arbitrary: h)
    (auto simp: ask_udisks_def udisks_with_log_def split: udisks_answer.splits)

lemma unmount_waiting_known:
  "unmount_waiting n (udisks_with_log ans) dev (known, h) = (r, (known', h')) \<Longrightarrow> known' = known"
  by (induction n arbitrary: h)
    (auto simp: ask_udisks_def udisks_with_log_def split: udisks_answer.splits)

lemma find_udisks_mounted:
  "find_udisks n (udisks_with_log ans) dev (known, h) = (r, (known', h')) \<Longrightarrow>
   is_mounted dev b h' = is_mounted dev b h \<and> (r = Inr () \<longrightarrow> dev \<in> set known')"
proof (induction n arbitrary: h r)
  case 0
  then show ?case
    by (subst (asm) find_udisks.simps)
      (auto simp: ask_udisks_def udisks_with_log_def split: udisks_answer.splits)
next
  case (Suc n)
  from Suc.prems show ?case
    by (subst (asm) find_udisks.simps)
      (auto simp: ask_udisks_def udisks_with_log_def split: udisks_answer.splits dest: Suc.IH)
qed

lemma mount_device_failed:
  assumes "mount_device (udisks_with_log ans) dev (known, h) = (Inl e, (known', h'))" and "\<not> is_mounted dev b h"
  shows "\<not> is_mounted dev b h'"
  using assms
  by (auto simp: mount_device_def ask_udisks_def udisks_with_log_def unmount_lazy_def split: udisks_answer.splits)

lemma mount_device_known:
  "mount_device (udisks_with_log ans) dev (known, h) = (r, (known', h')) \<Longrightarrow> known' = known"
  by (auto simp: mount_device_def ask_udisks_def udisks_with_log_def unmount_lazy_def split: udisks_answer.splits)

text \<open>A device that was mounted is known, so that unmounting asks for nothing else.\<close>

lemma handle_mount_cases:
  assumes "handle_mount (udisks_with_log ans) dev n (known, h) = (r, (known', h'))" and "\<not> is_mounted dev b h"
  shows "case r of
      Inl e \<Rightarrow> \<not> is_mounted dev b h'
    | Inr p \<Rightarrow> dev \<in> set known'"
proof -
  obtain q k1 h1 where get: "get_udisks2_dev (udisks_with_log ans) dev n (known, h) = (q, (k1, h1))"
    by (metis prod.exhaust)
  then have known: "is_mounted dev b h1 = is_mounted dev b h" "q = Inr () \<Longrightarrow> dev \<in> set k1"
    by (auto simp: get_udisks2_dev_def dest: find_udisks_mounted split: if_splits)
  show ?thesis
  proof (cases q)
    case (Inl e)
    with get known assms show ?thesis by (auto simp: handle_mount_def)
  next
    case (Inr u)
    with get assms(1) have "mount_device (udisks_with_log ans) dev (k1, h1) = (r, (known', h'))"
      by (simp add: handle_mount_def)
    with known Inr assms(2) show ?thesis
      by (auto dest: mount_device_failed mount_device_known split: sum.split)
  qed
qed

lemma handle_unmount_known:
  "dev \<in> set (fst s) \<Longrightarrow> handle_unmount ud dev lazily s =
     (if lazily then unmount_lazy ud dev s else unmount_waiting 5 ud dev s)"
  by (simp add: handle_unmount_def get_udisks2_dev_def)


section \<open>Other operations do not touch udisks\<close>

lemma via_ssh_fst [simp]: "fst (snd (via_ssh f s)) = fst s"
  by (simp add: via_ssh_def split: prod.split sum.split)

lemma run_storage_fst [simp]: "fst (snd (run_storage env cmd s)) = fst s"
  by (simp add: run_storage_def Let_def)

lemma checked_output_fst [simp]: "fst (snd (checked_output env cmd s)) = fst s"
  unfolding checked_output_def by (rule and_then_keeps [where P = "\<lambda>t. fst t = fst s"]) auto

lemma sync_path_fst [simp]: "fst (snd (sync_path fw env res f s)) = fst s"
  by (auto simp: sync_path_def split: sum.split prod.split)

lemma sync_all_fst: "fst s = u \<Longrightarrow> fst (snd (sync_all fw env res fs s)) = u"
proof (induction fs arbitrary: s)
  case (Cons f fs)
  show ?case
    unfolding sync_all.simps
    by (rule and_then_keeps [where P = "\<lambda>t. fst t = u"], simp add: Cons.prems)
      (rule and_then_keeps [where P = "\<lambda>t. fst t = u"], simp_all add: Cons.IH)
qed simp

lemma copy_files_fst [simp]: "fst (snd (copy_files fw env d fs path is_dir s)) = fst s"
  unfolding copy_files_def
  by (auto intro!: and_then_keeps [where P = "\<lambda>t. fst t = fst s"] sync_all_fst)

lemma storage_size_fst [simp]: "fst (snd (storage_size env d part s)) = fst s"
  unfolding storage_size_def by (auto intro!: and_then_keeps [where P = "\<lambda>t. fst t = fst s"])

lemma await_medium_fst: "await_medium n env d part t s = Some (r, s') \<Longrightarrow> fst s' = fst s"
proof (induction n arbitrary: s)
  case (Suc n)
  obtain q u m h where size: "storage_size env d part s = (q, u, m, h)" by (metis prod.exhaust)
  with storage_size_fst [of env d part s] have "u = fst s" by simp
  with Suc.prems size Suc.IH [of "(u, m, h @ [Slept (1 / 2)])"] show ?case
    by (auto split: if_splits sum.splits)
qed simp

lemma unmount_after_releases:
  assumes "snd outcome = ((known, h), m)" and "dev \<in> set known"
  obtains r h' where "unmount_after (udisks_with_log ans) dev outcome = (r, ((known, h'), m))"
    and "is_mounted dev False h' \<longrightarrow> gave_up dev h' \<and> r = Inl (StorageMount GlibFailed)"
proof -
  let ?ud = "udisks_with_log ans"
  note result = that
  have forced: thesis
    if "unmount_after ?ud dev outcome = and_then (via_udisks (handle_unmount ?ud dev True) ((known, h1), m)) (\<lambda>_ s. (Inl e, s))" for h1 e
  proof -
    obtain q k2 h2 where lazily: "unmount_lazy ?ud dev (known, h1) = (q, (k2, h2))" by (metis prod.exhaust)
    note released = unmount_lazy_releases(2) [OF lazily, of False] unmount_lazy_releases(1) [OF lazily]
    with lazily that assms(2) show thesis
      by (intro result [of "if q = Inr () then Inl e else Inl (StorageMount GlibFailed)" h2])
        (auto simp: via_udisks_def handle_unmount_known)
  qed
  obtain q k1 h1 where waiting: "unmount_waiting 5 ?ud dev (known, h) = (q, (k1, h1))" by (metis prod.exhaust)
  obtain c where outcome: "outcome = (c, (known, h), m)" using assms(1) by (cases outcome) simp
  show thesis
  proof (cases "\<exists>u. c = Inr u \<and> q = Inr ()")
    case True
    with waiting have "\<not> is_mounted dev False h1" by (metis unmount_waiting_releases)
    with True outcome waiting assms(2) unmount_waiting_known [OF waiting] show thesis
      by (intro result [of "Inr ()" h1]) (auto simp: unmount_after_def via_udisks_def handle_unmount_known)
  next
    case False
    show thesis
    proof (cases c)
      case (Inl e)
      with outcome show thesis by (intro forced [of h e]) (simp add: unmount_after_def)
    next
      case (Inr u)
      with False obtain e where "q = Inl e" by (cases q) auto
      with Inr outcome waiting assms(2) unmount_waiting_known [OF waiting] show thesis
        by (intro forced [of h1 "StorageMount e"]) (simp add: unmount_after_def via_udisks_def handle_unmount_known)
    qed
  qed
qed

text \<open>
  C40. Writing files to a storage device always comes to an end, and no mount of its own is left on the
  device, whatever fails in between. Only when udisks refuses even the lazy unmount, as the last thing
  that it is asked, the device stays mounted, and then that failure is what the caller gets.
\<close>

theorem write_files_releases:
  assumes clock: "clock_runs env" and before: "released (get_devpath d part) h"
  shows "\<exists>r known' h' m'.
    write_files (udisks_with_log ans) fw env d sources target part is_dir ((known, h), m) = Some (r, ((known', h'), m')) \<and>
    (released (get_devpath d part) h' \<or>
     gave_up (get_devpath d part) h' \<and> r = Inl (StorageMount GlibFailed))"
proof -
  note unmounted = before [unfolded released_def]
  let ?ud = "udisks_with_log ans" and ?dev = "get_devpath d part"
  obtain q s1 where wait: "wait_for_medium env d part ((known, h), m) = Some (q, s1)"
    using wait_for_medium_ends [OF clock] by (metis not_None_eq prod.exhaust)
  then have s1: "fst s1 = (known, h)" by (auto simp: wait_for_medium_def dest: await_medium_fst)
  show ?thesis
  proof (cases q)
    case (Inl e)
    with wait s1 unmounted show ?thesis
      by (cases s1) (auto simp: released_def write_files_def after_waiting_def)
  next
    case (Inr u)
    obtain r1 k2 h2 where mount: "handle_mount ?ud ?dev 5 (known, h) = (r1, (k2, h2))" by (metis prod.exhaust)
    note mounted = handle_mount_cases [OF mount unmounted]
    show ?thesis
    proof (cases r1)
      case (Inl e)
      with wait \<open>q = Inr u\<close> s1 mount mounted show ?thesis
        by (cases s1) (auto simp: released_def write_files_def after_waiting_def via_udisks_def Let_def)
    next
      case (Inr p)
      with mounted have known: "?dev \<in> set k2" by simp
      let ?copy = "copy_files fw env d sources (pure_join p target) is_dir ((k2, h2), snd s1)"
      define m3 where "m3 = snd (snd ?copy)"
      have copy: "snd ?copy = ((k2, h2), m3)" by (simp add: m3_def prod_eq_iff)
      have writing: "write_files ?ud fw env d sources target part is_dir ((known, h), m) =
        Some (unmount_after ?ud ?dev ?copy)"
        using wait \<open>q = Inr u\<close> s1 mount Inr
        by (simp add: write_files_def after_waiting_def via_udisks_def Let_def)
      obtain r h' where "unmount_after ?ud ?dev ?copy = (r, ((k2, h'), m3))"
        and "is_mounted ?dev False h' \<longrightarrow> gave_up ?dev h' \<and> r = Inl (StorageMount GlibFailed)"
        by (rule unmount_after_releases [OF copy known])
      with writing show ?thesis by (auto simp: released_def)
    qed
  qed
qed

text \<open>A card whose file system stays busy: the copy is made, and the device is unmounted lazily.\<close>

definition busy_udisks :: "udisks_log \<Rightarrow> udisks_request \<Rightarrow> udisks_answer" where
  "busy_udisks h q = (case q of
     LookFor d \<Rightarrow> FoundFilesystem | MountAt d \<Rightarrow> Mounted ''/media/card'' | Unmount d lazily \<Rightarrow> if lazily then Unmounted else DeviceBusy)"

definition card_env :: ssh_env where
  "card_env = slow\<lparr>answer := \<lambda>h c. Exited 0 ''8'' []\<rparr>"

definition card :: storage where
  "card = \<lparr>st_resource = LocalResource, st_path = ''/dev/sda'', st_image = None\<rparr>"

lemma card_clock: "clock_runs card_env"
  by (simp add: clock_runs_def card_env_def slow_def split: event.split)

lemma card_ready:
  "wait_for_medium card_env card (Some 1) (u, ([], [])) =
   Some (Inr (), (u, ([], [Ran [''cat'', ''/sys/class/block/sda1/size''] (Exited 0 ''8'' [])])))"
proof -
  have path: "''/sys/class/block/'' @ drop 5 (get_devpath card (Some 1)) @ ''/size'' = ''/sys/class/block/sda1/size''"
    by code_simp
  have number: "py_int 10 ''8'' = (Inr 8 :: py_error + int)" by code_simp
  have size: "storage_size card_env card (Some 1) (u, ([], [])) =
      (Inr 4096, (u, ([], [Ran [''cat'', ''/sys/class/block/sda1/size''] (Exited 0 ''8'' [])])))"
    unfolding storage_size_def path
    by (simp add: number card_env_def slow_def card_def wrap_command_def via_ssh_def run_storage_def Let_def)
  have start: "clock card_env [] = 0" and rounds: "(21 :: nat) = Suc 20" by (simp_all add: card_env_def slow_def)
  show ?thesis unfolding wait_for_medium_def rounds await_medium.simps by (simp add: size start)
qed

lemma busy_card_unmounted:
  "map fst (drop 2 (snd (fst (snd (the (write_files (udisks_with_log busy_udisks) example_world card_env card
     [''/boot/kernel''] ''/boot'' (Some 1) True (([], []), ([], [])))))))) =
   replicate 5 (Unmount ''/dev/sda1'' False) @ [Unmount ''/dev/sda1'' True]"
  unfolding write_files_def card_ready by code_simp

lemma write_files_releases_witness:
  "\<exists>r known' h' m'.
    write_files (udisks_with_log busy_udisks) example_world card_env card [''/boot/kernel''] ''/boot'' (Some 1) True
      (([], []), ([], [])) = Some (r, ((known', h'), m')) \<and>
    (released (get_devpath card (Some 1)) h' \<or>
     gave_up (get_devpath card (Some 1)) h' \<and> r = Inl (StorageMount GlibFailed))"
  by (rule write_files_releases [OF card_clock]) (simp add: released_def)

end
