(* ===== verification/Spec2Isabelle.thy ===== *)
theory Spec2Isabelle
  imports ClientCommands ExporterService Environment Strategies GraphStrategy UdevProps Logging ConsoleDrivers SshDriver PowerDrivers DigitalOutputs Storage
begin

text \<open>
  labgrid: a verification library of its coordinator, exporter, client, targets, strategies,
  configuration, drivers and connections.

  \<^bold>\<open>The program.\<close> A coordinator (\<^verbatim>\<open>labgrid/remote/coordinator.py\<close>) knows the exporters with their
  resources, the clients, the places and the reservations. Exporters
  (\<^verbatim>\<open>labgrid/remote/exporter.py\<close>) watch the resources of a host, publish what changes and start or
  stop the programs that make an acquired resource reachable when the coordinator asks them to. A
  client acquires a place, with which the resources that match it become its own; reservations are
  given to free places by the scheduler (\<^verbatim>\<open>labgrid/remote/scheduler.py\<close>). All three exchange the
  objects of \<^verbatim>\<open>labgrid/remote/common.py\<close>. In the process that runs a test, an environment
  (\<^verbatim>\<open>labgrid/environment.py\<close>) reads a configuration (\<^verbatim>\<open>labgrid/config.py\<close>) and the factory
  (\<^verbatim>\<open>labgrid/factory.py\<close>) builds a target (\<^verbatim>\<open>labgrid/target.py\<close>) of resources and drivers from it,
  which are bound to each other and activated on demand; a strategy (\<^verbatim>\<open>labgrid/strategy/\<close>) brings
  the device into the state that a test needs. USB resources find their device among the events
  of the system (\<^verbatim>\<open>labgrid/resource/udev.py\<close>); drivers talk to a shell or a bootloader over a console,
  switch power outlets (\<^verbatim>\<open>labgrid/driver/powerdriver.py\<close>, \<^verbatim>\<open>labgrid/driver/power/\<close>) and run
  commands over SSH, with connections that are shared and forward ports
  (\<^verbatim>\<open>labgrid/util/ssh.py\<close>, \<^verbatim>\<open>labgrid/util/proxy.py\<close>). Code that must run on the host of a resource is
  sent to an agent there (\<^verbatim>\<open>labgrid/util/agent.py\<close>, \<^verbatim>\<open>labgrid/util/agentwrapper.py\<close>), files are copied to
  it (\<^verbatim>\<open>labgrid/util/managedfile.py\<close>); digital outputs and storage devices are used in this way. What a driver does is a tree of steps that
  reporters show (\<^verbatim>\<open>labgrid/step.py\<close>, \<^verbatim>\<open>labgrid/logging.py\<close>).

  \<^bold>\<open>Shared theories.\<close>
  \<^item> \<open>Prelude\<close>: exceptions as values of a sum type, operations that return the state they reached
    also when they raise (\<open>outcome\<close>, \<open>and_then\<close>, \<open>for_each\<close>), dictionaries as association lists in
    insertion order behind the interface \<open>dictionary\<close>, and \<open>transition_system\<close>, the interface of
    everything that has an invariant.
  \<^item> \<open>PyLib\<close>, \<open>PyPath\<close>, \<open>PyText\<close>, \<open>PyUrl\<close>: what the program uses of Python: values whose type is
    known at run time with their equality and truth, splitting of strings, \<open>fnmatch\<close>, the patterns
    of tags, \<open>os.path\<close>, templates, subscripts, numbers and lines of text, and \<open>urllib.parse\<close> with the
    round trip of \<open>urlsplit\<close> and \<open>urlunsplit\<close>.

  \<^bold>\<open>The distributed part.\<close>
  \<^item> \<open>Scheduler\<close>: \<open>schedule_step\<close>, \<open>schedule_overlaps\<close> and \<open>schedule\<close>. The lemmas show that the
    allocation is a maximal matching that respects priority classes; the interface \<open>allocator\<close> is
    what the coordinator relies on.
  \<^item> \<open>Common\<close>: resource entries, matches, places and reservations with their protobuf messages and the
    round trips between them.
  \<^item> \<open>CoordState\<close>, \<open>CoordReserve\<close>, \<open>CoordHandlers\<close>: the state of \<open>Coordinator\<close>, the messages of exporters
    and clients, scheduling with its expiry and copies, and every call. Resources and commands are
    shared objects and live in a heap. A handler runs under a lock and waits only for the answer to
    a command; what happens meanwhile is a script of events, so a theorem about all scripts is one
    about all interleavings. \<open>coord_step\<close> is everything that can happen.
  \<^item> \<open>CoordInv\<close>, \<open>CoordProps\<close>: the invariant of all reachable states (no resource is held by two
    places), and what acquiring, releasing, synchronising, allowing and reloading promise.
  \<^item> \<open>Exporter\<close>, \<open>ExporterService\<close>: the export classes with parameters and hooks, polling, acquiring and
    releasing with the invariant of an export; the exporter that answers each request exactly once.
    How the hooks of the operating system end is part of the record \<open>outside\<close>, the changes of the
    local resource are arguments.

  \<^item> \<open>Client\<close>, \<open>ClientMirror\<close>, \<open>ClientCommands\<close>: \<open>ClientSession\<close> of \<^verbatim>\<open>labgrid/remote/client.py\<close> with its
    copy of places and resources, the pump that updates it, and the commands on places and
    reservations. Every synchronisation ends; after \<open>start\<close> the copy agrees with the
    coordinator, which is shown with the coordinator's own queue; a command calls the coordinator only
    after its checks. For the commands the coordinator is a parameter.

  \<^bold>\<open>The test process.\<close>
  \<^item> \<open>Target\<close>, \<open>TargetProps\<close>, \<open>TargetFind\<close>: objects with suppliers and clients, binding, finding,
    activation, deactivation and waiting. Objects are numbers into a heap; classes are names with
    their method resolution order; time, availability and the hooks of drivers are a \<open>world\<close> that
    answers the questions of the program in turn.
  \<^item> \<open>Config\<close>, \<open>Factory\<close>, \<open>Environment\<close>: templates, paths, options; the registry of classes, both ways
    to write objects, their construction; the targets of an environment. \<open>make_target\<close> is shown to be
    a run of the steps of a target, so the theorems about reachable targets hold for configured ones.
  \<^item> \<open>Strategies\<close>, \<open>GraphStrategy\<close>: transitions as sequences of calls of which any may raise; the
    path searches and transitions of graph strategies.
  \<^item> \<open>Steps\<close>, \<open>Logging\<close>: the stack of steps with its events, the reporters, and the console log files;
    the events of any program are well bracketed.

  \<^bold>\<open>Devices and connections.\<close>
  \<^item> \<open>Udev\<close>, \<open>UdevProps\<close>: the manager of USB resources and their matching, which devices they get and
    keep, and what they report.
  \<^item> \<open>Console\<close>, \<open>ConsoleDrivers\<close>: the shell, Barebox and U-Boot drivers: command lines with hidden
    markers, the parsers of the answers, the loops that wait for a prompt. A console is a script of
    answers to the questions of the driver.
  \<^item> \<open>Ssh\<close>, \<open>SshProps\<close>: connections of \<^verbatim>\<open>labgrid/util/ssh.py\<close> and their manager. What has been opened
    at the master is read off the history of the programs that were started, and what a connection
    remembers is shown to be open there.
  \<^item> \<open>Proxy\<close>, \<open>SshDriver\<close>: host, port, URL and command through a proxy; \<^verbatim>\<open>labgrid/driver/sshdriver.py\<close>
    with its own master, its forwardings and transfers; the driver and the connection read
    the same answer alike.
  \<^item> \<open>PowerBackends\<close>, \<open>PowerStates\<close>, \<open>PowerPages\<close>: for every backend the requests that switch an outlet
    and the reading of its state; different outlets get different requests, and from the
    documented answers the right state is read.
  \<^item> \<open>PowerDrivers\<close>: the drivers of \<^verbatim>\<open>labgrid/driver/powerdriver.py\<close> over programs, pins, backends and
    services, with cycles and proxies.
  \<^item> \<open>Agents\<close>, \<open>AgentModules\<close>: the messages between \<^verbatim>\<open>labgrid/util/agentwrapper.py\<close> and \<^verbatim>\<open>labgrid/util/agent.py\<close>, and
    the modules for GPIOs, FTDI chips and relay boards. A call through the agent is shown to be the call
    of the module, so that the theories below call modules directly.
  \<^item> \<open>DigitalOutputs\<close>: the drivers of digital outputs over agents, registers, web pages and files. The
    interface \<open>digital_output\<close> says that what was set is read back; six kinds of output provide it.
  \<^item> \<open>ManagedFiles\<close>, \<open>Storage\<close>: files that are made available on the host of a resource, and the driver of
    USB storage with the module \<^verbatim>\<open>labgrid/util/agents/udisks2.py\<close>; where a synchronised file is, and that
    writing files leaves no device mounted.
  \<^item> \<open>Processes\<close>: \<open>ProcessWrapper\<close> of \<^verbatim>\<open>labgrid/util/helper.py\<close> and the quoting of \<open>shlex\<close>.

  \<^bold>\<open>Loops and recursion.\<close> Recursions that follow the data are total functions. Those that Python
  bounds by its stack (activation, deactivation, the search for resources) have their depth as an
  argument, and in every reachable target twice the number of bound objects and two is enough
  (\<open>TargetProps\<close>). The walk of a graph strategy has a number of rounds, and for acyclic dependencies
  one more than the rank of the state is enough (\<open>GraphStrategy\<close>). The waiting loop of a target makes
  as many rounds as its timeout allows, which the world says. The loop of the scheduler terminates
  because every round uses up a filter. The attempts to start an SSH master have their number as
  fuel: each takes half a second at least, so that twice the timeout and one are enough
  (\<open>SshDriver\<close>); the wait for a storage medium has twenty-one rounds of half a second for its ten seconds
  (\<open>Storage\<close>); the loops of the console drivers end with their timeout in the same way.

  \<^bold>\<open>Abstractions.\<close> Messages of exceptions, logging and warnings are left out, their classes are kept.
  Strings hold code points below 256, floats are reals, the keys of dictionaries in messages and
  configurations are strings. Sets are lists without repetition whose order, where the program
  iterates, is an argument. Programs that are started and devices that are asked are functions of
  what has been asked of them before, so an answer can depend on everything that happened. An SSH
  connection belongs to the manager that holds it. \<open>urljoin\<close> and the \<open>format\<close> of strings are
  symbols in the requests of power backends. The pieces in which the output of a program arrives
  are a parameter of \<open>check_output\<close>.

  \<^bold>\<open>Not modelled.\<close> The servers of gRPC and the generated messages, the YAML library, the programs that
  exporters and drivers start and the devices behind drivers are outside and appear as parameters.
  Of the client the parser, printing and the commands that act on a target are missing. The other
  drivers and the agents for networks are not modelled: most of them put together the
  arguments of a program, and the rest is the input and output of other hosts.
  Protocols and most resources are declarations without behaviour.
\<close>

end
